(* ===== verification/Prelude.thy ===== *)
theory Prelude
  imports Main "HOL-Library.Word" "HOL-Library.Signed_Division"
begin

text \<open>
  Shared vocabulary of the development: the C integer types the sources use, the C rules for
  signed arithmetic (division truncates towards zero, 32-bit values wrap), fixed-size arrays as
  lists, and the collections of rewrite rules the component theories add to.

  Conventions. An \<^verbatim>\<open>uint8_t\<close>, \<^verbatim>\<open>uint16_t\<close>, \<^verbatim>\<open>uint32_t\<close> or \<^verbatim>\<open>uint64_t\<close> is a word of that width.
  An \<^verbatim>\<open>int\<close> or \<^verbatim>\<open>int32_t\<close> is an \<open>int\<close>; where the source can leave the 32-bit range the wrap is
  written out with \<open>wrap32\<close>. An array of the source is a list whose length is part of the
  component's invariant. A pointer the caller owns is the value it points to.
\<close>

unbundle bit_operations_syntax

named_theorems inv_simps \<open>definitions of component invariants\<close>
named_theorems op_defs \<open>definitions of component operations\<close>
named_theorems frame_simps \<open>fields an operation leaves alone\<close>

type_synonym u8 = "8 word"
type_synonym u16 = "16 word"
type_synonym u32 = "32 word"
type_synonym u64 = "64 word"

section \<open>C integers\<close>

definition wrap32 :: "int \<Rightarrow> int" where
  "wrap32 x = (x + 2 ^ 31) mod 2 ^ 32 - 2 ^ 31"

definition in_s32 :: "int \<Rightarrow> bool" where
  "in_s32 x \<longleftrightarrow> - (2 ^ 31) \<le> x \<and> x < 2 ^ 31"

lemma wrap32_range: "in_s32 (wrap32 x)"
proof -
  have "0 \<le> (x + 2 ^ 31) mod 2 ^ 32" "(x + 2 ^ 31) mod 2 ^ 32 < (2::int) ^ 32"
    by simp_all
  then show ?thesis by (simp add: wrap32_def in_s32_def)
qed

lemma wrap32_id [simp]: "in_s32 x \<Longrightarrow> wrap32 x = x"
  by (simp add: wrap32_def in_s32_def)

lemma wrap32_small: "\<bar>x\<bar> \<le> 2147483647 \<Longrightarrow> wrap32 x = x"
  by (rule wrap32_id) (simp add: in_s32_def abs_le_iff)

lemma sdiv_int_bounds:
  assumes "\<bar>a\<bar> \<le> k * b" "0 < b" "0 \<le> k"
  shows "\<bar>a sdiv b\<bar> \<le> (k::int)"
proof -
  have "\<bar>a\<bar> div b \<le> k * b div b"
    using assms by (intro zdiv_mono1) auto
  with assms show ?thesis
    by (auto simp: signed_divide_int_def abs_mult sgn_if pos_imp_zdiv_nonneg_iff)
qed

lemma sdiv_int_sign:
  assumes "0 < (b::int)"
  shows "0 \<le> a \<Longrightarrow> 0 \<le> a sdiv b" and "a \<le> 0 \<Longrightarrow> a sdiv b \<le> 0"
  using assms
  by (auto simp: signed_divide_int_def sgn_if pos_imp_zdiv_nonneg_iff)

lemma sdiv_int_abs_le: "0 < (b::int) \<Longrightarrow> \<bar>a sdiv b\<bar> \<le> \<bar>a\<bar>"
  by (cases "a = 0") (auto intro!: sdiv_int_bounds simp: mult_le_cancel_left1)

text \<open>Milliseconds between two readings of a wrapping 32-bit clock, as the signed difference the sources compute.\<close>

definition elapsed :: "u32 \<Rightarrow> u32 \<Rightarrow> int" where
  "elapsed now t = sint (now - t)"

section \<open>Numbers in text\<close>

text \<open>\<^verbatim>\<open>atoi\<close>: leading blanks, an optional sign, digits; the value wraps at 32 bits.\<close>

definition is_space :: "char \<Rightarrow> bool" where
  "is_space c = ((of_char c :: nat) = 32 \<or> 9 \<le> (of_char c :: nat) \<and> (of_char c :: nat) \<le> 13)"

definition is_digit :: "char \<Rightarrow> bool" where
  "is_digit c = (48 \<le> (of_char c :: nat) \<and> (of_char c :: nat) \<le> 57)"

definition digits_value :: "string \<Rightarrow> int" where
  "digits_value s = foldl (\<lambda>v c. v * 10 + (of_char c - 48)) 0 (takeWhile is_digit s)"

definition atoi :: "string \<Rightarrow> int" where
  "atoi s =
     (case dropWhile is_space s of
        [] \<Rightarrow> 0
      | c # r \<Rightarrow> if c = CHR ''-'' then wrap32 (- digits_value r)
                 else if c = CHR ''+'' then wrap32 (digits_value r)
                 else wrap32 (digits_value (c # r)))"

section \<open>Fixed-size arrays\<close>

lemma list_all_update [intro]:
  "list_all P xs \<Longrightarrow> P x \<Longrightarrow> list_all P (xs[i := x])"
  by (auto simp: list_all_iff dest: set_update_subset_insert [THEN subsetD])

lemma list_all_nthD: "list_all P xs \<Longrightarrow> i < length xs \<Longrightarrow> P (xs ! i)"
  by (simp add: list_all_length)

lemma list_all_replicate [simp]: "list_all P (replicate n x) \<longleftrightarrow> n = 0 \<or> P x"
  by (auto simp: list_all_iff)

lemma take_Suc_update: "j < length xs \<Longrightarrow> take (Suc j) (xs[j := x]) = take j xs @ [x]"
  by (simp add: take_Suc_conv_app_nth)

section \<open>Words\<close>

lemma unat_mod_pow2_u32: "unat ((x::u32) AND 511) = unat x mod 512"
proof -
  have "(x AND 511) = take_bit 9 x"
    by (simp add: take_bit_eq_mask mask_eq_exp_minus_1)
  then have "unat (x AND 511) = take_bit 9 (unat x)"
    by (simp only: unsigned_take_bit_eq)
  then show ?thesis by (simp add: take_bit_eq_mod)
qed

lemma xor_left_self: "a XOR (a XOR b) = (b :: 'a::len word)"
  by (simp flip: xor.assoc)

lemma xor_eq_left_iff: "a XOR b = a \<longleftrightarrow> b = (0 :: 'a::len word)"
  by (metis xor_left_self xor_self_eq xor.right_neutral)

lemma xor_eq_0_word_iff: "a XOR b = 0 \<longleftrightarrow> a = (b :: 'a::len word)"
  by (metis xor_left_self xor_self_eq xor.right_neutral)

lemma take_bit_word_id:
  assumes "unat (v :: 'a::len word) < 2 ^ n"
  shows "take_bit n v = v"
proof -
  have "unat (take_bit n v) = unat v"
    using assms by (simp only: unsigned_take_bit_eq take_bit_nat_eq_self)
  then show ?thesis by (simp only: word_unat_eq_iff)
qed

end
