(* ===== verification/Interfaces.thy ===== *)
theory Interfaces
  imports Prelude
begin

text \<open>
  The interfaces several components share, as locales. Each is interpreted on the definitions of
  the component that provides it, in that component's theory.

  \<^item> \<open>fifo\<close>: a queue read from its front; \<open>bounded_fifo\<close> adds a producer that refuses when the
    queue is full (the interrupt rings and the frame queues of the drivers), \<open>overwrite_fifo\<close> a
    producer that drops the oldest element instead (the mouse event ring).
  \<^item> \<open>pin_array\<close>: one bit per pin, where writing a pin leaves the others alone (GPIO level and
    direction).
  \<^item> \<open>transition_system\<close>: a driver as a set of start states and a step relation, with an invariant
    every operation keeps.
\<close>

section \<open>Queues\<close>

locale fifo =
  fixes pop :: "'q \<Rightarrow> ('a \<times> 'q) option"
    and contents :: "'q \<Rightarrow> 'a list"
    and invar :: "'q \<Rightarrow> bool"
  assumes pop_empty: "invar q \<Longrightarrow> contents q = [] \<Longrightarrow> pop q = None"
    and pop_cons: "invar q \<Longrightarrow> contents q = x # xs \<Longrightarrow>
      \<exists>q'. pop q = Some (x, q') \<and> contents q' = xs \<and> invar q'"
begin

text \<open>Popping \<open>n\<close> times: the elements read and the queue left.\<close>

fun pops :: "nat \<Rightarrow> 'q \<Rightarrow> 'a list \<times> 'q" where
  "pops 0 q = ([], q)"
| "pops (Suc n) q = (case pop q of None \<Rightarrow> ([], q)
     | Some (x, q') \<Rightarrow> (let (xs, r) = pops n q' in (x # xs, r)))"

lemma pop_None_iff: "invar q \<Longrightarrow> pop q = None \<longleftrightarrow> contents q = []"
  by (cases "contents q") (auto simp: pop_empty dest: pop_cons)

lemma pop_SomeD:
  assumes "invar q" "pop q = Some (x, q')"
  shows "contents q = x # contents q' \<and> invar q'"
proof (cases "contents q")
  case Nil
  with assms show ?thesis by (simp add: pop_empty)
next
  case (Cons y ys)
  from pop_cons [OF assms(1) this] assms(2) Cons show ?thesis by auto
qed

lemma pops_contents:
  "invar q \<Longrightarrow> fst (pops n q) = take n (contents q) \<and>
     contents (snd (pops n q)) = drop n (contents q) \<and> invar (snd (pops n q))"
proof (induction n arbitrary: q)
  case 0
  then show ?case by simp
next
  case (Suc n)
  show ?case
  proof (cases "pop q")
    case None
    with Suc.prems have "contents q = []" by (simp add: pop_None_iff)
    with None Suc.prems show ?thesis by simp
  next
    case (Some p)
    obtain x q' where p: "p = (x, q')" by (cases p)
    from pop_SomeD Suc.prems Some p have c: "contents q = x # contents q'" "invar q'" by auto
    from Suc.IH [OF c(2)] c(1) Some p show ?thesis by (simp add: split_beta)
  qed
qed

end

locale bounded_fifo = fifo pop contents invar
  for pop :: "'q \<Rightarrow> ('a \<times> 'q) option" and contents :: "'q \<Rightarrow> 'a list" and invar :: "'q \<Rightarrow> bool" +
  fixes push :: "'a \<Rightarrow> 'q \<Rightarrow> 'q"
    and capacity :: "'q \<Rightarrow> nat"
    and accepts :: "'q \<Rightarrow> 'a \<Rightarrow> bool"
  assumes push_room: "invar q \<Longrightarrow> accepts q x \<Longrightarrow> length (contents q) < capacity q \<Longrightarrow>
      contents (push x q) = contents q @ [x]"
    and push_full: "invar q \<Longrightarrow> \<not> (accepts q x \<and> length (contents q) < capacity q) \<Longrightarrow>
      contents (push x q) = contents q"
    and push_invar: "invar q \<Longrightarrow> invar (push x q)"
    and push_capacity: "invar q \<Longrightarrow> capacity (push x q) = capacity q"
    and push_accepts: "invar q \<Longrightarrow> accepts (push x q) y = accepts q y"
    and bounded: "invar q \<Longrightarrow> length (contents q) \<le> capacity q"
begin

text \<open>A burst of producer steps keeps the oldest elements that fit and drops the rest.\<close>

lemma fold_push:
  "invar q \<Longrightarrow> list_all (accepts q) xs \<Longrightarrow>
     contents (fold push xs q) = contents q @ take (capacity q - length (contents q)) xs \<and>
     invar (fold push xs q) \<and> capacity (fold push xs q) = capacity q"
proof (induction xs arbitrary: q)
  case Nil
  then show ?case by simp
next
  case (Cons x xs)
  have inv: "invar (push x q)" and cap: "capacity (push x q) = capacity q"
    using Cons.prems by (simp_all add: push_invar push_capacity)
  have acc: "list_all (accepts (push x q)) xs"
    using Cons.prems by (simp add: push_accepts list_all_iff)
  note IH = Cons.IH [OF inv acc]
  show ?case
  proof (cases "length (contents q) < capacity q")
    case True
    then have "contents (push x q) = contents q @ [x]"
      using Cons.prems by (simp add: push_room)
    moreover have "capacity q - length (contents q) = Suc (capacity q - Suc (length (contents q)))"
      using True by simp
    ultimately show ?thesis using IH cap by simp
  next
    case False
    then have "contents (push x q) = contents q"
      using Cons.prems by (simp add: push_full)
    with IH cap False show ?thesis by simp
  qed
qed

text \<open>First in, first out, through a whole burst.\<close>

lemma fold_push_pops:
  assumes "invar q" "contents q = []" "list_all (accepts q) xs" "length xs \<le> capacity q"
  shows "fst (pops (length xs) (fold push xs q)) = xs"
  using fold_push [OF assms(1,3)] assms(2,4) pops_contents [of "fold push xs q" "length xs"]
  by simp

end

locale overwrite_fifo = fifo pop contents invar
  for pop :: "'q \<Rightarrow> ('a \<times> 'q) option" and contents :: "'q \<Rightarrow> 'a list" and invar :: "'q \<Rightarrow> bool" +
  fixes push :: "'a \<Rightarrow> 'q \<Rightarrow> 'q"
    and capacity :: nat
  assumes ow_room: "invar q \<Longrightarrow> length (contents q) < capacity \<Longrightarrow>
      contents (push x q) = contents q @ [x]"
    and ow_full: "invar q \<Longrightarrow> length (contents q) = capacity \<Longrightarrow>
      contents (push x q) = tl (contents q) @ [x]"
    and ow_invar: "invar q \<Longrightarrow> invar (push x q)"
    and ow_bounded: "invar q \<Longrightarrow> length (contents q) \<le> capacity"
    and ow_capacity: "0 < capacity"
begin

text \<open>A burst keeps the newest \<open>capacity\<close> elements, in order.\<close>

lemma fold_push_newest:
  "invar q \<Longrightarrow>
     contents (fold push xs q) =
       drop (length (contents q) + length xs - capacity) (contents q @ xs) \<and>
     invar (fold push xs q)"
proof (induction xs arbitrary: q)
  case Nil
  then show ?case using ow_bounded by simp
next
  case (Cons x xs)
  have inv: "invar (push x q)" using Cons.prems by (rule ow_invar)
  note IH = Cons.IH [OF inv]
  show ?case
  proof (cases "length (contents q) < capacity")
    case True
    with Cons.prems have "contents (push x q) = contents q @ [x]" by (simp add: ow_room)
    with IH show ?thesis by simp
  next
    case False
    with Cons.prems ow_bounded [of q] have len: "length (contents q) = capacity" by simp
    with Cons.prems have c: "contents (push x q) = tl (contents q) @ [x]" by (simp add: ow_full)
    obtain y ys where y: "contents q = y # ys"
      using len ow_capacity by (cases "contents q") auto
    have "drop (Suc (length xs)) (y # ys @ x # xs) = drop (length xs) (ys @ x # xs)" by simp
    with IH c y len show ?thesis by auto
  qed
qed

end

section \<open>Circular buffers as lists\<close>

text \<open>
  The elements of a circular buffer \<open>buf\<close> of \<open>n\<close> slots, \<open>k\<close> of them from slot \<open>t\<close> on: the
  abstraction function of every ring in the drivers.
\<close>

definition ring_list :: "nat \<Rightarrow> 'a list \<Rightarrow> nat \<Rightarrow> nat \<Rightarrow> 'a list" where
  "ring_list n buf t k = map (\<lambda>i. buf ! ((t + i) mod n)) [0..<k]"

lemma length_ring_list [simp]: "length (ring_list n buf t k) = k"
  by (simp add: ring_list_def)

lemma ring_list_0 [simp]: "ring_list n buf t 0 = []"
  by (simp add: ring_list_def)

lemma ring_slots_distinct:
  assumes "i < k" "k < (n::nat)"
  shows "(t + i) mod n \<noteq> (t + k) mod n"
proof
  assume "(t + i) mod n = (t + k) mod n"
  then have "n dvd (t + k) - (t + i)"
    using assms by (intro mod_eq_dvd_iff_nat [THEN iffD1]) auto
  then have "n dvd k - i" using assms by simp
  then have "n \<le> k - i" using assms by (auto intro: dvd_imp_le)
  with assms show False by simp
qed

lemma ring_list_snoc:
  assumes "k < n" "length buf = n"
  shows "ring_list n (buf[(t + k) mod n := x]) t (Suc k) = ring_list n buf t k @ [x]"
proof -
  have "buf[(t + k) mod n := x] ! ((t + i) mod n) = buf ! ((t + i) mod n)" if "i < k" for i
    using ring_slots_distinct [OF that assms(1), of t] by (metis nth_list_update_neq)
  moreover have "(t + k) mod n < length buf" using assms by simp
  ultimately show ?thesis by (simp add: ring_list_def)
qed

lemma ring_list_cons:
  assumes "t < n"
  shows "ring_list n buf t (Suc k) = buf ! t # ring_list n buf (Suc t mod n) k"
proof -
  have "map (\<lambda>i. buf ! ((t + i) mod n)) [0..<Suc k] =
        buf ! (t mod n) # map (\<lambda>i. buf ! ((t + Suc i) mod n)) [0..<k]"
    by (simp add: upt_conv_Cons map_Suc_upt [symmetric] comp_def del: upt_Suc)
  also have "\<dots> = buf ! t # map (\<lambda>i. buf ! ((Suc t mod n + i) mod n)) [0..<k]"
    using assms by (simp add: mod_simps)
  finally show ?thesis by (simp only: ring_list_def)
qed

lemma ring_slot_eq:
  assumes "i < (n::nat)"
  shows "(t + i) mod n = (t + k) mod n \<longleftrightarrow> i = k mod n"
proof -
  have "(t + i) mod n = (t + k) mod n \<longleftrightarrow> (int t + int i) mod int n = (int t + int k) mod int n"
    by (metis of_nat_add of_nat_eq_iff of_nat_mod)
  also have "\<dots> \<longleftrightarrow> int i mod int n = int k mod int n" by (simp add: mod_eq_dvd_iff)
  also have "\<dots> \<longleftrightarrow> i mod n = k mod n" by (metis of_nat_eq_iff of_nat_mod)
  finally show ?thesis using assms by simp
qed

lemma ring_list_update:
  assumes "0 < n" "length buf = n"
  shows "ring_list n (buf[(t + k) mod n := x]) t n = (ring_list n buf t n)[k mod n := x]"
proof (rule nth_equalityI)
  fix i assume "i < length (ring_list n (buf[(t + k) mod n := x]) t n)"
  then have i: "i < n" by simp
  with assms show "ring_list n (buf[(t + k) mod n := x]) t n ! i = (ring_list n buf t n)[k mod n := x] ! i"
    using ring_slot_eq [OF i, of t k] by (auto simp: ring_list_def nth_list_update)
qed simp

lemma ring_list_wrap: "0 < n \<Longrightarrow> ring_list n buf t m = map (\<lambda>i. ring_list n buf t n ! (i mod n)) [0..<m]"
  by (simp add: ring_list_def mod_simps)

text \<open>The number of occupied slots between a read index and a write index.\<close>

definition ring_count :: "nat \<Rightarrow> nat \<Rightarrow> nat \<Rightarrow> nat" where
  "ring_count n h t = (h + n - t) mod n"

lemma ring_count_less: "0 < n \<Longrightarrow> ring_count n h t < n"
  by (simp add: ring_count_def)

lemma ring_count_0_iff: "h < n \<Longrightarrow> t < n \<Longrightarrow> ring_count n h t = 0 \<longleftrightarrow> h = t"
  unfolding ring_count_def
  by (cases "t \<le> h") (auto simp: mod_if le_mod_geq)

lemma ring_count_head: "h < n \<Longrightarrow> t < n \<Longrightarrow> (t + ring_count n h t) mod n = h"
  by (auto simp: ring_count_def mod_if)

lemma ring_count_self [simp]: "0 < n \<Longrightarrow> t < n \<Longrightarrow> ring_count n t t = 0"
  by (simp add: ring_count_def)

lemma ring_count_push:
  assumes "h < n" "t < n" "Suc h mod n \<noteq> t"
  shows "ring_count n (Suc h mod n) t = Suc (ring_count n h t)"
  using assms by (auto simp: ring_count_def mod_if split: if_splits)

lemma ring_count_full:
  assumes "h < n" "t < n" "Suc h mod n = t"
  shows "ring_count n h t = n - 1"
  using assms by (auto simp: ring_count_def mod_if split: if_splits)

lemma ring_count_not_full:
  assumes "h < n" "t < n" "Suc h mod n \<noteq> t"
  shows "ring_count n h t < n - 1"
  using assms by (auto simp: ring_count_def mod_if split: if_splits)

lemma ring_count_pop:
  assumes "h < n" "t < n" "h \<noteq> t"
  shows "ring_count n h t = Suc (ring_count n h (Suc t mod n))"
  using assms by (auto simp: ring_count_def mod_if split: if_splits)

section \<open>Pins\<close>

text \<open>One bit per pin, written one pin at a time: the level and the direction of the GPIO lines.\<close>

locale pin_array =
  fixes get :: "'s \<Rightarrow> int \<Rightarrow> bool"
    and put :: "int \<Rightarrow> bool \<Rightarrow> 's \<Rightarrow> 's"
    and valid :: "int \<Rightarrow> bool"
    and invar :: "'s \<Rightarrow> bool"
  assumes get_put: "invar s \<Longrightarrow> valid p \<Longrightarrow> valid q \<Longrightarrow> get (put p v s) q = (if p = q then v else get s q)"
    and put_invar: "invar s \<Longrightarrow> invar (put p v s)"
begin

lemma puts_invar: "invar s \<Longrightarrow> invar (fold (\<lambda>(p, v). put p v) ws s)"
  by (induction ws arbitrary: s) (auto simp: put_invar)

text \<open>After a series of writes a pin holds the last value written to it, or what it held.\<close>

lemma puts_last:
  "invar s \<Longrightarrow> list_all (valid \<circ> fst) ws \<Longrightarrow> valid q \<Longrightarrow>
     get (fold (\<lambda>(p, v). put p v) ws s) q = (case map_of (rev ws) q of Some v \<Rightarrow> v | None \<Rightarrow> get s q)"
proof (induction ws arbitrary: s)
  case (Cons w ws)
  obtain p v where w: "w = (p, v)" by (cases w)
  have "get (fold (\<lambda>(p, v). put p v) ws (put p v s)) q =
      (case map_of (rev ws) q of Some v \<Rightarrow> v | None \<Rightarrow> get (put p v s) q)"
    using Cons.prems w by (intro Cons.IH) (auto simp: put_invar)
  with Cons.prems w show ?case
    by (auto simp: get_put map_add_def split: option.split)
qed simp

end

section \<open>Transition systems\<close>

locale transition_system =
  fixes init :: "'s \<Rightarrow> bool"
    and step :: "'s \<Rightarrow> 's \<Rightarrow> bool"
    and inv :: "'s \<Rightarrow> bool"
  assumes inv_init: "init s \<Longrightarrow> inv s"
    and inv_step: "inv s \<Longrightarrow> step s t \<Longrightarrow> inv t"
begin

lemma inv_steps: "step\<^sup>*\<^sup>* s t \<Longrightarrow> inv s \<Longrightarrow> inv t"
  by (induction rule: rtranclp_induct) (auto intro: inv_step)

lemma inv_reachable: "init s \<Longrightarrow> step\<^sup>*\<^sup>* s t \<Longrightarrow> inv t"
  by (blast intro: inv_steps inv_init)

end

section \<open>Simulations\<close>

text \<open>
  A program that handles events and a specification that handles the same events, related step by step:
  the contract of the daemons whose behaviour is specified by an abstract machine.
\<close>

locale simulation =
  fixes ok :: "'e \<Rightarrow> bool"
    and handle :: "'e \<Rightarrow> 's \<Rightarrow> 's"
    and spec :: "'e \<Rightarrow> 'a \<Rightarrow> 'a"
    and rel :: "'s \<Rightarrow> 'a \<Rightarrow> bool"
  assumes rel_handle: "ok e \<Longrightarrow> rel s a \<Longrightarrow> rel (handle e s) (spec e a)"
begin

lemma rel_run: "list_all ok es \<Longrightarrow> rel s a \<Longrightarrow> rel (fold handle es s) (fold spec es a)"
  by (induction es arbitrary: s a) (auto intro: rel_handle)

text \<open>Whatever the specification keeps invariant, and the relation carries over, the program keeps.\<close>

lemma run_invariant:
  assumes "list_all ok es" "rel s a" "P a" "\<And>e b. ok e \<Longrightarrow> P b \<Longrightarrow> P (spec e b)" "\<And>t b. rel t b \<Longrightarrow> P b \<Longrightarrow> Q t"
  shows "Q (fold handle es s)"
proof -
  have "P (fold spec es a)" using assms(1,3,4) by (induction es arbitrary: a) auto
  with rel_run [OF assms(1,2)] show ?thesis by (rule assms(5))
qed

end

section \<open>Block devices\<close>

text \<open>
  A block device: numbered cells read and written in runs. A failed write may leave anything in the
  cells it was to write, and nothing else changes; a failed read changes nothing.
\<close>

definition put_run :: "nat \<Rightarrow> 'b list \<Rightarrow> (nat \<Rightarrow> 'b) \<Rightarrow> nat \<Rightarrow> 'b" where
  "put_run s xs m a = (if s \<le> a \<and> a < s + length xs then xs ! (a - s) else m a)"

datatype 'b request = Read nat nat | Write nat "'b list"
datatype 'b reply = Data "'b list" | Written | Error

fun in_range :: "nat \<Rightarrow> 'b request \<Rightarrow> bool" where
  "in_range k (Read s n) \<longleftrightarrow> s + n \<le> k"
| "in_range k (Write s xs) \<longleftrightarrow> s + length xs \<le> k"

text \<open>The replies an ideal disk may give to a list of requests, and the disk it ends with.\<close>

inductive disk :: "(nat \<Rightarrow> 'b) \<Rightarrow> ('b request \<times> 'b reply) list \<Rightarrow> (nat \<Rightarrow> 'b) \<Rightarrow> bool" where
  disk_done: "disk m [] m"
| disk_read: "disk m t m' \<Longrightarrow> disk m ((Read s n, Data (map m [s..<s + n])) # t) m'"
| disk_read_error: "disk m t m' \<Longrightarrow> disk m ((Read s n, Error) # t) m'"
| disk_write: "disk (put_run s xs m) t m' \<Longrightarrow> disk m ((Write s xs, Written) # t) m'"
| disk_write_error: "disk (put_run s ys m) t m' \<Longrightarrow> length ys = length xs \<Longrightarrow>
    disk m ((Write s xs, Error) # t) m'"

lemma put_run_map: "(\<And>a. a \<notin> {s..<s + length xs} \<Longrightarrow> m' a = m a) \<Longrightarrow>
    m' = put_run s (map m' [s..<s + length xs]) m"
  by (auto simp: put_run_def fun_eq_iff)

lemma put_run_append: "put_run s (xs @ ys) m = put_run (s + length xs) ys (put_run s xs m)"
  by (auto simp: put_run_def fun_eq_iff nth_append intro!: arg_cong [where f = "(!) ys"])

lemma put_run_Nil [simp]: "put_run s [] m = m"
  by (auto simp: put_run_def fun_eq_iff)

lemma put_run_map_get: "i < length xs \<Longrightarrow> put_run s xs m (s + i) = xs ! i"
  by (simp add: put_run_def)

lemma map_put_run: "map (put_run s xs m) [s..<s + length xs] = xs"
  by (rule nth_equalityI) (simp_all add: put_run_def)

locale block_device =
  fixes rd :: "nat \<Rightarrow> nat \<Rightarrow> 'd \<Rightarrow> 'b list option \<times> 'd"
    and wr :: "nat \<Rightarrow> 'b list \<Rightarrow> 'd \<Rightarrow> bool \<times> 'd"
    and cell :: "'d \<Rightarrow> nat \<Rightarrow> 'b"
    and limit :: nat
    and invar :: "'d \<Rightarrow> bool"
  assumes rd_data: "invar d \<Longrightarrow> s + n \<le> limit \<Longrightarrow> rd s n d = (Some xs, d') \<Longrightarrow> xs = map (cell d) [s..<s + n]"
    and rd_keep: "invar d \<Longrightarrow> s + n \<le> limit \<Longrightarrow> cell (snd (rd s n d)) = cell d"
    and rd_invar: "invar d \<Longrightarrow> s + n \<le> limit \<Longrightarrow> invar (snd (rd s n d))"
    and wr_data: "invar d \<Longrightarrow> s + length xs \<le> limit \<Longrightarrow> wr s xs d = (True, d') \<Longrightarrow> cell d' = put_run s xs (cell d)"
    and wr_frame: "invar d \<Longrightarrow> s + length xs \<le> limit \<Longrightarrow> a \<notin> {s..<s + length xs} \<Longrightarrow>
      cell (snd (wr s xs d)) a = cell d a"
    and wr_invar: "invar d \<Longrightarrow> s + length xs \<le> limit \<Longrightarrow> invar (snd (wr s xs d))"
begin

text \<open>Serving one request and a list of requests.\<close>

fun serve :: "'b request \<Rightarrow> 'd \<Rightarrow> 'b reply \<times> 'd" where
  "serve (Read s n) d = (case rd s n d of (Some xs, d') \<Rightarrow> (Data xs, d') | (None, d') \<Rightarrow> (Error, d'))"
| "serve (Write s xs) d = (case wr s xs d of (ok, d') \<Rightarrow> (if ok then Written else Error, d'))"

fun serves :: "'b request list \<Rightarrow> 'd \<Rightarrow> ('b request \<times> 'b reply) list \<times> 'd" where
  "serves [] d = ([], d)"
| "serves (r # rs) d = (let (y, d) = serve r d; (t, d) = serves rs d in ((r, y) # t, d))"

lemma serve_disk:
  assumes "invar d" "in_range limit r" "serve r d = (y, d')" "disk (cell d') t m"
  shows "disk (cell d) ((r, y) # t) m \<and> invar d'"
proof (cases r)
  case (Read s n)
  obtain r1 d1 where rd: "rd s n d = (r1, d1)" by fastforce
  show ?thesis
  proof (cases r1)
    case None
    with assms Read rd rd_keep [of d s n] rd_invar [of d s n] show ?thesis by (auto intro: disk_read_error)
  next
    case (Some xs)
    with assms Read rd rd_keep [of d s n] rd_invar [of d s n] rd_data [of d s n xs d1]
    show ?thesis by (auto intro: disk_read)
  qed
next
  case (Write s xs)
  obtain ok d1 where wr: "wr s xs d = (ok, d1)" by fastforce
  have inv: "invar d1" using assms Write wr wr_invar [of d s xs] by simp
  show ?thesis
  proof (cases ok)
    case True
    with assms Write wr inv wr_data [of d s xs d1] show ?thesis by (auto intro: disk_write)
  next
    case False
    have "cell d1 = put_run s (map (cell d1) [s..<s + length xs]) (cell d)"
      using assms(1,2) Write wr wr_frame [of d s xs] by (intro put_run_map) simp
    with assms Write wr inv False show ?thesis
      using disk_write_error [of s "map (cell d1) [s..<s + length xs]" "cell d" t m xs] by auto
  qed
qed

text \<open>Every list of requests in range is answered the way some run of the ideal disk answers it.\<close>

lemma serves_disk:
  assumes "invar d" "list_all (in_range limit) rs"
  shows "disk (cell d) (fst (serves rs d)) (cell (snd (serves rs d))) \<and> invar (snd (serves rs d))"
  using assms
proof (induction rs arbitrary: d)
  case Nil
  then show ?case by (simp add: disk_done)
next
  case (Cons r rs)
  obtain y d' where s: "serve r d = (y, d')" by fastforce
  have inv: "invar d'"
    using Cons.prems s serve_disk [of d r y d' "[]" "cell d'"] by (simp add: disk_done)
  with Cons s show ?case
    using serve_disk [of d r y d'] by (simp add: split_beta Let_def)
qed

text \<open>What was written can be read back.\<close>

lemma read_back:
  assumes "invar d" "s + length xs \<le> limit" "wr s xs d = (True, d')" "rd s (length xs) d' = (Some ys, d'')"
  shows "ys = xs"
  using assms wr_data [OF assms(1-3)] wr_invar [OF assms(1,2)] rd_data [of d' s "length xs" ys d'']
  by (simp add: map_put_run)

end

end
