(* ===== verification/Ev3_Uart.thy ===== *)
theory Ev3_Uart
  imports Interfaces
begin

text \<open>
  The 16550-style UART of the LEGO EV3 sensor ports
  (\<^verbatim>\<open>src/lego.ev3/system/libs/arch_ev3/src/uart.c\<close>), for the two ports that have a hardware UART:
  the branch every \<^verbatim>\<open>ev3_uart_*\<close> function takes when its base is not one of the PRU sentinels.

  The record holds the registers the driver writes, the receive FIFO behind RBR and the bytes
  written to THR since reset, in wire order. The two line-status bits that the transmitter drives
  on its own (THRE and TEMT) are inputs of the model. A write of FCR with RXCLR empties the
  receive FIFO, a read of RBR takes its oldest byte.
\<close>

record uart16550 =
  ur_ier :: u32
  ur_lcr :: u32
  ur_mcr :: u32
  ur_fcr :: u32
  ur_pwremu :: u32
  ur_dll :: u32
  ur_dlh :: u32
  ur_rx :: "u8 list"
  ur_tx :: "u8 list"
  ur_thre :: bool
  ur_temt :: bool

definition EV3_IRQ_RX :: nat where "EV3_IRQ_RX = 0"
definition EV3_IRQ_TX :: nat where "EV3_IRQ_TX = 1"

definition baud_div :: "int \<Rightarrow> u16" where
  "baud_div baudrate =
     (let b = (if baudrate \<le> 0 then 2400 else baudrate)
      in ucast ((9375000 + (word_of_int b :: u32) div 2) div (word_of_int b :: u32)))"

definition ev3_uart_enable_irq :: "nat \<Rightarrow> bool \<Rightarrow> uart16550 \<Rightarrow> uart16550" where
  "ev3_uart_enable_irq dir en u =
     (let mask = (if dir \<noteq> 0 then 2 else 1) :: u32
      in if en then u\<lparr>ur_ier := ur_ier u OR mask\<rparr> else u\<lparr>ur_ier := ur_ier u AND NOT mask\<rparr>)"

definition write_fcr :: "u32 \<Rightarrow> uart16550 \<Rightarrow> uart16550" where
  "write_fcr v u = u\<lparr>ur_fcr := v, ur_rx := (if v AND 2 \<noteq> 0 then [] else ur_rx u)\<rparr>"

definition ev3_uart_init :: "int \<Rightarrow> uart16550 \<Rightarrow> uart16550" where
  "ev3_uart_init baudrate u =
     (let d = ucast (baud_div baudrate) :: u32;
          u = u\<lparr>ur_pwremu := 1\<rparr>;
          u = u\<lparr>ur_lcr := 0x80\<rparr>;
          u = u\<lparr>ur_dll := d AND 0xFF, ur_dlh := (drop_bit 8 d) AND 0xFF\<rparr>;
          u = u\<lparr>ur_lcr := 3, ur_mcr := 0\<rparr>;
          u = write_fcr (1 OR 2 OR 4) u
      in u\<lparr>ur_pwremu := 1 OR push_bit 13 1 OR push_bit 14 1\<rparr>)"

definition ev3_uart_flush_rx :: "uart16550 \<Rightarrow> uart16550" where
  "ev3_uart_flush_rx u = write_fcr (1 OR 2) u"

definition ev3_uart_set_baud :: "int \<Rightarrow> uart16550 \<Rightarrow> uart16550" where
  "ev3_uart_set_baud baudrate u =
     (let d = ucast (baud_div baudrate) :: u32;
          lcr = ur_lcr u;
          u = u\<lparr>ur_lcr := lcr OR 0x80\<rparr>;
          u = u\<lparr>ur_dll := d AND 0xFF, ur_dlh := (drop_bit 8 d) AND 0xFF\<rparr>;
          u = u\<lparr>ur_lcr := lcr AND NOT 0x80\<rparr>
      in ev3_uart_flush_rx u)"

definition ev3_uart_tx_empty :: "uart16550 \<Rightarrow> bool" where
  "ev3_uart_tx_empty u = ur_temt u"

definition ev3_uart_can_write :: "uart16550 \<Rightarrow> bool" where
  "ev3_uart_can_write u = ur_thre u"

definition ev3_uart_can_read :: "uart16550 \<Rightarrow> bool" where
  "ev3_uart_can_read u \<longleftrightarrow> ur_rx u \<noteq> []"

definition ev3_uart_putc :: "u8 \<Rightarrow> uart16550 \<Rightarrow> uart16550" where
  "ev3_uart_putc ch u = u\<lparr>ur_tx := ur_tx u @ [ch]\<rparr>"

definition ev3_uart_getc :: "uart16550 \<Rightarrow> u8 \<times> uart16550" where
  "ev3_uart_getc u = (case ur_rx u of [] \<Rightarrow> (0, u) | b # bs \<Rightarrow> (b, u\<lparr>ur_rx := bs\<rparr>))"

text \<open>The divisor the two latch registers hold.\<close>

definition uart_divisor :: "uart16550 \<Rightarrow> u32" where
  "uart_divisor u = (push_bit 8 (ur_dlh u) OR ur_dll u)"

section \<open>Facts\<close>

lemmas ev3_uart_defs = write_fcr_def ev3_uart_flush_rx_def ev3_uart_set_baud_def
  ev3_uart_putc_def ev3_uart_enable_irq_def Let_def

lemma baud_div_value:
  assumes "2400 \<le> r" "r \<le> 460800"
  shows "int (unat (baud_div r)) = (9375000 + r div 2) div r"
proof -
  let ?w = "word_of_int r :: u32"
  have r: "uint ?w = r"
    using assms by (simp add: uint_word_of_int)
  have d: "uint (?w div 2) = r div 2"
    by (simp add: uint_div r)
  have s: "uint (9375000 + ?w div 2 :: u32) = 9375000 + r div 2"
    using assms by (simp add: uint_word_ariths d)
  have q: "uint ((9375000 + ?w div 2) div ?w) = (9375000 + r div 2) div r"
    by (simp only: uint_div s r)
  have "(9375000 + r div 2) div r \<le> (9375000 + 460800) div 2400"
  proof -
    have "(9375000 + r div 2) div r \<le> (9375000 + 460800) div r"
      using assms by (intro zdiv_mono1) auto
    also have "\<dots> \<le> (9375000 + 460800) div 2400"
      using assms by (intro zdiv_mono2) auto
    finally show ?thesis .
  qed
  then have "(9375000 + r div 2) div r < 65536" by simp
  moreover have "0 \<le> (9375000 + r div 2) div r"
    using assms by (simp add: pos_imp_zdiv_nonneg_iff)
  ultimately have "(9375000 + r div 2) div r mod 65536 = (9375000 + r div 2) div r"
    by (intro mod_pos_pos_trivial)
  moreover have "int (unat ((9375000 + ?w div 2) div ?w)) = (9375000 + r div 2) div r"
    by (metis q uint_nat)
  ultimately show ?thesis
    using assms by (simp add: baud_div_def unsigned_ucast_eq take_bit_eq_mod zmod_int)
qed

lemma set_baud_rx [simp]: "ur_rx (ev3_uart_set_baud r u) = []"
  by (simp add: ev3_uart_defs)

lemma set_baud_tx [simp]: "ur_tx (ev3_uart_set_baud r u) = ur_tx u"
  by (simp add: ev3_uart_defs)

lemma set_baud_ier [simp]: "ur_ier (ev3_uart_set_baud r u) = ur_ier u"
  by (simp add: ev3_uart_defs)

lemma set_baud_temt [simp]: "ur_temt (ev3_uart_set_baud r u) = ur_temt u"
  by (simp add: ev3_uart_defs)

lemma set_baud_divisor [simp]: "uart_divisor (ev3_uart_set_baud r u) = ucast (baud_div r)"
proof -
  have mask8: "(255::u32) = mask 8" by (simp add: mask_eq_exp_minus_1)
  have "push_bit 8 ((drop_bit 8 (ucast (d::u16) :: u32)) AND 255) OR (ucast d AND 255) = ucast d" for d
    unfolding mask8 by (rule bit_word_eqI) (auto simp: bit_simps dest: bit_imp_le_length)
  then show ?thesis
    by (simp add: uart_divisor_def ev3_uart_defs)
qed

end
