(* ===== verification/Ev3_Uart_Sensor.thy ===== *)
theory Ev3_Uart_Sensor
  imports Ev3_Uart
begin

text \<open>
  The EV3 UART sensor protocol host
  (\<^verbatim>\<open>src/lego.ev3/system/libs/arch_ev3/src/uart_sensor.c\<close> with its header): the receive ring shared
  with the interrupt handler, the frame parser, the handshake
  SYNC, INFO, ACK\_DELAY, ACK\_WAIT, DATA, the keep-alive and watchdog of \<^verbatim>\<open>poll\<close>, mode selection
  with its retries and CMD\_WRITE.

  The record \<open>ev3_uart_sensor\<close> has the fields of the C struct; the four \<^verbatim>\<open>_rx_*\<close> fields are the
  nested record \<open>rx_ring\<close> and the UART found at \<^verbatim>\<open>_base\<close> is the field \<open>us_dev\<close>. The clock
  \<^verbatim>\<open>now_ms()\<close> is an argument. The bounded spin on THRE in \<^verbatim>\<open>uart_write\<close> only delays and is not
  represented; registration of the interrupt handler with the kernel is not represented either:
  \<open>rx_irq\<close> may run at any point between two operations.
\<close>

section \<open>Constants and data\<close>

definition EV3_UART_TYPE_EV3_COLOR :: int where "EV3_UART_TYPE_EV3_COLOR = 29"
definition EV3_UART_TYPE_MAX :: int where "EV3_UART_TYPE_MAX = 101"
definition EV3_UART_MAX_MODE :: int where "EV3_UART_MAX_MODE = 8"
definition EV3_UART_MAX_DATASETS :: int where "EV3_UART_MAX_DATASETS = 8"
definition EV3_UART_NAME_LEN :: int where "EV3_UART_NAME_LEN = 12"
definition EV3_UART_MAX_DATA_SIZE :: int where "EV3_UART_MAX_DATA_SIZE = 32"
definition EV3_UART_MAX_MESSAGE_SIZE :: int where
  "EV3_UART_MAX_MESSAGE_SIZE = EV3_UART_MAX_DATA_SIZE + 2"
definition EV3_UART_MAX_DATA_ERR :: int where "EV3_UART_MAX_DATA_ERR = 6"
definition EV3_UART_KEEP_ALIVE_MS :: u32 where "EV3_UART_KEEP_ALIVE_MS = 100"
definition EV3_UART_WATCHDOG_MS :: u32 where "EV3_UART_WATCHDOG_MS = 1000"
definition EV3_UART_SET_MODE_MS :: u32 where "EV3_UART_SET_MODE_MS = 50"
definition EV3_UART_SET_MODE_RETRY :: int where "EV3_UART_SET_MODE_RETRY = 10"
definition EV3_UART_SPEED_MIN :: u32 where "EV3_UART_SPEED_MIN = 2400"
definition EV3_UART_SPEED_MAX :: u32 where "EV3_UART_SPEED_MAX = 460800"
definition EV3_UART_RX_RING :: nat where "EV3_UART_RX_RING = 512"
definition ACK_DELAY_MS :: u32 where "ACK_DELAY_MS = 10"
definition ACK_SETTLE_MS :: u32 where "ACK_SETTLE_MS = 4"

lemmas ev3_uart_consts = EV3_UART_TYPE_EV3_COLOR_def EV3_UART_TYPE_MAX_def EV3_UART_MAX_MODE_def
  EV3_UART_MAX_DATASETS_def EV3_UART_NAME_LEN_def EV3_UART_MAX_DATA_SIZE_def
  EV3_UART_MAX_MESSAGE_SIZE_def EV3_UART_MAX_DATA_ERR_def EV3_UART_KEEP_ALIVE_MS_def
  EV3_UART_WATCHDOG_MS_def EV3_UART_SET_MODE_MS_def EV3_UART_SET_MODE_RETRY_def
  EV3_UART_SPEED_MIN_def EV3_UART_SPEED_MAX_def EV3_UART_RX_RING_def
  ACK_DELAY_MS_def ACK_SETTLE_MS_def

definition MSG_TYPE_MASK :: u8 where "MSG_TYPE_MASK = 0xC0"
definition MSG_SYS :: u8 where "MSG_SYS = 0x00"
definition MSG_CMD :: u8 where "MSG_CMD = 0x40"
definition MSG_INFO :: u8 where "MSG_INFO = 0x80"
definition MSG_DATA :: u8 where "MSG_DATA = 0xC0"
definition MSG_CMD_MASK :: u8 where "MSG_CMD_MASK = 0x07"
definition MSG_SIZE :: "u8 \<Rightarrow> int" where
  "MSG_SIZE h = 2 ^ unat ((drop_bit 3 h) AND 7)"

definition SYS_NACK :: u8 where "SYS_NACK = 0x02"
definition SYS_ACK :: u8 where "SYS_ACK = 0x04"
definition CMD_TYPE :: u8 where "CMD_TYPE = 0x00"
definition CMD_MODES :: u8 where "CMD_MODES = 0x01"
definition CMD_SPEED :: u8 where "CMD_SPEED = 0x02"
definition CMD_SELECT :: u8 where "CMD_SELECT = 0x03"
definition CMD_WRITE :: u8 where "CMD_WRITE = 0x04"
definition INFO_NAME :: u8 where "INFO_NAME = 0x00"
definition INFO_RAW :: u8 where "INFO_RAW = 0x01"
definition INFO_PCT :: u8 where "INFO_PCT = 0x02"
definition INFO_SI :: u8 where "INFO_SI = 0x03"
definition INFO_UNITS :: u8 where "INFO_UNITS = 0x04"
definition INFO_FORMAT :: u8 where "INFO_FORMAT = 0x80"
definition INFO_MODE_P8 :: u8 where "INFO_MODE_P8 = 0x20"

lemmas msg_consts = MSG_TYPE_MASK_def MSG_SYS_def MSG_CMD_def MSG_INFO_def MSG_DATA_def
  MSG_CMD_MASK_def SYS_NACK_def SYS_ACK_def CMD_TYPE_def CMD_MODES_def CMD_SPEED_def
  CMD_SELECT_def CMD_WRITE_def INFO_NAME_def INFO_RAW_def INFO_PCT_def INFO_SI_def
  INFO_UNITS_def INFO_FORMAT_def INFO_MODE_P8_def

definition IF_CMD_TYPE :: u32 where "IF_CMD_TYPE = 1"
definition IF_CMD_MODES :: u32 where "IF_CMD_MODES = 2"
definition IF_CMD_SPEED :: u32 where "IF_CMD_SPEED = 4"
definition IF_INFO_NAME :: u32 where "IF_INFO_NAME = 8"
definition IF_INFO_RAW :: u32 where "IF_INFO_RAW = 16"
definition IF_INFO_PCT :: u32 where "IF_INFO_PCT = 32"
definition IF_INFO_SI :: u32 where "IF_INFO_SI = 64"
definition IF_INFO_UNITS :: u32 where "IF_INFO_UNITS = 128"
definition IF_INFO_FORMAT :: u32 where "IF_INFO_FORMAT = 256"
definition IF_ALL_INFO :: u32 where
  "IF_ALL_INFO = IF_INFO_NAME OR IF_INFO_RAW OR IF_INFO_PCT OR IF_INFO_SI OR IF_INFO_UNITS OR
     IF_INFO_FORMAT"
definition IF_REQUIRED :: u32 where
  "IF_REQUIRED = IF_CMD_TYPE OR IF_CMD_MODES OR IF_INFO_NAME OR IF_INFO_FORMAT"

lemmas if_consts = IF_CMD_TYPE_def IF_CMD_MODES_def IF_CMD_SPEED_def IF_INFO_NAME_def
  IF_INFO_RAW_def IF_INFO_PCT_def IF_INFO_SI_def IF_INFO_UNITS_def IF_INFO_FORMAT_def
  IF_ALL_INFO_def IF_REQUIRED_def

datatype link_state = ST_SYNC | ST_INFO | ST_ACK_DELAY | ST_ACK_WAIT | ST_DATA

definition EV3_UART_DATA8 :: int where "EV3_UART_DATA8 = 0"
definition EV3_UART_DATA16 :: int where "EV3_UART_DATA16 = 1"
definition EV3_UART_DATA32 :: int where "EV3_UART_DATA32 = 2"
definition EV3_UART_DATAF :: int where "EV3_UART_DATAF = 3"

lemmas fmt_consts = EV3_UART_DATA8_def EV3_UART_DATA16_def EV3_UART_DATA32_def EV3_UART_DATAF_def

record rx_ring =
  rr_head :: u32
  rr_tail :: u32
  rr_overrun :: u32
  rr_ring :: "u8 list"

record ev3_uart_sensor =
  us_port :: int
  us_report_mode :: int
  us_synced :: bool
  us_type_id :: int
  us_modes :: int
  us_view_modes :: int
  us_mode :: int
  us_speed :: u32
  us_errors :: u32
  us_resyncs :: u32
  us_datasets :: "int list"
  us_fmt :: "int list"
  us_figures :: "int list"
  us_decimals :: "int list"
  us_name :: "u8 list list"
  us_units :: "u8 list list"
  us_data :: "int list list"
  us_base :: u32
  us_irq :: u32
  us_state :: link_state
  us_info_done :: bool
  us_info_flags :: u32
  us_requested_mode :: int
  us_new_mode :: int
  us_set_mode_retries :: int
  us_set_mode_ms :: u32
  us_keep_alive_ms :: u32
  us_last_data_ms :: u32
  us_ack_ms :: u32
  us_num_data_err :: int
  us_ignore_ff :: bool
  us_msg_idx :: nat
  us_msg_len :: nat
  us_msg :: "u8 list"
  us_wakeup :: bool
  us_rx :: rx_ring
  us_dev :: uart16550

section \<open>Receive ring\<close>

text \<open>The body of the two drain loops (\<^verbatim>\<open>rx_irq\<close> and \<^verbatim>\<open>rx_drain_hw\<close>): one byte into the ring.\<close>

definition rx_put :: "u8 \<Rightarrow> rx_ring \<Rightarrow> rx_ring" where
  "rx_put b r =
     (let head = rr_head r; nxt = (head + 1) AND 511
      in if nxt = rr_tail r then r\<lparr>rr_overrun := rr_overrun r + 1\<rparr>
         else r\<lparr>rr_ring := (rr_ring r)[unat head := b], rr_head := nxt\<rparr>)"

function rx_drain_loop :: "uart16550 \<Rightarrow> rx_ring \<Rightarrow> uart16550 \<times> rx_ring" where
  "rx_drain_loop u r =
     (if ev3_uart_can_read u
      then (let (b, u') = ev3_uart_getc u in rx_drain_loop u' (rx_put b r))
      else (u, r))"
  by pat_completeness auto
termination
  by (relation "measure (\<lambda>(u, r). length (ur_rx u))")
     (auto simp: ev3_uart_can_read_def ev3_uart_getc_def split: list.splits)

declare rx_drain_loop.simps [simp del]

definition rx_irq :: "ev3_uart_sensor \<Rightarrow> ev3_uart_sensor" where
  "rx_irq s =
     (if us_base s = 0 then s
      else let (u, r) = rx_drain_loop (us_dev s) (us_rx s) in s\<lparr>us_dev := u, us_rx := r\<rparr>)"

definition rx_pop_ring :: "rx_ring \<Rightarrow> (u8 \<times> rx_ring) option" where
  "rx_pop_ring r =
     (let tail = rr_tail r
      in if tail = rr_head r then None
         else Some (rr_ring r ! unat tail, r\<lparr>rr_tail := (tail + 1) AND 511\<rparr>))"

definition rx_pop :: "ev3_uart_sensor \<Rightarrow> (u8 \<times> ev3_uart_sensor) option" where
  "rx_pop s = map_option (\<lambda>(b, r). (b, s\<lparr>us_rx := r\<rparr>)) (rx_pop_ring (us_rx s))"

definition rx_flush :: "ev3_uart_sensor \<Rightarrow> ev3_uart_sensor" where
  "rx_flush s = s\<lparr>us_rx := (us_rx s)\<lparr>rr_tail := rr_head (us_rx s)\<rparr>\<rparr>"

definition rx_drain_hw :: "ev3_uart_sensor \<Rightarrow> ev3_uart_sensor" where
  "rx_drain_hw s =
     (let u = ev3_uart_enable_irq EV3_IRQ_RX False (us_dev s);
          (u, r) = rx_drain_loop u (us_rx s);
          u = ev3_uart_enable_irq EV3_IRQ_RX True u
      in s\<lparr>us_dev := u, us_rx := r\<rparr>)"

section \<open>Low-level helpers\<close>

definition uart_write :: "u8 list \<Rightarrow> ev3_uart_sensor \<Rightarrow> ev3_uart_sensor" where
  "uart_write bs s = s\<lparr>us_dev := fold ev3_uart_putc bs (us_dev s)\<rparr>"

definition uart_put :: "u8 \<Rightarrow> ev3_uart_sensor \<Rightarrow> ev3_uart_sensor" where
  "uart_put b s = uart_write [b] s"

definition fmt_size :: "int \<Rightarrow> nat" where
  "fmt_size f =
     (if f = EV3_UART_DATA8 then 1
      else if f = EV3_UART_DATA16 then 2
      else if f = EV3_UART_DATA32 \<or> f = EV3_UART_DATAF then 4
      else 1)"

text \<open>
  Little-endian 32-bit load, and the conversion of an IEEE single to \<^verbatim>\<open>int32_t\<close> by truncation. C leaves
  a value outside the 32-bit range undefined; the model saturates as the ARM EABI routine does, and
  sends a NaN to 0.
\<close>

definition le32 :: "u8 \<Rightarrow> u8 \<Rightarrow> u8 \<Rightarrow> u8 \<Rightarrow> u32" where
  "le32 a b c d = ucast a OR push_bit 8 (ucast b) OR push_bit 16 (ucast c) OR push_bit 24 (ucast d)"

definition float_to_int32 :: "u32 \<Rightarrow> int" where
  "float_to_int32 u =
     (let e = unat ((drop_bit 23 u) AND 255);
          frac = uint (u AND 0x7fffff);
          m = frac + 8388608;
          neg = bit u 31
      in if e < 127 then 0
         else if 158 \<le> e then (if e = 255 \<and> frac \<noteq> 0 then 0
                              else if neg then - (2 ^ 31) else 2 ^ 31 - 1)
         else (let v = (if 150 \<le> e then m * 2 ^ (e - 150) else m div 2 ^ (150 - e))
               in if neg then - v else v))"

definition decode_le :: "u8 list \<Rightarrow> int \<Rightarrow> int" where
  "decode_le p f =
     (if f = EV3_UART_DATA8 then sint (p ! 0)
      else if f = EV3_UART_DATA16 then sint (ucast (p ! 0) OR push_bit 8 (ucast (p ! 1)) :: u16)
      else if f = EV3_UART_DATA32 then sint (le32 (p ! 0) (p ! 1) (p ! 2) (p ! 3))
      else if f = EV3_UART_DATAF then float_to_int32 (le32 (p ! 0) (p ! 1) (p ! 2) (p ! 3))
      else uint (p ! 0))"

text \<open>\<^verbatim>\<open>copy_str(dst, dst_len, src, n)\<close>: at most \<open>dst_len - 1\<close> bytes up to a NUL, then a NUL.\<close>

definition copy_str :: "u8 list \<Rightarrow> nat \<Rightarrow> u8 list \<Rightarrow> nat \<Rightarrow> u8 list" where
  "copy_str dst dst_len src n =
     (let n = (if n > dst_len - 1 then dst_len - 1 else n);
          cp = takeWhile (\<lambda>c. c \<noteq> 0) (take n src)
      in cp @ (0 # drop (Suc (length cp)) dst))"

section \<open>Link control\<close>

definition send_select :: "int \<Rightarrow> ev3_uart_sensor \<Rightarrow> ev3_uart_sensor" where
  "send_select m s =
     (let m0 = MSG_CMD OR CMD_SELECT; m1 = word_of_int m; m2 = 0xff XOR m0 XOR m1
      in uart_write [m0, m1, m2] s)"

definition start_select :: "int \<Rightarrow> u32 \<Rightarrow> ev3_uart_sensor \<Rightarrow> ev3_uart_sensor" where
  "start_select m now s =
     send_select m (s\<lparr>us_new_mode := m, us_set_mode_retries := 0, us_set_mode_ms := now\<rparr>)"

definition resync :: "ev3_uart_sensor \<Rightarrow> ev3_uart_sensor" where
  "resync s =
     (let s = s\<lparr>us_errors := us_errors s + 1\<rparr>;
          s = (if us_synced s then s\<lparr>us_resyncs := us_resyncs s + 1\<rparr> else s);
          s = s\<lparr>us_synced := False, us_info_done := False, us_state := ST_SYNC, us_msg_idx := 0,
               us_msg_len := 0, us_new_mode := -1, us_num_data_err := 0,
               us_speed := EV3_UART_SPEED_MIN\<rparr>;
          s = s\<lparr>us_dev := ev3_uart_set_baud (uint EV3_UART_SPEED_MIN) (us_dev s)\<rparr>
      in (rx_flush s)\<lparr>us_wakeup := True\<rparr>)"

definition link_up :: "u32 \<Rightarrow> ev3_uart_sensor \<Rightarrow> ev3_uart_sensor" where
  "link_up now s =
     (let s = s\<lparr>us_dev := ev3_uart_set_baud (sint (us_speed s)) (us_dev s)\<rparr>;
          s = rx_flush s;
          s = s\<lparr>us_state := ST_DATA, us_info_done := True, us_synced := True, us_mode := 0,
               us_ignore_ff := True, us_num_data_err := 0, us_keep_alive_ms := now,
               us_last_data_ms := now, us_msg_idx := 0, us_wakeup := True\<rparr>
      in if us_requested_mode s > 0 \<and> us_requested_mode s < us_modes s
         then start_select (us_requested_mode s) now s
         else s\<lparr>us_new_mode := -1\<rparr>)"

section \<open>Message processing\<close>

text \<open>\<open>0xff\<close> XOR of the first \<open>n\<close> bytes.\<close>

definition msg_checksum :: "u8 list \<Rightarrow> nat \<Rightarrow> u8" where
  "msg_checksum m n = foldl (XOR) 0xff (take n m)"

text \<open>
  The four arms of the switch in \<^verbatim>\<open>handle_msg\<close>. Each returns the C result (0, or -1 to force a resync)
  and the state, with the writes made before an early return kept.
\<close>

definition handle_sys :: "u8 \<Rightarrow> u32 \<Rightarrow> ev3_uart_sensor \<Rightarrow> int \<times> ev3_uart_sensor" where
  "handle_sys cmd now s =
     (if cmd = SYS_ACK \<and> us_state s = ST_INFO then
        if us_modes s \<le> 0 \<or> us_info_flags s AND IF_REQUIRED \<noteq> IF_REQUIRED then (-1, s)
        else (0, s\<lparr>us_state := ST_ACK_DELAY, us_ack_ms := now\<rparr>)
      else (0, s))"

definition handle_cmd :: "u8 \<Rightarrow> u8 \<Rightarrow> nat \<Rightarrow> ev3_uart_sensor \<Rightarrow> int \<times> ev3_uart_sensor" where
  "handle_cmd cmd cmd2 msz s =
     (let m = us_msg s in
      if us_state s \<noteq> ST_INFO then (-1, s)
      else if cmd = CMD_MODES then
        (if us_info_flags s AND IF_CMD_MODES \<noteq> 0 then (-1, s)
         else
           let s = s\<lparr>us_info_flags := us_info_flags s OR IF_CMD_MODES\<rparr>
           in if uint cmd2 \<ge> EV3_UART_MAX_MODE then (-1, s)
              else
                let s = s\<lparr>us_modes := uint cmd2 + 1\<rparr>;
                    s = s\<lparr>us_view_modes := (if msz > 3 then uint (m ! 2) + 1 else us_modes s)\<rparr>;
                    s = (if us_view_modes s > us_modes s then s\<lparr>us_view_modes := us_modes s\<rparr> else s)
                in (0, s))
      else if cmd = CMD_SPEED then
        (if us_info_flags s AND IF_CMD_SPEED \<noteq> 0 then (-1, s)
         else
           let s = s\<lparr>us_info_flags := us_info_flags s OR IF_CMD_SPEED\<rparr>;
               sp = le32 (m ! 1) (m ! 2) (m ! 3) (m ! 4)
           in if sp < EV3_UART_SPEED_MIN \<or> sp > EV3_UART_SPEED_MAX then (-1, s)
              else (0, s\<lparr>us_speed := sp\<rparr>))
      else (-1, s))"

text \<open>The INFO records that only tick a flag: a duplicate is refused.\<close>

definition info_once :: "u32 \<Rightarrow> ev3_uart_sensor \<Rightarrow> int \<times> ev3_uart_sensor" where
  "info_once fl s =
     (if us_info_flags s AND fl \<noteq> 0 then (-1, s)
      else (0, s\<lparr>us_info_flags := us_info_flags s OR fl\<rparr>))"

definition info_format :: "nat \<Rightarrow> nat \<Rightarrow> ev3_uart_sensor \<Rightarrow> int \<times> ev3_uart_sensor" where
  "info_format md msz s =
     (let m = us_msg s in
      if us_info_flags s AND IF_INFO_FORMAT \<noteq> 0 then (-1, s)
      else
        let s = s\<lparr>us_info_flags := us_info_flags s OR IF_INFO_FORMAT\<rparr>
        in if m ! 2 = 0 \<or> msz < 7 then (-1, s)
           else if us_info_flags s AND IF_REQUIRED \<noteq> IF_REQUIRED then (-1, s)
           else if uint (m ! 3) > EV3_UART_DATAF then (-1, s)
           else
             let ds = uint (m ! 2);
                 ds = (if ds > EV3_UART_MAX_DATASETS then EV3_UART_MAX_DATASETS else ds)
             in (0, s\<lparr>us_datasets := (us_datasets s)[md := ds],
                      us_fmt := (us_fmt s)[md := uint (m ! 3)],
                      us_figures := (us_figures s)[md := uint (m ! 4)],
                      us_decimals := (us_decimals s)[md := uint (m ! 5)]\<rparr>))"

definition info_name :: "int \<Rightarrow> nat \<Rightarrow> ev3_uart_sensor \<Rightarrow> int \<times> ev3_uart_sensor" where
  "info_name md msz s =
     (let m = us_msg s;
          s = s\<lparr>us_info_flags := us_info_flags s AND NOT IF_ALL_INFO\<rparr>
      in if m ! 2 < 65 \<or> m ! 2 > 122 then (-1, s)
         else
           (0, s\<lparr>us_name := (us_name s)[nat md :=
                     copy_str (us_name s ! nat md) (nat EV3_UART_NAME_LEN) (drop 2 m) (msz - 3)],
                 us_mode := md,
                 us_info_flags := us_info_flags s OR IF_INFO_NAME\<rparr>))"

definition info_units :: "int \<Rightarrow> nat \<Rightarrow> ev3_uart_sensor \<Rightarrow> int \<times> ev3_uart_sensor" where
  "info_units md msz s =
     (if us_info_flags s AND IF_INFO_UNITS \<noteq> 0 then (-1, s)
      else
        (0, s\<lparr>us_info_flags := us_info_flags s OR IF_INFO_UNITS,
              us_units := (us_units s)[nat md :=
                copy_str (us_units s ! nat md) (nat EV3_UART_NAME_LEN) (drop 2 (us_msg s)) (msz - 3)]\<rparr>))"

definition handle_info :: "u8 \<Rightarrow> u8 \<Rightarrow> nat \<Rightarrow> ev3_uart_sensor \<Rightarrow> int \<times> ev3_uart_sensor" where
  "handle_info cmd cmd2 msz s =
     (if us_state s \<noteq> ST_INFO then (-1, s)
      else
        let md = uint cmd + (if cmd2 AND INFO_MODE_P8 \<noteq> 0 then 8 else 0);
            info = cmd2 AND NOT INFO_MODE_P8
        in if md \<ge> EV3_UART_MAX_MODE then (0, s)
           else if info = INFO_NAME then info_name md msz s
           else if us_mode s \<noteq> md then (-1, s)
           else if info = INFO_RAW then info_once IF_INFO_RAW s
           else if info = INFO_PCT then info_once IF_INFO_PCT s
           else if info = INFO_SI then info_once IF_INFO_SI s
           else if info = INFO_UNITS then info_units md msz s
           else if info = INFO_FORMAT then info_format (nat md) msz s
           else (0, s))"

text \<open>The dataset loop of a DATA frame: \<open>k\<close> datasets are still to be decoded, \<open>i\<close> is the next.\<close>

fun data_loop :: "nat \<Rightarrow> nat \<Rightarrow> nat \<Rightarrow> int \<Rightarrow> nat \<Rightarrow> ev3_uart_sensor \<Rightarrow> ev3_uart_sensor" where
  "data_loop 0 i md f msz s = s"
| "data_loop (Suc k) i md f msz s =
     (let sz = fmt_size f; off = 1 + i * sz
      in if off + sz > msz - 1 then s
         else
           let v = decode_le (drop off (us_msg s)) f;
               s = (if v \<noteq> us_data s ! md ! i then s\<lparr>us_wakeup := True\<rparr> else s);
               s = s\<lparr>us_data := (us_data s)[md := (us_data s ! md)[i := v]]\<rparr>
           in data_loop k (Suc i) md f msz s)"

definition data_seen :: "u32 \<Rightarrow> ev3_uart_sensor \<Rightarrow> ev3_uart_sensor" where
  "data_seen now s =
     (let s = s\<lparr>us_last_data_ms := now\<rparr>
      in if us_num_data_err s > 0 then s\<lparr>us_num_data_err := us_num_data_err s - 1\<rparr> else s)"

definition handle_data :: "u8 \<Rightarrow> nat \<Rightarrow> u32 \<Rightarrow> ev3_uart_sensor \<Rightarrow> int \<times> ev3_uart_sensor" where
  "handle_data cmd msz now s =
     (if us_state s \<noteq> ST_DATA then (-1, s)
      else
        let md = uint cmd;
            s = (if md \<noteq> us_mode s then s\<lparr>us_mode := md\<rparr> else s)
        in if md = us_new_mode s
           then (0, data_seen now (s\<lparr>us_new_mode := -1, us_requested_mode := md\<rparr>))
           else
             let f = us_fmt s ! nat md;
                 ds = us_datasets s ! nat md;
                 ds = (if ds \<le> 0 then 1 else ds)
             in (0, data_seen now (data_loop (nat ds) 0 (nat md) f msz s)))"

definition handle_msg :: "u32 \<Rightarrow> ev3_uart_sensor \<Rightarrow> int \<times> ev3_uart_sensor" where
  "handle_msg now s =
     (let m = us_msg s; msz = us_msg_len s;
          type = m ! 0 AND MSG_TYPE_MASK; cmd = m ! 0 AND MSG_CMD_MASK;
          cmd2 = (if msz > 1 then m ! 1 else 0)
      in if msz > 1 \<and> msg_checksum m (msz - 1) \<noteq> m ! (msz - 1) \<and>
            \<not> (us_type_id s = EV3_UART_TYPE_EV3_COLOR \<and> m ! 0 = 0xDC)
         then
           (let s = s\<lparr>us_errors := us_errors s + 1\<rparr>
            in if us_state s = ST_DATA then (0, s\<lparr>us_num_data_err := us_num_data_err s + 1\<rparr>)
               else (-1, s))
         else if type = MSG_SYS then handle_sys cmd now s
         else if type = MSG_CMD then handle_cmd cmd cmd2 msz s
         else if type = MSG_INFO then handle_info cmd cmd2 msz s
         else handle_data cmd msz now s)"

text \<open>\<^verbatim>\<open>handle_byte\<close> in ST\_SYNC: a sliding three-byte window looking for a CMD\_TYPE frame.\<close>

definition sync_byte :: "u8 \<Rightarrow> ev3_uart_sensor \<Rightarrow> ev3_uart_sensor" where
  "sync_byte b s =
     (let s = s\<lparr>us_msg := (us_msg s)[us_msg_idx s := b], us_msg_idx := us_msg_idx s + 1\<rparr>
      in if us_msg_idx s < 3 then s
         else
           let m = us_msg s; type = m ! 1
           in if m ! 0 = (MSG_CMD OR CMD_TYPE) \<and> type \<noteq> 0 \<and> uint type \<le> EV3_UART_TYPE_MAX \<and>
                 m ! 2 = (0xff XOR m ! 0 XOR type)
              then s\<lparr>us_type_id := uint type, us_modes := 1, us_view_modes := 1, us_mode := 0,
                     us_datasets := replicate 8 0, us_fmt := replicate 8 0,
                     us_figures := replicate 8 0, us_decimals := replicate 8 0,
                     us_name := replicate 8 (replicate 12 0), us_units := replicate 8 (replicate 12 0),
                     us_info_flags := IF_CMD_TYPE, us_info_done := False, us_num_data_err := 0,
                     us_msg_idx := 0, us_state := ST_INFO\<rparr>
              else s\<lparr>us_msg := (m[0 := m ! 1])[1 := m ! 2], us_msg_idx := 2\<rparr>)"

text \<open>Appending a byte of a frame and, at its end, running the message.\<close>

definition frame_byte :: "u8 \<Rightarrow> u32 \<Rightarrow> ev3_uart_sensor \<Rightarrow> ev3_uart_sensor" where
  "frame_byte b now s =
     (let s = s\<lparr>us_msg := (us_msg s)[us_msg_idx s := b], us_msg_idx := us_msg_idx s + 1\<rparr>
      in if us_msg_idx s < us_msg_len s then s
         else
           let s = s\<lparr>us_msg_idx := 0\<rparr>; (rc, s) = handle_msg now s
           in if rc \<noteq> 0 then resync s else s)"

definition frame_size :: "u8 \<Rightarrow> int" where
  "frame_size b =
     (let type = b AND MSG_TYPE_MASK
      in if type = MSG_SYS then 1 else MSG_SIZE b + 2 + (if type = MSG_INFO then 1 else 0))"

definition handle_byte :: "u8 \<Rightarrow> u32 \<Rightarrow> ev3_uart_sensor \<Rightarrow> ev3_uart_sensor" where
  "handle_byte b now s =
     (if us_state s = ST_SYNC then sync_byte b s
      else if us_state s = ST_ACK_DELAY \<or> us_state s = ST_ACK_WAIT then s
      else if us_msg_idx s = 0 then
        (if b = 0xff then s
         else
           let type = b AND MSG_TYPE_MASK; msz = frame_size b
           in if us_state s = ST_DATA \<and>
                 (type \<noteq> MSG_DATA \<or> msz < 3 \<or> msz > EV3_UART_MAX_MESSAGE_SIZE) then s
              else if msz > EV3_UART_MAX_MESSAGE_SIZE then resync s
              else frame_byte b now (s\<lparr>us_msg_len := nat msz\<rparr>))
      else frame_byte b now s)"

section \<open>Public interface\<close>

text \<open>
  \<^verbatim>\<open>ev3_uart_sensor_open\<close>: \<open>base\<close>, \<open>irq\<close> are what \<^verbatim>\<open>port.c\<close> reports for the port and \<open>enabled\<close> whether
  \<^verbatim>\<open>ev3_input_port_uart_enable\<close> returned 0; \<open>u\<close> is the UART at \<open>base\<close>. \<open>None\<close> is the result -1.
\<close>

definition ev3_uart_sensor_zero :: "uart16550 \<Rightarrow> ev3_uart_sensor" where
  "ev3_uart_sensor_zero u =
     \<lparr>us_port = 0, us_report_mode = 0, us_synced = False, us_type_id = 0, us_modes = 0,
      us_view_modes = 0, us_mode = 0, us_speed = 0, us_errors = 0, us_resyncs = 0,
      us_datasets = replicate 8 0, us_fmt = replicate 8 0, us_figures = replicate 8 0,
      us_decimals = replicate 8 0, us_name = replicate 8 (replicate 12 0),
      us_units = replicate 8 (replicate 12 0), us_data = replicate 8 (replicate 8 0),
      us_base = 0, us_irq = 0, us_state = ST_SYNC, us_info_done = False, us_info_flags = 0,
      us_requested_mode = 0, us_new_mode = 0, us_set_mode_retries = 0, us_set_mode_ms = 0,
      us_keep_alive_ms = 0, us_last_data_ms = 0, us_ack_ms = 0, us_num_data_err = 0,
      us_ignore_ff = False, us_msg_idx = 0, us_msg_len = 0, us_msg = replicate 36 0,
      us_wakeup = False,
      us_rx = \<lparr>rr_head = 0, rr_tail = 0, rr_overrun = 0, rr_ring = replicate 512 0\<rparr>, us_dev = u\<rparr>"

definition ev3_uart_sensor_open ::
  "u32 \<Rightarrow> u32 \<Rightarrow> bool \<Rightarrow> uart16550 \<Rightarrow> int \<Rightarrow> int \<Rightarrow> ev3_uart_sensor option" where
  "ev3_uart_sensor_open base irq enabled u port report_mode =
     (if port < 0 \<or> port \<ge> 4 then None
      else if base = 0 \<or> irq = 0 then None
      else
        let s = (ev3_uart_sensor_zero u)\<lparr>us_port := port, us_report_mode := report_mode,
                  us_requested_mode := report_mode, us_new_mode := -1,
                  us_speed := EV3_UART_SPEED_MIN, us_state := ST_SYNC\<rparr>
        in if \<not> enabled then None
           else
             let s = s\<lparr>us_base := base, us_irq := irq\<rparr>;
                 s = s\<lparr>us_dev := ev3_uart_init (uint EV3_UART_SPEED_MIN) (us_dev s)\<rparr>
             in Some (s\<lparr>us_dev := ev3_uart_enable_irq EV3_IRQ_RX True (us_dev s)\<rparr>))"

definition ev3_uart_sensor_close :: "ev3_uart_sensor \<Rightarrow> ev3_uart_sensor" where
  "ev3_uart_sensor_close s =
     (if us_base s = 0 then s
      else
        let s = s\<lparr>us_dev := ev3_uart_enable_irq EV3_IRQ_RX False (us_dev s)\<rparr>;
            s = s\<lparr>us_dev := ev3_uart_flush_rx (us_dev s)\<rparr>
        in s\<lparr>us_base := 0, us_synced := False, us_state := ST_SYNC\<rparr>)"

text \<open>The loop of \<^verbatim>\<open>poll\<close>: \<^verbatim>\<open>while (rx_pop(s, &b) && guard++ < EV3_UART_RX_RING) handle_byte(s, b, now);\<close>\<close>

function poll_loop :: "nat \<Rightarrow> u32 \<Rightarrow> ev3_uart_sensor \<Rightarrow> ev3_uart_sensor" where
  "poll_loop guard now s =
     (case rx_pop s of
        None \<Rightarrow> s
      | Some (b, s') \<Rightarrow>
          if guard < EV3_UART_RX_RING then poll_loop (Suc guard) now (handle_byte b now s') else s')"
  by pat_completeness auto
termination
  by (relation "measure (\<lambda>(guard, now, s). EV3_UART_RX_RING - guard)") auto

declare poll_loop.simps [simp del]

text \<open>The switch on the state after the bytes are consumed.\<close>

definition poll_data :: "u32 \<Rightarrow> ev3_uart_sensor \<Rightarrow> ev3_uart_sensor" where
  "poll_data now s =
     (if us_num_data_err s > EV3_UART_MAX_DATA_ERR \<or>
         now - us_last_data_ms s \<ge> EV3_UART_WATCHDOG_MS
      then resync s
      else
        let s = (if now - us_keep_alive_ms s \<ge> EV3_UART_KEEP_ALIVE_MS
                 then uart_put SYS_NACK (s\<lparr>us_keep_alive_ms := now\<rparr>) else s)
        in if us_new_mode s \<ge> 0 \<and> now - us_set_mode_ms s \<ge> EV3_UART_SET_MODE_MS
           then
             (let s = s\<lparr>us_set_mode_retries := us_set_mode_retries s + 1\<rparr>
              in if us_set_mode_retries s \<ge> EV3_UART_SET_MODE_RETRY
                 then s\<lparr>us_errors := us_errors s + 1, us_new_mode := -1\<rparr>
                 else send_select (us_new_mode s) (s\<lparr>us_set_mode_ms := now\<rparr>))
           else s)"

definition poll_switch :: "u32 \<Rightarrow> ev3_uart_sensor \<Rightarrow> ev3_uart_sensor" where
  "poll_switch now s =
     (case us_state s of
        ST_ACK_DELAY \<Rightarrow>
          (if now - us_ack_ms s \<ge> ACK_DELAY_MS
           then (uart_put SYS_ACK s)\<lparr>us_ack_ms := now, us_state := ST_ACK_WAIT\<rparr> else s)
      | ST_ACK_WAIT \<Rightarrow>
          (if now - us_ack_ms s \<ge> ACK_SETTLE_MS \<and> ev3_uart_tx_empty (us_dev s)
           then link_up now s else s)
      | ST_DATA \<Rightarrow> poll_data now s
      | _ \<Rightarrow> s)"

definition ev3_uart_sensor_poll :: "u32 \<Rightarrow> ev3_uart_sensor \<Rightarrow> ev3_uart_sensor" where
  "ev3_uart_sensor_poll now s =
     (if us_base s = 0 then s else poll_switch now (poll_loop 0 now (rx_drain_hw s)))"

definition ev3_uart_sensor_select :: "int \<Rightarrow> u32 \<Rightarrow> ev3_uart_sensor \<Rightarrow> int \<times> ev3_uart_sensor" where
  "ev3_uart_sensor_select m now s =
     (if m < 0 \<or> m \<ge> EV3_UART_MAX_MODE then (-1, s)
      else
        let s = s\<lparr>us_requested_mode := m\<rparr>
        in if \<not> us_synced s \<or> us_state s \<noteq> ST_DATA then (-1, s)
           else if m \<ge> us_modes s then (-1, s)
           else if m = us_mode s \<and> us_new_mode s < 0 then (0, s)
           else (0, start_select m now s))"

text \<open>\<^verbatim>\<open>while ((1 << code) < size) code++;\<close> with \<open>fuel\<close> above the largest code.\<close>

fun write_code :: "nat \<Rightarrow> nat \<Rightarrow> nat \<Rightarrow> nat" where
  "write_code 0 code msz = code"
| "write_code (Suc fuel) code msz =
     (if 2 ^ code < msz then write_code fuel (Suc code) msz else code)"

definition write_frame :: "u8 list \<Rightarrow> u8 list" where
  "write_frame dat =
     (let count = length dat;
          msz = (if count \<le> 2 then count else if count \<le> 4 then 4 else if count \<le> 8 then 8
                  else if count \<le> 16 then 16 else 32);
          m = (0 # dat @ replicate (33 - count) 0);
          code = write_code 6 0 msz;
          m = m[0 := MSG_CMD OR push_bit 3 (of_nat code) OR CMD_WRITE];
          cs = foldl (XOR) 0xff (take (msz + 1) m);
          m = m[msz + 1 := cs]
      in take (msz + 2) m)"

definition ev3_uart_sensor_write :: "u8 list \<Rightarrow> ev3_uart_sensor \<Rightarrow> int \<times> ev3_uart_sensor" where
  "ev3_uart_sensor_write dat s =
     (let count = int (length dat)
      in if count \<le> 0 \<or> count > EV3_UART_MAX_DATA_SIZE then (-1, s)
         else if \<not> us_synced s \<or> us_state s \<noteq> ST_DATA then (-1, s)
         else (count, uart_write (write_frame dat) s))"

definition ev3_uart_sensor_dataset :: "int \<Rightarrow> int \<Rightarrow> ev3_uart_sensor \<Rightarrow> int" where
  "ev3_uart_sensor_dataset m ds s =
     (if m < 0 \<or> m \<ge> EV3_UART_MAX_MODE then 0
      else if ds < 0 \<or> ds \<ge> EV3_UART_MAX_DATASETS then 0
      else us_data s ! nat m ! nat ds)"

definition ev3_uart_sensor_value :: "int \<Rightarrow> ev3_uart_sensor \<Rightarrow> int" where
  "ev3_uart_sensor_value m s = ev3_uart_sensor_dataset m 0 s"

definition ev3_uart_sensor_consume_wakeup :: "ev3_uart_sensor \<Rightarrow> bool \<times> ev3_uart_sensor" where
  "ev3_uart_sensor_consume_wakeup s = (us_wakeup s, s\<lparr>us_wakeup := False\<rparr>)"

end
