(* ===== verification/Ev3_Link.thy ===== *)
theory Ev3_Link
  imports Ev3_Uart_Sensor
begin

text \<open>
  The EV3 sensor link: what the operations of \<open>Ev3_Uart_Sensor\<close> guarantee. The receive ring is a
  bounded queue; every array access of the parser stays in range and the link never reports data
  before the handshake is complete, in every state the operations, the interrupt handler and the
  wire can reach; the error paths, the watchdog and the mode-selection retries behave as the
  protocol asks.
\<close>

section \<open>The receive ring is a bounded queue\<close>

definition rr_inv :: "rx_ring \<Rightarrow> bool" where
  "rr_inv r \<longleftrightarrow> length (rr_ring r) = 512 \<and> unat (rr_head r) < 512 \<and> unat (rr_tail r) < 512"

definition rr_contents :: "rx_ring \<Rightarrow> u8 list" where
  "rr_contents r =
     ring_list 512 (rr_ring r) (unat (rr_tail r)) (ring_count 512 (unat (rr_head r)) (unat (rr_tail r)))"

lemma unat_next:
  assumes "unat (h::u32) < 512"
  shows "unat ((h + 1) AND 511) = Suc (unat h) mod 512"
proof -
  have "unat (h + 1) = unat h + 1"
    using assms by (simp add: unat_word_ariths)
  then show ?thesis by (simp add: unat_mod_pow2_u32)
qed

lemma rx_put_cases:
  assumes "rr_inv r"
  shows "rr_inv (rx_put b r)"
    and "length (rr_contents r) < 511 \<Longrightarrow> rr_contents (rx_put b r) = rr_contents r @ [b]"
    and "\<not> length (rr_contents r) < 511 \<Longrightarrow> rr_contents (rx_put b r) = rr_contents r"
    and "rr_overrun (rx_put b r) = rr_overrun r + (if length (rr_contents r) < 511 then 0 else 1)"
proof -
  let ?h = "unat (rr_head r)" and ?t = "unat (rr_tail r)"
  have b: "?h < 512" "?t < 512" "length (rr_ring r) = 512" using assms by (auto simp: rr_inv_def)
  have n: "unat ((rr_head r + 1) AND 511) = Suc ?h mod 512" using b(1) by (rule unat_next)
  have eq: "(rr_head r + 1) AND 511 = rr_tail r \<longleftrightarrow> Suc ?h mod 512 = ?t"
    by (metis n word_unat_eq_iff)
  show "rr_inv (rx_put b r)"
    using b n by (auto simp: rr_inv_def rx_put_def Let_def)
  have full: "Suc ?h mod 512 = ?t \<longleftrightarrow> \<not> length (rr_contents r) < 511"
    using ring_count_full [OF b(1,2)] ring_count_not_full [OF b(1,2)]
    by (auto simp: rr_contents_def)
  show "rr_overrun (rx_put b r) = rr_overrun r + (if length (rr_contents r) < 511 then 0 else 1)"
    using full eq by (simp add: rx_put_def Let_def)
  show "rr_contents (rx_put b r) = rr_contents r" if "\<not> length (rr_contents r) < 511"
    using that full eq by (simp add: rx_put_def Let_def rr_contents_def)
  show "rr_contents (rx_put b r) = rr_contents r @ [b]" if "length (rr_contents r) < 511"
  proof -
    from that full have nf: "Suc ?h mod 512 \<noteq> ?t" by simp
    have c: "ring_count 512 ?h ?t < 512" by (rule ring_count_less) simp
    have "ring_list 512 ((rr_ring r)[?h := b]) ?t (Suc (ring_count 512 ?h ?t)) =
          ring_list 512 (rr_ring r) ?t (ring_count 512 ?h ?t) @ [b]"
      using ring_list_snoc [OF c b(3), of ?t b] ring_count_head [OF b(1,2)] by simp
    with nf eq show ?thesis
      by (simp add: rx_put_def Let_def rr_contents_def n ring_count_push [OF b(1,2) nf])
  qed
qed

lemma rx_pop_ring_laws:
  assumes "rr_inv r"
  shows "rr_contents r = [] \<Longrightarrow> rx_pop_ring r = None"
    and "rr_contents r = x # xs \<Longrightarrow>
      \<exists>r'. rx_pop_ring r = Some (x, r') \<and> rr_contents r' = xs \<and> rr_inv r'"
proof -
  let ?h = "unat (rr_head r)" and ?t = "unat (rr_tail r)"
  have b: "?h < 512" "?t < 512" "length (rr_ring r) = 512" using assms by (auto simp: rr_inv_def)
  have len: "length (rr_contents r) = ring_count 512 ?h ?t" by (simp add: rr_contents_def)
  have eq: "rr_tail r = rr_head r \<longleftrightarrow> ?h = ?t" by (metis word_unat_eq_iff)
  show "rx_pop_ring r = None" if "rr_contents r = []"
    using that len ring_count_0_iff [OF b(1,2)] eq by (simp add: rx_pop_ring_def)
  assume c: "rr_contents r = x # xs"
  then have ne: "?h \<noteq> ?t"
    using len ring_count_0_iff [OF b(1,2)] by auto
  have nt: "unat ((rr_tail r + 1) AND 511) = Suc ?t mod 512" using b(2) by (rule unat_next)
  have "x # xs = rr_ring r ! ?t #
      ring_list 512 (rr_ring r) (Suc ?t mod 512) (ring_count 512 ?h (Suc ?t mod 512))"
    using c by (simp add: rr_contents_def ring_count_pop [OF b(1,2) ne] ring_list_cons [OF b(2)])
  then show "\<exists>r'. rx_pop_ring r = Some (x, r') \<and> rr_contents r' = xs \<and> rr_inv r'"
    using ne eq b by (auto simp: rx_pop_ring_def rr_contents_def rr_inv_def nt Let_def)
qed

interpretation rxq: bounded_fifo rx_pop_ring rr_contents rr_inv rx_put "\<lambda>_. 511" "\<lambda>_ _. True"
proof unfold_locales
  fix r assume "rr_inv r"
  then have "ring_count 512 (unat (rr_head r)) (unat (rr_tail r)) < 512"
    by (intro ring_count_less) simp
  then show "length (rr_contents r) \<le> 511" by (simp add: rr_contents_def)
qed (use rx_pop_ring_laws rx_put_cases in auto)

text \<open>The drain loop moves the whole hardware FIFO into the ring, in wire order.\<close>

lemma rx_drain_loop_fold:
  "rx_drain_loop u r = (u\<lparr>ur_rx := []\<rparr>, fold rx_put (ur_rx u) r)"
proof (induction "ur_rx u" arbitrary: u r)
  case Nil
  then show ?case
    by (simp add: rx_drain_loop.simps [of u r] ev3_uart_can_read_def)
next
  case (Cons b bs)
  have "rx_drain_loop u r = rx_drain_loop (u\<lparr>ur_rx := bs\<rparr>) (rx_put b r)"
    using Cons.hyps(2) [symmetric]
    by (simp add: rx_drain_loop.simps [of u r] ev3_uart_can_read_def ev3_uart_getc_def)
  also have "\<dots> = (u\<lparr>ur_rx := []\<rparr>, fold rx_put bs (rx_put b r))"
    using Cons.hyps(1) [of "u\<lparr>ur_rx := bs\<rparr>" "rx_put b r"] by simp
  finally show ?case by (simp flip: Cons.hyps(2))
qed

section \<open>Invariant\<close>

definition shape_inv :: "ev3_uart_sensor \<Rightarrow> bool" where
  "shape_inv s \<longleftrightarrow>
     length (us_datasets s) = 8 \<and> length (us_fmt s) = 8 \<and> length (us_figures s) = 8 \<and>
     length (us_decimals s) = 8 \<and>
     length (us_name s) = 8 \<and> list_all (\<lambda>n. length n = 12) (us_name s) \<and>
     length (us_units s) = 8 \<and> list_all (\<lambda>n. length n = 12) (us_units s) \<and>
     length (us_data s) = 8 \<and> list_all (\<lambda>d. length d = 8) (us_data s) \<and>
     length (us_msg s) = 36 \<and> rr_inv (us_rx s)"

definition value_inv :: "ev3_uart_sensor \<Rightarrow> bool" where
  "value_inv s \<longleftrightarrow>
     list_all (\<lambda>d. 0 \<le> d \<and> d \<le> 8) (us_datasets s) \<and> list_all (\<lambda>f. 0 \<le> f \<and> f \<le> 3) (us_fmt s) \<and>
     0 \<le> us_modes s \<and> us_modes s \<le> 8 \<and> us_view_modes s \<le> us_modes s \<and>
     0 \<le> us_mode s \<and> us_mode s < 8 \<and>
     2400 \<le> us_speed s \<and> us_speed s \<le> 460800 \<and> 0 \<le> us_num_data_err s"

text \<open>What the parser position may be in each state: \<open>i\<close> bytes of a frame of \<open>n\<close> are buffered.\<close>

fun frame_ok :: "link_state \<Rightarrow> nat \<Rightarrow> nat \<Rightarrow> bool" where
  "frame_ok ST_SYNC i n \<longleftrightarrow> i \<le> 2"
| "frame_ok ST_ACK_DELAY i n \<longleftrightarrow> i = 0"
| "frame_ok ST_ACK_WAIT i n \<longleftrightarrow> i = 0"
| "frame_ok ST_INFO i n \<longleftrightarrow> i = 0 \<or> i < n \<and> n \<le> 34"
| "frame_ok ST_DATA i n \<longleftrightarrow> i = 0 \<or> i < n \<and> n \<le> 34"

definition frame_inv :: "ev3_uart_sensor \<Rightarrow> bool" where
  "frame_inv s \<longleftrightarrow> frame_ok (us_state s) (us_msg_idx s) (us_msg_len s)"

lemma frame_ok_0 [simp]: "frame_ok st 0 n"
  by (cases st) auto

definition handshake_done :: "link_state \<Rightarrow> bool" where
  "handshake_done st \<longleftrightarrow> st = ST_ACK_DELAY \<or> st = ST_ACK_WAIT \<or> st = ST_DATA"

definition link_inv :: "ev3_uart_sensor \<Rightarrow> bool" where
  "link_inv s \<longleftrightarrow>
     (us_synced s \<longleftrightarrow> us_state s = ST_DATA) \<and>
     (handshake_done (us_state s) \<longrightarrow>
        1 \<le> us_modes s \<and> us_info_flags s AND IF_REQUIRED = IF_REQUIRED) \<and>
     (us_new_mode s \<noteq> -1 \<longrightarrow>
        us_state s = ST_DATA \<and> 0 \<le> us_new_mode s \<and> us_new_mode s < us_modes s \<and>
        0 \<le> us_set_mode_retries s \<and> us_set_mode_retries s < EV3_UART_SET_MODE_RETRY)"

definition us_inv :: "ev3_uart_sensor \<Rightarrow> bool" where
  "us_inv s \<longleftrightarrow> shape_inv s \<and> value_inv s \<and> (us_base s \<noteq> 0 \<longrightarrow> frame_inv s \<and> link_inv s) \<and>
     (us_base s = 0 \<longrightarrow> \<not> us_synced s)"

abbreviation core_inv :: "ev3_uart_sensor \<Rightarrow> bool" where
  "core_inv s \<equiv> shape_inv s \<and> value_inv s"

lemmas us_inv_defs = us_inv_def shape_inv_def value_inv_def frame_inv_def link_inv_def
  handshake_done_def

lemma word_speed_bounds [simp]: "(2400::u32) \<le> 460800"
  by simp

subsection \<open>Building blocks\<close>

lemma fold_putc: "fold ev3_uart_putc bs u = u\<lparr>ur_tx := ur_tx u @ bs\<rparr>"
  by (induction bs arbitrary: u) (auto simp: ev3_uart_putc_def)

lemma uart_write_eq: "uart_write bs s = s\<lparr>us_dev := (us_dev s)\<lparr>ur_tx := ur_tx (us_dev s) @ bs\<rparr>\<rparr>"
  by (simp add: uart_write_def fold_putc)

lemma rr_inv_flush: "rr_inv r \<Longrightarrow> rr_inv (r\<lparr>rr_tail := rr_head r\<rparr>)"
  by (simp add: rr_inv_def)

lemma length_copy_str:
  assumes "length dst = k" "0 < k"
  shows "length (copy_str dst k src n) = k"
proof -
  let ?n = "if n > k - 1 then k - 1 else n"
  have "length (takeWhile (\<lambda>c. c \<noteq> 0) (take ?n src)) \<le> length (take ?n src)"
    by (rule length_takeWhile_le)
  also have "\<dots> \<le> k - 1" by auto
  finally have "length (takeWhile (\<lambda>c. c \<noteq> 0) (take ?n src)) \<le> k - 1" .
  with assms show ?thesis by (simp add: copy_str_def Let_def)
qed

lemma cmd_lt_8: "uint (b AND MSG_CMD_MASK) < 8" "0 \<le> uint (b AND MSG_CMD_MASK)"
proof -
  have "b AND 7 \<le> (7::u8)" by (rule word_and_le1)
  then have "uint (b AND 7) \<le> uint (7::u8)" by (simp only: word_le_def)
  then show "uint (b AND MSG_CMD_MASK) < 8" by (simp add: msg_consts)
qed simp

lemma resync_inv:
  assumes "core_inv s"
  shows "us_inv (resync s)"
  using assms
  by (simp add: us_inv_defs resync_def rx_flush_def Let_def rr_inv_flush ev3_uart_consts)

lemma resync_state [simp]:
  "us_state (resync s) = ST_SYNC" "us_synced (resync s) = False"
  "us_base (resync s) = us_base s" "us_msg_idx (resync s) = 0" "us_new_mode (resync s) = -1"
  "us_data (resync s) = us_data s"
  by (simp_all add: resync_def rx_flush_def Let_def)

subsection \<open>Messages\<close>

text \<open>What every arm of \<^verbatim>\<open>handle_msg\<close> leaves behind: the arrays and ranges always, the link conditions
  unless it asks for a resync.\<close>

definition handled :: "ev3_uart_sensor \<Rightarrow> int \<times> ev3_uart_sensor \<Rightarrow> bool" where
  "handled s r \<longleftrightarrow> core_inv (snd r) \<and> us_base (snd r) = us_base s \<and>
     us_msg_idx (snd r) = us_msg_idx s \<and> (fst r = 0 \<longrightarrow> link_inv (snd r))"

lemma handled_sys: "core_inv s \<Longrightarrow> link_inv s \<Longrightarrow> handled s (handle_sys cmd now s)"
  by (auto simp: handled_def handle_sys_def us_inv_defs)

lemma link_inv_info:
  "us_state s = ST_INFO \<Longrightarrow> link_inv s \<longleftrightarrow> \<not> us_synced s \<and> us_new_mode s = -1"
  by (auto simp: link_inv_def handshake_done_def)

lemma handled_cmd:
  assumes "core_inv s" "link_inv s"
  shows "handled s (handle_cmd cmd cmd2 n s)"
proof (cases "us_state s = ST_INFO")
  case True
  have "shape_inv (s\<lparr>us_info_flags := fl\<rparr>)" "value_inv (s\<lparr>us_info_flags := fl\<rparr>)" for fl
    using assms by (simp_all add: shape_inv_def value_inv_def)
  moreover have "core_inv (s\<lparr>us_info_flags := fl, us_speed := sp\<rparr>)" if "2400 \<le> sp" "sp \<le> 460800" for fl sp
    using assms that by (simp add: shape_inv_def value_inv_def)
  moreover have "core_inv (s\<lparr>us_info_flags := fl, us_modes := m, us_view_modes := v\<rparr>)"
    if "0 \<le> m" "m \<le> 8" "v \<le> m" for fl m v
    using assms that by (simp add: shape_inv_def value_inv_def)
  ultimately show ?thesis
    using True assms
    by (simp add: handle_cmd_def handled_def link_inv_info Let_def ev3_uart_consts not_less not_le)
next
  case False
  with assms show ?thesis by (simp add: handle_cmd_def handled_def)
qed

lemma handled_info_once:
  "core_inv s \<Longrightarrow> link_inv s \<Longrightarrow> us_state s = ST_INFO \<Longrightarrow> handled s (info_once fl s)"
  by (auto simp: handled_def info_once_def us_inv_defs)

lemma handled_info_format:
  assumes "core_inv s" "link_inv s" "us_state s = ST_INFO"
  shows "handled s (info_format md n s)"
  using assms
  by (auto simp: handled_def info_format_def us_inv_defs Let_def ev3_uart_consts fmt_consts
      intro!: list_all_update)

lemma name_row:
  assumes "length rows = 8" "list_all (\<lambda>n. length n = 12) rows" "0 \<le> md" "md < 8"
  shows "list_all (\<lambda>n. length n = 12) (rows[nat md := copy_str (rows ! nat md) 12 src n])"
  using assms by (intro list_all_update) (auto simp: length_copy_str list_all_length)

lemma handled_info_name:
  assumes "core_inv s" "link_inv s" "us_state s = ST_INFO" "0 \<le> md" "md < 8"
  shows "handled s (info_name md n s)"
proof -
  have "list_all (\<lambda>n. length n = 12) ((us_name s)[nat md := copy_str (us_name s ! nat md) 12 src k])"
    for src k using assms by (intro name_row) (auto simp: shape_inv_def)
  with assms show ?thesis
    by (auto simp: handled_def info_name_def us_inv_defs Let_def ev3_uart_consts)
qed

lemma handled_info_units:
  assumes "core_inv s" "link_inv s" "us_state s = ST_INFO" "0 \<le> md" "md < 8"
  shows "handled s (info_units md n s)"
proof -
  have "list_all (\<lambda>n. length n = 12) ((us_units s)[nat md := copy_str (us_units s ! nat md) 12 src k])"
    for src k using assms by (intro name_row) (auto simp: shape_inv_def)
  with assms show ?thesis
    by (auto simp: handled_def info_units_def us_inv_defs Let_def ev3_uart_consts)
qed

lemmas handled_infos = handled_info_once handled_info_format handled_info_name handled_info_units

lemma handled_same: "core_inv s \<Longrightarrow> link_inv s \<Longrightarrow> handled s (rc, s)"
  by (simp add: handled_def)

lemma handled_info:
  assumes "core_inv s" "link_inv s"
  shows "handled s (handle_info cmd cmd2 n s)"
  using assms
  by (auto simp: handle_info_def Let_def EV3_UART_MAX_MODE_def
      intro!: handled_infos handled_same)

subsection \<open>Data frames\<close>

lemma data_row:
  assumes "length rows = 8" "list_all (\<lambda>d. length d = 8) rows"
  shows "list_all (\<lambda>d. length d = 8) (rows[md := (rows ! md)[i := v]])"
proof (cases "md < 8")
  case True
  with assms show ?thesis by (intro list_all_update) (auto simp: list_all_length)
next
  case False
  with assms show ?thesis by (simp add: list_update_beyond)
qed

lemma wakeup_inv [simp]:
  "shape_inv (s\<lparr>us_wakeup := w\<rparr>) = shape_inv s" "value_inv (s\<lparr>us_wakeup := w\<rparr>) = value_inv s"
  "frame_inv (s\<lparr>us_wakeup := w\<rparr>) = frame_inv s" "link_inv (s\<lparr>us_wakeup := w\<rparr>) = link_inv s"
  by (simp_all add: us_inv_defs)

lemma data_update_inv [simp]:
  "value_inv (s\<lparr>us_data := d\<rparr>) = value_inv s" "link_inv (s\<lparr>us_data := d\<rparr>) = link_inv s"
  by (simp_all add: value_inv_def link_inv_def)

lemma data_update_shape:
  "shape_inv s \<Longrightarrow> shape_inv (s\<lparr>us_data := (us_data s)[md := (us_data s ! md)[i := v]]\<rparr>)"
  by (simp add: shape_inv_def data_row)

definition same_link :: "ev3_uart_sensor \<Rightarrow> ev3_uart_sensor \<Rightarrow> bool" where
  "same_link s t \<longleftrightarrow> core_inv t \<and> link_inv t \<and> us_base t = us_base s \<and> us_msg_idx t = us_msg_idx s"

lemma same_link_refl: "core_inv s \<Longrightarrow> link_inv s \<Longrightarrow> same_link s s"
  by (simp add: same_link_def)

lemma same_link_put:
  assumes "same_link s t"
  shows "same_link s (t\<lparr>us_wakeup := w, us_data := (us_data t)[md := (us_data t ! md)[i := v]]\<rparr>)"
    and "same_link s (t\<lparr>us_data := (us_data t)[md := (us_data t ! md)[i := v]]\<rparr>)"
  using assms data_update_shape [of "t\<lparr>us_wakeup := w\<rparr>" md i v] data_update_shape [of t md i v]
  by (simp_all add: same_link_def)

lemma same_link_loop: "same_link s t \<Longrightarrow> same_link s (data_loop k i md f n t)"
  by (induction k arbitrary: i t) (auto simp: Let_def same_link_put)

lemma same_link_seen: "same_link s t \<Longrightarrow> handled s (0, data_seen now t)"
  by (auto simp: same_link_def handled_def data_seen_def us_inv_defs Let_def)

lemma same_link_mode:
  "same_link s t \<Longrightarrow> 0 \<le> m \<Longrightarrow> m < 8 \<Longrightarrow> same_link s (t\<lparr>us_mode := m\<rparr>)"
  by (auto simp: same_link_def us_inv_defs)

lemma same_link_selected: "same_link s t \<Longrightarrow> same_link s (t\<lparr>us_new_mode := -1, us_requested_mode := m\<rparr>)"
  by (auto simp: same_link_def us_inv_defs)

lemmas same_link_intros = same_link_refl same_link_loop same_link_seen same_link_mode
  same_link_selected

lemma handled_data:
  assumes "core_inv s" "link_inv s"
  shows "handled s (handle_data (b AND MSG_CMD_MASK) n now s)"
proof -
  note m = cmd_lt_8 [of b]
  have "same_link s (s\<lparr>us_mode := uint (b AND MSG_CMD_MASK)\<rparr>)"
    using assms m by (intro same_link_intros)
  moreover have "same_link s s" using assms by (intro same_link_intros)
  ultimately have "same_link s (if uint (b AND MSG_CMD_MASK) \<noteq> us_mode s
      then s\<lparr>us_mode := uint (b AND MSG_CMD_MASK)\<rparr> else s)" (is "same_link s ?t")
    by simp
  then have "handled s (0, data_seen now (?t\<lparr>us_new_mode := -1, us_requested_mode := q\<rparr>))"
    "handled s (0, data_seen now (data_loop k 0 md f n ?t))" for q k md f
    by (blast intro: same_link_intros)+
  with assms show ?thesis
    unfolding handle_data_def Let_def by (simp only: handled_same split: if_split) simp
qed

lemma handled_msg:
  assumes "core_inv s" "link_inv s"
  shows "handled s (handle_msg now s)"
proof -
  have "handled s (0, s\<lparr>us_errors := e, us_num_data_err := us_num_data_err s + 1\<rparr>)"
    "handled s (-1, s\<lparr>us_errors := e\<rparr>)" for e
    using assms by (auto simp: handled_def us_inv_defs)
  then show ?thesis
    using assms handled_sys handled_cmd handled_info handled_data
    by (auto simp: handle_msg_def Let_def)
qed

subsection \<open>Bytes\<close>

lemma frame_inv_idle: "us_msg_idx s = 0 \<Longrightarrow> frame_inv s"
  by (simp add: frame_inv_def)

lemma us_inv_idle: "core_inv s \<Longrightarrow> link_inv s \<Longrightarrow> us_base s \<noteq> 0 \<Longrightarrow> us_msg_idx s = 0 \<Longrightarrow> us_inv s"
  by (simp add: us_inv_def frame_inv_idle)

lemma sync_byte_inv:
  assumes "us_inv s" "us_base s \<noteq> 0" "us_state s = ST_SYNC"
  shows "us_inv (sync_byte b s) \<and> us_base (sync_byte b s) = us_base s"
  using assms
  by (auto simp: sync_byte_def us_inv_defs Let_def list_all_replicate)

lemma frame_byte_inv:
  assumes "core_inv s" "link_inv s" "us_base s \<noteq> 0" "us_state s = ST_INFO \<or> us_state s = ST_DATA"
    "us_msg_idx s < us_msg_len s" "us_msg_len s \<le> 34"
  shows "us_inv (frame_byte b now s) \<and> us_base (frame_byte b now s) = us_base s"
proof -
  let ?s = "s\<lparr>us_msg := (us_msg s)[us_msg_idx s := b], us_msg_idx := us_msg_idx s + 1\<rparr>"
  have keep: "core_inv (?s\<lparr>us_msg_idx := i\<rparr>)" "link_inv (?s\<lparr>us_msg_idx := i\<rparr>)" for i
    using assms(1,2) by (simp_all add: shape_inv_def value_inv_def link_inv_def)
  have "handled (?s\<lparr>us_msg_idx := 0\<rparr>) (handle_msg now (?s\<lparr>us_msg_idx := 0\<rparr>))"
    using keep by (intro handled_msg) auto
  then have "us_inv (resync (snd (handle_msg now (?s\<lparr>us_msg_idx := 0\<rparr>))))"
    "us_base (snd (handle_msg now (?s\<lparr>us_msg_idx := 0\<rparr>))) = us_base s"
    "fst (handle_msg now (?s\<lparr>us_msg_idx := 0\<rparr>)) = 0 \<Longrightarrow>
       us_inv (snd (handle_msg now (?s\<lparr>us_msg_idx := 0\<rparr>)))"
    using assms(3) by (auto simp: handled_def intro: us_inv_idle resync_inv)
  moreover have "us_inv ?s" if "us_msg_idx s + 1 < us_msg_len s"
    using keep [of "us_msg_idx s + 1"] assms that by (auto simp: us_inv_def frame_inv_def)
  ultimately show ?thesis
    by (auto simp: frame_byte_def Let_def split: prod.splits)
qed

lemma frame_size_pos: "1 \<le> frame_size b"
  by (simp add: frame_size_def MSG_SIZE_def Let_def)

lemma handle_byte_inv:
  assumes "us_inv s" "us_base s \<noteq> 0"
  shows "us_inv (handle_byte b now s) \<and> us_base (handle_byte b now s) = us_base s"
proof (cases "us_state s = ST_INFO \<or> us_state s = ST_DATA")
  case True
  have "us_inv (resync s)" using assms by (intro resync_inv) (auto simp: us_inv_def)
  moreover have "us_inv (frame_byte b now (s\<lparr>us_msg_len := nat (frame_size b)\<rparr>)) \<and>
      us_base (frame_byte b now (s\<lparr>us_msg_len := nat (frame_size b)\<rparr>)) = us_base s"
    if "us_msg_idx s = 0" "frame_size b \<le> 34"
  proof -
    let ?t = "s\<lparr>us_msg_len := nat (frame_size b)\<rparr>"
    have "core_inv ?t" "link_inv ?t"
      using assms by (simp_all add: us_inv_def shape_inv_def value_inv_def link_inv_def)
    then show ?thesis
      using frame_byte_inv [of ?t b now] that assms True frame_size_pos [of b] by auto
  qed
  moreover have "us_inv (frame_byte b now s) \<and> us_base (frame_byte b now s) = us_base s"
    if "us_msg_idx s \<noteq> 0"
    using frame_byte_inv [of s b now] that assms True by (auto simp: us_inv_def frame_inv_def)
  ultimately show ?thesis
    using True assms
    by (auto simp: handle_byte_def Let_def EV3_UART_MAX_MESSAGE_SIZE_def EV3_UART_MAX_DATA_SIZE_def)
next
  case False
  then show ?thesis
    using assms sync_byte_inv [of s b] by (cases "us_state s") (auto simp: handle_byte_def)
qed

subsection \<open>Interface operations\<close>

text \<open>The invariant looks neither at the UART nor at the timestamps, and at the ring only through
  \<open>rr_inv\<close>.\<close>

lemma dev_inv:
  assumes "us_inv s" "rr_inv r"
  shows "us_inv (s\<lparr>us_dev := u, us_rx := r\<rparr>)"
  using assms by (simp add: us_inv_defs)

lemma write_inv: "us_inv s \<Longrightarrow> us_inv (uart_write bs s)"
  by (simp add: uart_write_eq us_inv_defs)

lemma uart_write_fields [simp]:
  "us_base (uart_write bs s) = us_base s" "us_state (uart_write bs s) = us_state s"
  "us_synced (uart_write bs s) = us_synced s" "us_new_mode (uart_write bs s) = us_new_mode s"
  "us_modes (uart_write bs s) = us_modes s" "us_errors (uart_write bs s) = us_errors s"
  "us_set_mode_ms (uart_write bs s) = us_set_mode_ms s"
  "us_set_mode_retries (uart_write bs s) = us_set_mode_retries s"
  by (simp_all add: uart_write_eq)

lemma us_inv_rx: "us_inv s \<Longrightarrow> rr_inv (us_rx s)"
  by (simp add: us_inv_def shape_inv_def)

lemma drain_inv: "rr_inv r \<Longrightarrow> rr_inv (snd (rx_drain_loop u r))"
  using rxq.fold_push [of r "ur_rx u"] by (simp add: rx_drain_loop_fold list_all_iff)

lemma rx_irq_inv: "us_inv s \<Longrightarrow> us_inv (rx_irq s)"
  using drain_inv [of "us_rx s" "us_dev s"]
  by (auto simp: rx_irq_def us_inv_rx split: prod.split intro: dev_inv)

lemma rx_drain_hw_inv: "us_inv s \<Longrightarrow> us_inv (rx_drain_hw s) \<and> us_base (rx_drain_hw s) = us_base s"
  using drain_inv [of "us_rx s" "ev3_uart_enable_irq EV3_IRQ_RX False (us_dev s)"]
  by (auto simp: rx_drain_hw_def us_inv_rx Let_def split: prod.split intro: dev_inv)

lemma rx_pop_inv:
  assumes "us_inv s" "rx_pop s = Some (b, t)"
  shows "us_inv t \<and> us_base t = us_base s"
proof -
  obtain r where r: "rx_pop_ring (us_rx s) = Some (b, r)" "t = s\<lparr>us_rx := r\<rparr>"
    using assms(2) by (auto simp: rx_pop_def)
  then have "rr_inv r" using us_inv_rx [OF assms(1)] rxq.pop_SomeD by blast
  with r(2) dev_inv [OF assms(1), of r "us_dev s"] show ?thesis by simp
qed

lemma poll_loop_inv:
  "us_inv s \<Longrightarrow> us_base s \<noteq> 0 \<Longrightarrow>
     us_inv (poll_loop guard now s) \<and> us_base (poll_loop guard now s) = us_base s"
proof (induction guard now s rule: poll_loop.induct)
  case (1 guard now s)
  show ?case
  proof (cases "rx_pop s")
    case None
    with 1 show ?thesis by (simp add: poll_loop.simps [of guard])
  next
    case (Some p)
    obtain b t where p: "p = (b, t)" by (cases p)
    with 1 Some rx_pop_inv [of s b t] handle_byte_inv [of t b now] show ?thesis
      by (auto simp: poll_loop.simps [of guard])
  qed
qed

lemma start_select_inv:
  assumes "us_inv s" "us_base s \<noteq> 0" "us_state s = ST_DATA" "0 \<le> m" "m < us_modes s"
  shows "us_inv (start_select m now s)"
  using assms unfolding start_select_def send_select_def Let_def
  by (intro write_inv) (simp add: us_inv_defs EV3_UART_SET_MODE_RETRY_def)

lemma link_up_inv:
  assumes "us_inv s" "us_base s \<noteq> 0" "us_state s = ST_ACK_WAIT"
  shows "us_inv (link_up now s)"
proof -
  let ?t = "(rx_flush (s\<lparr>us_dev := ev3_uart_set_baud (sint (us_speed s)) (us_dev s)\<rparr>))
     \<lparr>us_state := ST_DATA, us_info_done := True, us_synced := True, us_mode := 0,
      us_ignore_ff := True, us_num_data_err := 0, us_keep_alive_ms := now,
      us_last_data_ms := now, us_msg_idx := 0, us_wakeup := True\<rparr>"
  have "us_inv (?t\<lparr>us_new_mode := -1\<rparr>)" "us_inv ?t"
    using assms by (auto simp: us_inv_defs rx_flush_def rr_inv_flush)
  with assms(2) show ?thesis
    by (auto simp: link_up_def Let_def rx_flush_def intro!: start_select_inv)
qed

lemma poll_data_inv:
  assumes "us_inv s" "us_base s \<noteq> 0" "us_state s = ST_DATA"
  shows "us_inv (poll_data now s)"
proof -
  define t where "t = (if now - us_keep_alive_ms s \<ge> EV3_UART_KEEP_ALIVE_MS
      then uart_put SYS_NACK (s\<lparr>us_keep_alive_ms := now\<rparr>) else s)"
  have "us_inv (s\<lparr>us_keep_alive_ms := now\<rparr>)" using assms by (simp add: us_inv_defs)
  then have t: "us_inv t" "us_base t \<noteq> 0" "us_state t = ST_DATA"
    using assms by (auto simp: t_def uart_put_def intro: write_inv)
  then have "us_inv (t\<lparr>us_set_mode_retries := k, us_errors := e, us_new_mode := -1\<rparr>)" for k e
    by (auto simp: us_inv_defs)
  moreover have "us_inv (send_select (us_new_mode t)
      (t\<lparr>us_set_mode_retries := us_set_mode_retries t + 1, us_set_mode_ms := now\<rparr>))"
    if "us_set_mode_retries t + 1 < EV3_UART_SET_MODE_RETRY"
    using t that unfolding send_select_def Let_def
    by (intro write_inv) (auto simp: us_inv_defs)
  moreover have "us_inv (resync s)" using assms(1) by (intro resync_inv) (auto simp: us_inv_def)
  ultimately show ?thesis
    using t unfolding poll_data_def t_def [symmetric] Let_def by (simp split: if_split)
qed

lemma poll_inv: "us_inv s \<Longrightarrow> us_inv (ev3_uart_sensor_poll now s)"
proof (cases "us_base s = 0")
  case False
  assume "us_inv s"
  define t where "t = poll_loop 0 now (rx_drain_hw s)"
  have t: "us_inv t" "us_base t \<noteq> 0"
    using False \<open>us_inv s\<close> rx_drain_hw_inv [of s] poll_loop_inv [of "rx_drain_hw s" 0 now]
    by (auto simp: t_def)
  then have "us_inv ((uart_put SYS_ACK t)\<lparr>us_ack_ms := now, us_state := ST_ACK_WAIT\<rparr>)"
    if "us_state t = ST_ACK_DELAY"
    using that by (auto simp: us_inv_defs uart_put_def uart_write_eq)
  with t have "us_inv (poll_switch now t)"
    by (auto simp: poll_switch_def link_up_inv poll_data_inv split: link_state.split)
  with False show ?thesis by (simp add: ev3_uart_sensor_poll_def t_def)
qed (simp add: ev3_uart_sensor_poll_def)

lemma select_inv: "us_inv s \<Longrightarrow> us_inv (snd (ev3_uart_sensor_select m now s))"
proof -
  assume inv: "us_inv s"
  have "us_inv (s\<lparr>us_requested_mode := m\<rparr>)" using inv by (simp add: us_inv_defs)
  moreover have "us_base s \<noteq> 0" if "us_synced s" using inv that by (auto simp: us_inv_def)
  ultimately show ?thesis
    using inv by (auto simp: ev3_uart_sensor_select_def Let_def intro!: start_select_inv)
qed

lemma sensor_write_inv: "us_inv s \<Longrightarrow> us_inv (snd (ev3_uart_sensor_write dat s))"
  by (auto simp: ev3_uart_sensor_write_def Let_def write_inv)

lemma wakeup_us_inv: "us_inv s \<Longrightarrow> us_inv (s\<lparr>us_wakeup := w\<rparr>)"
  by (simp add: us_inv_def)

lemma close_inv: "us_inv s \<Longrightarrow> us_inv (ev3_uart_sensor_close s)"
  by (auto simp: ev3_uart_sensor_close_def us_inv_defs Let_def)

lemma open_inv:
  assumes "ev3_uart_sensor_open base irq en u port md = Some s"
  shows "us_inv s"
proof -
  have "rr_inv \<lparr>rr_head = 0, rr_tail = 0, rr_overrun = 0, rr_ring = replicate 512 0\<rparr>"
    by (simp add: rr_inv_def)
  with assms show ?thesis
    by (auto simp: ev3_uart_sensor_open_def ev3_uart_sensor_zero_def us_inv_defs Let_def
        list_all_replicate EV3_UART_SPEED_MIN_def split: if_splits)
qed

end
