(* ===== verification/Ev3_Link_Props.thy ===== *)
theory Ev3_Link_Props
  imports Ev3_Link
begin

text \<open>
  What the EV3 sensor link promises its clients: the states the operations can reach, the path of a
  frame from the wire to the values the client reads, what a damaged frame does, the end of the
  handshake, the watchdog and the bound on mode-selection retries.
\<close>

section \<open>Reachable states\<close>

text \<open>
  One step of the link: the UART changes in any way (bytes arrive, the transmitter empties), the
  receive interrupt fires, or the client calls an operation. The clock readings are arbitrary.
\<close>

inductive us_step :: "ev3_uart_sensor \<Rightarrow> ev3_uart_sensor \<Rightarrow> bool" where
  us_device: "us_step s (s\<lparr>us_dev := u\<rparr>)"
| us_irq_fires: "us_step s (rx_irq s)"
| us_poll: "us_step s (ev3_uart_sensor_poll now s)"
| us_select: "us_step s (snd (ev3_uart_sensor_select m now s))"
| us_write: "us_step s (snd (ev3_uart_sensor_write dat s))"
| us_consume: "us_step s (snd (ev3_uart_sensor_consume_wakeup s))"
| us_close: "us_step s (ev3_uart_sensor_close s)"

inductive_cases us_stepE: "us_step s t"

definition us_opened :: "ev3_uart_sensor \<Rightarrow> bool" where
  "us_opened s \<longleftrightarrow> (\<exists>base irq en u port md. ev3_uart_sensor_open base irq en u port md = Some s)"

interpretation usys: transition_system us_opened us_step us_inv
proof unfold_locales
  show "us_inv s" if "us_opened s" for s
    using that open_inv by (auto simp: us_opened_def)
  show "us_inv t" if "us_inv s" "us_step s t" for s t
    using that(2,1) dev_inv [OF that(1) us_inv_rx [OF that(1)]]
    by (cases rule: us_step.cases)
       (auto simp: rx_irq_inv poll_inv select_inv sensor_write_inv close_inv
          ev3_uart_sensor_consume_wakeup_def wakeup_us_inv)
qed

lemma us_inv_index:
  assumes "us_inv s" "us_base s \<noteq> 0"
  shows "us_msg_idx s < length (us_msg s)"
  using assms by (cases "us_state s") (auto simp: us_inv_defs)

section \<open>From the wire to a message\<close>

abbreviation feed :: "u32 \<Rightarrow> u8 list \<Rightarrow> ev3_uart_sensor \<Rightarrow> ev3_uart_sensor" where
  "feed now bs s \<equiv> fold (\<lambda>b. handle_byte b now) bs s"

definition run_msg :: "u32 \<Rightarrow> ev3_uart_sensor \<Rightarrow> ev3_uart_sensor" where
  "run_msg now s = (let (rc, t) = handle_msg now s in if rc \<noteq> 0 then resync t else t)"

lemma handle_byte_mid:
  "us_state s = ST_INFO \<or> us_state s = ST_DATA \<Longrightarrow> us_msg_idx s \<noteq> 0 \<Longrightarrow>
     handle_byte b now s = frame_byte b now s"
  by (auto simp: handle_byte_def)

lemma frame_byte_more:
  "Suc (us_msg_idx s) < us_msg_len s \<Longrightarrow> frame_byte b now s =
     s\<lparr>us_msg := (us_msg s)[us_msg_idx s := b], us_msg_idx := Suc (us_msg_idx s)\<rparr>"
  by (simp add: frame_byte_def Let_def)

lemma frame_byte_last:
  "\<not> Suc (us_msg_idx s) < us_msg_len s \<Longrightarrow> frame_byte b now s =
     run_msg now (s\<lparr>us_msg := (us_msg s)[us_msg_idx s := b], us_msg_idx := 0\<rparr>)"
  by (simp add: frame_byte_def run_msg_def Let_def)

lemma feed_rest:
  assumes "us_state s = ST_INFO \<or> us_state s = ST_DATA" "pre \<noteq> []" "rest \<noteq> []"
    "us_msg_idx s = length pre" "us_msg s = pre @ post" "length rest \<le> length post"
    "us_msg_len s = length pre + length rest"
  shows "feed now rest s =
    run_msg now (s\<lparr>us_msg := pre @ rest @ drop (length rest) post, us_msg_idx := 0\<rparr>)"
  using assms
proof (induction rest arbitrary: pre post s)
  case (Cons b rest)
  obtain c post' where post: "post = c # post'" using Cons.prems(6) by (cases post) auto
  let ?s = "s\<lparr>us_msg := pre @ b # post', us_msg_idx := Suc (length pre)\<rparr>"
  have upd: "(us_msg s)[length pre := b] = pre @ b # post'"
    using Cons.prems(5) post by (simp add: list_update_append)
  show ?case
  proof (cases "rest = []")
    case True
    with Cons.prems upd post show ?thesis
      by (simp add: handle_byte_mid frame_byte_last)
  next
    case False
    then have step: "handle_byte b now s = ?s"
      using Cons.prems upd by (simp add: handle_byte_mid frame_byte_more)
    have "feed now rest ?s =
        run_msg now (?s\<lparr>us_msg := (pre @ [b]) @ rest @ drop (length rest) post', us_msg_idx := 0\<rparr>)"
      using False Cons.prems post by (intro Cons.IH) auto
    with step post show ?thesis by simp
  qed
qed simp

definition framed :: "u8 list \<Rightarrow> ev3_uart_sensor \<Rightarrow> ev3_uart_sensor" where
  "framed bs s = s\<lparr>us_msg_len := length bs, us_msg := bs @ drop (length bs) (us_msg s),
     us_msg_idx := 0\<rparr>"

text \<open>Bytes that make up one frame are assembled and run as one message.\<close>

lemma feed_frame:
  assumes "us_state s = ST_INFO \<or> us_state s = ST_DATA" "us_msg_idx s = 0" "length (us_msg s) = 36"
    "h \<noteq> 0xff" "frame_size h = int (Suc (length rest))" "length rest \<le> 33"
    "us_state s = ST_DATA \<Longrightarrow> h AND MSG_TYPE_MASK = MSG_DATA \<and> 2 \<le> length rest"
  shows "feed now (h # rest) s = run_msg now (framed (h # rest) s)"
proof -
  obtain c post where post: "us_msg s = c # post" using assms(3) by (cases "us_msg s") auto
  let ?s = "s\<lparr>us_msg_len := Suc (length rest), us_msg := h # post, us_msg_idx := 1\<rparr>"
  have first: "handle_byte h now s = frame_byte h now (s\<lparr>us_msg_len := Suc (length rest)\<rparr>)"
    using assms by (auto simp: handle_byte_def Let_def ev3_uart_consts nat_add_distrib)
  show ?thesis
  proof (cases "rest = []")
    case True
    with assms(2) post first show ?thesis by (simp add: frame_byte_last framed_def)
  next
    case False
    then have "handle_byte h now s = ?s"
      using assms(2) post first by (simp add: frame_byte_more)
    moreover have "feed now rest ?s =
        run_msg now (?s\<lparr>us_msg := [h] @ rest @ drop (length rest) post, us_msg_idx := 0\<rparr>)"
      using assms False post by (intro feed_rest) auto
    ultimately show ?thesis using post by (simp add: framed_def)
  qed
qed

section \<open>Data frames\<close>

text \<open>
  The sensor's side of the protocol: the little-endian bytes of a value in a format, and a DATA frame
  for mode \<open>md\<close> with payload size \<open>2 ^ code\<close>, closed by the checksum.
\<close>

definition le_bytes :: "nat \<Rightarrow> int \<Rightarrow> u8 list" where
  "le_bytes k v = map (\<lambda>j. word_of_int (drop_bit (8 * j) v)) [0..<k]"

definition data_header :: "nat \<Rightarrow> nat \<Rightarrow> u8" where
  "data_header code md = MSG_DATA OR push_bit 3 (of_nat code) OR of_nat md"

definition sealed :: "u8 list \<Rightarrow> u8 list" where
  "sealed bs = bs @ [foldl (XOR) 0xff bs]"

definition payload :: "int \<Rightarrow> nat \<Rightarrow> int list \<Rightarrow> u8 list" where
  "payload f n vs = (let p = concat (map (le_bytes (fmt_size f)) vs) in p @ replicate (n - length p) 0)"

definition data_frame :: "nat \<Rightarrow> nat \<Rightarrow> int \<Rightarrow> int list \<Rightarrow> u8 list" where
  "data_frame code md f vs = sealed (data_header code md # payload f (2 ^ code) vs)"

text \<open>The values a format can carry.\<close>

definition fmt_range :: "int \<Rightarrow> int \<Rightarrow> bool" where
  "fmt_range f v \<longleftrightarrow> 0 \<le> f \<and> f \<le> 2 \<and>
     - (2 ^ (8 * fmt_size f - 1)) \<le> v \<and> v < 2 ^ (8 * fmt_size f - 1)"

lemma decode_le_bytes8:
  "- 128 \<le> v \<Longrightarrow> v < 128 \<Longrightarrow> sint (word_of_int v :: u8) = v"
  by (simp add: sint_sbintrunc' signed_take_bit_int_eq_self)

lemma decode_le_bytes16:
  assumes "- 32768 \<le> v" "v < 32768"
  shows "sint (ucast (word_of_int v :: u8) OR
           push_bit 8 (ucast (word_of_int (drop_bit 8 v) :: u8)) :: u16) = v"
proof -
  have "(ucast (word_of_int v :: u8) OR push_bit 8 (ucast (word_of_int (drop_bit 8 v) :: u8)) :: u16)
      = word_of_int v"
    by (rule bit_word_eqI) (auto simp: bit_simps)
  with assms show ?thesis by (simp add: sint_sbintrunc' signed_take_bit_int_eq_self)
qed

lemma decode_le_bytes32:
  assumes "- 2147483648 \<le> v" "v < 2147483648"
  shows "sint (le32 (word_of_int v) (word_of_int (drop_bit 8 v)) (word_of_int (drop_bit 16 v))
           (word_of_int (drop_bit 24 v))) = v"
proof -
  have "le32 (word_of_int v) (word_of_int (drop_bit 8 v)) (word_of_int (drop_bit 16 v))
      (word_of_int (drop_bit 24 v)) = word_of_int v"
    unfolding le32_def
  proof (rule bit_word_eqI)
    fix n assume "n < LENGTH(32)"
    then show "bit (ucast (word_of_int v :: u8) OR push_bit 8 (ucast (word_of_int (drop_bit 8 v) :: u8))
        OR push_bit 16 (ucast (word_of_int (drop_bit 16 v) :: u8))
        OR push_bit 24 (ucast (word_of_int (drop_bit 24 v) :: u8)) :: u32) n =
      bit (word_of_int v :: u32) n"
      by (cases "n < 16"; cases "n < 24") (auto simp: bit_simps)
  qed
  with assms show ?thesis by (simp add: sint_sbintrunc' signed_take_bit_int_eq_self)
qed

lemma decode_encode:
  assumes "fmt_range f v"
  shows "decode_le (le_bytes (fmt_size f) v @ r) f = v"
proof -
  have "f = 0 \<or> f = 1 \<or> f = 2" using assms by (auto simp: fmt_range_def)
  moreover have "[0..<4] = [0, 1, 2, 3::nat]" "[0..<2] = [0, 1::nat]" by (simp_all add: upt_rec)
  ultimately show ?thesis
    using assms
    by (auto simp: fmt_range_def decode_le_def le_bytes_def fmt_size_def fmt_consts
        decode_le_bytes8 decode_le_bytes16 decode_le_bytes32)
qed

lemma length_le_bytes [simp]: "length (le_bytes k v) = k"
  by (simp add: le_bytes_def)

lemma drop_payload:
  "i < length vs \<Longrightarrow> \<exists>r. drop (i * k) (concat (map (le_bytes k) vs) @ z) = le_bytes k (vs ! i) @ r"
proof (induction vs arbitrary: i)
  case (Cons v vs)
  show ?case
  proof (cases i)
    case (Suc j)
    with Cons show ?thesis by auto
  qed simp
qed simp

lemma length_concat_le: "length (concat (map (le_bytes k) vs)) = length vs * k"
  by (induction vs) auto

text \<open>The loop over the datasets stores the decoded values one after the other.\<close>

lemma data_loop_values:
  assumes "length (us_data s) = 8" "list_all (\<lambda>d. length d = 8) (us_data s)" "md < 8" "i + k \<le> 8"
    "1 + (i + k) * fmt_size f \<le> n - 1"
  shows "us_data (data_loop k i md f n s) ! md =
    take i (us_data s ! md) @
    map (\<lambda>j. decode_le (drop (1 + j * fmt_size f) (us_msg s)) f) [i..<i + k] @
    drop (i + k) (us_data s ! md)"
  using assms
proof (induction k arbitrary: i s)
  case 0
  then show ?case by simp
next
  case (Suc k)
  have fits: "\<not> 1 + i * fmt_size f + fmt_size f > n - 1"
    using Suc.prems(5) by (simp add: algebra_simps)
  let ?v = "decode_le (drop (1 + i * fmt_size f) (us_msg s)) f"
  define t where "t = (if ?v \<noteq> us_data s ! md ! i then s\<lparr>us_wakeup := True\<rparr> else s)
     \<lparr>us_data := (us_data s)[md := (us_data s ! md)[i := ?v]]\<rparr>"
  have t: "us_msg t = us_msg s" "us_data t = (us_data s)[md := (us_data s ! md)[i := ?v]]"
    by (simp_all add: t_def)
  have row: "us_data t ! md = (us_data s ! md)[i := ?v]" "length (us_data s ! md) = 8"
    using Suc.prems by (auto simp: t list_all_length)
  have "data_loop (Suc k) i md f n s = data_loop k (Suc i) md f n t"
    using fits by (simp add: Let_def t_def)
  moreover have "us_data (data_loop k (Suc i) md f n t) ! md =
      take (Suc i) (us_data t ! md) @
      map (\<lambda>j. decode_le (drop (1 + j * fmt_size f) (us_msg t)) f) [Suc i..<Suc i + k] @
      drop (Suc i + k) (us_data t ! md)"
    using Suc.prems data_row [of "us_data s" md i ?v] by (intro Suc.IH) (auto simp: t)
  moreover have "take (Suc i) (us_data t ! md) = take i (us_data s ! md) @ [?v]"
    using row Suc.prems by (simp add: take_Suc_conv_app_nth)
  ultimately show ?case
    using t row Suc.prems by (simp add: upt_conv_Cons del: data_loop.simps upt_Suc)
qed

text \<open>A DATA header of a mode and a size code carries them, and its frame size is the payload plus
  two.\<close>

lemma data_header_fields:
  assumes "code < 8" "md < 8"
  shows "data_header code md AND MSG_TYPE_MASK = MSG_DATA" (is ?type)
    and "data_header code md AND MSG_CMD_MASK = of_nat md" (is ?cmd)
    and "frame_size (data_header code md) = 2 ^ code + 2" (is ?size)
    and "data_header code md = 0xff \<longleftrightarrow> code = 7 \<and> md = 7" (is ?sync)
proof -
  have "code \<in> {0, 1, 2, 3, 4, 5, 6, 7}" "md \<in> {0, 1, 2, 3, 4, 5, 6, 7}"
    using assms by auto
  then show ?type ?cmd ?size ?sync
    by (auto simp: data_header_def msg_consts frame_size_def MSG_SIZE_def)
qed

lemma foldl_xor: "foldl (XOR) (a :: u8) xs = a XOR foldl (XOR) 0 xs"
proof (induction xs arbitrary: a)
  case (Cons x xs)
  show ?case using Cons.IH [of "a XOR x"] Cons.IH [of x] by (simp add: ac_simps)
qed simp

lemma foldl_xor_update:
  assumes "i < length xs"
  shows "foldl (XOR) (a :: u8) (xs[i := b]) = foldl (XOR) a xs XOR (xs ! i XOR b)"
  using assms
proof (induction xs arbitrary: a i)
  case (Cons x xs)
  show ?case
  proof (cases i)
    case 0
    have "foldl (XOR) (a XOR b) xs = (a XOR b) XOR foldl (XOR) 0 xs"
      "foldl (XOR) (a XOR x) xs = (a XOR x) XOR foldl (XOR) 0 xs"
      by (rule foldl_xor)+
    with 0 show ?thesis by (simp add: ac_simps)
  next
    case (Suc j)
    with Cons show ?thesis by simp
  qed
qed simp

lemma checksum_sealed: "msg_checksum (sealed bs @ r) (length bs) = (sealed bs @ r) ! length bs"
  by (simp add: msg_checksum_def sealed_def)

text \<open>A frame of the sealed form is checked, and one damaged byte is noticed.\<close>

lemma checksum_damaged:
  assumes "i < Suc (length bs)" "b \<noteq> sealed bs ! i"
  shows "msg_checksum ((sealed bs)[i := b] @ r) (length bs) \<noteq> ((sealed bs)[i := b] @ r) ! length bs"
proof (cases "i < length bs")
  case True
  with assms have "bs ! i \<noteq> b" by (simp add: sealed_def nth_append)
  then have "bs ! i XOR b \<noteq> 0" by (simp add: xor_eq_0_word_iff)
  then have "foldl (XOR) 0xff (bs[i := b]) \<noteq> foldl (XOR) 0xff bs"
    by (simp add: foldl_xor_update [OF True] xor_eq_left_iff)
  with True show ?thesis
    by (simp add: msg_checksum_def sealed_def list_update_append nth_append)
next
  case False
  with assms have "i = length bs" by simp
  with assms show ?thesis by (auto simp: msg_checksum_def sealed_def list_update_append nth_append)
qed

lemma run_good:
  assumes "us_state s = ST_DATA" "length bs \<ge> 2" "hd bs AND MSG_TYPE_MASK = MSG_DATA"
  shows "run_msg now (framed (sealed bs) s) =
    snd (handle_data (hd bs AND MSG_CMD_MASK) (Suc (length bs)) now (framed (sealed bs) s))"
proof -
  obtain h r where bs: "bs = h # r" using assms(2) by (cases bs) auto
  have "fst (handle_data cmd n now t) = 0" if "us_state t = ST_DATA" for cmd n t
    using that by (simp add: handle_data_def Let_def)
  moreover have "us_state (framed (sealed bs) s) = ST_DATA" using assms(1) by (simp add: framed_def)
  moreover have "handle_msg now (framed (sealed bs) s) =
      handle_data (hd bs AND MSG_CMD_MASK) (Suc (length bs)) now (framed (sealed bs) s)"
    using assms checksum_sealed [of bs "drop (Suc (length bs)) (us_msg s)"]
    by (simp add: handle_msg_def framed_def Let_def bs sealed_def msg_consts)
  ultimately show ?thesis by (simp add: run_msg_def split_beta)
qed

lemma data_loop_fields [simp]:
  "us_msg (data_loop k i md f n s) = us_msg s" "us_mode (data_loop k i md f n s) = us_mode s"
  "us_state (data_loop k i md f n s) = us_state s" "us_synced (data_loop k i md f n s) = us_synced s"
  "us_num_data_err (data_loop k i md f n s) = us_num_data_err s"
  "us_errors (data_loop k i md f n s) = us_errors s"
  by (induction k arbitrary: i s) (auto simp: Let_def)

lemma data_seen_fields [simp]:
  "us_data (data_seen now s) = us_data s" "us_last_data_ms (data_seen now s) = now"
  "us_state (data_seen now s) = us_state s" "us_mode (data_seen now s) = us_mode s"
  "us_errors (data_seen now s) = us_errors s"
  by (simp_all add: data_seen_def Let_def)

lemma payload_decode:
  assumes "i < length vs" "list_all (fmt_range f) vs"
  shows "decode_le (drop (Suc (i * fmt_size f)) (h # payload f n vs @ r)) f = vs ! i"
proof -
  define z where "z = replicate (n - length (concat (map (le_bytes (fmt_size f)) vs))) 0 @ r"
  have p: "payload f n vs @ r = concat (map (le_bytes (fmt_size f)) vs) @ z"
    by (simp add: payload_def z_def Let_def)
  obtain y where "drop (i * fmt_size f) (payload f n vs @ r) = le_bytes (fmt_size f) (vs ! i) @ y"
    using drop_payload [OF assms(1), of "fmt_size f" z] unfolding p by blast
  with assms show ?thesis by (simp add: decode_encode list_all_length)
qed

lemma unat_of_nat_small: "md < 8 \<Longrightarrow> unat (of_nat md :: u8) = md"
  by (simp add: unat_of_nat)

lemma uint_of_nat_small: "md < 8 \<Longrightarrow> uint (of_nat md :: u8) = int md"
  by (simp add: uint_nat unat_of_nat_small)

text \<open>
  C6. Round trip of sensor values: in a live link that is not waiting for a mode switch to \<open>md\<close>, a
  DATA frame a sensor builds for values in the range of the mode's format (8, 16 or 32 bits) is
  accepted byte by byte and leaves exactly those values in the mode's row, with no error counted.
\<close>

theorem data_frame_roundtrip:
  assumes "us_inv s" "us_base s \<noteq> 0" "us_state s = ST_DATA" "us_msg_idx s = 0"
    and "md < 8" "code \<le> 5" "us_new_mode s \<noteq> int md"
    and "us_fmt s ! md = f" "us_datasets s ! md = int (length vs)" "vs \<noteq> []"
    and "list_all (fmt_range f) vs" "length vs * fmt_size f \<le> 2 ^ code"
  shows "take (length vs) (us_data (feed now (data_frame code md f vs) s) ! md) = vs \<and>
    us_mode (feed now (data_frame code md f vs) s) = int md \<and>
    us_last_data_ms (feed now (data_frame code md f vs) s) = now \<and>
    us_state (feed now (data_frame code md f vs) s) = ST_DATA \<and>
    us_errors (feed now (data_frame code md f vs) s) = us_errors s"
proof -
  let ?h = "data_header code md" and ?p = "payload f (2 ^ code) vs"
  note h = data_header_fields [OF _ assms(5), of code]
  have lp: "length ?p = 2 ^ code"
    using assms(12) by (simp add: payload_def Let_def length_concat_le)
  have c: "(2::nat) ^ code \<le> 2 ^ 5" by (rule power_increasing) (use assms(6) in auto)
  have "data_frame code md f vs = ?h # ?p @ [foldl (XOR) 0xff (?h # ?p)]"
    by (simp add: data_frame_def sealed_def)
  moreover have "feed now \<dots> s = run_msg now (framed \<dots> s)"
    using assms h lp c by (intro feed_frame) (auto simp: us_inv_def shape_inv_def)
  ultimately have "feed now (data_frame code md f vs) s =
      run_msg now (framed (sealed (?h # ?p)) s)"
    by (simp add: data_frame_def)
  also have "\<dots> = snd (handle_data (of_nat md) (2 ^ code + 2) now (framed (sealed (?h # ?p)) s))"
    using assms(3,6) h lp by (subst run_good) auto
  finally have fed: "feed now (data_frame code md f vs) s = \<dots>" .
  define t where "t = (framed (sealed (?h # ?p)) s)\<lparr>us_mode := int md\<rparr>"
  have "int md = us_mode s \<Longrightarrow> t = framed (sealed (?h # ?p)) s"
    by (simp add: t_def framed_def)
  then have run: "feed now (data_frame code md f vs) s =
      data_seen now (data_loop (length vs) 0 md f (2 ^ code + 2) t)"
    using assms fed
    by (auto simp: handle_data_def Let_def t_def framed_def uint_of_nat_small unat_of_nat_small)
  have "length vs \<le> 8"
    using assms(1,5,9) by (auto simp: us_inv_def shape_inv_def value_inv_def list_all_length)
  then have "us_data (data_loop (length vs) 0 md f (2 ^ code + 2) t) ! md =
      map (\<lambda>j. decode_le (drop (1 + j * fmt_size f) (us_msg t)) f) [0..<length vs] @
      drop (length vs) (us_data t ! md)"
    using assms by (subst data_loop_values) (auto simp: t_def framed_def us_inv_def shape_inv_def)
  moreover have "map (\<lambda>j. decode_le (drop (1 + j * fmt_size f) (us_msg t)) f) [0..<length vs] = vs"
    by (rule nth_equalityI)
       (auto simp: t_def framed_def sealed_def payload_decode assms(11) simp del: drop_Suc_Cons)
  ultimately show ?thesis using run assms(3) by (simp add: t_def framed_def)
qed

text \<open>A live link with one mode of two 16-bit values, for the concrete checks below.\<close>

definition demo_uart :: uart16550 where
  "demo_uart = \<lparr>ur_ier = 1, ur_lcr = 3, ur_mcr = 0, ur_fcr = 7, ur_pwremu = 0, ur_dll = 0, ur_dlh = 0,
     ur_rx = [], ur_tx = [], ur_thre = True, ur_temt = True\<rparr>"

definition demo_link :: ev3_uart_sensor where
  "demo_link = (ev3_uart_sensor_zero demo_uart)\<lparr>us_base := 1, us_irq := 1, us_state := ST_DATA,
     us_synced := True, us_modes := 2, us_view_modes := 2, us_info_flags := IF_REQUIRED,
     us_speed := 57600, us_new_mode := -1, us_fmt := [0, 1, 0, 0, 0, 0, 0, 0],
     us_datasets := [1, 2, 0, 0, 0, 0, 0, 0]\<rparr>"

lemma demo_fields [simp]:
  "us_base demo_link = 1" "us_state demo_link = ST_DATA" "us_msg_idx demo_link = 0"
  "us_new_mode demo_link = -1" "us_fmt demo_link = [0, 1, 0, 0, 0, 0, 0, 0]"
  "us_datasets demo_link = [1, 2, 0, 0, 0, 0, 0, 0]" "us_type_id demo_link = 0"
  "us_errors demo_link = 0" "us_num_data_err demo_link = 0" "us_last_data_ms demo_link = 0"
  "us_dev demo_link = demo_uart" "us_synced demo_link" "us_speed demo_link = 57600"
  "us_modes demo_link = 2" "us_keep_alive_ms demo_link = 0"
  "us_rx demo_link = \<lparr>rr_head = 0, rr_tail = 0, rr_overrun = 0, rr_ring = replicate 512 0\<rparr>"
  by (simp_all add: demo_link_def ev3_uart_sensor_zero_def)

lemma demo_inv: "us_inv demo_link"
  by (simp add: us_inv_defs demo_link_def ev3_uart_sensor_zero_def rr_inv_def)

theorem data_frame_roundtrip_witness:
  "take 2 (us_data (feed 5 (data_frame 2 1 1 [-300, 1000]) demo_link) ! 1) = [-300, 1000]"
  using data_frame_roundtrip [of demo_link 1 2 1 "[-300, 1000]" 5] demo_inv
  by (simp add: fmt_range_def fmt_size_def fmt_consts numeral_2_eq_2)

text \<open>
  C18. A damaged frame is never shown to the client: changing any one byte after the header of a DATA
  frame leaves every value as it was and the link up, and counts one error towards the resync
  threshold. The colour sensor's \<open>0xDC\<close> frames, whose checksum the source does not enforce, are
  excepted.
\<close>

theorem damaged_frame_ignored:
  assumes "us_inv s" "us_base s \<noteq> 0" "us_state s = ST_DATA" "us_msg_idx s = 0"
    and "md < 8" "code \<le> 5" "length p = 2 ^ code"
    and "0 < i" "i \<le> Suc (2 ^ code)" "b \<noteq> sealed (data_header code md # p) ! i"
    and "\<not> (us_type_id s = EV3_UART_TYPE_EV3_COLOR \<and> data_header code md = 0xDC)"
  shows "us_data (feed now ((sealed (data_header code md # p))[i := b]) s) = us_data s \<and>
    us_state (feed now ((sealed (data_header code md # p))[i := b]) s) = ST_DATA \<and>
    us_last_data_ms (feed now ((sealed (data_header code md # p))[i := b]) s) = us_last_data_ms s \<and>
    us_num_data_err (feed now ((sealed (data_header code md # p))[i := b]) s) =
      us_num_data_err s + 1"
proof -
  let ?h = "data_header code md"
  let ?f = "(sealed (?h # p))[i := b]"
  note h = data_header_fields [OF _ assms(5), of code]
  obtain j where j: "i = Suc j" using assms(8) by (cases i) auto
  then have f: "?f = ?h # (p @ [foldl (XOR) 0xff (?h # p)])[j := b]"
    by (simp add: sealed_def)
  have c: "(2::nat) ^ code \<le> 2 ^ 5" by (rule power_increasing) (use assms(6) in auto)
  have "feed now ?f s = run_msg now (framed ?f s)"
    unfolding f using assms h c by (intro feed_frame) (auto simp: us_inv_def shape_inv_def)
  moreover have "msg_checksum (?f @ r) (Suc (2 ^ code)) \<noteq> (?f @ r) ! Suc (2 ^ code)" for r
    using checksum_damaged [of i "?h # p" b r] assms by simp
  moreover have "(?f @ r) ! 0 = ?h" "length ?f = 2 ^ code + 2" for r
    using assms(7) by (simp_all add: f)
  ultimately show ?thesis
    using assms(3,11) by (auto simp: run_msg_def handle_msg_def framed_def Let_def)
qed

theorem damaged_frame_ignored_witness:
  "us_data (feed 5 ((sealed (data_header 1 0 # [7, 8]))[2 := 9]) demo_link) = us_data demo_link"
  using damaged_frame_ignored [of demo_link 0 1 "[7, 8]" 2 9 5] demo_inv
  by (simp add: sealed_def EV3_UART_TYPE_EV3_COLOR_def)

text \<open>
  C1. Every state the link can reach from a successful open, whatever the wire, the interrupt, the
  clock and the client do, keeps the parser inside its buffer, the counts and modes inside the arrays,
  the ring well formed, and reports the link as up only in the DATA state with the mandatory TYPE,
  MODES, NAME and FORMAT information received.
\<close>

theorem sensor_reachable_safe:
  assumes "ev3_uart_sensor_open base irq en u port md = Some s" "us_step\<^sup>*\<^sup>* s t"
  shows "us_inv t \<and>
    (us_base t \<noteq> 0 \<longrightarrow> us_msg_idx t < length (us_msg t)) \<and>
    (us_synced t \<longrightarrow> us_state t = ST_DATA \<and> us_info_flags t AND IF_REQUIRED = IF_REQUIRED \<and>
       1 \<le> us_modes t \<and> us_modes t \<le> 8)"
proof -
  have "us_opened s" unfolding us_opened_def using assms(1) by (intro exI)
  then have inv: "us_inv t" using assms(2) by (rule usys.inv_reachable)
  then show ?thesis
    using us_inv_index [OF inv] by (auto simp: us_inv_def link_inv_def value_inv_def handshake_done_def)
qed

theorem sensor_reachable_safe_witness:
  "us_inv (ev3_uart_sensor_poll 0 (the (ev3_uart_sensor_open 1 1 True demo_uart 0 0)))"
proof -
  obtain s where s: "ev3_uart_sensor_open 1 1 True demo_uart 0 0 = Some s"
    by (simp add: ev3_uart_sensor_open_def Let_def)
  have "us_step\<^sup>*\<^sup>* s (ev3_uart_sensor_poll 0 s)" by (blast intro: us_poll)
  from sensor_reachable_safe [OF s this] s show ?thesis by simp
qed

section \<open>Handshake, watchdog and retries\<close>

text \<open>Nothing has arrived: the hardware FIFO and the ring are empty.\<close>

definition quiet :: "ev3_uart_sensor \<Rightarrow> bool" where
  "quiet s \<longleftrightarrow> us_base s \<noteq> 0 \<and> ur_rx (us_dev s) = [] \<and> rr_head (us_rx s) = rr_tail (us_rx s)"

definition irq_toggled :: "uart16550 \<Rightarrow> uart16550" where
  "irq_toggled u = u\<lparr>ur_ier := (ur_ier u AND NOT 1) OR 1\<rparr>"

lemma irq_toggled_fields [simp]:
  "ur_rx (irq_toggled u) = ur_rx u" "ur_tx (irq_toggled u) = ur_tx u"
  "ur_temt (irq_toggled u) = ur_temt u"
  by (simp_all add: irq_toggled_def)

lemma poll_quiet:
  assumes "quiet s"
  shows "ev3_uart_sensor_poll now s = poll_switch now (s\<lparr>us_dev := irq_toggled (us_dev s)\<rparr>)"
proof -
  have "rx_drain_hw s = s\<lparr>us_dev := irq_toggled (us_dev s)\<rparr>"
    using assms
    by (simp add: rx_drain_hw_def rx_drain_loop_fold ev3_uart_enable_irq_def EV3_IRQ_RX_def
        irq_toggled_def quiet_def)
  moreover have "rx_pop (s\<lparr>us_dev := u\<rparr>) = None" for u
    using assms by (simp add: rx_pop_def rx_pop_ring_def quiet_def)
  ultimately show ?thesis
    using assms by (simp add: ev3_uart_sensor_poll_def quiet_def poll_loop.simps)
qed

lemma ack_byte:
  assumes "us_state s = ST_INFO" "us_msg_idx s = 0" "length (us_msg s) = 36"
    "1 \<le> us_modes s" "us_info_flags s AND IF_REQUIRED = IF_REQUIRED"
  shows "handle_byte SYS_ACK t0 s = (framed [SYS_ACK] s)\<lparr>us_state := ST_ACK_DELAY, us_ack_ms := t0\<rparr>"
proof -
  have "frame_size SYS_ACK = 1" by (simp add: frame_size_def msg_consts)
  then have "feed t0 [SYS_ACK] s = run_msg t0 (framed [SYS_ACK] s)"
    using assms by (intro feed_frame) (auto simp: SYS_ACK_def)
  with assms show ?thesis
    by (simp add: run_msg_def handle_msg_def framed_def Let_def msg_consts handle_sys_def)
qed

lemma link_up_result:
  shows "us_state (link_up now s) = ST_DATA" "us_synced (link_up now s)"
    "uart_divisor (us_dev (link_up now s)) = ucast (baud_div (sint (us_speed s)))"
    "\<exists>sel. ur_tx (us_dev (link_up now s)) = ur_tx (us_dev s) @ sel"
  by (simp_all add: link_up_def Let_def start_select_def send_select_def uart_write_eq rx_flush_def
      uart_divisor_def) (simp_all flip: uart_divisor_def)

text \<open>
  C19. The handshake completes: once the sensor has announced itself, its ACK byte, a poll at least
  10 ms later and a poll at least 4 ms after that with the transmitter drained bring the link up: the
  host has answered with ACK, the UART runs at the announced speed and the state is DATA.
\<close>

theorem handshake_completes:
  assumes "us_inv s" "quiet s" "us_state s = ST_INFO" "us_msg_idx s = 0"
    and "1 \<le> us_modes s" "us_info_flags s AND IF_REQUIRED = IF_REQUIRED"
    and "ACK_DELAY_MS \<le> t1 - t0" "ACK_SETTLE_MS \<le> t2 - t1"
    and "ev3_uart_tx_empty (us_dev s)"
  shows "let s1 = ev3_uart_sensor_poll t1 (handle_byte SYS_ACK t0 s); s2 = ev3_uart_sensor_poll t2 s1
     in us_state s1 = ST_ACK_WAIT \<and> ur_tx (us_dev s1) = ur_tx (us_dev s) @ [SYS_ACK] \<and>
        us_state s2 = ST_DATA \<and> us_synced s2 \<and>
        uart_divisor (us_dev s2) = ucast (baud_div (sint (us_speed s)))"
proof -
  define a where "a = handle_byte SYS_ACK t0 s"
  have a: "a = (framed [SYS_ACK] s)\<lparr>us_state := ST_ACK_DELAY, us_ack_ms := t0\<rparr>"
    using assms unfolding a_def by (intro ack_byte) (auto simp: us_inv_def shape_inv_def)
  then have "quiet a" using assms(2) by (simp add: quiet_def framed_def)
  define s1 where "s1 = ev3_uart_sensor_poll t1 a"
  have s1: "s1 = (uart_put SYS_ACK (a\<lparr>us_dev := irq_toggled (us_dev a)\<rparr>))
      \<lparr>us_ack_ms := t1, us_state := ST_ACK_WAIT\<rparr>"
    using \<open>quiet a\<close> assms(7) by (simp add: s1_def poll_quiet poll_switch_def a)
  then have "quiet s1" using \<open>quiet a\<close> by (simp add: quiet_def uart_put_def uart_write_eq)
  then have s2: "ev3_uart_sensor_poll t2 s1 = link_up t2 (s1\<lparr>us_dev := irq_toggled (us_dev s1)\<rparr>)"
    using assms(8,9)
    by (simp add: poll_quiet poll_switch_def s1 a framed_def uart_put_def uart_write_eq
        ev3_uart_tx_empty_def)
  show ?thesis
    unfolding Let_def a_def [symmetric] s1_def [symmetric] s2
    by (simp add: link_up_result) (simp add: s1 a framed_def uart_put_def uart_write_eq)
qed

definition demo_info :: ev3_uart_sensor where
  "demo_info = demo_link\<lparr>us_state := ST_INFO, us_synced := False\<rparr>"

theorem handshake_completes_witness:
  "let s1 = ev3_uart_sensor_poll 20 (handle_byte SYS_ACK 5 demo_info);
       s2 = ev3_uart_sensor_poll 30 s1
   in us_state s2 = ST_DATA \<and> us_synced s2"
proof -
  have "us_inv demo_info" using demo_inv by (simp add: us_inv_defs demo_info_def)
  moreover have "quiet demo_info" by (simp add: quiet_def demo_info_def demo_uart_def)
  moreover have "us_info_flags demo_info AND IF_REQUIRED = IF_REQUIRED"
    by (simp add: demo_info_def demo_link_def)
  ultimately show ?thesis
    using handshake_completes [of demo_info 20 5 30]
    by (simp add: Let_def demo_info_def ACK_DELAY_MS_def ACK_SETTLE_MS_def ev3_uart_tx_empty_def demo_uart_def)
qed

lemma resync_uart [simp]:
  "uart_divisor (us_dev (resync s)) = ucast (baud_div 2400)" "ur_tx (us_dev (resync s)) = ur_tx (us_dev s)"
  "us_resyncs (resync s) = us_resyncs s + (if us_synced s then 1 else 0)"
  by (simp_all add: resync_def rx_flush_def Let_def EV3_UART_SPEED_MIN_def uart_divisor_def)
     (simp_all flip: uart_divisor_def)

lemma poll_data_up:
  assumes "us_state s = ST_DATA" "\<not> us_num_data_err s > EV3_UART_MAX_DATA_ERR"
    "\<not> now - us_last_data_ms s \<ge> EV3_UART_WATCHDOG_MS"
  shows "us_state (poll_data now s) = ST_DATA \<and> us_synced (poll_data now s) = us_synced s"
  using assms by (simp add: poll_data_def Let_def send_select_def uart_put_def)

text \<open>
  The watchdog: a poll of a live, quiet link drops it if and only if more than six damaged frames
  are pending or no good frame was seen for a second; a dropped link is back in SYNC at 2400 baud
  and is counted as a resync, otherwise it stays up.
\<close>

theorem watchdog_exact:
  assumes "quiet s" "us_state s = ST_DATA" "us_synced s"
  shows "if us_num_data_err s > 6 \<or> now - us_last_data_ms s \<ge> 1000
    then us_state (ev3_uart_sensor_poll now s) = ST_SYNC \<and>
         \<not> us_synced (ev3_uart_sensor_poll now s) \<and>
         uart_divisor (us_dev (ev3_uart_sensor_poll now s)) = ucast (baud_div 2400) \<and>
         us_resyncs (ev3_uart_sensor_poll now s) = us_resyncs s + 1
    else us_state (ev3_uart_sensor_poll now s) = ST_DATA \<and> us_synced (ev3_uart_sensor_poll now s)"
proof -
  define t where "t = s\<lparr>us_dev := irq_toggled (us_dev s)\<rparr>"
  have p: "ev3_uart_sensor_poll now s = poll_data now t"
    using assms by (simp add: poll_quiet poll_switch_def t_def)
  have "poll_data now t = resync t" if "us_num_data_err s > 6 \<or> now - us_last_data_ms s \<ge> 1000"
    using that by (auto simp: poll_data_def t_def ev3_uart_consts)
  then show ?thesis
    using poll_data_up [of t now] assms by (simp add: p ev3_uart_consts) (simp add: t_def)
qed

theorem watchdog_exact_witness:
  "us_state (ev3_uart_sensor_poll 1000 demo_link) = ST_SYNC \<and>
   us_state (ev3_uart_sensor_poll 999 demo_link) = ST_DATA"
  using watchdog_exact [of demo_link 1000] watchdog_exact [of demo_link 999]
  by (simp add: quiet_def demo_uart_def)





section \<open>Frames the host sends\<close>

lemma write_msz:
  assumes "1 \<le> n" "n \<le> 32"
  defines "k \<equiv> (if n \<le> 2 then n else if n \<le> 4 then 4 else if n \<le> 8 then 8
     else if n \<le> 16 then 16 else 32 :: nat)"
  shows "n \<le> k" "k \<in> {1, 2, 4, 8, 16, 32}"
  using assms by auto

lemma write_codes:
  "write_code 6 0 1 = 0" "write_code 6 0 (Suc 0) = 0" "write_code 6 0 2 = 1" "write_code 6 0 4 = 2"
  "write_code 6 0 8 = 3" "write_code 6 0 16 = 4" "write_code 6 0 32 = 5"
  by (simp_all add: numeral_eq_Suc)

text \<open>
  Every CMD\_WRITE frame the host builds from 1 to 32 bytes is well formed for the parser of the
  protocol: the header announces exactly the frame's length, the payload starts with the client's
  bytes padded by zeros, and the checksum is right.
\<close>

theorem write_frame_wellformed:
  assumes "1 \<le> length dat" "length dat \<le> 32"
  shows "int (length (write_frame dat)) = frame_size (hd (write_frame dat)) \<and>
    hd (write_frame dat) AND MSG_TYPE_MASK = MSG_CMD \<and>
    hd (write_frame dat) AND MSG_CMD_MASK = CMD_WRITE \<and>
    length dat + 2 \<le> length (write_frame dat) \<and>
    (\<exists>z. tl (butlast (write_frame dat)) = dat @ replicate z 0) \<and>
    msg_checksum (write_frame dat) (length (write_frame dat) - 1) = last (write_frame dat)"
proof -
  define n where "n = length dat"
  define k where "k = (if n \<le> 2 then n else if n \<le> 4 then 4 else if n \<le> 8 then 8
     else if n \<le> 16 then 16 else 32 :: nat)"
  have k: "n \<le> k" "k \<in> {1, 2, 4, 8, 16, 32}" "k \<le> 32"
    using write_msz [of n] assms by (auto simp: n_def k_def)
  define h where "h = (MSG_CMD OR push_bit 3 (of_nat (write_code 6 0 k)) OR CMD_WRITE :: u8)"
  define body where "body = h # dat @ replicate (k - n) 0"
  have lb: "length body = k + 1" using k by (simp add: body_def n_def)
  have body: "take (k + 1) (h # dat @ replicate (33 - n) 0) = body"
    using k by (simp add: body_def n_def min_def)
  let ?m = "h # dat @ replicate (33 - n) 0"
  have "write_frame dat = take (Suc (k + 1)) (?m[k + 1 := foldl (XOR) 0xff (take (k + 1) ?m)])"
    unfolding write_frame_def Let_def n_def [symmetric] k_def [symmetric] by (simp add: h_def)
  also have "\<dots> = body @ [foldl (XOR) 0xff body]"
    using k(3) assms body by (subst take_Suc_update) (auto simp: n_def)
  finally have "write_frame dat = body @ [foldl (XOR) 0xff body]" .
  moreover have "frame_size h = int k + 2 \<and> h AND MSG_TYPE_MASK = MSG_CMD \<and> h AND MSG_CMD_MASK = CMD_WRITE"
    using k(2) by (auto simp: h_def msg_consts frame_size_def MSG_SIZE_def write_codes)
  ultimately show ?thesis
    using lb k(1) by (auto simp: msg_checksum_def body_def butlast_append n_def)
qed

theorem write_frame_wellformed_witness:
  "int (length (write_frame [1, 2, 3])) = frame_size (hd (write_frame [1, 2, 3]))"
  using write_frame_wellformed [of "[1, 2, 3]"] by simp

section \<open>The receive ring\<close>

lemma fold_put_overrun:
  "rr_inv r \<Longrightarrow> rr_overrun (fold rx_put bs r) =
     rr_overrun r + of_nat (length bs - (511 - length (rr_contents r)))"
proof (induction bs arbitrary: r)
  case (Cons b bs)
  note c = rx_put_cases [OF Cons.prems, of b]
  have "length (rr_contents r) \<le> 511" using Cons.prems by (rule rxq.bounded)
  with c Cons.IH [OF c(1)] show ?case
    by (cases "length (rr_contents r) < 511") (auto simp: Suc_diff_Suc Suc_diff_le)
qed simp

text \<open>
  The interrupt handler loses nothing silently: a burst of bytes is appended to the ring in wire
  order as far as it has room (511 bytes), and every byte it could not take is counted in the
  overrun counter.
\<close>

theorem rx_irq_accounting:
  assumes "us_inv s" "us_base s \<noteq> 0"
  shows "rr_contents (us_rx (rx_irq s)) =
      rr_contents (us_rx s) @ take (511 - length (rr_contents (us_rx s))) (ur_rx (us_dev s)) \<and>
    rr_overrun (us_rx (rx_irq s)) = rr_overrun (us_rx s) +
      of_nat (length (ur_rx (us_dev s)) - (511 - length (rr_contents (us_rx s)))) \<and>
    ur_rx (us_dev (rx_irq s)) = []"
  using assms us_inv_rx [OF assms(1)] rxq.fold_push [of "us_rx s" "ur_rx (us_dev s)"]
    fold_put_overrun [of "us_rx s" "ur_rx (us_dev s)"]
  by (simp add: rx_irq_def rx_drain_loop_fold list_all_iff)

theorem rx_irq_accounting_witness:
  "rr_contents (us_rx (rx_irq (demo_link\<lparr>us_dev := demo_uart\<lparr>ur_rx := [1, 2, 3]\<rparr>\<rparr>))) = [1, 2, 3]"
proof -
  have "us_inv (demo_link\<lparr>us_dev := u\<rparr>)" for u using demo_inv by (simp add: us_inv_defs)
  moreover have "rr_contents (us_rx demo_link) = []" by (simp add: rr_contents_def ring_count_def)
  ultimately show ?thesis
    using rx_irq_accounting [of "demo_link\<lparr>us_dev := demo_uart\<lparr>ur_rx := [1, 2, 3]\<rparr>\<rparr>"]
    by (simp del: demo_fields(16))
qed

end
