(* ===== verification/Ev3_Gpio.thy ===== *)
theory Ev3_Gpio
  imports Interfaces
begin

text \<open>
  The EV3 GPIO layer (\<^verbatim>\<open>src/lego.ev3/system/libs/arch_ev3/src/gpio.c\<close>): the five 32-pin register
  groups of the DaVinci controller, the pin multiplexer and pull tables, direction, level, pull and
  edge-interrupt operations.

  A register group is a record of the registers the code uses. A store to \<^verbatim>\<open>set_data\<close> or \<^verbatim>\<open>clr_data\<close> sets
  or clears bits of the output latch, one to \<^verbatim>\<open>intstat\<close> clears the bits written. The SYSCFG registers
  are written by the kernel: each \<^verbatim>\<open>SYS_MMIO_RW\<close> call is appended to \<open>io_syscfg\<close> as address,
  value and mask; \<open>io_psc\<close> lists the power/sleep modules that have been enabled. Pins are \<open>int\<close>, as in the source; a negative pin, which the source only guards
  against in some operations, is never passed by the callers.
\<close>

section \<open>State and tables\<close>

record pinmux =
  pm_idx :: nat
  pm_shift :: nat
  pm_mode :: u32

record davinci_gpio_regs =
  g_dir :: u32
  g_out :: u32
  g_in :: u32
  g_rising :: u32
  g_falling :: u32
  g_intstat :: u32

record gpio_state =
  io_groups :: "davinci_gpio_regs list"
  io_binten :: u32
  io_syscfg :: "(u32 \<times> u32 \<times> u32) list"
  io_psc :: "(u32 \<times> nat) list"

definition MAX_GPIO :: int where "MAX_GPIO = 144"
definition MODE_GPIO :: int where "MODE_GPIO = 0"
definition GPIO_INPUT :: int where "GPIO_INPUT = 0"
definition GPIO_OUTPUT :: int where "GPIO_OUTPUT = 1"
definition GPIO_PULL_NONE :: int where "GPIO_PULL_NONE = 0"
definition GPIO_PULL_DOWN :: int where "GPIO_PULL_DOWN = 1"
definition GPIO_PULL_UP :: int where "GPIO_PULL_UP = 2"
definition PINMUX0_PHYS :: u32 where "PINMUX0_PHYS = 0x01C14120"
definition PUPD_ENA_PHYS :: u32 where "PUPD_ENA_PHYS = 0x01E2C00C"
definition PUPD_SEL_PHYS :: u32 where "PUPD_SEL_PHYS = 0x01E2C010"
definition EV3_GPIO_IRQ_BASE :: int where "EV3_GPIO_IRQ_BASE = 42"

lemmas gpio_consts = MAX_GPIO_def MODE_GPIO_def GPIO_INPUT_def GPIO_OUTPUT_def GPIO_PULL_NONE_def
  GPIO_PULL_DOWN_def GPIO_PULL_UP_def PINMUX0_PHYS_def PUPD_ENA_PHYS_def PUPD_SEL_PHYS_def
  EV3_GPIO_IRQ_BASE_def

definition pullgp :: "nat list" where
  "pullgp =
     [3, 2, 2, 2, 2, 2, 2, 1, 0, 0, 0, 0, 0, 0, 0, 0,
      13, 13, 12, 12, 11, 11, 10, 10, 7, 5, 5, 5, 5, 5, 5, 4,
      16, 16, 16, 16, 16, 16, 16, 16, 16, 16, 15, 15, 15, 15, 14, 14,
      17, 17, 17, 17, 17, 17, 17, 17, 16, 16, 16, 16, 16, 16, 16, 16,
      18, 18, 18, 18, 18, 18, 18, 255, 17, 17, 17, 17, 17, 17, 17, 17,
      20, 20, 20, 20, 20, 20, 20, 20, 19, 19, 19, 19, 19, 19, 19, 19,
      31, 30, 30, 30, 30, 27, 25, 25, 24, 24, 24, 24, 23, 23, 22, 21,
      29, 29, 29, 29, 29, 29, 29, 29, 28, 28, 28, 28, 28, 28, 28, 28,
      255, 9, 9, 8, 8, 7, 7, 6, 31, 31, 31, 31, 30, 30, 30, 30]"

definition PINMUX :: "pinmux list" where
  "PINMUX = map (\<lambda>(i, s, m). \<lparr>pm_idx = i, pm_shift = s, pm_mode = m\<rparr>)
     [(1, 28, 8), (1, 24, 8), (1, 20, 8), (1, 16, 8), (1, 12, 8), (1, 8, 8), (1, 4, 8), (1, 0, 8),
      (0, 28, 8), (0, 24, 8), (0, 20, 8), (0, 16, 8), (0, 12, 8), (0, 8, 8), (0, 4, 8), (0, 0, 8),
      (4, 28, 8), (4, 24, 8), (4, 20, 8), (4, 16, 8), (4, 12, 8), (4, 8, 8), (4, 4, 4), (4, 0, 4),
      (3, 0, 4), (2, 24, 4), (2, 20, 4), (2, 16, 4), (2, 12, 4), (2, 8, 4), (2, 4, 4), (2, 0, 8),
      (6, 28, 8), (6, 24, 8), (6, 20, 8), (6, 16, 8), (6, 12, 8), (6, 8, 8), (6, 4, 8), (6, 0, 8),
      (5, 28, 8), (5, 24, 8), (5, 20, 8), (5, 16, 8), (5, 12, 8), (5, 8, 8), (5, 4, 8), (5, 0, 8),
      (8, 28, 8), (8, 24, 8), (8, 20, 8), (8, 16, 8), (8, 12, 8), (8, 8, 8), (8, 4, 8), (8, 0, 8),
      (7, 28, 8), (7, 24, 8), (7, 20, 8), (7, 16, 8), (7, 12, 8), (7, 8, 8), (7, 4, 8), (7, 0, 8),
      (10, 28, 8), (10, 24, 8), (10, 20, 8), (10, 16, 8), (10, 12, 8), (10, 8, 8), (10, 4, 8), (10, 0, 8),
      (9, 28, 8), (9, 24, 8), (9, 20, 8), (9, 16, 8), (9, 12, 8), (9, 8, 8), (9, 4, 8), (9, 0, 8),
      (12, 28, 8), (12, 24, 8), (12, 20, 8), (12, 16, 8), (12, 12, 8), (12, 8, 8), (12, 4, 8), (12, 0, 8),
      (11, 28, 8), (11, 24, 8), (11, 20, 8), (11, 16, 8), (11, 12, 8), (11, 8, 8), (11, 4, 8), (11, 0, 8),
      (19, 24, 8), (19, 20, 8), (19, 16, 8), (19, 12, 8), (19, 8, 8), (16, 4, 8), (14, 4, 8), (14, 0, 8),
      (13, 28, 8), (13, 24, 8), (13, 20, 8), (13, 16, 8), (13, 12, 8), (13, 8, 8), (13, 4, 8), (13, 0, 8),
      (18, 4, 8), (18, 0, 8), (17, 28, 8), (17, 24, 8), (17, 20, 8), (17, 16, 8), (17, 12, 8), (17, 8, 8),
      (17, 4, 8), (17, 0, 8), (16, 28, 8), (16, 24, 8), (16, 20, 8), (16, 16, 8), (16, 12, 8), (16, 8, 8),
      (19, 28, 8), (3, 28, 4), (3, 24, 4), (3, 20, 4), (3, 16, 4), (3, 12, 4), (3, 8, 4), (2, 28, 4),
      (19, 4, 8), (19, 0, 8), (18, 28, 8), (18, 24, 8), (18, 20, 8), (18, 16, 8), (18, 12, 8), (18, 8, 8)]"

section \<open>Operations\<close>

definition GPIO_MASK :: "int \<Rightarrow> u32" where
  "GPIO_MASK x = push_bit (nat x mod 32) 1"

definition gpio_group :: "int \<Rightarrow> gpio_state \<Rightarrow> davinci_gpio_regs" where
  "gpio_group pin g = io_groups g ! (nat pin div 32)"

definition gpio_upd :: "int \<Rightarrow> (davinci_gpio_regs \<Rightarrow> davinci_gpio_regs) \<Rightarrow> gpio_state \<Rightarrow> gpio_state" where
  "gpio_upd pin f g = g\<lparr>io_groups := (io_groups g)[nat pin div 32 := f (gpio_group pin g)]\<rparr>"

definition ev3_syscfg_write :: "u32 \<Rightarrow> u32 \<Rightarrow> u32 \<Rightarrow> gpio_state \<Rightarrow> gpio_state" where
  "ev3_syscfg_write phys val msk g = g\<lparr>io_syscfg := io_syscfg g @ [(phys, val, msk)]\<rparr>"

definition gpio_mux_cfg :: "int \<Rightarrow> int \<Rightarrow> gpio_state \<Rightarrow> gpio_state" where
  "gpio_mux_cfg pin mode g =
     (let p = PINMUX ! nat pin;
          m = (if mode = MODE_GPIO then pm_mode p else word_of_int mode AND 0xF)
      in ev3_syscfg_write (PINMUX0_PHYS + of_nat (pm_idx p) * 4) (push_bit (pm_shift p) m)
           (push_bit (pm_shift p) 0xf) g)"

definition ev3_gpio_config :: "int \<Rightarrow> int \<Rightarrow> gpio_state \<Rightarrow> gpio_state" where
  "ev3_gpio_config pin mode g =
     (if pin \<ge> MAX_GPIO then g
      else if mode = GPIO_OUTPUT \<or> mode = GPIO_INPUT then
        let g = gpio_mux_cfg pin MODE_GPIO g
        in gpio_upd pin (\<lambda>r. if mode = GPIO_OUTPUT then r\<lparr>g_dir := g_dir r AND NOT (GPIO_MASK pin)\<rparr>
                              else r\<lparr>g_dir := g_dir r OR GPIO_MASK pin\<rparr>) g
      else if (word_of_int mode :: u32) AND 0x10 \<noteq> 0 then gpio_mux_cfg pin mode g
      else g)"

definition ev3_gpio_dir :: "int \<Rightarrow> bool \<Rightarrow> gpio_state \<Rightarrow> gpio_state" where
  "ev3_gpio_dir pin output g =
     (if pin < 0 \<or> pin \<ge> MAX_GPIO then g
      else gpio_upd pin (\<lambda>r. if output then r\<lparr>g_dir := g_dir r AND NOT (GPIO_MASK pin)\<rparr>
                              else r\<lparr>g_dir := g_dir r OR GPIO_MASK pin\<rparr>) g)"

definition ev3_gpio_write :: "int \<Rightarrow> bool \<Rightarrow> gpio_state \<Rightarrow> gpio_state" where
  "ev3_gpio_write pin value g =
     (if pin \<ge> MAX_GPIO then g
      else gpio_upd pin (\<lambda>r. if value then r\<lparr>g_out := g_out r OR GPIO_MASK pin\<rparr>
                              else r\<lparr>g_out := g_out r AND NOT (GPIO_MASK pin)\<rparr>) g)"

definition ev3_gpio_read :: "int \<Rightarrow> gpio_state \<Rightarrow> bool" where
  "ev3_gpio_read pin g =
     (if pin \<ge> MAX_GPIO then False else GPIO_MASK pin AND g_in (gpio_group pin g) \<noteq> 0)"

definition ev3_gpio_pull :: "int \<Rightarrow> int \<Rightarrow> gpio_state \<Rightarrow> gpio_state" where
  "ev3_gpio_pull pin updown g =
     (if pin < 0 \<or> pin \<ge> MAX_GPIO then g
      else
        let gp = pullgp ! nat pin
        in if gp \<ge> 32 then g
           else
             let msk = push_bit gp 1
             in if updown = GPIO_PULL_NONE then ev3_syscfg_write PUPD_ENA_PHYS 0 msk g
                else
                  let g = ev3_syscfg_write PUPD_ENA_PHYS msk msk g
                  in if updown = GPIO_PULL_UP then ev3_syscfg_write PUPD_SEL_PHYS msk msk g
                     else ev3_syscfg_write PUPD_SEL_PHYS 0 msk g)"

definition ev3_gpio_irq_num :: "int \<Rightarrow> int" where
  "ev3_gpio_irq_num pin = EV3_GPIO_IRQ_BASE + pin div 16"

definition ev3_gpio_irq_enable :: "int \<Rightarrow> bool \<Rightarrow> bool \<Rightarrow> gpio_state \<Rightarrow> gpio_state" where
  "ev3_gpio_irq_enable pin rising falling g =
     (if pin < 0 \<or> pin \<ge> MAX_GPIO then g
      else
        let m = GPIO_MASK pin;
            g = gpio_upd pin (\<lambda>r. r\<lparr>
                  g_rising := (if rising then g_rising r OR m else g_rising r AND NOT m),
                  g_falling := (if falling then g_falling r OR m else g_falling r AND NOT m),
                  g_intstat := g_intstat r AND NOT m\<rparr>) g
        in g\<lparr>io_binten := io_binten g OR push_bit (nat pin div 16) 1\<rparr>)"

definition ev3_gpio_irq_disable :: "int \<Rightarrow> gpio_state \<Rightarrow> gpio_state" where
  "ev3_gpio_irq_disable pin g =
     (if pin < 0 \<or> pin \<ge> MAX_GPIO then g
      else
        let m = GPIO_MASK pin
        in gpio_upd pin (\<lambda>r. r\<lparr>g_rising := g_rising r AND NOT m, g_falling := g_falling r AND NOT m,
                               g_intstat := g_intstat r AND NOT m\<rparr>) g)"

definition ev3_gpio_irq_ack :: "int \<Rightarrow> gpio_state \<Rightarrow> u32 \<times> gpio_state" where
  "ev3_gpio_irq_ack pin g =
     (if pin < 0 \<or> pin \<ge> MAX_GPIO then (0, g)
      else
        let st = g_intstat (gpio_group pin g)
        in (st, if st \<noteq> 0 then gpio_upd pin (\<lambda>r. r\<lparr>g_intstat := g_intstat r AND NOT st\<rparr>) g else g))"

section \<open>Pins do not interfere\<close>

definition gpio_inv :: "gpio_state \<Rightarrow> bool" where
  "gpio_inv g \<longleftrightarrow> length (io_groups g) = 5"

definition valid_pin :: "int \<Rightarrow> bool" where
  "valid_pin p \<longleftrightarrow> 0 \<le> p \<and> p < MAX_GPIO"

text \<open>The level driven on a pin, and whether the pin is an output (its direction bit is clear).\<close>

definition pin_level :: "gpio_state \<Rightarrow> int \<Rightarrow> bool" where
  "pin_level g p = bit (g_out (gpio_group p g)) (nat p mod 32)"

definition pin_is_output :: "gpio_state \<Rightarrow> int \<Rightarrow> bool" where
  "pin_is_output g p \<longleftrightarrow> \<not> bit (g_dir (gpio_group p g)) (nat p mod 32)"

lemma bit_GPIO_MASK: "n < 32 \<Longrightarrow> bit (GPIO_MASK p) n \<longleftrightarrow> n = nat p mod 32"
  by (auto simp: GPIO_MASK_def bit_simps)

lemma pin_eq_iff:
  assumes "valid_pin p" "valid_pin q"
  shows "p = q \<longleftrightarrow> nat p div 32 = nat q div 32 \<and> nat p mod 32 = nat q mod 32"
proof
  assume "nat p div 32 = nat q div 32 \<and> nat p mod 32 = nat q mod 32"
  then have "nat p = nat q" by (metis div_mult_mod_eq)
  with assms show "p = q" by (simp add: valid_pin_def eq_nat_nat_iff)
qed simp

lemma gpio_group_upd:
  assumes "gpio_inv g" "valid_pin p"
  shows "gpio_group q (gpio_upd p f g) =
    (if nat p div 32 = nat q div 32 then f (gpio_group p g) else gpio_group q g)"
proof -
  have "nat p < 144" using assms(2) by (auto simp: valid_pin_def MAX_GPIO_def)
  then have "nat p div 32 < 5" by simp
  with assms(1) show ?thesis by (auto simp: gpio_group_def gpio_upd_def gpio_inv_def)
qed

lemma gpio_inv_upd [simp]: "gpio_inv (gpio_upd p f g) = gpio_inv g"
  by (simp add: gpio_inv_def gpio_upd_def)

lemma gpio_group_cong: "nat p div 32 = nat q div 32 \<Longrightarrow> gpio_group p g = gpio_group q g"
  by (simp add: gpio_group_def)

lemma level_write:
  assumes "gpio_inv g" "valid_pin p" "valid_pin q"
  shows "pin_level (ev3_gpio_write p v g) q = (if p = q then v else pin_level g q)"
  using assms gpio_group_cong [of p q g]
  by (auto simp: pin_level_def ev3_gpio_write_def gpio_group_upd pin_eq_iff bit_simps bit_GPIO_MASK
      valid_pin_def [of p])

lemma output_dir:
  assumes "gpio_inv g" "valid_pin p" "valid_pin q"
  shows "pin_is_output (ev3_gpio_dir p v g) q = (if p = q then v else pin_is_output g q)"
  using assms gpio_group_cong [of p q g]
  by (auto simp: pin_is_output_def ev3_gpio_dir_def gpio_group_upd pin_eq_iff bit_simps bit_GPIO_MASK
      valid_pin_def [of p])

lemma write_inv_gpio [simp]: "gpio_inv (ev3_gpio_write p v g) = gpio_inv g"
  by (simp add: ev3_gpio_write_def)

lemma dir_inv_gpio [simp]: "gpio_inv (ev3_gpio_dir p v g) = gpio_inv g"
  by (simp add: ev3_gpio_dir_def)

interpretation level: pin_array pin_level ev3_gpio_write valid_pin gpio_inv
  by unfold_locales (simp_all add: level_write)

interpretation direction: pin_array pin_is_output ev3_gpio_dir valid_pin gpio_inv
  by unfold_locales (simp_all add: output_dir)

lemma level_dir [simp]: "gpio_inv g \<Longrightarrow> valid_pin p \<Longrightarrow> pin_level (ev3_gpio_dir p v g) q = pin_level g q"
  using gpio_group_cong [of p q g] by (auto simp: pin_level_def ev3_gpio_dir_def gpio_group_upd)

lemma output_write [simp]:
  "gpio_inv g \<Longrightarrow> valid_pin p \<Longrightarrow> pin_is_output (ev3_gpio_write p v g) q = pin_is_output g q"
  using gpio_group_cong [of p q g] by (auto simp: pin_is_output_def ev3_gpio_write_def gpio_group_upd)

section \<open>The pin multiplexer\<close>

definition mux_fields :: "(nat \<times> nat) list" where
  "mux_fields = map (\<lambda>p. (pm_idx p, pm_shift p)) PINMUX"

lemma mux_fields_distinct: "distinct mux_fields"
  by code_simp

lemma mux_fields_ok:
  "list_all (\<lambda>p. pm_shift p mod 4 = 0 \<and> pm_shift p \<le> 28 \<and> pm_idx p < 20 \<and> pm_mode p \<le> 8) PINMUX"
  by code_simp

lemma length_PINMUX: "length PINMUX = 144"
  by (simp add: PINMUX_def)

lemma nibble_disjoint:
  assumes "s mod 4 = 0" "s' mod 4 = 0" "s \<noteq> s'"
  shows "push_bit s (0xf::u32) AND push_bit s' 0xf = 0"
proof (rule bit_word_eqI)
  have f: "(15::u32) = mask 4" by (simp add: mask_eq_exp_minus_1)
  fix n assume "n < LENGTH(32)"
  have "\<not> (s \<le> n \<and> n - s < 4 \<and> s' \<le> n \<and> n - s' < 4)" using assms by presburger
  then show "bit (push_bit s (0xf::u32) AND push_bit s' 0xf) n = bit (0::u32) n"
    unfolding f by (auto simp: bit_simps)
qed

lemma mux_word:
  assumes "valid_pin p"
  obtains m where "m = PINMUX ! nat p" "pm_shift m mod 4 = 0" "pm_idx m < 20" "pm_mode m \<le> 8"
proof -
  have "nat p < length PINMUX" using assms by (auto simp: valid_pin_def MAX_GPIO_def length_PINMUX)
  then show ?thesis using mux_fields_ok that by (auto simp: list_all_length)
qed

text \<open>
  C35. No two GPIO pins share a multiplexer field: configuring a pin as GPIO issues one masked register
  write whose value stays inside its mask, and the writes of two different pins touch either
  different registers or disjoint bits of one.
\<close>

theorem gpio_mux_disjoint:
  assumes "valid_pin p" "valid_pin q" "p \<noteq> q"
  shows "\<exists>ap vp mp aq vq mq.
    io_syscfg (gpio_mux_cfg p MODE_GPIO g) = io_syscfg g @ [(ap, vp, mp)] \<and>
    io_syscfg (gpio_mux_cfg q MODE_GPIO g) = io_syscfg g @ [(aq, vq, mq)] \<and>
    vp AND mp = vp \<and> vq AND mq = vq \<and> (ap \<noteq> aq \<or> mp AND mq = 0)"
proof -
  obtain m where m: "m = PINMUX ! nat p" "pm_shift m mod 4 = 0" "pm_idx m < 20" "pm_mode m \<le> 8"
    using assms(1) by (rule mux_word)
  obtain k where k: "k = PINMUX ! nat q" "pm_shift k mod 4 = 0" "pm_idx k < 20" "pm_mode k \<le> 8"
    using assms(2) by (rule mux_word)
  have fits: "push_bit s v AND push_bit s 0xf = push_bit s (v::u32)" if "v \<le> 8" for s v
  proof -
    have "v AND 0xf = take_bit 4 v" by (simp add: take_bit_eq_mask mask_eq_exp_minus_1)
    also have "\<dots> = v" using that by (intro take_bit_word_id) (simp add: word_le_nat_alt)
    finally show ?thesis by (simp flip: push_bit_and)
  qed
  have "nat p \<noteq> nat q" "nat p < 144" "nat q < 144"
    using assms by (auto simp: valid_pin_def MAX_GPIO_def)
  then have "mux_fields ! nat p \<noteq> mux_fields ! nat q"
    using nth_eq_iff_index_eq [OF mux_fields_distinct, of "nat p" "nat q"] length_PINMUX
    by (simp add: mux_fields_def)
  then have "pm_idx m \<noteq> pm_idx k \<or> pm_shift m \<noteq> pm_shift k"
    using m(1) k(1) \<open>nat p < 144\<close> \<open>nat q < 144\<close> by (simp add: mux_fields_def length_PINMUX)
  moreover have "PINMUX0_PHYS + of_nat i * 4 = PINMUX0_PHYS + (of_nat j :: u32) * 4 \<Longrightarrow> i = j"
    if "i < 20" "j < 20" for i j :: nat
  proof -
    assume "PINMUX0_PHYS + of_nat i * 4 = PINMUX0_PHYS + (of_nat j :: u32) * 4"
    then have "unat (of_nat i * 4 :: u32) = unat (of_nat j * 4 :: u32)" by simp
    with that show ?thesis by (simp add: unat_word_ariths unat_of_nat)
  qed
  ultimately show ?thesis
    using m(2-4) k(2-4) fits nibble_disjoint
    by (auto simp: gpio_mux_cfg_def ev3_syscfg_write_def Let_def m(1) [symmetric] k(1) [symmetric])
qed

theorem gpio_mux_disjoint_witness:
  "\<exists>ap vp mp aq vq mq.
    io_syscfg (gpio_mux_cfg 0 MODE_GPIO \<lparr>io_groups = [], io_binten = 0, io_syscfg = [], io_psc = []\<rparr>) =
      [(ap, vp, mp)] \<and>
    io_syscfg (gpio_mux_cfg 1 MODE_GPIO \<lparr>io_groups = [], io_binten = 0, io_syscfg = [], io_psc = []\<rparr>) =
      [(aq, vq, mq)] \<and> (ap \<noteq> aq \<or> mp AND mq = 0)"
  using gpio_mux_disjoint [of 0 1 "\<lparr>io_groups = [], io_binten = 0, io_syscfg = [], io_psc = []\<rparr>"]
  by (auto simp: valid_pin_def MAX_GPIO_def)

text \<open>A GPIO block after reset, for the examples of the components above.\<close>

definition demo_gpio :: gpio_state where
  "demo_gpio = \<lparr>io_groups = replicate 5 \<lparr>g_dir = 0, g_out = 0, g_in = 0, g_rising = 0, g_falling = 0,
     g_intstat = 0\<rparr>, io_binten = 0, io_syscfg = [], io_psc = []\<rparr>"

end
