(* ===== verification/Ev3_Port.thy ===== *)
theory Ev3_Port
  imports Ev3_Gpio
begin

text \<open>
  The EV3 connector layer (\<^verbatim>\<open>src/lego.ev3/system/libs/arch_ev3/src/port.c\<close>): the wiring tables of the
  four sensor and four motor ports and the operations on them, over the GPIO layer.

  The bring-up and shutdown of the soft UART of ports 3 and 4 (\<^verbatim>\<open>pru_uart.c\<close>) are arguments of the
  operations that call them. Enabling a power/sleep module records it in \<open>io_psc\<close>; the bounded
  register polling around it has no other effect.
\<close>

section \<open>Wiring\<close>

record in_port =
  ip_pin1 :: int
  ip_pin2 :: int
  ip_pin5 :: int
  ip_pin6 :: int
  ip_buf_en :: int
  ip_adc_pin1 :: int
  ip_adc_pin6 :: int
  ip_uart_base :: u32
  ip_uart_irq :: u32
  ip_pmux_reg :: u32
  ip_pmux_val :: u32
  ip_pmux_mask :: u32
  ip_psc_base :: u32
  ip_psc_mod :: nat

record out_port =
  op_in0 :: int
  op_in1 :: int
  op_tacho :: int
  op_dir :: int
  op_det :: int
  op_adc_pin5 :: int

definition EV3_IN_PORT_COUNT :: int where "EV3_IN_PORT_COUNT = 4"
definition EV3_OUT_PORT_COUNT :: int where "EV3_OUT_PORT_COUNT = 4"
definition EV3_PIN1 :: int where "EV3_PIN1 = 1"
definition EV3_PIN2 :: int where "EV3_PIN2 = 2"
definition EV3_PIN5 :: int where "EV3_PIN5 = 5"
definition EV3_PIN6 :: int where "EV3_PIN6 = 6"
definition EV3_MOTOR_COAST :: int where "EV3_MOTOR_COAST = 0"
definition EV3_MOTOR_FWD :: int where "EV3_MOTOR_FWD = 1"
definition EV3_MOTOR_REV :: int where "EV3_MOTOR_REV = 2"
definition EV3_MOTOR_BRAKE :: int where "EV3_MOTOR_BRAKE = 3"
definition EV3_UART_PRU_SENTINEL :: u32 where "EV3_UART_PRU_SENTINEL = 0x40000000"
definition CFGCHIP3_ASYNC3_CLKSRC :: u32 where "CFGCHIP3_ASYNC3_CLKSRC = 16"
definition EV3_SYSCFG_CFGCHIP3 :: u32 where "EV3_SYSCFG_CFGCHIP3 = 0x01C14000 + 0x188"
definition EV3_SYSCFG_PINMUX :: "u32 \<Rightarrow> u32" where
  "EV3_SYSCFG_PINMUX n = 0x01C14000 + 0x120 + n * 4"

lemmas port_consts = EV3_IN_PORT_COUNT_def EV3_OUT_PORT_COUNT_def EV3_PIN1_def EV3_PIN2_def
  EV3_PIN5_def EV3_PIN6_def EV3_MOTOR_COAST_def EV3_MOTOR_FWD_def EV3_MOTOR_REV_def
  EV3_MOTOR_BRAKE_def EV3_UART_PRU_SENTINEL_def

definition EV3_UART_PRU_BASE :: "u32 \<Rightarrow> u32" where
  "EV3_UART_PRU_BASE port = EV3_UART_PRU_SENTINEL OR port"

definition EV3_UART_IS_PRU :: "u32 \<Rightarrow> bool" where
  "EV3_UART_IS_PRU base \<longleftrightarrow> base AND EV3_UART_PRU_SENTINEL \<noteq> 0"

definition in_ports :: "in_port list" where
  "in_ports =
     [\<lparr>ip_pin1 = 138, ip_pin2 = 34, ip_pin5 = 2, ip_pin6 = 15, ip_buf_en = 139, ip_adc_pin1 = 6,
       ip_adc_pin6 = 5, ip_uart_base = 0x01D0C000, ip_uart_irq = 53, ip_pmux_reg = 4,
       ip_pmux_val = 0x22000000, ip_pmux_mask = 0xff000000, ip_psc_base = 0x01E27000, ip_psc_mod = 12\<rparr>,
      \<lparr>ip_pin1 = 140, ip_pin2 = 143, ip_pin5 = 14, ip_pin6 = 13, ip_buf_en = 142, ip_adc_pin1 = 8,
       ip_adc_pin6 = 7, ip_uart_base = 0x01C42000, ip_uart_irq = 25, ip_pmux_reg = 3,
       ip_pmux_val = 0x00220000, ip_pmux_mask = 0x00ff0000, ip_psc_base = 0x01C10000, ip_psc_mod = 9\<rparr>,
      \<lparr>ip_pin1 = 137, ip_pin2 = 123, ip_pin5 = 12, ip_pin6 = 30, ip_buf_en = 121, ip_adc_pin1 = 10,
       ip_adc_pin6 = 9, ip_uart_base = EV3_UART_PRU_BASE 2, ip_uart_irq = 6, ip_pmux_reg = 0,
       ip_pmux_val = 0, ip_pmux_mask = 0, ip_psc_base = 0, ip_psc_mod = 0\<rparr>,
      \<lparr>ip_pin1 = 100, ip_pin2 = 120, ip_pin5 = 1, ip_pin6 = 31, ip_buf_en = 122, ip_adc_pin1 = 12,
       ip_adc_pin6 = 11, ip_uart_base = EV3_UART_PRU_BASE 3, ip_uart_irq = 5, ip_pmux_reg = 0,
       ip_pmux_val = 0, ip_pmux_mask = 0, ip_psc_base = 0, ip_psc_mod = 0\<rparr>]"

definition out_ports :: "out_port list" where
  "out_ports =
     [\<lparr>op_in0 = 63, op_in1 = 54, op_tacho = 91, op_dir = 4, op_det = 84, op_adc_pin5 = 1\<rparr>,
      \<lparr>op_in0 = 33, op_in1 = 3, op_tacho = 88, op_dir = 41, op_det = 37, op_adc_pin5 = 0\<rparr>,
      \<lparr>op_in0 = 104, op_in1 = 89, op_tacho = 93, op_dir = 62, op_det = 56, op_adc_pin5 = 13\<rparr>,
      \<lparr>op_in0 = 83, op_in1 = 90, op_tacho = 105, op_dir = 40, op_det = 95, op_adc_pin5 = 14\<rparr>]"

section \<open>Sensor ports\<close>

definition in_ok :: "int \<Rightarrow> bool" where
  "in_ok port \<longleftrightarrow> port \<ge> 0 \<and> port < EV3_IN_PORT_COUNT"

abbreviation inp :: "int \<Rightarrow> in_port" where
  "inp port \<equiv> in_ports ! nat port"

definition ev3_input_port_gpio :: "int \<Rightarrow> int \<Rightarrow> int" where
  "ev3_input_port_gpio port pin =
     (if \<not> in_ok port then -1
      else if pin = EV3_PIN1 then ip_pin1 (inp port)
      else if pin = EV3_PIN2 then ip_pin2 (inp port)
      else if pin = EV3_PIN5 then ip_pin5 (inp port)
      else if pin = EV3_PIN6 then ip_pin6 (inp port)
      else -1)"

definition ev3_input_port_power :: "int \<Rightarrow> bool \<Rightarrow> gpio_state \<Rightarrow> gpio_state" where
  "ev3_input_port_power port on g =
     (if \<not> in_ok port then g
      else ev3_gpio_write (ip_pin1 (inp port)) on (ev3_gpio_config (ip_pin1 (inp port)) GPIO_OUTPUT g))"

definition ev3_input_port_detect :: "int \<Rightarrow> gpio_state \<Rightarrow> bool \<times> gpio_state" where
  "ev3_input_port_detect port g =
     (if \<not> in_ok port then (False, g)
      else let g = ev3_gpio_config (ip_pin2 (inp port)) GPIO_INPUT g
           in (ev3_gpio_read (ip_pin2 (inp port)) g, g))"

definition ev3_input_port_float :: "int \<Rightarrow> gpio_state \<Rightarrow> gpio_state" where
  "ev3_input_port_float port g =
     (if \<not> in_ok port then g
      else
        let p = inp port;
            g = ev3_gpio_config (ip_pin1 p) GPIO_OUTPUT g;
            g = ev3_gpio_write (ip_pin1 p) False g;
            g = ev3_gpio_config (ip_pin2 p) GPIO_INPUT g
        in if EV3_UART_IS_PRU (ip_uart_base p) then g
           else
             let g = ev3_gpio_config (ip_pin5 p) GPIO_INPUT g;
                 g = ev3_gpio_config (ip_pin6 p) GPIO_INPUT g;
                 g = ev3_gpio_config (ip_buf_en p) GPIO_OUTPUT g
             in ev3_gpio_write (ip_buf_en p) True g)"

definition ev3_input_port_is_pru :: "int \<Rightarrow> bool" where
  "ev3_input_port_is_pru port = (if \<not> in_ok port then False else EV3_UART_IS_PRU (ip_uart_base (inp port)))"

definition ev3_input_port_uart_base :: "int \<Rightarrow> u32" where
  "ev3_input_port_uart_base port = (if \<not> in_ok port then 0 else ip_uart_base (inp port))"

definition ev3_input_port_uart_irq :: "int \<Rightarrow> u32" where
  "ev3_input_port_uart_irq port = (if \<not> in_ok port then 0 else ip_uart_irq (inp port))"

definition ev3_input_port_adc_channel :: "int \<Rightarrow> int" where
  "ev3_input_port_adc_channel port = (if \<not> in_ok port then -1 else ip_adc_pin6 (inp port))"

definition ev3_input_port_adc_channel_pin1 :: "int \<Rightarrow> int" where
  "ev3_input_port_adc_channel_pin1 port = (if \<not> in_ok port then -1 else ip_adc_pin1 (inp port))"

definition psc_module_enable :: "u32 \<Rightarrow> nat \<Rightarrow> gpio_state \<Rightarrow> gpio_state" where
  "psc_module_enable base m g =
     (if base = 0 then g
      else if (base, m) \<in> set (io_psc g) then g
      else g\<lparr>io_psc := io_psc g @ [(base, m)]\<rparr>)"

definition ev3_input_port_uart_enable ::
  "(int \<Rightarrow> gpio_state \<Rightarrow> int \<times> gpio_state) \<Rightarrow> int \<Rightarrow> gpio_state \<Rightarrow> int \<times> gpio_state" where
  "ev3_input_port_uart_enable pru_enable port g =
     (if \<not> in_ok port then (-1, g)
      else
        let p = inp port
        in if EV3_UART_IS_PRU (ip_uart_base p) then
             pru_enable port
               (ev3_gpio_write (ip_buf_en p) False (ev3_gpio_config (ip_buf_en p) GPIO_OUTPUT g))
           else if ip_uart_base p = 0 then (-1, g)
           else
             let g = ev3_syscfg_write EV3_SYSCFG_CFGCHIP3 0 CFGCHIP3_ASYNC3_CLKSRC g;
                 g = psc_module_enable (ip_psc_base p) (ip_psc_mod p) g;
                 g = ev3_syscfg_write (EV3_SYSCFG_PINMUX (ip_pmux_reg p)) (ip_pmux_val p)
                       (ip_pmux_mask p) g;
                 g = ev3_gpio_config (ip_buf_en p) GPIO_OUTPUT g
             in (0, ev3_gpio_write (ip_buf_en p) False g))"

definition ev3_input_port_uart_disable ::
  "(int \<Rightarrow> gpio_state \<Rightarrow> gpio_state) \<Rightarrow> int \<Rightarrow> gpio_state \<Rightarrow> gpio_state" where
  "ev3_input_port_uart_disable pru_disable port g =
     (if \<not> in_ok port then g
      else
        let p = inp port;
            g = (if EV3_UART_IS_PRU (ip_uart_base p) then pru_disable port g else g);
            g = ev3_gpio_config (ip_buf_en p) GPIO_OUTPUT g
        in ev3_gpio_write (ip_buf_en p) True g)"

definition ev3_input_port_i2c_enable ::
  "(int \<Rightarrow> gpio_state \<Rightarrow> gpio_state) \<Rightarrow> int \<Rightarrow> gpio_state \<Rightarrow> int \<times> gpio_state" where
  "ev3_input_port_i2c_enable pru_disable port g =
     (if \<not> in_ok port then (-1, g)
      else
        let p = inp port;
            g = (if EV3_UART_IS_PRU (ip_uart_base p) then pru_disable port g else g);
            g = ev3_gpio_config (ip_buf_en p) GPIO_OUTPUT g;
            g = ev3_gpio_write (ip_buf_en p) True g;
            g = ev3_gpio_config (ip_pin5 p) GPIO_INPUT g;
            g = ev3_gpio_config (ip_pin6 p) GPIO_INPUT g
        in (0, g))"

section \<open>Motor ports\<close>

definition out_ok :: "int \<Rightarrow> bool" where
  "out_ok port \<longleftrightarrow> port \<ge> 0 \<and> port < EV3_OUT_PORT_COUNT"

abbreviation outp :: "int \<Rightarrow> out_port" where
  "outp port \<equiv> out_ports ! nat port"

definition ev3_output_port_init :: "int \<Rightarrow> gpio_state \<Rightarrow> gpio_state" where
  "ev3_output_port_init port g =
     (if \<not> out_ok port then g
      else
        let p = outp port;
            g = ev3_gpio_config (op_in0 p) GPIO_OUTPUT g;
            g = ev3_gpio_config (op_in1 p) GPIO_OUTPUT g;
            g = ev3_gpio_write (op_in0 p) False g;
            g = ev3_gpio_write (op_in1 p) False g;
            g = ev3_gpio_config (op_det p) GPIO_OUTPUT g;
            g = ev3_gpio_write (op_det p) False g;
            g = ev3_gpio_config (op_tacho p) GPIO_INPUT g
        in ev3_gpio_config (op_dir p) GPIO_INPUT g)"

definition ev3_output_port_bridge :: "int \<Rightarrow> int \<Rightarrow> gpio_state \<Rightarrow> gpio_state" where
  "ev3_output_port_bridge port st g =
     (if \<not> out_ok port then g
      else
        let p = outp port
        in if st = EV3_MOTOR_FWD then
             ev3_gpio_dir (op_in1 p) False (ev3_gpio_dir (op_in0 p) True (ev3_gpio_write (op_in0 p) True g))
           else if st = EV3_MOTOR_REV then
             ev3_gpio_dir (op_in0 p) False (ev3_gpio_dir (op_in1 p) True (ev3_gpio_write (op_in1 p) True g))
           else if st = EV3_MOTOR_BRAKE then
             ev3_gpio_dir (op_in1 p) True (ev3_gpio_dir (op_in0 p) True
               (ev3_gpio_write (op_in1 p) True (ev3_gpio_write (op_in0 p) True g)))
           else
             ev3_gpio_dir (op_in1 p) True (ev3_gpio_dir (op_in0 p) True
               (ev3_gpio_write (op_in1 p) False (ev3_gpio_write (op_in0 p) False g))))"

definition ev3_output_port_tacho :: "int \<Rightarrow> gpio_state \<Rightarrow> bool \<times> bool" where
  "ev3_output_port_tacho port g =
     (if \<not> out_ok port then (False, False)
      else (ev3_gpio_read (op_tacho (outp port)) g, ev3_gpio_read (op_dir (outp port)) g))"

definition ev3_output_port_tacho_pins :: "int \<Rightarrow> int \<times> int" where
  "ev3_output_port_tacho_pins port =
     (if \<not> out_ok port then (-1, -1) else (op_tacho (outp port), op_dir (outp port)))"

definition ev3_output_port_adc_channel :: "int \<Rightarrow> int" where
  "ev3_output_port_adc_channel port = (if \<not> out_ok port then -1 else op_adc_pin5 (outp port))"

section \<open>The wiring is consistent\<close>

text \<open>Every GPIO line of every connector, and every ADC channel.\<close>

definition wired_pins :: "int list" where
  "wired_pins =
     concat (map (\<lambda>p. [ip_pin1 p, ip_pin2 p, ip_pin5 p, ip_pin6 p, ip_buf_en p]) in_ports) @
     concat (map (\<lambda>p. [op_in0 p, op_in1 p, op_tacho p, op_dir p, op_det p]) out_ports)"

definition adc_channels :: "int list" where
  "adc_channels = concat (map (\<lambda>p. [ip_adc_pin1 p, ip_adc_pin6 p]) in_ports) @ map op_adc_pin5 out_ports"

lemmas wiring_defs = wired_pins_def adc_channels_def in_ports_def out_ports_def

text \<open>
  The wiring tables never assign a line twice: the forty GPIO numbers of the eight connectors are
  valid pins and pairwise different, and so are the twelve ADC channels, all below 16.
\<close>

theorem wiring_distinct:
  "distinct wired_pins \<and> list_all valid_pin wired_pins \<and>
   distinct adc_channels \<and> list_all (\<lambda>c. 0 \<le> c \<and> c < 16) adc_channels"
  by (simp add: wiring_defs valid_pin_def MAX_GPIO_def)

section \<open>The H-bridge\<close>

lemma config_gpio_inv [simp]: "gpio_inv (ev3_gpio_config p m g) = gpio_inv g"
  by (simp add: ev3_gpio_config_def gpio_mux_cfg_def ev3_syscfg_write_def Let_def gpio_inv_def gpio_upd_def)

lemma out_ok_cases: "out_ok port \<Longrightarrow> port = 0 \<or> port = 1 \<or> port = 2 \<or> port = 3"
  by (auto simp: out_ok_def EV3_OUT_PORT_COUNT_def)

lemma out_pins_valid:
  assumes "out_ok port"
  shows "valid_pin (op_in0 (outp port))" "valid_pin (op_in1 (outp port))"
    "op_in0 (outp port) \<noteq> op_in1 (outp port)"
  using out_ok_cases [OF assms]
  by (auto simp: out_ports_def valid_pin_def MAX_GPIO_def eval_nat_numeral)

lemma out_pins_apart:
  assumes "out_ok port" "out_ok port'" "port \<noteq> port'"
  shows "{op_in0 (outp port), op_in1 (outp port)} \<inter> {op_in0 (outp port'), op_in1 (outp port')} = {}"
  using out_ok_cases [OF assms(1)] out_ok_cases [OF assms(2)] assms(3)
  by (auto simp: out_ports_def eval_nat_numeral)

definition bridge_is :: "int \<Rightarrow> int \<Rightarrow> gpio_state \<Rightarrow> bool" where
  "bridge_is port st g \<longleftrightarrow>
     (let p = outp port; d0 = pin_is_output g (op_in0 p); d1 = pin_is_output g (op_in1 p);
          l0 = pin_level g (op_in0 p); l1 = pin_level g (op_in1 p)
      in if st = EV3_MOTOR_FWD then d0 \<and> l0 \<and> \<not> d1
         else if st = EV3_MOTOR_REV then d1 \<and> l1 \<and> \<not> d0
         else if st = EV3_MOTOR_BRAKE then d0 \<and> d1 \<and> l0 \<and> l1
         else d0 \<and> d1 \<and> \<not> l0 \<and> \<not> l1)"

lemma bridge_gpio_inv [simp]: "gpio_inv (ev3_output_port_bridge port st g) = gpio_inv g"
  by (simp add: ev3_output_port_bridge_def Let_def)

lemmas pin_laws = level.get_put direction.get_put

lemma bridge_sets:
  assumes "gpio_inv g" "out_ok port"
  shows "bridge_is port st (ev3_output_port_bridge port st g)"
  using assms out_pins_valid [OF assms(2)]
  by (auto simp: bridge_is_def ev3_output_port_bridge_def Let_def pin_laws port_consts)

lemma bridge_other_pin:
  assumes "gpio_inv g" "out_ok port" "valid_pin q" "q \<noteq> op_in0 (outp port)" "q \<noteq> op_in1 (outp port)"
  shows "pin_level (ev3_output_port_bridge port st g) q = pin_level g q"
    "pin_is_output (ev3_output_port_bridge port st g) q = pin_is_output g q"
  using assms out_pins_valid [OF assms(2)]
  by (auto simp: ev3_output_port_bridge_def Let_def pin_laws)

lemma bridge_other_port:
  assumes "gpio_inv g" "out_ok port" "out_ok port'" "port \<noteq> port'"
  shows "bridge_is port' st' (ev3_output_port_bridge port st g) = bridge_is port' st' g"
  using assms out_pins_valid [OF assms(3)] out_pins_apart [OF assms(2-4)]
  by (simp add: bridge_is_def bridge_other_pin)

text \<open>
  The H-bridge truth table: after a bridge command the two direction lines of the port are driven
  as documented (forward: first line high, second floating; reverse: the mirror image; brake: both
  high; coast: both low), and no other pin changes level or direction.
\<close>

theorem bridge_truth_table:
  assumes "gpio_inv g" "out_ok port"
  shows "bridge_is port st (ev3_output_port_bridge port st g) \<and>
    (\<forall>q. valid_pin q \<and> q \<notin> {op_in0 (outp port), op_in1 (outp port)} \<longrightarrow>
       pin_level (ev3_output_port_bridge port st g) q = pin_level g q \<and>
       pin_is_output (ev3_output_port_bridge port st g) q = pin_is_output g q)"
  using assms by (simp add: bridge_sets bridge_other_pin)

theorem bridge_truth_table_witness:
  "bridge_is 2 EV3_MOTOR_REV (ev3_output_port_bridge 2 EV3_MOTOR_REV demo_gpio)"
  using bridge_truth_table [of demo_gpio 2 EV3_MOTOR_REV]
  by (simp add: gpio_inv_def demo_gpio_def out_ok_def EV3_OUT_PORT_COUNT_def)

section \<open>Floating a port\<close>

lemma mux_other [simp]:
  "io_groups (gpio_mux_cfg p m g) = io_groups g" "pin_level (gpio_mux_cfg p m g) q = pin_level g q"
  "pin_is_output (gpio_mux_cfg p m g) q = pin_is_output g q" "gpio_inv (gpio_mux_cfg p m g) = gpio_inv g"
  by (simp_all add: gpio_mux_cfg_def ev3_syscfg_write_def Let_def pin_level_def pin_is_output_def
      gpio_group_def gpio_inv_def)

lemma config_level:
  "gpio_inv g \<Longrightarrow> valid_pin p \<Longrightarrow> pin_level (ev3_gpio_config p m g) q = pin_level g q"
  using gpio_group_cong [of p q "gpio_mux_cfg p MODE_GPIO g"]
  by (auto simp: ev3_gpio_config_def Let_def pin_level_def [of "gpio_upd _ _ _"] gpio_group_upd)
     (simp_all add: pin_level_def gpio_group_def)

lemma config_output:
  assumes "gpio_inv g" "valid_pin p" "valid_pin q" "m = GPIO_OUTPUT \<or> m = GPIO_INPUT"
  shows "pin_is_output (ev3_gpio_config p m g) q = (if p = q then m = GPIO_OUTPUT else pin_is_output g q)"
proof -
  have "ev3_gpio_config p m g = ev3_gpio_dir p (m = GPIO_OUTPUT) (gpio_mux_cfg p MODE_GPIO g)"
    using assms(2,4) by (auto simp: ev3_gpio_config_def ev3_gpio_dir_def valid_pin_def Let_def gpio_consts)
  with assms show ?thesis by (simp add: output_dir)
qed

lemma syscfg_upd [simp]: "io_syscfg (gpio_upd p f g) = io_syscfg g" "io_syscfg (ev3_gpio_write p v g) = io_syscfg g"
  by (simp_all add: gpio_upd_def ev3_gpio_write_def)

definition mux_request :: "int \<Rightarrow> u32 \<times> u32 \<times> u32" where
  "mux_request p = (let m = PINMUX ! nat p in
     (PINMUX0_PHYS + of_nat (pm_idx m) * 4, push_bit (pm_shift m) (pm_mode m), push_bit (pm_shift m) 0xf))"

lemma config_syscfg:
  "valid_pin p \<Longrightarrow> m = GPIO_OUTPUT \<or> m = GPIO_INPUT \<Longrightarrow>
     io_syscfg (ev3_gpio_config p m g) = io_syscfg g @ [mux_request p]"
  by (auto simp: ev3_gpio_config_def gpio_mux_cfg_def ev3_syscfg_write_def mux_request_def Let_def
      valid_pin_def MODE_GPIO_def)

lemma in_pins_valid:
  assumes "in_ok port"
  shows "valid_pin (ip_pin1 (inp port)) \<and> valid_pin (ip_pin2 (inp port)) \<and>
    ip_pin1 (inp port) \<noteq> ip_pin2 (inp port)"
proof -
  have "port = 0 \<or> port = 1 \<or> port = 2 \<or> port = 3"
    using assms by (auto simp: in_ok_def EV3_IN_PORT_COUNT_def)
  then show ?thesis by (auto simp: in_ports_def valid_pin_def MAX_GPIO_def eval_nat_numeral)
qed

text \<open>
  Floating a soft-UART port leaves its serialiser lines alone: only pins 1 and 2 are multiplexed to
  GPIO, pin 1 is driven low, pin 2 becomes an input, and every other pin keeps level and direction.
\<close>

theorem float_spares_pru:
  assumes "gpio_inv g" "in_ok port" "ev3_input_port_is_pru port"
  shows "io_syscfg (ev3_input_port_float port g) =
      io_syscfg g @ [mux_request (ip_pin1 (inp port)), mux_request (ip_pin2 (inp port))] \<and>
    pin_is_output (ev3_input_port_float port g) (ip_pin1 (inp port)) \<and>
    \<not> pin_level (ev3_input_port_float port g) (ip_pin1 (inp port)) \<and>
    \<not> pin_is_output (ev3_input_port_float port g) (ip_pin2 (inp port)) \<and>
    (\<forall>q. valid_pin q \<and> q \<notin> {ip_pin1 (inp port), ip_pin2 (inp port)} \<longrightarrow>
       pin_level (ev3_input_port_float port g) q = pin_level g q \<and>
       pin_is_output (ev3_input_port_float port g) q = pin_is_output g q)"
  using assms in_pins_valid [OF assms(2)]
  by (auto simp: ev3_input_port_float_def ev3_input_port_is_pru_def Let_def config_syscfg config_level
      config_output pin_laws GPIO_INPUT_def GPIO_OUTPUT_def)

theorem float_spares_pru_witness:
  "pin_level (ev3_input_port_float 3 demo_gpio) 1 = pin_level demo_gpio 1 \<and>
   pin_is_output (ev3_input_port_float 3 demo_gpio) 31 = pin_is_output demo_gpio 31"
proof -
  have "gpio_inv demo_gpio" by (simp add: gpio_inv_def demo_gpio_def)
  moreover have "in_ok 3" by (simp add: in_ok_def EV3_IN_PORT_COUNT_def)
  moreover have "ev3_input_port_is_pru 3" by code_simp
  ultimately show ?thesis
    using float_spares_pru [of demo_gpio 3] by (simp add: in_ports_def valid_pin_def MAX_GPIO_def)
qed

end
