(* ===== verification/Ev3_Pwm.thy ===== *)
theory Ev3_Pwm
  imports Ev3_Port
begin

text \<open>
  The EV3 motor PWM (\<^verbatim>\<open>src/lego.ev3/system/libs/arch_ev3/src/pwm.c\<close>): motors A and B on the two channels
  of eHRPWM1, which share one period register, C and D on the two eCAP units. The device registers
  are a map from physical address to value (16-bit registers zero-extended); register writes the
  kernel performs go to the trace of the GPIO layer.
\<close>

section \<open>Registers and state\<close>

record pwm_map =
  pm_ecap :: bool
  pm_base :: u32
  pm_chan :: nat

record pwm_state =
  pw_period :: "u32 list"
  pw_duty :: "u32 list"
  pw_enabled :: "bool list"
  pw_inited :: bool
  pw_mmio :: "u32 \<Rightarrow> u32"

definition EV3_MOTOR_COUNT :: int where "EV3_MOTOR_COUNT = 4"
definition EV3_PWM_DEFAULT_PERIOD :: u32 where "EV3_PWM_DEFAULT_PERIOD = 11364"
definition EHRPWM1_BASE :: u32 where "EHRPWM1_BASE = 0x01F02000"
definition ECAP0_BASE :: u32 where "ECAP0_BASE = 0x01F06000"
definition ECAP1_BASE :: u32 where "ECAP1_BASE = 0x01F07000"
definition PWM_PSC1_BASE :: u32 where "PWM_PSC1_BASE = 0x01E27000"
definition PSC_MOD_EHRPWM :: nat where "PSC_MOD_EHRPWM = 17"
definition PSC_MOD_ECAP :: nat where "PSC_MOD_ECAP = 20"
definition CFGCHIP1_TBCLKSYNC :: u32 where "CFGCHIP1_TBCLKSYNC = 0x1000"
definition EV3_SYSCFG_CFGCHIP1 :: u32 where "EV3_SYSCFG_CFGCHIP1 = 0x01C14000 + 0x180"
definition TBCTL :: u32 where "TBCTL = 0x00"
definition TBPRD :: u32 where "TBPRD = 0x0A"
definition CMPA :: u32 where "CMPA = 0x12"
definition CMPB :: u32 where "CMPB = 0x14"
definition AQCTLA :: u32 where "AQCTLA = 0x16"
definition AQCTLB :: u32 where "AQCTLB = 0x18"
definition AQSFRC :: u32 where "AQSFRC = 0x1A"
definition AQCSFRC :: u32 where "AQCSFRC = 0x1C"
definition ECAP_CAP1 :: u32 where "ECAP_CAP1 = 0x08"
definition ECAP_CAP2 :: u32 where "ECAP_CAP2 = 0x0C"
definition ECAP_CAP3 :: u32 where "ECAP_CAP3 = 0x10"
definition ECAP_CAP4 :: u32 where "ECAP_CAP4 = 0x14"
definition ECAP_ECCTL2 :: u32 where "ECAP_ECCTL2 = 0x2A"

lemmas pwm_consts = EV3_MOTOR_COUNT_def EV3_PWM_DEFAULT_PERIOD_def EHRPWM1_BASE_def ECAP0_BASE_def
  ECAP1_BASE_def PWM_PSC1_BASE_def PSC_MOD_EHRPWM_def PSC_MOD_ECAP_def CFGCHIP1_TBCLKSYNC_def
  EV3_SYSCFG_CFGCHIP1_def TBCTL_def TBPRD_def CMPA_def CMPB_def AQCTLA_def AQCTLB_def AQSFRC_def
  AQCSFRC_def ECAP_CAP1_def ECAP_CAP2_def ECAP_CAP3_def ECAP_CAP4_def ECAP_ECCTL2_def

definition pwm_maps :: "pwm_map list" where
  "pwm_maps = [\<lparr>pm_ecap = False, pm_base = EHRPWM1_BASE, pm_chan = 1\<rparr>,
               \<lparr>pm_ecap = False, pm_base = EHRPWM1_BASE, pm_chan = 0\<rparr>,
               \<lparr>pm_ecap = True, pm_base = ECAP0_BASE, pm_chan = 0\<rparr>,
               \<lparr>pm_ecap = True, pm_base = ECAP1_BASE, pm_chan = 0\<rparr>]"

definition writel :: "u32 \<Rightarrow> u32 \<Rightarrow> pwm_state \<Rightarrow> pwm_state" where
  "writel v a w = w\<lparr>pw_mmio := (pw_mmio w)(a := v)\<rparr>"

definition writew :: "u16 \<Rightarrow> u32 \<Rightarrow> pwm_state \<Rightarrow> pwm_state" where
  "writew v a w = w\<lparr>pw_mmio := (pw_mmio w)(a := ucast v)\<rparr>"

definition readw :: "u32 \<Rightarrow> pwm_state \<Rightarrow> u16" where
  "readw a w = ucast (pw_mmio w a)"

definition reg16_set :: "u32 \<Rightarrow> u16 \<Rightarrow> u16 \<Rightarrow> pwm_state \<Rightarrow> pwm_state" where
  "reg16_set a v msk w = writew ((readw a w AND NOT msk) OR (v AND msk)) a w"

section \<open>Operations\<close>

definition ehrpwm1_hw_init :: "pwm_state \<Rightarrow> pwm_state" where
  "ehrpwm1_hw_init w =
     (let w = reg16_set (EHRPWM1_BASE + TBCTL) 3 3 w;
          w = reg16_set (EHRPWM1_BASE + TBCTL) 0 (push_bit 7 0x3f) w;
          w = reg16_set (EHRPWM1_BASE + TBCTL) 0 8 w;
          w = writew (1 OR push_bit 4 2) (EHRPWM1_BASE + AQCTLA) w;
          w = writew (1 OR push_bit 8 2) (EHRPWM1_BASE + AQCTLB) w;
          w = reg16_set (EHRPWM1_BASE + AQSFRC) 0xC0 0xC0 w
      in reg16_set (EHRPWM1_BASE + AQCSFRC) 0 (3 OR 12) w)"

definition ecap_hw_init :: "u32 \<Rightarrow> pwm_state \<Rightarrow> pwm_state" where
  "ecap_hw_init base w =
     (let ctl = readw (base + ECAP_ECCTL2) w;
          ctl = ctl OR 0x200 OR 0xC0 OR 0x400;
          ctl = ctl AND NOT 0x10
      in writew ctl (base + ECAP_ECCTL2) w)"

definition pwm_apply_duty :: "int \<Rightarrow> pwm_state \<Rightarrow> pwm_state" where
  "pwm_apply_duty motor w =
     (let i = nat motor; m = pwm_maps ! i;
          duty = (if pw_enabled w ! i then pw_duty w ! i else 0)
      in if pm_ecap m
         then writel duty (pm_base m + ECAP_CAP4) (writel duty (pm_base m + ECAP_CAP2) w)
         else writew (ucast duty) (EHRPWM1_BASE + (if pm_chan m = 0 then CMPA else CMPB)) w)"

definition ev3_pwm_set_period :: "int \<Rightarrow> u32 \<Rightarrow> pwm_state \<Rightarrow> pwm_state" where
  "ev3_pwm_set_period motor cycles w =
     (if motor < 0 \<or> motor \<ge> EV3_MOTOR_COUNT then w
      else
        let i = nat motor; m = pwm_maps ! i;
            c = (if cycles < 2 then 2 else cycles);
            c = (if c > 0xFFFF then 0xFFFF else c);
            w = w\<lparr>pw_period := (pw_period w)[i := c]\<rparr>;
            w = (if pm_ecap m
                 then writel (c - 1) (pm_base m + ECAP_CAP3) (writel (c - 1) (pm_base m + ECAP_CAP1) w)
                 else writew (ucast (c - 1)) (EHRPWM1_BASE + TBPRD) w);
            w = (if pw_duty w ! i > c then w\<lparr>pw_duty := (pw_duty w)[i := c]\<rparr> else w)
        in pwm_apply_duty motor w)"

definition ev3_pwm_set_duty :: "int \<Rightarrow> u32 \<Rightarrow> pwm_state \<Rightarrow> pwm_state" where
  "ev3_pwm_set_duty motor cycles w =
     (if motor < 0 \<or> motor \<ge> EV3_MOTOR_COUNT then w
      else
        let i = nat motor;
            c = (if cycles > pw_period w ! i then pw_period w ! i else cycles)
        in pwm_apply_duty motor (w\<lparr>pw_duty := (pw_duty w)[i := c]\<rparr>))"

definition ev3_pwm_set_percent :: "int \<Rightarrow> int \<Rightarrow> pwm_state \<Rightarrow> pwm_state" where
  "ev3_pwm_set_percent motor percent w =
     (if motor < 0 \<or> motor \<ge> EV3_MOTOR_COUNT then w
      else
        let p = (if percent < 0 then 0 else percent);
            p = (if p > 100 then 100 else p)
        in ev3_pwm_set_duty motor
             (ucast ((ucast (pw_period w ! nat motor) :: u64) * word_of_int p div 100)) w)"

definition ev3_pwm_enable :: "int \<Rightarrow> bool \<Rightarrow> pwm_state \<Rightarrow> pwm_state" where
  "ev3_pwm_enable motor en w =
     (if motor < 0 \<or> motor \<ge> EV3_MOTOR_COUNT then w
      else pwm_apply_duty motor (w\<lparr>pw_enabled := (pw_enabled w)[nat motor := en]\<rparr>))"

definition pwm_init_channel :: "int \<Rightarrow> pwm_state \<Rightarrow> pwm_state" where
  "pwm_init_channel i w =
     (let w = w\<lparr>pw_duty := (pw_duty w)[nat i := 0], pw_enabled := (pw_enabled w)[nat i := False]\<rparr>
      in pwm_apply_duty i (ev3_pwm_set_period i EV3_PWM_DEFAULT_PERIOD w))"

definition pwm_start_channel :: "int \<Rightarrow> pwm_state \<Rightarrow> pwm_state" where
  "pwm_start_channel i w =
     (let m = pwm_maps ! nat i
      in if \<not> pm_ecap m then w
         else writew (readw (pm_base m + ECAP_ECCTL2) w OR 0x10) (pm_base m + ECAP_ECCTL2) w)"

definition ev3_pwm_init :: "gpio_state \<times> pwm_state \<Rightarrow> gpio_state \<times> pwm_state" where
  "ev3_pwm_init gw =
     (let (g, w) = gw in
      if pw_inited w then (g, w)
      else
        let g = psc_module_enable PWM_PSC1_BASE PSC_MOD_EHRPWM g;
            g = psc_module_enable PWM_PSC1_BASE PSC_MOD_ECAP g;
            g = ev3_syscfg_write EV3_SYSCFG_CFGCHIP1 CFGCHIP1_TBCLKSYNC CFGCHIP1_TBCLKSYNC g;
            g = ev3_syscfg_write (EV3_SYSCFG_PINMUX 5) 2 0x0000000f g;
            g = ev3_syscfg_write (EV3_SYSCFG_PINMUX 5) (push_bit 4 2) 0x000000f0 g;
            g = ev3_syscfg_write (EV3_SYSCFG_PINMUX 2) (push_bit 28 2) 0xf0000000 g;
            g = ev3_syscfg_write (EV3_SYSCFG_PINMUX 1) (push_bit 28 4) 0xf0000000 g;
            w = ehrpwm1_hw_init w;
            w = ecap_hw_init ECAP0_BASE w;
            w = ecap_hw_init ECAP1_BASE w;
            w = fold pwm_init_channel [0, 1, 2, 3] w;
            w = reg16_set (EHRPWM1_BASE + TBCTL) 0 3 w;
            w = fold pwm_start_channel [0, 1, 2, 3] w
        in (g, w\<lparr>pw_inited := True\<rparr>))"

section \<open>The compare registers follow the software state\<close>

text \<open>The register that sets the on-time of each motor.\<close>

definition out_addr :: "nat \<Rightarrow> u32" where
  "out_addr i = [EHRPWM1_BASE + CMPB, EHRPWM1_BASE + CMPA, ECAP0_BASE + ECAP_CAP2,
     ECAP1_BASE + ECAP_CAP2] ! i"

definition on_time :: "nat \<Rightarrow> pwm_state \<Rightarrow> u32" where
  "on_time i w = pw_mmio w (out_addr i)"

definition pwm_chan_ok :: "pwm_state \<Rightarrow> nat \<Rightarrow> bool" where
  "pwm_chan_ok w i \<longleftrightarrow> 2 \<le> pw_period w ! i \<and> pw_period w ! i \<le> 0xFFFF \<and>
     pw_duty w ! i \<le> pw_period w ! i \<and>
     on_time i w = (if pw_enabled w ! i then pw_duty w ! i else 0)"

definition pwm_shape :: "pwm_state \<Rightarrow> bool" where
  "pwm_shape w \<longleftrightarrow> length (pw_period w) = 4 \<and> length (pw_duty w) = 4 \<and> length (pw_enabled w) = 4"

definition pwm_inv :: "pwm_state \<Rightarrow> bool" where
  "pwm_inv w \<longleftrightarrow> pwm_shape w \<and> list_all (pwm_chan_ok w) [0..<4]"

lemma less_4_cases: "(i::nat) < 4 \<Longrightarrow> i = 0 \<or> i = 1 \<or> i = 2 \<or> i = 3"
  by auto

lemma pwm_inv_chan: "pwm_inv w \<Longrightarrow> i < 4 \<Longrightarrow> pwm_chan_ok w i"
  by (simp add: pwm_inv_def list_all_iff)

lemma pwm_invI: "pwm_shape w \<Longrightarrow> (\<And>i. i < 4 \<Longrightarrow> pwm_chan_ok w i) \<Longrightarrow> pwm_inv w"
  by (simp add: pwm_inv_def list_all_iff)

lemma motor_index: "0 \<le> motor \<Longrightarrow> motor < EV3_MOTOR_COUNT \<Longrightarrow> nat motor < 4"
  by (simp add: EV3_MOTOR_COUNT_def)

lemma apply_duty_fields [simp]:
  "pw_period (pwm_apply_duty m w) = pw_period w" "pw_duty (pwm_apply_duty m w) = pw_duty w"
  "pw_enabled (pwm_apply_duty m w) = pw_enabled w" "pw_inited (pwm_apply_duty m w) = pw_inited w"
  by (simp_all add: pwm_apply_duty_def writel_def writew_def Let_def)

lemma ucast_u16_id: "v \<le> 0xFFFF \<Longrightarrow> ucast (ucast (v::u32) :: u16) = v"
proof -
  assume "v \<le> 0xFFFF"
  then have "take_bit 16 v = v" by (intro take_bit_word_id) (simp add: word_le_nat_alt)
  then show ?thesis by (simp add: unsigned_ucast_eq)
qed

lemma apply_duty_on_time:
  assumes "0 \<le> m" "m < 4" "j < 4" "pw_duty w ! nat m \<le> 0xFFFF"
  shows "on_time j (pwm_apply_duty m w) =
    (if j = nat m then (if pw_enabled w ! j then pw_duty w ! j else 0) else on_time j w)"
proof -
  have "m = 0 \<or> m = 1 \<or> m = 2 \<or> m = 3" using assms(1,2) by auto
  then show ?thesis
    using less_4_cases [OF assms(3)] assms(4)
    by (elim disjE)
       (simp_all add: on_time_def out_addr_def pwm_apply_duty_def pwm_maps_def writel_def writew_def
         Let_def pwm_consts ucast_u16_id)
qed

lemma chan_ok_le: "pwm_chan_ok w i \<Longrightarrow> pw_duty w ! i \<le> 0xFFFF"
  by (auto simp: pwm_chan_ok_def)

lemma apply_chan_ok:
  assumes "0 \<le> m" "m < 4" "pw_duty w ! nat m \<le> pw_period w ! nat m"
    "2 \<le> pw_period w ! nat m" "pw_period w ! nat m \<le> 0xFFFF" "i < 4" "i \<noteq> nat m \<Longrightarrow> pwm_chan_ok w i"
  shows "pwm_chan_ok (pwm_apply_duty m w) i"
proof -
  have "pw_duty w ! nat m \<le> 0xFFFF" using assms(3,5) by (rule order_trans)
  then show ?thesis
    using assms apply_duty_on_time [OF assms(1,2), of i w] by (cases "i = nat m") (auto simp: pwm_chan_ok_def)
qed

lemma pwm_apply_inv:
  assumes "pwm_shape w" "0 \<le> m" "m < 4" "pw_duty w ! nat m \<le> pw_period w ! nat m"
    "2 \<le> pw_period w ! nat m" "pw_period w ! nat m \<le> 0xFFFF"
    "\<And>i. i < 4 \<Longrightarrow> i \<noteq> nat m \<Longrightarrow> pwm_chan_ok w i"
  shows "pwm_inv (pwm_apply_duty m w)"
  using assms by (intro pwm_invI apply_chan_ok) (auto simp: pwm_shape_def)

lemma chan_ok_other:
  "i \<noteq> j \<Longrightarrow> pwm_chan_ok (w\<lparr>pw_duty := (pw_duty w)[j := d]\<rparr>) i = pwm_chan_ok w i"
  "i \<noteq> j \<Longrightarrow> pwm_chan_ok (w\<lparr>pw_enabled := (pw_enabled w)[j := e]\<rparr>) i = pwm_chan_ok w i"
  by (simp_all add: pwm_chan_ok_def on_time_def)

lemma set_duty_inv:
  assumes "pwm_inv w"
  shows "pwm_inv (ev3_pwm_set_duty motor cycles w)"
proof (cases "0 \<le> motor \<and> motor < 4")
  case True
  then have "nat motor < 4" by (auto simp: nat_less_iff)
  moreover have "pwm_chan_ok w (nat motor)" using assms True by (intro pwm_inv_chan) auto
  ultimately have "pwm_inv (pwm_apply_duty motor (w\<lparr>pw_duty := (pw_duty w)[nat motor :=
      (if cycles > pw_period w ! nat motor then pw_period w ! nat motor else cycles)]\<rparr>))"
    using True assms
    by (intro pwm_apply_inv) (auto simp: pwm_inv_def pwm_shape_def pwm_chan_ok_def list_all_iff on_time_def)
  with True show ?thesis by (simp add: ev3_pwm_set_duty_def EV3_MOTOR_COUNT_def Let_def)
qed (use assms in \<open>auto simp: ev3_pwm_set_duty_def EV3_MOTOR_COUNT_def\<close>)

lemma enable_inv:
  assumes "pwm_inv w"
  shows "pwm_inv (ev3_pwm_enable motor en w)"
proof (cases "0 \<le> motor \<and> motor < 4")
  case True
  have "pwm_chan_ok w (nat motor)" using assms True by (intro pwm_inv_chan) auto
  then have "pwm_inv (pwm_apply_duty motor (w\<lparr>pw_enabled := (pw_enabled w)[nat motor := en]\<rparr>))"
    using True assms
    by (intro pwm_apply_inv) (auto simp: pwm_inv_def pwm_shape_def pwm_chan_ok_def list_all_iff on_time_def)
  with True show ?thesis by (simp add: ev3_pwm_enable_def EV3_MOTOR_COUNT_def)
qed (use assms in \<open>auto simp: ev3_pwm_enable_def EV3_MOTOR_COUNT_def\<close>)

lemma set_percent_inv: "pwm_inv w \<Longrightarrow> pwm_inv (ev3_pwm_set_percent motor p w)"
  by (simp add: ev3_pwm_set_percent_def set_duty_inv)

lemma chan_ok_period:
  "i \<noteq> j \<Longrightarrow> pwm_chan_ok (w\<lparr>pw_period := (pw_period w)[j := c]\<rparr>) i = pwm_chan_ok w i"
  by (simp add: pwm_chan_ok_def on_time_def)

lemma on_time_cong: "pw_mmio v (out_addr i) = pw_mmio w (out_addr i) \<Longrightarrow> on_time i v = on_time i w"
  by (simp add: on_time_def)

lemma period_regs_apart:
  assumes "i < 4"
  shows "out_addr i \<noteq> EHRPWM1_BASE + TBPRD" "out_addr i \<noteq> ECAP0_BASE + ECAP_CAP1"
    "out_addr i \<noteq> ECAP0_BASE + ECAP_CAP3" "out_addr i \<noteq> ECAP1_BASE + ECAP_CAP1"
    "out_addr i \<noteq> ECAP1_BASE + ECAP_CAP3"
  using less_4_cases [OF assms] by (auto simp: out_addr_def pwm_consts)

lemma maps_base: "i < 4 \<Longrightarrow> pm_ecap (pwm_maps ! i) \<Longrightarrow>
    pm_base (pwm_maps ! i) = ECAP0_BASE \<or> pm_base (pwm_maps ! i) = ECAP1_BASE"
  using less_4_cases [of i] by (auto simp: pwm_maps_def)

text \<open>The state just before the last step of \<open>ev3_pwm_set_period\<close>.\<close>

definition period_set :: "nat \<Rightarrow> u32 \<Rightarrow> pwm_state \<Rightarrow> pwm_state" where
  "period_set i c w =
     (let m = pwm_maps ! i;
          w = w\<lparr>pw_period := (pw_period w)[i := c]\<rparr>;
          w = (if pm_ecap m
               then writel (c - 1) (pm_base m + ECAP_CAP3) (writel (c - 1) (pm_base m + ECAP_CAP1) w)
               else writew (ucast (c - 1)) (EHRPWM1_BASE + TBPRD) w)
      in if pw_duty w ! i > c then w\<lparr>pw_duty := (pw_duty w)[i := c]\<rparr> else w)"

definition clip_period :: "u32 \<Rightarrow> u32" where
  "clip_period cycles = (let c = (if cycles < 2 then 2 else cycles) in if c > 0xFFFF then 0xFFFF else c)"

lemma clip_period_range: "2 \<le> clip_period c" "clip_period c \<le> 0xFFFF"
  by (auto simp: clip_period_def Let_def)

lemma set_period_eq:
  "0 \<le> motor \<Longrightarrow> motor < 4 \<Longrightarrow> ev3_pwm_set_period motor cycles w =
     pwm_apply_duty motor (period_set (nat motor) (clip_period cycles) w)"
  by (simp add: ev3_pwm_set_period_def EV3_MOTOR_COUNT_def period_set_def clip_period_def Let_def)

lemma period_set_fields:
  assumes "pwm_shape w" "i < 4"
  shows "pw_period (period_set i c w) = (pw_period w)[i := c]"
    "pw_duty (period_set i c w) ! i \<le> c" "pw_enabled (period_set i c w) = pw_enabled w"
    "length (pw_duty (period_set i c w)) = 4"
    "j \<noteq> i \<Longrightarrow> pw_duty (period_set i c w) ! j = pw_duty w ! j"
    "j < 4 \<Longrightarrow> on_time j (period_set i c w) = on_time j w"
  using assms period_regs_apart [of j] maps_base [OF assms(2)]
  by (auto simp: period_set_def Let_def writel_def writew_def pwm_shape_def on_time_def)

lemma set_period_other:
  assumes "pwm_shape w" "0 \<le> motor" "motor < 4" "\<And>i. i < 4 \<Longrightarrow> i \<noteq> nat motor \<Longrightarrow> pwm_chan_ok w i"
  shows "pwm_inv (ev3_pwm_set_period motor cycles w)"
proof -
  let ?i = "nat motor" and ?c = "clip_period cycles"
  have i: "?i < 4" using assms(2,3) by simp
  note f = period_set_fields [OF assms(1) i, where c = ?c]
  show ?thesis
    unfolding set_period_eq [OF assms(2,3)]
    using f assms i clip_period_range [of cycles]
    by (intro pwm_apply_inv) (auto simp: pwm_shape_def pwm_chan_ok_def)
qed

lemma set_period_inv:
  assumes "pwm_inv w"
  shows "pwm_inv (ev3_pwm_set_period motor cycles w)"
proof (cases "0 \<le> motor \<and> motor < 4")
  case True
  with assms show ?thesis by (intro set_period_other) (auto simp: pwm_inv_def list_all_iff)
next
  case False
  with assms show ?thesis by (auto simp: ev3_pwm_set_period_def EV3_MOTOR_COUNT_def)
qed

section \<open>Initialisation\<close>

lemma set_period_chan:
  assumes "pwm_shape w" "0 \<le> m" "m < 4" "i < 4" "i \<noteq> nat m \<Longrightarrow> pwm_chan_ok w i"
  shows "pwm_chan_ok (ev3_pwm_set_period m cycles w) i" "pwm_shape (ev3_pwm_set_period m cycles w)"
proof -
  have k: "nat m < 4" using assms(2,3) by simp
  note f = period_set_fields [OF assms(1) k, where c = "clip_period cycles"]
  show "pwm_chan_ok (ev3_pwm_set_period m cycles w) i"
    unfolding set_period_eq [OF assms(2,3)]
    using f assms k clip_period_range [of cycles]
    by (intro apply_chan_ok) (auto simp: pwm_shape_def pwm_chan_ok_def)
  show "pwm_shape (ev3_pwm_set_period m cycles w)"
    unfolding set_period_eq [OF assms(2,3)] using f assms(1) by (simp add: pwm_shape_def)
qed

lemma init_channel_ok:
  assumes "pwm_shape w" "0 \<le> m" "m < 4"
  shows "pwm_shape (pwm_init_channel m w)"
    and "i < 4 \<Longrightarrow> (i \<noteq> nat m \<Longrightarrow> pwm_chan_ok w i) \<Longrightarrow> pwm_chan_ok (pwm_init_channel m w) i"
proof -
  define v where "v = w\<lparr>pw_duty := (pw_duty w)[nat m := 0], pw_enabled := (pw_enabled w)[nat m := False]\<rparr>"
  have v: "pwm_shape v" "\<And>i. i \<noteq> nat m \<Longrightarrow> pwm_chan_ok v i = pwm_chan_ok w i"
    using assms(1) by (auto simp: v_def pwm_shape_def pwm_chan_ok_def on_time_def)
  have e: "pwm_init_channel m w = pwm_apply_duty m (ev3_pwm_set_period m EV3_PWM_DEFAULT_PERIOD v)"
    by (simp add: pwm_init_channel_def v_def)
  note sp = set_period_chan [OF v(1) assms(2,3), where cycles = EV3_PWM_DEFAULT_PERIOD]
  have k: "nat m < 4" using assms(2,3) by simp
  have sh: "pwm_shape (ev3_pwm_set_period m EV3_PWM_DEFAULT_PERIOD v)" using sp(2) [OF k] by simp
  then show "pwm_shape (pwm_init_channel m w)" by (simp add: e pwm_shape_def)
  assume i: "i < 4" "i \<noteq> nat m \<Longrightarrow> pwm_chan_ok w i"
  have "pwm_chan_ok (ev3_pwm_set_period m EV3_PWM_DEFAULT_PERIOD v) i"
    "pwm_chan_ok (ev3_pwm_set_period m EV3_PWM_DEFAULT_PERIOD v) (nat m)"
    using sp(1) i v(2) k by auto
  then show "pwm_chan_ok (pwm_init_channel m w) i"
    unfolding e using assms(2,3) i(1) by (intro apply_chan_ok) (auto simp: pwm_chan_ok_def)
qed

lemma init_channels_inv:
  assumes "pwm_shape w"
  shows "pwm_inv (fold pwm_init_channel [0, 1, 2, 3] w)"
proof -
  define w1 where "w1 = pwm_init_channel 0 w"
  define w2 where "w2 = pwm_init_channel 1 w1"
  define w3 where "w3 = pwm_init_channel 2 w2"
  have 1: "pwm_shape w1" "pwm_chan_ok w1 0"
    using init_channel_ok(1) [OF assms, of 0] init_channel_ok(2) [OF assms, of 0] by (auto simp: w1_def)
  have 2: "pwm_shape w2" "pwm_chan_ok w2 0" "pwm_chan_ok w2 1"
    using init_channel_ok [OF 1(1), of 1] 1(2) by (auto simp: w2_def)
  have 3: "pwm_shape w3" "pwm_chan_ok w3 0" "pwm_chan_ok w3 1" "pwm_chan_ok w3 2"
    using init_channel_ok [OF 2(1), of 2] 2 by (auto simp: w3_def)
  have "pwm_inv (pwm_init_channel 3 w3)"
    using init_channel_ok [OF 3(1), of 3] 3 by (intro pwm_invI) (auto dest!: less_4_cases)
  then show ?thesis by (simp add: w1_def w2_def w3_def)
qed

lemma reg_fields [simp]:
  "pw_period (reg16_set a v m w) = pw_period w" "pw_duty (reg16_set a v m w) = pw_duty w"
  "pw_enabled (reg16_set a v m w) = pw_enabled w"
  "pw_period (writew x a w) = pw_period w" "pw_duty (writew x a w) = pw_duty w"
  "pw_enabled (writew x a w) = pw_enabled w"
  by (simp_all add: reg16_set_def writew_def)

lemma hw_init_shape: "pwm_shape w \<Longrightarrow> pwm_shape (ecap_hw_init b (ecap_hw_init c (ehrpwm1_hw_init w)))"
  by (simp add: pwm_shape_def ecap_hw_init_def ehrpwm1_hw_init_def Let_def)

lemma ctl_regs_apart:
  assumes "i < 4"
  shows "out_addr i \<noteq> EHRPWM1_BASE + TBCTL" "out_addr i \<noteq> ECAP0_BASE + ECAP_ECCTL2"
    "out_addr i \<noteq> ECAP1_BASE + ECAP_ECCTL2"
  using less_4_cases [OF assms] by (auto simp: out_addr_def pwm_consts)

lemma writew_inv:
  assumes "pwm_inv w" "\<And>i. i < 4 \<Longrightarrow> out_addr i \<noteq> a"
  shows "pwm_inv (writew v a w)"
  using assms by (simp add: pwm_inv_def pwm_shape_def list_all_iff pwm_chan_ok_def on_time_def writew_def)

lemma start_channel_inv: "pwm_inv w \<Longrightarrow> pwm_inv (pwm_start_channel m w)" if "0 \<le> m" "m < 4"
proof -
  have "nat m < 4" using that by simp
  then show "pwm_inv w \<Longrightarrow> pwm_inv (pwm_start_channel m w)"
    using maps_base [of "nat m"] ctl_regs_apart
    by (auto simp: pwm_start_channel_def Let_def intro!: writew_inv)
qed

lemma pwm_init_inv:
  assumes "pwm_shape w" "\<not> pw_inited w"
  shows "pwm_inv (snd (ev3_pwm_init (g, w)))"
proof -
  let ?w = "fold pwm_init_channel [0, 1, 2, 3] (ecap_hw_init ECAP1_BASE (ecap_hw_init ECAP0_BASE
    (ehrpwm1_hw_init w)))"
  have "pwm_inv ?w" using assms(1) by (intro init_channels_inv hw_init_shape)
  then have "pwm_inv (reg16_set (EHRPWM1_BASE + TBCTL) 0 3 ?w)"
    unfolding reg16_set_def using ctl_regs_apart by (intro writew_inv) auto
  then have "pwm_inv (fold pwm_start_channel [0, 1, 2, 3] (reg16_set (EHRPWM1_BASE + TBCTL) 0 3 ?w))"
    by (simp add: start_channel_inv)
  then show ?thesis
    using assms(2)
    by (simp add: ev3_pwm_init_def Let_def pwm_inv_def pwm_shape_def list_all_iff pwm_chan_ok_def on_time_def)
qed

section \<open>Percentages\<close>

lemma unat_ucast_u64: "unat (ucast (x::u32) :: u64) = unat x"
proof -
  have "unat x < 2 ^ 32" using unsigned_less [of x, where ?'a = nat] by simp
  then show ?thesis by (simp add: unsigned_ucast_eq take_bit_nat_eq_self)
qed

lemma percent_cycles:
  assumes "per \<le> (0xFFFF :: u32)" "0 \<le> p" "p \<le> 100"
  shows "unat (ucast ((ucast per :: u64) * word_of_int p div 100) :: u32) = unat per * nat p div 100"
    and "unat per * nat p div 100 \<le> unat per"
proof -
  have per: "unat per \<le> 65535" using assms(1) by (simp add: word_le_nat_alt)
  have np: "nat p \<le> 100" using assms(3) by simp
  have p: "unat (word_of_int p :: u64) = nat p"
    using assms(2,3) by (simp add: unat_eq_nat_uint uint_word_of_int)
  have "unat per * nat p \<le> 65535 * 100" using per np by (rule mult_le_mono)
  then have "unat ((ucast per :: u64) * word_of_int p) = unat per * nat p"
    by (simp add: unat_word_ariths unat_ucast_u64 p)
  then have q: "unat ((ucast per :: u64) * word_of_int p div 100) = unat per * nat p div 100"
    by (simp add: unat_div)
  have "unat per * nat p \<le> unat per * 100" using np by (rule mult_le_mono2)
  then show le: "unat per * nat p div 100 \<le> unat per"
    using div_le_mono [of "unat per * nat p" "unat per * 100" 100] by simp
  then have "unat per * nat p div 100 < 2 ^ 32" using per by simp
  then show "unat (ucast ((ucast per :: u64) * word_of_int p div 100) :: u32) = unat per * nat p div 100"
    by (simp add: unsigned_ucast_eq q take_bit_nat_eq_self flip: take_bit_eq_mod)
qed

lemma set_percent_fields:
  assumes "pwm_inv w" "0 \<le> m" "m < 4" "0 \<le> p" "p \<le> 100"
  shows "unat (pw_duty (ev3_pwm_set_percent m p w) ! nat m) = unat (pw_period w ! nat m) * nat p div 100"
    "pw_period (ev3_pwm_set_percent m p w) = pw_period w"
    "pw_enabled (ev3_pwm_set_percent m p w) = pw_enabled w"
    "j \<noteq> nat m \<Longrightarrow> pw_duty (ev3_pwm_set_percent m p w) ! j = pw_duty w ! j"
proof -
  let ?c = "ucast ((ucast (pw_period w ! nat m) :: u64) * word_of_int p div 100) :: u32"
  have i: "nat m < 4" using assms(2,3) by simp
  have len: "length (pw_duty w) = 4" using assms(1) by (simp add: pwm_inv_def pwm_shape_def)
  have per: "pw_period w ! nat m \<le> 0xFFFF" using pwm_inv_chan [OF assms(1) i] by (simp add: pwm_chan_ok_def)
  note c = percent_cycles [OF per assms(4,5)]
  have "\<not> ?c > pw_period w ! nat m" using c by (simp add: word_less_nat_alt)
  then have e: "ev3_pwm_set_percent m p w = pwm_apply_duty m (w\<lparr>pw_duty := (pw_duty w)[nat m := ?c]\<rparr>)"
    using assms by (simp add: ev3_pwm_set_percent_def ev3_pwm_set_duty_def EV3_MOTOR_COUNT_def Let_def)
  then show "unat (pw_duty (ev3_pwm_set_percent m p w) ! nat m) = unat (pw_period w ! nat m) * nat p div 100"
    using i len c(1) by simp
  show "pw_period (ev3_pwm_set_percent m p w) = pw_period w"
    "pw_enabled (ev3_pwm_set_percent m p w) = pw_enabled w"
    "j \<noteq> nat m \<Longrightarrow> pw_duty (ev3_pwm_set_percent m p w) ! j = pw_duty w ! j"
    using e by simp_all
qed

lemma enable_fields [simp]:
  "pw_period (ev3_pwm_enable m e w) = pw_period w" "pw_duty (ev3_pwm_enable m e w) = pw_duty w"
  "0 \<le> m \<Longrightarrow> m < 4 \<Longrightarrow> pw_enabled (ev3_pwm_enable m e w) = (pw_enabled w)[nat m := e]"
  by (simp_all add: ev3_pwm_enable_def EV3_MOTOR_COUNT_def)

lemma percent_self:
  assumes "pwm_inv w" "0 \<le> m" "m < 4" "0 \<le> p" "p \<le> 100"
  shows "unat (on_time (nat m) (ev3_pwm_enable m True (ev3_pwm_set_percent m p w))) =
    unat (pw_period w ! nat m) * nat p div 100"
proof -
  let ?v = "ev3_pwm_enable m True (ev3_pwm_set_percent m p w)"
  have inv: "pwm_inv ?v" using assms(1) by (intro enable_inv set_percent_inv)
  note f = set_percent_fields [OF assms]
  have i: "nat m < 4" using assms(2,3) by simp
  have len: "length (pw_enabled w) = 4" using assms(1) by (simp add: pwm_inv_def pwm_shape_def)
  have "on_time (nat m) ?v = pw_duty ?v ! nat m"
    using pwm_inv_chan [OF inv i] assms(2,3) i len f(3) by (simp add: pwm_chan_ok_def)
  then show ?thesis using f(1) by simp
qed

lemma percent_rest:
  assumes "pwm_inv w" "0 \<le> m" "m < 4" "0 \<le> p" "p \<le> 100" "j < 4" "j \<noteq> nat m"
  shows "on_time j (ev3_pwm_enable m True (ev3_pwm_set_percent m p w)) = on_time j w"
proof -
  have inv: "pwm_inv (ev3_pwm_enable m True (ev3_pwm_set_percent m p w))"
    using assms(1) by (intro enable_inv set_percent_inv)
  show ?thesis
    using pwm_inv_chan [OF inv assms(6)] pwm_inv_chan [OF assms(1,6)] set_percent_fields [OF assms(1-5)] assms
    by (simp add: pwm_chan_ok_def)
qed

text \<open>
  After initialisation every PWM register follows the software state, and driving a motor at a
  percentage programs exactly that share of its period as on-time, rounded down and without
  overflow; the on-times of the three other motors do not change.
\<close>

theorem pwm_percent_exact:
  fixes g :: gpio_state and w0 :: pwm_state
  assumes "pwm_shape w0" "\<not> pw_inited w0" "0 \<le> m" "m < 4" "0 \<le> p" "p \<le> 100"
  defines "w \<equiv> snd (ev3_pwm_init (g, w0))"
  defines "v \<equiv> ev3_pwm_enable m True (ev3_pwm_set_percent m p w)"
  shows "pwm_inv v \<and> unat (on_time (nat m) v) = unat (pw_period w ! nat m) * nat p div 100 \<and>
    (\<forall>j. j < 4 \<and> j \<noteq> nat m \<longrightarrow> on_time j v = on_time j w)"
proof -
  have "pwm_inv w" unfolding w_def using assms(1,2) by (rule pwm_init_inv)
  then show ?thesis
    using assms(3-6) by (simp add: v_def enable_inv set_percent_inv percent_self percent_rest)
qed

definition demo_pwm0 :: pwm_state where
  "demo_pwm0 = \<lparr>pw_period = replicate 4 0, pw_duty = replicate 4 0, pw_enabled = replicate 4 False,
     pw_inited = False, pw_mmio = (\<lambda>_. 0)\<rparr>"

lemma demo_pwm0_ok: "pwm_shape demo_pwm0" "\<not> pw_inited demo_pwm0"
  by (simp_all add: demo_pwm0_def pwm_shape_def)

theorem pwm_percent_exact_witness:
  "unat (on_time 2 (ev3_pwm_enable 2 True (ev3_pwm_set_percent 2 50 (snd (ev3_pwm_init (demo_gpio, demo_pwm0)))))) =
     unat (pw_period (snd (ev3_pwm_init (demo_gpio, demo_pwm0))) ! 2) * 50 div 100"
  using pwm_percent_exact [OF demo_pwm0_ok, of 2 50 demo_gpio] by simp

end
