(* ===== verification/Ev3_Motor.thy ===== *)
theory Ev3_Motor
  imports Ev3_Pwm
begin

text \<open>
  The EV3 motor daemon (\<^verbatim>\<open>src/lego.ev3/system/drivers/motord/motord.c\<close> with \<^verbatim>\<open>arch/ev3/motor.h\<close>): per-port
  state, the tacho interrupt, the command dispatcher behind write, dev\_cntl and the shell interface,
  presence detection and the 200 Hz control step with its speed PID and position cascade. The motors
  act on the GPIO and PWM state of the layers below.

  Every \<^verbatim>\<open>int32_t\<close> computation that can leave the 32-bit range is wrapped with \<open>wrap32\<close>, the result the
  target's arithmetic gives; division truncates (\<open>sdiv\<close>). The clock is an argument. A buffer of
  commands is the list of structs it holds; the reply text of the shell interface is not represented.
\<close>

section \<open>Data\<close>

datatype motor_mode = MOTOR_MODE_IDLE | MOTOR_MODE_DUTY | MOTOR_MODE_SPEED | MOTOR_MODE_POS
  | MOTOR_MODE_HOLD

record motor_state =
  ms_tacho_pin :: int
  ms_dir_pin :: int
  ms_position :: int
  ms_last_level :: bool
  ms_present :: bool
  ms_duty :: int
  ms_running :: bool
  ms_stop_action :: int
  ms_stalled :: bool
  ms_mode :: motor_mode
  ms_target_speed :: int
  ms_target_pos :: int
  ms_meas_speed :: int
  ms_kp :: int
  ms_ki :: int
  ms_kd :: int
  ms_kp_pos :: int
  ms_integ :: int
  ms_prev_err :: int
  ms_hist :: "int list"
  ms_hist_idx :: nat
  ms_stall_pos :: int
  ms_stall_ms :: u64

record motord =
  md_motor :: "motor_state list"
  md_period :: u32
  md_adc_fd :: int
  md_detect_ms :: u64
  md_tacho_irqs :: "(int \<times> int) list"
  md_gpio :: gpio_state
  md_pwm :: pwm_state

record motor_cmd_t =
  mc_cmd :: int
  mc_port :: int
  mc_arg0 :: int
  mc_arg1 :: int
  mc_arg2 :: int

record motor_info =
  mi_present :: bool
  mi_running :: bool
  mi_duty :: int
  mi_position :: int
  mi_speed :: int
  mi_mode :: motor_mode
  mi_target :: int
  mi_stalled :: bool

definition MOTOR_PORT_COUNT :: int where "MOTOR_PORT_COUNT = 4"
definition MOTOR_STOP_COAST :: int where "MOTOR_STOP_COAST = 0"
definition MOTOR_STOP_BRAKE :: int where "MOTOR_STOP_BRAKE = 1"
definition MOTOR_CMD_RUN :: int where "MOTOR_CMD_RUN = 1"
definition MOTOR_CMD_STOP :: int where "MOTOR_CMD_STOP = 2"
definition MOTOR_CMD_SET_DUTY :: int where "MOTOR_CMD_SET_DUTY = 3"
definition MOTOR_CMD_SET_POSITION :: int where "MOTOR_CMD_SET_POSITION = 5"
definition MOTOR_CMD_RUN_AT_SPEED :: int where "MOTOR_CMD_RUN_AT_SPEED = 7"
definition MOTOR_CMD_RUN_TO_POS :: int where "MOTOR_CMD_RUN_TO_POS = 8"
definition MOTOR_CMD_HOLD :: int where "MOTOR_CMD_HOLD = 9"
definition MOTOR_CMD_SET_PID :: int where "MOTOR_CMD_SET_PID = 11"
definition MOTOR_CNTL_COMMAND :: int where "MOTOR_CNTL_COMMAND = 1"
definition MOTOR_CNTL_GET_INFO :: int where "MOTOR_CNTL_GET_INFO = 2"
definition MOTOR_CNTL_GET_ALL :: int where "MOTOR_CNTL_GET_ALL = 3"

definition ADC_MAX_CH :: int where "ADC_MAX_CH = 16"
definition DETECT_MS :: u64 where "DETECT_MS = 200"
definition PIN5_BALANCE_LOW :: u16 where "PIN5_BALANCE_LOW = 2400"
definition PIN5_BALANCE_HIGH :: u16 where "PIN5_BALANCE_HIGH = 2600"
definition PID_SCALE :: int where "PID_SCALE = 1000"
definition PID_DT_MS :: int where "PID_DT_MS = 5"
definition SPEED_WIN :: nat where "SPEED_WIN = 8"
definition PID_I_MAX :: int where "PID_I_MAX = 60000"
definition PID_DUTY_MAX :: int where "PID_DUTY_MAX = 100"
definition SPEED_MAX :: int where "SPEED_MAX = 1200"
definition STALL_DUTY :: int where "STALL_DUTY = 20"
definition STALL_MS :: u64 where "STALL_MS = 300"
definition DEFAULT_KP_SPEED :: int where "DEFAULT_KP_SPEED = 120"
definition DEFAULT_KI_SPEED :: int where "DEFAULT_KI_SPEED = 600"
definition DEFAULT_KD_SPEED :: int where "DEFAULT_KD_SPEED = 5"
definition DEFAULT_KP_POS :: int where "DEFAULT_KP_POS = 8000"

lemmas motor_cmds = MOTOR_CMD_RUN_def MOTOR_CMD_STOP_def MOTOR_CMD_SET_DUTY_def
  MOTOR_CMD_SET_POSITION_def MOTOR_CMD_RUN_AT_SPEED_def MOTOR_CMD_RUN_TO_POS_def MOTOR_CMD_HOLD_def
  MOTOR_CMD_SET_PID_def MOTOR_CNTL_COMMAND_def MOTOR_CNTL_GET_INFO_def MOTOR_CNTL_GET_ALL_def

lemmas motor_consts = MOTOR_PORT_COUNT_def MOTOR_STOP_COAST_def MOTOR_STOP_BRAKE_def ADC_MAX_CH_def
  DETECT_MS_def PIN5_BALANCE_LOW_def PIN5_BALANCE_HIGH_def PID_SCALE_def PID_DT_MS_def SPEED_WIN_def
  PID_I_MAX_def PID_DUTY_MAX_def SPEED_MAX_def STALL_DUTY_def STALL_MS_def DEFAULT_KP_SPEED_def
  DEFAULT_KI_SPEED_def DEFAULT_KD_SPEED_def DEFAULT_KP_POS_def

abbreviation motor :: "motord \<Rightarrow> int \<Rightarrow> motor_state" where
  "motor d port \<equiv> md_motor d ! nat port"

definition mupd :: "int \<Rightarrow> (motor_state \<Rightarrow> motor_state) \<Rightarrow> motord \<Rightarrow> motord" where
  "mupd port f d = d\<lparr>md_motor := (md_motor d)[nat port := f (motor d port)]\<rparr>"

section \<open>Tacho interrupt\<close>

definition tacho_port :: "int \<Rightarrow> u32 \<Rightarrow> int \<Rightarrow> motord \<Rightarrow> motord" where
  "tacho_port ref st i d =
     (let m = motor d i
      in if ms_tacho_pin m < 0 \<or> ms_tacho_pin m div 32 \<noteq> ref div 32 then d
         else if st AND push_bit (nat (ms_tacho_pin m mod 32)) 1 = 0 then d
         else
           let (level, dir) = ev3_output_port_tacho i (md_gpio d)
           in mupd i (\<lambda>m. m\<lparr>ms_last_level := level,
                ms_position := wrap32 (if level \<noteq> dir then ms_position m + 1 else ms_position m - 1)\<rparr>) d)"

definition tacho_irq :: "int \<Rightarrow> motord \<Rightarrow> motord" where
  "tacho_irq ref d =
     (let (st, g) = ev3_gpio_irq_ack ref (md_gpio d); d = d\<lparr>md_gpio := g\<rparr>
      in if st = 0 then d else fold (tacho_port ref st) [0, 1, 2, 3] d)"

definition tacho_irq_setup_port :: "int \<Rightarrow> motord \<Rightarrow> motord" where
  "tacho_irq_setup_port i d =
     (let pin = ms_tacho_pin (motor d i)
      in if pin < 0 then d
         else
           let irq = ev3_gpio_irq_num pin;
               d = (if irq \<in> fst ` set (md_tacho_irqs d) then d
                    else d\<lparr>md_tacho_irqs := md_tacho_irqs d @ [(irq, pin)]\<rparr>)
           in d\<lparr>md_gpio := ev3_gpio_irq_enable pin True True (md_gpio d)\<rparr>)"

definition tacho_irq_setup :: "motord \<Rightarrow> motord" where
  "tacho_irq_setup d = fold tacho_irq_setup_port [0, 1, 2, 3] d"

section \<open>Helpers\<close>

definition parse_port :: "string \<Rightarrow> int" where
  "parse_port s =
     (case s of [] \<Rightarrow> -1
      | ch # _ \<Rightarrow>
          let c = int (of_char ch :: nat);
              c = (if c \<ge> 97 \<and> c \<le> 122 then c - 32 else c)
          in if c \<ge> 65 \<and> c \<le> 68 then c - 65
             else if c \<ge> 48 \<and> c \<le> 51 then c - 48
             else -1)"

definition clamp :: "int \<Rightarrow> int \<Rightarrow> int \<Rightarrow> int" where
  "clamp v lo hi = (if v < lo then lo else if v > hi then hi else v)"

definition set_stop_action :: "int \<Rightarrow> int \<Rightarrow> motord \<Rightarrow> motord" where
  "set_stop_action port action d =
     (if action = MOTOR_STOP_BRAKE \<or> action = MOTOR_STOP_COAST
      then mupd port (\<lambda>m. m\<lparr>ms_stop_action := action\<rparr>) d else d)"

definition apply_duty :: "int \<Rightarrow> int \<Rightarrow> motord \<Rightarrow> motord" where
  "apply_duty port duty d =
     (let duty = clamp duty (- PID_DUTY_MAX) PID_DUTY_MAX;
          d = mupd port (\<lambda>m. m\<lparr>ms_duty := duty\<rparr>) d;
          mag = (if duty < 0 then - duty else duty)
      in if mag = 0 then
           (let d = d\<lparr>md_pwm := ev3_pwm_enable port False (md_pwm d)\<rparr>;
                d = d\<lparr>md_gpio := ev3_output_port_bridge port
                      (if ms_stop_action (motor d port) = MOTOR_STOP_BRAKE then EV3_MOTOR_BRAKE
                       else EV3_MOTOR_COAST) (md_gpio d)\<rparr>
            in mupd port (\<lambda>m. m\<lparr>ms_running := False\<rparr>) d)
         else
           (let d = d\<lparr>md_gpio := ev3_output_port_bridge port
                      (if duty > 0 then EV3_MOTOR_FWD else EV3_MOTOR_REV) (md_gpio d)\<rparr>;
                d = d\<lparr>md_pwm := ev3_pwm_set_percent port mag (md_pwm d)\<rparr>;
                d = d\<lparr>md_pwm := ev3_pwm_enable port True (md_pwm d)\<rparr>
            in mupd port (\<lambda>m. m\<lparr>ms_running := True\<rparr>) d))"

definition reset_pid :: "int \<Rightarrow> u64 \<Rightarrow> motord \<Rightarrow> motord" where
  "reset_pid port now d =
     mupd port (\<lambda>m. m\<lparr>ms_integ := 0, ms_prev_err := 0, ms_stalled := False,
                      ms_stall_pos := ms_position m, ms_stall_ms := now\<rparr>) d"

definition motor_stop :: "int \<Rightarrow> int \<Rightarrow> u64 \<Rightarrow> motord \<Rightarrow> motord" where
  "motor_stop port action now d =
     (let d = set_stop_action port action d;
          d = mupd port (\<lambda>m. m\<lparr>ms_mode := MOTOR_MODE_IDLE\<rparr>) d;
          d = apply_duty port 0 d
      in reset_pid port now d)"

definition motor_run_duty :: "int \<Rightarrow> int \<Rightarrow> int \<Rightarrow> u64 \<Rightarrow> motord \<Rightarrow> motord" where
  "motor_run_duty port duty action now d =
     (let d = set_stop_action port action d;
          d = mupd port (\<lambda>m. m\<lparr>ms_mode := MOTOR_MODE_DUTY\<rparr>) d;
          d = reset_pid port now d
      in apply_duty port duty d)"

definition motor_run_speed :: "int \<Rightarrow> int \<Rightarrow> int \<Rightarrow> u64 \<Rightarrow> motord \<Rightarrow> motord" where
  "motor_run_speed port speed action now d =
     (let d = set_stop_action port action d;
          d = mupd port (\<lambda>m. m\<lparr>ms_target_speed := clamp speed (- SPEED_MAX) SPEED_MAX,
                               ms_mode := MOTOR_MODE_SPEED\<rparr>) d
      in reset_pid port now d)"

definition motor_run_to_pos :: "int \<Rightarrow> int \<Rightarrow> int \<Rightarrow> int \<Rightarrow> u64 \<Rightarrow> motord \<Rightarrow> motord" where
  "motor_run_to_pos port target speed_limit action now d =
     (let d = set_stop_action port action d;
          d = mupd port (\<lambda>m. m\<lparr>ms_target_pos := target,
                ms_target_speed := clamp (if speed_limit \<le> 0 then 300 else speed_limit) 1 SPEED_MAX,
                ms_mode := MOTOR_MODE_POS\<rparr>) d
      in reset_pid port now d)"

definition motor_hold :: "int \<Rightarrow> int \<Rightarrow> u64 \<Rightarrow> motord \<Rightarrow> motord" where
  "motor_hold port action now d =
     (let d = set_stop_action port action d;
          d = mupd port (\<lambda>m. m\<lparr>ms_target_pos := ms_position m, ms_target_speed := SPEED_MAX,
                               ms_mode := MOTOR_MODE_HOLD\<rparr>) d
      in reset_pid port now d)"

definition motor_set_position :: "int \<Rightarrow> int \<Rightarrow> u64 \<Rightarrow> motord \<Rightarrow> motord" where
  "motor_set_position port pos now d =
     (let d = mupd port (\<lambda>m. m\<lparr>ms_position := pos, ms_hist := replicate SPEED_WIN pos\<rparr>) d;
          d = (if ms_mode (motor d port) = MOTOR_MODE_POS \<or> ms_mode (motor d port) = MOTOR_MODE_HOLD
               then mupd port (\<lambda>m. m\<lparr>ms_target_pos := pos\<rparr>) d else d)
      in reset_pid port now d)"

definition motor_set_pid :: "int \<Rightarrow> int \<Rightarrow> int \<Rightarrow> int \<Rightarrow> motord \<Rightarrow> motord" where
  "motor_set_pid port kp ki kd d =
     mupd port (\<lambda>m. m\<lparr>ms_kp := clamp kp 0 100000, ms_ki := clamp ki 0 100000,
                      ms_kd := clamp kd 0 100000, ms_integ := 0\<rparr>) d"

definition fill_info :: "int \<Rightarrow> motord \<Rightarrow> motor_info" where
  "fill_info port d =
     (let m = motor d port
      in \<lparr>mi_present = ms_present m, mi_running = ms_running m, mi_duty = ms_duty m,
          mi_position = ms_position m, mi_speed = ms_meas_speed m, mi_mode = ms_mode m,
          mi_target = (if ms_mode m = MOTOR_MODE_SPEED then ms_target_speed m
                       else if ms_mode m = MOTOR_MODE_POS \<or> ms_mode m = MOTOR_MODE_HOLD
                       then ms_target_pos m else 0),
          mi_stalled = ms_stalled m\<rparr>)"

section \<open>Commands\<close>

definition do_command :: "motor_cmd_t \<Rightarrow> u64 \<Rightarrow> motord \<Rightarrow> int \<times> motord" where
  "do_command c now d =
     (let port = mc_port c
      in if port < 0 \<or> port \<ge> MOTOR_PORT_COUNT then (-1, d)
         else if mc_cmd c = MOTOR_CMD_RUN then (0, motor_run_duty port (mc_arg0 c) (mc_arg1 c) now d)
         else if mc_cmd c = MOTOR_CMD_SET_DUTY then (0, motor_run_duty port (mc_arg0 c) (-1) now d)
         else if mc_cmd c = MOTOR_CMD_STOP then (0, motor_stop port (mc_arg0 c) now d)
         else if mc_cmd c = MOTOR_CMD_SET_POSITION then (0, motor_set_position port (mc_arg0 c) now d)
         else if mc_cmd c = MOTOR_CMD_RUN_AT_SPEED
           then (0, motor_run_speed port (mc_arg0 c) (mc_arg1 c) now d)
         else if mc_cmd c = MOTOR_CMD_RUN_TO_POS
           then (0, motor_run_to_pos port (mc_arg0 c) (mc_arg1 c) (mc_arg2 c) now d)
         else if mc_cmd c = MOTOR_CMD_HOLD then (0, motor_hold port (mc_arg0 c) now d)
         else if mc_cmd c = MOTOR_CMD_SET_PID
           then (0, motor_set_pid port (mc_arg0 c) (mc_arg1 c) (mc_arg2 c) d)
         else (-1, d))"

definition motor_dev_cntl ::
  "int \<Rightarrow> motor_cmd_t \<Rightarrow> u64 \<Rightarrow> motord \<Rightarrow> (int \<times> motor_info list) \<times> motord" where
  "motor_dev_cntl cmd c now d =
     (if cmd = MOTOR_CNTL_COMMAND then (let (res, d) = do_command c now d in ((res, []), d))
      else if cmd = MOTOR_CNTL_GET_INFO then
        (if mc_port c < 0 \<or> mc_port c \<ge> MOTOR_PORT_COUNT then ((-1, []), d)
         else ((0, [fill_info (mc_port c) d]), d))
      else if cmd = MOTOR_CNTL_GET_ALL then ((0, map (\<lambda>i. fill_info i d) [0, 1, 2, 3]), d)
      else ((-1, []), d))"

fun run_batch :: "motor_cmd_t list \<Rightarrow> u64 \<Rightarrow> motord \<Rightarrow> bool \<times> motord" where
  "run_batch [] now d = (True, d)"
| "run_batch (c # cs) now d =
     (let (res, d) = do_command c now d in if res \<noteq> 0 then (False, d) else run_batch cs now d)"

definition motor_write :: "motor_cmd_t list \<Rightarrow> int \<Rightarrow> u64 \<Rightarrow> motord \<Rightarrow> int \<times> motord" where
  "motor_write cs msz now d =
     (if msz < 20 then (-1, d)
      else
        let n = msz div 20; (ok, d) = run_batch (take (nat n) cs) now d
        in if ok then (n * 20, d) else (-1, d))"

definition motor_read :: "int \<Rightarrow> motord \<Rightarrow> int \<times> motor_info list" where
  "motor_read msz d = (min msz 128, map (\<lambda>i. fill_info i d) [0, 1, 2, 3])"

section \<open>Control loop\<close>

definition detect_port :: "u16 list \<Rightarrow> u64 \<Rightarrow> int \<Rightarrow> motord \<Rightarrow> motord" where
  "detect_port adc now i d =
     (let ch = ev3_output_port_adc_channel i
      in if ch < 0 \<or> ch \<ge> ADC_MAX_CH then d
         else
           let mv = adc ! nat ch;
               present = (\<not> (mv \<ge> PIN5_BALANCE_LOW \<and> mv \<le> PIN5_BALANCE_HIGH));
               d = (if ms_present (motor d i) \<and> \<not> present \<and> ms_mode (motor d i) \<noteq> MOTOR_MODE_IDLE
                    then motor_stop i MOTOR_STOP_COAST now d else d)
           in mupd i (\<lambda>m. m\<lparr>ms_present := present\<rparr>) d)"

text \<open>\<open>adc\<close> is the sample read from the ADC device, \<open>None\<close> a short read.\<close>

definition detect_step :: "u16 list option \<Rightarrow> u64 \<Rightarrow> motord \<Rightarrow> motord" where
  "detect_step adc now d =
     (if md_adc_fd d < 0 \<or> now - md_detect_ms d < DETECT_MS then d
      else
        let d = d\<lparr>md_detect_ms := now\<rparr>
        in case adc of None \<Rightarrow> d | Some a \<Rightarrow> fold (detect_port a now) [0, 1, 2, 3] d)"

definition speed_pid :: "int \<Rightarrow> motor_state \<Rightarrow> int \<times> motor_state" where
  "speed_pid setpoint m =
     (let err = wrap32 (setpoint - ms_meas_speed m);
          m = m\<lparr>ms_integ := wrap32 (ms_integ m + wrap32 (err * PID_DT_MS))\<rparr>;
          m = m\<lparr>ms_integ := clamp (ms_integ m) (- PID_I_MAX) PID_I_MAX\<rparr>;
          deriv = wrap32 (wrap32 (err - ms_prev_err m) * 1000) sdiv PID_DT_MS;
          m = m\<lparr>ms_prev_err := err\<rparr>;
          p_term = wrap32 (ms_kp m * err) sdiv PID_SCALE;
          i_term = wrap32 (ms_ki m * (ms_integ m sdiv 1000)) sdiv PID_SCALE;
          d_term = wrap32 (ms_kd m * (deriv sdiv 1000)) sdiv PID_SCALE
      in (clamp (wrap32 (wrap32 (p_term + i_term) + d_term)) (- PID_DUTY_MAX) PID_DUTY_MAX, m))"

text \<open>The parts of \<^verbatim>\<open>control_step\<close>: speed measurement, stall detection, the position cascade and the
  regulation that uses it.\<close>

definition measure_speed :: "motor_state \<Rightarrow> motor_state" where
  "measure_speed m =
     (let pos = ms_position m; old = ms_hist m ! ms_hist_idx m;
          m = m\<lparr>ms_hist := (ms_hist m)[ms_hist_idx m := pos],
                ms_hist_idx := (ms_hist_idx m + 1) mod SPEED_WIN\<rparr>;
          inst = wrap32 (wrap32 (pos - old) * 1000) sdiv (PID_DT_MS * int SPEED_WIN)
      in m\<lparr>ms_meas_speed := wrap32 (wrap32 (ms_meas_speed m * 3) + inst) sdiv 4\<rparr>)"

definition detect_stall :: "u64 \<Rightarrow> motor_state \<Rightarrow> motor_state" where
  "detect_stall now m =
     (let pos = ms_position m
      in if ms_running m \<and> (ms_duty m \<ge> STALL_DUTY \<or> ms_duty m \<le> - STALL_DUTY) then
           (if pos \<noteq> ms_stall_pos m
            then m\<lparr>ms_stall_pos := pos, ms_stall_ms := now, ms_stalled := False\<rparr>
            else if now - ms_stall_ms m \<ge> STALL_MS then m\<lparr>ms_stalled := True\<rparr> else m)
         else m\<lparr>ms_stall_pos := pos, ms_stall_ms := now, ms_stalled := False\<rparr>)"

definition cascade :: "motor_state \<Rightarrow> int" where
  "cascade m =
     (let perr = wrap32 (ms_target_pos m - ms_position m);
          sp = wrap32 (ms_kp_pos m * perr) sdiv PID_SCALE
      in clamp sp (- ms_target_speed m) (ms_target_speed m))"

definition regulate :: "int \<Rightarrow> motord \<Rightarrow> motord" where
  "regulate port d =
     (let m = motor d port; pos = ms_position m
      in if ms_mode m = MOTOR_MODE_IDLE \<or> ms_mode m = MOTOR_MODE_DUTY then d
         else if ms_mode m = MOTOR_MODE_SPEED then
           (let (duty, m) = speed_pid (ms_target_speed m) m
            in apply_duty port duty (mupd port (\<lambda>_. m) d))
         else
           let perr = wrap32 (ms_target_pos m - pos);
               sp = cascade m;
               m = (if ms_mode m = MOTOR_MODE_POS \<and> perr > -2 \<and> perr < 2 \<and>
                       ms_meas_speed m > -30 \<and> ms_meas_speed m < 30
                    then m\<lparr>ms_mode := MOTOR_MODE_HOLD, ms_target_speed := SPEED_MAX\<rparr> else m)
           in if ms_mode m = MOTOR_MODE_HOLD \<and> perr = 0 \<and> ms_meas_speed m = 0 \<and> ms_integ m = 0
              then apply_duty port 0 (mupd port (\<lambda>_. m) d)
              else let (duty, m) = speed_pid sp m in apply_duty port duty (mupd port (\<lambda>_. m) d))"

definition control_step :: "u64 \<Rightarrow> int \<Rightarrow> motord \<Rightarrow> motord" where
  "control_step now port d = regulate port (mupd port (\<lambda>m. detect_stall now (measure_speed m)) d)"

definition motor_loop :: "u16 list option \<Rightarrow> u64 \<Rightarrow> motord \<Rightarrow> motord" where
  "motor_loop adc now d = fold (control_step now) [0, 1, 2, 3] (detect_step adc now d)"

section \<open>Shell interface\<close>

definition motor_cmd :: "string list \<Rightarrow> u64 \<Rightarrow> motord \<Rightarrow> motord" where
  "motor_cmd argv now d =
     (let argc = length argv in
      if argc = 0 then d
      else
        let op = argv ! 0;
            port = (if argc > 1 then parse_port (argv ! 1) else -1)
        in if op = ''info'' then d
           else if port < 0 then d
           else if op = ''run'' \<or> op = ''duty'' then
             motor_run_duty port (if argc > 2 then atoi (argv ! 2) else 50) (-1) now d
           else if op = ''stop'' then
             motor_stop port (if argc > 2 \<and> argv ! 2 = ''brake'' then MOTOR_STOP_BRAKE
                              else MOTOR_STOP_COAST) now d
           else if op = ''reset'' then motor_set_position port 0 now d
           else if op = ''speed'' then
             (if argc > 2 then motor_run_speed port (atoi (argv ! 2)) (-1) now d else d)
           else if op = ''pos'' then d
           else if op = ''hold'' then motor_hold port (-1) now d
           else if op = ''goto'' \<and> argc > 2 then
             motor_run_to_pos port (atoi (argv ! 2)) (if argc > 3 then atoi (argv ! 3) else 300) (-1) now d
           else if op = ''pid'' \<and> argc > 4 then
             motor_set_pid port (atoi (argv ! 2)) (atoi (argv ! 3)) (atoi (argv ! 4)) d
           else d)"

section \<open>Start-up\<close>

definition motor_zero :: motor_state where
  "motor_zero =
     \<lparr>ms_tacho_pin = 0, ms_dir_pin = 0, ms_position = 0, ms_last_level = False, ms_present = False,
      ms_duty = 0, ms_running = False, ms_stop_action = 0, ms_stalled = False,
      ms_mode = MOTOR_MODE_IDLE, ms_target_speed = 0, ms_target_pos = 0, ms_meas_speed = 0,
      ms_kp = 0, ms_ki = 0, ms_kd = 0, ms_kp_pos = 0, ms_integ = 0, ms_prev_err = 0,
      ms_hist = replicate SPEED_WIN 0, ms_hist_idx = 0, ms_stall_pos = 0, ms_stall_ms = 0\<rparr>"

definition init_port :: "u64 \<Rightarrow> int \<Rightarrow> motord \<Rightarrow> motord" where
  "init_port now i d =
     (let d = d\<lparr>md_gpio := ev3_output_port_init i (md_gpio d)\<rparr>;
          (tp, dp) = ev3_output_port_tacho_pins i;
          d = mupd i (\<lambda>m. m\<lparr>ms_tacho_pin := tp, ms_dir_pin := dp, ms_kp := DEFAULT_KP_SPEED,
                            ms_ki := DEFAULT_KI_SPEED, ms_kd := DEFAULT_KD_SPEED,
                            ms_kp_pos := DEFAULT_KP_POS, ms_stop_action := MOTOR_STOP_COAST\<rparr>) d;
          d = d\<lparr>md_pwm := ev3_pwm_set_period i (md_period d) (md_pwm d)\<rparr>
      in motor_stop i MOTOR_STOP_COAST now d)"

text \<open>\<^verbatim>\<open>main\<close> up to the device loop: \<open>period\<close> is the option of the command line, \<open>fd\<close> the result of opening
  the ADC.\<close>

definition motord_init :: "u32 \<Rightarrow> int \<Rightarrow> u64 \<Rightarrow> gpio_state \<Rightarrow> pwm_state \<Rightarrow> motord" where
  "motord_init period fd now g w =
     (let (g, w) = ev3_pwm_init (g, w);
          d = \<lparr>md_motor = replicate 4 motor_zero, md_period = period, md_adc_fd = -1,
               md_detect_ms = 0, md_tacho_irqs = [], md_gpio = g, md_pwm = w\<rparr>;
          d = fold (init_port now) [0, 1, 2, 3] d;
          d = tacho_irq_setup d
      in d\<lparr>md_adc_fd := fd, md_detect_ms := 0\<rparr>)"

end
