(* ===== verification/Ev3_Motor_Props.thy ===== *)
theory Ev3_Motor_Props
  imports Ev3_Motor
begin

text \<open>
  What the motor daemon guarantees: in every state its commands, its interrupt and its control loop
  can reach, the duty is within bounds, an idle motor is unpowered and the H-bridge and PWM registers
  show the duty the software reports; commands touch only their own port; the controller computes the
  intended value for every plausible motion, an unplugged motor is cut off, a stall is reported after
  300 ms. It also shows where the position cascade overflows.
\<close>

section \<open>Invariant\<close>

definition ctl_inv :: "motor_state \<Rightarrow> bool" where
  "ctl_inv m \<longleftrightarrow> (ms_stop_action m = 0 \<or> ms_stop_action m = 1) \<and>
     0 \<le> ms_kp m \<and> ms_kp m \<le> 100000 \<and> 0 \<le> ms_ki m \<and> ms_ki m \<le> 100000 \<and>
     0 \<le> ms_kd m \<and> ms_kd m \<le> 100000 \<and> ms_kp_pos m = 8000 \<and>
     \<bar>ms_integ m\<bar> \<le> 60000 \<and> length (ms_hist m) = 8 \<and> ms_hist_idx m < 8 \<and>
     \<bar>ms_target_speed m\<bar> \<le> 1200 \<and>
     (ms_mode m = MOTOR_MODE_POS \<or> ms_mode m = MOTOR_MODE_HOLD \<longrightarrow> 1 \<le> ms_target_speed m)"

definition drive_inv :: "motor_state \<Rightarrow> bool" where
  "drive_inv m \<longleftrightarrow> \<bar>ms_duty m\<bar> \<le> 100 \<and> (ms_running m \<longleftrightarrow> ms_duty m \<noteq> 0) \<and>
     (ms_mode m = MOTOR_MODE_IDLE \<longrightarrow> ms_duty m = 0)"

text \<open>The H-bridge and the PWM of a port show a duty.\<close>

definition hw_shows :: "int \<Rightarrow> int \<Rightarrow> gpio_state \<Rightarrow> pwm_state \<Rightarrow> bool" where
  "hw_shows port duty g w \<longleftrightarrow>
     (if duty > 0 then bridge_is port EV3_MOTOR_FWD g
      else if duty < 0 then bridge_is port EV3_MOTOR_REV g
      else bridge_is port EV3_MOTOR_COAST g \<or> bridge_is port EV3_MOTOR_BRAKE g) \<and>
     unat (on_time (nat port) w) = unat (pw_period w ! nat port) * nat \<bar>duty\<bar> div 100"

definition port_inv :: "motord \<Rightarrow> int \<Rightarrow> bool" where
  "port_inv d i \<longleftrightarrow> ctl_inv (motor d i) \<and> drive_inv (motor d i) \<and>
     hw_shows i (ms_duty (motor d i)) (md_gpio d) (md_pwm d)"

definition base_inv :: "motord \<Rightarrow> bool" where
  "base_inv d \<longleftrightarrow> length (md_motor d) = 4 \<and> gpio_inv (md_gpio d) \<and> pwm_inv (md_pwm d)"

abbreviation is_port :: "int \<Rightarrow> bool" where
  "is_port i \<equiv> 0 \<le> i \<and> i < 4"

lemma is_port_nat: "is_port i \<Longrightarrow> nat i < 4"
  by auto

lemma is_port_out: "is_port i \<Longrightarrow> out_ok i"
  by (simp add: out_ok_def EV3_OUT_PORT_COUNT_def)

text \<open>The invariant for the ports of a set, and with the hardware of port \<open>p\<close> still to be set.\<close>

definition ok_on :: "int set \<Rightarrow> motord \<Rightarrow> bool" where
  "ok_on S d \<longleftrightarrow> base_inv d \<and> (\<forall>i. is_port i \<and> i \<in> S \<longrightarrow> port_inv d i)"

definition pre_inv :: "int set \<Rightarrow> int \<Rightarrow> motord \<Rightarrow> bool" where
  "pre_inv S p d \<longleftrightarrow> base_inv d \<and> ctl_inv (motor d p) \<and> (\<forall>i. is_port i \<and> i \<in> S \<and> i \<noteq> p \<longrightarrow> port_inv d i)"

abbreviation motord_inv :: "motord \<Rightarrow> bool" where
  "motord_inv \<equiv> ok_on UNIV"

lemma motord_pre: "ok_on S d \<Longrightarrow> is_port p \<Longrightarrow> p \<in> S \<Longrightarrow> pre_inv S p d"
  by (simp add: ok_on_def pre_inv_def port_inv_def)

lemma clamp_bounds: "lo \<le> hi \<Longrightarrow> lo \<le> clamp v lo hi \<and> clamp v lo hi \<le> hi"
  by (simp add: clamp_def)

lemma abs_clamp: "0 \<le> k \<Longrightarrow> \<bar>clamp v (- k) k\<bar> \<le> k"
  by (simp add: clamp_def abs_le_iff)

lemma clamp_zero [simp]: "clamp 0 (- PID_DUTY_MAX) PID_DUTY_MAX = 0"
  by (simp add: clamp_def PID_DUTY_MAX_def)

lemma mupd_base [simp]: "base_inv (mupd p f d) = base_inv d"
  by (simp add: base_inv_def mupd_def)

lemma mupd_fields [simp]:
  "md_gpio (mupd p f d) = md_gpio d" "md_pwm (mupd p f d) = md_pwm d" "md_adc_fd (mupd p f d) = md_adc_fd d"
  "md_detect_ms (mupd p f d) = md_detect_ms d"
  by (simp_all add: mupd_def)

lemma motor_mupd:
  assumes "base_inv d" "is_port p" "is_port i"
  shows "motor (mupd p f d) i = (if i = p then f (motor d p) else motor d i)"
proof -
  have "nat p < length (md_motor d)" using assms(1) is_port_nat [OF assms(2)] by (simp add: base_inv_def)
  moreover have "nat p = nat i \<longleftrightarrow> i = p" using assms(2,3) by auto
  ultimately show ?thesis by (simp add: mupd_def nth_list_update)
qed

lemma motor_mupd_self [simp]: "base_inv d \<Longrightarrow> is_port p \<Longrightarrow> motor (mupd p f d) p = f (motor d p)"
  by (simp add: motor_mupd)

lemma port_inv_other:
  assumes "base_inv d" "is_port p" "is_port i" "i \<noteq> p"
  shows "port_inv (mupd p f d) i = port_inv d i"
  using assms by (simp add: port_inv_def motor_mupd)

lemma mupd_pre:
  assumes "pre_inv S p d" "is_port p" "ctl_inv (f (motor d p))"
  shows "pre_inv S p (mupd p f d)"
  using assms by (auto simp: pre_inv_def port_inv_other)

lemma mupd_inv:
  assumes "ok_on S d" "is_port p" "p \<in> S" "ctl_inv (f (motor d p))" "ms_duty (f (motor d p)) = ms_duty (motor d p)"
    "ms_running (f (motor d p)) = ms_running (motor d p)"
    "ms_mode (f (motor d p)) = MOTOR_MODE_IDLE \<Longrightarrow> ms_mode (motor d p) = MOTOR_MODE_IDLE"
  shows "ok_on S (mupd p f d)"
proof -
  have b: "base_inv d" and p: "port_inv d p" using assms(1-3) by (auto simp: ok_on_def)
  have "port_inv (mupd p f d) p"
    using p assms(2,4-) b by (auto simp: port_inv_def drive_inv_def)
  then show ?thesis
    using assms(1,2) b port_inv_other [OF b assms(2)] by (auto simp: ok_on_def)
qed

subsection \<open>Driving a port\<close>

lemma hw_other_bridge:
  assumes "gpio_inv g" "is_port p" "is_port i" "i \<noteq> p"
  shows "hw_shows i x (ev3_output_port_bridge p st g) w = hw_shows i x g w"
  using bridge_other_port [OF assms(1) is_port_out is_port_out] assms(2-4) by (simp add: hw_shows_def)

lemma hw_other_pwm:
  assumes "pwm_inv w" "is_port p" "is_port i" "i \<noteq> p" "0 \<le> pc" "pc \<le> 100"
  shows "hw_shows i x g (ev3_pwm_enable p True (ev3_pwm_set_percent p pc w)) = hw_shows i x g w"
    and "hw_shows i x g (ev3_pwm_enable p False w) = hw_shows i x g w"
proof -
  have ij: "nat i < 4" "nat i \<noteq> nat p" using assms(2-4) by auto
  show "hw_shows i x g (ev3_pwm_enable p True (ev3_pwm_set_percent p pc w)) = hw_shows i x g w"
    using percent_rest [OF assms(1), of p pc] set_percent_fields(2) [OF assms(1), of p pc] assms ij
    by (simp add: hw_shows_def)
  have "pwm_inv (ev3_pwm_enable p False w)" using assms(1) by (rule enable_inv)
  then have "on_time (nat i) (ev3_pwm_enable p False w) = on_time (nat i) w"
    using pwm_inv_chan [OF assms(1) ij(1)] pwm_inv_chan [of "ev3_pwm_enable p False w" "nat i"] ij assms(2)
    by (simp add: pwm_chan_ok_def)
  then show "hw_shows i x g (ev3_pwm_enable p False w) = hw_shows i x g w"
    by (simp add: hw_shows_def)
qed

lemma disabled_on_time:
  assumes "pwm_inv w" "is_port p"
  shows "on_time (nat p) (ev3_pwm_enable p False w) = 0"
proof -
  have "pwm_inv (ev3_pwm_enable p False w)" using assms(1) by (rule enable_inv)
  then have "pwm_chan_ok (ev3_pwm_enable p False w) (nat p)"
    using is_port_nat [OF assms(2)] by (rule pwm_inv_chan)
  moreover have "length (pw_enabled w) = 4" using assms(1) by (simp add: pwm_inv_def pwm_shape_def)
  ultimately show ?thesis using assms(2) is_port_nat [OF assms(2)] by (simp add: pwm_chan_ok_def)
qed

text \<open>The two arms of \<open>apply_duty\<close> as one update of motor, bridge and PWM.\<close>

lemma apply_duty_eq:
  fixes duty :: int
  assumes "base_inv d" "is_port p"
  defines "x \<equiv> clamp duty (- 100) 100"
  shows "apply_duty p duty d =
    (mupd p (\<lambda>m. m\<lparr>ms_duty := x, ms_running := (x \<noteq> 0)\<rparr>) d)
      \<lparr>md_gpio := ev3_output_port_bridge p
          (if x > 0 then EV3_MOTOR_FWD else if x < 0 then EV3_MOTOR_REV
           else if ms_stop_action (motor d p) = MOTOR_STOP_BRAKE then EV3_MOTOR_BRAKE else EV3_MOTOR_COAST)
          (md_gpio d),
       md_pwm := (if x = 0 then ev3_pwm_enable p False (md_pwm d)
          else ev3_pwm_enable p True (ev3_pwm_set_percent p \<bar>x\<bar> (md_pwm d)))\<rparr>"
proof -
  have "nat p < length (md_motor d)" using assms(1) is_port_nat [OF assms(2)] by (simp add: base_inv_def)
  then show ?thesis
    by (auto simp: apply_duty_def x_def mupd_def Let_def PID_DUTY_MAX_def)
qed

lemma apply_duty_inv:
  assumes "pre_inv S p d" "is_port p" "ms_mode (motor d p) = MOTOR_MODE_IDLE \<Longrightarrow> duty = 0"
  shows "ok_on (insert p S) (apply_duty p duty d)"
proof -
  define x where "x = clamp duty (- 100) 100"
  have x: "\<bar>x\<bar> \<le> 100" using clamp_bounds [of "-100" 100 duty] by (simp add: x_def abs_le_iff)
  have b: "base_inv d" "gpio_inv (md_gpio d)" "pwm_inv (md_pwm d)" "ctl_inv (motor d p)"
    using assms(1) by (auto simp: pre_inv_def base_inv_def)
  define e where "e = mupd p (\<lambda>m. m\<lparr>ms_duty := x, ms_running := (x \<noteq> 0)\<rparr>) d"
  define st where "st = (if x > 0 then EV3_MOTOR_FWD else if x < 0 then EV3_MOTOR_REV
     else if ms_stop_action (motor d p) = MOTOR_STOP_BRAKE then EV3_MOTOR_BRAKE else EV3_MOTOR_COAST)"
  define w where "w = (if x = 0 then ev3_pwm_enable p False (md_pwm d)
     else ev3_pwm_enable p True (ev3_pwm_set_percent p \<bar>x\<bar> (md_pwm d)))"
  have eq: "apply_duty p duty d = e\<lparr>md_gpio := ev3_output_port_bridge p st (md_gpio d), md_pwm := w\<rparr>"
    using apply_duty_eq [OF b(1) assms(2), of duty] by (simp add: e_def st_def w_def x_def)
  have w: "pwm_inv w" using b(3) by (simp add: w_def enable_inv set_percent_inv)
  have e: "motor e p = (motor d p)\<lparr>ms_duty := x, ms_running := (x \<noteq> 0)\<rparr>"
    "\<And>i. is_port i \<Longrightarrow> i \<noteq> p \<Longrightarrow> motor e i = motor d i"
    using b(1) assms(2) by (simp_all add: e_def motor_mupd)
  have "unat (on_time (nat p) w) = unat (pw_period w ! nat p) * nat \<bar>x\<bar> div 100"
    using percent_self [OF b(3), of p "\<bar>x\<bar>"] set_percent_fields(2) [OF b(3), of p "\<bar>x\<bar>"]
      disabled_on_time [OF b(3) assms(2)] x assms(2) by (simp add: w_def)
  then have "hw_shows p x (ev3_output_port_bridge p st (md_gpio d)) w"
    using bridge_sets [OF b(2) is_port_out [OF assms(2)], of st]
    by (auto simp: hw_shows_def st_def split: if_splits)
  moreover have "duty = 0 \<Longrightarrow> x = 0" by (simp add: x_def clamp_def)
  ultimately have "port_inv (apply_duty p duty d) p"
    using b(4) x assms(3) e(1) by (auto simp: port_inv_def drive_inv_def eq ctl_inv_def)
  moreover have "port_inv (apply_duty p duty d) i" if "is_port i" "i \<noteq> p" "i \<in> S" for i
  proof -
    have "hw_shows i y (ev3_output_port_bridge p st (md_gpio d)) w = hw_shows i y (md_gpio d) (md_pwm d)" for y
      using hw_other_bridge [OF b(2) assms(2) that(1,2)] hw_other_pwm [OF b(3) assms(2) that(1,2) abs_ge_zero x]
      by (simp add: w_def)
    moreover have "port_inv d i" using assms(1) that by (simp add: pre_inv_def)
    ultimately show ?thesis using e(2) [OF that(1,2)] by (simp add: port_inv_def eq)
  qed
  moreover have "base_inv (apply_duty p duty d)"
    using b(1) w by (auto simp: base_inv_def eq e_def mupd_def)
  ultimately show ?thesis by (auto simp: ok_on_def)
qed

subsection \<open>Commands\<close>

lemma clamp_pos: "clamp (if s \<le> 0 then 300 else s) 1 1200 \<ge> 1 \<and> clamp (if s \<le> 0 then 300 else s) 1 1200 \<le> 1200"
  by (auto simp: clamp_def)

lemma ctl_inv_frame [simp]:
  "ctl_inv (m\<lparr>ms_target_pos := v\<rparr>) = ctl_inv m" "ctl_inv (m\<lparr>ms_position := v\<rparr>) = ctl_inv m"
  "ctl_inv (m\<lparr>ms_present := b\<rparr>) = ctl_inv m" "ctl_inv (m\<lparr>ms_meas_speed := v\<rparr>) = ctl_inv m"
  "ctl_inv (m\<lparr>ms_stalled := b\<rparr>) = ctl_inv m" "ctl_inv (m\<lparr>ms_stall_pos := v\<rparr>) = ctl_inv m"
  "ctl_inv (m\<lparr>ms_stall_ms := t\<rparr>) = ctl_inv m" "ctl_inv (m\<lparr>ms_prev_err := v\<rparr>) = ctl_inv m"
  "ctl_inv (m\<lparr>ms_last_level := b\<rparr>) = ctl_inv m" "ctl_inv (m\<lparr>ms_duty := v\<rparr>) = ctl_inv m"
  "ctl_inv (m\<lparr>ms_running := b\<rparr>) = ctl_inv m"
  by (simp_all add: ctl_inv_def)

lemma ctl_inv_mode:
  "ctl_inv m \<Longrightarrow> ctl_inv (m\<lparr>ms_mode := MOTOR_MODE_IDLE\<rparr>)" "ctl_inv m \<Longrightarrow> ctl_inv (m\<lparr>ms_mode := MOTOR_MODE_DUTY\<rparr>)"
  by (simp_all add: ctl_inv_def)

lemma ok_ctl: "ok_on S d \<Longrightarrow> is_port p \<Longrightarrow> p \<in> S \<Longrightarrow> ctl_inv (motor d p)"
  by (simp add: ok_on_def port_inv_def)

lemma set_stop_action_inv: "ok_on S d \<Longrightarrow> is_port p \<Longrightarrow> p \<in> S \<Longrightarrow> ok_on S (set_stop_action p a d)"
  using ok_ctl [of S d p] mupd_inv [of S d p "\<lambda>m. m\<lparr>ms_stop_action := a\<rparr>"]
  by (cases "a = 0 \<or> a = 1") (simp_all add: set_stop_action_def ctl_inv_def motor_consts)

lemma reset_pid_inv: "ok_on S d \<Longrightarrow> is_port p \<Longrightarrow> p \<in> S \<Longrightarrow> ok_on S (reset_pid p now d)"
  unfolding reset_pid_def using ok_ctl [of S d p] by (intro mupd_inv) (simp_all add: ctl_inv_def)

lemma motor_stop_inv:
  assumes "ok_on S d" "is_port p" "p \<in> S"
  shows "ok_on S (motor_stop p a now d)"
proof -
  let ?d = "set_stop_action p a d"
  have 1: "ok_on S ?d" using assms by (rule set_stop_action_inv)
  have "pre_inv S p (mupd p (\<lambda>m. m\<lparr>ms_mode := MOTOR_MODE_IDLE\<rparr>) ?d)"
    using motord_pre [OF 1 assms(2,3)] ok_ctl [OF 1 assms(2,3)] assms(2)
    by (intro mupd_pre) (simp_all add: ctl_inv_mode)
  then have "ok_on (insert p S) (apply_duty p 0 (mupd p (\<lambda>m. m\<lparr>ms_mode := MOTOR_MODE_IDLE\<rparr>) ?d))"
    using assms(2) by (intro apply_duty_inv) auto
  with assms show ?thesis by (simp add: motor_stop_def reset_pid_inv insert_absorb)
qed

lemma mode_inv:
  assumes "ok_on S d" "is_port p" "p \<in> S" "ctl_inv (f (motor d p))" "ms_duty (f (motor d p)) = ms_duty (motor d p)"
    "ms_running (f (motor d p)) = ms_running (motor d p)" "ms_mode (f (motor d p)) \<noteq> MOTOR_MODE_IDLE"
  shows "ok_on S (mupd p f d)" "ms_mode (motor (mupd p f d) p) \<noteq> MOTOR_MODE_IDLE"
proof -
  have "base_inv d" using assms(1) by (simp add: ok_on_def)
  then show "ms_mode (motor (mupd p f d) p) \<noteq> MOTOR_MODE_IDLE" using assms(2,7) by simp
  show "ok_on S (mupd p f d)" using assms by (intro mupd_inv) auto
qed

lemma reset_pid_mode: "base_inv d \<Longrightarrow> is_port p \<Longrightarrow> ms_mode (motor (reset_pid p now d) p) = ms_mode (motor d p)"
  by (simp add: reset_pid_def)

lemma motor_run_duty_inv:
  assumes "ok_on S d" "is_port p" "p \<in> S"
  shows "ok_on S (motor_run_duty p duty a now d)"
proof -
  let ?d = "set_stop_action p a d" and ?f = "\<lambda>m::motor_state. m\<lparr>ms_mode := MOTOR_MODE_DUTY\<rparr>"
  have 1: "ok_on S ?d" using assms by (rule set_stop_action_inv)
  have 2: "ok_on S (mupd p ?f ?d)" "ms_mode (motor (mupd p ?f ?d) p) \<noteq> MOTOR_MODE_IDLE"
    using mode_inv [OF 1 assms(2,3), of ?f] ok_ctl [OF 1 assms(2,3)] by (simp_all add: ctl_inv_mode)
  have 3: "ok_on S (reset_pid p now (mupd p ?f ?d))" using 2(1) assms(2,3) by (rule reset_pid_inv)
  have "ms_mode (motor (reset_pid p now (mupd p ?f ?d)) p) \<noteq> MOTOR_MODE_IDLE"
    using 2 assms(2) by (simp add: reset_pid_mode ok_on_def)
  then have "ok_on (insert p S) (apply_duty p duty (reset_pid p now (mupd p ?f ?d)))"
    using motord_pre [OF 3 assms(2,3)] assms(2) by (intro apply_duty_inv) auto
  with assms(3) show ?thesis by (simp add: motor_run_duty_def Let_def insert_absorb)
qed

lemma motor_run_speed_inv:
  assumes "ok_on S d" "is_port p" "p \<in> S"
  shows "ok_on S (motor_run_speed p v a now d)"
proof -
  have 1: "ok_on S (set_stop_action p a d)" using assms by (rule set_stop_action_inv)
  show ?thesis
    using ok_ctl [OF 1 assms(2,3)] 1 assms clamp_bounds [of "- 1200" 1200 v]
    unfolding motor_run_speed_def Let_def SPEED_MAX_def
    by (intro reset_pid_inv mode_inv(1)) (simp_all add: ctl_inv_def abs_le_iff)
qed

lemma motor_run_to_pos_inv:
  assumes "ok_on S d" "is_port p" "p \<in> S"
  shows "ok_on S (motor_run_to_pos p v s a now d)"
proof -
  have 1: "ok_on S (set_stop_action p a d)" using assms by (rule set_stop_action_inv)
  show ?thesis
    using ok_ctl [OF 1 assms(2,3)] 1 assms clamp_pos [of s]
    unfolding motor_run_to_pos_def Let_def SPEED_MAX_def
    by (intro reset_pid_inv mode_inv(1)) (simp_all add: ctl_inv_def)
qed

lemma motor_hold_inv:
  assumes "ok_on S d" "is_port p" "p \<in> S"
  shows "ok_on S (motor_hold p a now d)"
proof -
  have 1: "ok_on S (set_stop_action p a d)" using assms by (rule set_stop_action_inv)
  show ?thesis
    using ok_ctl [OF 1 assms(2,3)] 1 assms
    unfolding motor_hold_def Let_def SPEED_MAX_def
    by (intro reset_pid_inv mode_inv(1)) (simp_all add: ctl_inv_def)
qed

lemma motor_set_position_inv:
  assumes "ok_on S d" "is_port p" "p \<in> S"
  shows "ok_on S (motor_set_position p v now d)"
proof -
  let ?f = "\<lambda>m. m\<lparr>ms_position := v, ms_hist := replicate SPEED_WIN v\<rparr>"
  have 1: "ok_on S (mupd p ?f d)"
    using ok_ctl [OF assms] assms by (intro mupd_inv) (simp_all add: ctl_inv_def SPEED_WIN_def)
  moreover have "ok_on S (mupd p (\<lambda>m. m\<lparr>ms_target_pos := v\<rparr>) (mupd p ?f d))"
    by (rule mupd_inv [OF 1 assms(2,3)]) (use ok_ctl [OF 1 assms(2,3)] in simp_all)
  ultimately show ?thesis
    using assms by (simp add: motor_set_position_def Let_def reset_pid_inv)
qed

lemma motor_set_pid_inv:
  assumes "ok_on S d" "is_port p" "p \<in> S"
  shows "ok_on S (motor_set_pid p kp ki kd d)"
  using ok_ctl [OF assms] assms clamp_bounds [of 0 100000] unfolding motor_set_pid_def
  by (intro mupd_inv) (simp_all add: ctl_inv_def)

lemmas command_invs = motor_stop_inv motor_run_duty_inv motor_run_speed_inv motor_run_to_pos_inv
  motor_hold_inv motor_set_position_inv motor_set_pid_inv

lemma do_command_inv: "motord_inv d \<Longrightarrow> motord_inv (snd (do_command c now d))"
  by (simp add: do_command_def Let_def MOTOR_PORT_COUNT_def command_invs)

lemma run_batch_inv: "motord_inv d \<Longrightarrow> motord_inv (snd (run_batch cs now d))"
proof (induction cs now d rule: run_batch.induct)
  case (2 c cs now d)
  then show ?case using do_command_inv [of d c now] by (auto split: prod.split)
qed simp

lemma port_letter: "(if 65 \<le> x \<and> x \<le> 68 then x - 65 else if 48 \<le> x \<and> x \<le> 51 then x - 48 else -1) < (4::int)"
  by auto

lemma parse_port_range: "parse_port s < 4"
proof (cases s)
  case (Cons ch r)
  then show ?thesis
    unfolding parse_port_def Let_def by (simp only: list.case) (rule port_letter)
qed (simp add: parse_port_def)

lemma ok_if: "(c \<Longrightarrow> ok_on S a) \<Longrightarrow> (\<not> c \<Longrightarrow> ok_on S b) \<Longrightarrow> ok_on S (if c then a else b)"
  by simp

lemma motor_cmd_inv:
  assumes "motord_inv d"
  shows "motord_inv (motor_cmd argv now d)"
proof -
  define port where "port = (if length argv > 1 then parse_port (argv ! 1) else -1)"
  have port: "is_port port" if "\<not> port < 0"
    using that parse_port_range [of "argv ! 1"] by (simp add: port_def split: if_splits)
  show ?thesis
    unfolding motor_cmd_def Let_def port_def [symmetric]
    by (intro ok_if command_invs assms port UNIV_I)
qed

subsection \<open>Interrupt and control loop\<close>

lemma base_pins:
  assumes "\<And>q. pin_level g' q = pin_level g q" "\<And>q. pin_is_output g' q = pin_is_output g q"
  shows "hw_shows i x g' w = hw_shows i x g w"
  using assms by (simp add: hw_shows_def bridge_is_def)

lemma gpio_inv_change:
  assumes "ok_on S d" "gpio_inv g'" "\<And>q. pin_level g' q = pin_level (md_gpio d) q"
    "\<And>q. pin_is_output g' q = pin_is_output (md_gpio d) q"
  shows "ok_on S (d\<lparr>md_gpio := g'\<rparr>)"
  using assms base_pins [OF assms(3,4)] by (simp add: ok_on_def base_inv_def port_inv_def)

lemma upd_same_pins:
  assumes "gpio_inv g" "valid_pin p" "\<And>r. g_out (f r) = g_out r" "\<And>r. g_dir (f r) = g_dir r"
  shows "pin_level (gpio_upd p f g) q = pin_level g q" "pin_is_output (gpio_upd p f g) q = pin_is_output g q"
  using assms gpio_group_cong [of p q g] by (auto simp: pin_level_def pin_is_output_def gpio_group_upd)

lemma ack_same:
  assumes "gpio_inv g"
  shows "gpio_inv (snd (ev3_gpio_irq_ack p g))" "pin_level (snd (ev3_gpio_irq_ack p g)) q = pin_level g q"
    "pin_is_output (snd (ev3_gpio_irq_ack p g)) q = pin_is_output g q"
  using assms by (simp_all add: ev3_gpio_irq_ack_def Let_def upd_same_pins valid_pin_def)

lemma tacho_port_inv:
  assumes "ok_on S d" "is_port p" "p \<in> S"
  shows "ok_on S (tacho_port ref st p d)"
proof -
  have "ok_on S (mupd p (\<lambda>m. m\<lparr>ms_last_level := l, ms_position := h m\<rparr>) d)" for l h
    by (rule mupd_inv [OF assms]) (use ok_ctl [OF assms] in simp_all)
  then show ?thesis
    unfolding tacho_port_def Let_def split_beta by (intro ok_if assms(1))
qed

lemma tacho_irq_inv: "motord_inv d \<Longrightarrow> motord_inv (tacho_irq ref d)"
proof -
  assume inv: "motord_inv d"
  then have g: "gpio_inv (md_gpio d)" by (simp add: ok_on_def base_inv_def)
  have "motord_inv (d\<lparr>md_gpio := snd (ev3_gpio_irq_ack ref (md_gpio d))\<rparr>)"
    using ack_same [OF g] by (intro gpio_inv_change inv)
  then show ?thesis
    by (auto simp: tacho_irq_def Let_def split_beta intro!: tacho_port_inv)
qed

lemma speed_pid_ctl:
  assumes "ctl_inv m"
  shows "ctl_inv (snd (speed_pid sp m)) \<and> ms_mode (snd (speed_pid sp m)) = ms_mode m"
  using assms abs_clamp [of 60000] by (simp add: speed_pid_def Let_def ctl_inv_def PID_I_MAX_def)

lemma measure_stall_ctl:
  assumes "ctl_inv m"
  shows "ctl_inv (detect_stall now (measure_speed m))"
    "ms_duty (detect_stall now (measure_speed m)) = ms_duty m"
    "ms_running (detect_stall now (measure_speed m)) = ms_running m"
    "ms_mode (detect_stall now (measure_speed m)) = ms_mode m"
  using assms by (simp_all add: detect_stall_def measure_speed_def Let_def ctl_inv_def SPEED_WIN_def)

lemma regulate_apply:
  assumes "ok_on S d" "is_port p" "p \<in> S" "ctl_inv m" "ms_mode m \<noteq> MOTOR_MODE_IDLE"
  shows "ok_on S (apply_duty p x (mupd p (\<lambda>_. m) d))"
proof -
  have "pre_inv S p (mupd p (\<lambda>_. m) d)"
    using motord_pre [OF assms(1-3)] assms(2,4) by (intro mupd_pre) auto
  moreover have "motor (mupd p (\<lambda>_. m) d) p = m"
    using assms(1,2) by (simp add: ok_on_def)
  ultimately have "ok_on (insert p S) (apply_duty p x (mupd p (\<lambda>_. m) d))"
    using assms(2,5) by (intro apply_duty_inv) auto
  with assms(3) show ?thesis by (simp add: insert_absorb)
qed

lemma regulate_inv:
  assumes "ok_on S d" "is_port p" "p \<in> S"
  shows "ok_on S (regulate p d)"
proof -
  note c = ok_ctl [OF assms]
  have hold: "ctl_inv ((motor d p)\<lparr>ms_mode := MOTOR_MODE_HOLD, ms_target_speed := SPEED_MAX\<rparr>)"
    using c by (simp add: ctl_inv_def SPEED_MAX_def)
  have pid: "ok_on S (apply_duty p x (mupd p (\<lambda>_. k) d))"
    if "speed_pid sp m = (x, k)" "ctl_inv m" "ms_mode m \<noteq> MOTOR_MODE_IDLE" for x k sp m
    using speed_pid_ctl [OF that(2), of sp] that(1,3) assms by (intro regulate_apply) auto
  show ?thesis
    unfolding regulate_def Let_def
    using assms c hold
    by (auto split: prod.split if_splits intro: pid regulate_apply)
qed

lemma control_step_inv:
  assumes "ok_on S d" "is_port p" "p \<in> S"
  shows "ok_on S (control_step now p d)"
proof -
  have "ok_on S (mupd p (\<lambda>m. detect_stall now (measure_speed m)) d)"
    by (rule mupd_inv [OF assms]) (use measure_stall_ctl [OF ok_ctl [OF assms]] in simp_all)
  then show ?thesis unfolding control_step_def using assms(2,3) by (rule regulate_inv)
qed

lemma detect_port_inv:
  assumes "ok_on S d" "is_port p" "p \<in> S"
  shows "ok_on S (detect_port adc now p d)"
proof -
  have "ok_on S (mupd p (\<lambda>m. m\<lparr>ms_present := b\<rparr>) e)" if "ok_on S e" for b e
    by (rule mupd_inv [OF that assms(2,3)]) (use ok_ctl [OF that assms(2,3)] in simp_all)
  with assms motor_stop_inv [OF assms] show ?thesis
    by (simp add: detect_port_def Let_def)
qed

lemma motor_loop_inv: "motord_inv d \<Longrightarrow> motord_inv (motor_loop adc now d)"
proof -
  assume inv: "motord_inv d"
  then have "motord_inv (d\<lparr>md_detect_ms := now\<rparr>)" by (simp add: ok_on_def base_inv_def port_inv_def)
  with inv have "motord_inv (detect_step adc now d)"
    by (auto simp: detect_step_def Let_def split: option.split intro!: detect_port_inv)
  then show ?thesis by (auto simp: motor_loop_def intro!: control_step_inv)
qed

section \<open>Commands touch only their port\<close>

definition same_port :: "int \<Rightarrow> motord \<Rightarrow> motord \<Rightarrow> bool" where
  "same_port i d e \<longleftrightarrow> motor e i = motor d i \<and>
     (\<forall>st. bridge_is i st (md_gpio e) = bridge_is i st (md_gpio d)) \<and>
     on_time (nat i) (md_pwm e) = on_time (nat i) (md_pwm d)"

lemma same_port_trans: "same_port i d e \<Longrightarrow> same_port i e f \<Longrightarrow> same_port i d f"
  by (simp add: same_port_def)

lemma same_port_refl [simp]: "same_port i d d"
  by (simp add: same_port_def)

lemma mupd_same: "base_inv d \<Longrightarrow> is_port p \<Longrightarrow> is_port i \<Longrightarrow> i \<noteq> p \<Longrightarrow> same_port i d (mupd p f d)"
  by (simp add: same_port_def motor_mupd)

lemma apply_duty_same:
  assumes "base_inv d" "is_port p" "is_port i" "i \<noteq> p"
  shows "same_port i d (apply_duty p duty d)" "base_inv (apply_duty p duty d)"
proof -
  define x where "x = clamp duty (- 100) 100"
  have x: "\<bar>x\<bar> \<le> 100" unfolding x_def by (rule abs_clamp) simp
  have b: "gpio_inv (md_gpio d)" "pwm_inv (md_pwm d)" using assms(1) by (auto simp: base_inv_def)
  have ij: "nat i < 4" "nat i \<noteq> nat p" using assms(2-4) by auto
  have off: "on_time (nat i) (ev3_pwm_enable p False (md_pwm d)) = on_time (nat i) (md_pwm d)"
    using pwm_inv_chan [OF b(2) ij(1)] pwm_inv_chan [OF enable_inv [OF b(2)] ij(1), of p False] ij assms(2)
    by (simp add: pwm_chan_ok_def)
  have on: "on_time (nat i) (ev3_pwm_enable p True (ev3_pwm_set_percent p \<bar>x\<bar> (md_pwm d))) =
      on_time (nat i) (md_pwm d)"
    using percent_rest [OF b(2), of p "\<bar>x\<bar>" "nat i"] assms(2) x ij by simp
  note br = bridge_other_port [OF b(1) is_port_out [OF assms(2)] is_port_out [OF assms(3)]]
  show "same_port i d (apply_duty p duty d)"
    using assms off on br by (simp add: apply_duty_eq [OF assms(1,2)] same_port_def motor_mupd flip: x_def)
  show "base_inv (apply_duty p duty d)"
    using assms(1) b by (simp add: apply_duty_eq [OF assms(1,2)] base_inv_def mupd_def enable_inv set_percent_inv)
qed

lemma apply_duty_base: "base_inv d \<Longrightarrow> is_port p \<Longrightarrow> base_inv (apply_duty p duty d)"
  by (simp add: apply_duty_eq base_inv_def mupd_def enable_inv set_percent_inv)

lemma set_stop_action_same:
  assumes "base_inv d" "is_port p" "is_port i" "i \<noteq> p"
  shows "same_port i d (set_stop_action p a d)" "base_inv (set_stop_action p a d)"
  using assms by (simp_all add: set_stop_action_def mupd_same)

lemma reset_pid_same:
  assumes "base_inv d" "is_port p" "is_port i" "i \<noteq> p"
  shows "same_port i d (reset_pid p now d)" "base_inv (reset_pid p now d)"
  using assms by (simp_all add: reset_pid_def mupd_same)

lemma motor_stop_same:
  assumes "base_inv d" "is_port p" "is_port i" "i \<noteq> p"
  shows "same_port i d (motor_stop p a now d)"
proof -
  let ?d1 = "set_stop_action p a d"
  let ?d2 = "mupd p (\<lambda>m. m\<lparr>ms_mode := MOTOR_MODE_IDLE\<rparr>) ?d1"
  have 1: "same_port i d ?d1" "base_inv ?d1" using assms set_stop_action_same [OF assms] by simp_all
  have 2: "same_port i ?d1 ?d2" "base_inv ?d2" using 1(2) assms by (simp_all add: mupd_same)
  have 3: "same_port i ?d2 (apply_duty p 0 ?d2)" "base_inv (apply_duty p 0 ?d2)"
    using apply_duty_same [OF 2(2) assms(2-4)] by simp_all
  have "same_port i (apply_duty p 0 ?d2) (reset_pid p now (apply_duty p 0 ?d2))"
    using reset_pid_same [OF 3(2) assms(2-4)] by simp
  with 1 2 3 show ?thesis unfolding motor_stop_def Let_def by (blast intro: same_port_trans)
qed

lemma motor_run_duty_same:
  assumes "base_inv d" "is_port p" "is_port i" "i \<noteq> p"
  shows "same_port i d (motor_run_duty p duty a now d)"
proof -
  let ?d1 = "set_stop_action p a d"
  let ?d2 = "mupd p (\<lambda>m. m\<lparr>ms_mode := MOTOR_MODE_DUTY\<rparr>) ?d1"
  have 1: "same_port i d ?d1" "base_inv ?d1" using assms set_stop_action_same [OF assms] by simp_all
  have 2: "same_port i ?d1 ?d2" "base_inv ?d2" using 1(2) assms by (simp_all add: mupd_same)
  have 3: "same_port i ?d2 (reset_pid p now ?d2)" "base_inv (reset_pid p now ?d2)"
    using reset_pid_same [OF 2(2) assms(2-4)] by simp_all
  have "same_port i (reset_pid p now ?d2) (apply_duty p duty (reset_pid p now ?d2))"
    using apply_duty_same [OF 3(2) assms(2-4)] by simp
  with 1 2 3 show ?thesis unfolding motor_run_duty_def Let_def by (blast intro: same_port_trans)
qed

text \<open>The commands that only set targets: a stop action, a field update, a PID reset.\<close>

lemma target_same:
  assumes "base_inv d" "is_port p" "is_port i" "i \<noteq> p"
  shows "same_port i d (reset_pid p now (mupd p f (set_stop_action p a d)))"
    "same_port i d (reset_pid p now (mupd p f d))" "same_port i d (reset_pid p now (mupd p g (mupd p f d)))"
proof -
  have k: "same_port i e (reset_pid p now (mupd p f e))" if "base_inv e" for e f
    using that assms mupd_same [OF that assms(2-4), of f] reset_pid_same [of "mupd p f e" p i now]
    by (auto intro: same_port_trans)
  show "same_port i d (reset_pid p now (mupd p f (set_stop_action p a d)))"
    using set_stop_action_same [OF assms] k by (blast intro: same_port_trans)
  show "same_port i d (reset_pid p now (mupd p f d))" using assms(1) by (rule k)
  show "same_port i d (reset_pid p now (mupd p g (mupd p f d)))"
    using k [of "mupd p f d" g] mupd_same [OF assms, of f] assms(1) by (auto intro: same_port_trans)
qed

lemma same_if:
  "(c \<Longrightarrow> same_port i d a) \<Longrightarrow> (\<not> c \<Longrightarrow> same_port i d b) \<Longrightarrow> same_port i d (if c then a else b)"
  by simp

lemma set_position_same:
  assumes "base_inv d" "is_port p" "is_port i" "i \<noteq> p"
  shows "same_port i d (motor_set_position p x now d)"
  unfolding motor_set_position_def Let_def
  by (simp only: if_distrib [of "reset_pid p now"]) (intro same_if target_same assms)

lemma target_commands_same:
  assumes "base_inv d" "is_port p" "is_port i" "i \<noteq> p"
  shows "same_port i d (motor_run_speed p v a now d)" "same_port i d (motor_run_to_pos p v s a now d)"
    "same_port i d (motor_hold p a now d)" "same_port i d (motor_set_pid p kp ki kd d)"
  using target_same(1) [OF assms] mupd_same [OF assms]
  by (simp_all add: motor_run_speed_def motor_run_to_pos_def motor_hold_def motor_set_pid_def Let_def)

lemmas same_ports = motor_stop_same motor_run_duty_same set_position_same target_commands_same

lemma do_command_bad_port:
  assumes "mc_port c < 0 \<or> mc_port c \<ge> 4"
  shows "do_command c now d = (-1, d)"
proof -
  have "mc_port c < 0 \<or> mc_port c \<ge> MOTOR_PORT_COUNT" using assms by (simp add: MOTOR_PORT_COUNT_def)
  then show ?thesis unfolding do_command_def Let_def by (rule if_P)
qed

lemma do_command_same:
  assumes "base_inv d" "is_port i" "i \<noteq> mc_port c"
  shows "same_port i d (snd (do_command c now d))"
proof (cases "is_port (mc_port c)")
  case True
  note a = assms(1) True assms(2,3)
  show ?thesis
    unfolding do_command_def Let_def
    by (simp only: if_distrib [of snd] snd_conv) (intro same_if same_port_refl same_ports [OF a])
next
  case False
  then have "mc_port c < 0 \<or> mc_port c \<ge> 4" by auto
  then show ?thesis by (simp add: do_command_bad_port)
qed

section \<open>Start-up\<close>

lemma port_pins:
  assumes "out_ok p"
  shows "list_all valid_pin [op_in0 (outp p), op_in1 (outp p), op_det (outp p), op_tacho (outp p), op_dir (outp p)]"
  using out_ok_cases [OF assms] by (auto simp: out_ports_def valid_pin_def MAX_GPIO_def)

lemma port_pins_other:
  assumes "out_ok p" "out_ok i" "i \<noteq> p" "q = op_in0 (outp i) \<or> q = op_in1 (outp i)"
  shows "q \<noteq> op_in0 (outp p) \<and> q \<noteq> op_in1 (outp p) \<and> q \<noteq> op_det (outp p) \<and> q \<noteq> op_tacho (outp p) \<and>
    q \<noteq> op_dir (outp p) \<and> valid_pin q"
  using out_ok_cases [OF assms(1)] out_ok_cases [OF assms(2)] assms(3,4)
  by (auto simp: out_ports_def valid_pin_def MAX_GPIO_def)

lemma output_init_inv: "gpio_inv (ev3_output_port_init p g) = gpio_inv g"
  by (simp add: ev3_output_port_init_def Let_def)

lemma output_init_other:
  assumes "gpio_inv g" "out_ok p" "out_ok i" "i \<noteq> p"
  shows "bridge_is i st (ev3_output_port_init p g) = bridge_is i st g"
proof -
  have "pin_level (ev3_output_port_init p g) q = pin_level g q \<and>
      pin_is_output (ev3_output_port_init p g) q = pin_is_output g q"
    if "q = op_in0 (outp i) \<or> q = op_in1 (outp i)" for q
    using assms(1,2) port_pins [OF assms(2)] port_pins_other [OF assms(2-4) that]
    by (simp add: ev3_output_port_init_def Let_def config_level config_output pin_laws)
  then show ?thesis by (simp add: bridge_is_def)
qed

lemma set_period_hw_other:
  assumes "pwm_inv w" "is_port p" "is_port i" "i \<noteq> p"
  shows "hw_shows i x g (ev3_pwm_set_period p c w) = hw_shows i x g w"
proof -
  have s: "pwm_shape w" using assms(1) by (simp add: pwm_inv_def)
  have ij: "nat i < 4" "nat i \<noteq> nat p" "nat p < 4" using assms(2-4) by auto
  note f = period_set_fields [OF s ij(3), where c = "clip_period c"]
  have "pw_duty (period_set (nat p) (clip_period c) w) ! nat p \<le> 0xFFFF"
    using f(2) clip_period_range(2) by (rule order_trans)
  then show ?thesis
    using assms(2) ij f by (simp add: hw_shows_def set_period_eq apply_duty_on_time)
qed

definition fresh :: "motord \<Rightarrow> int \<Rightarrow> bool" where
  "fresh d i \<longleftrightarrow> motor d i = motor_zero"

lemma init_port_ok:
  assumes "ok_on S d" "is_port p" "fresh d p" "p \<notin> S"
  shows "ok_on (insert p S) (init_port now p d)"
    and "\<And>i. is_port i \<Longrightarrow> i \<noteq> p \<Longrightarrow> motor (init_port now p d) i = motor d i"
proof -
  let ?g = "ev3_output_port_init p (md_gpio d)" and ?w = "ev3_pwm_set_period p (md_period d) (md_pwm d)"
  let ?f = "\<lambda>m. m\<lparr>ms_tacho_pin := fst (ev3_output_port_tacho_pins p), ms_dir_pin := snd (ev3_output_port_tacho_pins p),
      ms_kp := DEFAULT_KP_SPEED, ms_ki := DEFAULT_KI_SPEED, ms_kd := DEFAULT_KD_SPEED,
      ms_kp_pos := DEFAULT_KP_POS, ms_stop_action := MOTOR_STOP_COAST\<rparr>"
  define e where "e = (mupd p ?f (d\<lparr>md_gpio := ?g\<rparr>))\<lparr>md_pwm := ?w\<rparr>"
  have b: "base_inv d" "gpio_inv (md_gpio d)" "pwm_inv (md_pwm d)"
    using assms(1) by (auto simp: ok_on_def base_inv_def)
  have be: "base_inv e"
    using b by (simp add: e_def base_inv_def mupd_def output_init_inv set_period_inv)
  have e: "motor e i = (if i = p then ?f (motor d p) else motor d i)" if "is_port i" for i
    using motor_mupd [of "d\<lparr>md_gpio := ?g\<rparr>" p i ?f] b that assms(2)
    by (simp add: e_def base_inv_def output_init_inv)
  have eq: "init_port now p d = motor_stop p MOTOR_STOP_COAST now e"
    by (simp add: init_port_def Let_def split_beta e_def mupd_def)
  have "ctl_inv (motor e p)"
    using e [OF assms(2)] assms(3) by (simp add: fresh_def motor_zero_def ctl_inv_def motor_consts)
  moreover have "port_inv e i" if "is_port i" "i \<in> S" for i
  proof -
    have ip: "i \<noteq> p" using that assms(4) by auto
    then have "hw_shows i x ?g ?w = hw_shows i x (md_gpio d) (md_pwm d)" for x
      using set_period_hw_other [OF b(3) assms(2) that(1)]
        output_init_other [OF b(2) is_port_out [OF assms(2)] is_port_out [OF that(1)]]
      by (simp add: hw_shows_def)
    moreover have "port_inv d i" using assms(1) that by (simp add: ok_on_def)
    ultimately show ?thesis using e [OF that(1)] ip by (simp add: port_inv_def e_def)
  qed
  ultimately have pre: "pre_inv S p e" using be by (simp add: pre_inv_def)
  let ?e1 = "set_stop_action p MOTOR_STOP_COAST e"
  have "pre_inv S p (mupd p (\<lambda>m. m\<lparr>ms_stop_action := MOTOR_STOP_COAST\<rparr>) e)"
    using pre assms(2) by (intro mupd_pre) (auto simp: pre_inv_def ctl_inv_def motor_consts)
  then have pre1: "pre_inv S p ?e1" by (simp add: set_stop_action_def)
  then have "pre_inv S p (mupd p (\<lambda>m. m\<lparr>ms_mode := MOTOR_MODE_IDLE\<rparr>) ?e1)"
    using assms(2) by (intro mupd_pre) (auto simp: pre_inv_def ctl_inv_mode)
  then have "ok_on (insert p S) (apply_duty p 0 (mupd p (\<lambda>m. m\<lparr>ms_mode := MOTOR_MODE_IDLE\<rparr>) ?e1))"
    using assms(2) by (intro apply_duty_inv) auto
  then show "ok_on (insert p S) (init_port now p d)"
    unfolding eq motor_stop_def Let_def using assms(2) by (intro reset_pid_inv) auto
  show "motor (init_port now p d) i = motor d i" if "is_port i" "i \<noteq> p" for i
    using motor_stop_same [OF be assms(2) that] e [OF that(1)] that(2) unfolding eq same_port_def by simp
qed

definition partly_init :: "int set \<Rightarrow> motord \<Rightarrow> bool" where
  "partly_init S d \<longleftrightarrow> ok_on S d \<and> (\<forall>i. is_port i \<and> i \<notin> S \<longrightarrow> fresh d i)"

lemma init_port_step:
  assumes "partly_init S d" "is_port p" "p \<notin> S"
  shows "partly_init (insert p S) (init_port now p d)"
proof -
  have ok: "ok_on S d" and fr: "fresh d p" using assms by (auto simp: partly_init_def)
  note i = init_port_ok [OF ok assms(2) fr assms(3), where now = now]
  show ?thesis using i assms(1) by (auto simp: partly_init_def fresh_def)
qed

lemma init_ports_ok:
  assumes "partly_init {} d"
  shows "motord_inv (fold (init_port now) [0, 1, 2, 3] d)"
proof -
  have "partly_init {3, 2, 1, 0} (fold (init_port now) [0, 1, 2, 3] d)"
    using assms by (auto intro!: init_port_step)
  moreover have "i = 0 \<or> i = 1 \<or> i = 2 \<or> i = 3" if "is_port i" for i :: int using that by auto
  ultimately show ?thesis by (auto simp: ok_on_def partly_init_def)
qed

lemma irq_enable_same:
  assumes "gpio_inv g"
  shows "gpio_inv (ev3_gpio_irq_enable p r f g)" "pin_level (ev3_gpio_irq_enable p r f g) q = pin_level g q"
    "pin_is_output (ev3_gpio_irq_enable p r f g) q = pin_is_output g q"
proof -
  have b: "pin_level (h\<lparr>io_binten := v\<rparr>) q = pin_level h q" "pin_is_output (h\<lparr>io_binten := v\<rparr>) q = pin_is_output h q"
    "gpio_inv (h\<lparr>io_binten := v\<rparr>) = gpio_inv h" for h v q
    by (simp_all add: pin_level_def pin_is_output_def gpio_group_def gpio_inv_def)
  show "gpio_inv (ev3_gpio_irq_enable p r f g)" "pin_level (ev3_gpio_irq_enable p r f g) q = pin_level g q"
    "pin_is_output (ev3_gpio_irq_enable p r f g) q = pin_is_output g q"
    using assms by (simp_all add: ev3_gpio_irq_enable_def Let_def b upd_same_pins valid_pin_def)
qed

lemma irq_setup_inv: "motord_inv d \<Longrightarrow> motord_inv (tacho_irq_setup d)"
proof -
  have other: "ok_on S (d\<lparr>md_tacho_irqs := x\<rparr>) = ok_on S d" for S d x
    by (simp add: ok_on_def base_inv_def port_inv_def)
  have "motord_inv (tacho_irq_setup_port i d)" if "motord_inv d" for i d
  proof -
    have "motord_inv (e\<lparr>md_gpio := ev3_gpio_irq_enable pin True True (md_gpio e)\<rparr>)" if "motord_inv e" for e pin
      using that irq_enable_same [of "md_gpio e" pin True True]
      by (intro gpio_inv_change) (auto simp: ok_on_def base_inv_def)
    from this [OF that] this [of "d\<lparr>md_tacho_irqs := x\<rparr>" for x] that show ?thesis
      by (simp add: tacho_irq_setup_port_def Let_def other)
  qed
  then show "motord_inv d \<Longrightarrow> motord_inv (tacho_irq_setup d)" by (simp add: tacho_irq_setup_def)
qed

lemma psc_gpio_inv [simp]: "gpio_inv (psc_module_enable b m g) = gpio_inv g"
  by (simp add: psc_module_enable_def gpio_inv_def)

lemma syscfg_gpio_inv [simp]: "gpio_inv (ev3_syscfg_write a v m g) = gpio_inv g"
  by (simp add: ev3_syscfg_write_def gpio_inv_def)

lemma motord_init_inv:
  assumes "gpio_inv g" "pwm_shape w" "\<not> pw_inited w"
  shows "motord_inv (motord_init period fd now g w)"
proof -
  obtain g' w' where i: "ev3_pwm_init (g, w) = (g', w')" by fastforce
  have "gpio_inv (fst (ev3_pwm_init (g, w)))" using assms(1,3) by (simp add: ev3_pwm_init_def Let_def)
  moreover have "pwm_inv (snd (ev3_pwm_init (g, w)))" using assms(2,3) by (rule pwm_init_inv)
  ultimately have "partly_init {} \<lparr>md_motor = replicate 4 motor_zero, md_period = period, md_adc_fd = -1,
      md_detect_ms = 0, md_tacho_irqs = [], md_gpio = g', md_pwm = w'\<rparr>" (is "partly_init {} ?d")
    by (auto simp: i partly_init_def ok_on_def base_inv_def fresh_def)
  then have "motord_inv (tacho_irq_setup (fold (init_port now) [0, 1, 2, 3] ?d))"
    by (intro irq_setup_inv init_ports_ok)
  then show ?thesis
    by (simp add: motord_init_def Let_def i ok_on_def base_inv_def port_inv_def)
qed

section \<open>Reachable states\<close>

text \<open>
  One step of the daemon: the GPIO inputs or interrupt status change, the tacho interrupt fires, a
  client calls one of the entry points, or the control loop runs once.
\<close>

inductive motor_step :: "motord \<Rightarrow> motord \<Rightarrow> bool" where
  mt_inputs: "gpio_inv g \<Longrightarrow> (\<And>q. pin_level g q = pin_level (md_gpio d) q) \<Longrightarrow>
     (\<And>q. pin_is_output g q = pin_is_output (md_gpio d) q) \<Longrightarrow> motor_step d (d\<lparr>md_gpio := g\<rparr>)"
| mt_tacho: "motor_step d (tacho_irq ref d)"
| mt_cntl: "motor_step d (snd (motor_dev_cntl cmd c now d))"
| mt_write: "motor_step d (snd (motor_write cs n now d))"
| mt_shell: "motor_step d (motor_cmd argv now d)"
| mt_loop: "motor_step d (motor_loop adc now d)"

definition motor_started :: "motord \<Rightarrow> bool" where
  "motor_started d \<longleftrightarrow> (\<exists>period fd now g w. gpio_inv g \<and> pwm_shape w \<and> \<not> pw_inited w \<and>
     d = motord_init period fd now g w)"

lemma dev_cntl_inv: "motord_inv d \<Longrightarrow> motord_inv (snd (motor_dev_cntl cmd c now d))"
  using do_command_inv [of d c now] by (simp add: motor_dev_cntl_def split_beta)

lemma motor_write_inv: "motord_inv d \<Longrightarrow> motord_inv (snd (motor_write cs n now d))"
  using run_batch_inv [of d "take (nat (n div 20)) cs" now] by (simp add: motor_write_def Let_def split_beta)

interpretation msys: transition_system motor_started motor_step motord_inv
proof unfold_locales
  show "motord_inv d" if "motor_started d" for d
    using that motord_init_inv by (auto simp: motor_started_def)
  show "motord_inv e" if "motord_inv d" "motor_step d e" for d e
    using that(2,1)
    by (cases rule: motor_step.cases)
       (auto intro: gpio_inv_change tacho_irq_inv dev_cntl_inv motor_write_inv motor_cmd_inv motor_loop_inv)
qed

text \<open>
  C2. In every state the motor daemon can reach, whatever the clients, the encoders and the clock do:
  the duty is within -100 to 100 percent, a motor is powered exactly when its duty is not zero, an
  idle motor is unpowered, and the hardware agrees with the software: the H-bridge is forward,
  reverse or at rest as the sign of the duty says and the PWM on-time is that percentage of the
  period.
\<close>

theorem motor_reachable_safe:
  assumes "gpio_inv g" "pwm_shape w" "\<not> pw_inited w" "motor_step\<^sup>*\<^sup>* (motord_init period fd now g w) d"
    and "0 \<le> i" "i < 4"
  shows "\<bar>ms_duty (motor d i)\<bar> \<le> 100 \<and> (ms_running (motor d i) \<longleftrightarrow> ms_duty (motor d i) \<noteq> 0) \<and>
    (ms_mode (motor d i) = MOTOR_MODE_IDLE \<longrightarrow> ms_duty (motor d i) = 0) \<and>
    hw_shows i (ms_duty (motor d i)) (md_gpio d) (md_pwm d)"
proof -
  have "motor_started (motord_init period fd now g w)"
    using assms(1-3) unfolding motor_started_def by blast
  then have "motord_inv d" using assms(4) by (rule msys.inv_reachable)
  with assms(5,6) show ?thesis by (auto simp: ok_on_def port_inv_def drive_inv_def)
qed

theorem motor_reachable_safe_witness:
  "hw_shows 2 (ms_duty (motor (motor_cmd [''run'', ''C'', ''60''] 7 (motord_init 11364 3 0 demo_gpio demo_pwm0)) 2))
     (md_gpio (motor_cmd [''run'', ''C'', ''60''] 7 (motord_init 11364 3 0 demo_gpio demo_pwm0)))
     (md_pwm (motor_cmd [''run'', ''C'', ''60''] 7 (motord_init 11364 3 0 demo_gpio demo_pwm0)))"
proof -
  have "gpio_inv demo_gpio" by (simp add: gpio_inv_def demo_gpio_def)
  moreover have "motor_step\<^sup>*\<^sup>* (motord_init 11364 3 0 demo_gpio demo_pwm0)
      (motor_cmd [''run'', ''C'', ''60''] 7 (motord_init 11364 3 0 demo_gpio demo_pwm0))"
    by (blast intro: mt_shell)
  ultimately show ?thesis using motor_reachable_safe [of demo_gpio demo_pwm0 _ _ _ _ 2] demo_pwm0_ok by simp
qed

text \<open>
  C26. A command acts on its port only: for every other port the whole motor record, the H-bridge and
  the PWM on-time are unchanged, and a command for a port that does not exist is refused and changes
  nothing.
\<close>

theorem command_isolated:
  assumes "motord_inv d"
  shows "(\<forall>i. 0 \<le> i \<and> i < 4 \<and> i \<noteq> mc_port c \<longrightarrow> same_port i d (snd (do_command c now d))) \<and>
    (mc_port c < 0 \<or> mc_port c \<ge> 4 \<longrightarrow> do_command c now d = (-1, d))"
proof -
  have "base_inv d" using assms by (simp add: ok_on_def)
  then show ?thesis using do_command_same do_command_bad_port by blast
qed

theorem command_isolated_witness:
  "same_port 1 (motord_init 11364 3 0 demo_gpio demo_pwm0)
     (snd (do_command \<lparr>mc_cmd = 1, mc_port = 0, mc_arg0 = 50, mc_arg1 = 0, mc_arg2 = 0\<rparr> 9
       (motord_init 11364 3 0 demo_gpio demo_pwm0)))"
proof -
  have "gpio_inv demo_gpio" by (simp add: gpio_inv_def demo_gpio_def)
  then have "motord_inv (motord_init 11364 3 0 demo_gpio demo_pwm0)"
    using demo_pwm0_ok by (rule motord_init_inv)
  from command_isolated [OF this, of "\<lparr>mc_cmd = 1, mc_port = 0, mc_arg0 = 50, mc_arg1 = 0, mc_arg2 = 0\<rparr>" 9]
  show ?thesis by simp
qed

section \<open>The controller\<close>

lemma small_in_s32: "\<bar>x\<bar> \<le> k \<Longrightarrow> k \<le> 2000000000 \<Longrightarrow> wrap32 x = x"
  by (rule wrap32_small) simp

lemma abs_add_le: "\<bar>a\<bar> \<le> j \<Longrightarrow> \<bar>b\<bar> \<le> k \<Longrightarrow> \<bar>a + b\<bar> \<le> j + (k::int)"
  by simp

lemma abs_diff_le: "\<bar>a\<bar> \<le> j \<Longrightarrow> \<bar>b\<bar> \<le> k \<Longrightarrow> \<bar>a - b\<bar> \<le> j + (k::int)"
  by simp

lemma abs_sdiv_le: "\<bar>a\<bar> \<le> k * b \<Longrightarrow> 0 < b \<Longrightarrow> 0 \<le> k \<Longrightarrow> \<bar>a sdiv b\<bar> \<le> (k::int)"
  by (rule sdiv_int_bounds)

lemma abs_mult_le: "\<bar>a\<bar> \<le> j \<Longrightarrow> \<bar>b\<bar> \<le> k \<Longrightarrow> \<bar>a * b\<bar> \<le> j * (k::int)"
  unfolding abs_mult by (rule mult_mono) auto

text \<open>
  C33. The speed controller computes the textbook value: for every setpoint the commands accept, every
  gain they accept and measured speeds up to 10000 deg/s, no intermediate result of the fixed-point
  PID leaves the 32-bit range, so the duty is the clamped sum of the three terms over the unbounded
  integers.
\<close>

theorem speed_pid_exact:
  assumes "ctl_inv m" "\<bar>sp\<bar> \<le> 1200" "\<bar>ms_meas_speed m\<bar> \<le> 10000" "\<bar>ms_prev_err m\<bar> \<le> 11200"
  shows "speed_pid sp m =
    (let err = sp - ms_meas_speed m;
         integ = clamp (ms_integ m + err * 5) (- 60000) 60000;
         deriv = (err - ms_prev_err m) * 1000 sdiv 5
     in (clamp (ms_kp m * err sdiv 1000 + ms_ki m * (integ sdiv 1000) sdiv 1000 +
                ms_kd m * (deriv sdiv 1000) sdiv 1000) (- 100) 100,
         m\<lparr>ms_integ := integ, ms_prev_err := err\<rparr>))"
proof -
  define err where "err = sp - ms_meas_speed m"
  define integ where "integ = clamp (ms_integ m + err * 5) (- 60000) 60000"
  define deriv where "deriv = (err - ms_prev_err m) * 1000 sdiv 5"
  have g: "\<bar>ms_kp m\<bar> \<le> 100000" "\<bar>ms_ki m\<bar> \<le> 100000" "\<bar>ms_kd m\<bar> \<le> 100000" "\<bar>ms_integ m\<bar> \<le> 60000"
    using assms(1) by (auto simp: ctl_inv_def)
  have e: "\<bar>err\<bar> \<le> 1200 + 10000" unfolding err_def using assms(2,3) by (rule abs_diff_le)
  have e5: "\<bar>err * 5\<bar> \<le> 11200 * 5" using e by (intro abs_mult_le) auto
  have i: "\<bar>integ\<bar> \<le> 60000" unfolding integ_def by (rule abs_clamp) simp
  have de: "\<bar>err - ms_prev_err m\<bar> \<le> 1200 + 10000 + 11200" using e assms(4) by (rule abs_diff_le)
  then have dd: "\<bar>(err - ms_prev_err m) * 1000\<bar> \<le> 22400 * 1000" by (intro abs_mult_le) auto
  then have d: "\<bar>deriv\<bar> \<le> 4480000" unfolding deriv_def by (intro abs_sdiv_le) auto
  have it: "\<bar>integ sdiv 1000\<bar> \<le> 60" and ds: "\<bar>deriv sdiv 1000\<bar> \<le> 4480"
    using i d by (auto intro!: abs_sdiv_le)
  note p = abs_mult_le [OF g(1) e] abs_mult_le [OF g(2) it] abs_mult_le [OF g(3) ds]
  have t: "\<bar>ms_kp m * err sdiv 1000\<bar> \<le> 1120000" "\<bar>ms_ki m * (integ sdiv 1000) sdiv 1000\<bar> \<le> 6000"
    "\<bar>ms_kd m * (deriv sdiv 1000) sdiv 1000\<bar> \<le> 448000"
    using p by (auto intro!: abs_sdiv_le)
  note pi = abs_add_le [OF t(1,2)]
  note w = small_in_s32 [OF e] small_in_s32 [OF e5] small_in_s32 [OF abs_add_le [OF g(4) e5]]
    small_in_s32 [OF de] small_in_s32 [OF dd] small_in_s32 [OF p(1)] small_in_s32 [OF p(2)]
    small_in_s32 [OF p(3)] small_in_s32 [OF pi] small_in_s32 [OF abs_add_le [OF pi t(3)]]
  show ?thesis
    unfolding speed_pid_def Let_def PID_DT_MS_def PID_SCALE_def PID_I_MAX_def PID_DUTY_MAX_def
      err_def [symmetric]
    by (simp add: w integ_def [symmetric] deriv_def [symmetric] del: left_diff_distrib_numeral)
qed

definition demo_motor :: motor_state where
  "demo_motor = motor_zero\<lparr>ms_kp := 120, ms_ki := 600, ms_kd := 5, ms_kp_pos := 8000,
     ms_mode := MOTOR_MODE_SPEED\<rparr>"

lemma demo_motor_ctl: "ctl_inv demo_motor"
  by (simp add: ctl_inv_def demo_motor_def motor_zero_def SPEED_WIN_def)

theorem speed_pid_exact_witness: "fst (speed_pid 300 demo_motor) = 36"
  using speed_pid_exact [OF demo_motor_ctl, of 300]
  by (simp add: demo_motor_def motor_zero_def Let_def clamp_def)

lemma sdiv_1000_8000: "(8000 * x) sdiv 1000 = 8 * (x::int)"
proof -
  have "8000 * \<bar>x\<bar> div 1000 = 8 * \<bar>x\<bar>" by simp
  then show ?thesis by (simp add: signed_divide_int_def sgn_mult abs_mult) (simp add: sgn_if)
qed

text \<open>
  Within 268435 counts of the target the position loop heads the right way: the speed setpoint is
  eight times the position error limited by the requested speed, so its sign is the sign of the
  error.
\<close>

theorem cascade_direction:
  assumes "ctl_inv m" "ms_mode m = MOTOR_MODE_POS \<or> ms_mode m = MOTOR_MODE_HOLD"
    and "\<bar>ms_target_pos m - ms_position m\<bar> \<le> 268435"
  shows "cascade m = clamp (8 * (ms_target_pos m - ms_position m)) (- ms_target_speed m) (ms_target_speed m) \<and>
    sgn (cascade m) = sgn (ms_target_pos m - ms_position m)"
proof -
  let ?p = "ms_target_pos m - ms_position m"
  have "wrap32 ?p = ?p" using assms(3) by (rule small_in_s32) simp
  moreover have "\<bar>8000 * ?p\<bar> \<le> 2147483647" using assms(3) by (simp add: abs_mult)
  then have "wrap32 (8000 * ?p) = 8000 * ?p" by (rule wrap32_small)
  moreover have "ms_kp_pos m = 8000" "1 \<le> ms_target_speed m" using assms(1,2) by (auto simp: ctl_inv_def)
  ultimately have "cascade m = clamp (8 * ?p) (- ms_target_speed m) (ms_target_speed m)"
    by (simp only: cascade_def Let_def PID_SCALE_def sdiv_1000_8000)
  with \<open>1 \<le> ms_target_speed m\<close> show ?thesis by (auto simp: clamp_def sgn_if)
qed

theorem cascade_direction_witness:
  "cascade (demo_motor\<lparr>ms_mode := MOTOR_MODE_POS, ms_target_speed := 300, ms_target_pos := - 720\<rparr>) = - 300"
  using cascade_direction [of "demo_motor\<lparr>ms_mode := MOTOR_MODE_POS, ms_target_speed := 300, ms_target_pos := - 720\<rparr>"]
    demo_motor_ctl
  by (simp add: ctl_inv_def demo_motor_def motor_zero_def clamp_def)

lemma run_to_pos_motor:
  assumes "base_inv d" "is_port p"
  shows "ms_kp_pos (motor (motor_run_to_pos p x s a now d) p) = ms_kp_pos (motor d p)"
    "ms_target_pos (motor (motor_run_to_pos p x s a now d) p) = x"
    "ms_position (motor (motor_run_to_pos p x s a now d) p) = ms_position (motor d p)"
    "1 \<le> ms_target_speed (motor (motor_run_to_pos p x s a now d) p)"
  using assms clamp_pos [of s]
  by (simp_all add: motor_run_to_pos_def reset_pid_def set_stop_action_def Let_def SPEED_MAX_def)

lemma set_position_position:
  "base_inv d \<Longrightarrow> is_port p \<Longrightarrow> ms_position (motor (motor_set_position p v now d) p) = v"
  by (simp add: motor_set_position_def reset_pid_def Let_def)

lemma wrap32_past: "2 ^ 31 \<le> x \<Longrightarrow> x < 2 ^ 32 \<Longrightarrow> wrap32 x = x - 2 ^ 32"
proof -
  assume "2 ^ 31 \<le> x" "x < 2 ^ 32"
  then have "(x - 2 ^ 31) mod 2 ^ 32 = x - 2 ^ 31" by (intro mod_pos_pos_trivial) auto
  moreover have "(x + 2 ^ 31) mod 2 ^ 32 = (x - 2 ^ 31) mod 2 ^ 32"
    using mod_add_self2 [of "x - 2 ^ 31" "2 ^ 32"] by (simp add: add.commute)
  ultimately show ?thesis by (simp add: wrap32_def)
qed

lemma cascade_wraps:
  assumes "ms_kp_pos m = 8000" "ms_target_pos m - ms_position m = e" "268436 \<le> e" "e \<le> 536870"
    "1 \<le> ms_target_speed m"
  shows "cascade m < 0"
proof -
  have e: "wrap32 e = e" using assms(3,4) by (intro small_in_s32 [where k = 536870]) auto
  have w: "wrap32 (8000 * e) = 8000 * e - 2 ^ 32" using assms(3,4) by (intro wrap32_past) auto
  have "7 \<le> - (8000 * e - 2 ^ 32) div 1000"
    using zdiv_mono1 [of 7000 "- (8000 * e - 2 ^ 32)" 1000] assms(4) by simp
  moreover have "(8000 * e - 2 ^ 32) sdiv 1000 = - (- (8000 * e - 2 ^ 32) div 1000)"
    using assms(4) by (simp add: signed_divide_int_def sgn_if)
  ultimately have "(8000 * e - 2 ^ 32) sdiv 1000 \<le> - 7" by simp
  then show ?thesis
    unfolding cascade_def assms(1,2) e Let_def w PID_SCALE_def using assms(5) by (auto simp: clamp_def)
qed

text \<open>
  C34. Beyond that distance it does not: a run-to-position command whose target lies 268436 to 536870
  counts ahead of the motor multiplies the error by 8000 in 32 bits; the product wraps and the first
  speed setpoint is negative, so the motor starts away from the target.
\<close>

theorem run_to_pos_overflow:
  assumes "motord_inv d" "0 \<le> p" "p < 4" "268436 \<le> x - ms_position (motor d p)"
    "x - ms_position (motor d p) \<le> 536870"
  shows "cascade (motor (snd (do_command \<lparr>mc_cmd = MOTOR_CMD_RUN_TO_POS, mc_port = p, mc_arg0 = x,
    mc_arg1 = s, mc_arg2 = a\<rparr> now d)) p) < 0"
proof -
  have b: "base_inv d" "is_port p" "ms_kp_pos (motor d p) = 8000"
    using assms(1-3) by (auto simp: ok_on_def port_inv_def ctl_inv_def)
  have "snd (do_command \<lparr>mc_cmd = MOTOR_CMD_RUN_TO_POS, mc_port = p, mc_arg0 = x, mc_arg1 = s, mc_arg2 = a\<rparr> now d) =
      motor_run_to_pos p x s a now d"
    using assms(2,3) by (simp add: do_command_def Let_def motor_cmds MOTOR_PORT_COUNT_def)
  then show ?thesis
    using run_to_pos_motor [OF b(1,2), of x s a now] b(3) assms(4,5)
    by (simp only:) (rule cascade_wraps [where e = "x - ms_position (motor d p)"], simp_all)
qed

theorem run_to_pos_overflow_witness:
  "cascade (motor (snd (do_command \<lparr>mc_cmd = MOTOR_CMD_RUN_TO_POS, mc_port = 0, mc_arg0 = 300000,
     mc_arg1 = 300, mc_arg2 = 0\<rparr> 5 (motor_set_position 0 0 4 (motord_init 11364 3 0 demo_gpio demo_pwm0)))) 0) < 0"
proof -
  let ?d = "motord_init 11364 3 0 demo_gpio demo_pwm0"
  have "gpio_inv demo_gpio" by (simp add: gpio_inv_def demo_gpio_def)
  then have inv: "motord_inv ?d" using demo_pwm0_ok by (rule motord_init_inv)
  then have "motord_inv (motor_set_position 0 0 4 ?d)" by (rule motor_set_position_inv) auto
  moreover have "ms_position (motor (motor_set_position 0 0 4 ?d) 0) = 0"
    using inv by (intro set_position_position) (auto simp: ok_on_def)
  ultimately show ?thesis
    by (intro run_to_pos_overflow) (simp_all del: nat_0)
qed

section \<open>Stall and presence\<close>

text \<open>
  Stall detection is exact: while a motor is driven at 20 percent or more and its position stands
  still from the moment the stall timer was last restarted, control steps at the times \<open>ts\<close> report a
  stall if and only if it was already reported or one of them comes 300 ms or more after that moment.
\<close>

theorem stall_exact:
  assumes "ms_running m" "\<bar>ms_duty m\<bar> \<ge> STALL_DUTY" "ms_position m = ms_stall_pos m"
  shows "ms_stalled (fold detect_stall ts m) \<longleftrightarrow>
    ms_stalled m \<or> (\<exists>t\<in>set ts. t - ms_stall_ms m \<ge> STALL_MS)"
  using assms
proof (induction ts arbitrary: m)
  case (Cons t ts)
  let ?m = "detect_stall t m"
  have "ms_running m \<and> (ms_duty m \<ge> STALL_DUTY \<or> ms_duty m \<le> - STALL_DUTY)"
    using Cons.prems by (auto simp: STALL_DUTY_def)
  then have m: "?m = (if t - ms_stall_ms m \<ge> STALL_MS then m\<lparr>ms_stalled := True\<rparr> else m)"
    using Cons.prems(3) by (simp add: detect_stall_def)
  have "ms_stalled (fold detect_stall ts ?m) \<longleftrightarrow>
      ms_stalled ?m \<or> (\<exists>t\<in>set ts. t - ms_stall_ms ?m \<ge> STALL_MS)"
    using Cons.prems by (intro Cons.IH) (auto simp: m)
  then show ?case by (auto simp: m)
qed simp

theorem stall_exact_witness:
  "ms_stalled (fold detect_stall [100, 305] (demo_motor\<lparr>ms_running := True, ms_duty := 40\<rparr>))"
  using stall_exact [of "demo_motor\<lparr>ms_running := True, ms_duty := 40\<rparr>" "[100, 305]"]
  by (simp add: demo_motor_def motor_zero_def STALL_DUTY_def STALL_MS_def)

lemma apply_zero_hw:
  assumes "base_inv d" "is_port p" "ms_stop_action (motor d p) = MOTOR_STOP_COAST"
  shows "bridge_is p EV3_MOTOR_COAST (md_gpio (apply_duty p 0 d))"
    "on_time (nat p) (md_pwm (apply_duty p 0 d)) = 0" "ms_duty (motor (apply_duty p 0 d) p) = 0"
    "ms_mode (motor (apply_duty p 0 d) p) = ms_mode (motor d p)" "base_inv (apply_duty p 0 d)"
proof -
  have b: "gpio_inv (md_gpio d)" "pwm_inv (md_pwm d)" using assms(1) by (auto simp: base_inv_def)
  note eq = apply_duty_eq [OF assms(1,2), of 0]
  show "bridge_is p EV3_MOTOR_COAST (md_gpio (apply_duty p 0 d))"
    using bridge_sets [OF b(1) is_port_out [OF assms(2)]] assms(3)
    by (simp add: eq clamp_def motor_consts)
  show "on_time (nat p) (md_pwm (apply_duty p 0 d)) = 0"
    using disabled_on_time [OF b(2) assms(2)] by (simp add: eq clamp_def)
  show "ms_duty (motor (apply_duty p 0 d) p) = 0"
    "ms_mode (motor (apply_duty p 0 d) p) = ms_mode (motor d p)"
    using assms by (simp_all add: eq clamp_def)
  show "base_inv (apply_duty p 0 d)"
    using assms(1) b by (simp add: eq clamp_def base_inv_def mupd_def enable_inv)
qed

lemma stop_hw:
  assumes "base_inv d" "is_port p"
  shows "bridge_is p EV3_MOTOR_COAST (md_gpio (motor_stop p MOTOR_STOP_COAST now d))"
    "on_time (nat p) (md_pwm (motor_stop p MOTOR_STOP_COAST now d)) = 0"
    "ms_duty (motor (motor_stop p MOTOR_STOP_COAST now d) p) = 0"
    "ms_mode (motor (motor_stop p MOTOR_STOP_COAST now d) p) = MOTOR_MODE_IDLE"
    "base_inv (motor_stop p MOTOR_STOP_COAST now d)"
proof -
  define e where "e = mupd p (\<lambda>m. m\<lparr>ms_mode := MOTOR_MODE_IDLE\<rparr>) (set_stop_action p MOTOR_STOP_COAST d)"
  have e: "base_inv e" "ms_stop_action (motor e p) = MOTOR_STOP_COAST" "ms_mode (motor e p) = MOTOR_MODE_IDLE"
    using assms by (simp_all add: e_def set_stop_action_def)
  have s: "motor_stop p MOTOR_STOP_COAST now d = reset_pid p now (apply_duty p 0 e)"
    by (simp add: motor_stop_def e_def)
  note z = apply_zero_hw [OF e(1) assms(2) e(2)]
  show "bridge_is p EV3_MOTOR_COAST (md_gpio (motor_stop p MOTOR_STOP_COAST now d))"
    "on_time (nat p) (md_pwm (motor_stop p MOTOR_STOP_COAST now d)) = 0"
    "ms_duty (motor (motor_stop p MOTOR_STOP_COAST now d) p) = 0"
    "ms_mode (motor (motor_stop p MOTOR_STOP_COAST now d) p) = MOTOR_MODE_IDLE"
    "base_inv (motor_stop p MOTOR_STOP_COAST now d)"
    using z e(3) assms(2) by (simp_all add: s reset_pid_def)
qed

lemma distinct_0123: "distinct [0, 1, 2, 3 :: int]"
  by simp

lemma motor_stop_base: "base_inv d \<Longrightarrow> is_port p \<Longrightarrow> base_inv (motor_stop p a now d)"
  by (simp add: motor_stop_def Let_def reset_pid_def set_stop_action_def apply_duty_base)

lemma detect_port_same:
  assumes "base_inv d" "is_port p" "is_port i" "i \<noteq> p"
  shows "same_port i d (detect_port adc now p d)" "base_inv (detect_port adc now p d)"
proof -
  note st = motor_stop_base [OF assms(1,2), of MOTOR_STOP_COAST now]
  have "same_port i d (mupd p f (motor_stop p MOTOR_STOP_COAST now d))" for f
    using motor_stop_same [OF assms, of MOTOR_STOP_COAST now] mupd_same [OF st assms(2-4), of f]
    by (rule same_port_trans)
  then show "same_port i d (detect_port adc now p d)"
    using mupd_same [OF assms] by (simp add: detect_port_def Let_def)
  show "base_inv (detect_port adc now p d)"
    using assms(1) st by (simp add: detect_port_def Let_def)
qed

lemma detect_others:
  assumes "base_inv d" "is_port i" "list_all is_port ps" "i \<notin> set ps"
  shows "same_port i d (fold (detect_port adc now) ps d) \<and> base_inv (fold (detect_port adc now) ps d)"
  using assms
proof (induction ps arbitrary: d)
  case (Cons p ps)
  have s: "same_port i d (detect_port adc now p d)" "base_inv (detect_port adc now p d)"
    using Cons.prems detect_port_same [of d p i adc now] by auto
  moreover have "same_port i (detect_port adc now p d) (fold (detect_port adc now) ps (detect_port adc now p d)) \<and>
      base_inv (fold (detect_port adc now) ps (detect_port adc now p d))"
    using Cons.prems s by (intro Cons.IH) auto
  ultimately show ?case by (auto intro: same_port_trans)
qed simp

text \<open>What cutting the power means for a port.\<close>

definition powered_off :: "int \<Rightarrow> motord \<Rightarrow> bool" where
  "powered_off p e \<longleftrightarrow> ms_mode (motor e p) = MOTOR_MODE_IDLE \<and> ms_duty (motor e p) = 0 \<and>
     \<not> ms_present (motor e p) \<and> on_time (nat p) (md_pwm e) = 0 \<and> bridge_is p EV3_MOTOR_COAST (md_gpio e)"

lemma powered_off_same: "same_port p d e \<Longrightarrow> powered_off p e = powered_off p d"
  by (simp add: powered_off_def same_port_def)

lemma adc_channel_range: "is_port p \<Longrightarrow> 0 \<le> ev3_output_port_adc_channel p \<and> ev3_output_port_adc_channel p < 16"
proof -
  assume "is_port p"
  then have "p = 0 \<or> p = 1 \<or> p = 2 \<or> p = 3" by auto
  then show ?thesis
    by (auto simp: ev3_output_port_adc_channel_def out_ok_def EV3_OUT_PORT_COUNT_def out_ports_def)
qed

lemma detect_port_off:
  assumes "base_inv d" "is_port p" "ms_present (motor d p)" "ms_mode (motor d p) \<noteq> MOTOR_MODE_IDLE"
    "2400 \<le> adc ! nat (ev3_output_port_adc_channel p)" "adc ! nat (ev3_output_port_adc_channel p) \<le> 2600"
  shows "powered_off p (detect_port adc now p d)" "base_inv (detect_port adc now p d)"
proof -
  have "detect_port adc now p d = mupd p (\<lambda>m. m\<lparr>ms_present := False\<rparr>) (motor_stop p MOTOR_STOP_COAST now d)"
    using assms adc_channel_range [OF assms(2)]
    by (simp add: detect_port_def Let_def ADC_MAX_CH_def PIN5_BALANCE_LOW_def PIN5_BALANCE_HIGH_def)
  then show "powered_off p (detect_port adc now p d)" "base_inv (detect_port adc now p d)"
    using stop_hw [OF assms(1,2), of now] assms(2) by (simp_all add: powered_off_def)
qed

text \<open>
  C25. Unplugging cuts the power: when a detection round that is due sees the pin-5 voltage of a present,
  non-idle motor inside the empty band of 2400 to 2600 mV, the motor becomes idle, its duty and PWM
  on-time are zero, its bridge coasts and it is reported absent.
\<close>

theorem unplug_cuts_power:
  assumes "motord_inv d" "0 \<le> p" "p < 4" "ms_present (motor d p)" "ms_mode (motor d p) \<noteq> MOTOR_MODE_IDLE"
    and "2400 \<le> adc ! nat (ev3_output_port_adc_channel p)" "adc ! nat (ev3_output_port_adc_channel p) \<le> 2600"
    and "md_adc_fd d \<ge> 0" "now - md_detect_ms d \<ge> DETECT_MS"
  shows "powered_off p (detect_step (Some adc) now d)"
proof -
  define d0 where "d0 = d\<lparr>md_detect_ms := now\<rparr>"
  have b: "base_inv d0" using assms(1) by (simp add: ok_on_def d0_def base_inv_def)
  have "p \<in> set [0, 1, 2, 3]" using assms(2,3) by auto
  then obtain pre post where s: "[0, 1, 2, 3] = pre @ p # post" "p \<notin> set pre" "p \<notin> set post"
    using split_list_first [of p "[0, 1, 2, 3]"] by (metis distinct_0123 distinct_append distinct.simps(2))
  have "list_all is_port (pre @ p # post)" unfolding s(1) [symmetric] by simp
  then have ok: "list_all is_port pre" "list_all is_port post" by auto
  define d1 where "d1 = fold (detect_port adc now) pre d0"
  have d1: "same_port p d0 d1" "base_inv d1"
    using detect_others [OF b _ ok(1) s(2), of adc now] assms(2,3) by (auto simp: d1_def)
  have off: "powered_off p (detect_port adc now p d1)" "base_inv (detect_port adc now p d1)"
    using detect_port_off [OF d1(2), of p adc now] d1(1) assms by (auto simp: same_port_def d0_def)
  have "same_port p (detect_port adc now p d1) (fold (detect_port adc now) post (detect_port adc now p d1))"
    using detect_others [OF off(2) _ ok(2) s(3), of adc now] assms(2,3) by auto
  then have "powered_off p (fold (detect_port adc now) (pre @ p # post) d0)"
    using off(1) by (simp add: powered_off_same d1_def)
  moreover have "\<not> now - md_detect_ms d < DETECT_MS" using assms(9) by simp
  ultimately show ?thesis
    using assms(8) by (simp add: detect_step_def d0_def [symmetric] s(1) del: fold.simps)
qed

definition demo_running :: motord where
  "demo_running = motor_run_speed 2 100 0 5
     (mupd 2 (\<lambda>m. m\<lparr>ms_present := True\<rparr>) (motord_init 11364 3 0 demo_gpio demo_pwm0))"

lemma demo_init_inv: "motord_inv (motord_init 11364 3 0 demo_gpio demo_pwm0)"
  using demo_pwm0_ok by (intro motord_init_inv) (simp add: gpio_inv_def demo_gpio_def)

lemma demo_running_facts:
  "motord_inv demo_running" "ms_present (motor demo_running 2)" "ms_mode (motor demo_running 2) = MOTOR_MODE_SPEED"
  "md_adc_fd demo_running = 3" "md_detect_ms demo_running = 0"
proof -
  let ?i = "motord_init 11364 3 0 demo_gpio demo_pwm0"
  have 1: "motord_inv (mupd 2 (\<lambda>m. m\<lparr>ms_present := True\<rparr>) ?i)"
    by (rule mupd_inv [OF demo_init_inv]) (use ok_ctl [OF demo_init_inv, of 2] in simp_all)
  then show "motord_inv demo_running" unfolding demo_running_def by (rule motor_run_speed_inv) auto
  have b: "base_inv ?i" using demo_init_inv by (simp add: ok_on_def)
  show "ms_present (motor demo_running 2)" "ms_mode (motor demo_running 2) = MOTOR_MODE_SPEED"
    using b motor_mupd_self [where p = 2]
    by (simp_all add: demo_running_def motor_run_speed_def reset_pid_def set_stop_action_def Let_def
        del: nat_numeral motor_mupd_self)
  show "md_adc_fd demo_running = 3" "md_detect_ms demo_running = 0"
    by (simp_all add: demo_running_def motor_run_speed_def reset_pid_def set_stop_action_def Let_def
        motord_init_def split_beta)
qed

theorem unplug_cuts_power_witness: "powered_off 2 (detect_step (Some (replicate 16 2500)) 1000 demo_running)"
proof -
  have "ev3_output_port_adc_channel 2 = 13"
    by (simp add: ev3_output_port_adc_channel_def out_ok_def EV3_OUT_PORT_COUNT_def out_ports_def)
  then show ?thesis
    using demo_running_facts by (intro unplug_cuts_power) (simp_all add: DETECT_MS_def)
qed

section \<open>Encoder\<close>

lemma tacho_port_position:
  assumes "base_inv d" "is_port p" "is_port i"
  shows "ms_position (motor (tacho_port ref st p d) i) =
      (if i = p \<and> 0 \<le> ms_tacho_pin (motor d p) \<and> ms_tacho_pin (motor d p) div 32 = ref div 32 \<and>
          bit st (nat (ms_tacho_pin (motor d p) mod 32))
       then wrap32 (if fst (ev3_output_port_tacho p (md_gpio d)) \<noteq> snd (ev3_output_port_tacho p (md_gpio d))
                    then ms_position (motor d p) + 1 else ms_position (motor d p) - 1)
       else ms_position (motor d i))"
    and "base_inv (tacho_port ref st p d)" "md_gpio (tacho_port ref st p d) = md_gpio d"
    and "ms_tacho_pin (motor (tacho_port ref st p d) i) = ms_tacho_pin (motor d i)"
proof -
  have "st AND push_bit k 1 = 0 \<longleftrightarrow> \<not> bit st k" for k
    by (simp add: and_exp_eq_0_iff_not_bit)
  then show "ms_position (motor (tacho_port ref st p d) i) =
      (if i = p \<and> 0 \<le> ms_tacho_pin (motor d p) \<and> ms_tacho_pin (motor d p) div 32 = ref div 32 \<and>
          bit st (nat (ms_tacho_pin (motor d p) mod 32))
       then wrap32 (if fst (ev3_output_port_tacho p (md_gpio d)) \<noteq> snd (ev3_output_port_tacho p (md_gpio d))
                    then ms_position (motor d p) + 1 else ms_position (motor d p) - 1)
       else ms_position (motor d i))"
    "ms_tacho_pin (motor (tacho_port ref st p d) i) = ms_tacho_pin (motor d i)"
    using assms by (simp_all add: tacho_port_def Let_def split_beta motor_mupd not_less)
  show "base_inv (tacho_port ref st p d)" "md_gpio (tacho_port ref st p d) = md_gpio d"
    using assms by (simp_all add: tacho_port_def Let_def split_beta)
qed

lemma tacho_others:
  assumes "base_inv d" "is_port i" "list_all is_port ps" "i \<notin> set ps"
  shows "ms_position (motor (fold (tacho_port ref st) ps d) i) = ms_position (motor d i) \<and>
    ms_tacho_pin (motor (fold (tacho_port ref st) ps d) i) = ms_tacho_pin (motor d i) \<and>
    md_gpio (fold (tacho_port ref st) ps d) = md_gpio d \<and> base_inv (fold (tacho_port ref st) ps d)"
  using assms
proof (induction ps arbitrary: d)
  case (Cons p ps)
  have p: "is_port p" "i \<noteq> p" using Cons.prems by auto
  note s = tacho_port_position [OF Cons.prems(1) p(1) Cons.prems(2), of ref st]
  have "ms_position (motor (fold (tacho_port ref st) ps (tacho_port ref st p d)) i) =
      ms_position (motor (tacho_port ref st p d) i) \<and>
    ms_tacho_pin (motor (fold (tacho_port ref st) ps (tacho_port ref st p d)) i) =
      ms_tacho_pin (motor (tacho_port ref st p d) i) \<and>
    md_gpio (fold (tacho_port ref st) ps (tacho_port ref st p d)) = md_gpio (tacho_port ref st p d) \<and>
    base_inv (fold (tacho_port ref st) ps (tacho_port ref st p d))"
    using Cons.prems s by (intro Cons.IH) auto
  with s p(2) show ?case by simp
qed simp

lemma port_split:
  assumes "is_port p"
  obtains pre post where "[0, 1, 2, 3] = pre @ p # post" "p \<notin> set pre" "p \<notin> set post"
    "list_all is_port pre" "list_all is_port post"
proof -
  have "p \<in> set [0, 1, 2, 3]" using assms by auto
  then obtain pre post where s: "[0, 1, 2, 3] = pre @ p # post" "p \<notin> set pre" "p \<notin> set post"
    using split_list_first [of p "[0, 1, 2, 3]"] by (metis distinct_0123 distinct_append distinct.simps(2))
  have "list_all is_port (pre @ p # post)" unfolding s(1) [symmetric] by simp
  with s that show ?thesis by auto
qed

text \<open>
  The encoder interrupt counts exactly the edges that fired: a port whose INT pin lies in the
  acknowledged group and has its status bit set moves by one count, forward when INT and DIR
  differ and backward when they agree; every other port keeps its position.
\<close>

theorem tacho_counts:
  assumes "motord_inv d" "0 \<le> i" "i < 4"
  shows "ms_position (motor (tacho_irq ref d) i) =
    (let (st, g) = ev3_gpio_irq_ack ref (md_gpio d); m = motor d i; (int_level, dir) = ev3_output_port_tacho i g
     in if 0 \<le> ms_tacho_pin m \<and> ms_tacho_pin m div 32 = ref div 32 \<and> bit st (nat (ms_tacho_pin m mod 32))
        then wrap32 (if int_level \<noteq> dir then ms_position m + 1 else ms_position m - 1)
        else ms_position m)"
proof -
  obtain st g where a: "ev3_gpio_irq_ack ref (md_gpio d) = (st, g)" by fastforce
  define d0 where "d0 = d\<lparr>md_gpio := g\<rparr>"
  have "gpio_inv (snd (ev3_gpio_irq_ack ref (md_gpio d)))"
    using assms(1) by (intro ack_same) (auto simp: ok_on_def base_inv_def)
  then have b: "base_inv d0" using assms(1) a by (simp add: d0_def ok_on_def base_inv_def)
  have ip: "is_port i" using assms(2,3) by simp
  then obtain pre post where s: "[0, 1, 2, 3] = pre @ i # post" "i \<notin> set pre" "i \<notin> set post"
    "list_all is_port pre" "list_all is_port post" by (rule port_split)
  define d1 where "d1 = fold (tacho_port ref st) pre d0"
  note d1 = tacho_others [OF b ip s(4,2), of ref st, folded d1_def]
  note t = tacho_port_position [OF d1 [THEN conjunct2, THEN conjunct2, THEN conjunct2] ip ip, of ref st]
  note d2 = tacho_others [OF t(2) ip s(5,3), of ref st]
  have "fold (tacho_port ref st) [0, 1, 2, 3] d0 = fold (tacho_port ref st) post (tacho_port ref st i d1)"
    unfolding s(1) d1_def by simp
  then have "ms_position (motor (fold (tacho_port ref st) [0, 1, 2, 3] d0) i) =
      ms_position (motor (tacho_port ref st i d1) i)"
    using d2 by simp
  moreover have d0: "motor d0 i = motor d i" "md_gpio d0 = g" by (simp_all add: d0_def)
  moreover have e: "ms_position (motor d1 i) = ms_position (motor d i)" "md_gpio d1 = g"
      "ms_tacho_pin (motor d1 i) = ms_tacho_pin (motor d i)"
    using d1 by (simp_all only: d0)
  ultimately have f: "ms_position (motor (fold (tacho_port ref st) [0, 1, 2, 3] d0) i) =
      (if 0 \<le> ms_tacho_pin (motor d i) \<and> ms_tacho_pin (motor d i) div 32 = ref div 32 \<and>
          bit st (nat (ms_tacho_pin (motor d i) mod 32))
       then wrap32 (if fst (ev3_output_port_tacho i g) \<noteq> snd (ev3_output_port_tacho i g)
                    then ms_position (motor d i) + 1 else ms_position (motor d i) - 1)
       else ms_position (motor d i))"
    unfolding t(1) e by (simp only: simp_thms)
  have "tacho_irq ref d = (if st = 0 then d0 else fold (tacho_port ref st) [0, 1, 2, 3] d0)"
    by (simp only: tacho_irq_def a d0_def Let_def split_beta fst_conv snd_conv)
  then show ?thesis
    unfolding a Let_def split_beta fst_conv snd_conv
    by (cases "st = 0") (simp_all only: f d0 if_True if_False bit_0_eq bot_apply bot_bool_def simp_thms)
qed

theorem tacho_counts_witness:
  "ms_position (motor (tacho_irq 91 demo_running) 2) =
    (let (st, g) = ev3_gpio_irq_ack 91 (md_gpio demo_running); m = motor demo_running 2;
         (int_level, dir) = ev3_output_port_tacho 2 g
     in if 0 \<le> ms_tacho_pin m \<and> ms_tacho_pin m div 32 = 91 div 32 \<and> bit st (nat (ms_tacho_pin m mod 32))
        then wrap32 (if int_level \<noteq> dir then ms_position m + 1 else ms_position m - 1)
        else ms_position m)"
  by (rule tacho_counts) (simp_all add: demo_running_facts)

end
