(* ===== verification/Ev3_Detect.thy ===== *)
theory Ev3_Detect
  imports Ev3_Port
begin

text \<open>
  Sensor auto-detection on the EV3 input ports
  (\<^verbatim>\<open>src/lego.ev3/system/libs/arch_ev3/src/sensor_detect.c\<close>): naming analog sensors by their pin-1 voltage,
  searching the ports, the connection-type decision tree and the question whether another daemon
  holds a port.

  The environment supplies its values as arguments: one read of the ADC device is a list of sixteen
  channel voltages, or \<open>None\<close> when the read is short; after a port was floated and has settled, the
  input words of the GPIO groups are \<open>ins\<close>; the reply of a peer daemon is the pair of its bound port
  and probe claim, or \<open>None\<close> when it does not run or answers something else.
\<close>

section \<open>Constants\<close>

definition PIN1_NEAR_5V :: int where "PIN1_NEAR_5V = 4900"
definition PIN1_NEAR_PIN2 :: int where "PIN1_NEAR_PIN2 = 3100"
definition PIN1_NEAR_GND :: int where "PIN1_NEAR_GND = 100"
definition EV3_ID_TOL_MV :: int where "EV3_ID_TOL_MV = 50"
definition EV3_PIN1_LEVEL :: bool where "EV3_PIN1_LEVEL = False"
definition EV3_ADC_MAX_CH :: int where "EV3_ADC_MAX_CH = 16"
definition EV3_SENSOR_PORT_NONE :: int where "EV3_SENSOR_PORT_NONE = -1"
definition EV3_SENSOR_TYPE_NONE :: int where "EV3_SENSOR_TYPE_NONE = 0"
definition EV3_SENSOR_TYPE_EV3_TOUCH :: int where "EV3_SENSOR_TYPE_EV3_TOUCH = 16"

lemmas detect_consts = PIN1_NEAR_5V_def PIN1_NEAR_PIN2_def PIN1_NEAR_GND_def EV3_ID_TOL_MV_def
  EV3_PIN1_LEVEL_def EV3_ADC_MAX_CH_def EV3_SENSOR_PORT_NONE_def EV3_SENSOR_TYPE_NONE_def
  EV3_SENSOR_TYPE_EV3_TOUCH_def

record id_ent =
  id_type :: int
  id_mv :: int

definition id_table :: "id_ent list" where
  "id_table = [\<lparr>id_type = EV3_SENSOR_TYPE_EV3_TOUCH, id_mv = 417\<rparr>]"

datatype ev3_conn_type = EV3_CONN_NONE | EV3_CONN_NXT_ANALOG | EV3_CONN_NXT_COLOR | EV3_CONN_NXT_I2C
  | EV3_CONN_EV3_ANALOG | EV3_CONN_EV3_UART | EV3_CONN_ERR

section \<open>Naming sensors by voltage\<close>

definition ev3_sensor_power_level :: bool where
  "ev3_sensor_power_level = EV3_PIN1_LEVEL"

definition ev3_sensor_power_ports :: "gpio_state \<Rightarrow> gpio_state" where
  "ev3_sensor_power_ports g = fold (\<lambda>p. ev3_input_port_power p EV3_PIN1_LEVEL) [0, 1, 2, 3] g"

fun closest_id :: "id_ent list \<Rightarrow> int \<Rightarrow> int \<times> int \<Rightarrow> int \<times> int" where
  "closest_id [] mv (best, bestd) = (best, bestd)"
| "closest_id (e # es) mv (best, bestd) =
     (let d = mv - id_mv e; d = (if d < 0 then - d else d)
      in closest_id es mv (if d < bestd then (id_type e, d) else (best, bestd)))"

definition ev3_sensor_type_from_mv :: "int \<Rightarrow> int" where
  "ev3_sensor_type_from_mv mv =
     (let (best, bestd) = closest_id id_table mv (EV3_SENSOR_TYPE_NONE, EV3_ID_TOL_MV + 1)
      in if bestd > EV3_ID_TOL_MV then EV3_SENSOR_TYPE_NONE else best)"

fun scan_channels :: "u16 list \<Rightarrow> int list \<Rightarrow> int" where
  "scan_channels adc [] = EV3_SENSOR_TYPE_NONE"
| "scan_channels adc (c # cs) =
     (let mv = uint (adc ! nat c)
      in if mv < PIN1_NEAR_GND \<or> mv \<ge> PIN1_NEAR_5V then scan_channels adc cs
         else if mv > PIN1_NEAR_PIN2 then scan_channels adc cs
         else
           let t = ev3_sensor_type_from_mv mv
           in if t \<noteq> EV3_SENSOR_TYPE_NONE then t else scan_channels adc cs)"

definition ev3_sensor_detect_port :: "int \<Rightarrow> int \<Rightarrow> u16 list option \<Rightarrow> int" where
  "ev3_sensor_detect_port fd port sample =
     (if fd < 0 \<or> port < 0 \<or> port \<ge> EV3_IN_PORT_COUNT then EV3_SENSOR_TYPE_NONE
      else
        let p1 = ev3_input_port_adc_channel_pin1 port
        in if p1 < 0 \<or> p1 \<ge> EV3_ADC_MAX_CH then EV3_SENSOR_TYPE_NONE
           else case sample of
                  None \<Rightarrow> EV3_SENSOR_TYPE_NONE
                | Some adc \<Rightarrow>
                    scan_channels adc
                      (map (\<lambda>adj. (p1 + adj + EV3_ADC_MAX_CH) mod EV3_ADC_MAX_CH) [1, 0, -1]))"

text \<open>The search; \<open>samples p\<close> is what the ADC returns when port \<open>p\<close> is examined.\<close>

fun find_from :: "int list \<Rightarrow> int \<Rightarrow> int \<Rightarrow> int \<Rightarrow> bool \<Rightarrow> (int \<Rightarrow> u16 list option) \<Rightarrow> int" where
  "find_from [] fd want_type skip uart_only samples = EV3_SENSOR_PORT_NONE"
| "find_from (p # ps) fd want_type skip uart_only samples =
     (if p = skip then find_from ps fd want_type skip uart_only samples
      else if uart_only \<and> ev3_input_port_uart_base p = 0 then find_from ps fd want_type skip uart_only samples
      else if ev3_sensor_detect_port fd p (samples p) = want_type then p
      else find_from ps fd want_type skip uart_only samples)"

definition find_common :: "int \<Rightarrow> int \<Rightarrow> int \<Rightarrow> bool \<Rightarrow> (int \<Rightarrow> u16 list option) \<Rightarrow> int" where
  "find_common fd want_type skip uart_only samples =
     (if fd < 0 then EV3_SENSOR_PORT_NONE else find_from [0, 1, 2, 3] fd want_type skip uart_only samples)"

definition ev3_sensor_find :: "int \<Rightarrow> int \<Rightarrow> int \<Rightarrow> (int \<Rightarrow> u16 list option) \<Rightarrow> int" where
  "ev3_sensor_find fd want_type skip samples = find_common fd want_type skip False samples"

definition ev3_sensor_find_uart :: "int \<Rightarrow> int \<Rightarrow> int \<Rightarrow> (int \<Rightarrow> u16 list option) \<Rightarrow> int" where
  "ev3_sensor_find_uart fd want_type skip samples = find_common fd want_type skip True samples"

section \<open>Connection type\<close>

definition read_pin1_mv :: "int \<Rightarrow> int \<Rightarrow> u16 list option \<Rightarrow> int" where
  "read_pin1_mv fd port sample =
     (if fd < 0 then -1
      else
        let p1 = ev3_input_port_adc_channel_pin1 port
        in if p1 < 0 \<or> p1 \<ge> EV3_ADC_MAX_CH then -1
           else case sample of None \<Rightarrow> -1 | Some adc \<Rightarrow> uint (adc ! nat p1))"

text \<open>The GPIO inputs once the floated port has settled.\<close>

definition settle :: "u32 list \<Rightarrow> gpio_state \<Rightarrow> gpio_state" where
  "settle ins g = g\<lparr>io_groups := map2 (\<lambda>r v. r\<lparr>g_in := v\<rparr>) (io_groups g) ins\<rparr>"

text \<open>The decision tree on the sampled flags: connection type and analog type id.\<close>

definition conn_tree :: "bool \<Rightarrow> bool \<Rightarrow> bool \<Rightarrow> bool \<Rightarrow> int \<Rightarrow> ev3_conn_type \<times> int" where
  "conn_tree pru pin2_low pin5_low pin6_high pin1_mv =
     (let pin1_loaded = (pin1_mv \<ge> 0 \<and> pin1_mv < PIN1_NEAR_5V);
          none = EV3_SENSOR_TYPE_NONE
      in if \<not> pin2_low \<and> \<not> pin1_loaded \<and> \<not> pin5_low \<and> \<not> pin6_high then (EV3_CONN_NONE, none)
         else if pin2_low then
           (if pru then (EV3_CONN_NXT_I2C, none)
            else if \<not> pin5_low \<and> pin6_high then
              (if pin1_mv \<ge> 0 \<and> pin1_mv < PIN1_NEAR_GND then (EV3_CONN_NXT_COLOR, none)
               else (EV3_CONN_NXT_I2C, none))
            else if pin5_low then (EV3_CONN_NXT_ANALOG, none)
            else if pin1_mv \<ge> 0 \<and> pin1_mv < PIN1_NEAR_GND then (EV3_CONN_NXT_COLOR, none)
            else (EV3_CONN_NXT_ANALOG, none))
         else if pin1_loaded then
           (if pin1_mv > PIN1_NEAR_PIN2 then (EV3_CONN_ERR, none)
            else if pin1_mv < PIN1_NEAR_GND then (EV3_CONN_EV3_UART, none)
            else (EV3_CONN_EV3_ANALOG, ev3_sensor_type_from_mv pin1_mv))
         else if pin6_high then (EV3_CONN_NXT_I2C, none)
         else if pin1_mv < 0 \<and> \<not> pin5_low then (EV3_CONN_NONE, none)
         else (EV3_CONN_ERR, none))"

definition ev3_sensor_conn_type ::
  "int \<Rightarrow> int \<Rightarrow> u32 list \<Rightarrow> u16 list option \<Rightarrow> gpio_state \<Rightarrow> (ev3_conn_type \<times> int) \<times> gpio_state" where
  "ev3_sensor_conn_type fd port ins sample g =
     (if port < 0 \<or> port \<ge> EV3_IN_PORT_COUNT then ((EV3_CONN_NONE, EV3_SENSOR_TYPE_NONE), g)
      else
        let g = settle ins (ev3_input_port_float port g);
            pru = ev3_input_port_is_pru port;
            pin2_low = (\<not> ev3_gpio_read (ev3_input_port_gpio port EV3_PIN2) g);
            pin5_low = (if pru then False else \<not> ev3_gpio_read (ev3_input_port_gpio port EV3_PIN5) g);
            pin6_high = (if pru then False else ev3_gpio_read (ev3_input_port_gpio port EV3_PIN6) g)
        in (conn_tree pru pin2_low pin5_low pin6_high (read_pin1_mv fd port sample), g))"

definition ev3_sensor_port_is_i2c :: "int \<Rightarrow> int \<Rightarrow> u32 list \<Rightarrow> u16 list option \<Rightarrow> gpio_state \<Rightarrow> bool \<times> gpio_state" where
  "ev3_sensor_port_is_i2c fd port ins sample g =
     (let (ct, g) = ev3_sensor_conn_type fd port ins sample g in (fst ct = EV3_CONN_NXT_I2C, g))"

definition ev3_sensor_port_is_uart :: "int \<Rightarrow> int \<Rightarrow> u32 list \<Rightarrow> u16 list option \<Rightarrow> gpio_state \<Rightarrow> bool \<times> gpio_state" where
  "ev3_sensor_port_is_uart fd port ins sample g =
     (let (ct, g) = ev3_sensor_conn_type fd port ins sample g in (fst ct = EV3_CONN_EV3_UART, g))"

section \<open>Peers\<close>

definition conn_peer_nodes :: "string list" where
  "conn_peer_nodes = [''/dev/color0'', ''/dev/us0'', ''/dev/gyro0'', ''/dev/ir0'', ''/dev/touch0'', ''/dev/nxt-us0'']"

text \<open>Whether a peer's reply says it has bound the port or is probing it.\<close>

definition peer_holds :: "int \<Rightarrow> (int \<times> int) option \<Rightarrow> bool" where
  "peer_holds port reply \<longleftrightarrow>
     (case reply of None \<Rightarrow> False | Some (p, probing) \<Rightarrow> p = port \<or> probing = port + 1)"

definition ev3_sensor_port_busy :: "int \<Rightarrow> string option \<Rightarrow> (string \<Rightarrow> (int \<times> int) option) \<Rightarrow> bool" where
  "ev3_sensor_port_busy port self_node peer =
     list_ex (\<lambda>node. self_node \<noteq> Some node \<and> peer_holds port (peer node)) conn_peer_nodes"

section \<open>Properties\<close>

lemma ports_cases: "0 \<le> p \<Longrightarrow> p < EV3_IN_PORT_COUNT \<Longrightarrow> p = 0 \<or> p = 1 \<or> p = 2 \<or> p = 3"
  by (auto simp: EV3_IN_PORT_COUNT_def)

lemma type_from_mv_exact:
  "ev3_sensor_type_from_mv mv = (if 367 \<le> mv \<and> mv \<le> 467 then EV3_SENSOR_TYPE_EV3_TOUCH else EV3_SENSOR_TYPE_NONE)"
  by (auto simp: ev3_sensor_type_from_mv_def id_table_def detect_consts Let_def)

lemma detect_type: "ev3_sensor_detect_port fd p smp \<in> {EV3_SENSOR_TYPE_NONE, EV3_SENSOR_TYPE_EV3_TOUCH}"
proof -
  have "scan_channels adc cs \<in> {EV3_SENSOR_TYPE_NONE, EV3_SENSOR_TYPE_EV3_TOUCH}" for adc cs
    by (induction cs) (simp_all add: Let_def type_from_mv_exact)
  then show ?thesis
    unfolding ev3_sensor_detect_port_def Let_def by (simp del: scan_channels.simps split: option.split)
qed

lemma uart_base_nonzero: "0 \<le> p \<Longrightarrow> p < 4 \<Longrightarrow> ev3_input_port_uart_base p \<noteq> 0"
  using ports_cases [of p]
  by (auto simp: EV3_IN_PORT_COUNT_def ev3_input_port_uart_base_def in_ok_def in_ports_def EV3_UART_PRU_BASE_def
      EV3_UART_PRU_SENTINEL_def)

text \<open>
  The search for UART sensors is the general search: although it is meant to look only at the two
  ports with a hardware UART, every port has a non-zero UART base, so both searches return the same
  port for all inputs.
\<close>

theorem find_uart_is_find:
  "ev3_sensor_find_uart fd want_type skip samples = ev3_sensor_find fd want_type skip samples"
proof -
  have "find_from ps fd want_type skip True samples = find_from ps fd want_type skip False samples"
    if "list_all (\<lambda>p. 0 \<le> p \<and> p < 4) ps" for ps
    using that by (induction ps) (auto simp: uart_base_nonzero)
  then show ?thesis by (simp add: ev3_sensor_find_uart_def ev3_sensor_find_def find_common_def del: find_from.simps)
qed

text \<open>
  Detection by voltage also listens to neighbouring lines: with nothing on input port 1 (its pin-1
  channel idle at the pull-up), a voltage of 367 to 467 mV on the pin-6 data line of port 2 is
  reported as a touch sensor on port 1.
\<close>

theorem detect_hears_neighbour:
  assumes "0 \<le> fd" "adc ! nat (ev3_input_port_adc_channel_pin1 0) \<ge> 4900"
    "367 \<le> adc ! nat (ev3_input_port_adc_channel 1)" "adc ! nat (ev3_input_port_adc_channel 1) \<le> 467"
  shows "ev3_sensor_detect_port fd 0 (Some adc) = EV3_SENSOR_TYPE_EV3_TOUCH"
proof -
  have c: "ev3_input_port_adc_channel_pin1 0 = 6" "ev3_input_port_adc_channel 1 = 7"
    by (simp_all add: ev3_input_port_adc_channel_pin1_def ev3_input_port_adc_channel_def in_ok_def
        EV3_IN_PORT_COUNT_def in_ports_def)
  have "367 \<le> uint (adc ! 7)" "uint (adc ! 7) \<le> 467"
    using assms(3,4) by (simp_all add: c word_le_def)
  then show ?thesis
    using assms(1) c by (simp add: ev3_sensor_detect_port_def Let_def detect_consts EV3_IN_PORT_COUNT_def type_from_mv_exact)
qed

theorem detect_hears_neighbour_witness:
  "ev3_sensor_detect_port 3 0 (Some ((replicate 16 5000)[7 := 400])) = EV3_SENSOR_TYPE_EV3_TOUCH"
  by (rule detect_hears_neighbour)
     (simp_all add: ev3_input_port_adc_channel_pin1_def ev3_input_port_adc_channel_def in_ok_def
        EV3_IN_PORT_COUNT_def in_ports_def)

lemma settle_pins:
  assumes "gpio_inv g" "length ins = length (io_groups g)" "valid_pin q"
  shows "pin_level (settle ins g) q = pin_level g q" "pin_is_output (settle ins g) q = pin_is_output g q"
proof -
  have "nat q div 32 < 5" using assms(3) by (auto simp: valid_pin_def MAX_GPIO_def)
  then show "pin_level (settle ins g) q = pin_level g q" "pin_is_output (settle ins g) q = pin_is_output g q"
    using assms(1,2) by (simp_all add: settle_def pin_level_def pin_is_output_def gpio_group_def gpio_inv_def)
qed

definition port_pins :: "int \<Rightarrow> int set" where
  "port_pins port = {ip_pin1 (inp port), ip_pin2 (inp port)} \<union>
     (if ev3_input_port_is_pru port then {} else {ip_pin5 (inp port), ip_pin6 (inp port), ip_buf_en (inp port)})"

lemma in_pins_all:
  assumes "in_ok port"
  shows "valid_pin (ip_pin1 (inp port))" "valid_pin (ip_pin2 (inp port))" "valid_pin (ip_pin5 (inp port))"
    "valid_pin (ip_pin6 (inp port))" "valid_pin (ip_buf_en (inp port))"
    "distinct [ip_pin1 (inp port), ip_pin2 (inp port), ip_pin5 (inp port), ip_pin6 (inp port), ip_buf_en (inp port)]"
proof -
  have "port = 0 \<or> port = 1 \<or> port = 2 \<or> port = 3"
    using assms by (auto simp: in_ok_def EV3_IN_PORT_COUNT_def)
  then show "valid_pin (ip_pin1 (inp port))" "valid_pin (ip_pin2 (inp port))" "valid_pin (ip_pin5 (inp port))"
    "valid_pin (ip_pin6 (inp port))" "valid_pin (ip_buf_en (inp port))"
    "distinct [ip_pin1 (inp port), ip_pin2 (inp port), ip_pin5 (inp port), ip_pin6 (inp port), ip_buf_en (inp port)]"
    by (auto simp: in_ports_def valid_pin_def MAX_GPIO_def eval_nat_numeral)
qed

text \<open>The two kinds of pin write in a float, and what they do to every pin.\<close>

definition drive :: "int \<Rightarrow> bool \<Rightarrow> gpio_state \<Rightarrow> gpio_state" where
  "drive p v g = ev3_gpio_write p v (ev3_gpio_config p GPIO_OUTPUT g)"

lemma drive_pins:
  assumes "gpio_inv g" "valid_pin p" "valid_pin q"
  shows "gpio_inv (drive p v g)" "pin_level (drive p v g) q = (if p = q then v else pin_level g q)"
    "pin_is_output (drive p v g) q = (if p = q then True else pin_is_output g q)"
  using assms by (simp_all add: drive_def config_level config_output pin_laws)

lemma input_pins:
  assumes "gpio_inv g" "valid_pin p" "valid_pin q"
  shows "gpio_inv (ev3_gpio_config p GPIO_INPUT g)" "pin_level (ev3_gpio_config p GPIO_INPUT g) q = pin_level g q"
    "pin_is_output (ev3_gpio_config p GPIO_INPUT g) q = (if p = q then False else pin_is_output g q)"
  using assms by (simp_all add: config_level config_output GPIO_INPUT_def GPIO_OUTPUT_def)

lemma float_form:
  "in_ok port \<Longrightarrow> ev3_input_port_float port g =
     (let g1 = ev3_gpio_config (ip_pin2 (inp port)) GPIO_INPUT (drive (ip_pin1 (inp port)) False g)
      in if ev3_input_port_is_pru port then g1
         else drive (ip_buf_en (inp port)) True (ev3_gpio_config (ip_pin6 (inp port)) GPIO_INPUT
                (ev3_gpio_config (ip_pin5 (inp port)) GPIO_INPUT g1)))"
  by (simp add: ev3_input_port_float_def ev3_input_port_is_pru_def drive_def Let_def)

lemma float_pins:
  assumes "gpio_inv g" "in_ok port" "valid_pin q"
  shows "gpio_inv (ev3_input_port_float port g)"
    "pin_is_output (ev3_input_port_float port g) (ip_pin1 (inp port))"
    "\<not> pin_level (ev3_input_port_float port g) (ip_pin1 (inp port))"
    "q \<notin> port_pins port \<Longrightarrow> pin_level (ev3_input_port_float port g) q = pin_level g q \<and>
       pin_is_output (ev3_input_port_float port g) q = pin_is_output g q"
proof -
  note v = in_pins_all [OF assms(2)]
  define g1 where "g1 = ev3_gpio_config (ip_pin2 (inp port)) GPIO_INPUT (drive (ip_pin1 (inp port)) False g)"
  define g2 where "g2 = ev3_gpio_config (ip_pin6 (inp port)) GPIO_INPUT (ev3_gpio_config (ip_pin5 (inp port)) GPIO_INPUT g1)"
  have g1: "gpio_inv g1"
      "valid_pin p \<Longrightarrow> pin_level g1 p = (if ip_pin1 (inp port) = p then False else pin_level g p)"
      "valid_pin p \<Longrightarrow> pin_is_output g1 p =
        (if ip_pin2 (inp port) = p then False else if ip_pin1 (inp port) = p then True else pin_is_output g p)" for p
    unfolding g1_def using assms(1) v by (simp_all add: drive_pins input_pins)
  have g2: "gpio_inv g2" "valid_pin p \<Longrightarrow> pin_level g2 p = pin_level g1 p"
      "valid_pin p \<Longrightarrow> pin_is_output g2 p =
        (if ip_pin6 (inp port) = p then False else if ip_pin5 (inp port) = p then False else pin_is_output g1 p)" for p
    unfolding g2_def using g1(1) v by (simp_all add: input_pins)
  have f: "ev3_input_port_float port g = (if ev3_input_port_is_pru port then g1 else drive (ip_buf_en (inp port)) True g2)"
    using float_form [OF assms(2), of g] by (simp add: g1_def g2_def Let_def)
  have d: "ip_pin2 (inp port) \<noteq> ip_pin1 (inp port)" "ip_pin5 (inp port) \<noteq> ip_pin1 (inp port)"
      "ip_pin6 (inp port) \<noteq> ip_pin1 (inp port)" "ip_buf_en (inp port) \<noteq> ip_pin1 (inp port)"
    using v(6) by auto
  show "gpio_inv (ev3_input_port_float port g)"
    using f g1(1) drive_pins(1) [OF g2(1) v(5) v(5)] by simp
  show "pin_is_output (ev3_input_port_float port g) (ip_pin1 (inp port))"
    "\<not> pin_level (ev3_input_port_float port g) (ip_pin1 (inp port))"
    using d v(1) g1 g2 drive_pins [OF g2(1) v(5) v(1), of True] by (simp_all add: f)
  show "q \<notin> port_pins port \<Longrightarrow> pin_level (ev3_input_port_float port g) q = pin_level g q \<and>
       pin_is_output (ev3_input_port_float port g) q = pin_is_output g q"
    using assms(3) g1(2,3) [of q] g2(2,3) [of q] drive_pins [OF g2(1) v(5) assms(3), of True]
    by (auto simp: f port_pins_def split: if_splits)
qed

text \<open>
  Classifying a port disturbs nothing else: whatever the lines read, pin 1 of the port ends driven
  low, so the 9 V supply is never switched onto a sensor, and no pin outside the port changes level
  or direction; on the soft-UART ports not even the data lines and the buffer of the port itself do.
\<close>

theorem classify_isolated:
  assumes "gpio_inv g" "0 \<le> port" "port < 4" "length ins = 5"
  shows "pin_is_output (snd (ev3_sensor_conn_type fd port ins sample g)) (ip_pin1 (inp port)) \<and>
    \<not> pin_level (snd (ev3_sensor_conn_type fd port ins sample g)) (ip_pin1 (inp port)) \<and>
    (\<forall>q. valid_pin q \<and> q \<notin> port_pins port \<longrightarrow>
       pin_level (snd (ev3_sensor_conn_type fd port ins sample g)) q = pin_level g q \<and>
       pin_is_output (snd (ev3_sensor_conn_type fd port ins sample g)) q = pin_is_output g q)"
proof -
  let ?f = "ev3_input_port_float port g"
  have ok: "in_ok port" using assms(2,3) by (simp add: in_ok_def EV3_IN_PORT_COUNT_def)
  have e: "snd (ev3_sensor_conn_type fd port ins sample g) = settle ins ?f"
    using assms(2,3) by (simp add: ev3_sensor_conn_type_def EV3_IN_PORT_COUNT_def Let_def)
  have inv: "gpio_inv ?f" using float_pins(1) [OF assms(1) ok in_pins_all(1) [OF ok]] .
  then have len: "length ins = length (io_groups ?f)" using assms(4) by (simp add: gpio_inv_def)
  show ?thesis
    unfolding e using settle_pins [OF inv len] float_pins [OF assms(1) ok] in_pins_all(1) [OF ok] by auto
qed

theorem classify_isolated_witness:
  "\<not> pin_level (snd (ev3_sensor_conn_type 3 1 [0, 0, 0, 0, 0] None demo_gpio)) 140"
proof -
  have "gpio_inv demo_gpio" by (simp add: gpio_inv_def demo_gpio_def)
  then show ?thesis
    using classify_isolated [of demo_gpio 1 "[0, 0, 0, 0, 0]" 3 None] by (simp add: in_ports_def)
qed

end
