(* ===== verification/Ev3_Sensor_Dev.thy ===== *)
theory Ev3_Sensor_Dev
  imports Ev3_Detect
begin

text \<open>
  The client protocol of the EV3 sensor daemons
  (\<^verbatim>\<open>src/lego.ev3/system/libs/arch_ev3/include/arch/ev3/sensor_dev.h\<close>): the published sample, the command
  record and their codes, and the device-control request every daemon answers.

  A request carries the command record \<open>Some c\<close>, or \<open>None\<close> when the message is too short for one; a
  reply is the result code with the sample when one was asked for.
\<close>

record ev3_sensor_data =
  sd_type :: int
  sd_port :: int
  sd_connected :: bool
  sd_mode :: int
  sd_nvalues :: int
  sd_value :: "int list"
  sd_raw_mv :: int
  sd_errors :: int
  sd_timestamp_ms :: int
  sd_probing :: int

record ev3_sensor_cmd =
  sc_cmd :: int
  sc_arg0 :: int
  sc_arg1 :: int
  sc_arg2 :: int

definition EV3_SENSOR_MAX_VALUES :: int where "EV3_SENSOR_MAX_VALUES = 8"
definition EV3_SENSOR_TYPE_NXT_US :: int where "EV3_SENSOR_TYPE_NXT_US = 5"
definition EV3_SENSOR_TYPE_EV3_COLOR :: int where "EV3_SENSOR_TYPE_EV3_COLOR = 29"
definition EV3_SENSOR_TYPE_EV3_US :: int where "EV3_SENSOR_TYPE_EV3_US = 30"
definition EV3_SENSOR_TYPE_EV3_GYRO :: int where "EV3_SENSOR_TYPE_EV3_GYRO = 32"
definition EV3_SENSOR_TYPE_EV3_IR :: int where "EV3_SENSOR_TYPE_EV3_IR = 33"
definition EV3_SENSOR_CMD_SET_MODE :: int where "EV3_SENSOR_CMD_SET_MODE = 1"
definition EV3_SENSOR_CMD_RESET :: int where "EV3_SENSOR_CMD_RESET = 2"
definition EV3_SENSOR_CMD_RAW_WRITE :: int where "EV3_SENSOR_CMD_RAW_WRITE = 3"
definition EV3_SENSOR_CNTL_GET_DATA :: int where "EV3_SENSOR_CNTL_GET_DATA = 1"
definition EV3_SENSOR_CNTL_SET_MODE :: int where "EV3_SENSOR_CNTL_SET_MODE = 2"
definition EV3_SENSOR_CNTL_COMMAND :: int where "EV3_SENSOR_CNTL_COMMAND = 3"

lemmas sensor_dev_consts = EV3_SENSOR_MAX_VALUES_def EV3_SENSOR_TYPE_NXT_US_def
  EV3_SENSOR_TYPE_EV3_COLOR_def EV3_SENSOR_TYPE_EV3_US_def EV3_SENSOR_TYPE_EV3_GYRO_def
  EV3_SENSOR_TYPE_EV3_IR_def EV3_SENSOR_CMD_SET_MODE_def EV3_SENSOR_CMD_RESET_def
  EV3_SENSOR_CMD_RAW_WRITE_def EV3_SENSOR_CNTL_GET_DATA_def EV3_SENSOR_CNTL_SET_MODE_def
  EV3_SENSOR_CNTL_COMMAND_def

definition ev3_sensor_data_zero :: ev3_sensor_data where
  "ev3_sensor_data_zero =
     \<lparr>sd_type = 0, sd_port = 0, sd_connected = False, sd_mode = 0, sd_nvalues = 0, sd_value = replicate 8 0,
      sd_raw_mv = 0, sd_errors = 0, sd_timestamp_ms = 0, sd_probing = 0\<rparr>"

text \<open>\<^verbatim>\<open>sizeof(ev3_sensor_data_t)\<close> (the 64-bit time stamp is aligned to 8 bytes and the record padded to a multiple of 8) and
  \<^verbatim>\<open>sizeof(ev3_sensor_cmd_t)\<close>.\<close>

definition sizeof_data :: int where "sizeof_data = 80"
definition sizeof_cmd :: int where "sizeof_cmd = 16"

end
