(* ===== verification/Ev3_Uart_Sensord.thy ===== *)
theory Ev3_Uart_Sensord
  imports Ev3_Link_Props Ev3_Sensor_Dev
begin

text \<open>
  The generic daemon of the EV3 UART sensors (\<^verbatim>\<open>src/lego.ev3/system/libs/arch_ev3/src/uart_sensord.c\<close>) and its
  four instances (colour, gyro, infrared, ultrasonic): publishing samples, mode and reset commands,
  binding a port, the protocol probe, the loop with its unplug timer.

  The static variables are the record \<open>sensord\<close>; the GPIO pins are passed along. What a step reads from
  outside is the record \<open>sensord_env\<close>: the clock, the UART of a port, the soft-UART bring-up, ADC samples,
  settled GPIO inputs, the replies of the peers. While a port is probed, the rounds of the polling loop
  are given as a list: the bytes that arrived, the clock the poll reads, the requests served once the poll
  has unmasked them and the clock read after it. A probe whose list ends before the loop does has no
  result (\<open>None\<close>).

  Client requests are served between two rounds of the daemon's loop and, as the source points out, in the middle
  of a probe: while the peers are asked about a claimed port and after every poll of the polling loop.
  A round hands out the samples served in it, each with the port that was being probed. Opening,
  classifying and closing a port are single steps.
\<close>

section \<open>State\<close>

definition UART_LOST_MS :: u32 where "UART_LOST_MS = 2500"
definition UART_SYNC_TIMEOUT_MS :: u32 where "UART_SYNC_TIMEOUT_MS = 6000"
definition PROBE_STAGGER_MS :: u32 where "PROBE_STAGGER_MS = 300"
definition PROBE_RETRY_MS :: u32 where "PROBE_RETRY_MS = 2000"
definition PROBE_SYNC_MS :: u32 where "PROBE_SYNC_MS = 3500"
definition PROBE_IDLE_MS :: u32 where "PROBE_IDLE_MS = 200"

record ev3_uart_sensord_cfg =
  cf_name :: string
  cf_mnt_point :: string
  cf_type_id :: int
  cf_default_port :: int
  cf_default_mode :: int

record sensord =
  sn_cfg :: ev3_uart_sensord_cfg
  sn_s :: ev3_uart_sensor
  sn_port :: int
  sn_mode :: int
  sn_reset_mode :: int
  sn_pinned :: int
  sn_adc_fd :: int
  sn_scan_ms :: u32
  sn_lost_ms :: u32
  sn_next_probe_ms :: u32
  sn_self_node :: string
  sn_probe_claim :: int
  sn_ever_synced :: bool
  sn_held_n :: int
  sn_held_value :: "int list"

text \<open>A request of a client: the arguments of the callback that serves it and the clocks it reads.\<close>

datatype sensor_req = ReqRead int int | ReqWrite "ev3_sensor_cmd option" int u32
  | ReqCntl int "ev3_sensor_cmd option" u32 int | ReqShell u32 "string list"

record probe_round =
  pr_bytes :: "u8 list"
  pr_poll_now :: u32
  pr_reqs :: "sensor_req list"
  pr_now :: u32

record sensord_env =
  se_now :: u32
  se_end :: u32
  se_tic :: int
  se_uart :: "int \<Rightarrow> uart16550"
  se_pru_enable :: "int \<Rightarrow> gpio_state \<Rightarrow> int \<times> gpio_state"
  se_pru_disable :: "int \<Rightarrow> gpio_state \<Rightarrow> gpio_state"
  se_adc_fd :: int
  se_samples :: "int \<Rightarrow> u16 list option"
  se_ins :: "int \<Rightarrow> u32 list"
  se_peer :: "string \<Rightarrow> (int \<times> int) option"
  se_asking :: "int \<Rightarrow> sensor_req list"
  se_probe_t0 :: "int \<Rightarrow> u32"
  se_rounds :: "int \<Rightarrow> probe_round list"

type_synonym sensord_state = "sensord \<times> gpio_state"

section \<open>Samples and commands\<close>

definition fill_data :: "int \<Rightarrow> sensord \<Rightarrow> ev3_sensor_data \<times> sensord" where
  "fill_data tic d =
     (let s = sn_s d;
          r = ev3_sensor_data_zero\<lparr>
                sd_type := (if us_synced s then us_type_id s else cf_type_id (sn_cfg d)),
                sd_port := sn_port d,
                sd_probing := (if sn_probe_claim d \<ge> 0 then sn_probe_claim d + 1 else 0),
                sd_connected := us_synced s, sd_mode := sn_mode d, sd_errors := sint (us_errors s),
                sd_timestamp_ms := tic\<rparr>;
          n = (if sn_mode d \<ge> 0 \<and> sn_mode d < EV3_UART_MAX_MODE then us_datasets s ! nat (sn_mode d) else 0);
          n = (if n > EV3_SENSOR_MAX_VALUES then EV3_SENSOR_MAX_VALUES else n);
          n = (if n < 0 then 0 else n)
      in if \<not> us_synced s \<and> sn_held_n d > 0 then
           (r\<lparr>sd_nvalues := sn_held_n d,
              sd_value := take (nat (sn_held_n d)) (sn_held_value d) @ drop (nat (sn_held_n d)) (sd_value r)\<rparr>, d)
         else
           let vs = map (\<lambda>i. ev3_uart_sensor_dataset (sn_mode d) i s) [0..n - 1];
               r = r\<lparr>sd_nvalues := n, sd_value := vs @ drop (nat n) (sd_value r)\<rparr>;
               d = (if us_synced s \<and> n > 0
                    then d\<lparr>sn_held_n := n, sn_held_value := vs @ drop (nat n) (sn_held_value d)\<rparr> else d)
           in (r, d))"

definition set_mode :: "int \<Rightarrow> u32 \<Rightarrow> sensord \<Rightarrow> int \<times> sensord" where
  "set_mode m now d =
     (if m < 0 \<or> m \<ge> EV3_UART_MAX_MODE then (-1, d)
      else if us_synced (sn_s d) \<and> m \<ge> us_modes (sn_s d) then (-1, d)
      else
        let d = d\<lparr>sn_mode := m, sn_held_n := 0\<rparr>;
            s = (sn_s d)\<lparr>us_report_mode := m\<rparr>
        in (0, d\<lparr>sn_s := snd (ev3_uart_sensor_select m now s)\<rparr>))"

definition do_reset :: "u32 \<Rightarrow> sensord \<Rightarrow> int \<times> sensord" where
  "do_reset now d =
     (if \<not> us_synced (sn_s d) \<or> us_modes (sn_s d) < 2 then (-1, d)
      else
        let tmp = (if sn_mode d = 0 then 1 else 0);
            d = d\<lparr>sn_reset_mode := sn_mode d\<rparr>;
            s = (sn_s d)\<lparr>us_report_mode := tmp\<rparr>
        in (0, d\<lparr>sn_s := snd (ev3_uart_sensor_select tmp now s)\<rparr>))"

definition sensor_command :: "ev3_sensor_cmd \<Rightarrow> u32 \<Rightarrow> sensord \<Rightarrow> int \<times> sensord" where
  "sensor_command c now d =
     (if sc_cmd c = EV3_SENSOR_CMD_SET_MODE then set_mode (sc_arg0 c) now d
      else if sc_cmd c = EV3_SENSOR_CMD_RESET then do_reset now d
      else if sc_cmd c = EV3_SENSOR_CMD_RAW_WRITE then
        let b = [word_of_int (sc_arg0 c), word_of_int (sc_arg1 c), word_of_int (sc_arg2 c)];
            n = (if sc_arg1 c = -1 then 1 else if sc_arg2 c = -1 then 2 else 3);
            (r, s) = ev3_uart_sensor_write (take n b) (sn_s d)
        in (if r = int n then 0 else -1, d\<lparr>sn_s := s\<rparr>)
      else (-1, d))"

definition sensor_read :: "int \<Rightarrow> int \<Rightarrow> sensord \<Rightarrow> (int \<times> ev3_sensor_data option) \<times> sensord" where
  "sensor_read sz tic d =
     (if sz < sizeof_data then ((-1, None), d)
      else let (r, d) = fill_data tic d in ((sizeof_data, Some r), d))"

definition sensor_write :: "ev3_sensor_cmd option \<Rightarrow> int \<Rightarrow> u32 \<Rightarrow> sensord \<Rightarrow> int \<times> sensord" where
  "sensor_write buf sz now d =
     (case buf of
        None \<Rightarrow> (-1, d)
      | Some c \<Rightarrow>
          if sz < sizeof_cmd then (-1, d)
          else let (r, d) = sensor_command c now d in (if r \<noteq> 0 then -1 else sizeof_cmd, d))"

definition sensor_dev_cntl ::
  "int \<Rightarrow> ev3_sensor_cmd option \<Rightarrow> u32 \<Rightarrow> int \<Rightarrow> sensord \<Rightarrow> (int \<times> ev3_sensor_data option) \<times> sensord" where
  "sensor_dev_cntl cmd msg now tic d =
     (if cmd = EV3_SENSOR_CNTL_GET_DATA then (let (r, d) = fill_data tic d in ((0, Some r), d))
      else if cmd = EV3_SENSOR_CNTL_SET_MODE \<or> cmd = EV3_SENSOR_CNTL_COMMAND then
        (case msg of
           None \<Rightarrow> ((-1, None), d)
         | Some c \<Rightarrow>
             let c = (if cmd = EV3_SENSOR_CNTL_SET_MODE then c\<lparr>sc_cmd := EV3_SENSOR_CMD_SET_MODE\<rparr> else c);
                 (r, d) = sensor_command c now d
             in ((r, None), d))
      else ((-1, None), d))"

section \<open>Ports\<close>

text \<open>
  Opening and closing the link with their effect on the pins; a failed bring-up leaves the cleared
  structure behind.
\<close>

definition link_open :: "sensord_env \<Rightarrow> int \<Rightarrow> int \<Rightarrow> ev3_uart_sensor \<Rightarrow> gpio_state \<Rightarrow> bool \<times> ev3_uart_sensor \<times> gpio_state"
  where
  "link_open e port mode s g =
     (if port < 0 \<or> port \<ge> EV3_IN_PORT_COUNT then (False, s, g)
      else
        let base = ev3_input_port_uart_base port; irq = ev3_input_port_uart_irq port
        in if base = 0 \<or> irq = 0 then (False, s, g)
           else
             let g = ev3_input_port_power port ev3_sensor_power_level g;
                 (rc, g) = ev3_input_port_uart_enable (se_pru_enable e) port g
             in case ev3_uart_sensor_open base irq (rc = 0) (se_uart e port) port mode of
                  None \<Rightarrow> (False, (ev3_uart_sensor_zero (se_uart e port))\<lparr>us_port := port, us_report_mode := mode,
                             us_requested_mode := mode, us_new_mode := -1, us_speed := EV3_UART_SPEED_MIN\<rparr>, g)
                | Some s \<Rightarrow> (True, s, g))"

definition link_close :: "sensord_env \<Rightarrow> ev3_uart_sensor \<Rightarrow> gpio_state \<Rightarrow> ev3_uart_sensor \<times> gpio_state" where
  "link_close e s g =
     (if us_base s = 0 then (s, g)
      else (ev3_uart_sensor_close s,
            ev3_input_port_power (us_port s) ev3_sensor_power_level
              (ev3_input_port_uart_disable (se_pru_disable e) (us_port s) g)))"

text \<open>The variables as they are set when a port has been bound.\<close>

definition bound_to :: "int \<Rightarrow> sensord \<Rightarrow> sensord" where
  "bound_to port d = d\<lparr>sn_port := port, sn_reset_mode := -1, sn_lost_ms := 0, sn_held_n := 0,
     sn_ever_synced := False, sn_probe_claim := EV3_SENSOR_PORT_NONE\<rparr>"

definition bind :: "sensord_env \<Rightarrow> int \<Rightarrow> sensord_state \<Rightarrow> sensord_state" where
  "bind e port = (\<lambda>(d, g).
     if port < 0 then (d, g)
     else
       let (ok, s, g) = link_open e port (sn_mode d) (sn_s d) g;
           d = d\<lparr>sn_s := s\<rparr>
       in (if ok then bound_to port d else d, g))"

definition unbind :: "sensord_env \<Rightarrow> sensord_state \<Rightarrow> sensord_state" where
  "unbind e = (\<lambda>(d, g).
     let (s, g) = link_close e (sn_s d) g
     in (d\<lparr>sn_s := s, sn_port := EV3_SENSOR_PORT_NONE, sn_reset_mode := -1, sn_lost_ms := 0, sn_held_n := 0,
           sn_ever_synced := False, sn_probe_claim := EV3_SENSOR_PORT_NONE, sn_next_probe_ms := 0\<rparr>, g))"

definition scan_and_bind :: "sensord_env \<Rightarrow> u32 \<Rightarrow> sensord_state \<Rightarrow> sensord_state" where
  "scan_and_bind e now = (\<lambda>(d, g).
     let d = d\<lparr>sn_scan_ms := now\<rparr>;
         d = (if sn_adc_fd d < 0 then d\<lparr>sn_adc_fd := se_adc_fd e\<rparr> else d);
         g = ev3_sensor_power_ports g;
         port = (if sn_pinned d \<ge> 0
                 then (if ev3_input_port_uart_base (sn_pinned d) \<noteq> 0 then sn_pinned d else EV3_SENSOR_PORT_NONE)
                 else ev3_sensor_find_uart (sn_adc_fd d) (cf_type_id (sn_cfg d)) EV3_SENSOR_PORT_NONE (se_samples e))
     in if port \<ge> 0 then bind e port (d, g) else (d, g))"

text \<open>The shell command; the texts are the constructors of \<open>sensor_text\<close>.\<close>

datatype sensor_text = ModeSet int bool | ResetDone bool | ScanDone bool | Searching | Info int

definition sensor_cmd :: "sensord_env \<Rightarrow> string list \<Rightarrow> sensord_state \<Rightarrow> sensor_text \<times> sensord_state" where
  "sensor_cmd e argv = (\<lambda>(d, g).
     let op = (if argv = [] then ''info'' else argv ! 0)
     in if op = ''mode'' \<and> length argv > 1 then
          let (r, d) = set_mode (atoi (argv ! 1)) (se_now e) d in (ModeSet (sn_mode d) (r = 0), d, g)
        else if op = ''reset'' then let (r, d) = do_reset (se_now e) d in (ResetDone (r = 0), d, g)
        else if op = ''scan'' then
          let s = (if sn_port d \<ge> 0 then unbind e (d, g) else (d, g));
              s = scan_and_bind e (se_now e) s
          in (ScanDone (sn_port (fst s) \<ge> 0), s)
        else if sn_port d < 0 then (Searching, d, g)
        else (Info (sn_port d + 1), d, g))"

section \<open>Requests\<close>

text \<open>Serving a request: the sample it returns, if any.\<close>

definition serve_req :: "sensord_env \<Rightarrow> sensor_req \<Rightarrow> sensord_state \<Rightarrow> ev3_sensor_data option \<times> sensord_state" where
  "serve_req e q = (\<lambda>(d, g). case q of
     ReqRead sz tic \<Rightarrow> (let ((_, r), d) = sensor_read sz tic d in (r, d, g))
   | ReqWrite buf sz now \<Rightarrow> (None, snd (sensor_write buf sz now d), g)
   | ReqCntl cmd msg now tic \<Rightarrow> (let ((_, r), d) = sensor_dev_cntl cmd msg now tic d in (r, d, g))
   | ReqShell now argv \<Rightarrow> (None, snd (sensor_cmd (e\<lparr>se_now := now\<rparr>) argv (d, g))))"

fun serve_reqs :: "sensord_env \<Rightarrow> sensor_req list \<Rightarrow> sensord_state \<Rightarrow> ev3_sensor_data list \<times> sensord_state" where
  "serve_reqs e [] s = ([], s)"
| "serve_reqs e (q # qs) s =
     (let (r, s) = serve_req e q s; (ms, s) = serve_reqs e qs s in (case r of None \<Rightarrow> ms | Some m \<Rightarrow> m # ms, s))"

section \<open>The protocol probe\<close>

definition probe_slot :: "sensord \<Rightarrow> int" where
  "probe_slot d =
     (if cf_type_id (sn_cfg d) = EV3_SENSOR_TYPE_EV3_COLOR then 0
      else if cf_type_id (sn_cfg d) = EV3_SENSOR_TYPE_EV3_US then 1
      else if cf_type_id (sn_cfg d) = EV3_SENSOR_TYPE_EV3_GYRO then 2
      else if cf_type_id (sn_cfg d) = EV3_SENSOR_TYPE_EV3_IR then 3
      else 0)"

definition port_owned_by_peer :: "sensord_env \<Rightarrow> int \<Rightarrow> sensord \<Rightarrow> bool" where
  "port_owned_by_peer e port d = ev3_sensor_port_busy port (Some (sn_self_node d)) (se_peer e)"

text \<open>Bytes arriving in the receive FIFO of the UART.\<close>

definition arrive :: "u8 list \<Rightarrow> ev3_uart_sensor \<Rightarrow> ev3_uart_sensor" where
  "arrive bs s = s\<lparr>us_dev := (us_dev s)\<lparr>ur_rx := ur_rx (us_dev s) @ bs\<rparr>\<rparr>"

text \<open>The polling loop of \<^verbatim>\<open>protocol_probe\<close>: requests are masked only during the poll.\<close>

fun probe_loop :: "sensord_env \<Rightarrow> u32 \<Rightarrow> u32 \<Rightarrow> u32 \<Rightarrow> bool \<Rightarrow> probe_round list \<Rightarrow> sensord_state \<Rightarrow>
    (ev3_sensor_data list \<times> sensord_state) option" where
  "probe_loop e t0 last_head last_rx saw_bytes [] s = None"
| "probe_loop e t0 last_head last_rx saw_bytes (r # rs) (d, g) =
     (let d = d\<lparr>sn_s := ev3_uart_sensor_poll (pr_poll_now r) (arrive (pr_bytes r) (sn_s d))\<rparr>;
          (ms, d, g) = serve_reqs e (pr_reqs r) (d, g);
          more = map_option (\<lambda>(ms', s). (ms @ ms', s))
      in if us_type_id (sn_s d) \<noteq> 0 \<or> us_synced (sn_s d) then Some (ms, d, g)
         else
           let t = pr_now r; head = rr_head (us_rx (sn_s d))
           in if head \<noteq> last_head then
                (if t - t0 \<ge> PROBE_SYNC_MS then Some (ms, d, g) else more (probe_loop e t0 head t True rs (d, g)))
              else if \<not> saw_bytes \<and> t - last_rx \<ge> PROBE_IDLE_MS then Some (ms, d, g)
              else if t - t0 \<ge> PROBE_SYNC_MS then Some (ms, d, g)
              else more (probe_loop e t0 last_head last_rx saw_bytes rs (d, g)))"

definition not_uart :: "ev3_conn_type \<Rightarrow> bool" where
  "not_uart conn \<longleftrightarrow> conn = EV3_CONN_NXT_I2C \<or> conn = EV3_CONN_NXT_ANALOG \<or> conn = EV3_CONN_NXT_COLOR \<or>
     conn = EV3_CONN_EV3_ANALOG"

text \<open>
  One port of \<^verbatim>\<open>protocol_probe\<close>: whether it was bound, the samples served meanwhile, and the state; the claim is
  published before the peers are asked and dropped again.
\<close>

definition probe_port :: "sensord_env \<Rightarrow> int \<Rightarrow> sensord_state \<Rightarrow> (bool \<times> ev3_sensor_data list \<times> sensord_state) option" where
  "probe_port e p = (\<lambda>(d, g).
     if ev3_input_port_uart_base p = 0 then Some (False, [], d, g)
     else
       let d = d\<lparr>sn_probe_claim := p\<rparr>;
           dropped = (\<lambda>d. d\<lparr>sn_probe_claim := EV3_SENSOR_PORT_NONE\<rparr>);
           (ms, d, g) = serve_reqs e (se_asking e p) (d, g)
       in if port_owned_by_peer e p d then Some (False, ms, dropped d, g)
          else
            let ((conn, _), g) = ev3_sensor_conn_type (sn_adc_fd d) p (se_ins e p) (se_samples e p) g
            in if not_uart conn then Some (False, ms, dropped d, g)
               else
                 let (ok, s, g) = link_open e p (sn_mode d) (sn_s d) g; d = d\<lparr>sn_s := s\<rparr>
                 in if \<not> ok then Some (False, ms, dropped d, g)
                    else
                      let t0 = se_probe_t0 e p
                      in case probe_loop e t0 (rr_head (us_rx s)) t0 False (se_rounds e p) (d, g) of
                           None \<Rightarrow> None
                         | Some (ms', d, g) \<Rightarrow>
                             if us_type_id (sn_s d) \<noteq> 0 \<and> us_type_id (sn_s d) = cf_type_id (sn_cfg d)
                             then Some (True, ms @ ms', bound_to p d, g)
                             else let (s, g) = link_close e (sn_s d) g in Some (False, ms @ ms', dropped (d\<lparr>sn_s := s\<rparr>), g))"

fun probe_ports :: "sensord_env \<Rightarrow> int list \<Rightarrow> sensord_state \<Rightarrow> ((int \<times> ev3_sensor_data) list \<times> sensord_state) option" where
  "probe_ports e [] s = Some ([], (fst s)\<lparr>sn_probe_claim := EV3_SENSOR_PORT_NONE\<rparr>, snd s)"
| "probe_ports e (p # ps) s =
     (case probe_port e p s of
        None \<Rightarrow> None
      | Some (found, ms, s) \<Rightarrow>
          if found then Some (map (Pair p) ms, s)
          else map_option (\<lambda>(ms', s). (map (Pair p) ms @ ms', s)) (probe_ports e ps s))"

definition protocol_probe :: "sensord_env \<Rightarrow> sensord_state \<Rightarrow> ((int \<times> ev3_sensor_data) list \<times> sensord_state) option" where
  "protocol_probe e s = probe_ports e [0, 1, 2, 3] s"

section \<open>The loop\<close>

definition reset_leg :: "u32 \<Rightarrow> sensord \<Rightarrow> sensord" where
  "reset_leg now d =
     (let s = sn_s d
      in if sn_reset_mode d \<ge> 0 \<and> us_synced s \<and> us_mode s \<noteq> sn_reset_mode d \<and> us_new_mode s < 0 then
           let m = sn_reset_mode d;
               d = d\<lparr>sn_reset_mode := -1\<rparr>
           in d\<lparr>sn_s := snd (ev3_uart_sensor_select m now (s\<lparr>us_report_mode := m\<rparr>))\<rparr>
         else d)"

definition link_health :: "sensord_env \<Rightarrow> u32 \<Rightarrow> sensord_state \<Rightarrow> sensord_state" where
  "link_health e now = (\<lambda>(d, g).
     if us_synced (sn_s d) then (d\<lparr>sn_lost_ms := 0, sn_ever_synced := True\<rparr>, g)
     else
       let limit = (if sn_ever_synced d then UART_LOST_MS else UART_SYNC_TIMEOUT_MS)
       in if sn_lost_ms d = 0 then (d\<lparr>sn_lost_ms := now\<rparr>, g)
          else if now - sn_lost_ms d \<ge> limit then unbind e (d, g)
          else (d, g))"

definition search_step :: "sensord_env \<Rightarrow> u32 \<Rightarrow> sensord_state \<Rightarrow> ((int \<times> ev3_sensor_data) list \<times> sensord_state) option" where
  "search_step e now = (\<lambda>(d, g).
     let d = (if sn_next_probe_ms d = 0
              then d\<lparr>sn_next_probe_ms := now + word_of_int (probe_slot d) * PROBE_STAGGER_MS\<rparr> else d)
     in if sint (now - sn_next_probe_ms d) \<ge> 0 then
          let s = scan_and_bind e now (d, g)
          in if sn_port (fst s) < 0 then
               map_option (\<lambda>(ms, d, g). (ms, d\<lparr>sn_next_probe_ms := se_end e + PROBE_RETRY_MS\<rparr>, g)) (protocol_probe e s)
             else Some ([], s)
        else Some ([], d, g))"

text \<open>One round: whether the readers are woken, and the samples served in the middle of a probe.\<close>

definition sensor_loop :: "sensord_env \<Rightarrow> sensord_state \<Rightarrow> (bool \<times> (int \<times> ev3_sensor_data) list \<times> sensord_state) option" where
  "sensor_loop e = (\<lambda>(d, g).
     let now = (if se_now e = 0 then 1 else se_now e);
         r = (if sn_port d \<ge> 0 then
                let d = d\<lparr>sn_s := ev3_uart_sensor_poll (se_now e) (sn_s d)\<rparr>
                in Some ([], link_health e now (reset_leg (se_now e) d, g))
              else search_step e now (d, g))
     in map_option (\<lambda>(ms, d, g). let (wk, s) = ev3_uart_sensor_consume_wakeup (sn_s d) in (wk, ms, d\<lparr>sn_s := s\<rparr>, g)) r)"

text \<open>
  \<^verbatim>\<open>ev3_uart_sensord_main\<close> up to the first scan; \<open>pinned\<close> and \<open>mode\<close> are what the options leave in the
  variables.
\<close>

definition ev3_uart_sensord_main ::
  "sensord_env \<Rightarrow> ev3_uart_sensord_cfg \<Rightarrow> int \<Rightarrow> int \<Rightarrow> string \<Rightarrow> uart16550 \<Rightarrow> gpio_state \<Rightarrow> sensord_state" where
  "ev3_uart_sensord_main e cfg pinned mode mnt_point u g =
     (let pinned = (if pinned < -1 \<or> pinned \<ge> EV3_IN_PORT_COUNT then -1 else pinned);
          mode = (if mode < 0 \<or> mode \<ge> EV3_UART_MAX_MODE then cf_default_mode cfg else mode);
          s = (ev3_uart_sensor_zero u)\<lparr>us_port := EV3_SENSOR_PORT_NONE, us_new_mode := -1\<rparr>;
          d = \<lparr>sn_cfg = cfg, sn_s = s, sn_port = EV3_SENSOR_PORT_NONE, sn_mode = mode, sn_reset_mode = -1,
               sn_pinned = pinned, sn_adc_fd = se_adc_fd e, sn_scan_ms = 0, sn_lost_ms = 0,
               sn_next_probe_ms = 0, sn_self_node = mnt_point, sn_probe_claim = EV3_SENSOR_PORT_NONE,
               sn_ever_synced = False, sn_held_n = 0, sn_held_value = replicate 8 0\<rparr>
      in scan_and_bind e (se_now e) (d, g))"

section \<open>The four daemons\<close>

definition colord_cfg :: ev3_uart_sensord_cfg where
  "colord_cfg = \<lparr>cf_name = ''colord'', cf_mnt_point = ''/dev/color0'', cf_type_id = 29, cf_default_port = 1,
     cf_default_mode = 2\<rparr>"

definition gyrod_cfg :: ev3_uart_sensord_cfg where
  "gyrod_cfg = \<lparr>cf_name = ''gyrod'', cf_mnt_point = ''/dev/gyro0'', cf_type_id = 32, cf_default_port = 1,
     cf_default_mode = 0\<rparr>"

definition ird_cfg :: ev3_uart_sensord_cfg where
  "ird_cfg = \<lparr>cf_name = ''ird'', cf_mnt_point = ''/dev/ir0'', cf_type_id = 33, cf_default_port = 1,
     cf_default_mode = 0\<rparr>"

definition ultrasonicd_cfg :: ev3_uart_sensord_cfg where
  "ultrasonicd_cfg = \<lparr>cf_name = ''ultrasonicd'', cf_mnt_point = ''/dev/us0'', cf_type_id = 30, cf_default_port = 1,
     cf_default_mode = 0\<rparr>"

end
