(* ===== verification/Ev3_Uart_Sensord_Props.thy ===== *)
theory Ev3_Uart_Sensord_Props
  imports Ev3_Uart_Sensord
begin

text \<open>
  What the generic UART sensor daemon keeps in every state between two steps, and what it publishes.
\<close>

section \<open>The link stays where it was opened\<close>

definition home :: "ev3_uart_sensor \<Rightarrow> int \<times> u32" where
  "home s = (us_port s, us_base s)"

lemma home_upd [simp]:
  "home (s\<lparr>us_report_mode := a\<rparr>) = home s" "home (s\<lparr>us_synced := b\<rparr>) = home s" "home (s\<lparr>us_type_id := a\<rparr>) = home s"
  "home (s\<lparr>us_modes := a\<rparr>) = home s" "home (s\<lparr>us_view_modes := a\<rparr>) = home s" "home (s\<lparr>us_mode := a\<rparr>) = home s"
  "home (s\<lparr>us_speed := c\<rparr>) = home s" "home (s\<lparr>us_errors := c\<rparr>) = home s" "home (s\<lparr>us_resyncs := c\<rparr>) = home s"
  "home (s\<lparr>us_datasets := l\<rparr>) = home s" "home (s\<lparr>us_fmt := l\<rparr>) = home s" "home (s\<lparr>us_figures := l\<rparr>) = home s"
  "home (s\<lparr>us_decimals := l\<rparr>) = home s" "home (s\<lparr>us_name := n\<rparr>) = home s" "home (s\<lparr>us_units := n\<rparr>) = home s"
  "home (s\<lparr>us_data := ll\<rparr>) = home s" "home (s\<lparr>us_state := st\<rparr>) = home s" "home (s\<lparr>us_info_done := b\<rparr>) = home s"
  "home (s\<lparr>us_info_flags := c\<rparr>) = home s" "home (s\<lparr>us_requested_mode := a\<rparr>) = home s" "home (s\<lparr>us_new_mode := a\<rparr>) = home s"
  "home (s\<lparr>us_set_mode_retries := a\<rparr>) = home s" "home (s\<lparr>us_set_mode_ms := c\<rparr>) = home s"
  "home (s\<lparr>us_keep_alive_ms := c\<rparr>) = home s" "home (s\<lparr>us_last_data_ms := c\<rparr>) = home s" "home (s\<lparr>us_ack_ms := c\<rparr>) = home s"
  "home (s\<lparr>us_num_data_err := a\<rparr>) = home s" "home (s\<lparr>us_ignore_ff := b\<rparr>) = home s" "home (s\<lparr>us_msg_idx := k\<rparr>) = home s"
  "home (s\<lparr>us_msg_len := k\<rparr>) = home s" "home (s\<lparr>us_msg := m\<rparr>) = home s" "home (s\<lparr>us_wakeup := b\<rparr>) = home s"
  "home (s\<lparr>us_rx := r\<rparr>) = home s" "home (s\<lparr>us_dev := u\<rparr>) = home s"
  by (simp_all add: home_def)

lemma home_uart_write [simp]: "home (uart_write bs s) = home s"
  by (simp add: uart_write_def)

lemma home_select [simp]: "home (start_select m now s) = home s" "home (send_select m s) = home s"
  by (simp_all add: start_select_def send_select_def Let_def)

lemma home_resync [simp]: "home (resync s) = home s"
  by (simp add: resync_def rx_flush_def Let_def)

lemma home_link_up [simp]: "home (link_up now s) = home s"
  by (simp add: link_up_def rx_flush_def Let_def)

lemma home_data_loop [simp]: "home (data_loop k i md f msz s) = home s"
  by (induction k arbitrary: i s) (simp_all add: Let_def)

lemma home_handle [simp]:
  "home (snd (handle_sys cmd now s)) = home s" "home (snd (handle_cmd cmd cmd2 msz s)) = home s"
  "home (snd (handle_info cmd cmd2 msz s)) = home s" "home (snd (handle_data cmd msz now s)) = home s"
  by (simp_all add: handle_sys_def handle_cmd_def handle_info_def info_name_def info_once_def info_units_def
      info_format_def handle_data_def data_seen_def Let_def)

lemma home_msg [simp]: "home (snd (handle_msg now s)) = home s"
  by (simp add: handle_msg_def Let_def)

lemma home_frame_byte [simp]: "home (frame_byte b now s) = home s"
  using home_msg [of now "s\<lparr>us_msg := (us_msg s)[us_msg_idx s := b], us_msg_idx := 0\<rparr>"]
  by (auto simp: frame_byte_def Let_def split: prod.split simp del: home_msg)

lemma home_byte [simp]: "home (handle_byte b now s) = home s"
  by (simp add: handle_byte_def sync_byte_def Let_def)

lemma home_poll_loop: "home (poll_loop guard now s) = home s"
proof (induction guard now s rule: poll_loop.induct)
  case (1 guard now s)
  show ?case
  proof (cases "rx_pop s")
    case None
    then show ?thesis by (simp add: poll_loop.simps [of guard])
  next
    case (Some p)
    obtain b t where p: "p = (b, t)" by (cases p)
    then have "home t = home s" using Some by (auto simp: rx_pop_def)
    with 1 [OF Some p [symmetric]] Some p show ?thesis by (simp add: poll_loop.simps [of guard])
  qed
qed

lemma home_poll [simp]: "home (ev3_uart_sensor_poll now s) = home s"
proof -
  have "home (rx_drain_hw s) = home s" by (simp add: rx_drain_hw_def Let_def split: prod.split)
  moreover have "home (poll_switch now t) = home t" for t
    by (simp add: poll_switch_def poll_data_def uart_put_def Let_def split: link_state.split)
  ultimately show ?thesis by (simp add: ev3_uart_sensor_poll_def home_poll_loop)
qed

lemma home_client [simp]:
  "home (snd (ev3_uart_sensor_select m now s)) = home s" "home (snd (ev3_uart_sensor_write dat s)) = home s"
  "home (arrive bs s) = home s"
  by (simp_all add: ev3_uart_sensor_select_def ev3_uart_sensor_write_def arrive_def Let_def)

lemma home_open: "ev3_uart_sensor_open base irq en u port md = Some s \<Longrightarrow> home s = (port, base)"
  by (auto simp: ev3_uart_sensor_open_def home_def Let_def split: if_splits)

section \<open>Invariant\<close>

text \<open>A closed link is only known up to its speed: at start the structure is all zero.\<close>

definition link_ok :: "ev3_uart_sensor \<Rightarrow> bool" where
  "link_ok s \<longleftrightarrow> (if us_base s = 0 then us_inv (s\<lparr>us_speed := EV3_UART_SPEED_MIN\<rparr>) else us_inv s)"

definition sensord_inv :: "sensord \<Rightarrow> bool" where
  "sensord_inv d \<longleftrightarrow> link_ok (sn_s d) \<and> 0 \<le> sn_mode d \<and> sn_mode d < 8 \<and> -1 \<le> sn_reset_mode d \<and> sn_reset_mode d < 8 \<and>
     0 \<le> sn_held_n d \<and> sn_held_n d \<le> 8 \<and> length (sn_held_value d) = 8 \<and>
     sn_probe_claim d = EV3_SENSOR_PORT_NONE \<and>
     (if sn_port d < 0 then sn_port d = EV3_SENSOR_PORT_NONE \<and> us_base (sn_s d) = 0
      else sn_port d < 4 \<and> home (sn_s d) = (sn_port d, ev3_input_port_uart_base (sn_port d)))"

lemma home_base: "home s = home t \<Longrightarrow> us_base s = us_base t"
  by (simp add: home_def)

lemma link_ok_inv: "us_inv s \<Longrightarrow> link_ok s"
  by (auto simp: link_ok_def us_inv_defs EV3_UART_SPEED_MIN_def)

lemma link_ok_synced: "link_ok s \<Longrightarrow> us_synced s \<Longrightarrow> us_base s \<noteq> 0 \<and> us_inv s"
  by (auto simp: link_ok_def us_inv_def split: if_splits)

lemma link_ok_datasets:
  "link_ok s \<Longrightarrow> length (us_datasets s) = 8 \<and> list_all (\<lambda>d. 0 \<le> d \<and> d \<le> 8) (us_datasets s)"
  by (auto simp: link_ok_def us_inv_defs split: if_splits)

lemma link_ok_poll: "link_ok s \<Longrightarrow> link_ok (ev3_uart_sensor_poll now s)"
  using home_base [OF home_poll [of now s]] poll_inv [of s now]
  by (cases "us_base s = 0") (auto simp: link_ok_def ev3_uart_sensor_poll_def)

lemma link_ok_select: "link_ok s \<Longrightarrow> link_ok (snd (ev3_uart_sensor_select m now (s\<lparr>us_report_mode := k\<rparr>)))"
proof (cases "us_base s = 0")
  case True
  assume a: "link_ok s"
  with True have "us_inv (s\<lparr>us_speed := EV3_UART_SPEED_MIN\<rparr>)" "\<not> us_synced s" by (auto simp: link_ok_def us_inv_def)
  then have "us_inv (s\<lparr>us_report_mode := k, us_speed := EV3_UART_SPEED_MIN\<rparr>)"
    "us_inv (s\<lparr>us_report_mode := k, us_requested_mode := m, us_speed := EV3_UART_SPEED_MIN\<rparr>)"
    by (simp_all add: us_inv_defs)
  with True \<open>\<not> us_synced s\<close> show ?thesis
    by (simp add: ev3_uart_sensor_select_def link_ok_def Let_def)
next
  case False
  assume "link_ok s"
  with False have "us_inv (s\<lparr>us_report_mode := k\<rparr>)" by (simp add: link_ok_def us_inv_defs)
  from link_ok_inv [OF select_inv [OF this]] show ?thesis .
qed

lemma link_ok_write: "link_ok s \<Longrightarrow> link_ok (snd (ev3_uart_sensor_write dat s))"
proof (cases "us_base s = 0")
  case True
  assume "link_ok s"
  with True have "\<not> us_synced s" by (auto simp: link_ok_def us_inv_def)
  with \<open>link_ok s\<close> show ?thesis by (simp add: ev3_uart_sensor_write_def Let_def)
next
  case False
  assume "link_ok s"
  with False have "us_inv s" by (simp add: link_ok_def)
  from link_ok_inv [OF sensor_write_inv [OF this]] show ?thesis .
qed

lemma link_ok_device: "link_ok s \<Longrightarrow> link_ok (s\<lparr>us_dev := u\<rparr>)" "link_ok s \<Longrightarrow> link_ok (s\<lparr>us_wakeup := v\<rparr>)"
  by (auto simp: link_ok_def us_inv_defs split: if_splits)

lemma link_ok_irq:
  assumes "link_ok s"
  shows "link_ok (rx_irq s)"
proof (cases "us_base s = 0")
  case True
  with assms show ?thesis by (simp add: rx_irq_def)
next
  case False
  with assms have "us_inv s" by (simp add: link_ok_def)
  then show ?thesis by (rule link_ok_inv [OF rx_irq_inv])
qed

lemma home_irq [simp]: "home (rx_irq s) = home s"
  by (simp add: rx_irq_def split: prod.split)

section \<open>Ports\<close>

lemma link_open_result:
  assumes "link_open e port mode s g = (ok, s', g')" "link_ok s" "us_base s = 0"
  shows "link_ok s'" "ok \<Longrightarrow> us_inv s' \<and> home s' = (port, ev3_input_port_uart_base port) \<and> 0 \<le> port \<and> port < 4"
    "\<not> ok \<Longrightarrow> us_base s' = 0"
proof -
  obtain rc g1 where en: "ev3_input_port_uart_enable (se_pru_enable e) port
      (ev3_input_port_power port ev3_sensor_power_level g) = (rc, g1)" by fastforce
  let ?o = "ev3_uart_sensor_open (ev3_input_port_uart_base port) (ev3_input_port_uart_irq port) (rc = 0)
      (se_uart e port) port mode"
  let ?z = "(ev3_uart_sensor_zero (se_uart e port))\<lparr>us_port := port, us_report_mode := mode,
      us_requested_mode := mode, us_new_mode := -1, us_speed := EV3_UART_SPEED_MIN\<rparr>"
  have z: "link_ok ?z" "us_base ?z = 0"
    by (simp_all add: link_ok_def ev3_uart_sensor_zero_def us_inv_defs EV3_UART_SPEED_MIN_def rr_inv_def)
  have "ok \<and> ?o = Some s' \<and> 0 \<le> port \<and> port < 4 \<or> \<not> ok \<and> (s' = ?z \<or> s' = s)"
    using assms(1) en
    by (auto simp: link_open_def EV3_IN_PORT_COUNT_def Let_def split: if_splits option.splits)
  then show "link_ok s'" "ok \<Longrightarrow> us_inv s' \<and> home s' = (port, ev3_input_port_uart_base port) \<and> 0 \<le> port \<and> port < 4"
    "\<not> ok \<Longrightarrow> us_base s' = 0"
    using assms(2,3) z open_inv [of _ _ _ _ _ _ s'] home_open [of _ _ _ _ _ _ s'] link_ok_inv by auto
qed

lemma link_close_result:
  assumes "link_close e s g = (s', g')" "link_ok s"
  shows "link_ok s'" "us_base s' = 0"
  using assms link_ok_inv [OF close_inv, of s]
  by (auto simp: link_close_def link_ok_def ev3_uart_sensor_close_def [of s] Let_def split: if_splits)

abbreviation searching :: "sensord \<Rightarrow> bool" where
  "searching d \<equiv> sn_port d < 0"

text \<open>The invariant while a claim may be up.\<close>

definition probing_inv :: "sensord \<Rightarrow> bool" where
  "probing_inv d \<longleftrightarrow> sensord_inv (d\<lparr>sn_probe_claim := EV3_SENSOR_PORT_NONE\<rparr>) \<and> searching d"

lemma probing_upd [simp]:
  "probing_inv (d\<lparr>sn_probe_claim := c\<rparr>) = probing_inv d" "probing_inv (d\<lparr>sn_scan_ms := t\<rparr>) = probing_inv d"
  "probing_inv (d\<lparr>sn_adc_fd := f\<rparr>) = probing_inv d" "probing_inv (d\<lparr>sn_next_probe_ms := t\<rparr>) = probing_inv d"
  by (simp_all add: probing_inv_def sensord_inv_def)

lemma probing_dropped: "probing_inv d \<Longrightarrow> sensord_inv (d\<lparr>sn_probe_claim := EV3_SENSOR_PORT_NONE\<rparr>)"
  by (simp add: probing_inv_def)

lemma probing_unclaimed: "probing_inv d \<Longrightarrow> sn_probe_claim d = EV3_SENSOR_PORT_NONE \<Longrightarrow> sensord_inv d"
  by (auto simp: probing_inv_def sensord_inv_def)

lemma sensord_inv_upd [simp]:
  "sensord_inv (d\<lparr>sn_scan_ms := t\<rparr>) = sensord_inv d" "sensord_inv (d\<lparr>sn_adc_fd := f\<rparr>) = sensord_inv d"
  "sensord_inv (d\<lparr>sn_next_probe_ms := t\<rparr>) = sensord_inv d" "sensord_inv (d\<lparr>sn_lost_ms := t\<rparr>) = sensord_inv d"
  "sensord_inv (d\<lparr>sn_ever_synced := b\<rparr>) = sensord_inv d"
  by (simp_all add: sensord_inv_def)

lemma probing_link:
  assumes "probing_inv d"
  shows "link_ok (sn_s d)" "us_base (sn_s d) = 0"
  using assms by (auto simp: probing_inv_def sensord_inv_def)

lemma probing_closed: "probing_inv d \<Longrightarrow> link_ok s \<Longrightarrow> us_base s = 0 \<Longrightarrow> probing_inv (d\<lparr>sn_s := s\<rparr>)"
  by (auto simp: probing_inv_def sensord_inv_def)

lemma bound_inv:
  assumes "probing_inv d" "us_inv s" "home s = (p, ev3_input_port_uart_base p)" "0 \<le> p" "p < 4"
  shows "sensord_inv (bound_to p (d\<lparr>sn_s := s\<rparr>))"
  using assms link_ok_inv [OF assms(2)] by (auto simp: probing_inv_def sensord_inv_def bound_to_def)

lemma bind_inv:
  assumes "probing_inv d" "sn_probe_claim d = EV3_SENSOR_PORT_NONE"
  shows "sensord_inv (fst (bind e port (d, g)))"
proof -
  obtain ok s' g' where o: "link_open e port (sn_mode d) (sn_s d) g = (ok, s', g')" by (metis surj_pair)
  note r = link_open_result [OF o probing_link [OF assms(1)]]
  have "sensord_inv (d\<lparr>sn_s := s'\<rparr>)" if "\<not> ok"
    using probing_unclaimed [OF probing_closed [OF assms(1) r(1) r(3) [OF that]]] assms(2) by simp
  moreover have "sensord_inv d" using probing_unclaimed assms by blast
  ultimately show ?thesis
    using r(2) bound_inv [OF assms(1), of s' port] by (auto simp: bind_def o Let_def)
qed

lemma unbind_inv:
  assumes "sensord_inv d"
  shows "sensord_inv (fst (unbind e (d, g)))" "searching (fst (unbind e (d, g)))"
proof -
  obtain s' g' where c: "link_close e (sn_s d) g = (s', g')" by fastforce
  have "link_ok (sn_s d)" using assms by (simp add: sensord_inv_def)
  from link_close_result [OF c this] assms
  show "sensord_inv (fst (unbind e (d, g)))" "searching (fst (unbind e (d, g)))"
    by (auto simp: unbind_def c sensord_inv_def EV3_SENSOR_PORT_NONE_def)
qed

lemma searching_probing: "sensord_inv d \<Longrightarrow> searching d \<Longrightarrow> probing_inv d \<and> sn_probe_claim d = EV3_SENSOR_PORT_NONE"
  by (simp add: probing_inv_def sensord_inv_def)

lemma scan_inv:
  assumes "sensord_inv d" "searching d"
  shows "sensord_inv (fst (scan_and_bind e now (d, g)))"
proof -
  have p: "probing_inv d" "sn_probe_claim d = EV3_SENSOR_PORT_NONE" using searching_probing [OF assms] by auto
  show ?thesis unfolding scan_and_bind_def Let_def using p assms(1) by (auto intro!: bind_inv)
qed

section \<open>Requests\<close>

lemma link_update_inv:
  "sensord_inv d \<Longrightarrow> link_ok s \<Longrightarrow> home s = home (sn_s d) \<Longrightarrow> sensord_inv (d\<lparr>sn_s := s\<rparr>)"
  using home_base [of s "sn_s d"] by (auto simp: sensord_inv_def)

lemma select_link_inv:
  "sensord_inv d \<Longrightarrow> sensord_inv (d\<lparr>sn_s := snd (ev3_uart_sensor_select m now ((sn_s d)\<lparr>us_report_mode := k\<rparr>))\<rparr>)"
  by (rule link_update_inv) (auto simp: sensord_inv_def intro: link_ok_select)

lemma set_mode_inv:
  assumes "sensord_inv d"
  shows "sensord_inv (snd (set_mode m now d))"
proof (cases "0 \<le> m \<and> m < 8")
  case True
  with assms have "sensord_inv (d\<lparr>sn_mode := m, sn_held_n := 0\<rparr>)" by (simp add: sensord_inv_def)
  from select_link_inv [OF this, of m now m] assms show ?thesis
    by (simp add: set_mode_def Let_def)
next
  case False
  with assms show ?thesis by (auto simp: set_mode_def EV3_UART_MAX_MODE_def)
qed

lemma do_reset_inv:
  assumes "sensord_inv d"
  shows "sensord_inv (snd (do_reset now d))"
proof -
  have "sensord_inv (d\<lparr>sn_reset_mode := sn_mode d\<rparr>)" using assms by (auto simp: sensord_inv_def)
  from select_link_inv [OF this] assms show ?thesis by (simp add: do_reset_def Let_def)
qed

lemma raw_write_inv: "sensord_inv d \<Longrightarrow> sensord_inv (d\<lparr>sn_s := snd (ev3_uart_sensor_write dat (sn_s d))\<rparr>)"
  by (rule link_update_inv) (auto simp: sensord_inv_def intro: link_ok_write)

lemma sensor_command_inv:
  assumes "sensord_inv d"
  shows "sensord_inv (snd (sensor_command c now d))"
  using assms set_mode_inv [OF assms] do_reset_inv [OF assms] raw_write_inv [OF assms]
  by (auto simp: sensor_command_def Let_def split: prod.split) (metis snd_conv)+

lemma shown_count:
  assumes "sensord_inv d"
  shows "0 \<le> us_datasets (sn_s d) ! nat (sn_mode d)" "us_datasets (sn_s d) ! nat (sn_mode d) \<le> 8"
  using assms link_ok_datasets [of "sn_s d"] list_all_nthD [of "\<lambda>d. 0 \<le> d \<and> d \<le> 8" "us_datasets (sn_s d)" "nat (sn_mode d)"]
  by (auto simp: sensord_inv_def)

text \<open>The sample without the clamps, which never bite.\<close>

lemma fill_data_eq:
  assumes "sensord_inv d"
  defines "n \<equiv> us_datasets (sn_s d) ! nat (sn_mode d)"
  defines "vs \<equiv> map (\<lambda>i. ev3_uart_sensor_dataset (sn_mode d) i (sn_s d)) [0..n - 1]"
  shows "fst (fill_data tic d) =
      \<lparr>sd_type = (if us_synced (sn_s d) then us_type_id (sn_s d) else cf_type_id (sn_cfg d)), sd_port = sn_port d,
       sd_connected = us_synced (sn_s d), sd_mode = sn_mode d,
       sd_nvalues = (if \<not> us_synced (sn_s d) \<and> sn_held_n d > 0 then sn_held_n d else n),
       sd_value = (if \<not> us_synced (sn_s d) \<and> sn_held_n d > 0
          then take (nat (sn_held_n d)) (sn_held_value d) @ replicate (8 - nat (sn_held_n d)) 0
          else vs @ replicate (8 - nat n) 0),
       sd_raw_mv = 0, sd_errors = sint (us_errors (sn_s d)), sd_timestamp_ms = tic, sd_probing = 0\<rparr>"
    "snd (fill_data tic d) = (if us_synced (sn_s d) \<and> n > 0
       then d\<lparr>sn_held_n := n, sn_held_value := vs @ drop (nat n) (sn_held_value d)\<rparr> else d)"
  using shown_count [OF assms(1)] assms(1)
  by (auto simp: fill_data_def n_def vs_def Let_def sensord_inv_def EV3_UART_MAX_MODE_def EV3_SENSOR_MAX_VALUES_def
      EV3_SENSOR_PORT_NONE_def ev3_sensor_data_zero_def)

lemma fill_data_inv: "sensord_inv d \<Longrightarrow> sensord_inv (snd (fill_data tic d))"
  using shown_count [of d] by (auto simp: fill_data_eq) (auto simp: sensord_inv_def)

lemma sensor_read_inv: "sensord_inv d \<Longrightarrow> sensord_inv (snd (sensor_read sz tic d))"
  using fill_data_inv [of d tic] by (auto simp: sensor_read_def split: prod.split)

lemma sensor_write_cmd_inv: "sensord_inv d \<Longrightarrow> sensord_inv (snd (sensor_write buf sz now d))"
  using sensor_command_inv [of d _ now] by (auto simp: sensor_write_def split: option.split prod.split) (metis snd_conv)

lemma sensor_cntl_inv: "sensord_inv d \<Longrightarrow> sensord_inv (snd (sensor_dev_cntl cmd msg now tic d))"
  using fill_data_inv [of d tic] sensor_command_inv [of d _ now]
  by (auto simp: sensor_dev_cntl_def Let_def split: option.split prod.split) (metis snd_conv)+

lemma sensor_cmd_inv:
  assumes "sensord_inv d"
  shows "sensord_inv (fst (snd (sensor_cmd e argv (d, g))))"
proof -
  let ?s = "if sn_port d \<ge> 0 then unbind e (d, g) else (d, g)"
  have "sensord_inv (fst ?s)" "searching (fst ?s)" using assms unbind_inv [OF assms, of e g] by auto
  then have "sensord_inv (fst (scan_and_bind e (se_now e) ?s))"
    using scan_inv [of "fst ?s" e "se_now e" "snd ?s"] by simp
  then show ?thesis
    using assms set_mode_inv [OF assms] do_reset_inv [OF assms]
    by (auto simp: sensor_cmd_def Let_def split: prod.split) (metis snd_conv)+
qed

section \<open>Requests in the middle of a probe\<close>

text \<open>
  A request neither moves the daemon nor touches its claim, and keeps the invariant of the daemon seen with any port and
  claim. The exception is the shell command \<^verbatim>\<open>scan\<close>, which may bind a port; it does not if no port is pinned and
  the sensor type is one the voltage table does not name, as for all four daemons.
\<close>

definition same_seat :: "sensord \<Rightarrow> sensord \<Rightarrow> bool" where
  "same_seat d d' \<longleftrightarrow> sn_port d' = sn_port d \<and> sn_probe_claim d' = sn_probe_claim d \<and> sn_cfg d' = sn_cfg d \<and>
     sn_pinned d' = sn_pinned d \<and>
     (\<forall>a b. sensord_inv (d\<lparr>sn_port := a, sn_probe_claim := b\<rparr>) \<longrightarrow> sensord_inv (d'\<lparr>sn_port := a, sn_probe_claim := b\<rparr>))"

lemma same_seatD:
  assumes "same_seat d d'"
  shows "sn_port d' = sn_port d" "sn_probe_claim d' = sn_probe_claim d" "sn_cfg d' = sn_cfg d" "sn_pinned d' = sn_pinned d"
  using assms unfolding same_seat_def by blast+

lemma same_seat_inv:
  "same_seat d d' \<Longrightarrow> sensord_inv (d\<lparr>sn_port := a, sn_probe_claim := b\<rparr>) \<Longrightarrow> sensord_inv (d'\<lparr>sn_port := a, sn_probe_claim := b\<rparr>)"
  unfolding same_seat_def by blast

lemma same_seat_refl [simp]: "same_seat d d"
  by (simp add: same_seat_def)

lemma same_seat_trans: "same_seat d d' \<Longrightarrow> same_seat d' d'' \<Longrightarrow> same_seat d d''"
  by (simp add: same_seat_def)

definition shown :: "sensord \<Rightarrow> int" where
  "shown d =
     (let n = (if sn_mode d \<ge> 0 \<and> sn_mode d < EV3_UART_MAX_MODE then us_datasets (sn_s d) ! nat (sn_mode d) else 0);
          n = (if n > EV3_SENSOR_MAX_VALUES then EV3_SENSOR_MAX_VALUES else n)
      in if n < 0 then 0 else n)"

lemma fill_state:
  "snd (fill_data tic d) = (if us_synced (sn_s d) \<and> shown d > 0
     then d\<lparr>sn_held_n := shown d, sn_held_value := map (\<lambda>i. ev3_uart_sensor_dataset (sn_mode d) i (sn_s d)) [0..shown d - 1] @
       drop (nat (shown d)) (sn_held_value d)\<rparr> else d)"
  unfolding fill_data_def shown_def [symmetric] Let_def by (simp add: shown_def [symmetric, unfolded Let_def])

lemma fill_view:
  "snd (fill_data tic (d\<lparr>sn_port := a, sn_probe_claim := b\<rparr>)) = (snd (fill_data tic d))\<lparr>sn_port := a, sn_probe_claim := b\<rparr>"
proof -
  have "shown (d\<lparr>sn_port := a, sn_probe_claim := b\<rparr>) = shown d" by (simp add: shown_def)
  then show ?thesis by (simp add: fill_state)
qed

lemma fill_seat: "same_seat d (snd (fill_data tic d))"
  using fill_data_inv [of "d\<lparr>sn_port := _, sn_probe_claim := _\<rparr>" tic]
  unfolding same_seat_def fill_view by (simp add: fill_state)

lemma fill_fields:
  "sd_port (fst (fill_data tic d)) = sn_port d"
  "sd_probing (fst (fill_data tic d)) = (if sn_probe_claim d \<ge> 0 then sn_probe_claim d + 1 else 0)"
  unfolding fill_data_def Let_def by (simp_all del: if_split split: if_split)

lemma command_view:
  "snd (set_mode m now (d\<lparr>sn_port := a, sn_probe_claim := b\<rparr>)) = (snd (set_mode m now d))\<lparr>sn_port := a, sn_probe_claim := b\<rparr>"
  "snd (do_reset now (d\<lparr>sn_port := a, sn_probe_claim := b\<rparr>)) = (snd (do_reset now d))\<lparr>sn_port := a, sn_probe_claim := b\<rparr>"
  by (simp_all add: set_mode_def do_reset_def Let_def split del: if_split) simp_all

lemma sensor_command_view:
  "snd (sensor_command c now (d\<lparr>sn_port := a, sn_probe_claim := b\<rparr>)) = (snd (sensor_command c now d))\<lparr>sn_port := a, sn_probe_claim := b\<rparr>"
  by (simp add: sensor_command_def command_view Let_def split_beta)

lemma command_fields:
  "sn_port (snd (set_mode m now d)) = sn_port d" "sn_probe_claim (snd (set_mode m now d)) = sn_probe_claim d"
  "sn_cfg (snd (set_mode m now d)) = sn_cfg d" "sn_pinned (snd (set_mode m now d)) = sn_pinned d"
  "sn_port (snd (do_reset now d)) = sn_port d" "sn_probe_claim (snd (do_reset now d)) = sn_probe_claim d"
  "sn_cfg (snd (do_reset now d)) = sn_cfg d" "sn_pinned (snd (do_reset now d)) = sn_pinned d"
  by (simp_all add: set_mode_def do_reset_def Let_def)

lemma command_seat: "same_seat d (snd (set_mode m now d))" "same_seat d (snd (do_reset now d))"
  using set_mode_inv [of "d\<lparr>sn_port := _, sn_probe_claim := _\<rparr>" m now] do_reset_inv [of "d\<lparr>sn_port := _, sn_probe_claim := _\<rparr>" now]
  unfolding same_seat_def command_view by (simp_all add: command_fields)

lemma sensor_command_seat: "same_seat d (snd (sensor_command c now d))"
  using sensor_command_inv [of "d\<lparr>sn_port := _, sn_probe_claim := _\<rparr>" c now]
  unfolding same_seat_def sensor_command_view by (simp add: sensor_command_def command_fields Let_def split_beta)

definition unnamed :: "sensord \<Rightarrow> bool" where
  "unnamed d \<longleftrightarrow> sn_pinned d < 0 \<and> cf_type_id (sn_cfg d) \<notin> {EV3_SENSOR_TYPE_NONE, EV3_SENSOR_TYPE_EV3_TOUCH}"

fun is_scan :: "sensor_req \<Rightarrow> bool" where
  "is_scan (ReqShell now argv) \<longleftrightarrow> argv \<noteq> [] \<and> argv ! 0 = ''scan''"
| "is_scan _ \<longleftrightarrow> False"

definition tame :: "sensord \<Rightarrow> sensor_req \<Rightarrow> bool" where
  "tame d q \<longleftrightarrow> unnamed d \<or> \<not> is_scan q"

lemma tame_same: "sn_cfg d' = sn_cfg d \<Longrightarrow> sn_pinned d' = sn_pinned d \<Longrightarrow> tame d' = tame d"
  by (simp add: tame_def unnamed_def fun_eq_iff)

lemma tame_seat: "same_seat d d' \<Longrightarrow> tame d' = tame d"
  by (rule tame_same) (simp_all add: same_seatD)

lemma find_uart_none:
  assumes "ty \<notin> {EV3_SENSOR_TYPE_NONE, EV3_SENSOR_TYPE_EV3_TOUCH}"
  shows "ev3_sensor_find_uart fd ty skip samples = EV3_SENSOR_PORT_NONE"
proof -
  have "ev3_sensor_detect_port fd p smp \<noteq> ty" for p smp using detect_type [of fd p smp] assms by metis
  then have "find_from ps fd ty skip True samples = EV3_SENSOR_PORT_NONE" for ps by (induction ps) auto
  then show ?thesis by (simp add: ev3_sensor_find_uart_def find_common_def del: find_from.simps)
qed

lemma scan_unnamed:
  assumes "unnamed d"
  shows "fst (scan_and_bind e now (d, g)) = d\<lparr>sn_scan_ms := now, sn_adc_fd := (if sn_adc_fd d < 0 then se_adc_fd e else sn_adc_fd d)\<rparr>"
proof -
  have "ev3_sensor_find_uart fd (cf_type_id (sn_cfg d)) EV3_SENSOR_PORT_NONE (se_samples e) = EV3_SENSOR_PORT_NONE" for fd
    by (rule find_uart_none) (use assms in \<open>simp add: unnamed_def\<close>)
  then show ?thesis using assms by (simp add: scan_and_bind_def unnamed_def EV3_SENSOR_PORT_NONE_def Let_def)
qed

lemma scan_seat: "unnamed d \<Longrightarrow> same_seat d (fst (scan_and_bind e now (d, g)))"
  using scan_unnamed [of d e now g] by (simp add: same_seat_def sensord_inv_def)

definition shows_claim :: "sensord \<Rightarrow> ev3_sensor_data \<Rightarrow> bool" where
  "shows_claim d m \<longleftrightarrow> sd_port m = sn_port d \<and> sd_probing m = (if sn_probe_claim d \<ge> 0 then sn_probe_claim d + 1 else 0)"

lemma serve_req_seat:
  assumes "serve_req e q (d, g) = (r, d', g')" "tame d q" "searching d"
  shows "same_seat d d'" "r = Some m \<Longrightarrow> shows_claim d m"
proof -
  have shell: "same_seat d (fst (snd (sensor_cmd e' argv (d, g))))" if "unnamed d \<or> \<not> (argv \<noteq> [] \<and> argv ! 0 = ''scan'')" for e' argv
    using that scan_seat [of d e' "se_now e'" g] command_seat assms(3)
    by (auto simp: sensor_cmd_def Let_def split_beta)
  have cmd: "same_seat d d1" if "snd (sensor_cmd e' argv (d, g)) = (d1, g1)" "unnamed d \<or> \<not> (argv \<noteq> [] \<and> argv ! 0 = ''scan'')" for e' argv d1 g1
    using shell [OF that(2), of e'] that(1) by simp
  show "same_seat d d'"
  proof (cases q)
    case (ReqShell now argv)
    with assms(1,2) cmd [of "e\<lparr>se_now := now\<rparr>" argv d' g'] show ?thesis by (auto simp: serve_req_def tame_def)
  qed (use assms(1) fill_seat [of d] sensor_command_seat [of d] in
      \<open>auto simp: serve_req_def sensor_read_def sensor_write_def sensor_dev_cntl_def Let_def split_beta split: option.splits if_splits\<close>)
  show "r = Some m \<Longrightarrow> shows_claim d m"
    using assms(1) fill_fields [of _ d]
    by (cases q) (auto simp: serve_req_def shows_claim_def sensor_read_def sensor_dev_cntl_def Let_def split_beta split: option.splits if_splits)
qed

lemma serve_reqs_seat:
  assumes "serve_reqs e qs (d, g) = (ms, d', g')" "list_all (tame d) qs" "searching d"
  shows "same_seat d d' \<and> list_all (shows_claim d) ms"
  using assms
proof (induction qs arbitrary: d g ms)
  case (Cons q qs)
  obtain r d1 g1 where s: "serve_req e q (d, g) = (r, d1, g1)" by (metis surj_pair)
  obtain ms' d2 g2 where m': "serve_reqs e qs (d1, g1) = (ms', d2, g2)" by (metis surj_pair)
  then have m: "serve_reqs e qs (d1, g1) = (ms', d', g')" "ms = (case r of None \<Rightarrow> ms' | Some m \<Rightarrow> m # ms')"
    using Cons.prems(1) s by simp_all
  have q: "tame d q" "list_all (tame d) qs" using Cons.prems(2) by simp_all
  note h = serve_req_seat [OF s q(1) Cons.prems(3)]
  have "shows_claim d1 = shows_claim d" "searching d1" using Cons.prems(3) same_seatD [OF h(1)] by (simp_all add: shows_claim_def fun_eq_iff)
  with Cons.IH [OF m(1)] q(2) tame_seat [OF h(1)] same_seat_trans [OF h(1)] h(2) m(2) show ?case
    by (auto split: option.split)
qed simp

section \<open>The probe\<close>

text \<open>The daemon listening on port \<open>p\<close>: the claim is up, no port is bound, and the link is that of the port.\<close>

definition listening :: "int \<Rightarrow> sensord \<Rightarrow> bool" where
  "listening p d \<longleftrightarrow> sn_port d = EV3_SENSOR_PORT_NONE \<and> sn_probe_claim d = p \<and> 0 \<le> p \<and>
     sensord_inv (d\<lparr>sn_port := p, sn_probe_claim := EV3_SENSOR_PORT_NONE\<rparr>)"

definition claimed :: "int \<Rightarrow> ev3_sensor_data \<Rightarrow> bool" where
  "claimed p m \<longleftrightarrow> sd_port m = EV3_SENSOR_PORT_NONE \<and> sd_probing m = p + 1"

lemma listening_seat: "listening p d \<Longrightarrow> same_seat d d' \<Longrightarrow> listening p d'"
  using same_seatD [of d d'] same_seat_inv [of d d'] unfolding listening_def by metis

lemma listening_poll:
  assumes "listening p d"
  shows "listening p (d\<lparr>sn_s := ev3_uart_sensor_poll now (arrive bs (sn_s d))\<rparr>)"
proof -
  let ?d = "d\<lparr>sn_port := p, sn_probe_claim := EV3_SENSOR_PORT_NONE\<rparr>"
  have i: "sensord_inv ?d" using assms by (simp add: listening_def)
  then have "link_ok (sn_s ?d)" by (simp add: sensord_inv_def)
  then have "link_ok (ev3_uart_sensor_poll now (arrive bs (sn_s ?d)))"
    unfolding arrive_def by (intro link_ok_poll link_ok_device)
  from link_update_inv [OF i this]
  have "sensord_inv (?d\<lparr>sn_s := ev3_uart_sensor_poll now (arrive bs (sn_s d))\<rparr>)" by simp
  moreover have "?d\<lparr>sn_s := x\<rparr> = d\<lparr>sn_s := x, sn_port := p, sn_probe_claim := EV3_SENSOR_PORT_NONE\<rparr>" for x by simp
  ultimately have "sensord_inv (d\<lparr>sn_s := ev3_uart_sensor_poll now (arrive bs (sn_s d)), sn_port := p, sn_probe_claim := EV3_SENSOR_PORT_NONE\<rparr>)"
    by metis
  with assms show ?thesis by (simp add: listening_def)
qed

lemma probe_exits:
  "(if a then x else if b then if c then x else y else if e then x else if c then x else z) = w \<Longrightarrow> w = x \<or> w = y \<or> w = z"
  by (auto split: if_splits)

lemma probe_loop_round:
  assumes "probe_loop e t0 lh lr sb (r # rs) (d, g) = Some (ms, d', g')"
    "serve_reqs e (pr_reqs r) (d\<lparr>sn_s := ev3_uart_sensor_poll (pr_poll_now r) (arrive (pr_bytes r) (sn_s d))\<rparr>, g) = (m1, d1, g1)"
  shows "ms = m1 \<and> d' = d1 \<or> (\<exists>h t b m2. probe_loop e t0 h t b rs (d1, g1) = Some (m2, d', g') \<and> ms = m1 @ m2)"
proof -
  have more: "\<exists>h t b m2. probe_loop e t0 h t b rs (d1, g1) = Some (m2, d', g') \<and> ms = m1 @ m2"
    if "Some (ms, d', g') = map_option (\<lambda>(ms', s). (m1 @ ms', s)) (probe_loop e t0 h t b rs (d1, g1))" for h t b
    using that by (cases "probe_loop e t0 h t b rs (d1, g1)") auto
  show ?thesis
    using probe_exits [OF assms(1) [unfolded probe_loop.simps assms(2) Let_def prod.case]] more by (elim disjE) simp_all
qed

lemma probe_loop_inv:
  assumes "listening p d" "list_all (\<lambda>r. list_all (tame d) (pr_reqs r)) rs"
    "probe_loop e t0 lh lr sb rs (d, g) = Some (ms, d', g')"
  shows "listening p d' \<and> list_all (claimed p) ms \<and> sn_cfg d' = sn_cfg d \<and> sn_pinned d' = sn_pinned d"
  using assms
proof (induction rs arbitrary: d g ms lh lr sb)
  case Nil
  then show ?case by simp
next
  case (Cons r rs)
  let ?d = "d\<lparr>sn_s := ev3_uart_sensor_poll (pr_poll_now r) (arrive (pr_bytes r) (sn_s d))\<rparr>"
  obtain m1 d1 g1 where s: "serve_reqs e (pr_reqs r) (?d, g) = (m1, d1, g1)" by (metis surj_pair)
  have l: "listening p ?d" by (rule listening_poll [OF Cons.prems(1)])
  have "tame ?d = tame d" by (rule tame_same) simp_all
  with serve_reqs_seat [OF s] Cons.prems(2) l have seat: "same_seat ?d d1" "list_all (shows_claim ?d) m1"
    by (simp_all add: listening_def EV3_SENSOR_PORT_NONE_def)
  have l1: "listening p d1" by (rule listening_seat [OF l seat(1)])
  have m1: "list_all (claimed p) m1"
    using seat(2) l by (auto simp: list_all_iff shows_claim_def claimed_def listening_def)
  have same: "sn_cfg d1 = sn_cfg d" "sn_pinned d1 = sn_pinned d" using same_seatD [OF seat(1)] by simp_all
  have tm: "list_all (\<lambda>r. list_all (tame d1) (pr_reqs r)) rs"
    using Cons.prems(2) tame_same [OF same] by simp
  show ?case using probe_loop_round [OF Cons.prems(3) s]
  proof (elim disjE exE conjE)
    fix h t b m2
    assume "probe_loop e t0 h t b rs (d1, g1) = Some (m2, d', g')" "ms = m1 @ m2"
    with Cons.IH [OF l1 tm this(1)] m1 same show ?thesis by simp
  qed (use l1 m1 same in simp)
qed

definition calm :: "sensord_env \<Rightarrow> sensord \<Rightarrow> bool" where
  "calm e d \<longleftrightarrow> (\<forall>p. list_all (tame d) (se_asking e p) \<and> list_all (\<lambda>r. list_all (tame d) (pr_reqs r)) (se_rounds e p))"

lemma calm_same: "sn_cfg d' = sn_cfg d \<Longrightarrow> sn_pinned d' = sn_pinned d \<Longrightarrow> calm e d' = calm e d"
  using tame_same [of d' d] by (simp add: calm_def)

lemma probing_seat: "probing_inv d \<Longrightarrow> same_seat d d' \<Longrightarrow> probing_inv d'"
proof -
  assume p: "probing_inv d" and s: "same_seat d d'"
  have "d\<lparr>sn_port := sn_port d, sn_probe_claim := EV3_SENSOR_PORT_NONE\<rparr> = d\<lparr>sn_probe_claim := EV3_SENSOR_PORT_NONE\<rparr>" by simp
  then have "sensord_inv (d'\<lparr>sn_port := sn_port d, sn_probe_claim := EV3_SENSOR_PORT_NONE\<rparr>)"
    using p s by (metis same_seat_inv probing_inv_def)
  moreover have "d'\<lparr>sn_port := sn_port d\<rparr> = d'" using same_seatD(1) [OF s] by simp
  ultimately show ?thesis using p same_seatD(1) [OF s] by (simp add: probing_inv_def)
qed

lemma listening_open:
  assumes "probing_inv d" "us_inv s" "home s = (p, ev3_input_port_uart_base p)" "0 \<le> p" "p < 4" "sn_probe_claim d = p"
  shows "listening p (d\<lparr>sn_s := s\<rparr>)"
  using assms link_ok_inv [OF assms(2)] by (auto simp: listening_def probing_inv_def sensord_inv_def)

lemma listening_bound: "listening p d \<Longrightarrow> sensord_inv (bound_to p d)"
  by (auto simp: listening_def sensord_inv_def bound_to_def)

lemma listening_closed:
  assumes "listening p d" "link_close e (sn_s d) g = (s, g')"
  shows "probing_inv (d\<lparr>sn_s := s\<rparr>)"
  using assms link_close_result [OF assms(2)] by (auto simp: listening_def probing_inv_def sensord_inv_def EV3_SENSOR_PORT_NONE_def)

lemma probe_port_inv:
  assumes "probing_inv d" "calm e d" "0 \<le> p" "probe_port e p (d, g) = Some (found, ms, d', g')"
  shows "if found then sensord_inv d' else probing_inv d'" "list_all (claimed p) ms" "sn_cfg d' = sn_cfg d" "sn_pinned d' = sn_pinned d"
proof -
  let ?d = "d\<lparr>sn_probe_claim := p\<rparr>"
  obtain m1 d1 g1 where s: "serve_reqs e (se_asking e p) (?d, g) = (m1, d1, g1)" by (metis surj_pair)
  have "list_all (tame ?d) (se_asking e p)" using assms(2) tame_same [of ?d d] by (simp add: calm_def)
  moreover have "searching ?d" "sn_port ?d = EV3_SENSOR_PORT_NONE" using assms(1) by (auto simp: probing_inv_def sensord_inv_def)
  ultimately have seat: "same_seat ?d d1" "list_all (claimed p) m1"
    using serve_reqs_seat [OF s] assms(3) by (auto simp: list_all_iff shows_claim_def claimed_def)
  have p1: "probing_inv d1" using probing_seat [OF _ seat(1)] assms(1) by simp
  have same: "sn_cfg d1 = sn_cfg d" "sn_pinned d1 = sn_pinned d" "sn_probe_claim d1 = p" using same_seatD [OF seat(1)] by simp_all
  obtain conn ty g2 where c: "ev3_sensor_conn_type (sn_adc_fd d1) p (se_ins e p) (se_samples e p) g1 = ((conn, ty), g2)"
    by (metis surj_pair)
  obtain ok s1 g3 where o: "link_open e p (sn_mode d1) (sn_s d1) g2 = (ok, s1, g3)" by (metis surj_pair)
  note r = link_open_result [OF o probing_link [OF p1]]
  have tm: "list_all (\<lambda>r. list_all (tame (d1\<lparr>sn_s := s1\<rparr>)) (pr_reqs r)) (se_rounds e p)"
    using assms(2) tame_same [of "d1\<lparr>sn_s := s1\<rparr>" d] same by (simp add: calm_def)
  have lp: "listening p d2 \<and> list_all (claimed p) m2 \<and> sn_cfg d2 = sn_cfg d \<and> sn_pinned d2 = sn_pinned d"
    if "ok" "probe_loop e t0 lh lr sb (se_rounds e p) (d1\<lparr>sn_s := s1\<rparr>, g3) = Some (m2, d2, g4)" for t0 lh lr sb m2 d2 g4
    using probe_loop_inv [OF listening_open [OF p1, of s1 p] tm that(2)] r(2) [OF that(1)] same by auto
  have pd: "probing_inv (d1\<lparr>sn_s := s1\<rparr>)" if "\<not> ok" using probing_closed [OF p1 r(1) r(3) [OF that]] .
  have "(if found then sensord_inv d' else probing_inv d') \<and> list_all (claimed p) ms \<and> sn_cfg d' = sn_cfg d \<and> sn_pinned d' = sn_pinned d"
  proof (cases "ev3_input_port_uart_base p = 0 \<or> port_owned_by_peer e p d1 \<or> not_uart conn \<or> \<not> ok")
    case True
    then show ?thesis
      using assms(1,4) p1 pd seat(2) same by (auto simp: probe_port_def s c o Let_def split: if_splits)
  next
    case False
    then obtain m2 d2 g4 where l: "probe_loop e (se_probe_t0 e p) (rr_head (us_rx s1)) (se_probe_t0 e p) False (se_rounds e p)
        (d1\<lparr>sn_s := s1\<rparr>, g3) = Some (m2, d2, g4)" using assms(4) by (auto simp: probe_port_def s c o Let_def split: option.splits)
    obtain s2 g5 where k: "link_close e (sn_s d2) g4 = (s2, g5)" by (metis surj_pair)
    have ok using False by simp
    note h = lp [OF this l]
    then have "sensord_inv (bound_to p d2)" "probing_inv (d2\<lparr>sn_s := s2\<rparr>)"
      using listening_bound listening_closed [of p, OF _ k] by simp_all
    with False h seat(2) assms(4) l k show ?thesis
      by (simp add: probe_port_def s c o) (auto simp: bound_to_def split: if_splits)
  qed
  then show "if found then sensord_inv d' else probing_inv d'" "list_all (claimed p) ms" "sn_cfg d' = sn_cfg d" "sn_pinned d' = sn_pinned d"
    by simp_all
qed

lemma probe_ports_inv:
  "probing_inv d \<Longrightarrow> calm e d \<Longrightarrow> list_all (\<lambda>p. 0 \<le> p) ps \<Longrightarrow> probe_ports e ps (d, g) = Some (ms, d', g') \<Longrightarrow>
     sensord_inv d' \<and> list_all (\<lambda>(p, m). claimed p m) ms"
proof (induction ps arbitrary: d g ms)
  case Nil
  then show ?case by (auto simp: probing_dropped)
next
  case (Cons p ps)
  obtain found m1 d1 g1 where f: "probe_port e p (d, g) = Some (found, m1, d1, g1)"
    using Cons.prems(4) by (auto split: option.splits)
  have p: "0 \<le> p" "list_all (\<lambda>p. 0 \<le> p) ps" using Cons.prems(3) by simp_all
  note i = probe_port_inv [OF Cons.prems(1,2) p(1) f]
  have "calm e d1" using Cons.prems(2) calm_same [OF i(3,4)] by simp
  moreover have "list_all (\<lambda>(p, m). claimed p m) (map (Pair p) m1)" using i(2) by (simp add: list_all_iff)
  ultimately show ?case using Cons.IH [of d1 g1] Cons.prems(4) f i(1) p(2) by (auto split: if_splits)
qed

section \<open>The loop\<close>

lemma reset_leg_inv:
  assumes "sensord_inv d"
  shows "sensord_inv (reset_leg now d)" "sn_port (reset_leg now d) = sn_port d"
proof -
  have "sensord_inv (d\<lparr>sn_reset_mode := -1\<rparr>)" using assms by (auto simp: sensord_inv_def)
  from select_link_inv [OF this] assms
  show "sensord_inv (reset_leg now d)" "sn_port (reset_leg now d) = sn_port d"
    by (simp_all add: reset_leg_def Let_def)
qed

lemma link_health_inv: "sensord_inv d \<Longrightarrow> sensord_inv (fst (link_health e now (d, g)))"
  using unbind_inv(1) [of d e g] by (auto simp: link_health_def Let_def)

lemma scan_fields: "sn_cfg (fst (scan_and_bind e now (d, g))) = sn_cfg d" "sn_pinned (fst (scan_and_bind e now (d, g))) = sn_pinned d"
  by (simp_all add: scan_and_bind_def bind_def bound_to_def Let_def split: prod.split)

lemma search_step_inv:
  assumes "sensord_inv d" "searching d" "calm e d" "search_step e now (d, g) = Some (ms, d', g')"
  shows "sensord_inv d' \<and> list_all (\<lambda>(p, m). claimed p m) ms"
proof -
  define d1 where "d1 = (if sn_next_probe_ms d = 0
      then d\<lparr>sn_next_probe_ms := now + word_of_int (probe_slot d) * PROBE_STAGGER_MS\<rparr> else d)"
  have d1: "sensord_inv d1" "searching d1" using assms(1,2) by (simp_all add: d1_def)
  have f1: "sn_cfg d1 = sn_cfg d" "sn_pinned d1 = sn_pinned d" by (simp_all add: d1_def)
  obtain d2 g2 where s: "scan_and_bind e now (d1, g) = (d2, g2)" by fastforce
  with scan_inv [OF d1, of e now g] have d2: "sensord_inv d2" by simp
  have "calm e d2" using assms(3) calm_same [of d2 d e] scan_fields [of e now d1 g] f1 s by simp
  then have "sensord_inv d3 \<and> list_all (\<lambda>(p, m). claimed p m) ms'" if "searching d2" "protocol_probe e (d2, g2) = Some (ms', d3, g3)" for ms' d3 g3
    using probe_ports_inv [of d2 e "[0, 1, 2, 3]" g2 ms' d3 g3] searching_probing [OF d2 that(1)] that(2)
    by (simp add: protocol_probe_def del: probe_ports.simps)
  with d1 d2 assms(4) s show ?thesis
    unfolding search_step_def prod.case d1_def [symmetric] Let_def
    by (auto simp del: probe_ports.simps split: if_splits)
qed

text \<open>A round of a bound daemon is a poll, the second leg of a reset and the health check; it serves nobody.\<close>

lemma bound_round_inv:
  assumes "sensord_inv d"
  shows "sensord_inv (fst (link_health e now (reset_leg t (d\<lparr>sn_s := ev3_uart_sensor_poll t (sn_s d)\<rparr>), g)))"
proof -
  have "sensord_inv (d\<lparr>sn_s := ev3_uart_sensor_poll t (sn_s d)\<rparr>)"
    by (rule link_update_inv [OF assms]) (use assms in \<open>auto simp: sensord_inv_def intro: link_ok_poll\<close>)
  then show ?thesis using link_health_inv reset_leg_inv by blast
qed

lemma consumed_inv: "sensord_inv d \<Longrightarrow> sensord_inv (d\<lparr>sn_s := (sn_s d)\<lparr>us_wakeup := False\<rparr>\<rparr>)"
  by (rule link_update_inv) (auto simp: sensord_inv_def intro: link_ok_device)

lemma sensor_loop_inv:
  assumes "sensord_inv d" "calm e d \<or> sn_port d \<ge> 0" "sensor_loop e (d, g) = Some (wk, ms, d', g')"
  shows "sensord_inv d' \<and> list_all (\<lambda>(p, m). claimed p m) ms"
proof -
  let ?now = "if se_now e = 0 then 1 else se_now e"
  let ?b = "link_health e ?now (reset_leg (se_now e) (d\<lparr>sn_s := ev3_uart_sensor_poll (se_now e) (sn_s d)\<rparr>), g)"
  obtain x y where r: "(if sn_port d \<ge> 0 then Some ([], ?b) else search_step e ?now (d, g)) = Some (ms, x, y)"
    and d': "d' = x\<lparr>sn_s := (sn_s x)\<lparr>us_wakeup := False\<rparr>\<rparr>"
    using assms(3) by (auto simp: sensor_loop_def ev3_uart_sensor_consume_wakeup_def Let_def split: if_splits)
  have "sensord_inv x \<and> list_all (\<lambda>(p, m). claimed p m) ms"
  proof (cases "sn_port d \<ge> 0")
    case True
    with r bound_round_inv [OF assms(1), of e ?now "se_now e" g] show ?thesis by auto
  next
    case False
    with r search_step_inv [OF assms(1), of e ?now g ms x y] assms(2) show ?thesis by simp
  qed
  then show ?thesis using consumed_inv d' by simp
qed

text \<open>The polling loop ends: at the latest in the round whose clock is 3.5 s past its start.\<close>

lemma probe_loop_ends:
  "r \<in> set rs \<Longrightarrow> PROBE_SYNC_MS \<le> pr_now r - t0 \<Longrightarrow> \<exists>x. probe_loop e t0 lh lr sb rs s = Some x"
proof (induction rs arbitrary: lh lr sb s)
  case Nil
  then show ?case by simp
next
  case (Cons q rs)
  obtain d g where s: "s = (d, g)" by (cases s)
  obtain m1 d1 g1 where v: "serve_reqs e (pr_reqs q) (d\<lparr>sn_s := ev3_uart_sensor_poll (pr_poll_now q) (arrive (pr_bytes q) (sn_s d))\<rparr>, g)
      = (m1, d1, g1)" by (metis surj_pair)
  have "probe_loop e t0 h t b rs (d1, g1) \<noteq> None" if "r \<noteq> q" for h t b
    using Cons.IH [of h t b "(d1, g1)"] Cons.prems that by auto
  then have "probe_loop e t0 lh lr sb (q # rs) s \<noteq> None"
    using Cons.prems(2) unfolding s probe_loop.simps v Let_def prod.case by (cases "r = q") (simp_all del: not_None_eq)
  then show ?case by (simp only: not_None_eq)
qed

lemma probe_port_ends:
  assumes "r \<in> set (se_rounds e p)" "PROBE_SYNC_MS \<le> pr_now r - se_probe_t0 e p"
  shows "\<exists>x. probe_port e p s = Some x"
  using probe_loop_ends [OF assms, of e] by (auto simp: probe_port_def Let_def split: prod.split option.split) (metis option.distinct(1))

lemma probe_ports_end:
  "(\<And>p. p \<in> set ps \<Longrightarrow> \<exists>r \<in> set (se_rounds e p). PROBE_SYNC_MS \<le> pr_now r - se_probe_t0 e p) \<Longrightarrow>
     \<exists>x. probe_ports e ps s = Some x"
proof (induction ps arbitrary: s)
  case Nil
  then show ?case by simp
next
  case (Cons p ps)
  obtain r where "r \<in> set (se_rounds e p)" "PROBE_SYNC_MS \<le> pr_now r - se_probe_t0 e p" using Cons.prems by auto
  then obtain f ms t where f: "probe_port e p s = Some (f, ms, t)" using probe_port_ends [of r e p s] by (metis surj_pair)
  obtain x where "probe_ports e ps t = Some x" using Cons.IH [of t] Cons.prems by auto
  with f show ?case by (cases f; cases x) simp_all
qed

section \<open>Reachable states\<close>

text \<open>
  Between two steps the UART and the pins may change in any way and the receive interrupt may run. A round is
  one that a client does not disturb by the shell command \<^verbatim>\<open>scan\<close> in the middle of a probe, unless no port
  is pinned and the sensor type is one the voltage table does not name (\<open>calm\<close>).
\<close>

inductive sensord_step :: "sensord_state \<Rightarrow> sensord_state \<Rightarrow> bool" where
  sn_round: "sensor_loop e s = Some (wk, ms, t) \<Longrightarrow> calm e (fst s) \<Longrightarrow> sensord_step s t"
| sn_read: "sensord_step (d, g) (snd (sensor_read sz tic d), g)"
| sn_write: "sensord_step (d, g) (snd (sensor_write buf sz now d), g)"
| sn_cntl: "sensord_step (d, g) (snd (sensor_dev_cntl cmd msg now tic d), g)"
| sn_shell: "sensord_step s (snd (sensor_cmd e argv s))"
| sn_irq: "sensord_step (d, g) (d\<lparr>sn_s := rx_irq (sn_s d)\<rparr>, g)"
| sn_uart: "sensord_step (d, g) (d\<lparr>sn_s := (sn_s d)\<lparr>us_dev := u\<rparr>\<rparr>, g)"
| sn_pins: "sensord_step (d, g) (d, g')"

lemma device_inv:
  assumes "sensord_inv d"
  shows "sensord_inv (d\<lparr>sn_s := rx_irq (sn_s d)\<rparr>)" "sensord_inv (d\<lparr>sn_s := (sn_s d)\<lparr>us_dev := u\<rparr>\<rparr>)"
proof -
  have "link_ok (sn_s d)" using assms by (simp add: sensord_inv_def)
  then show "sensord_inv (d\<lparr>sn_s := rx_irq (sn_s d)\<rparr>)" "sensord_inv (d\<lparr>sn_s := (sn_s d)\<lparr>us_dev := u\<rparr>\<rparr>)"
    using link_update_inv [OF assms] link_ok_irq link_ok_device(1) by simp_all
qed

lemma sensord_step_inv: "sensord_step s t \<Longrightarrow> sensord_inv (fst s) \<Longrightarrow> sensord_inv (fst t)"
proof (induction rule: sensord_step.induct)
  case (sn_round e s wk ms t)
  then show ?case using sensor_loop_inv [of "fst s" e "snd s" wk ms "fst t" "snd t"] by simp
next
  case (sn_shell s e argv)
  then show ?case using sensor_cmd_inv [of "fst s" e argv "snd s"] by simp
qed (simp_all add: sensor_read_inv sensor_write_cmd_inv sensor_cntl_inv device_inv)

interpretation snsys: transition_system "\<lambda>s. sensord_inv (fst s)" sensord_step "\<lambda>s. sensord_inv (fst s)"
  by unfold_locales (auto intro: sensord_step_inv)

lemma main_inv:
  assumes "0 \<le> cf_default_mode cfg" "cf_default_mode cfg < 8"
  shows "sensord_inv (fst (ev3_uart_sensord_main e cfg pinned mode mnt u g))"
  unfolding ev3_uart_sensord_main_def Let_def using assms
  by (intro scan_inv)
     (auto simp: sensord_inv_def link_ok_def us_inv_defs ev3_uart_sensor_zero_def rr_inv_def EV3_UART_SPEED_MIN_def
        EV3_SENSOR_PORT_NONE_def EV3_UART_MAX_MODE_def)

text \<open>
  C7. In every state a UART sensor daemon reaches between two rounds of its loop, whatever bytes, pin levels,
  peers, client requests and shell commands it meets: no probe claim is left behind, the link is open exactly
  when a port is bound and is the link of that port, a closed link never counts as connected, mode and
  held sample stay inside their arrays, and a published sample has at most eight values, the rest being
  zero. The requests answered in the middle of the next round, while a port is probed, see the claim: every
  sample then handed out names the port being probed in its probing field and no port as bound. The
  shell command \<^verbatim>\<open>scan\<close> is taken to come between two rounds if a port is pinned (option
  \<^verbatim>\<open>-p\<close>) or the sensor type is one of the voltage table, where it could bind another port under the probe; the
  other requests, and \<^verbatim>\<open>scan\<close> for the four daemons without that option, come at any time.
\<close>

theorem sensord_reachable_safe:
  assumes "0 \<le> cf_default_mode cfg" "cf_default_mode cfg < 8"
    and "sensord_step\<^sup>*\<^sup>* (ev3_uart_sensord_main e cfg pinned mode mnt u g) (d, g')"
    and "r = fst (fill_data tic d)"
  shows "sn_probe_claim d = EV3_SENSOR_PORT_NONE \<and> sd_probing r = 0 \<and>
    (if sn_port d = EV3_SENSOR_PORT_NONE then us_base (sn_s d) = 0 \<and> \<not> sd_connected r
     else 0 \<le> sn_port d \<and> sn_port d < 4 \<and> us_port (sn_s d) = sn_port d \<and> us_base (sn_s d) \<noteq> 0) \<and>
    0 \<le> sn_mode d \<and> sn_mode d < 8 \<and> 0 \<le> sd_nvalues r \<and> sd_nvalues r \<le> 8 \<and> length (sd_value r) = 8 \<and>
    list_all (\<lambda>v. v = 0) (drop (nat (sd_nvalues r)) (sd_value r)) \<and>
    (\<forall>e' wk ms t. calm e' d \<and> sensor_loop e' (d, g') = Some (wk, ms, t) \<longrightarrow>
       list_all (\<lambda>(p, m). sd_port m = EV3_SENSOR_PORT_NONE \<and> sd_probing m = p + 1) ms)"
proof -
  have inv: "sensord_inv d"
    using snsys.inv_reachable [OF main_inv [OF assms(1,2)] assms(3)] by simp
  then have port: "sn_port d = EV3_SENSOR_PORT_NONE \<and> us_base (sn_s d) = 0 \<or>
      0 \<le> sn_port d \<and> sn_port d < 4 \<and> home (sn_s d) = (sn_port d, ev3_input_port_uart_base (sn_port d))"
    and up: "us_base (sn_s d) = 0 \<Longrightarrow> \<not> us_synced (sn_s d)"
    using link_ok_synced [of "sn_s d"] by (auto simp: sensord_inv_def split: if_splits)
  have n: "0 \<le> us_datasets (sn_s d) ! nat (sn_mode d)" "us_datasets (sn_s d) ! nat (sn_mode d) \<le> 8"
    using shown_count [OF inv] by auto
  have mid: "list_all (\<lambda>(p, m). sd_port m = EV3_SENSOR_PORT_NONE \<and> sd_probing m = p + 1) ms"
    if "calm e' d" "sensor_loop e' (d, g') = Some (wk, ms, t)" for e' wk ms t
    using sensor_loop_inv [OF inv, of e' g' wk ms "fst t" "snd t"] that by (simp add: claimed_def)
  show ?thesis
    using port up uart_base_nonzero [of "sn_port d"] n inv mid
    by (auto simp: assms(4) fill_data_eq [OF inv] home_def sensord_inv_def EV3_SENSOR_PORT_NONE_def)
qed

definition idle_env :: sensord_env where
  "idle_env = \<lparr>se_now = 1000, se_end = 1000, se_tic = 1000, se_uart = (\<lambda>_. demo_uart),
     se_pru_enable = (\<lambda>_ g. (0, g)), se_pru_disable = (\<lambda>_ g. g), se_adc_fd = -1, se_samples = (\<lambda>_. None),
     se_ins = (\<lambda>_. [0, 0, 0, 0, 0]), se_peer = (\<lambda>_. None), se_asking = (\<lambda>_. []), se_probe_t0 = (\<lambda>_. 0), se_rounds = (\<lambda>_. [])\<rparr>"

text \<open>Peers hold all four ports, and each time the daemon asks them a client asks it for a sample.\<close>

definition asked_env :: sensord_env where
  "asked_env = idle_env\<lparr>se_asking := (\<lambda>_. [ReqCntl EV3_SENSOR_CNTL_GET_DATA None 0 0]),
     se_peer := (\<lambda>n. if n = ''/dev/us0'' then Some (0, 0) else if n = ''/dev/gyro0'' then Some (1, 0)
       else if n = ''/dev/ir0'' then Some (2, 0) else if n = ''/dev/touch0'' then Some (3, 0) else None)\<rparr>"

definition asked_daemon :: sensord_state where
  "asked_daemon = ev3_uart_sensord_main asked_env colord_cfg (-1) 2 ''/dev/color0'' demo_uart demo_gpio"

lemma asked_port:
  assumes "\<not> us_synced (sn_s d)" "sn_self_node d = ''/dev/color0''" "p \<in> {0, 1, 2, 3}"
  shows "probe_port asked_env p (d, g) =
    Some (False, [fst (fill_data 0 (d\<lparr>sn_probe_claim := p\<rparr>))], d\<lparr>sn_probe_claim := EV3_SENSOR_PORT_NONE\<rparr>, g)"
proof -
  let ?d = "d\<lparr>sn_probe_claim := p\<rparr>"
  have "serve_reqs asked_env (se_asking asked_env p) (?d, g) = ([fst (fill_data 0 ?d)], ?d, g)"
    using fill_state [of 0 ?d] assms(1)
    by (simp add: asked_env_def serve_req_def sensor_dev_cntl_def split_beta)
  moreover have "port_owned_by_peer asked_env p ?d"
    using assms(2,3) by (auto simp: port_owned_by_peer_def ev3_sensor_port_busy_def conn_peer_nodes_def peer_holds_def asked_env_def)
  moreover have "ev3_input_port_uart_base p \<noteq> 0" using uart_base_nonzero [of p] assms(3) by auto
  ultimately show ?thesis by (simp add: probe_port_def Let_def)
qed

lemma asked_search:
  assumes "scan_and_bind e now (d, g) = (d', g')" "unnamed d" "se_adc_fd e = sn_adc_fd d"
  shows "d' = d\<lparr>sn_scan_ms := now\<rparr>"
  using scan_unnamed [OF assms(2), of e now g] assms(1,3) by simp

lemma asked_round: "\<exists>wk ms t. sensor_loop asked_env asked_daemon = Some (wk, ms, t) \<and> map fst ms = [0, 1, 2, 3]"
proof -
  obtain d g where a: "asked_daemon = (d, g)" by (cases asked_daemon)
  have un: "unnamed x" if "sn_cfg x = colord_cfg" "sn_pinned x = -1" for x
    using that by (simp add: unnamed_def colord_cfg_def detect_consts)
  have d: "sn_cfg d = colord_cfg" "sn_pinned d = -1" "sn_port d = EV3_SENSOR_PORT_NONE" "\<not> us_synced (sn_s d)"
      "sn_self_node d = ''/dev/color0''" "sn_adc_fd d = -1" "sn_next_probe_ms d = 0"
    using asked_search [OF a [unfolded asked_daemon_def ev3_uart_sensord_main_def Let_def]]
    by (simp_all add: un EV3_IN_PORT_COUNT_def asked_env_def idle_env_def ev3_uart_sensor_zero_def)
  let ?d = "d\<lparr>sn_next_probe_ms := 1000 + word_of_int (probe_slot d) * PROBE_STAGGER_MS\<rparr>"
  have slot: "probe_slot d = 0" using d(1) by (simp add: probe_slot_def colord_cfg_def EV3_SENSOR_TYPE_EV3_COLOR_def)
  obtain d2 g2 where s: "scan_and_bind asked_env 1000 (?d, g) = (d2, g2)" by fastforce
  have d2: "d2 = ?d\<lparr>sn_scan_ms := 1000\<rparr>"
    by (rule asked_search [OF s]) (use d in \<open>simp_all add: un asked_env_def idle_env_def\<close>)
  have "\<exists>ms t. protocol_probe asked_env (d2, g2) = Some (ms, t) \<and> map fst ms = [0, 1, 2, 3]"
    using d(4,5) d2 by (simp add: protocol_probe_def asked_port)
  then obtain ms d3 g3 where "protocol_probe asked_env (d2, g2) = Some (ms, d3, g3)" "map fst ms = [0, 1, 2, 3]" by force
  moreover have "se_now asked_env = 1000" by (simp add: asked_env_def idle_env_def)
  ultimately show ?thesis
    using d s d2 slot unfolding a sensor_loop_def search_step_def prod.case Let_def
    by (simp add: EV3_SENSOR_PORT_NONE_def ev3_uart_sensor_consume_wakeup_def)
qed

theorem sensord_reachable_safe_witness:
  "\<exists>wk ms t. sensor_loop asked_env asked_daemon = Some (wk, ms, t) \<and> map fst ms = [0, 1, 2, 3] \<and>
     list_all (\<lambda>(p, m). sd_port m = EV3_SENSOR_PORT_NONE \<and> sd_probing m = p + 1) ms"
proof -
  have m: "0 \<le> cf_default_mode colord_cfg" "cf_default_mode colord_cfg < 8" by (simp_all add: colord_cfg_def)
  obtain d g where s: "asked_daemon = (d, g)" by (cases asked_daemon)
  then have r: "sensord_step\<^sup>*\<^sup>* (ev3_uart_sensord_main asked_env colord_cfg (-1) 2 ''/dev/color0'' demo_uart demo_gpio) (d, g)"
    unfolding asked_daemon_def by simp
  have "calm asked_env d" by (simp add: calm_def asked_env_def idle_env_def tame_def)
  moreover obtain wk ms t where l: "sensor_loop asked_env (d, g) = Some (wk, ms, t)" "map fst ms = [0, 1, 2, 3]"
    using asked_round unfolding s by auto
  ultimately have "list_all (\<lambda>(p, m). sd_port m = EV3_SENSOR_PORT_NONE \<and> sd_probing m = p + 1) ms"
    using sensord_reachable_safe [OF m r refl, of 0] by blast
  with l show ?thesis unfolding s by (intro exI conjI)
qed

section \<open>Holding the last sample\<close>

text \<open>A round of the loop that keeps the port, or the hardware moving on.\<close>

inductive bound_step :: "sensord_state \<Rightarrow> sensord_state \<Rightarrow> bool" where
  bs_round: "sensor_loop e s = Some (wk, ms, t) \<Longrightarrow> sn_port (fst t) \<ge> 0 \<Longrightarrow> bound_step s t"
| bs_irq: "bound_step (d, g) (d\<lparr>sn_s := rx_irq (sn_s d)\<rparr>, g)"
| bs_uart: "bound_step (d, g) (d\<lparr>sn_s := (sn_s d)\<lparr>us_dev := u\<rparr>\<rparr>, g)"

definition holding :: "int \<Rightarrow> int list \<Rightarrow> sensord \<Rightarrow> bool" where
  "holding n vs d \<longleftrightarrow> sensord_inv d \<and> sn_port d \<ge> 0 \<and> sn_held_n d = n \<and> sn_held_value d = vs"

lemma reset_leg_held: "sn_held_n (reset_leg now d) = sn_held_n d \<and> sn_held_value (reset_leg now d) = sn_held_value d"
  by (simp add: reset_leg_def Let_def)

lemma loop_holding:
  assumes "holding n vs d" "sensor_loop e (d, g) = Some (wk, ms, d', g')" "sn_port d' \<ge> 0"
  shows "holding n vs d'"
proof -
  let ?d = "reset_leg (se_now e) (d\<lparr>sn_s := ev3_uart_sensor_poll (se_now e) (sn_s d)\<rparr>)"
  let ?now = "if se_now e = 0 then 1 else se_now e"
  have k: "sn_held_n ?d = n" "sn_held_value ?d = vs"
    using assms(1) reset_leg_held by (simp_all add: holding_def)
  obtain x y where r: "link_health e ?now (?d, g) = (x, y)" by fastforce
  have "0 \<le> sn_port d" using assms(1) by (simp add: holding_def)
  with assms(2) have d': "d' = x\<lparr>sn_s := (sn_s x)\<lparr>us_wakeup := False\<rparr>\<rparr>"
    unfolding sensor_loop_def prod.case Let_def by (simp add: r ev3_uart_sensor_consume_wakeup_def)
  have "sn_port (fst (unbind e (?d, g))) = EV3_SENSOR_PORT_NONE"
    by (simp add: unbind_def split: prod.split)
  then have "sn_held_n x = n \<and> sn_held_value x = vs"
    using r k assms(3) d' by (auto simp: link_health_def Let_def EV3_SENSOR_PORT_NONE_def split: if_splits)
  moreover have "sensord_inv d'" using sensor_loop_inv [OF _ _ assms(2)] assms(1) by (simp add: holding_def)
  ultimately show ?thesis using assms(3) d' by (simp add: holding_def)
qed

lemma bound_step_holding: "bound_step s t \<Longrightarrow> holding n vs (fst s) \<Longrightarrow> holding n vs (fst t)"
proof (induction rule: bound_step.induct)
  case (bs_round e s wk ms t)
  then show ?case using loop_holding [of n vs "fst s" e "snd s" wk ms "fst t" "snd t"] by simp
qed (auto simp: holding_def device_inv)

interpretation held: transition_system "\<lambda>s. holding n vs (fst s)" bound_step "\<lambda>s. holding n vs (fst s)" for n vs
  by unfold_locales (auto intro: bound_step_holding)

text \<open>
  A reading survives a resync: once a connected daemon has published a sample, then as long as it keeps
  its port and no client changes the mode, every sample published while the link is down repeats
  those values, marked as not connected.
\<close>

theorem resync_holds_sample:
  assumes "sensord_inv d" "sn_port d \<ge> 0" "fill_data tic d = (r, d')" "sd_connected r" "0 < sd_nvalues r"
    and "bound_step\<^sup>*\<^sup>* (d', g) (d'', g')" "\<not> us_synced (sn_s d'')"
  shows "sd_value (fst (fill_data tic' d'')) = sd_value r \<and> sd_nvalues (fst (fill_data tic' d'')) = sd_nvalues r \<and>
    \<not> sd_connected (fst (fill_data tic' d''))"
proof -
  let ?n = "us_datasets (sn_s d) ! nat (sn_mode d)"
  let ?vs = "map (\<lambda>i. ev3_uart_sensor_dataset (sn_mode d) i (sn_s d)) [0..?n - 1]"
  have e: "fst (fill_data tic d) = r" "snd (fill_data tic d) = d'" using assms(3) by simp_all
  note f = fill_data_eq [OF assms(1), of tic, unfolded e]
  have up: "us_synced (sn_s d)" "0 < ?n" using assms(4,5) f(1) by auto
  note n = shown_count [OF assms(1)]
  have "sensord_inv d'" using fill_data_inv [OF assms(1), of tic] e by simp
  with up assms(2) f(2) have "holding ?n (?vs @ drop (nat ?n) (sn_held_value d)) d'"
    by (simp add: holding_def)
  from held.inv_reachable [of ?n "?vs @ drop (nat ?n) (sn_held_value d)" "(d', g)", OF _ assms(6)] this
  have h: "sensord_inv d''" "sn_held_n d'' = ?n" "sn_held_value d'' = ?vs @ drop (nat ?n) (sn_held_value d)"
    by (simp_all add: holding_def)
  show ?thesis
    unfolding fill_data_eq [OF h(1)] using h(2,3) assms(7) up n f(1) by simp
qed

definition live_link :: ev3_uart_sensor where
  "live_link = demo_link\<lparr>us_port := 0, us_base := ev3_input_port_uart_base 0,
     us_data := (replicate 8 (replicate 8 0))[0 := 42 # replicate 7 0]\<rparr>"

definition live_daemon :: sensord where
  "live_daemon = \<lparr>sn_cfg = colord_cfg, sn_s = live_link, sn_port = 0, sn_mode = 0, sn_reset_mode = -1,
     sn_pinned = -1, sn_adc_fd = 3, sn_scan_ms = 0, sn_lost_ms = 0, sn_next_probe_ms = 0,
     sn_self_node = ''/dev/color0'', sn_probe_claim = EV3_SENSOR_PORT_NONE, sn_ever_synced = True,
     sn_held_n = 0, sn_held_value = replicate 8 0\<rparr>"

lemma live_base: "ev3_input_port_uart_base 0 \<noteq> 0"
  using uart_base_nonzero [of 0] by simp

lemma live_inv: "sensord_inv live_daemon"
proof -
  have "us_inv live_link"
    using demo_inv live_base by (simp add: live_link_def us_inv_defs list_all_update)
  then show ?thesis
    using link_ok_inv by (simp add: live_daemon_def sensord_inv_def home_def live_link_def)
qed

lemma live_fill:
  "snd (fill_data 0 live_daemon) = live_daemon\<lparr>sn_held_n := 1, sn_held_value := 42 # replicate 7 0\<rparr>"
  "sd_connected (fst (fill_data 0 live_daemon))" "sd_nvalues (fst (fill_data 0 live_daemon)) = 1"
  "sd_value (fst (fill_data 0 live_daemon)) = 42 # replicate 7 0"
  using fill_data_eq [OF live_inv, of 0]
  by (simp_all add: live_daemon_def live_link_def ev3_uart_sensor_dataset_def EV3_UART_MAX_MODE_def
      EV3_UART_MAX_DATASETS_def numeral_eq_Suc)

lemma live_poll: "ev3_uart_sensor_poll 1000 live_link = resync (live_link\<lparr>us_dev := irq_toggled demo_uart\<rparr>)"
proof -
  have "quiet live_link" using live_base by (simp add: quiet_def live_link_def demo_uart_def)
  then show ?thesis
    by (simp add: poll_quiet poll_switch_def poll_data_def live_link_def ev3_uart_consts)
qed

lemma live_round:
  "\<exists>wk ms t. sensor_loop idle_env (snd (fill_data 0 live_daemon), demo_gpio) = Some (wk, ms, t) \<and>
     sn_port (fst t) = 0 \<and> \<not> us_synced (sn_s (fst t))"
  unfolding live_fill sensor_loop_def prod.case Let_def
  by (simp add: live_daemon_def idle_env_def live_poll reset_leg_def link_health_def ev3_uart_sensor_consume_wakeup_def
      Let_def)

theorem resync_holds_sample_witness:
  "\<exists>d'' g'. bound_step\<^sup>*\<^sup>* (snd (fill_data 0 live_daemon), demo_gpio) (d'', g') \<and>
     sd_value (fst (fill_data 5 d'')) = 42 # replicate 7 0"
proof -
  obtain wk ms d'' g' where r: "sensor_loop idle_env (snd (fill_data 0 live_daemon), demo_gpio) = Some (wk, ms, d'', g')"
      "sn_port d'' = 0" "\<not> us_synced (sn_s d'')"
    using live_round by force
  then have "bound_step\<^sup>*\<^sup>* (snd (fill_data 0 live_daemon), demo_gpio) (d'', g')"
    using bs_round [OF r(1)] by auto
  moreover have "sn_port live_daemon \<ge> 0" by (simp add: live_daemon_def)
  ultimately show ?thesis
    using resync_holds_sample [OF live_inv _ prod.collapse [symmetric] live_fill(2) _ _ r(3), of demo_gpio g' 5] live_fill(3,4)
    by auto
qed

end
