(* ===== verification/Ev3_I2c_Gpio.thy ===== *)
theory Ev3_I2c_Gpio
  imports Ev3_Detect
begin

text \<open>
  The bit-banged I2C bus of the EV3 input ports
  (\<^verbatim>\<open>src/lego.ev3/system/libs/arch_ev3/src/i2c_gpio.c\<close>), over the GPIO and connector layers.

  The world is the GPIO state, the elapsed microseconds, and what a device on the two wires has
  observed: start and stop conditions and, at each rising clock edge, the level the host leaves on the
  data line. The device is the argument \<open>slave\<close>: from the observed history, whether it releases the
  data line. The line is a wired AND of host and device. A pointer argument that may be NULL is an
  \<open>option\<close>.
\<close>

section \<open>State\<close>

datatype i2c_event = Start | Stop | Bit bool

type_synonym i2c_slave = "i2c_event list \<Rightarrow> bool"

record i2c_world =
  iw_gpio :: gpio_state
  iw_hist :: "i2c_event list"
  iw_us :: nat

record ev3_i2c_gpio =
  ig_port :: int
  ig_scl :: int
  ig_sda :: int
  ig_half_us :: int
  ig_nacks :: int

definition EV3_I2C_GPIO_HZ_NXT :: int where "EV3_I2C_GPIO_HZ_NXT = 9600"
definition EV3_I2C_GPIO_HZ_MAX :: int where "EV3_I2C_GPIO_HZ_MAX = 100000"
definition WAIT_AFTER_WRITE :: nat where "WAIT_AFTER_WRITE = 4"
definition WAIT_AFTER_READ :: nat where "WAIT_AFTER_READ = 2"

text \<open>The levels the host puts on clock and data, and what a change of levels means to a device.\<close>

definition bus_lines :: "ev3_i2c_gpio \<Rightarrow> gpio_state \<Rightarrow> bool \<times> bool" where
  "bus_lines bus g =
     (pin_level g (ig_scl bus), pin_is_output g (ig_sda bus) \<longrightarrow> pin_level g (ig_sda bus))"

fun edge :: "bool \<times> bool \<Rightarrow> bool \<times> bool \<Rightarrow> i2c_event list" where
  "edge (c, d) (c', d') =
     (if c \<and> c' then (if d \<and> \<not> d' then [Start] else if \<not> d \<and> d' then [Stop] else [])
      else if c' then [Bit d'] else [])"

definition on_pins :: "ev3_i2c_gpio \<Rightarrow> (gpio_state \<Rightarrow> gpio_state) \<Rightarrow> i2c_world \<Rightarrow> i2c_world" where
  "on_pins bus f w =
     (let g = iw_gpio w; g' = f g
      in w\<lparr>iw_gpio := g', iw_hist := iw_hist w @ edge (bus_lines bus g) (bus_lines bus g')\<rparr>)"

section \<open>Wire operations\<close>

definition tick :: "ev3_i2c_gpio \<Rightarrow> i2c_world \<Rightarrow> i2c_world" where
  "tick bus w = w\<lparr>iw_us := iw_us w + nat (ig_half_us bus)\<rparr>"

definition scl :: "ev3_i2c_gpio \<Rightarrow> bool \<Rightarrow> i2c_world \<Rightarrow> i2c_world" where
  "scl bus v = on_pins bus (ev3_gpio_write (ig_scl bus) v)"

definition sda :: "ev3_i2c_gpio \<Rightarrow> bool \<Rightarrow> i2c_world \<Rightarrow> i2c_world" where
  "sda bus v w =
     (if v then on_pins bus (ev3_gpio_dir (ig_sda bus) False) w
      else on_pins bus (ev3_gpio_dir (ig_sda bus) True) (on_pins bus (ev3_gpio_write (ig_sda bus) False) w))"

text \<open>The data line as the controller samples it, then the read of the input register.\<close>

definition sense :: "i2c_slave \<Rightarrow> ev3_i2c_gpio \<Rightarrow> i2c_world \<Rightarrow> i2c_world" where
  "sense slave bus w =
     (let level = (snd (bus_lines bus (iw_gpio w)) \<and> slave (iw_hist w)); m = GPIO_MASK (ig_sda bus)
      in w\<lparr>iw_gpio := gpio_upd (ig_sda bus)
             (\<lambda>r. r\<lparr>g_in := (if level then g_in r OR m else g_in r AND NOT m)\<rparr>) (iw_gpio w)\<rparr>)"

definition sda_in :: "i2c_slave \<Rightarrow> ev3_i2c_gpio \<Rightarrow> i2c_world \<Rightarrow> bool \<times> i2c_world" where
  "sda_in slave bus w = (let w = sense slave bus w in (ev3_gpio_read (ig_sda bus) (iw_gpio w), w))"

definition i2c_start :: "ev3_i2c_gpio \<Rightarrow> i2c_world \<Rightarrow> i2c_world" where
  "i2c_start bus w =
     (let w = sda bus True w; w = scl bus True w; w = tick bus w; w = sda bus False w; w = tick bus w;
          w = scl bus False w
      in tick bus w)"

definition i2c_stop :: "ev3_i2c_gpio \<Rightarrow> i2c_world \<Rightarrow> i2c_world" where
  "i2c_stop bus w =
     (let w = sda bus False w; w = tick bus w; w = scl bus True w; w = tick bus w; w = sda bus True w
      in tick bus w)"

definition extra_clock :: "ev3_i2c_gpio \<Rightarrow> i2c_world \<Rightarrow> i2c_world" where
  "extra_clock bus w =
     (let w = scl bus False w; w = tick bus w; w = scl bus True w in tick bus w)"

text \<open>The loop of \<^verbatim>\<open>write_byte\<close> with \<open>n\<close> bits to go, then the acknowledge slot.\<close>

fun write_bits :: "ev3_i2c_gpio \<Rightarrow> nat \<Rightarrow> u8 \<Rightarrow> i2c_world \<Rightarrow> i2c_world" where
  "write_bits bus 0 b w = w"
| "write_bits bus (Suc n) b w =
     (let w = sda bus (b AND 0x80 \<noteq> 0) w; b = push_bit 1 b; w = tick bus w; w = scl bus True w;
          w = tick bus w; w = scl bus False w
      in write_bits bus n b w)"

definition write_byte :: "i2c_slave \<Rightarrow> ev3_i2c_gpio \<Rightarrow> u8 \<Rightarrow> i2c_world \<Rightarrow> bool \<times> i2c_world" where
  "write_byte slave bus b w =
     (let w = write_bits bus 8 b w;
          w = sda bus True w; w = tick bus w; w = scl bus True w; w = tick bus w;
          (v, w) = sda_in slave bus w
      in (\<not> v, scl bus False w))"

fun read_bits :: "i2c_slave \<Rightarrow> ev3_i2c_gpio \<Rightarrow> nat \<Rightarrow> u8 \<Rightarrow> i2c_world \<Rightarrow> u8 \<times> i2c_world" where
  "read_bits slave bus 0 b w = (b, w)"
| "read_bits slave bus (Suc n) b w =
     (let w = tick bus w; w = scl bus True w; w = tick bus w;
          (v, w) = sda_in slave bus w;
          b = push_bit 1 b OR (if v then 1 else 0)
      in read_bits slave bus n b (scl bus False w))"

definition read_byte :: "i2c_slave \<Rightarrow> ev3_i2c_gpio \<Rightarrow> bool \<Rightarrow> i2c_world \<Rightarrow> u8 \<times> i2c_world" where
  "read_byte slave bus lst w =
     (let w = sda bus True w;
          (b, w) = read_bits slave bus 8 0 w;
          w = sda bus lst w; w = tick bus w; w = scl bus True w; w = tick bus w
      in (b, scl bus False w))"

fun idle :: "ev3_i2c_gpio \<Rightarrow> nat \<Rightarrow> i2c_world \<Rightarrow> i2c_world" where
  "idle bus 0 w = w"
| "idle bus (Suc n) w = idle bus n (tick bus w)"

section \<open>Public interface\<close>

definition ev3_i2c_gpio_open ::
  "(int \<Rightarrow> gpio_state \<Rightarrow> gpio_state) \<Rightarrow> int \<Rightarrow> int \<Rightarrow> ev3_i2c_gpio \<Rightarrow> i2c_world \<Rightarrow> int \<times> ev3_i2c_gpio \<times> i2c_world"
  where
  "ev3_i2c_gpio_open pru_disable port hz bus w =
     (if port < 0 \<or> port \<ge> EV3_IN_PORT_COUNT then (-1, bus, w)
      else
        let bus = \<lparr>ig_port = -1, ig_scl = 0, ig_sda = 0, ig_half_us = 0, ig_nacks = 0\<rparr>;
            hz = (if hz \<le> 0 then EV3_I2C_GPIO_HZ_NXT else hz);
            hz = (if hz > EV3_I2C_GPIO_HZ_MAX then EV3_I2C_GPIO_HZ_MAX else hz);
            bus = bus\<lparr>ig_half_us := 500000 div hz\<rparr>;
            bus = (if ig_half_us bus < 5 then bus\<lparr>ig_half_us := 5\<rparr> else bus);
            g = ev3_input_port_power port True (iw_gpio w);
            (rc, g) = ev3_input_port_i2c_enable pru_disable port g
        in if rc \<noteq> 0 then (-1, bus, w\<lparr>iw_gpio := g\<rparr>)
           else
             let bus = bus\<lparr>ig_port := port, ig_scl := ev3_input_port_gpio port EV3_PIN5,
                           ig_sda := ev3_input_port_gpio port EV3_PIN6\<rparr>
             in if ig_scl bus < 0 \<or> ig_sda bus < 0 then (-1, bus\<lparr>ig_port := -1\<rparr>, w\<lparr>iw_gpio := g\<rparr>)
                else
                  let g = ev3_gpio_write (ig_scl bus) True g;
                      g = ev3_gpio_config (ig_scl bus) GPIO_OUTPUT g;
                      g = ev3_gpio_config (ig_sda bus) GPIO_INPUT g
                  in (0, bus, w\<lparr>iw_gpio := g\<rparr>))"

definition ev3_i2c_gpio_close :: "ev3_i2c_gpio \<Rightarrow> i2c_world \<Rightarrow> ev3_i2c_gpio \<times> i2c_world" where
  "ev3_i2c_gpio_close bus w =
     (if ig_port bus < 0 then (bus, w)
      else
        let g = ev3_gpio_config (ig_scl bus) GPIO_INPUT (iw_gpio w);
            g = ev3_gpio_config (ig_sda bus) GPIO_INPUT g;
            g = ev3_input_port_power (ig_port bus) False g
        in (bus\<lparr>ig_port := -1\<rparr>, w\<lparr>iw_gpio := g\<rparr>))"

text \<open>The two phases of a transfer: 0, -2 (address not acknowledged) or -3 (data not acknowledged).\<close>

fun write_data :: "i2c_slave \<Rightarrow> ev3_i2c_gpio \<Rightarrow> u8 list \<Rightarrow> i2c_world \<Rightarrow> bool \<times> i2c_world" where
  "write_data slave bus [] w = (True, w)"
| "write_data slave bus (b # bs) w =
     (let (ack, w) = write_byte slave bus b (idle bus WAIT_AFTER_WRITE w)
      in if ack then write_data slave bus bs w else (False, w))"

definition write_phase :: "i2c_slave \<Rightarrow> ev3_i2c_gpio \<Rightarrow> u8 \<Rightarrow> u8 list \<Rightarrow> i2c_world \<Rightarrow> int \<times> i2c_world" where
  "write_phase slave bus addr bs w =
     (let (ack, w) = write_byte slave bus (push_bit 1 addr) (i2c_start bus w)
      in if \<not> ack then (-2, i2c_stop bus w)
         else
           let (ok, w) = write_data slave bus bs w
           in (if ok then 0 else -3, i2c_stop bus w))"

fun read_data :: "i2c_slave \<Rightarrow> ev3_i2c_gpio \<Rightarrow> bool \<Rightarrow> nat \<Rightarrow> i2c_world \<Rightarrow> u8 list \<times> i2c_world" where
  "read_data slave bus fst_byte 0 w = ([], w)"
| "read_data slave bus fst_byte (Suc n) w =
     (let w = idle bus (if fst_byte then WAIT_AFTER_WRITE else WAIT_AFTER_READ) w;
          (b, w) = read_byte slave bus (n = 0) w;
          (bs, w) = read_data slave bus False n w
      in (b # bs, w))"

definition read_phase :: "i2c_slave \<Rightarrow> ev3_i2c_gpio \<Rightarrow> u8 \<Rightarrow> nat \<Rightarrow> i2c_world \<Rightarrow> int \<times> u8 list \<times> i2c_world" where
  "read_phase slave bus addr n w =
     (let (ack, w) = write_byte slave bus (push_bit 1 addr OR 1) (i2c_start bus w)
      in if \<not> ack then (-2, [], i2c_stop bus w)
         else
           let (bs, w) = read_data slave bus True n w
           in (0, bs, i2c_stop bus w))"

definition ev3_i2c_gpio_xfer ::
  "i2c_slave \<Rightarrow> u8 \<Rightarrow> u8 list option \<Rightarrow> int \<Rightarrow> u8 list option \<Rightarrow> int \<Rightarrow> ev3_i2c_gpio \<Rightarrow> i2c_world \<Rightarrow>
     int \<times> u8 list option \<times> ev3_i2c_gpio \<times> i2c_world" where
  "ev3_i2c_gpio_xfer slave addr wbuf wlen rbuf rlen bus w =
     (if ig_port bus < 0 then (-1, rbuf, bus, w)
      else if wlen < 0 \<or> rlen < 0 \<or> wlen = 0 \<and> rlen = 0 then (-1, rbuf, bus, w)
      else if wlen > 0 \<and> wbuf = None \<or> rlen > 0 \<and> rbuf = None then (-1, rbuf, bus, w)
      else
        let addr = addr AND 0x7F;
            nacked = bus\<lparr>ig_nacks := wrap32 (ig_nacks bus + 1)\<rparr>;
            (r, w) = (if wlen > 0 then
                        let (r, w) = write_phase slave bus addr (take (nat wlen) (the wbuf)) w
                        in (r, if r = 0 \<and> rlen > 0 then extra_clock bus w else w)
                      else (0, w))
        in if r \<noteq> 0 then (r, rbuf, nacked, w)
           else if rlen > 0 then
             let (r, bs, w) = read_phase slave bus addr (nat rlen) w
             in if r \<noteq> 0 then (r, rbuf, nacked, w)
                else (0, map_option (\<lambda>old. bs @ drop (length bs) old) rbuf, bus, w)
           else (0, rbuf, bus, w))"

definition ev3_i2c_gpio_write ::
  "i2c_slave \<Rightarrow> u8 \<Rightarrow> u8 list \<Rightarrow> int \<Rightarrow> ev3_i2c_gpio \<Rightarrow> i2c_world \<Rightarrow> int \<times> ev3_i2c_gpio \<times> i2c_world" where
  "ev3_i2c_gpio_write slave addr buf len bus w =
     (let (r, _, bus, w) = ev3_i2c_gpio_xfer slave addr (Some buf) len None 0 bus w
      in (if r = 0 then len else r, bus, w))"

definition ev3_i2c_gpio_read ::
  "i2c_slave \<Rightarrow> u8 \<Rightarrow> u8 list \<Rightarrow> int \<Rightarrow> ev3_i2c_gpio \<Rightarrow> i2c_world \<Rightarrow> int \<times> u8 list \<times> ev3_i2c_gpio \<times> i2c_world" where
  "ev3_i2c_gpio_read slave addr buf len bus w =
     (let (r, rb, bus, w) = ev3_i2c_gpio_xfer slave addr None 0 (Some buf) len bus w
      in (if r = 0 then len else r, the rb, bus, w))"

definition ev3_i2c_gpio_read_reg ::
  "i2c_slave \<Rightarrow> u8 \<Rightarrow> u8 \<Rightarrow> u8 list \<Rightarrow> int \<Rightarrow> ev3_i2c_gpio \<Rightarrow> i2c_world \<Rightarrow>
     int \<times> u8 list \<times> ev3_i2c_gpio \<times> i2c_world" where
  "ev3_i2c_gpio_read_reg slave addr reg buf len bus w =
     (let (r, rb, bus, w) = ev3_i2c_gpio_xfer slave addr (Some [reg]) 1 (Some buf) len bus w
      in (if r = 0 then len else r, the rb, bus, w))"

section \<open>The transaction a device sees\<close>

text \<open>
  The specification speaks about bytes on the wire: a byte sent is its eight bits, most significant
  first, and a released acknowledge slot; a byte received is what the device drives in eight released
  slots, answered with a low (more) or released (last) slot.
\<close>

definition byte_bits :: "u8 \<Rightarrow> bool list" where
  "byte_bits b = map (\<lambda>i. bit b (7 - i)) [0..<8]"

definition byte_of :: "bool list \<Rightarrow> u8" where
  "byte_of bs = horner_sum of_bool 2 (rev bs)"

definition send :: "u8 \<Rightarrow> i2c_event list \<Rightarrow> i2c_event list" where
  "send b h = h @ map Bit (byte_bits b) @ [Bit True]"

fun send_all :: "i2c_slave \<Rightarrow> u8 list \<Rightarrow> i2c_event list \<Rightarrow> bool \<times> i2c_event list" where
  "send_all slave [] h = (True, h)"
| "send_all slave (b # bs) h = (if slave (send b h) then (False, send b h) else send_all slave bs (send b h))"

definition answer :: "i2c_slave \<Rightarrow> i2c_event list \<Rightarrow> u8" where
  "answer slave h = byte_of (map (\<lambda>i. slave (h @ replicate (Suc i) (Bit True))) [0..<8])"

fun receive :: "i2c_slave \<Rightarrow> nat \<Rightarrow> i2c_event list \<Rightarrow> u8 list \<times> i2c_event list" where
  "receive slave 0 h = ([], h)"
| "receive slave (Suc n) h =
     (let (bs, h') = receive slave n (h @ replicate 8 (Bit True) @ [Bit (n = 0)])
      in (answer slave h # bs, h'))"

definition with_stop :: "i2c_event list \<Rightarrow> i2c_event list" where
  "with_stop h = h @ [Bit False, Stop]"

definition write_spec :: "i2c_slave \<Rightarrow> u8 \<Rightarrow> u8 list \<Rightarrow> i2c_event list \<Rightarrow> int \<times> i2c_event list" where
  "write_spec slave addr bs h =
     (let h = send (push_bit 1 addr) (h @ [Start])
      in if slave h then (-2, with_stop h)
         else let (ok, h) = send_all slave bs h in (if ok then 0 else -3, with_stop h))"

definition read_spec :: "i2c_slave \<Rightarrow> u8 \<Rightarrow> nat \<Rightarrow> i2c_event list \<Rightarrow> int \<times> u8 list \<times> i2c_event list" where
  "read_spec slave addr n h =
     (let h = send (push_bit 1 addr OR 1) (h @ [Start])
      in if slave h then (-2, [], with_stop h)
         else let (bs, h) = receive slave n h in (0, bs, with_stop h))"

text \<open>A whole transfer: result, bytes received and the events added; the pulse between the phases is the
  NXT quirk.\<close>

definition transfer_spec ::
  "i2c_slave \<Rightarrow> u8 \<Rightarrow> u8 list \<Rightarrow> nat \<Rightarrow> i2c_event list \<Rightarrow> int \<times> u8 list \<times> i2c_event list" where
  "transfer_spec slave addr bs n h =
     (let (r, h) = (if bs = [] then (0, h) else write_spec slave addr bs h)
      in if r \<noteq> 0 \<or> n = 0 then (r, [], h)
         else read_spec slave addr n (if bs = [] then h else h @ [Bit True]))"

end
