(* ===== verification/Ev3_I2c_Props.thy ===== *)
theory Ev3_I2c_Props
  imports Ev3_I2c_Gpio
begin

text \<open>
  The bit-banged transfer implements the byte-level transaction of \<open>Ev3_I2c_Gpio\<close>, for every device.
\<close>

section \<open>The wires\<close>

definition bus_ok :: "ev3_i2c_gpio \<Rightarrow> gpio_state \<Rightarrow> bool" where
  "bus_ok bus g \<longleftrightarrow> gpio_inv g \<and> valid_pin (ig_scl bus) \<and> valid_pin (ig_sda bus) \<and>
     ig_scl bus \<noteq> ig_sda bus \<and> (pin_is_output g (ig_sda bus) \<longrightarrow> \<not> pin_level g (ig_sda bus))"

text \<open>The simulation relation: the pins show these levels, the device has seen this history.\<close>

definition wired :: "ev3_i2c_gpio \<Rightarrow> i2c_world \<Rightarrow> bool \<Rightarrow> bool \<Rightarrow> i2c_event list \<Rightarrow> bool" where
  "wired bus w c d h \<longleftrightarrow> bus_ok bus (iw_gpio w) \<and> bus_lines bus (iw_gpio w) = (c, d) \<and> iw_hist w = h"

lemma wired_tick: "wired bus w c d h \<Longrightarrow> wired bus (tick bus w) c d h"
  by (simp add: wired_def tick_def)

lemma wired_idle: "wired bus w c d h \<Longrightarrow> wired bus (idle bus n w) c d h"
  by (induction n arbitrary: w) (simp_all add: wired_tick)

lemma wired_scl: "wired bus w c d h \<Longrightarrow> wired bus (scl bus v w) v d (h @ edge (c, d) (v, d))"
  by (auto simp: wired_def scl_def on_pins_def bus_ok_def bus_lines_def Let_def pin_laws)

lemma wired_sda: "wired bus w c d h \<Longrightarrow> wired bus (sda bus v w) c v (h @ edge (c, d) (c, v))"
  by (auto simp: wired_def sda_def on_pins_def bus_ok_def bus_lines_def Let_def pin_laws)

lemma wired_sense:
  assumes "wired bus w c d h"
  shows "wired bus (snd (sda_in slave bus w)) c d h" "fst (sda_in slave bus w) = (d \<and> slave h)"
proof -
  let ?p = "ig_sda bus"
  define f where "f = (\<lambda>r::davinci_gpio_regs. r\<lparr>g_in := if d \<and> slave h then g_in r OR GPIO_MASK ?p else g_in r AND NOT (GPIO_MASK ?p)\<rparr>)"
  have ok: "gpio_inv (iw_gpio w)" "valid_pin ?p" using assms by (simp_all add: wired_def bus_ok_def)
  have e: "snd (sda_in slave bus w) = w\<lparr>iw_gpio := gpio_upd ?p f (iw_gpio w)\<rparr>"
    "fst (sda_in slave bus w) = ev3_gpio_read ?p (gpio_upd ?p f (iw_gpio w))"
    using assms by (simp_all add: sda_in_def sense_def wired_def Let_def f_def)
  have "g_out (f r) = g_out r" "g_dir (f r) = g_dir r" for r by (simp_all add: f_def)
  then have "pin_level (gpio_upd ?p f (iw_gpio w)) q = pin_level (iw_gpio w) q"
    "pin_is_output (gpio_upd ?p f (iw_gpio w)) q = pin_is_output (iw_gpio w) q" for q
    using ok gpio_group_cong [of ?p q "iw_gpio w"]
    by (auto simp: pin_level_def pin_is_output_def gpio_group_upd)
  with assms show "wired bus (snd (sda_in slave bus w)) c d h"
    unfolding e by (auto simp: wired_def bus_ok_def bus_lines_def)
  have n: "nat ?p mod 32 < 32" by simp
  have "GPIO_MASK ?p AND g_in (f (gpio_group ?p (iw_gpio w))) \<noteq> 0 \<longleftrightarrow> d \<and> slave h" (is "?l \<longleftrightarrow> _")
  proof
    assume "d \<and> slave h"
    then have "bit (GPIO_MASK ?p AND g_in (f (gpio_group ?p (iw_gpio w)))) (nat ?p mod 32)"
      using n by (simp add: f_def bit_simps bit_GPIO_MASK)
    then show ?l by auto
  next
    assume ?l
    then obtain k where "bit (GPIO_MASK ?p AND g_in (f (gpio_group ?p (iw_gpio w)))) k"
      by (auto simp: bit_eq_iff)
    moreover from this have "k < 32" by (auto simp: bit_simps dest: bit_imp_le_length)
    ultimately show "d \<and> slave h" by (auto simp: f_def bit_simps bit_GPIO_MASK split: if_splits)
  qed
  with ok show "fst (sda_in slave bus w) = (d \<and> slave h)"
    unfolding e by (simp add: ev3_gpio_read_def valid_pin_def gpio_group_upd)
qed

lemmas wired_wire = wired_tick wired_scl wired_sda wired_idle

section \<open>Conditions and bytes\<close>

lemma wired_start: "wired bus w True True h \<Longrightarrow> wired bus (i2c_start bus w) False False (h @ [Start])"
  unfolding i2c_start_def Let_def
  by (drule wired_sda [where v = True], drule wired_scl [where v = True], drule wired_tick,
      drule wired_sda [where v = False], drule wired_tick, drule wired_scl [where v = False], drule wired_tick) simp

lemma wired_stop: "wired bus w False d h \<Longrightarrow> wired bus (i2c_stop bus w) True True (with_stop h)"
  unfolding i2c_stop_def Let_def with_stop_def
  by (drule wired_sda [where v = False], drule wired_tick, drule wired_scl [where v = True], drule wired_tick,
      drule wired_sda [where v = True], drule wired_tick) simp

lemma wired_extra: "wired bus w True True h \<Longrightarrow> wired bus (extra_clock bus w) True True (h @ [Bit True])"
  unfolding extra_clock_def Let_def
  by (drule wired_scl [where v = False], drule wired_tick, drule wired_scl [where v = True], drule wired_tick) simp

text \<open>One clock pulse around a data level.\<close>

lemma wired_up: "wired bus w False d h \<Longrightarrow> wired bus (tick bus (scl bus True (tick bus w))) True d (h @ [Bit d])"
  by (drule wired_tick, drule wired_scl [where v = True], drule wired_tick) simp

lemma wired_down: "wired bus w True d h \<Longrightarrow> wired bus (scl bus False w) False d h"
  by (drule wired_scl [where v = False]) simp

lemma wired_put: "wired bus w False d h \<Longrightarrow> wired bus (sda bus v w) False v h"
  by (drule wired_sda [where v = v]) simp

lemma msb_test: "(b::u8) AND 0x80 \<noteq> 0 \<longleftrightarrow> bit b 7"
  using and_exp_eq_0_iff_not_bit [of b 7] by simp

lemma wired_write_bits:
  "wired bus w False d h \<Longrightarrow> n \<le> 8 \<Longrightarrow>
     \<exists>d'. wired bus (write_bits bus n b w) False d' (h @ map Bit (map (\<lambda>i. bit b (7 - i)) [0..<n]))"
proof (induction n arbitrary: b w d h)
  case 0
  then show ?case by auto
next
  case (Suc n)
  let ?v = "b AND 0x80 \<noteq> 0"
  have "wired bus (scl bus False (tick bus (scl bus True (tick bus (sda bus ?v w))))) False ?v (h @ [Bit ?v])"
    by (intro wired_down wired_up wired_put) (rule Suc.prems(1))
  from Suc.IH [OF this, of "push_bit 1 b"] Suc.prems(2)
  obtain d' where w: "wired bus (write_bits bus (Suc n) b w) False d'
      ((h @ [Bit ?v]) @ map Bit (map (\<lambda>i. bit (push_bit 1 b) (7 - i)) [0..<n]))"
    by (auto simp: Let_def)
  have "bit (push_bit 1 b) (7 - i) = bit b (7 - Suc i)" if "i < n" for i
    using that Suc.prems(2) unfolding bit_push_bit_iff by auto
  then have "map (\<lambda>i. bit (push_bit 1 b) (7 - i)) [0..<n] = map (\<lambda>i. bit b (7 - Suc i)) [0..<n]"
    by (intro map_cong) auto
  then have "map (\<lambda>i. bit b (7 - i)) [0..<Suc n] = ?v # map (\<lambda>i. bit (push_bit 1 b) (7 - i)) [0..<n]"
    unfolding map_upt_Suc by (simp add: msb_test)
  with w show ?case by auto
qed

lemma wired_write_byte:
  assumes "wired bus w False d h"
  shows "wired bus (snd (write_byte slave bus b w)) False True (send b h) \<and>
    fst (write_byte slave bus b w) = (\<not> slave (send b h))"
proof -
  obtain d' where "wired bus (write_bits bus 8 b w) False d' (h @ map Bit (byte_bits b))"
    using wired_write_bits [OF assms, of 8 b] by (auto simp: byte_bits_def)
  then have u: "wired bus (tick bus (scl bus True (tick bus (sda bus True (write_bits bus 8 b w))))) True True (send b h)"
    unfolding send_def append_assoc [symmetric] by (intro wired_up wired_put)
  obtain v w' where s: "sda_in slave bus (tick bus (scl bus True (tick bus (sda bus True (write_bits bus 8 b w))))) = (v, w')"
    by fastforce
  with wired_sense [OF u, of slave] have "wired bus w' True True (send b h)" "v = slave (send b h)" by simp_all
  then show ?thesis using wired_down by (simp add: write_byte_def Let_def s)
qed

lemma wired_read_bits:
  "wired bus w False True h \<Longrightarrow>
     wired bus (snd (read_bits slave bus n b w)) False True (h @ replicate n (Bit True)) \<and>
     fst (read_bits slave bus n b w) =
       foldl (\<lambda>b v. push_bit 1 b OR (if v then 1 else 0)) b (map (\<lambda>i. slave (h @ replicate (Suc i) (Bit True))) [0..<n])"
proof (induction n arbitrary: b w h)
  case 0
  then show ?case by simp
next
  case (Suc n)
  let ?u = "tick bus (scl bus True (tick bus w))"
  obtain v w' where s: "sda_in slave bus ?u = (v, w')" by fastforce
  have "wired bus ?u True True (h @ [Bit True])" using wired_up [OF Suc.prems] .
  with wired_sense [OF this, of slave] s have w': "wired bus w' True True (h @ [Bit True])" "v = slave (h @ [Bit True])"
    by simp_all
  have e: "map (\<lambda>i. slave (h @ replicate (Suc i) (Bit True))) [0..<Suc n] =
      slave (h @ [Bit True]) # map (\<lambda>i. slave ((h @ [Bit True]) @ replicate (Suc i) (Bit True))) [0..<n]"
    unfolding map_upt_Suc by simp
  show ?case
    using Suc.IH [OF wired_down [OF w'(1)], of "push_bit 1 b OR (if v then 1 else 0)"] w'(2)
    unfolding e by (simp add: Let_def s)
qed

lemma shift_in: "push_bit 1 (b::u8) OR (if v then 1 else 0) = of_bool v + 2 * b"
  by (cases v) (simp_all add: push_bit_eq_mult or_one_eq)

lemma foldl_horner:
  "foldl (\<lambda>b v. push_bit 1 b OR (if v then 1 else 0)) (0::u8) vs = byte_of vs"
proof (induction vs rule: rev_induct)
  case Nil
  then show ?case by (simp add: byte_of_def)
next
  case (snoc v vs)
  then show ?case unfolding byte_of_def shift_in by simp
qed

lemma wired_read_byte:
  assumes "wired bus w False d h"
  shows "wired bus (snd (read_byte slave bus l w)) False l (h @ replicate 8 (Bit True) @ [Bit l]) \<and>
    fst (read_byte slave bus l w) = answer slave h"
proof -
  obtain b w' where r: "read_bits slave bus 8 0 (sda bus True w) = (b, w')" by fastforce
  from wired_read_bits [OF wired_put [OF assms], of slave 8 0] r
  have "wired bus w' False True (h @ replicate 8 (Bit True))" "b = answer slave h"
    by (simp_all only: foldl_horner answer_def fst_conv snd_conv)
  then show ?thesis
    using wired_down [OF wired_up [OF wired_put [of bus w' True "h @ replicate 8 (Bit True)" l]]]
    by (simp add: read_byte_def Let_def r)
qed

section \<open>Phases\<close>

lemma wired_write_data:
  "wired bus w False d h \<Longrightarrow>
     \<exists>d'. wired bus (snd (write_data slave bus bs w)) False d' (snd (send_all slave bs h)) \<and>
       fst (write_data slave bus bs w) = fst (send_all slave bs h)"
proof (induction bs arbitrary: w d h)
  case Nil
  then show ?case by auto
next
  case (Cons b bs)
  obtain a w' where b: "write_byte slave bus b (idle bus WAIT_AFTER_WRITE w) = (a, w')" by fastforce
  from wired_write_byte [OF wired_idle [OF Cons.prems], of slave b WAIT_AFTER_WRITE] b
  have w': "wired bus w' False True (send b h)" "a = (\<not> slave (send b h))" by simp_all
  show ?case using Cons.IH [OF w'(1)] w' by (auto simp: b)
qed

lemma wired_write_phase:
  assumes "wired bus w True True h"
  shows "wired bus (snd (write_phase slave bus addr bs w)) True True (snd (write_spec slave addr bs h)) \<and>
    fst (write_phase slave bus addr bs w) = fst (write_spec slave addr bs h)"
proof -
  let ?h = "send (push_bit 1 addr) (h @ [Start])"
  obtain a w1 where b: "write_byte slave bus (push_bit 1 addr) (i2c_start bus w) = (a, w1)" by fastforce
  from wired_write_byte [OF wired_start [OF assms], of slave "push_bit 1 addr"] b
  have w1: "wired bus w1 False True ?h" "a = (\<not> slave ?h)" by simp_all
  obtain k w2 where d: "write_data slave bus bs w1 = (k, w2)" by fastforce
  obtain k' h2 where s: "send_all slave bs ?h = (k', h2)" by fastforce
  from wired_write_data [OF w1(1), of slave bs] d s obtain d' where
    w2: "wired bus w2 False d' h2" "k = k'" by auto
  show ?thesis
    using wired_stop [OF w1(1)] wired_stop [OF w2(1)] w1(2) w2(2)
    unfolding write_phase_def write_spec_def Let_def b d s by (simp add: d s)
qed

lemma wired_read_data:
  "wired bus w False d h \<Longrightarrow>
     \<exists>d'. wired bus (snd (read_data slave bus f n w)) False d' (snd (receive slave n h)) \<and>
       fst (read_data slave bus f n w) = fst (receive slave n h)"
proof (induction n arbitrary: f w d h)
  case 0
  then show ?case by auto
next
  case (Suc n)
  let ?k = "if f then WAIT_AFTER_WRITE else WAIT_AFTER_READ"
  let ?h = "h @ replicate 8 (Bit True) @ [Bit (n = 0)]"
  obtain b w1 where b: "read_byte slave bus (n = 0) (idle bus ?k w) = (b, w1)" by fastforce
  from wired_read_byte [OF wired_idle [OF Suc.prems], of slave "n = 0" ?k] b
  have w1: "wired bus w1 False (n = 0) ?h" "b = answer slave h" by simp_all
  obtain bs w2 where d: "read_data slave bus False n w1 = (bs, w2)" by fastforce
  obtain cs h2 where s: "receive slave n ?h = (cs, h2)" by fastforce
  from Suc.IH [OF w1(1), of False] d s obtain d' where "wired bus w2 False d' h2" "bs = cs" by auto
  then show ?case using w1(2) by (auto simp: b d s)
qed

lemma wired_read_phase:
  assumes "wired bus w True True h"
  shows "wired bus (snd (snd (read_phase slave bus addr n w))) True True (snd (snd (read_spec slave addr n h))) \<and>
    fst (read_phase slave bus addr n w) = fst (read_spec slave addr n h) \<and>
    fst (snd (read_phase slave bus addr n w)) = fst (snd (read_spec slave addr n h))"
proof -
  let ?h = "send (push_bit 1 addr OR 1) (h @ [Start])"
  obtain a w1 where b: "write_byte slave bus (push_bit 1 addr OR 1) (i2c_start bus w) = (a, w1)" by fastforce
  from wired_write_byte [OF wired_start [OF assms], of slave "push_bit 1 addr OR 1"] b
  have w1: "wired bus w1 False True ?h" "a = (\<not> slave ?h)" by simp_all
  obtain bs w2 where d: "read_data slave bus True n w1 = (bs, w2)" by fastforce
  obtain cs h2 where s: "receive slave n ?h = (cs, h2)" by fastforce
  from wired_read_data [OF w1(1), of slave True n] d s obtain d' where
    w2: "wired bus w2 False d' h2" "bs = cs" by auto
  show ?thesis
    using wired_stop [OF w1(1)] wired_stop [OF w2(1)] w1(2) w2(2)
    unfolding read_phase_def read_spec_def Let_def b d s by (simp add: d s)
qed

lemma length_receive: "length (fst (receive slave n h)) = n"
  by (induction n arbitrary: h) (auto simp: Let_def split: prod.split, metis fst_conv)

lemma read_spec_bytes: "read_spec slave addr n h = (0, bs, h') \<Longrightarrow> length bs = n"
  using length_receive [of slave n] by (auto simp: read_spec_def Let_def split: if_splits prod.splits) (metis fst_conv)

section \<open>Opening the bus\<close>

text \<open>What the shutdown of the soft UART may do: keep the registers and pin 1 of the port as they are.\<close>

definition spares_pin1 :: "(int \<Rightarrow> gpio_state \<Rightarrow> gpio_state) \<Rightarrow> bool" where
  "spares_pin1 pru_disable \<longleftrightarrow> (\<forall>port g. gpio_inv g \<longrightarrow> gpio_inv (pru_disable port g) \<and>
     pin_level (pru_disable port g) (ip_pin1 (inp port)) = pin_level g (ip_pin1 (inp port)) \<and>
     pin_is_output (pru_disable port g) (ip_pin1 (inp port)) = pin_is_output g (ip_pin1 (inp port)))"

lemma i2c_enable_pins:
  assumes "spares_pin1 pd" "gpio_inv g" "in_ok port"
  shows "\<exists>g'. ev3_input_port_i2c_enable pd port g = (0, g') \<and> gpio_inv g' \<and>
    pin_level g' (ip_pin1 (inp port)) = pin_level g (ip_pin1 (inp port)) \<and>
    pin_is_output g' (ip_pin1 (inp port)) = pin_is_output g (ip_pin1 (inp port))"
proof -
  let ?p = "inp port"
  define h where "h = (if EV3_UART_IS_PRU (ip_uart_base ?p) then pd port g else g)"
  have h: "gpio_inv h" "pin_level h (ip_pin1 ?p) = pin_level g (ip_pin1 ?p)"
      "pin_is_output h (ip_pin1 ?p) = pin_is_output g (ip_pin1 ?p)"
    using assms(1,2) by (auto simp: h_def spares_pin1_def)
  note v = in_pins_all [OF assms(3)]
  define k where "k = ev3_gpio_config (ip_pin5 ?p) GPIO_INPUT (drive (ip_buf_en ?p) True h)"
  have e: "ev3_input_port_i2c_enable pd port g = (0, ev3_gpio_config (ip_pin6 ?p) GPIO_INPUT k)"
    using assms(3) by (simp add: ev3_input_port_i2c_enable_def drive_def h_def k_def Let_def)
  note d = drive_pins [OF h(1) v(5) v(1), of True]
  note i = input_pins [OF d(1) v(3) v(1), folded k_def]
  have "ip_pin1 ?p \<noteq> ip_pin5 ?p" "ip_pin1 ?p \<noteq> ip_pin6 ?p" "ip_pin1 ?p \<noteq> ip_buf_en ?p" using v(6) by auto
  then show ?thesis using e d i h input_pins [OF i(1) v(4) v(1)] by simp
qed

lemma open_result:
  assumes "spares_pin1 pd" "gpio_inv (iw_gpio w)" "in_ok port"
  shows "\<exists>bus' w'. ev3_i2c_gpio_open pd port hz bus w = (0, bus', w') \<and> ig_port bus' = port \<and> ig_nacks bus' = 0 \<and>
    wired bus' w' True True (iw_hist w) \<and>
    pin_level (iw_gpio w') (ip_pin1 (inp port)) \<and> pin_is_output (iw_gpio w') (ip_pin1 (inp port))"
proof -
  let ?p = "inp port"
  note v = in_pins_all [OF assms(3)]
  have pw: "ev3_input_port_power port True (iw_gpio w) = drive (ip_pin1 ?p) True (iw_gpio w)"
    using assms(3) by (simp add: ev3_input_port_power_def drive_def)
  define g1 where "g1 = drive (ip_pin1 ?p) True (iw_gpio w)"
  have g1: "gpio_inv g1" "pin_level g1 (ip_pin1 ?p)" "pin_is_output g1 (ip_pin1 ?p)"
    using drive_pins [OF assms(2) v(1) v(1), of True] by (simp_all add: g1_def)
  obtain g2 where en: "ev3_input_port_i2c_enable pd port g1 = (0, g2)" and g2: "gpio_inv g2"
      "pin_level g2 (ip_pin1 ?p)" "pin_is_output g2 (ip_pin1 ?p)"
    using i2c_enable_pins [OF assms(1) g1(1) assms(3)] g1(2,3) by auto
  define g3 where "g3 = ev3_gpio_config (ip_pin6 ?p) GPIO_INPUT
    (ev3_gpio_config (ip_pin5 ?p) GPIO_OUTPUT (ev3_gpio_write (ip_pin5 ?p) True g2))"
  have pins: "ev3_input_port_gpio port EV3_PIN5 = ip_pin5 ?p" "ev3_input_port_gpio port EV3_PIN6 = ip_pin6 ?p"
    using assms(3) by (simp_all add: ev3_input_port_gpio_def port_consts)
  have pos: "\<not> ip_pin5 ?p < 0" "\<not> ip_pin6 ?p < 0" using v(3,4) by (simp_all add: valid_pin_def)
  have g3: "gpio_inv g3" "pin_level g3 (ip_pin1 ?p)" "pin_is_output g3 (ip_pin1 ?p)" "pin_level g3 (ip_pin5 ?p)"
      "\<not> pin_is_output g3 (ip_pin6 ?p)"
    using g2 v by (auto simp: g3_def input_pins config_level config_output pin_laws GPIO_INPUT_def GPIO_OUTPUT_def)
  have range: "\<not> port < 0" "\<not> EV3_IN_PORT_COUNT \<le> port" using assms(3) by (auto simp: in_ok_def)
  have "\<exists>bus'. ev3_i2c_gpio_open pd port hz bus w = (0, bus', w\<lparr>iw_gpio := g3\<rparr>) \<and> ig_port bus' = port \<and>
      ig_nacks bus' = 0 \<and> ig_scl bus' = ip_pin5 ?p \<and> ig_sda bus' = ip_pin6 ?p"
    unfolding ev3_i2c_gpio_open_def Let_def pw g1_def [symmetric] en pins using pos range by (auto simp: g3_def)
  then obtain bus' where b: "ev3_i2c_gpio_open pd port hz bus w = (0, bus', w\<lparr>iw_gpio := g3\<rparr>)" "ig_port bus' = port"
      "ig_nacks bus' = 0" "ig_scl bus' = ip_pin5 ?p" "ig_sda bus' = ip_pin6 ?p" by blast
  moreover have "wired bus' (w\<lparr>iw_gpio := g3\<rparr>) True True (iw_hist w)"
    using b(4,5) g3 v by (auto simp: wired_def bus_ok_def bus_lines_def)
  ultimately show ?thesis using g3(2,3) by (intro exI conjI) auto
qed

section \<open>A transfer\<close>

text \<open>The general form: the buffers may be longer than the lengths passed.\<close>

lemma xfer_on_wire:
  assumes "wired bus w True True h" "0 \<le> ig_port bus" "0 \<le> wlen" "0 \<le> rlen" "wlen \<noteq> 0 \<or> rlen \<noteq> 0"
    and wb: "wlen > 0 \<Longrightarrow> wbuf = Some ws \<and> ws \<noteq> []" and rb: "rlen > 0 \<Longrightarrow> rbuf = Some old"
    and spec: "transfer_spec slave (addr AND 0x7F) (if wlen > 0 then take (nat wlen) ws else []) (nat rlen) h = (r, bs, h')"
  shows "\<exists>w'. ev3_i2c_gpio_xfer slave addr wbuf wlen rbuf rlen bus w =
      (r, if r = 0 \<and> rlen > 0 then Some (bs @ drop (nat rlen) old) else rbuf,
       if r = 0 then bus else bus\<lparr>ig_nacks := wrap32 (ig_nacks bus + 1)\<rparr>, w') \<and>
    wired bus w' True True h'"
proof -
  let ?a = "addr AND 0x7F" and ?n = "nat rlen" and ?ws = "take (nat wlen) ws"
  obtain r1 w1 where p: "write_phase slave bus ?a ?ws w = (r1, w1)" by fastforce
  obtain r1' h1 where ps: "write_spec slave ?a ?ws h = (r1', h1)" by fastforce
  have w1: "wired bus w1 True True h1" "r1 = r1'"
    using wired_write_phase [OF assms(1), of slave ?a ?ws] p ps by simp_all
  have rd: "\<exists>w'. read_phase slave bus ?a ?n v = (r, bs, w') \<and> wired bus w' True True h' \<and> (r = 0 \<longrightarrow> length bs = ?n)"
    if "wired bus v True True k" "read_spec slave ?a ?n k = (r, bs, h')" for v k
    using wired_read_phase [OF that(1), of slave ?a ?n] that(2) read_spec_bytes [of slave ?a ?n k bs h']
    by (cases "read_phase slave bus ?a ?n v") auto
  consider "wlen = 0" "rlen > 0" | "wlen > 0" "r1 \<noteq> 0 \<or> rlen = 0" | "wlen > 0" "r1 = 0" "rlen > 0"
    using assms(3-5) by linarith
  then show ?thesis
  proof cases
    case 1
    then show ?thesis
      using assms(1-2) spec rb rd [OF assms(1)] by (auto simp: ev3_i2c_gpio_xfer_def transfer_spec_def Let_def)
  next
    case 2
    then have "wbuf = Some ws" "?ws \<noteq> []" using wb by auto
    with 2 show ?thesis
      using assms(1-4) spec rb w1 p ps by (auto simp: ev3_i2c_gpio_xfer_def transfer_spec_def Let_def)
  next
    case 3
    then have "wbuf = Some ws" "?ws \<noteq> []" using wb by auto
    with 3 show ?thesis
      using assms(1-4) spec rb p ps w1 rd [OF wired_extra [OF w1(1)]]
      by (auto simp: ev3_i2c_gpio_xfer_def transfer_spec_def Let_def)
  qed
qed

lemma spec_no_read: "transfer_spec slave addr ws 0 h = (r, bs, h') \<Longrightarrow> bs = []"
  by (auto simp: transfer_spec_def Let_def split: prod.splits if_splits)

text \<open>
  C5. The pin-level transfer implements the byte-level I2C transaction for every device: on an idle open bus
  the device observes exactly the start and stop conditions, bits and acknowledge slots of
  \<open>transfer_spec\<close> (with STOP, one extra clock and START between write and read), the result is 0, -2 or
  -3 by what the device acknowledged, the bytes are those it drove, the NACK counter rises exactly on
  failure, and on every path the bus is left idle with the data line floating.
\<close>

theorem i2c_transfer_on_wire:
  assumes "wired bus w True True h" "0 \<le> ig_port bus" "ws \<noteq> [] \<or> old \<noteq> []"
    and "transfer_spec slave (addr AND 0x7F) ws (length old) h = (r, bs, h')"
  shows "\<exists>w'. ev3_i2c_gpio_xfer slave addr (Some ws) (int (length ws)) (Some old) (int (length old)) bus w =
      (r, Some (if r = 0 then bs else old),
       if r = 0 then bus else bus\<lparr>ig_nacks := wrap32 (ig_nacks bus + 1)\<rparr>, w') \<and>
    wired bus w' True True h'"
proof -
  have s: "transfer_spec slave (addr AND 0x7F) (if int (length ws) > 0 then take (nat (int (length ws))) ws else [])
      (nat (int (length old))) h = (r, bs, h')"
    using assms(4) by (cases ws) simp_all
  have "\<exists>w'. ev3_i2c_gpio_xfer slave addr (Some ws) (int (length ws)) (Some old) (int (length old)) bus w =
      (r, if r = 0 \<and> int (length old) > 0 then Some (bs @ drop (nat (int (length old))) old) else Some old,
       if r = 0 then bus else bus\<lparr>ig_nacks := wrap32 (ig_nacks bus + 1)\<rparr>, w') \<and> wired bus w' True True h'"
    by (rule xfer_on_wire [OF assms(1,2) _ _ _ _ _ s]) (use assms(3) in auto)
  moreover have "old = [] \<Longrightarrow> bs = []" using spec_no_read assms(4) by auto
  ultimately show ?thesis by auto
qed

text \<open>A device that acknowledges everything and drives the byte 42 in the first byte of a register read.\<close>

definition demo_device :: i2c_slave where
  "demo_device h \<longleftrightarrow> length h \<in> {35, 37, 39}"

definition demo_bus :: ev3_i2c_gpio where
  "demo_bus = \<lparr>ig_port = 0, ig_scl = 2, ig_sda = 15, ig_half_us = 52, ig_nacks = 0\<rparr>"

definition demo_wires :: i2c_world where
  "demo_wires = \<lparr>iw_gpio = \<lparr>io_groups = replicate 5 \<lparr>g_dir = 0x8000, g_out = 4, g_in = 0, g_rising = 0,
     g_falling = 0, g_intstat = 0\<rparr>, io_binten = 0, io_syscfg = [], io_psc = []\<rparr>, iw_hist = [], iw_us = 0\<rparr>"

lemma demo_wired: "wired demo_bus demo_wires True True []"
  unfolding wired_def bus_ok_def gpio_inv_def bus_lines_def valid_pin_def MAX_GPIO_def pin_level_def
    pin_is_output_def gpio_group_def demo_bus_def demo_wires_def
  by code_simp

lemma demo_spec:
  "fst (transfer_spec demo_device (1 AND 0x7F) [0x42] (length [0::u8]) []) = 0 \<and>
   fst (snd (transfer_spec demo_device (1 AND 0x7F) [0x42] (length [0::u8]) [])) = [42]"
  by code_simp

theorem i2c_transfer_on_wire_witness:
  "fst (ev3_i2c_gpio_xfer demo_device 1 (Some [0x42]) 1 (Some [0]) 1 demo_bus demo_wires) = 0 \<and>
   fst (snd (ev3_i2c_gpio_xfer demo_device 1 (Some [0x42]) 1 (Some [0]) 1 demo_bus demo_wires)) = Some [42]"
proof -
  obtain r bs h' where s: "transfer_spec demo_device (1 AND 0x7F) [0x42] (length [0::u8]) [] = (r, bs, h')"
    by (metis surj_pair)
  with demo_spec have "r = 0" "bs = [42]" by simp_all
  then show ?thesis
    using i2c_transfer_on_wire [OF demo_wired, of "[0x42]" "[0]" demo_device 1 r bs h'] s by (auto simp: demo_bus_def)
qed

end
