(* ===== verification/Ev3_Nxt_Us.thy ===== *)
theory Ev3_Nxt_Us
  imports Ev3_I2c_Props Ev3_Sensor_Dev
begin

text \<open>
  The NXT ultrasonic daemon (\<^verbatim>\<open>src/lego.ev3/system/drivers/nxt-ultrasonicd/nxt-ultrasonicd.c\<close>): binding a
  port, talking to the sensor over the bit-banged I2C bus, hot-plug, the client commands.

  The daemon's variables are the record \<open>nxt_us\<close>; the bus wires and GPIO are the \<open>i2c_world\<close>. What the
  step reads from outside is the record \<open>nxt_env\<close>: clock readings, the device on the bus, the settled
  GPIO inputs and the ADC sample when a port is classified, the peers' replies and the result of opening
  the ADC device.
\<close>

section \<open>State\<close>

definition NXTUS_ADDR :: u8 where "NXTUS_ADDR = 1"
definition NXTUS_REG_VENDOR :: u8 where "NXTUS_REG_VENDOR = 0x08"
definition NXTUS_REG_CMD :: u8 where "NXTUS_REG_CMD = 0x41"
definition NXTUS_REG_DIST :: u8 where "NXTUS_REG_DIST = 0x42"
definition NXTUS_NO_ECHO :: int where "NXTUS_NO_ECHO = 255"
definition NXTUS_MAX_FAILS :: int where "NXTUS_MAX_FAILS = 3"
definition NXTUS_SCAN_MS :: int where "NXTUS_SCAN_MS = 300"
definition NXTUS_MISS_MAX :: int where "NXTUS_MISS_MAX = 4"
definition NXTUS_BOOT_MS :: int where "NXTUS_BOOT_MS = 2000"
definition NXTUS_MODE_OFF :: int where "NXTUS_MODE_OFF = 0"
definition NXTUS_MODE_SINGLE :: int where "NXTUS_MODE_SINGLE = 1"
definition NXTUS_MODE_CONTINUOUS :: int where "NXTUS_MODE_CONTINUOUS = 2"

record nxt_us =
  nu_bus :: ev3_i2c_gpio
  nu_port :: int
  nu_pinned :: int
  nu_adc_fd :: int
  nu_self_node :: string
  nu_bus_open :: bool
  nu_miss :: int
  nu_scan_ms :: u32
  nu_bind_ms :: u32
  nu_mode :: int
  nu_pending_mode :: int
  nu_data :: ev3_sensor_data
  nu_fails :: int
  nu_wakeup :: bool

record nxt_env =
  ne_now :: u32
  ne_tic :: int
  ne_slave :: i2c_slave
  ne_pru_disable :: "int \<Rightarrow> gpio_state \<Rightarrow> gpio_state"
  ne_ins :: "int \<Rightarrow> u32 list"
  ne_adc :: "int \<Rightarrow> u16 list option"
  ne_peer :: "string \<Rightarrow> (int \<times> int) option"
  ne_adc_fd :: int

type_synonym nxt_state = "nxt_us \<times> i2c_world"

section \<open>Registers and samples\<close>

definition us_write_reg :: "nxt_env \<Rightarrow> u8 \<Rightarrow> u8 \<Rightarrow> nxt_state \<Rightarrow> int \<times> nxt_state" where
  "us_write_reg e reg val = (\<lambda>(d, w).
     let (r, bus, w) = ev3_i2c_gpio_write (ne_slave e) NXTUS_ADDR [reg, val] 2 (nu_bus d) w
     in (r, d\<lparr>nu_bus := bus\<rparr>, w))"

definition us_read_reg :: "nxt_env \<Rightarrow> u8 \<Rightarrow> u8 list \<Rightarrow> int \<Rightarrow> nxt_state \<Rightarrow> int \<times> u8 list \<times> nxt_state" where
  "us_read_reg e reg buf len = (\<lambda>(d, w).
     let (r, buf, bus, w) = ev3_i2c_gpio_read_reg (ne_slave e) NXTUS_ADDR reg buf len (nu_bus d) w
     in (r, buf, d\<lparr>nu_bus := bus\<rparr>, w))"

definition valid_mode :: "int \<Rightarrow> bool" where
  "valid_mode m \<longleftrightarrow> m = NXTUS_MODE_OFF \<or> m = NXTUS_MODE_SINGLE \<or> m = NXTUS_MODE_CONTINUOUS"

definition set_value :: "nxt_env \<Rightarrow> bool \<Rightarrow> int \<Rightarrow> nxt_us \<Rightarrow> nxt_us" where
  "set_value e connected cm d =
     (let s = nu_data d;
          d = (if sd_connected s \<noteq> connected \<or> sd_value s ! 0 \<noteq> cm \<or> sd_mode s \<noteq> nu_mode d
               then d\<lparr>nu_wakeup := True\<rparr> else d)
      in d\<lparr>nu_data := s\<lparr>sd_connected := connected, sd_mode := nu_mode d, sd_nvalues := 1,
             sd_value := (sd_value s)[0 := cm], sd_timestamp_ms := ne_tic e\<rparr>\<rparr>)"

definition detect_sensor :: "nxt_env \<Rightarrow> nxt_state \<Rightarrow> bool \<times> nxt_state" where
  "detect_sensor e s = (let (r, _, s) = us_read_reg e NXTUS_REG_VENDOR [0, 0, 0, 0] 4 s in (r = 0, s))"

section \<open>Binding\<close>

definition nxt_bind :: "nxt_env \<Rightarrow> int \<Rightarrow> nxt_state \<Rightarrow> nxt_state" where
  "nxt_bind e port = (\<lambda>(d, w).
     let (rc, bus, w) = ev3_i2c_gpio_open (ne_pru_disable e) port EV3_I2C_GPIO_HZ_NXT (nu_bus d) w;
         d = d\<lparr>nu_bus := bus\<rparr>
     in if rc \<noteq> 0 then (d, w)
        else
          let d = d\<lparr>nu_bus_open := True, nu_port := port, nu_data := (nu_data d)\<lparr>sd_port := port\<rparr>,
                    nu_bind_ms := word_of_int (ne_tic e), nu_fails := 0, nu_miss := 0, nu_wakeup := True\<rparr>
          in snd (us_write_reg e NXTUS_REG_CMD (word_of_int (nu_mode d)) (d, w)))"

definition nxt_unbind :: "nxt_env \<Rightarrow> nxt_state \<Rightarrow> nxt_state" where
  "nxt_unbind e = (\<lambda>(d, w).
     let (d, w) = (if nu_bus_open d
                   then (let (bus, w) = ev3_i2c_gpio_close (nu_bus d) w in (d\<lparr>nu_bus := bus, nu_bus_open := False\<rparr>, w))
                   else (d, w));
         d = d\<lparr>nu_port := EV3_SENSOR_PORT_NONE, nu_data := (nu_data d)\<lparr>sd_port := EV3_SENSOR_PORT_NONE\<rparr>,
               nu_fails := 0, nu_miss := 0\<rparr>
     in (set_value e False NXTUS_NO_ECHO d, w))"

text \<open>The loop of \<^verbatim>\<open>scan_and_bind\<close> over the ports still to look at.\<close>

fun scan_ports :: "nxt_env \<Rightarrow> int list \<Rightarrow> nxt_state \<Rightarrow> nxt_state" where
  "scan_ports e [] s = s"
| "scan_ports e (port # ports) (d, w) =
     (let d = d\<lparr>nu_data := (nu_data d)\<lparr>sd_probing := port + 1\<rparr>\<rparr>
      in if ev3_sensor_port_busy port (Some (nu_self_node d)) (ne_peer e)
         then scan_ports e ports (d\<lparr>nu_data := (nu_data d)\<lparr>sd_probing := 0\<rparr>\<rparr>, w)
         else
           let ((ct, _), g) = ev3_sensor_conn_type (nu_adc_fd d) port (ne_ins e port) (ne_adc e port) (iw_gpio w);
               w = w\<lparr>iw_gpio := g\<rparr>;
               d = d\<lparr>nu_data := (nu_data d)\<lparr>sd_probing := 0\<rparr>\<rparr>
           in if ct = EV3_CONN_NXT_I2C then nxt_bind e port (d, w) else scan_ports e ports (d, w))"

definition nxt_scan_and_bind :: "nxt_env \<Rightarrow> u32 \<Rightarrow> nxt_state \<Rightarrow> nxt_state" where
  "nxt_scan_and_bind e now = (\<lambda>(d, w).
     let d = d\<lparr>nu_scan_ms := now\<rparr>;
         d = (if nu_adc_fd d < 0 then d\<lparr>nu_adc_fd := ne_adc_fd e\<rparr> else d);
         lo = (if nu_pinned d \<ge> 0 then nu_pinned d else 0);
         hi = (if nu_pinned d \<ge> 0 then nu_pinned d else EV3_IN_PORT_COUNT - 1)
     in scan_ports e [lo..hi] (d, w))"

section \<open>Clients\<close>

definition nxt_do_command :: "ev3_sensor_cmd \<Rightarrow> nxt_us \<Rightarrow> int \<times> nxt_us" where
  "nxt_do_command c d =
     (if sc_cmd c = EV3_SENSOR_CMD_SET_MODE then
        (if \<not> valid_mode (sc_arg0 c) then (-1, d) else (0, d\<lparr>nu_pending_mode := sc_arg0 c\<rparr>))
      else if sc_cmd c = EV3_SENSOR_CMD_RESET then (0, d\<lparr>nu_pending_mode := 3\<rparr>)
      else (-1, d))"

definition us_read :: "int \<Rightarrow> nxt_us \<Rightarrow> int \<times> ev3_sensor_data option" where
  "us_read sz d = (if sz < sizeof_data then (-1, None) else (sizeof_data, Some (nu_data d)))"

definition us_write :: "ev3_sensor_cmd option \<Rightarrow> int \<Rightarrow> nxt_us \<Rightarrow> int \<times> nxt_us" where
  "us_write buf sz d =
     (case buf of
        None \<Rightarrow> (-1, d)
      | Some c \<Rightarrow>
          if sz < sizeof_cmd then (-1, d)
          else let (r, d) = nxt_do_command c d in (if r \<noteq> 0 then -1 else sizeof_cmd, d))"

definition us_dev_cntl :: "int \<Rightarrow> ev3_sensor_cmd option \<Rightarrow> nxt_us \<Rightarrow> (int \<times> ev3_sensor_data option) \<times> nxt_us" where
  "us_dev_cntl cmd msg d =
     (if cmd = EV3_SENSOR_CNTL_GET_DATA then ((0, Some (nu_data d)), d)
      else if cmd = EV3_SENSOR_CNTL_SET_MODE \<or> cmd = EV3_SENSOR_CNTL_COMMAND then
        (case msg of
           None \<Rightarrow> ((-1, None), d)
         | Some c \<Rightarrow>
             let c = (if cmd = EV3_SENSOR_CNTL_SET_MODE then c\<lparr>sc_cmd := EV3_SENSOR_CMD_SET_MODE\<rparr> else c);
                 (r, d) = nxt_do_command c d
             in ((r, None), d))
      else ((-1, None), d))"

text \<open>The shell interface; the texts it prints are the constructors of \<open>us_text\<close>.\<close>

datatype us_text = ModeText int bool | ScanText bool | SearchText | InfoText int bool int int int

definition us_cmd :: "nxt_env \<Rightarrow> string list \<Rightarrow> nxt_state \<Rightarrow> us_text \<times> nxt_state" where
  "us_cmd e argv s =
     (if length argv > 1 \<and> argv ! 0 = ''mode'' then
        let m = atoi (argv ! 1);
            (r, d) = nxt_do_command \<lparr>sc_cmd = EV3_SENSOR_CMD_SET_MODE, sc_arg0 = m, sc_arg1 = 0, sc_arg2 = 0\<rparr> (fst s)
        in (ModeText m (r = 0), d, snd s)
      else if length argv > 0 \<and> argv ! 0 = ''scan'' then
        let s = (if nu_port (fst s) \<ge> 0 then nxt_unbind e s else s);
            s = nxt_scan_and_bind e (ne_now e) s
        in (ScanText (nu_port (fst s) \<ge> 0), s)
      else if nu_port (fst s) < 0 then (SearchText, s)
      else (InfoText (nu_port (fst s) + 1) (sd_connected (nu_data (fst s))) (sd_value (nu_data (fst s)) ! 0)
              (nu_mode (fst s)) (ig_nacks (nu_bus (fst s))), s))"

section \<open>The loop\<close>

definition apply_pending :: "nxt_env \<Rightarrow> nxt_state \<Rightarrow> nxt_state" where
  "apply_pending e s =
     (if nu_pending_mode (fst s) \<ge> 0 then
        let m = nu_pending_mode (fst s);
            s = ((fst s)\<lparr>nu_pending_mode := -1\<rparr>, snd s);
            (r, s) = us_write_reg e NXTUS_REG_CMD (word_of_int m) s
        in if r = 0 then
             (if valid_mode m then ((fst s)\<lparr>nu_mode := m\<rparr>, snd s)
              else ((fst s)\<lparr>nu_pending_mode := nu_mode (fst s)\<rparr>, snd s))
           else s
      else s)"

definition poll_distance :: "nxt_env \<Rightarrow> nxt_state \<Rightarrow> nxt_state" where
  "poll_distance e s =
     (if nu_mode (fst s) \<noteq> NXTUS_MODE_OFF then
        let (r, raw, s) = us_read_reg e NXTUS_REG_DIST [word_of_int NXTUS_NO_ECHO] 1 s
        in if r = 0 then
             let s = (set_value e True (uint (raw ! 0)) ((fst s)\<lparr>nu_fails := 0\<rparr>), snd s)
             in if nu_mode (fst s) = NXTUS_MODE_SINGLE
                then snd (us_write_reg e NXTUS_REG_CMD (word_of_int NXTUS_MODE_SINGLE) s) else s
           else
             let d = (fst s)\<lparr>nu_fails := nu_fails (fst s) + 1\<rparr>
             in (if nu_fails d \<ge> NXTUS_MAX_FAILS then set_value e False NXTUS_NO_ECHO d else d, snd s)
      else s)"

definition bound_poll :: "nxt_env \<Rightarrow> nxt_state \<Rightarrow> nxt_state" where
  "bound_poll e s =
     (if \<not> sd_connected (nu_data (fst s)) then
        let (found, s) = detect_sensor e s
        in if found then
             let s = ((fst s)\<lparr>nu_fails := 0\<rparr>, snd s);
                 s = snd (us_write_reg e NXTUS_REG_CMD (word_of_int (nu_mode (fst s))) s)
             in (set_value e True NXTUS_NO_ECHO (fst s), snd s)
           else s
      else poll_distance e (apply_pending e s))"

definition hot_plug :: "nxt_env \<Rightarrow> u32 \<Rightarrow> nxt_state \<Rightarrow> nxt_state" where
  "hot_plug e now s =
     (if elapsed now (nu_scan_ms (fst s)) \<ge> NXTUS_SCAN_MS then
        let s = ((fst s)\<lparr>nu_scan_ms := now\<rparr>, snd s)
        in if elapsed now (nu_bind_ms (fst s)) < NXTUS_BOOT_MS then ((fst s)\<lparr>nu_miss := 0\<rparr>, snd s)
           else
             let (alive, s) = detect_sensor e s
             in if alive then ((fst s)\<lparr>nu_miss := 0\<rparr>, snd s)
                else
                  let s = ((fst s)\<lparr>nu_miss := nu_miss (fst s) + 1\<rparr>, snd s)
                  in if nu_miss (fst s) \<ge> NXTUS_MISS_MAX then nxt_unbind e s else s
      else s)"

text \<open>One round of the loop; the flag says whether the readers were woken.\<close>

definition us_loop :: "nxt_env \<Rightarrow> nxt_state \<Rightarrow> bool \<times> nxt_state" where
  "us_loop e s =
     (let now = ne_now e;
          s = (if nu_port (fst s) < 0
               then (if elapsed now (nu_scan_ms (fst s)) \<ge> NXTUS_SCAN_MS then nxt_scan_and_bind e now s else s)
               else hot_plug e now (bound_poll e s))
      in (nu_wakeup (fst s), (fst s)\<lparr>nu_wakeup := False\<rparr>, snd s))"

text \<open>
  \<^verbatim>\<open>doargs\<close> and \<^verbatim>\<open>main\<close> up to the first scan: \<open>pinned\<close> and \<open>mode\<close> are what the options leave in the
  variables (-1 and continuous mode without options).
\<close>

definition nxt_main :: "nxt_env \<Rightarrow> int \<Rightarrow> int \<Rightarrow> string \<Rightarrow> i2c_world \<Rightarrow> nxt_state" where
  "nxt_main e pinned mode mnt_point w =
     (let pinned = (if pinned < -1 \<or> pinned \<ge> EV3_IN_PORT_COUNT then -1 else pinned);
          mode = (if \<not> valid_mode mode then NXTUS_MODE_CONTINUOUS else mode);
          dat = ev3_sensor_data_zero\<lparr>sd_type := EV3_SENSOR_TYPE_NXT_US, sd_port := EV3_SENSOR_PORT_NONE,
                  sd_mode := mode, sd_nvalues := 1, sd_value := (replicate 8 0)[0 := NXTUS_NO_ECHO]\<rparr>;
          d = \<lparr>nu_bus = \<lparr>ig_port = 0, ig_scl = 0, ig_sda = 0, ig_half_us = 0, ig_nacks = 0\<rparr>,
               nu_port = EV3_SENSOR_PORT_NONE, nu_pinned = pinned, nu_adc_fd = ne_adc_fd e,
               nu_self_node = mnt_point, nu_bus_open = False, nu_miss = 0, nu_scan_ms = 0, nu_bind_ms = 0,
               nu_mode = mode, nu_pending_mode = -1, nu_data = dat, nu_fails = 0, nu_wakeup = False\<rparr>
      in nxt_scan_and_bind e (ne_now e) (d, w))"

section \<open>Runs\<close>

text \<open>
  What can happen to the daemon: a round of the loop, a client request, a shell command, and any change
  of the wires by the device or another process.
\<close>

inductive nxt_step :: "nxt_state \<Rightarrow> nxt_state \<Rightarrow> bool" where
  nxt_round: "nxt_step s (snd (us_loop e s))"
| nxt_write: "nxt_step (d, w) (snd (us_write buf sz d), w)"
| nxt_cntl: "nxt_step (d, w) (snd (us_dev_cntl cmd msg d), w)"
| nxt_shell: "nxt_step s (snd (us_cmd e argv s))"
| nxt_wires: "nxt_step (d, w) (d, w')"

lemma read_reg_not_0: "len \<noteq> 0 \<Longrightarrow> fst (ev3_i2c_gpio_read_reg slave addr reg buf len bus w) \<noteq> 0"
  by (simp add: ev3_i2c_gpio_read_reg_def Let_def split: prod.split)

lemma us_read_reg_not_0: "len \<noteq> 0 \<Longrightarrow> fst (us_read_reg e reg buf len s) \<noteq> 0"
  using read_reg_not_0 [of len] by (auto simp: us_read_reg_def split: prod.split) (metis fst_conv)

text \<open>The part of the state the theorem is about, and the operations that leave it alone.\<close>

definition silent :: "int \<Rightarrow> nxt_us \<Rightarrow> bool" where
  "silent m d \<longleftrightarrow> \<not> sd_connected (nu_data d) \<and> length (sd_value (nu_data d)) = 8 \<and>
     sd_value (nu_data d) ! 0 = NXTUS_NO_ECHO \<and> nu_mode d = m"

lemma silent_upd [simp]:
  "silent m (d\<lparr>nu_bus := b\<rparr>) = silent m d" "silent m (d\<lparr>nu_bus_open := o'\<rparr>) = silent m d"
  "silent m (d\<lparr>nu_port := p\<rparr>) = silent m d" "silent m (d\<lparr>nu_adc_fd := f\<rparr>) = silent m d"
  "silent m (d\<lparr>nu_miss := k\<rparr>) = silent m d" "silent m (d\<lparr>nu_scan_ms := t\<rparr>) = silent m d"
  "silent m (d\<lparr>nu_bind_ms := t\<rparr>) = silent m d" "silent m (d\<lparr>nu_pending_mode := q\<rparr>) = silent m d"
  "silent m (d\<lparr>nu_fails := k\<rparr>) = silent m d" "silent m (d\<lparr>nu_wakeup := v\<rparr>) = silent m d"
  "silent m (d\<lparr>nu_data := (nu_data d)\<lparr>sd_port := p\<rparr>\<rparr>) = silent m d"
  "silent m (d\<lparr>nu_data := (nu_data d)\<lparr>sd_probing := p\<rparr>\<rparr>) = silent m d"
  by (simp_all add: silent_def)

lemma silent_set_value: "silent m d \<Longrightarrow> silent m (set_value e False NXTUS_NO_ECHO d)"
  by (simp add: silent_def set_value_def Let_def)

lemma silent_write_reg: "silent m (fst s) \<Longrightarrow> silent m (fst (snd (us_write_reg e reg v s)))"
  by (auto simp: us_write_reg_def split: prod.split)

lemma silent_read_reg: "silent m (fst s) \<Longrightarrow> silent m (fst (snd (snd (us_read_reg e reg buf len s))))"
  by (auto simp: us_read_reg_def split: prod.split)

lemma detect_sensor_fails:
  "\<not> fst (detect_sensor e s)" "silent m (fst s) \<Longrightarrow> silent m (fst (snd (detect_sensor e s)))"
proof -
  obtain r b t where u: "us_read_reg e NXTUS_REG_VENDOR [0, 0, 0, 0] 4 s = (r, b, t)" by (metis surj_pair)
  then show "\<not> fst (detect_sensor e s)"
    using us_read_reg_not_0 [of 4 e NXTUS_REG_VENDOR "[0, 0, 0, 0]" s] by (simp add: detect_sensor_def)
  show "silent m (fst s) \<Longrightarrow> silent m (fst (snd (detect_sensor e s)))"
    using silent_read_reg [of m s e NXTUS_REG_VENDOR "[0, 0, 0, 0]" 4] u by (simp add: detect_sensor_def)
qed

lemma silent_bind: "silent m (fst s) \<Longrightarrow> silent m (fst (nxt_bind e port s))"
proof (cases s)
  case (Pair d w)
  assume a: "silent m (fst s)"
  obtain rc bus w' where u: "ev3_i2c_gpio_open (ne_pru_disable e) port EV3_I2C_GPIO_HZ_NXT (nu_bus d) w = (rc, bus, w')"
    by (metis surj_pair)
  have k: "silent m (d\<lparr>nu_bus := bus, nu_bus_open := True, nu_port := port, nu_data := (nu_data d)\<lparr>sd_port := port\<rparr>,
      nu_bind_ms := t, nu_fails := 0, nu_miss := 0, nu_wakeup := True\<rparr>)" for t
    using a Pair by (simp add: silent_def)
  show ?thesis using a k by (simp add: nxt_bind_def Pair u Let_def silent_write_reg)
qed

lemma silent_unbind: "silent m (fst s) \<Longrightarrow> silent m (fst (nxt_unbind e s))"
  by (auto simp: nxt_unbind_def Let_def split: prod.split intro!: silent_set_value) (auto simp: silent_def)

lemma silent_scan_ports: "silent m (fst s) \<Longrightarrow> silent m (fst (scan_ports e ports s))"
proof (induction ports arbitrary: s)
  case Nil
  then show ?case by simp
next
  case (Cons p ps)
  obtain d w where s: "s = (d, w)" by fastforce
  obtain ct g where u: "ev3_sensor_conn_type (nu_adc_fd d) p (ne_ins e p) (ne_adc e p) (iw_gpio w) = (ct, g)"
    by (metis surj_pair)
  obtain c t where ct: "ct = (c, t)" by fastforce
  have "silent m (d\<lparr>nu_data := (nu_data d)\<lparr>sd_probing := 0\<rparr>\<rparr>)" using Cons.prems s by simp
  then show ?case
    using Cons.IH silent_bind [of m "(_, _)"] by (simp add: s u ct Let_def)
qed

lemma silent_scan: "silent m (fst s) \<Longrightarrow> silent m (fst (nxt_scan_and_bind e now s))"
  by (cases s) (simp add: nxt_scan_and_bind_def Let_def silent_scan_ports)

lemma silent_command: "silent m d \<Longrightarrow> silent m (snd (nxt_do_command c d))"
  by (simp add: nxt_do_command_def)

lemma silent_bound_poll: "silent m (fst s) \<Longrightarrow> silent m (fst (bound_poll e s))"
  using detect_sensor_fails(1) [of e s] detect_sensor_fails(2) [of m s e] by (auto simp: bound_poll_def silent_def [of m "fst s"] split: prod.split)

lemma silent_hot_plug:
  assumes "silent m (fst s)"
  shows "silent m (fst (hot_plug e now s))"
proof -
  let ?s = "((fst s)\<lparr>nu_scan_ms := now\<rparr>, snd s)"
  obtain a t where u: "detect_sensor e ?s = (a, t)" by (metis surj_pair)
  have "silent m (fst t)" using detect_sensor_fails(2) [of m ?s e] assms u by simp
  then show ?thesis
    using assms silent_unbind [of m "(_, _)"] by (simp add: hot_plug_def Let_def u)
qed

lemma silent_loop: "silent m (fst s) \<Longrightarrow> silent m (fst (snd (us_loop e s)))"
  by (simp add: us_loop_def Let_def silent_scan silent_hot_plug silent_bound_poll)

lemma silent_write: "silent m d \<Longrightarrow> silent m (snd (us_write buf sz d))"
  using silent_command [of m d] by (auto simp: us_write_def split: option.split prod.split) (metis snd_conv)

lemma silent_cntl: "silent m d \<Longrightarrow> silent m (snd (us_dev_cntl cmd msg d))"
  using silent_command [of m d] by (auto simp: us_dev_cntl_def Let_def split: option.split prod.split) (metis snd_conv)+

lemma silent_cmd: "silent m (fst s) \<Longrightarrow> silent m (fst (snd (us_cmd e argv s)))"
  using silent_command [of m "fst s"]
  by (auto simp: us_cmd_def Let_def silent_scan silent_unbind split: prod.split) (metis snd_conv)

interpretation nxt: transition_system "\<lambda>s. silent m (fst s)" nxt_step "\<lambda>s. silent m (fst s)" for m
  by unfold_locales
     (auto elim!: nxt_step.cases simp: silent_loop silent_write silent_cntl silent_cmd)

text \<open>
  C38. The daemon never reports a connected sensor. A register read of the I2C layer returns the number of
  bytes on success, but the daemon takes 0 for success: whatever device answers on the bus, in every
  state the daemon reaches from its start by rounds of its loop, client requests and shell commands,
  the published sample is "not connected, 255 cm" and the mode is the initial one.
\<close>

theorem nxt_never_connects:
  assumes "nxt_step\<^sup>*\<^sup>* (nxt_main e pinned mode mnt_point w) (d, w')"
  shows "\<not> sd_connected (nu_data d) \<and> sd_value (nu_data d) ! 0 = NXTUS_NO_ECHO \<and>
    nu_mode d = (if valid_mode mode then mode else NXTUS_MODE_CONTINUOUS)"
proof -
  have "silent (if valid_mode mode then mode else NXTUS_MODE_CONTINUOUS) (fst (nxt_main e pinned mode mnt_point w))"
    unfolding nxt_main_def Let_def by (intro silent_scan) (simp add: silent_def ev3_sensor_data_zero_def)
  from nxt.inv_reachable [OF this assms] show ?thesis by (simp add: silent_def)
qed

definition demo_env :: nxt_env where
  "demo_env = \<lparr>ne_now = 5000, ne_tic = 5000, ne_slave = demo_device, ne_pru_disable = (\<lambda>_ g. g),
     ne_ins = (\<lambda>_. [0, 0, 0, 0, 0]), ne_adc = (\<lambda>_. None), ne_peer = (\<lambda>_. None), ne_adc_fd = -1\<rparr>"

theorem nxt_never_connects_witness:
  "\<not> sd_connected (nu_data (fst (snd (us_loop demo_env (nxt_main demo_env (-1) 2 ''/dev/nxt-us0'' demo_wires)))))"
proof -
  let ?s = "nxt_main demo_env (-1) 2 ''/dev/nxt-us0'' demo_wires"
  have "nxt_step\<^sup>*\<^sup>* ?s (fst (snd (us_loop demo_env ?s)), snd (snd (us_loop demo_env ?s)))"
    using nxt_round [of ?s demo_env] by auto
  from nxt_never_connects [OF this] show ?thesis by simp
qed

end
