(* ===== verification/Ev3_Claims.thy ===== *)
theory Ev3_Claims
  imports Ev3_Uart_Sensord_Props Ev3_Nxt_Us
begin

text \<open>
  How the EV3 sensor daemons share the four input ports: the claim protocol between them, as an interleaving
  of the atomic actions of \<^verbatim>\<open>protocol_probe\<close> (\<^verbatim>\<open>uart_sensord.c\<close>) and of \<^verbatim>\<open>scan_and_bind\<close> of the NXT ultrasonic
  daemon with the peer queries of \<^verbatim>\<open>ev3_sensor_port_busy\<close>, and the effect of one daemon's scan on the
  supply of another's sensor.

  A daemon is its two published variables and the point it has reached: asking the peers in the list about a
  port, touching the port (classifying, opening, listening), publishing the binding, holding the port. A
  running peer answers every query; a peer that is not running is always away. A daemon started with
  \<^verbatim>\<open>-p\<close> binds its port without asking (\<^verbatim>\<open>scan_and_bind\<close> of \<^verbatim>\<open>uart_sensord.c\<close>) and is outside this protocol.
\<close>

section \<open>Actions\<close>

datatype probe_at = Away | Asking int "string list" | Touching int | Publishing int | Holding int
  | Unclaimed int

record prober =
  pb_port :: int
  pb_claim :: int
  pb_at :: probe_at

type_synonym probers = "string \<Rightarrow> prober"

text \<open>The two fields of the sample a peer reads, as \<^verbatim>\<open>fill_data\<close> computes them.\<close>

definition pb_reply :: "prober \<Rightarrow> (int \<times> int) option" where
  "pb_reply b = Some (pb_port b, if pb_claim b \<ge> 0 then pb_claim b + 1 else 0)"

definition peers_of :: "string \<Rightarrow> string list" where
  "peers_of node = filter (\<lambda>n. n \<noteq> node) conn_peer_nodes"

definition away :: prober where
  "away = \<lparr>pb_port = EV3_SENSOR_PORT_NONE, pb_claim = EV3_SENSOR_PORT_NONE, pb_at = Away\<rparr>"

inductive asking_step :: "string \<Rightarrow> probers \<Rightarrow> probers \<Rightarrow> bool" where
  take_claim: "pb_at (S i) = Away \<Longrightarrow> 0 \<le> p \<Longrightarrow> p < EV3_IN_PORT_COUNT \<Longrightarrow>
    asking_step i S (S(i := (S i)\<lparr>pb_claim := p, pb_at := Asking p (peers_of i)\<rparr>))"
| ask_free: "pb_at (S i) = Asking p (j # js) \<Longrightarrow> \<not> peer_holds p (pb_reply (S j)) \<Longrightarrow>
    asking_step i S (S(i := (S i)\<lparr>pb_at := Asking p js\<rparr>))"
| ask_busy: "pb_at (S i) = Asking p (j # js) \<Longrightarrow> peer_holds p (pb_reply (S j)) \<Longrightarrow>
    asking_step i S (S(i := (S i)\<lparr>pb_claim := EV3_SENSOR_PORT_NONE, pb_at := Away\<rparr>))"
| enter: "pb_at (S i) = Asking p [] \<Longrightarrow> asking_step i S (S(i := (S i)\<lparr>pb_at := Touching p\<rparr>))"
| give_up: "pb_at (S i) = Touching p \<Longrightarrow>
    asking_step i S (S(i := (S i)\<lparr>pb_claim := EV3_SENSOR_PORT_NONE, pb_at := Away\<rparr>))"
| release: "pb_at (S i) = Holding p \<Longrightarrow>
    asking_step i S (S(i := (S i)\<lparr>pb_port := EV3_SENSOR_PORT_NONE, pb_at := Away\<rparr>))"

text \<open>A UART daemon publishes the port before it drops the claim.\<close>

inductive uart_probe :: "string \<Rightarrow> probers \<Rightarrow> probers \<Rightarrow> bool" where
  uart_asks: "asking_step i S T \<Longrightarrow> uart_probe i S T"
| uart_publish: "pb_at (S i) = Touching p \<Longrightarrow>
    uart_probe i S (S(i := (S i)\<lparr>pb_port := p, pb_at := Publishing p\<rparr>))"
| uart_bound: "pb_at (S i) = Publishing p \<Longrightarrow>
    uart_probe i S (S(i := (S i)\<lparr>pb_claim := EV3_SENSOR_PORT_NONE, pb_at := Holding p\<rparr>))"

text \<open>The NXT ultrasonic daemon drops the claim after classifying and publishes the port once it has opened it.\<close>

inductive nxt_probe :: "string \<Rightarrow> probers \<Rightarrow> probers \<Rightarrow> bool" where
  nxt_asks: "asking_step i S T \<Longrightarrow> nxt_probe i S T"
| nxt_unclaim: "pb_at (S i) = Touching p \<Longrightarrow>
    nxt_probe i S (S(i := (S i)\<lparr>pb_claim := EV3_SENSOR_PORT_NONE, pb_at := Unclaimed p\<rparr>))"
| nxt_bound: "pb_at (S i) = Unclaimed p \<Longrightarrow>
    nxt_probe i S (S(i := (S i)\<lparr>pb_port := p, pb_at := Holding p\<rparr>))"

definition uart_nodes :: "string list" where
  "uart_nodes = map cf_mnt_point [colord_cfg, gyrod_cfg, ird_cfg, ultrasonicd_cfg]"

inductive uart_system :: "probers \<Rightarrow> probers \<Rightarrow> bool" where
  "i \<in> set uart_nodes \<Longrightarrow> uart_probe i S T \<Longrightarrow> uart_system S T"

text \<open>Using a port: touching it, publishing it or holding it.\<close>

fun uses :: "probe_at \<Rightarrow> int \<Rightarrow> bool" where
  "uses (Touching q) p \<longleftrightarrow> q = p"
| "uses (Publishing q) p \<longleftrightarrow> q = p"
| "uses (Holding q) p \<longleftrightarrow> q = p"
| "uses (Unclaimed q) p \<longleftrightarrow> q = p"
| "uses _ p \<longleftrightarrow> False"

section \<open>Mutual exclusion\<close>

text \<open>What a daemon publishes at each point, and having asked a peer about a port.\<close>

fun published :: "prober \<Rightarrow> probe_at \<Rightarrow> bool" where
  "published b Away \<longleftrightarrow> pb_port b = -1 \<and> pb_claim b = -1"
| "published b (Asking p js) \<longleftrightarrow> 0 \<le> p \<and> pb_port b = -1 \<and> pb_claim b = p"
| "published b (Touching p) \<longleftrightarrow> 0 \<le> p \<and> pb_port b = -1 \<and> pb_claim b = p"
| "published b (Publishing p) \<longleftrightarrow> 0 \<le> p \<and> pb_port b = p \<and> pb_claim b = p"
| "published b (Holding p) \<longleftrightarrow> 0 \<le> p \<and> pb_port b = p \<and> pb_claim b = -1"
| "published b (Unclaimed p) \<longleftrightarrow> False"

fun passed :: "probe_at \<Rightarrow> string \<Rightarrow> int \<Rightarrow> bool" where
  "passed (Asking q js) j p \<longleftrightarrow> q = p \<and> j \<notin> set js"
| "passed a j p \<longleftrightarrow> uses a p"

definition claims_inv :: "probers \<Rightarrow> bool" where
  "claims_inv S \<longleftrightarrow> (\<forall>i. published (S i) (pb_at (S i))) \<and>
     (\<forall>i j p. i \<noteq> j \<and> i \<in> set uart_nodes \<and> j \<in> set uart_nodes \<longrightarrow>
        \<not> (passed (pb_at (S i)) j p \<and> passed (pb_at (S j)) i p))"

lemma uses_passed: "uses a p \<Longrightarrow> passed a j p"
  by (cases a) auto

lemma passed_holds: "published b (pb_at b) \<Longrightarrow> passed (pb_at b) j p \<Longrightarrow> peer_holds p (pb_reply b)"
  by (cases "pb_at b") (auto simp: peer_holds_def pb_reply_def)

lemma peers_of_uart: "i \<in> set uart_nodes \<Longrightarrow> j \<in> set uart_nodes \<Longrightarrow> i \<noteq> j \<Longrightarrow> j \<in> set (peers_of i)"
  by (auto simp: uart_nodes_def peers_of_def conn_peer_nodes_def colord_cfg_def gyrod_cfg_def ird_cfg_def
      ultrasonicd_cfg_def)

lemma claims_excl:
  "claims_inv S \<Longrightarrow> i \<in> set uart_nodes \<Longrightarrow> j \<in> set uart_nodes \<Longrightarrow> i \<noteq> j \<Longrightarrow>
     passed (pb_at (S i)) j p \<Longrightarrow> \<not> passed (pb_at (S j)) i p"
  by (simp add: claims_inv_def)

lemma claims_upd:
  assumes "claims_inv S" "published b (pb_at b)"
    and "\<And>j p. j \<noteq> i \<Longrightarrow> j \<in> set uart_nodes \<Longrightarrow> passed (pb_at b) j p \<Longrightarrow> \<not> passed (pb_at (S j)) i p"
  shows "claims_inv (S(i := b))"
proof -
  have "published ((S(i := b)) k) (pb_at ((S(i := b)) k))" for k
    using assms(1,2) by (simp add: claims_inv_def)
  moreover have "\<not> (passed (pb_at ((S(i := b)) k)) l p \<and> passed (pb_at ((S(i := b)) l)) k p)"
    if "k \<noteq> l" "k \<in> set uart_nodes" "l \<in> set uart_nodes" for k l p
    using that claims_excl [OF assms(1) that(2,3,1), of p] assms(3) [of l p] assms(3) [of k p]
    by (cases "k = i"; cases "l = i") auto
  ultimately show ?thesis by (simp only: claims_inv_def) blast
qed

lemma claims_upd_same:
  assumes "claims_inv S" "i \<in> set uart_nodes" "published b (pb_at b)"
    and "\<And>j p. passed (pb_at b) j p \<Longrightarrow> passed (pb_at (S i)) j p"
  shows "claims_inv (S(i := b))"
proof (rule claims_upd [OF assms(1,3)])
  fix j p
  assume j: "j \<noteq> i" "j \<in> set uart_nodes" and "passed (pb_at b) j p"
  then have "passed (pb_at (S i)) j p" by (intro assms(4))
  from claims_excl [OF assms(1,2) j(2) j(1) [symmetric] this] show "\<not> passed (pb_at (S j)) i p" .
qed

lemma asking_inv:
  assumes "asking_step i S T" "claims_inv S" "i \<in> set uart_nodes"
  shows "claims_inv T"
  using assms
proof (induction rule: asking_step.induct)
  case (take_claim S i p)
  then have "published (S i) Away" by (auto simp: claims_inv_def dest: spec [of _ i])
  with take_claim show ?case by (intro claims_upd) (auto simp: peers_of_uart)
next
  case (ask_free S i p j js)
  then have o: "published (S i) (Asking p (j # js))" "\<And>k. published (S k) (pb_at (S k))"
    by (auto simp: claims_inv_def dest: spec [of _ i])
  then have "\<not> passed (pb_at (S j)) k p" for k using passed_holds [of "S j"] ask_free by blast
  moreover have "\<not> passed (pb_at (S k)) i p" if "k \<noteq> i" "k \<in> set uart_nodes" "k \<notin> set (j # js)" for k
    using claims_excl [OF ask_free(3,4) that(2), of p] ask_free(1) that by simp
  ultimately have n: "\<not> passed (pb_at (S k)) i p" if "k \<noteq> i" "k \<in> set uart_nodes" "k \<notin> set js" for k
    using that by (cases "k = j") auto
  show ?case
    by (rule claims_upd [OF ask_free(3)]) (use o(1) n in auto)
next
  case (ask_busy S i p j js)
  then have "published (S i) (Asking p (j # js))" by (auto simp: claims_inv_def dest: spec [of _ i])
  with ask_busy show ?case by (intro claims_upd_same) (auto simp: EV3_SENSOR_PORT_NONE_def)
next
  case (enter S i p)
  then have "published (S i) (Asking p [])" by (auto simp: claims_inv_def dest: spec [of _ i])
  with enter show ?case by (intro claims_upd_same) auto
next
  case (give_up S i p)
  then have "published (S i) (Touching p)" by (auto simp: claims_inv_def dest: spec [of _ i])
  with give_up show ?case by (intro claims_upd_same) (auto simp: EV3_SENSOR_PORT_NONE_def)
next
  case (release S i p)
  then have "published (S i) (Holding p)" by (auto simp: claims_inv_def dest: spec [of _ i])
  with release show ?case by (intro claims_upd_same) (auto simp: EV3_SENSOR_PORT_NONE_def)
qed

lemma uart_inv:
  assumes "uart_probe i S T" "claims_inv S" "i \<in> set uart_nodes"
  shows "claims_inv T"
  using assms
proof (induction rule: uart_probe.induct)
  case (uart_asks i S T)
  then show ?case by (rule asking_inv)
next
  case (uart_publish S i p)
  then have "published (S i) (Touching p)" by (auto simp: claims_inv_def dest: spec [of _ i])
  with uart_publish show ?case by (intro claims_upd_same) auto
next
  case (uart_bound S i p)
  then have "published (S i) (Publishing p)" by (auto simp: claims_inv_def dest: spec [of _ i])
  with uart_bound show ?case by (intro claims_upd_same) (auto simp: EV3_SENSOR_PORT_NONE_def)
qed

interpretation claims: transition_system "\<lambda>S. S = (\<lambda>_. away)" uart_system claims_inv
proof unfold_locales
  show "claims_inv S" if "S = (\<lambda>_. away)" for S
    using that by (simp add: claims_inv_def away_def EV3_SENSOR_PORT_NONE_def)
  show "claims_inv T" if "claims_inv S" "uart_system S T" for S T
    using that(2,1) by (cases rule: uart_system.cases) (rule uart_inv)
qed

text \<open>
  C4. Two UART daemons never use the same port: in every interleaving of their probes, where each claims a
  port, asks the peers one by one, touches the port only if none of them holds or claims it, and
  publishes the binding before it drops the claim, no port is touched, published or held by two
  daemons at once.
\<close>

theorem port_exclusive:
  assumes "uart_system\<^sup>*\<^sup>* (\<lambda>_. away) S" "i \<in> set uart_nodes" "j \<in> set uart_nodes" "i \<noteq> j" "uses (pb_at (S i)) p"
  shows "\<not> uses (pb_at (S j)) p"
proof -
  have "claims_inv S" using claims.inv_reachable [OF refl assms(1)] .
  from claims_excl [OF this assms(2-4) uses_passed [OF assms(5)]] uses_passed show ?thesis by blast
qed

text \<open>Runs in which no peer is in the way.\<close>

lemma ask_run:
  assumes "pb_at (S i) = Asking p js" "\<And>j. j \<in> set js \<Longrightarrow> j \<noteq> i \<and> \<not> peer_holds p (pb_reply (S j))"
  shows "(asking_step i)\<^sup>*\<^sup>* S (S(i := (S i)\<lparr>pb_at := Touching p\<rparr>))"
  using assms
proof (induction js arbitrary: S)
  case Nil
  then show ?case by (blast intro: enter)
next
  case (Cons j js)
  let ?S = "S(i := (S i)\<lparr>pb_at := Asking p js\<rparr>)"
  have "asking_step i S ?S" using Cons.prems by (intro ask_free) auto
  moreover have "(asking_step i)\<^sup>*\<^sup>* ?S (?S(i := (?S i)\<lparr>pb_at := Touching p\<rparr>))"
    using Cons.prems(2) by (intro Cons.IH) auto
  ultimately have "(asking_step i)\<^sup>*\<^sup>* S (?S(i := (?S i)\<lparr>pb_at := Touching p\<rparr>))"
    by (rule converse_rtranclp_into_rtranclp)
  moreover have "?S(i := (?S i)\<lparr>pb_at := Touching p\<rparr>) = S(i := (S i)\<lparr>pb_at := Touching p\<rparr>)"
    by (rule ext) simp
  ultimately show ?case by (simp only:)
qed

lemma probe_run:
  assumes "pb_at (S i) = Away" "0 \<le> p" "p < EV3_IN_PORT_COUNT"
    and "\<And>j. j \<in> set (peers_of i) \<Longrightarrow> \<not> peer_holds p (pb_reply (S j))"
  shows "(asking_step i)\<^sup>*\<^sup>* S (S(i := (S i)\<lparr>pb_claim := p, pb_at := Touching p\<rparr>))"
proof -
  let ?S = "S(i := (S i)\<lparr>pb_claim := p, pb_at := Asking p (peers_of i)\<rparr>)"
  have "asking_step i S ?S" using assms(1-3) by (rule take_claim)
  moreover have "(asking_step i)\<^sup>*\<^sup>* ?S (?S(i := (?S i)\<lparr>pb_at := Touching p\<rparr>))"
    using assms(4) by (intro ask_run) (auto simp: peers_of_def)
  ultimately have "(asking_step i)\<^sup>*\<^sup>* S (?S(i := (?S i)\<lparr>pb_at := Touching p\<rparr>))"
    by (rule converse_rtranclp_into_rtranclp)
  moreover have "?S(i := (?S i)\<lparr>pb_at := Touching p\<rparr>) = S(i := (S i)\<lparr>pb_claim := p, pb_at := Touching p\<rparr>)"
    by (rule ext) simp
  ultimately show ?thesis by (simp only:)
qed

lemma away_free: "0 \<le> p \<Longrightarrow> \<not> peer_holds p (pb_reply away)"
  by (simp add: peer_holds_def pb_reply_def away_def EV3_SENSOR_PORT_NONE_def)

theorem port_exclusive_witness:
  "\<exists>S. uart_system\<^sup>*\<^sup>* (\<lambda>_. away) S \<and> uses (pb_at (S ''/dev/color0'')) 0 \<and> \<not> uses (pb_at (S ''/dev/gyro0'')) 0"
proof -
  let ?c = "''/dev/color0''" and ?g = "''/dev/gyro0''"
  let ?S = "(\<lambda>_. away)(?c := away\<lparr>pb_claim := 0, pb_at := Touching 0\<rparr>)"
  have n: "?c \<in> set uart_nodes" "?g \<in> set uart_nodes"
    by (simp_all add: uart_nodes_def colord_cfg_def gyrod_cfg_def)
  have "(asking_step ?c)\<^sup>*\<^sup>* (\<lambda>_. away) ?S"
    using probe_run [of "\<lambda>_. away" ?c 0] away_free [of 0] by (simp add: away_def EV3_IN_PORT_COUNT_def)
  then have "uart_system\<^sup>*\<^sup>* (\<lambda>_. away) ?S"
    by (rule rtranclp_mono [THEN predicate2D, rotated]) (blast intro: uart_asks uart_system.intros n(1))
  moreover from port_exclusive [OF this n] have "\<not> uses (pb_at (?S ?g)) 0" by simp
  ultimately show ?thesis by (intro exI [of _ ?S]) simp
qed

text \<open>
  The NXT ultrasonic daemon is not covered: it drops its claim before it publishes the port. A run in which it
  binds port 1 while the colour daemon is touching it:
\<close>

inductive mixed_system :: "probers \<Rightarrow> probers \<Rightarrow> bool" where
  "uart_system S T \<Longrightarrow> mixed_system S T"
| "nxt_probe ''/dev/nxt-us0'' S T \<Longrightarrow> mixed_system S T"

theorem nxt_claim_gap:
  "\<exists>S. mixed_system\<^sup>*\<^sup>* (\<lambda>_. away) S \<and> pb_at (S ''/dev/color0'') = Touching 0 \<and> pb_at (S ''/dev/nxt-us0'') = Holding 0"
proof -
  let ?c = "''/dev/color0''" and ?n = "''/dev/nxt-us0''"
  define S0 :: probers where "S0 = (\<lambda>_. away)"
  define S1 where "S1 = S0(?n := away\<lparr>pb_claim := 0, pb_at := Touching 0\<rparr>)"
  define S2 where "S2 = S1(?n := (S1 ?n)\<lparr>pb_claim := EV3_SENSOR_PORT_NONE, pb_at := Unclaimed 0\<rparr>)"
  define S3 where "S3 = S2(?c := (S2 ?c)\<lparr>pb_claim := 0, pb_at := Touching 0\<rparr>)"
  define S4 where "S4 = S3(?n := (S3 ?n)\<lparr>pb_port := 0, pb_at := Holding 0\<rparr>)"
  have "?c \<in> set uart_nodes" by (simp add: uart_nodes_def colord_cfg_def)
  then have c: "asking_step ?c \<le> mixed_system"
    by (intro predicate2I mixed_system.intros(1) uart_system.intros [of ?c] uart_asks)
  have n: "asking_step ?n \<le> mixed_system"
    by (intro predicate2I mixed_system.intros(2) nxt_asks)
  have "(asking_step ?n)\<^sup>*\<^sup>* S0 S1"
    using probe_run [of S0 ?n 0] away_free [of 0] by (simp add: S0_def S1_def away_def EV3_IN_PORT_COUNT_def)
  then have r1: "mixed_system\<^sup>*\<^sup>* S0 S1" by (rule rtranclp_mono [OF n, THEN predicate2D])
  have r2: "mixed_system S1 S2" unfolding S2_def by (intro mixed_system.intros(2) nxt_unclaim) (simp add: S1_def)
  have "(asking_step ?c)\<^sup>*\<^sup>* S2 S3" unfolding S3_def
    by (rule probe_run)
      (auto simp: S2_def S1_def S0_def away_def EV3_IN_PORT_COUNT_def peer_holds_def pb_reply_def EV3_SENSOR_PORT_NONE_def)
  then have r3: "mixed_system\<^sup>*\<^sup>* S2 S3" by (rule rtranclp_mono [OF c, THEN predicate2D])
  have r4: "mixed_system S3 S4" unfolding S4_def
    by (intro mixed_system.intros(2) nxt_bound) (simp add: S3_def S2_def)
  have "mixed_system\<^sup>*\<^sup>* S0 S4" using r1 r2 r3 r4 by (meson rtranclp.rtrancl_into_rtrancl rtranclp_trans)
  moreover have "pb_at (S4 ?c) = Touching 0" "pb_at (S4 ?n) = Holding 0" by (simp_all add: S4_def S3_def)
  ultimately show ?thesis unfolding S0_def by blast
qed

section \<open>Supply of the NXT sensor\<close>

text \<open>The ADC never names a UART sensor, so an unpinned UART daemon binds only through its probe.\<close>

lemma power_pins:
  assumes "gpio_inv g" "0 \<le> p" "p < 4" "valid_pin q"
  shows "gpio_inv (ev3_input_port_power p v g)"
    "pin_level (ev3_input_port_power p v g) q = (if q = ip_pin1 (inp p) then v else pin_level g q)"
    "pin_is_output (ev3_input_port_power p v g) q = (if q = ip_pin1 (inp p) then True else pin_is_output g q)"
proof -
  have "in_ok p" using assms(2,3) by (simp add: in_ok_def EV3_IN_PORT_COUNT_def)
  then have e: "ev3_input_port_power p v g = drive (ip_pin1 (inp p)) v g"
    by (simp add: ev3_input_port_power_def drive_def)
  note v = in_pins_all(1) [OF \<open>in_ok p\<close>]
  show "gpio_inv (ev3_input_port_power p v g)"
    "pin_level (ev3_input_port_power p v g) q = (if q = ip_pin1 (inp p) then v else pin_level g q)"
    "pin_is_output (ev3_input_port_power p v g) q = (if q = ip_pin1 (inp p) then True else pin_is_output g q)"
    unfolding e using drive_pins [OF assms(1) v assms(4), of v] by auto
qed

lemma power_ports_low:
  assumes "gpio_inv g" "0 \<le> p" "p < 4"
  shows "\<not> pin_level (ev3_sensor_power_ports g) (ip_pin1 (inp p))"
    "pin_is_output (ev3_sensor_power_ports g) (ip_pin1 (inp p))"
proof -
  have v: "valid_pin (ip_pin1 (inp p))" using assms(2,3) in_pins_all(1) [of p] by (simp add: in_ok_def EV3_IN_PORT_COUNT_def)
  have "p = 0 \<or> p = 1 \<or> p = 2 \<or> p = 3" using assms(2,3) by auto
  then show "\<not> pin_level (ev3_sensor_power_ports g) (ip_pin1 (inp p))"
    "pin_is_output (ev3_sensor_power_ports g) (ip_pin1 (inp p))"
    using assms(1) v by (auto simp: ev3_sensor_power_ports_def power_pins EV3_PIN1_LEVEL_def)
qed

text \<open>
  Searching UART daemons switch off the NXT sensor's supply: opening the I2C bus on a port drives its pin 1
  high (the 9 V supply of the sensor), and the next scan of any unpinned UART daemon that is still
  searching, which binds nothing, drives pin 1 of that port low again, although another daemon holds
  the port.
\<close>

theorem scan_cuts_nxt_supply:
  assumes "spares_pin1 pd" "gpio_inv (iw_gpio w)" "0 \<le> port" "port < 4"
    and "ev3_i2c_gpio_open pd port hz bus w = (0, bus', w')"
    and "sn_pinned d < 0" "sn_cfg d \<in> {colord_cfg, gyrod_cfg, ird_cfg, ultrasonicd_cfg}"
    and "scan_and_bind e now (d, iw_gpio w') = (d', g')"
  shows "pin_level (iw_gpio w') (ip_pin1 (inp port)) \<and> pin_is_output (iw_gpio w') (ip_pin1 (inp port)) \<and>
    sn_port d' = sn_port d \<and> \<not> pin_level g' (ip_pin1 (inp port)) \<and> pin_is_output g' (ip_pin1 (inp port))"
proof -
  have "in_ok port" using assms(3,4) by (simp add: in_ok_def EV3_IN_PORT_COUNT_def)
  from open_result [OF assms(1,2) this, of hz bus] assms(5)
  have up: "pin_level (iw_gpio w') (ip_pin1 (inp port))" "pin_is_output (iw_gpio w') (ip_pin1 (inp port))"
    "gpio_inv (iw_gpio w')" by (auto simp: wired_def bus_ok_def)
  have "cf_type_id (sn_cfg d) \<notin> {EV3_SENSOR_TYPE_NONE, EV3_SENSOR_TYPE_EV3_TOUCH}"
    using assms(7) by (auto simp: colord_cfg_def gyrod_cfg_def ird_cfg_def ultrasonicd_cfg_def detect_consts)
  from find_uart_none [OF this]
  have "sn_port d' = sn_port d \<and> g' = ev3_sensor_power_ports (iw_gpio w')"
    using assms(6,8) by (cases "sn_adc_fd d < 0") (auto simp: scan_and_bind_def Let_def EV3_SENSOR_PORT_NONE_def)
  with up power_ports_low [OF up(3) assms(3,4)] show ?thesis by simp
qed

theorem scan_cuts_nxt_supply_witness:
  "\<exists>bus' w' d' g'. ev3_i2c_gpio_open (\<lambda>_ g. g) 1 9600 demo_bus demo_wires = (0, bus', w') \<and>
     scan_and_bind idle_env 1000 (live_daemon, iw_gpio w') = (d', g') \<and> pin_level (iw_gpio w') 140 \<and> \<not> pin_level g' 140"
proof -
  have pd: "spares_pin1 (\<lambda>_ g. g)" by (simp add: spares_pin1_def)
  have g: "gpio_inv (iw_gpio demo_wires)" using demo_wired by (simp add: wired_def bus_ok_def)
  obtain bus' w' where o: "ev3_i2c_gpio_open (\<lambda>_ g. g) 1 9600 demo_bus demo_wires = (0, bus', w')"
    using open_result [OF pd g, of 1 9600 demo_bus] by (auto simp: in_ok_def EV3_IN_PORT_COUNT_def)
  obtain d' g' where s: "scan_and_bind idle_env 1000 (live_daemon, iw_gpio w') = (d', g')" by fastforce
  have "sn_pinned live_daemon < 0" "sn_cfg live_daemon \<in> {colord_cfg, gyrod_cfg, ird_cfg, ultrasonicd_cfg}"
    by (simp_all add: live_daemon_def)
  from scan_cuts_nxt_supply [OF pd g _ _ o this s] have "pin_level (iw_gpio w') 140 \<and> \<not> pin_level g' 140"
    by (simp add: in_ports_def)
  with o s show ?thesis by blast
qed

end
