(* ===== verification/Ev3_Led.thy ===== *)
theory Ev3_Led
  imports Ev3_Port
begin

text \<open>
  The status LEDs of the EV3: the pin layer (\<^verbatim>\<open>src/lego.ev3/system/libs/arch_ev3/src/led.c\<close>) and the daemon
  (\<^verbatim>\<open>src/lego.ev3/system/drivers/ledd/ledd.c\<close>) with its binary and shell interfaces and its animations.

  The daemon's variables are the record \<open>ledd\<close>, paired with the GPIO state; the clock reading of a call is
  an argument. A request buffer is \<open>None\<close> when the caller passes none or the message is too short. A
  LED is on when its value is not zero.
\<close>

section \<open>Pins\<close>

definition EV3_LED_LEFT :: int where "EV3_LED_LEFT = 0"
definition EV3_LED_RIGHT :: int where "EV3_LED_RIGHT = 1"
definition EV3_LED_SIDE_COUNT :: int where "EV3_LED_SIDE_COUNT = 2"
definition EV3_LED_GREEN :: int where "EV3_LED_GREEN = 0"
definition EV3_LED_RED :: int where "EV3_LED_RED = 1"
definition EV3_LED_COLOR_COUNT :: int where "EV3_LED_COLOR_COUNT = 2"

lemmas led_consts = EV3_LED_LEFT_def EV3_LED_RIGHT_def EV3_LED_SIDE_COUNT_def EV3_LED_GREEN_def
  EV3_LED_RED_def EV3_LED_COLOR_COUNT_def

definition led_pins :: "int list list" where
  "led_pins = [[103, 109], [110, 108]]"

definition led_pin :: "int \<Rightarrow> int \<Rightarrow> int" where
  "led_pin side color = led_pins ! nat side ! nat color"

text \<open>The order in which the nested loops over sides and colours visit the LEDs.\<close>

definition led_order :: "(int \<times> int) list" where
  "led_order = List.product [0..EV3_LED_SIDE_COUNT - 1] [0..EV3_LED_COLOR_COUNT - 1]"

definition write_raw :: "int \<Rightarrow> int \<Rightarrow> int \<Rightarrow> gpio_state \<Rightarrow> gpio_state" where
  "write_raw side color on g = ev3_gpio_write (led_pin side color) (on \<noteq> 0) g"

definition ev3_led_init :: "gpio_state \<Rightarrow> gpio_state" where
  "ev3_led_init g =
     fold (\<lambda>(s, c) g. write_raw s c 0 (ev3_gpio_config (led_pin s c) GPIO_OUTPUT g)) led_order g"

definition ev3_led_set :: "int \<Rightarrow> int \<Rightarrow> int \<Rightarrow> gpio_state \<Rightarrow> gpio_state" where
  "ev3_led_set side color on g =
     (if side < 0 \<or> side \<ge> EV3_LED_SIDE_COUNT then g
      else if color < 0 \<or> color \<ge> EV3_LED_COLOR_COUNT then g
      else write_raw side color on g)"

definition ev3_led_all_off :: "gpio_state \<Rightarrow> gpio_state" where
  "ev3_led_all_off g = fold (\<lambda>(s, c). write_raw s c 0) led_order g"

section \<open>State\<close>

definition LED_CNTL_SET :: int where "LED_CNTL_SET = 1"
definition LED_CNTL_GET :: int where "LED_CNTL_GET = 2"
definition LED_PATTERN_NONE :: int where "LED_PATTERN_NONE = 0"
definition LED_PATTERN_GREEN_PULSE :: int where "LED_PATTERN_GREEN_PULSE = 1"
definition LED_PATTERN_RED_PULSE :: int where "LED_PATTERN_RED_PULSE = 2"
definition LED_PATTERN_ORANGE :: int where "LED_PATTERN_ORANGE = 3"
definition LED_PATTERN_ALTERNATE :: int where "LED_PATTERN_ALTERNATE = 4"
definition LED_PATTERN_CYCLE :: int where "LED_PATTERN_CYCLE = 5"
definition PULSE_HALF_MS :: u64 where "PULSE_HALF_MS = 500"
definition PATTERN_STEP_MS :: u64 where "PATTERN_STEP_MS = 150"

lemmas pattern_consts = LED_PATTERN_NONE_def LED_PATTERN_GREEN_PULSE_def LED_PATTERN_RED_PULSE_def
  LED_PATTERN_ORANGE_def LED_PATTERN_ALTERNATE_def LED_PATTERN_CYCLE_def

record led_state =
  ls_left_green :: int
  ls_left_red :: int
  ls_right_green :: int
  ls_right_red :: int
  ls_blink_ms :: int
  ls_pattern :: int

definition led_state_zero :: led_state where
  "led_state_zero = \<lparr>ls_left_green = 0, ls_left_red = 0, ls_right_green = 0, ls_right_red = 0,
     ls_blink_ms = 0, ls_pattern = 0\<rparr>"

record ledd =
  ld_req :: led_state
  ld_lit :: "int list list"
  ld_anim_last :: u64
  ld_anim_step :: int
  ld_blink_on :: int

definition sizeof_led_state :: int where "sizeof_led_state = 24"

section \<open>Setting the LEDs\<close>

definition lit_put :: "int \<Rightarrow> int \<Rightarrow> int \<Rightarrow> ledd \<Rightarrow> ledd" where
  "lit_put s c v d = d\<lparr>ld_lit := (ld_lit d)[nat s := (ld_lit d ! nat s)[nat c := v]]\<rparr>"

definition apply_lit :: "ledd \<times> gpio_state \<Rightarrow> ledd \<times> gpio_state" where
  "apply_lit = (\<lambda>(d, g). (d, fold (\<lambda>(s, c). ev3_led_set s c (ld_lit d ! nat s ! nat c)) led_order g))"

definition lit_all :: "int \<Rightarrow> ledd \<Rightarrow> ledd" where
  "lit_all on d = fold (\<lambda>(s, c). lit_put s c on) led_order d"

definition lit_from_req :: "int \<Rightarrow> ledd \<Rightarrow> ledd" where
  "lit_from_req on d =
     (let r = ld_req d;
          d = lit_put EV3_LED_LEFT EV3_LED_GREEN (if on \<noteq> 0 \<and> ls_left_green r \<noteq> 0 then 1 else 0) d;
          d = lit_put EV3_LED_LEFT EV3_LED_RED (if on \<noteq> 0 \<and> ls_left_red r \<noteq> 0 then 1 else 0) d;
          d = lit_put EV3_LED_RIGHT EV3_LED_GREEN (if on \<noteq> 0 \<and> ls_right_green r \<noteq> 0 then 1 else 0) d
      in lit_put EV3_LED_RIGHT EV3_LED_RED (if on \<noteq> 0 \<and> ls_right_red r \<noteq> 0 then 1 else 0) d)"

text \<open>The clean-up \<^verbatim>\<open>set_state\<close> applies to a request.\<close>

definition normal_state :: "led_state \<Rightarrow> led_state" where
  "normal_state r =
     (let r = r\<lparr>ls_left_green := (if ls_left_green r \<noteq> 0 then 1 else 0)\<rparr>;
          r = r\<lparr>ls_left_red := (if ls_left_red r \<noteq> 0 then 1 else 0)\<rparr>;
          r = r\<lparr>ls_right_green := (if ls_right_green r \<noteq> 0 then 1 else 0)\<rparr>;
          r = r\<lparr>ls_right_red := (if ls_right_red r \<noteq> 0 then 1 else 0)\<rparr>;
          r = (if ls_blink_ms r < 0 then r\<lparr>ls_blink_ms := 0\<rparr> else r);
          r = (if ls_blink_ms r > 0 \<and> ls_blink_ms r < 20 then r\<lparr>ls_blink_ms := 20\<rparr> else r)
      in if ls_pattern r < LED_PATTERN_NONE \<or> ls_pattern r > LED_PATTERN_CYCLE
         then r\<lparr>ls_pattern := LED_PATTERN_NONE\<rparr> else r)"

definition led_set_state :: "u64 \<Rightarrow> led_state \<Rightarrow> ledd \<times> gpio_state \<Rightarrow> ledd \<times> gpio_state" where
  "led_set_state now st = (\<lambda>(d, g).
     let d = d\<lparr>ld_req := normal_state st, ld_anim_last := now, ld_anim_step := 0, ld_blink_on := 1\<rparr>;
         d = (if ls_pattern (ld_req d) = LED_PATTERN_NONE then lit_from_req 1 d
              else if ls_pattern (ld_req d) = LED_PATTERN_ORANGE then lit_all 1 d
              else lit_all 0 d)
     in apply_lit (d, g))"

definition led_get_state :: "ledd \<Rightarrow> led_state" where
  "led_get_state d =
     (let r = ld_req d; lit = (\<lambda>s c. ld_lit d ! nat s ! nat c)
      in if ls_pattern r \<noteq> LED_PATTERN_NONE
         then r\<lparr>ls_left_green := lit EV3_LED_LEFT EV3_LED_GREEN, ls_left_red := lit EV3_LED_LEFT EV3_LED_RED,
                ls_right_green := lit EV3_LED_RIGHT EV3_LED_GREEN, ls_right_red := lit EV3_LED_RIGHT EV3_LED_RED\<rparr>
         else r)"

section \<open>Clients\<close>

text \<open>A read returns how many bytes of the state were copied.\<close>

definition led_read :: "int \<Rightarrow> ledd \<Rightarrow> int \<times> led_state" where
  "led_read sz d = ((if sz > sizeof_led_state then sizeof_led_state else sz), led_get_state d)"

definition led_write :: "u64 \<Rightarrow> led_state option \<Rightarrow> int \<Rightarrow> ledd \<times> gpio_state \<Rightarrow> int \<times> ledd \<times> gpio_state" where
  "led_write now buf sz s =
     (case buf of
        None \<Rightarrow> (-1, s)
      | Some st \<Rightarrow> if sz < sizeof_led_state then (-1, s) else (sizeof_led_state, led_set_state now st s))"

definition led_dev_cntl ::
  "u64 \<Rightarrow> int \<Rightarrow> led_state option \<Rightarrow> ledd \<times> gpio_state \<Rightarrow> (int \<times> led_state option) \<times> ledd \<times> gpio_state" where
  "led_dev_cntl now cmd msg s =
     (if cmd = LED_CNTL_SET then
        (case msg of None \<Rightarrow> ((-1, None), s) | Some st \<Rightarrow> ((0, None), led_set_state now st s))
      else if cmd = LED_CNTL_GET then ((0, Some (led_get_state (fst s))), s)
      else ((-1, None), s))"

text \<open>The shell interface; what it prints is a value of \<open>led_text\<close>.\<close>

definition parse_side :: "string \<Rightarrow> int" where
  "parse_side s =
     (if s = ''left'' \<or> s = ''l'' then EV3_LED_LEFT
      else if s = ''right'' \<or> s = ''r'' then EV3_LED_RIGHT
      else if s = ''all'' \<or> s = ''both'' then -2 else -1)"

definition parse_color :: "string \<Rightarrow> int" where
  "parse_color s =
     (if s = ''green'' \<or> s = ''g'' then EV3_LED_GREEN
      else if s = ''red'' \<or> s = ''r'' then EV3_LED_RED
      else if s = ''both'' \<or> s = ''all'' then -2 else -1)"

definition req_field_put :: "int \<Rightarrow> int \<Rightarrow> int \<Rightarrow> led_state \<Rightarrow> led_state" where
  "req_field_put side color v st =
     (if side = EV3_LED_LEFT
      then (if color = EV3_LED_GREEN then st\<lparr>ls_left_green := v\<rparr> else st\<lparr>ls_left_red := v\<rparr>)
      else (if color = EV3_LED_GREEN then st\<lparr>ls_right_green := v\<rparr> else st\<lparr>ls_right_red := v\<rparr>))"

datatype led_text = LedUsage | LedSwitched string string string | LedBlink int | LedPattern int | LedStatus led_state

text \<open>The request a shell command makes, from the arguments and the current request; \<open>None\<close>: it makes none.\<close>

definition on_off_request :: "string list \<Rightarrow> led_state \<Rightarrow> (int \<times> int) \<times> led_state" where
  "on_off_request argv req =
     (let on = (if argv ! 0 = ''on'' then 1 else 0);
          side = (if length argv > 1 then parse_side (argv ! 1) else -2);
          color = (if length argv > 2 then parse_color (argv ! 2) else -2);
          side = (if side = -1 then -2 else side);
          color = (if color = -1 then -2 else color);
          st = req\<lparr>ls_pattern := LED_PATTERN_NONE, ls_blink_ms := 0\<rparr>
      in ((side, color),
          fold (\<lambda>(s, c) st. if side \<noteq> -2 \<and> side \<noteq> s then st
                            else if color \<noteq> -2 \<and> color \<noteq> c then st
                            else req_field_put s c on st) led_order st))"

definition blink_request :: "string list \<Rightarrow> led_state \<Rightarrow> led_state" where
  "blink_request argv req =
     (let period = (if length argv > 1 then atoi (argv ! 1) else 500);
          st = req\<lparr>ls_pattern := LED_PATTERN_NONE, ls_blink_ms := period sdiv 2\<rparr>
      in if ls_left_green st = 0 \<and> ls_left_red st = 0 \<and> ls_right_green st = 0 \<and> ls_right_red st = 0
         then st\<lparr>ls_left_green := 1, ls_right_green := 1\<rparr> else st)"

definition pattern_request :: "string list \<Rightarrow> led_state" where
  "pattern_request argv =
     led_state_zero\<lparr>ls_pattern := (if length argv > 1 then atoi (argv ! 1) else LED_PATTERN_GREEN_PULSE)\<rparr>"

definition led_cmd :: "u64 \<Rightarrow> string list \<Rightarrow> ledd \<times> gpio_state \<Rightarrow> led_text \<times> ledd \<times> gpio_state" where
  "led_cmd now argv s =
     (if argv = [] then (LedUsage, s)
      else if argv ! 0 = ''on'' \<or> argv ! 0 = ''off'' then
        let ((side, color), st) = on_off_request argv (ld_req (fst s))
        in (LedSwitched (argv ! 0) (if side = -2 then ''all'' else argv ! 1) (if color = -2 then ''both'' else argv ! 2),
            led_set_state now st s)
      else if argv ! 0 = ''blink'' then
        let s = led_set_state now (blink_request argv (ld_req (fst s))) s
        in (LedBlink (ls_blink_ms (ld_req (fst s))), s)
      else if argv ! 0 = ''pattern'' then
        let s = led_set_state now (pattern_request argv) s
        in (LedPattern (ls_pattern (ld_req (fst s))), s)
      else if argv ! 0 = ''status'' then (LedStatus (led_get_state (fst s)), s)
      else (LedUsage, s))"

section \<open>Animation\<close>

definition logical_not :: "int \<Rightarrow> int" where
  "logical_not v = (if v = 0 then 1 else 0)"

definition anim_step :: "u64 \<Rightarrow> ledd \<times> gpio_state \<Rightarrow> ledd \<times> gpio_state" where
  "anim_step now = (\<lambda>(d, g).
     let p = ls_pattern (ld_req d); since = now - ld_anim_last d in
     if p = LED_PATTERN_NONE then
       (if ls_blink_ms (ld_req d) > 0 \<and> since \<ge> word_of_int (ls_blink_ms (ld_req d)) then
          let d = d\<lparr>ld_anim_last := now, ld_blink_on := logical_not (ld_blink_on d)\<rparr>
          in apply_lit (lit_from_req (ld_blink_on d) d, g)
        else (d, g))
     else if p = LED_PATTERN_GREEN_PULSE \<or> p = LED_PATTERN_RED_PULSE then
       (if since \<ge> PULSE_HALF_MS then
          let d = d\<lparr>ld_anim_last := now, ld_blink_on := logical_not (ld_blink_on d)\<rparr>;
              c = (if p = LED_PATTERN_GREEN_PULSE then EV3_LED_GREEN else EV3_LED_RED);
              d = lit_all 0 d;
              d = lit_put EV3_LED_LEFT c (ld_blink_on d) d;
              d = lit_put EV3_LED_RIGHT c (ld_blink_on d) d
          in apply_lit (d, g)
        else (d, g))
     else if p = LED_PATTERN_ORANGE then (d, g)
     else if p = LED_PATTERN_ALTERNATE then
       (if since \<ge> PATTERN_STEP_MS * 2 then
          let d = d\<lparr>ld_anim_last := now, ld_anim_step := ld_anim_step d XOR 1\<rparr>;
              d = lit_all 0 d;
              d = lit_put (if ld_anim_step d \<noteq> 0 then EV3_LED_RIGHT else EV3_LED_LEFT) EV3_LED_GREEN 1 d
          in apply_lit (d, g)
        else (d, g))
     else if p = LED_PATTERN_CYCLE then
       (if since \<ge> PATTERN_STEP_MS * 3 then
          let d = d\<lparr>ld_anim_last := now, ld_anim_step := (ld_anim_step d + 1) mod 3\<rparr>;
              gr = (if ld_anim_step d \<noteq> 2 then 1 else 0);
              rd = (if ld_anim_step d \<noteq> 0 then 1 else 0);
              d = fold (\<lambda>s d. lit_put s EV3_LED_RED rd (lit_put s EV3_LED_GREEN gr d)) [0..EV3_LED_SIDE_COUNT - 1] d
          in apply_lit (d, g)
        else (d, g))
     else (d, g))"

definition led_main :: "gpio_state \<Rightarrow> ledd \<times> gpio_state" where
  "led_main g =
     apply_lit (\<lparr>ld_req = led_state_zero, ld_lit = [[0, 0], [0, 0]], ld_anim_last = 0, ld_anim_step = 0,
                 ld_blink_on = 1\<rparr>, ev3_led_init g)"

text \<open>What can happen to the daemon, with the clock at that moment.\<close>

datatype led_event = LedWrite u64 "led_state option" int | LedCntl u64 int "led_state option"
  | LedShell u64 "string list" | LedRound u64

fun led_handle :: "led_event \<Rightarrow> ledd \<times> gpio_state \<Rightarrow> ledd \<times> gpio_state" where
  "led_handle (LedWrite now buf sz) s = snd (led_write now buf sz s)"
| "led_handle (LedCntl now cmd msg) s = snd (led_dev_cntl now cmd msg s)"
| "led_handle (LedShell now argv) s = snd (led_cmd now argv s)"
| "led_handle (LedRound now) s = anim_step now s"

section \<open>Specification\<close>

text \<open>
  What the LEDs should show: a request and the number of animation steps since it was made determine the
  picture; a request starts a new picture, a round of the loop advances it once when the period of
  the request has passed.
\<close>

type_synonym led_spec = "led_state \<times> nat \<times> u64"

definition led_wanted :: "led_state \<Rightarrow> int \<Rightarrow> int \<Rightarrow> bool" where
  "led_wanted r s c =
     (if s = EV3_LED_LEFT then (if c = EV3_LED_GREEN then ls_left_green r else ls_left_red r) \<noteq> 0
      else (if c = EV3_LED_GREEN then ls_right_green r else ls_right_red r) \<noteq> 0)"

definition led_picture :: "led_state \<Rightarrow> nat \<Rightarrow> int \<Rightarrow> int \<Rightarrow> bool" where
  "led_picture r n s c =
     (if ls_pattern r = LED_PATTERN_NONE then led_wanted r s c \<and> even n
      else if ls_pattern r = LED_PATTERN_ORANGE then True
      else if n = 0 then False
      else if ls_pattern r = LED_PATTERN_GREEN_PULSE then c = EV3_LED_GREEN \<and> even n
      else if ls_pattern r = LED_PATTERN_RED_PULSE then c = EV3_LED_RED \<and> even n
      else if ls_pattern r = LED_PATTERN_ALTERNATE then c = EV3_LED_GREEN \<and> (s = EV3_LED_RIGHT \<longleftrightarrow> odd n)
      else if c = EV3_LED_GREEN then n mod 3 \<noteq> 2 else n mod 3 \<noteq> 0)"

definition led_period :: "led_state \<Rightarrow> u64 option" where
  "led_period r =
     (if ls_pattern r = LED_PATTERN_NONE then (if ls_blink_ms r > 0 then Some (word_of_int (ls_blink_ms r)) else None)
      else if ls_pattern r = LED_PATTERN_ORANGE then None
      else if ls_pattern r = LED_PATTERN_ALTERNATE then Some 300
      else if ls_pattern r = LED_PATTERN_CYCLE then Some 450
      else Some 500)"

definition led_spec_set :: "u64 \<Rightarrow> led_state \<Rightarrow> led_spec" where
  "led_spec_set now st = (normal_state st, 0, now)"

fun led_spec_tick :: "u64 \<Rightarrow> led_spec \<Rightarrow> led_spec" where
  "led_spec_tick now (r, n, since) =
     (case led_period r of
        None \<Rightarrow> (r, n, since)
      | Some p \<Rightarrow> if now - since \<ge> p then (r, Suc n, now) else (r, n, since))"

definition led_request :: "string list \<Rightarrow> led_state \<Rightarrow> led_state option" where
  "led_request argv r =
     (if argv = [] then None
      else if argv ! 0 = ''on'' \<or> argv ! 0 = ''off'' then Some (snd (on_off_request argv r))
      else if argv ! 0 = ''blink'' then Some (blink_request argv r)
      else if argv ! 0 = ''pattern'' then Some (pattern_request argv)
      else None)"

fun led_spec_handle :: "led_event \<Rightarrow> led_spec \<Rightarrow> led_spec" where
  "led_spec_handle (LedWrite now buf sz) a =
     (case buf of Some st \<Rightarrow> if sz < sizeof_led_state then a else led_spec_set now st | None \<Rightarrow> a)"
| "led_spec_handle (LedCntl now cmd msg) a =
     (case msg of Some st \<Rightarrow> if cmd = LED_CNTL_SET then led_spec_set now st else a | None \<Rightarrow> a)"
| "led_spec_handle (LedShell now argv) a =
     (case led_request argv (fst a) of Some st \<Rightarrow> led_spec_set now st | None \<Rightarrow> a)"
| "led_spec_handle (LedRound now) a = led_spec_tick now a"

section \<open>The daemon implements it\<close>

lemma led_order_eq: "led_order = [(0, 0), (0, 1), (1, 0), (1, 1)]"
  by (simp add: led_order_def led_consts upto.simps)

lemma led_pin_eq [simp]:
  "led_pin 0 0 = 103" "led_pin 0 1 = 109" "led_pin 1 0 = 110" "led_pin 1 1 = 108"
  by (simp_all add: led_pin_def led_pins_def)

lemma led_pin_valid [simp]: "valid_pin 103" "valid_pin 109" "valid_pin 110" "valid_pin 108"
  by (simp_all add: valid_pin_def MAX_GPIO_def)

definition led_matrix :: "(int \<Rightarrow> int \<Rightarrow> bool) \<Rightarrow> int list list" where
  "led_matrix f = map (\<lambda>s. map (\<lambda>c. of_bool (f s c)) [0, 1]) [0, 1]"

text \<open>The pins show a picture, and every other pin is as it was in \<open>g0\<close>.\<close>

definition led_pins_show :: "gpio_state \<Rightarrow> (int \<Rightarrow> int \<Rightarrow> bool) \<Rightarrow> gpio_state \<Rightarrow> bool" where
  "led_pins_show g0 f g \<longleftrightarrow> gpio_inv g \<and>
     (\<forall>(s, c) \<in> set led_order. pin_is_output g (led_pin s c) \<and> pin_level g (led_pin s c) = f s c) \<and>
     (\<forall>q. valid_pin q \<and> q \<notin> {103, 108, 109, 110} \<longrightarrow>
        pin_level g q = pin_level g0 q \<and> pin_is_output g q = pin_is_output g0 q)"

fun led_rel :: "gpio_state \<Rightarrow> ledd \<times> gpio_state \<Rightarrow> led_spec \<Rightarrow> bool" where
  "led_rel g0 (d, g) (r, n, since) \<longleftrightarrow>
     ld_req d = r \<and> ld_anim_last d = since \<and> ld_lit d = led_matrix (led_picture r n) \<and>
     (0 \<le> ls_pattern r \<and> ls_pattern r \<le> 5) \<and>
     (ls_pattern r \<le> 2 \<longrightarrow> ld_blink_on d = of_bool (even n)) \<and>
     (ls_pattern r = 4 \<longrightarrow> ld_anim_step d = of_bool (odd n)) \<and>
     (ls_pattern r = 5 \<longrightarrow> ld_anim_step d = int (n mod 3)) \<and>
     led_pins_show g0 (led_picture r n) g"

lemma apply_lit_shows:
  assumes "ld_lit d = led_matrix f" "led_pins_show g0 f' g"
  shows "fst (apply_lit (d, g)) = d" "led_pins_show g0 f (snd (apply_lit (d, g)))"
  using assms
  by (auto simp: apply_lit_def led_order_eq led_matrix_def led_pins_show_def ev3_led_set_def write_raw_def
      led_consts level_write)

lemma led_matrix_eq: "led_matrix f = [[of_bool (f 0 0), of_bool (f 0 1)], [of_bool (f 1 0), of_bool (f 1 1)]]"
  by (simp add: led_matrix_def)

lemma lit_put_simps [simp]:
  "ld_req (lit_put s c v d) = ld_req d" "ld_anim_last (lit_put s c v d) = ld_anim_last d"
  "ld_anim_step (lit_put s c v d) = ld_anim_step d" "ld_blink_on (lit_put s c v d) = ld_blink_on d"
  by (simp_all add: lit_put_def)

lemma lit_fills [simp]:
  "ld_req (lit_all v d) = ld_req d" "ld_anim_last (lit_all v d) = ld_anim_last d"
  "ld_anim_step (lit_all v d) = ld_anim_step d" "ld_blink_on (lit_all v d) = ld_blink_on d"
  "ld_req (lit_from_req v d) = ld_req d" "ld_anim_last (lit_from_req v d) = ld_anim_last d"
  "ld_anim_step (lit_from_req v d) = ld_anim_step d" "ld_blink_on (lit_from_req v d) = ld_blink_on d"
  by (simp_all add: lit_all_def lit_from_req_def led_order_eq Let_def)

lemma lit_put_lit:
  "ld_lit d = [[a, b], [c, e]] \<Longrightarrow> ld_lit (lit_put 0 0 v d) = [[v, b], [c, e]]"
  "ld_lit d = [[a, b], [c, e]] \<Longrightarrow> ld_lit (lit_put 0 1 v d) = [[a, v], [c, e]]"
  "ld_lit d = [[a, b], [c, e]] \<Longrightarrow> ld_lit (lit_put 1 0 v d) = [[a, b], [v, e]]"
  "ld_lit d = [[a, b], [c, e]] \<Longrightarrow> ld_lit (lit_put 1 1 v d) = [[a, b], [c, v]]"
  by (simp_all add: lit_put_def)

lemma lit_all_lit: "ld_lit d = [[a, b], [c, e]] \<Longrightarrow> ld_lit (lit_all v d) = [[v, v], [v, v]]"
  by (simp add: lit_all_def led_order_eq lit_put_lit)

lemma lit_from_req_lit:
  "ld_lit d = [[a, b], [c, e]] \<Longrightarrow> ld_lit (lit_from_req v d) = led_matrix (\<lambda>s c. v \<noteq> 0 \<and> led_wanted (ld_req d) s c)"
  by (simp add: lit_from_req_def Let_def led_matrix_eq led_wanted_def led_consts lit_put_lit)

lemma normal_pattern: "0 \<le> ls_pattern (normal_state st) \<and> ls_pattern (normal_state st) \<le> 5"
  by (simp add: normal_state_def Let_def pattern_consts)

text \<open>An update of the variables followed by \<open>apply_lit\<close>.\<close>

lemma apply_rel:
  assumes "ld_req d = r" "ld_anim_last d = since" "ld_lit d = led_matrix (led_picture r n)"
    "0 \<le> ls_pattern r \<and> ls_pattern r \<le> 5" "ls_pattern r \<le> 2 \<longrightarrow> ld_blink_on d = of_bool (even n)"
    "ls_pattern r = 4 \<longrightarrow> ld_anim_step d = of_bool (odd n)" "ls_pattern r = 5 \<longrightarrow> ld_anim_step d = int (n mod 3)"
    "led_pins_show g0 f g"
  shows "led_rel g0 (apply_lit (d, g)) (r, n, since)"
  using assms apply_lit_shows [OF assms(3,8)] by (cases "apply_lit (d, g)") simp

lemma set_rel:
  assumes "led_rel g0 s a"
  shows "led_rel g0 (led_set_state now st s) (led_spec_set now st)"
proof -
  obtain d g r n since where s: "s = (d, g)" "a = (r, n, since)" by (metis prod.exhaust)
  define d1 where "d1 = d\<lparr>ld_req := normal_state st, ld_anim_last := now, ld_anim_step := 0, ld_blink_on := 1\<rparr>"
  define d2 where "d2 = (if ls_pattern (ld_req d1) = LED_PATTERN_NONE then lit_from_req 1 d1
      else if ls_pattern (ld_req d1) = LED_PATTERN_ORANGE then lit_all 1 d1 else lit_all 0 d1)"
  have sh: "ld_lit d1 = led_matrix (led_picture r n)" "led_pins_show g0 (led_picture r n) g"
    using assms s by (simp_all add: d1_def)
  have "ld_lit d2 = led_matrix (led_picture (normal_state st) 0)"
    using lit_all_lit [of d1] lit_from_req_lit [of d1] sh(1) unfolding d2_def led_matrix_eq
    by (auto simp: led_picture_def d1_def pattern_consts)
  then have "led_rel g0 (apply_lit (d2, g)) (normal_state st, 0, now)"
    using sh(2) normal_pattern by (intro apply_rel) (simp_all add: d2_def d1_def)
  moreover have "led_set_state now st s = apply_lit (d2, g)"
    by (simp add: s led_set_state_def d2_def d1_def Let_def)
  ultimately show ?thesis by (simp add: led_spec_set_def)
qed

text \<open>The animation step, as the update of the variables that it shows.\<close>

definition anim_vars :: "u64 \<Rightarrow> ledd \<Rightarrow> ledd" where
  "anim_vars now d =
     (let p = ls_pattern (ld_req d); d = d\<lparr>ld_anim_last := now\<rparr>;
          t = d\<lparr>ld_blink_on := logical_not (ld_blink_on d)\<rparr>;
          x = d\<lparr>ld_anim_step := ld_anim_step d XOR 1\<rparr>;
          y = d\<lparr>ld_anim_step := (ld_anim_step d + 1) mod 3\<rparr>
      in if p = 0 then lit_from_req (ld_blink_on t) t
         else if p = 1 \<or> p = 2 then
           lit_put 1 (if p = 1 then 0 else 1) (ld_blink_on t) (lit_put 0 (if p = 1 then 0 else 1) (ld_blink_on t) (lit_all 0 t))
         else if p = 4 then lit_put (if ld_anim_step x \<noteq> 0 then 1 else 0) 0 1 (lit_all 0 x)
         else fold (\<lambda>s d. lit_put s 1 (if ld_anim_step y \<noteq> 0 then 1 else 0)
                            (lit_put s 0 (if ld_anim_step y \<noteq> 2 then 1 else 0) d)) [0, 1] y)"

lemma anim_step_eq:
  assumes "0 \<le> ls_pattern (ld_req d)" "ls_pattern (ld_req d) \<le> 5"
  shows "anim_step now (d, g) =
    (case led_period (ld_req d) of
       None \<Rightarrow> (d, g)
     | Some p \<Rightarrow> if now - ld_anim_last d \<ge> p then apply_lit (anim_vars now d, g) else (d, g))"
proof -
  have "ls_pattern (ld_req d) \<in> {0, 1, 2, 3, 4, 5}" using assms by auto
  then show ?thesis
    by (auto simp: anim_step_def anim_vars_def led_period_def pattern_consts led_consts Let_def PULSE_HALF_MS_def
        PATTERN_STEP_MS_def upto.simps)
qed

lemma anim_vars_fields [simp]: "ld_req (anim_vars now d) = ld_req d" "ld_anim_last (anim_vars now d) = now"
  by (simp_all add: anim_vars_def Let_def)

lemma anim_vars_step:
  assumes "led_rel g0 (d, g) (r, n, since)" "led_period r \<noteq> None"
  shows "ld_lit (anim_vars now d) = led_matrix (led_picture r (Suc n))" (is ?lit)
    "ls_pattern r \<le> 2 \<longrightarrow> ld_blink_on (anim_vars now d) = of_bool (even (Suc n))"
    "ls_pattern r = 4 \<longrightarrow> ld_anim_step (anim_vars now d) = of_bool (odd (Suc n))"
    "ls_pattern r = 5 \<longrightarrow> ld_anim_step (anim_vars now d) = int (Suc n mod 3)"
proof -
  have "ls_pattern r \<noteq> 3" using assms(2) by (auto simp: led_period_def pattern_consts)
  moreover have "0 \<le> ls_pattern r" "ls_pattern r \<le> 5" using assms(1) by auto
  ultimately have p: "ls_pattern r \<in> {0, 1, 2, 4, 5}" by auto
  have r: "ld_req d = r" "ld_lit d = led_matrix (led_picture r n)" using assms(1) by auto
  note l = r(2) [unfolded led_matrix_eq]
  have all: "ld_lit (lit_all 0 (d\<lparr>ld_anim_last := t, ld_blink_on := b\<rparr>)) = [[0, 0], [0, 0]]"
    "ld_lit (lit_all 0 (d\<lparr>ld_anim_last := t, ld_anim_step := x\<rparr>)) = [[0, 0], [0, 0]]" for t b x
    using lit_all_lit [of "d\<lparr>ld_anim_last := t, ld_blink_on := b\<rparr>"]
      lit_all_lit [of "d\<lparr>ld_anim_last := t, ld_anim_step := x\<rparr>"] l by simp_all
  have "ls_pattern r = 0 \<Longrightarrow> ?lit"
    using assms(1) l by (simp add: anim_vars_def Let_def lit_from_req_lit led_matrix_eq led_picture_def logical_not_def pattern_consts)
  moreover have "ls_pattern r = 1 \<or> ls_pattern r = 2 \<Longrightarrow> ?lit"
    using assms(1) by (auto simp: anim_vars_def Let_def led_matrix_eq led_picture_def logical_not_def pattern_consts
        led_consts all lit_put_lit [OF all(1)] lit_put_def)
  moreover have "ls_pattern r = 4 \<Longrightarrow> ?lit"
    using assms(1) by (auto simp: anim_vars_def Let_def led_matrix_eq led_picture_def pattern_consts led_consts all
        lit_put_def)
  moreover have "ls_pattern r = 5 \<Longrightarrow> ?lit"
    using assms(1) l by (auto simp: anim_vars_def Let_def led_matrix_eq led_picture_def pattern_consts led_consts
        lit_put_def mod_Suc)
  ultimately show ?lit using p by auto
  show "ls_pattern r \<le> 2 \<longrightarrow> ld_blink_on (anim_vars now d) = of_bool (even (Suc n))"
    using p assms(1) by (auto simp: anim_vars_def Let_def logical_not_def)
  show "ls_pattern r = 4 \<longrightarrow> ld_anim_step (anim_vars now d) = of_bool (odd (Suc n))"
    using p assms(1) by (auto simp: anim_vars_def Let_def)
  show "ls_pattern r = 5 \<longrightarrow> ld_anim_step (anim_vars now d) = int (Suc n mod 3)"
    using p assms(1) by (auto simp: anim_vars_def Let_def zmod_int add.commute mod_simps)
qed

lemma tick_rel:
  assumes "led_rel g0 s a"
  shows "led_rel g0 (anim_step now s) (led_spec_tick now a)"
proof -
  obtain d g r n since where s: "s = (d, g)" "a = (r, n, since)" by (metis prod.exhaust)
  have rel: "led_rel g0 (d, g) (r, n, since)" using assms s by simp
  then have r: "ld_req d = r" "ld_anim_last d = since" "0 \<le> ls_pattern r" "ls_pattern r \<le> 5" by auto
  show ?thesis
  proof (cases "\<exists>p. led_period r = Some p \<and> now - since \<ge> p")
    case True
    then have "led_rel g0 (apply_lit (anim_vars now d, g)) (r, Suc n, now)"
      using anim_vars_step [OF rel, of now] rel r by (intro apply_rel) auto
    with True r s show ?thesis using anim_step_eq [of d now g] by auto
  next
    case False
    with rel r s show ?thesis using anim_step_eq [of d now g] by (auto split: option.split)
  qed
qed

lemma handle_rel:
  assumes "led_rel g0 s a"
  shows "led_rel g0 (led_handle e s) (led_spec_handle e a)"
proof -
  have "fst a = ld_req (fst s)" using assms by (cases s; cases a) auto
  with assms show ?thesis
    by (cases e) (auto simp: led_write_def led_dev_cntl_def led_cmd_def led_request_def set_rel tick_rel Let_def
        split: option.split prod.split)
qed

interpretation led: simulation "\<lambda>_. True" led_handle led_spec_handle "led_rel g0" for g0
  by unfold_locales (rule handle_rel)

lemma main_rel:
  assumes "gpio_inv g"
  shows "led_rel g (led_main g) (led_state_zero, 0, 0)"
proof -
  have "led_pins_show g (\<lambda>_ _. False) (ev3_led_init g)"
    using assms by (auto simp: ev3_led_init_def led_pins_show_def led_order_eq write_raw_def level_write config_level
        config_output)
  then show ?thesis
    unfolding led_main_def
    by (intro apply_rel)
       (simp_all add: led_matrix_eq led_picture_def led_wanted_def led_state_zero_def pattern_consts)
qed

text \<open>
  C9. The status LEDs always show what was asked for: after any sequence of writes, control messages, shell
  commands and rounds of the loop, the four LED pins are outputs that carry exactly the picture of
  the last accepted request after the number of animation steps its period allows, and no other
  pin of the controller has changed level or direction.
\<close>

theorem leds_show_request:
  assumes "gpio_inv g"
  shows "case (fold led_handle evs (led_main g), fold led_spec_handle evs (led_state_zero, 0, 0)) of
    ((d, h), (r, n, _)) \<Rightarrow> ld_req d = r \<and>
      (\<forall>(s, c) \<in> {0, 1} \<times> {0, 1}. pin_is_output h (led_pin s c) \<and> pin_level h (led_pin s c) = led_picture r n s c) \<and>
      (\<forall>q. valid_pin q \<and> q \<notin> {103, 108, 109, 110} \<longrightarrow>
         pin_level h q = pin_level g q \<and> pin_is_output h q = pin_is_output g q)"
  using led.rel_run [OF _ main_rel [OF assms], of evs]
  by (auto simp: list_all_iff led_pins_show_def led_order_eq split: prod.split)

theorem leds_show_request_witness:
  "\<exists>h. snd (fold led_handle [LedShell 7 [''on'', ''left'', ''red''], LedRound 9] (led_main demo_gpio)) = h \<and>
     pin_level h 109 \<and> \<not> pin_level h 108 \<and> \<not> pin_level h 103"
proof -
  have "fold led_spec_handle [LedShell 7 [''on'', ''left'', ''red''], LedRound 9] (led_state_zero, 0, 0) =
      (led_state_zero\<lparr>ls_left_red := 1\<rparr>, 0, 7)"
    by code_simp
  moreover have "gpio_inv demo_gpio" by (simp add: gpio_inv_def demo_gpio_def)
  ultimately show ?thesis
    using leds_show_request [of demo_gpio "[LedShell 7 [''on'', ''left'', ''red''], LedRound 9]"]
    by (auto simp: led_picture_def led_wanted_def led_state_zero_def pattern_consts led_consts
        simp del: fold_simps split: prod.splits)
qed

end
