(* ===== verification/Ev3_Touch.thy ===== *)
theory Ev3_Touch
  imports Ev3_Sensor_Dev
begin

text \<open>
  The touch sensor daemon (\<^verbatim>\<open>src/lego.ev3/system/drivers/touchd/touchd.c\<close>): finding the sensor by its
  identification voltage, sampling the switch, hot-plug with hysteresis, client requests.

  The variables are the record \<open>touchd\<close>, paired with the GPIO state. What a step reads from outside is
  the record \<open>touch_env\<close>: the clock, the ADC sample behind \<^verbatim>\<open>sample\<close> and the one each port examination
  reads (\<open>None\<close> when the read is short), and the result of opening the ADC device.
\<close>

section \<open>State\<close>

definition EV3_SENSOR_TYPE_NXT_TOUCH :: int where "EV3_SENSOR_TYPE_NXT_TOUCH = 1"
definition TOUCH_MODE_TOUCH :: int where "TOUCH_MODE_TOUCH = 0"
definition TOUCH_SCAN_MS :: int where "TOUCH_SCAN_MS = 200"
definition TOUCH_MISS_MAX :: int where "TOUCH_MISS_MAX = 8"

lemmas touch_consts = EV3_SENSOR_TYPE_NXT_TOUCH_def TOUCH_MODE_TOUCH_def TOUCH_SCAN_MS_def TOUCH_MISS_MAX_def
  EV3_SENSOR_PORT_NONE_def

record touchd =
  td_want :: int
  td_port :: int
  td_channel :: int
  td_channel_ovr :: int
  td_pinned :: int
  td_threshold :: int
  td_nxt :: bool
  td_miss :: int
  td_scan_ms :: u32
  td_adc_fd :: int
  td_data :: ev3_sensor_data
  td_wakeup :: bool

record touch_env =
  te_now :: u32
  te_tic :: int
  te_sample :: "u16 list option"
  te_detect :: "int \<Rightarrow> u16 list option"
  te_adc_fd :: int

type_synonym touch_state = "touchd \<times> gpio_state"

section \<open>Sampling and binding\<close>

definition touch_pressed :: "touchd \<Rightarrow> int \<Rightarrow> bool" where
  "touch_pressed d mv = (if td_nxt d then mv < td_threshold d else mv \<ge> td_threshold d)"

definition touch_sample :: "touch_env \<Rightarrow> touchd \<Rightarrow> touchd" where
  "touch_sample e d =
     (case (if td_adc_fd d < 0 then None else te_sample e) of
        None \<Rightarrow> d
      | Some adc \<Rightarrow>
          if td_channel d < 0 \<or> td_channel d \<ge> EV3_ADC_MAX_CH then d
          else
            let mv = uint (adc ! nat (td_channel d));
                pressed = (if touch_pressed d mv then 1 else 0);
                s = td_data d;
                d = (if mv \<noteq> sd_raw_mv s \<or> pressed \<noteq> sd_value s ! 0 then d\<lparr>td_wakeup := True\<rparr> else d)
            in d\<lparr>td_data := s\<lparr>sd_raw_mv := mv, sd_value := (sd_value s)[0 := pressed], sd_connected := True,
                   sd_timestamp_ms := te_tic e\<rparr>\<rparr>)"

definition touch_bind :: "int \<Rightarrow> touch_state \<Rightarrow> touch_state" where
  "touch_bind port = (\<lambda>(d, g).
     (d\<lparr>td_port := port,
        td_channel := (if td_channel_ovr d \<ge> 0 then td_channel_ovr d
                       else if td_nxt d then ev3_input_port_adc_channel_pin1 port
                       else ev3_input_port_adc_channel port),
        td_data := (td_data d)\<lparr>sd_port := port\<rparr>, td_miss := 0, td_wakeup := True\<rparr>,
      ev3_input_port_power port ev3_sensor_power_level g))"

definition touch_unbind :: "touchd \<Rightarrow> touchd" where
  "touch_unbind d =
     (let d = d\<lparr>td_port := EV3_SENSOR_PORT_NONE, td_channel := -1, td_miss := 0,
                td_data := (td_data d)\<lparr>sd_port := EV3_SENSOR_PORT_NONE\<rparr>\<rparr>;
          d = (if sd_connected (td_data d) \<or> sd_value (td_data d) ! 0 \<noteq> 0 then d\<lparr>td_wakeup := True\<rparr> else d)
      in d\<lparr>td_data := (td_data d)\<lparr>sd_connected := False, sd_value := (sd_value (td_data d))[0 := 0], sd_raw_mv := 0\<rparr>\<rparr>)"

definition touch_scan_and_bind :: "touch_env \<Rightarrow> u32 \<Rightarrow> touch_state \<Rightarrow> touch_state" where
  "touch_scan_and_bind e now = (\<lambda>(d, g).
     let d = d\<lparr>td_scan_ms := now\<rparr>;
         d = (if td_adc_fd d < 0 then d\<lparr>td_adc_fd := te_adc_fd e\<rparr> else d);
         g = ev3_sensor_power_ports g;
         port = (if td_pinned d \<ge> 0
                 then (if ev3_sensor_detect_port (td_adc_fd d) (td_pinned d) (te_detect e (td_pinned d)) = td_want d
                       then td_pinned d else EV3_SENSOR_PORT_NONE)
                 else ev3_sensor_find (td_adc_fd d) (td_want d) EV3_SENSOR_PORT_NONE (te_detect e))
     in if port \<ge> 0 then touch_bind port (d, g) else (d, g))"

section \<open>Clients\<close>

definition touch_read :: "int \<Rightarrow> touchd \<Rightarrow> int \<times> ev3_sensor_data option" where
  "touch_read sz d = (if sz < sizeof_data then (-1, None) else (sizeof_data, Some (td_data d)))"

definition touch_dev_cntl :: "int \<Rightarrow> touchd \<Rightarrow> int \<times> ev3_sensor_data option" where
  "touch_dev_cntl cmd d = (if cmd = EV3_SENSOR_CNTL_GET_DATA then (0, Some (td_data d)) else (-1, None))"

datatype touch_text = TouchScan bool | TouchSearching int | TouchInfo int int int int

definition touch_cmd :: "touch_env \<Rightarrow> string list \<Rightarrow> touch_state \<Rightarrow> touch_text \<times> touch_state" where
  "touch_cmd e argv s =
     (if length argv > 0 \<and> argv ! 0 = ''scan'' then
        let s = (if td_port (fst s) \<ge> 0 then (touch_unbind (fst s), snd s) else s);
            s = touch_scan_and_bind e (te_now e) s
        in (TouchScan (td_port (fst s) \<ge> 0), s)
      else if td_port (fst s) < 0 then (TouchSearching (td_want (fst s)), s)
      else (TouchInfo (td_port (fst s) + 1) (sd_value (td_data (fst s)) ! 0) (sd_raw_mv (td_data (fst s)))
              (td_threshold (fst s)), s))"

section \<open>The loop\<close>

text \<open>The hot-plug check of a bound daemon, when it is due.\<close>

definition touch_check :: "touch_env \<Rightarrow> u32 \<Rightarrow> touchd \<Rightarrow> touchd" where
  "touch_check e now d =
     (let d = d\<lparr>td_scan_ms := now\<rparr>
      in if ev3_sensor_detect_port (td_adc_fd d) (td_port d) (te_detect e (td_port d)) = td_want d
         then d\<lparr>td_miss := 0\<rparr>
         else
           let d = d\<lparr>td_miss := td_miss d + 1\<rparr>
           in if td_miss d \<ge> TOUCH_MISS_MAX then touch_unbind d else d)"

definition touch_loop :: "touch_env \<Rightarrow> touch_state \<Rightarrow> bool \<times> touch_state" where
  "touch_loop e = (\<lambda>(d, g).
     let now = te_now e;
         (d, g) =
           (if td_port d \<ge> 0 then
              let d = touch_sample e d
              in (if elapsed now (td_scan_ms d) \<ge> TOUCH_SCAN_MS then touch_check e now d else d, g)
            else if elapsed now (td_scan_ms d) \<ge> TOUCH_SCAN_MS then touch_scan_and_bind e now (d, g)
            else (d, g))
     in (td_wakeup d, d\<lparr>td_wakeup := False\<rparr>, g))"

text \<open>
  \<^verbatim>\<open>doargs\<close> and \<^verbatim>\<open>main\<close> up to the first scan: the options leave \<open>pinned\<close>, \<open>channel_ovr\<close>, \<open>threshold\<close> and \<open>nxt\<close> in
  the variables (-1, -1, 2500 and no without options).
\<close>

definition touch_main :: "touch_env \<Rightarrow> int \<Rightarrow> int \<Rightarrow> int \<Rightarrow> bool \<Rightarrow> gpio_state \<Rightarrow> touch_state" where
  "touch_main e pinned channel_ovr threshold nxt g =
     (let pinned = (if pinned < -1 \<or> pinned \<ge> EV3_IN_PORT_COUNT then -1 else pinned);
          want = (if nxt then EV3_SENSOR_TYPE_NXT_TOUCH else EV3_SENSOR_TYPE_EV3_TOUCH);
          dat = ev3_sensor_data_zero\<lparr>sd_type := want, sd_port := EV3_SENSOR_PORT_NONE,
                  sd_mode := TOUCH_MODE_TOUCH, sd_nvalues := 1\<rparr>;
          d = \<lparr>td_want = want, td_port = EV3_SENSOR_PORT_NONE, td_channel = -1, td_channel_ovr = channel_ovr,
               td_pinned = pinned, td_threshold = threshold, td_nxt = nxt, td_miss = 0, td_scan_ms = 0,
               td_adc_fd = te_adc_fd e, td_data = dat, td_wakeup = False\<rparr>
      in touch_scan_and_bind e (te_now e) (d, g))"

section \<open>Runs\<close>

inductive touch_step :: "touch_state \<Rightarrow> touch_state \<Rightarrow> bool" where
  touch_round: "touch_step s (snd (touch_loop e s))"
| touch_shell: "touch_step s (snd (touch_cmd e argv s))"
| touch_pins: "touch_step (d, g) (d, g')"

text \<open>The states the daemon may be in: the sample it publishes belongs to the port it is bound to.\<close>

definition touch_inv :: "touchd \<Rightarrow> bool" where
  "touch_inv d \<longleftrightarrow>
     -1 \<le> td_port d \<and> td_port d < EV3_IN_PORT_COUNT \<and> sd_port (td_data d) = td_port d \<and>
     length (sd_value (td_data d)) = 8 \<and> 0 \<le> td_miss d \<and> td_miss d < TOUCH_MISS_MAX \<and>
     td_want d = (if td_nxt d then EV3_SENSOR_TYPE_NXT_TOUCH else EV3_SENSOR_TYPE_EV3_TOUCH) \<and>
     -1 \<le> td_pinned d \<and> td_pinned d < EV3_IN_PORT_COUNT \<and>
     (if sd_connected (td_data d)
      then 0 \<le> td_port d \<and> sd_value (td_data d) ! 0 = (if touch_pressed d (sd_raw_mv (td_data d)) then 1 else 0)
      else sd_value (td_data d) ! 0 = 0 \<and> sd_raw_mv (td_data d) = 0)"

lemma find_from_result:
  "find_from ps fd want skip uart samples = EV3_SENSOR_PORT_NONE \<or>
   find_from ps fd want skip uart samples \<in> set ps \<and>
     ev3_sensor_detect_port fd (find_from ps fd want skip uart samples) (samples (find_from ps fd want skip uart samples)) = want"
  by (induction ps) auto

lemma find_result:
  assumes "ev3_sensor_find fd want skip samples = p" "0 \<le> p"
  shows "p < EV3_IN_PORT_COUNT" "ev3_sensor_detect_port fd p (samples p) = want"
  using assms find_from_result [of "[0, 1, 2, 3]" fd want skip False samples]
  by (auto simp: ev3_sensor_find_def find_common_def EV3_IN_PORT_COUNT_def EV3_SENSOR_PORT_NONE_def
      simp del: find_from.simps split: if_splits)

text \<open>A scan either leaves the daemon unbound, or binds a port on which the wanted type answered.\<close>

lemma touch_scan_result:
  assumes "touch_scan_and_bind e now (d, g) = (d', g')" "td_port d = -1" "td_pinned d < EV3_IN_PORT_COUNT"
  shows "td_port d' = -1 \<and> d' = d\<lparr>td_scan_ms := now, td_adc_fd := td_adc_fd d'\<rparr> \<or>
    0 \<le> td_port d' \<and> td_port d' < EV3_IN_PORT_COUNT \<and>
    ev3_sensor_detect_port (td_adc_fd d') (td_port d') (te_detect e (td_port d')) = td_want d \<and>
    d' = fst (touch_bind (td_port d') (d\<lparr>td_scan_ms := now, td_adc_fd := td_adc_fd d'\<rparr>, g'))"
  using assms find_result
  by (auto simp: touch_scan_and_bind_def touch_bind_def Let_def touch_consts split: if_splits)

lemma touch_sample_fields [simp]:
  "td_port (touch_sample e d) = td_port d" "td_scan_ms (touch_sample e d) = td_scan_ms d"
  "td_adc_fd (touch_sample e d) = td_adc_fd d" "td_want (touch_sample e d) = td_want d"
  "td_miss (touch_sample e d) = td_miss d" "td_nxt (touch_sample e d) = td_nxt d"
  by (simp_all add: touch_sample_def Let_def split: option.split)

lemma touch_unbind_fields [simp]:
  "td_port (touch_unbind d) = -1" "td_scan_ms (touch_unbind d) = td_scan_ms d"
  "td_nxt (touch_unbind d) = td_nxt d" "td_pinned (touch_unbind d) = td_pinned d"
  by (simp_all add: touch_unbind_def Let_def touch_consts)

lemma touch_inv_upd [simp]:
  "touch_inv (d\<lparr>td_wakeup := w\<rparr>) = touch_inv d" "touch_inv (d\<lparr>td_scan_ms := t\<rparr>) = touch_inv d"
  "touch_inv (d\<lparr>td_adc_fd := fd\<rparr>) = touch_inv d"
  by (simp_all add: touch_inv_def touch_pressed_def)

lemma touch_sample_inv:
  assumes "touch_inv d" "0 \<le> td_port d"
  shows "touch_inv (touch_sample e d)"
proof -
  have "touch_inv (d\<lparr>td_wakeup := w, td_data := (td_data d)\<lparr>sd_raw_mv := mv,
      sd_value := (sd_value (td_data d))[0 := (if touch_pressed d mv then 1 else 0)], sd_connected := True,
      sd_timestamp_ms := t\<rparr>\<rparr>)" for w mv t
    using assms by (simp add: touch_inv_def touch_pressed_def)
  moreover obtain w mv t where "touch_sample e d = d \<or> touch_sample e d = d\<lparr>td_wakeup := w,
      td_data := (td_data d)\<lparr>sd_raw_mv := mv, sd_value := (sd_value (td_data d))[0 := (if touch_pressed d mv then 1 else 0)],
      sd_connected := True, sd_timestamp_ms := t\<rparr>\<rparr>"
    by (rule that [where w = "td_wakeup (touch_sample e d)" and mv = "sd_raw_mv (td_data (touch_sample e d))" and t = "te_tic e"])
       (simp add: touch_sample_def Let_def split: option.split)
  ultimately show ?thesis using assms(1) by auto
qed

lemma touch_unbind_inv: "touch_inv (d\<lparr>td_miss := 0\<rparr>) \<Longrightarrow> touch_inv (touch_unbind d)"
  by (simp add: touch_inv_def touch_unbind_def Let_def touch_consts EV3_IN_PORT_COUNT_def)

lemma touch_check_inv:
  assumes "touch_inv d"
  shows "touch_inv (touch_check e now d)"
proof -
  have "touch_inv (d\<lparr>td_scan_ms := now, td_miss := 0\<rparr>)" using assms by (simp add: touch_inv_def touch_pressed_def touch_consts)
  moreover from this have "touch_inv (touch_unbind (d\<lparr>td_scan_ms := now, td_miss := td_miss d + 1\<rparr>))"
    by (intro touch_unbind_inv) simp
  moreover have "td_miss d + 1 < TOUCH_MISS_MAX \<Longrightarrow> touch_inv (d\<lparr>td_scan_ms := now, td_miss := td_miss d + 1\<rparr>)"
    using assms by (simp add: touch_inv_def touch_pressed_def)
  ultimately show ?thesis by (simp add: touch_check_def Let_def)
qed

lemma touch_scan_inv:
  assumes "touch_inv d" "td_port d = -1"
  shows "touch_inv (fst (touch_scan_and_bind e now (d, g)))"
proof -
  obtain d' g' where s: "touch_scan_and_bind e now (d, g) = (d', g')" by fastforce
  have "td_pinned d < EV3_IN_PORT_COUNT" using assms(1) by (simp add: touch_inv_def)
  from touch_scan_result [OF s assms(2) this] consider "d' = d\<lparr>td_scan_ms := now, td_adc_fd := td_adc_fd d'\<rparr>"
    | "0 \<le> td_port d'" "td_port d' < EV3_IN_PORT_COUNT"
      "d' = fst (touch_bind (td_port d') (d\<lparr>td_scan_ms := now, td_adc_fd := td_adc_fd d'\<rparr>, g'))" by blast
  then show ?thesis
  proof cases
    case 1
    then have "touch_inv d'" using assms(1) touch_inv_upd(2,3) by metis
    then show ?thesis using s by simp
  next
    case 2
    have "touch_inv (fst (touch_bind p (d\<lparr>td_scan_ms := t, td_adc_fd := fd\<rparr>, h)))" if "0 \<le> p" "p < EV3_IN_PORT_COUNT" for p t fd h
      using that assms by (auto simp: touch_bind_def touch_inv_def touch_pressed_def touch_consts)
    with 2 have "touch_inv d'" by metis
    then show ?thesis using s by simp
  qed
qed

lemma touch_loop_inv: "touch_inv d \<Longrightarrow> touch_inv (fst (snd (touch_loop e (d, g))))"
proof -
  assume i: "touch_inv d"
  have "touch_inv (touch_check e t (touch_sample e d))" "touch_inv (touch_sample e d)" if "0 \<le> td_port d" for t
    using i that by (simp_all add: touch_check_inv touch_sample_inv)
  moreover have "td_port d = -1" if "\<not> 0 \<le> td_port d" using i that by (simp add: touch_inv_def)
  ultimately show ?thesis
    using i touch_scan_inv [of d e "te_now e" g] by (auto simp: touch_loop_def Let_def split: prod.split)
qed

lemma touch_cmd_inv: "touch_inv d \<Longrightarrow> touch_inv (fst (snd (touch_cmd e argv (d, g))))"
proof -
  assume i: "touch_inv d"
  have "touch_inv (touch_unbind d)" using i by (intro touch_unbind_inv) (simp add: touch_inv_def touch_pressed_def touch_consts)
  moreover have "td_port d = -1" if "\<not> 0 \<le> td_port d" using i that by (simp add: touch_inv_def)
  ultimately show ?thesis
    using i touch_scan_inv [of d e "te_now e" g] touch_scan_inv [of "touch_unbind d" e "te_now e" g]
    by (simp add: touch_cmd_def Let_def)
qed

lemma touch_step_inv: "touch_inv (fst s) \<Longrightarrow> touch_step s t \<Longrightarrow> touch_inv (fst t)"
  by (cases s, erule touch_step.cases) (auto intro: touch_loop_inv touch_cmd_inv)

lemma touch_main_inv: "touch_inv (fst (touch_main e pinned ovr threshold nxt g))"
  unfolding touch_main_def Let_def
  by (rule touch_scan_inv) (simp_all add: touch_inv_def ev3_sensor_data_zero_def touch_consts EV3_IN_PORT_COUNT_def)

interpretation touch: transition_system
  "\<lambda>s. \<exists>e pinned ovr threshold nxt g. s = touch_main e pinned ovr threshold nxt g" touch_step "\<lambda>s. touch_inv (fst s)"
  by unfold_locales (use touch_main_inv touch_step_inv in auto)

section \<open>Properties\<close>

text \<open>
  The sample the touch daemon publishes is always consistent: in every reachable state the published
  port is the bound port, a connected sample has a bound port and says pressed exactly when its
  voltage is past the threshold (below it for an NXT sensor), and without a connection the value and
  the voltage are zero; the miss counter stays below its limit.
\<close>

theorem touch_reachable_safe:
  assumes "touch_step\<^sup>*\<^sup>* (touch_main e pinned ovr threshold nxt g) (d, h)"
  shows "sd_port (td_data d) = td_port d \<and> -1 \<le> td_port d \<and> td_port d < 4 \<and> 0 \<le> td_miss d \<and> td_miss d < 8 \<and>
    (if sd_connected (td_data d)
     then 0 \<le> td_port d \<and>
       sd_value (td_data d) ! 0 =
         (if (if td_nxt d then sd_raw_mv (td_data d) < td_threshold d else td_threshold d \<le> sd_raw_mv (td_data d))
          then 1 else 0)
     else sd_value (td_data d) ! 0 = 0 \<and> sd_raw_mv (td_data d) = 0)"
proof -
  have "touch_inv d" using touch.inv_steps [OF assms] touch_main_inv by simp
  then show ?thesis by (auto simp: touch_inv_def touch_pressed_def EV3_IN_PORT_COUNT_def TOUCH_MISS_MAX_def)
qed

definition demo_touch_env :: "u32 \<Rightarrow> u16 \<Rightarrow> u16 \<Rightarrow> touch_env" where
  "demo_touch_env now v mv =
     \<lparr>te_now = now, te_tic = 0, te_sample = Some ((replicate 16 5000)[5 := mv]),
      te_detect = (\<lambda>_. Some ((replicate 16 5000)[6 := v])), te_adc_fd = 3\<rparr>"

lemma demo_detect:
  "ev3_sensor_detect_port 3 0 (te_detect (demo_touch_env now 400 mv) 0) = EV3_SENSOR_TYPE_EV3_TOUCH"
  "ev3_sensor_detect_port 3 0 (te_detect (demo_touch_env now 5000 mv) 0) = EV3_SENSOR_TYPE_NONE"
  by (simp_all add: demo_touch_env_def) code_simp+

lemma demo_channel: "ev3_input_port_adc_channel 0 = 5"
  by code_simp

lemma demo_main:
  "fst (touch_main (demo_touch_env now 400 mv) 0 (-1) 2500 False g) =
     \<lparr>td_want = EV3_SENSOR_TYPE_EV3_TOUCH, td_port = 0, td_channel = 5, td_channel_ovr = -1, td_pinned = 0,
      td_threshold = 2500, td_nxt = False, td_miss = 0, td_scan_ms = now, td_adc_fd = 3,
      td_data = ev3_sensor_data_zero\<lparr>sd_type := EV3_SENSOR_TYPE_EV3_TOUCH, sd_port := 0, sd_mode := 0, sd_nvalues := 1\<rparr>,
      td_wakeup = True\<rparr>"
proof -
  have "te_adc_fd (demo_touch_env now 400 mv) = 3" "te_now (demo_touch_env now 400 mv) = now"
    by (simp_all add: demo_touch_env_def)
  then show ?thesis
    by (simp add: touch_main_def touch_scan_and_bind_def touch_bind_def demo_detect demo_channel EV3_IN_PORT_COUNT_def
        TOUCH_MODE_TOUCH_def Let_def)
qed

theorem touch_reachable_safe_witness:
  "\<exists>d h. touch_step\<^sup>*\<^sup>* (touch_main (demo_touch_env 50 400 3000) 0 (-1) 2500 False demo_gpio) (d, h) \<and>
     sd_connected (td_data d) \<and> sd_raw_mv (td_data d) = 3000 \<and> sd_value (td_data d) ! 0 = 1"
proof -
  define m where "m = touch_main (demo_touch_env 50 400 3000) 0 (-1) 2500 False demo_gpio"
  obtain d g where m: "m = (d, g)" by fastforce
  obtain x h where l: "snd (touch_loop (demo_touch_env 100 400 3000) m) = (x, h)" by fastforce
  have d: "d = fst (touch_main (demo_touch_env 50 400 3000) 0 (-1) 2500 False demo_gpio)" using m by (simp add: m_def)
  have x: "sd_connected (td_data x)" "sd_raw_mv (td_data x) = 3000" "\<not> td_nxt x" "td_threshold x = 2500"
    using l unfolding m touch_loop_def touch_sample_def d demo_main
    by (auto simp: demo_touch_env_def elapsed_def TOUCH_SCAN_MS_def EV3_ADC_MAX_CH_def ev3_sensor_data_zero_def
        touch_pressed_def Let_def)
  have "touch_step m (x, h)" using touch_round [of m] l by metis
  then have r: "touch_step\<^sup>*\<^sup>* m (x, h)" by (rule r_into_rtranclp)
  then show ?thesis using touch_reachable_safe [OF r [unfolded m_def]] x unfolding m_def by auto
qed

text \<open>With the NXT option no identification voltage is ever the wanted one, so nothing is bound.\<close>

lemma nxt_scan:
  assumes "touch_inv d" "td_nxt d" "td_port d = -1"
  shows "td_port (fst (touch_scan_and_bind e now (d, g))) = -1 \<and> td_nxt (fst (touch_scan_and_bind e now (d, g)))"
proof -
  obtain d' g' where s: "touch_scan_and_bind e now (d, g) = (d', g')" by fastforce
  have w: "td_want d = EV3_SENSOR_TYPE_NXT_TOUCH" "td_pinned d < EV3_IN_PORT_COUNT"
    using assms by (simp_all add: touch_inv_def)
  have "ev3_sensor_detect_port fd p x \<noteq> td_want d" for fd p x
    using detect_type [of fd p x] by (auto simp: w detect_consts touch_consts)
  with touch_scan_result [OF s assms(3) w(2)] have "td_port d' = -1" "d' = d\<lparr>td_scan_ms := now, td_adc_fd := td_adc_fd d'\<rparr>"
    by auto
  moreover have "td_nxt (d\<lparr>td_scan_ms := now, td_adc_fd := td_adc_fd d'\<rparr>) = td_nxt d" by simp
  ultimately show ?thesis using s assms(2) by (metis fst_conv)
qed

definition nxt_searching :: "touchd \<Rightarrow> bool" where
  "nxt_searching d \<longleftrightarrow> touch_inv d \<and> td_nxt d \<and> td_port d = -1"

lemma nxt_loop: "nxt_searching d \<Longrightarrow> nxt_searching (fst (snd (touch_loop e (d, g))))"
  using touch_loop_inv [of d e g] nxt_scan [of d e "te_now e" g]
  by (auto simp: nxt_searching_def touch_loop_def Let_def split: prod.splits)

lemma nxt_cmd: "nxt_searching d \<Longrightarrow> nxt_searching (fst (snd (touch_cmd e argv (d, g))))"
  using touch_cmd_inv [of d e argv g] nxt_scan [of d e "te_now e" g]
  by (auto simp: nxt_searching_def touch_cmd_def Let_def)

lemma nxt_main: "nxt_searching (fst (touch_main e pinned ovr threshold True g))"
proof -
  have "touch_inv (fst (touch_main e pinned ovr threshold True g))" by (rule touch_main_inv)
  then show ?thesis
    unfolding nxt_searching_def touch_main_def Let_def
    by (intro conjI nxt_scan [THEN conjunct1] nxt_scan [THEN conjunct2])
       (simp_all add: touch_inv_def ev3_sensor_data_zero_def touch_consts EV3_IN_PORT_COUNT_def)
qed

interpretation nxt_touch: transition_system
  "\<lambda>s. \<exists>e pinned ovr threshold g. s = touch_main e pinned ovr threshold True g" touch_step "\<lambda>s. nxt_searching (fst s)"
proof
  show "nxt_searching (fst s) \<Longrightarrow> touch_step s t \<Longrightarrow> nxt_searching (fst t)" for s t
    by (cases s, erule touch_step.cases) (auto intro: nxt_loop nxt_cmd)
qed (use nxt_main in auto)

text \<open>
  Started for an NXT touch sensor (option \<^verbatim>\<open>-n\<close>) the daemon never finds one: the type it looks for has no
  entry in the table of identification voltages, so whatever the ADC reads and however long it runs, no
  port is bound and every sample says not connected and not pressed.
\<close>

theorem nxt_touch_never_found:
  assumes "touch_step\<^sup>*\<^sup>* (touch_main e pinned ovr threshold True g) (d, h)"
  shows "td_port d = -1 \<and> \<not> sd_connected (td_data d) \<and> sd_value (td_data d) ! 0 = 0"
proof -
  have "nxt_searching d" using nxt_touch.inv_steps [OF assms] nxt_main by simp
  then show ?thesis by (auto simp: nxt_searching_def touch_inv_def split: if_splits)
qed

theorem nxt_touch_never_found_witness:
  "td_port (fst (snd (touch_loop (demo_touch_env 400 400 10)
     (touch_main (demo_touch_env 50 400 10) 0 (-1) 2500 True demo_gpio)))) = -1"
proof -
  let ?m = "touch_main (demo_touch_env 50 400 10) 0 (-1) 2500 True demo_gpio"
  let ?t = "snd (touch_loop (demo_touch_env 400 400 10) ?m)"
  have "touch_step ?m ?t" by (rule touch_round)
  then have "touch_step\<^sup>*\<^sup>* ?m (fst ?t, snd ?t)" by simp
  from nxt_touch_never_found [OF this] show ?thesis by (rule conjunct1)
qed

text \<open>How many of a series of rounds fall due for a port check, when the last check was at \<open>t\<close>.\<close>

fun due_count :: "u32 \<Rightarrow> u32 list \<Rightarrow> nat" where
  "due_count t [] = 0"
| "due_count t (n # ns) = (if elapsed n t \<ge> TOUCH_SCAN_MS then Suc (due_count n ns) else due_count t ns)"

definition touch_run :: "touch_env list \<Rightarrow> touch_state \<Rightarrow> touch_state" where
  "touch_run es s = fold (\<lambda>e s. snd (touch_loop e s)) es s"

definition touch_absent :: "touchd \<Rightarrow> touch_env \<Rightarrow> bool" where
  "touch_absent d e \<longleftrightarrow> ev3_sensor_detect_port (td_adc_fd d) (td_port d) (te_detect e (td_port d)) \<noteq> td_want d"

lemma idle_run:
  assumes "td_port d = -1" "due_count (td_scan_ms d) (map te_now es) = 0"
  shows "\<exists>w. fst (touch_run es (d, g)) = d\<lparr>td_wakeup := w\<rparr>"
  using assms
proof (induction es arbitrary: d)
  case Nil
  have "d = d\<lparr>td_wakeup := td_wakeup d\<rparr>" by simp
  then show ?case unfolding touch_run_def by (metis fold_simps(1) fst_conv)
next
  case (Cons e es)
  then have "snd (touch_loop e (d, g)) = (d\<lparr>td_wakeup := False\<rparr>, g)"
    by (simp add: touch_loop_def split: if_splits)
  moreover have "\<exists>w. fst (touch_run es (d\<lparr>td_wakeup := False\<rparr>, g)) = d\<lparr>td_wakeup := False, td_wakeup := w\<rparr>"
    using Cons.prems by (intro Cons.IH) (simp_all split: if_splits)
  ultimately show ?case by (simp add: touch_run_def)
qed

text \<open>One round of a bound daemon whose sensor does not answer.\<close>

lemma missed_round:
  assumes "td_port d = p" "0 \<le> p" "touch_absent d e"
  shows "\<exists>d'. snd (touch_loop e (d, g)) = (d', g) \<and>
    (if elapsed (te_now e) (td_scan_ms d) < TOUCH_SCAN_MS
     then td_port d' = p \<and> td_miss d' = td_miss d \<and> td_scan_ms d' = td_scan_ms d \<and>
       td_adc_fd d' = td_adc_fd d \<and> td_want d' = td_want d
     else td_scan_ms d' = te_now e \<and>
       (if td_miss d + 1 < TOUCH_MISS_MAX
        then td_port d' = p \<and> td_miss d' = td_miss d + 1 \<and> td_adc_fd d' = td_adc_fd d \<and> td_want d' = td_want d
        else td_port d' = -1))"
  using assms by (auto simp: touch_loop_def touch_check_def touch_absent_def Let_def)

lemma missed_run:
  assumes "td_port d = p" "0 \<le> p" "0 \<le> td_miss d" "td_miss d < 8" "\<forall>e \<in> set es. touch_absent d e"
    "int (due_count (td_scan_ms d) (map te_now es)) + td_miss d \<le> 8"
  shows "td_port (fst (touch_run es (d, g))) =
    (if int (due_count (td_scan_ms d) (map te_now es)) + td_miss d < 8 then p else -1)"
  using assms
proof (induction es arbitrary: d)
  case Nil
  then show ?case by (simp add: touch_run_def)
next
  case (Cons e es)
  obtain d' where r: "snd (touch_loop e (d, g)) = (d', g)" and
    c: "if elapsed (te_now e) (td_scan_ms d) < TOUCH_SCAN_MS
      then td_port d' = p \<and> td_miss d' = td_miss d \<and> td_scan_ms d' = td_scan_ms d \<and>
        td_adc_fd d' = td_adc_fd d \<and> td_want d' = td_want d
      else td_scan_ms d' = te_now e \<and>
        (if td_miss d + 1 < TOUCH_MISS_MAX
         then td_port d' = p \<and> td_miss d' = td_miss d + 1 \<and> td_adc_fd d' = td_adc_fd d \<and> td_want d' = td_want d
         else td_port d' = -1)"
    using missed_round [of d p e g] Cons.prems by auto
  have run: "touch_run (e # es) (d, g) = touch_run es (d', g)" by (simp add: touch_run_def r)
  have ab: "\<forall>x \<in> set es. touch_absent d' x" if "td_port d' = p" "td_adc_fd d' = td_adc_fd d" "td_want d' = td_want d"
    using Cons.prems that by (simp add: touch_absent_def)
  show ?case
  proof (cases "td_port d' = -1")
    case True
    then have e8: "\<not> elapsed (te_now e) (td_scan_ms d) < TOUCH_SCAN_MS" "\<not> td_miss d + 1 < 8" "td_scan_ms d' = te_now e"
      using c Cons.prems by (auto simp: TOUCH_MISS_MAX_def split: if_splits)
    then have "due_count (td_scan_ms d') (map te_now es) = 0" using Cons.prems by simp
    from idle_run [OF True this, of g] True e8 Cons.prems show ?thesis by (auto simp: run)
  next
    case False
    then have "td_port (fst (touch_run es (d', g))) =
        (if int (due_count (td_scan_ms d') (map te_now es)) + td_miss d' < 8 then p else -1)"
      using c Cons.prems ab by (intro Cons.IH) (auto simp: TOUCH_MISS_MAX_def split: if_splits)
    with False c show ?thesis by (auto simp: run split: if_splits)
  qed
qed

text \<open>
  A removed sensor is dropped after exactly eight port checks: while the sensor does not answer, a bound
  daemon keeps its port through any number of rounds in which fewer than eight checks fall due,
  and has released it when the eighth has been made. Checks fall due 200 ms after the previous one;
  rounds in between do not count.
\<close>

theorem touch_unplug_exact:
  assumes "td_port d = p" "0 \<le> p" "td_miss d = 0" "\<forall>e \<in> set es. touch_absent d e"
    "due_count (td_scan_ms d) (map te_now es) \<le> 8"
  shows "td_port (fst (touch_run es (d, g))) = (if due_count (td_scan_ms d) (map te_now es) < 8 then p else -1)"
  using missed_run [OF assms(1,2), of es g] assms(3-5) by simp

theorem touch_unplug_exact_witness:
  "let d = fst (touch_main (demo_touch_env 0 400 10) 0 (-1) 2500 False demo_gpio);
       rounds = (\<lambda>k. map (\<lambda>i. demo_touch_env (200 * of_nat (Suc i)) 5000 10) [0..<k])
   in td_port (fst (touch_run (rounds 7) (d, demo_gpio))) = 0 \<and> td_port (fst (touch_run (rounds 8) (d, demo_gpio))) = -1"
proof -
  define d where "d = fst (touch_main (demo_touch_env 0 400 10) 0 (-1) 2500 False demo_gpio)"
  define rounds where "rounds = (\<lambda>k. map (\<lambda>i. demo_touch_env (200 * of_nat (Suc i)) 5000 10) [0..<k])"
  have d: "td_port d = 0 \<and> td_miss d = 0 \<and> td_scan_ms d = 0 \<and> td_adc_fd d = 3 \<and> td_want d = EV3_SENSOR_TYPE_EV3_TOUCH"
    unfolding d_def demo_main by simp
  then have "list_all (touch_absent d) (rounds 8)"
    by (auto simp: list_all_iff rounds_def touch_absent_def demo_detect detect_consts)
  moreover have "due_count 0 (map te_now (rounds 7)) = 7" "due_count 0 (map te_now (rounds 8)) = 8"
    unfolding rounds_def by code_simp+
  moreover have "set (rounds 7) \<subseteq> set (rounds 8)" by (auto simp: rounds_def)
  ultimately have "td_port (fst (touch_run (rounds 7) (d, demo_gpio))) = 0"
    "td_port (fst (touch_run (rounds 8) (d, demo_gpio))) = -1"
    using touch_unplug_exact [of d 0 "rounds 7" demo_gpio] touch_unplug_exact [of d 0 "rounds 8" demo_gpio] d
    by (auto simp: list_all_iff)
  then show ?thesis unfolding Let_def d_def [symmetric] by (simp add: rounds_def)
qed

end
