(* ===== verification/Ev3_I2cd.thy ===== *)
theory Ev3_I2cd
  imports Ev3_I2c_Props
begin

text \<open>
  The generic I2C master daemon (\<^verbatim>\<open>src/lego.ev3/system/drivers/i2cd/i2cd.c\<close>) over the bit-banged bus: transfers on
  behalf of clients, bus speed, the shell commands.

  The variables are the record \<open>i2cd\<close>, paired with the \<open>i2c_world\<close>. The device on the bus and the shutdown of the
  soft UART are arguments. A transfer record has two arrays of 32 bytes, the lists \<open>ix_wdata\<close> and \<open>ix_rdata\<close>. The
  lines \<^verbatim>\<open>snprintf\<close> prints are values of \<open>i2c_text\<close>.
\<close>

section \<open>State\<close>

definition I2C_CNTL_XFER :: int where "I2C_CNTL_XFER = 1"
definition I2C_CNTL_INFO :: int where "I2C_CNTL_INFO = 2"
definition I2C_CNTL_SPEED :: int where "I2C_CNTL_SPEED = 3"
definition I2C_DEV_MAX_DATA :: int where "I2C_DEV_MAX_DATA = 32"

record i2c_xfer =
  ix_addr :: int
  ix_wlen :: int
  ix_rlen :: int
  ix_result :: int
  ix_wdata :: "u8 list"
  ix_rdata :: "u8 list"

record i2c_bus_info =
  ib_port :: int
  ib_hz :: int
  ib_xfers :: int
  ib_nacks :: int

record i2cd =
  ic_bus :: ev3_i2c_gpio
  ic_port :: int
  ic_hz :: int
  ic_xfers :: int
  ic_last :: i2c_xfer

type_synonym i2cd_state = "i2cd \<times> i2c_world"

definition i2c_xfer_zero :: i2c_xfer where
  "i2c_xfer_zero = \<lparr>ix_addr = 0, ix_wlen = 0, ix_rlen = 0, ix_result = 0, ix_wdata = replicate 32 0, ix_rdata = replicate 32 0\<rparr>"

definition sizeof_xfer :: int where "sizeof_xfer = 80"

section \<open>Transfers\<close>

definition do_xfer :: "i2c_slave \<Rightarrow> i2c_xfer \<Rightarrow> i2cd_state \<Rightarrow> i2c_xfer \<times> i2cd_state" where
  "do_xfer slave x = (\<lambda>(d, w).
     if ix_addr x < 0 \<or> ix_addr x > 0x7F \<or>
        ix_wlen x < 0 \<or> ix_wlen x > I2C_DEV_MAX_DATA \<or>
        ix_rlen x < 0 \<or> ix_rlen x > I2C_DEV_MAX_DATA \<or>
        (ix_wlen x = 0 \<and> ix_rlen x = 0)
     then (x\<lparr>ix_result := -1\<rparr>, d, w)
     else
       let (r, rbuf, bus, w) =
             ev3_i2c_gpio_xfer slave (word_of_int (ix_addr x))
               (if ix_wlen x > 0 then Some (ix_wdata x) else None) (ix_wlen x)
               (if ix_rlen x > 0 then Some (ix_rdata x) else None) (ix_rlen x) (ic_bus d) w;
           x = x\<lparr>ix_result := r, ix_rdata := (case rbuf of Some bs \<Rightarrow> bs | None \<Rightarrow> ix_rdata x)\<rparr>
       in (x, d\<lparr>ic_bus := bus, ic_xfers := wrap32 (ic_xfers d + 1)\<rparr>, w))"

definition i2c_fill_info :: "i2cd \<Rightarrow> i2c_bus_info" where
  "i2c_fill_info d = \<lparr>ib_port = ic_port d, ib_hz = ic_hz d, ib_xfers = ic_xfers d, ib_nacks = ig_nacks (ic_bus d)\<rparr>"

definition set_speed :: "(int \<Rightarrow> gpio_state \<Rightarrow> gpio_state) \<Rightarrow> int \<Rightarrow> i2cd_state \<Rightarrow> int \<times> i2cd_state" where
  "set_speed pd hz = (\<lambda>(d, w).
     let hz = (if hz \<le> 0 then EV3_I2C_GPIO_HZ_NXT else hz) in
     if hz > EV3_I2C_GPIO_HZ_MAX then (-1, d, w)
     else
       let (bus, w) = ev3_i2c_gpio_close (ic_bus d) w;
           (rc, bus, w) = ev3_i2c_gpio_open pd (ic_port d) hz bus w;
           d = d\<lparr>ic_bus := bus\<rparr>
       in if rc \<noteq> 0 then (-1, d, w) else (0, d\<lparr>ic_hz := hz\<rparr>, w))"

section \<open>Clients\<close>

definition i2c_read :: "int \<Rightarrow> i2cd \<Rightarrow> int \<times> i2c_xfer option" where
  "i2c_read sz d = (if sz < sizeof_xfer then (-1, None) else (sizeof_xfer, Some (ic_last d)))"

definition i2c_write :: "i2c_slave \<Rightarrow> i2c_xfer option \<Rightarrow> int \<Rightarrow> i2cd_state \<Rightarrow> int \<times> i2cd_state" where
  "i2c_write slave buf sz s =
     (case buf of
        None \<Rightarrow> (-1, s)
      | Some x \<Rightarrow>
          if sz < sizeof_xfer then (-1, s)
          else
            let (x, d, w) = do_xfer slave x s
            in (if ix_result x \<noteq> 0 then -1 else sizeof_xfer, d\<lparr>ic_last := x\<rparr>, w))"

datatype i2c_reply = CodeReply int | XferReply int i2c_xfer | InfoReply i2c_bus_info

text \<open>A control message carries the record its command expects, or is too short (\<open>None\<close>).\<close>

definition i2c_dev_cntl ::
  "i2c_slave \<Rightarrow> (int \<Rightarrow> gpio_state \<Rightarrow> gpio_state) \<Rightarrow> int \<Rightarrow> i2c_xfer option \<Rightarrow> i2c_bus_info option \<Rightarrow> i2cd_state \<Rightarrow>
     i2c_reply \<times> i2cd_state" where
  "i2c_dev_cntl slave pd cmd msg info s =
     (if cmd = I2C_CNTL_XFER then
        (case msg of
           None \<Rightarrow> (CodeReply (-1), s)
         | Some x \<Rightarrow> let (x, d, w) = do_xfer slave x s in (XferReply (ix_result x) x, d\<lparr>ic_last := x\<rparr>, w))
      else if cmd = I2C_CNTL_INFO then (InfoReply (i2c_fill_info (fst s)), s)
      else if cmd = I2C_CNTL_SPEED then
        (case info of
           None \<Rightarrow> (CodeReply (-1), s)
         | Some bi \<Rightarrow> let (r, s) = set_speed pd (ib_hz bi) s in (CodeReply r, s))
      else (CodeReply (-1), s))"

section \<open>The shell\<close>

text \<open>\<^verbatim>\<open>strtol\<close> with base 0: blanks, a sign, then \<^verbatim>\<open>0x\<close> and hexadecimal, \<^verbatim>\<open>0\<close> and octal or decimal digits; the value
  saturates at the limits of a 32-bit \<^verbatim>\<open>long\<close>.\<close>

definition digit_value :: "char \<Rightarrow> int" where
  "digit_value c =
     (let n = of_char c :: int
      in if 48 \<le> n \<and> n \<le> 57 then n - 48
         else if 97 \<le> n \<and> n \<le> 102 then n - 87
         else if 65 \<le> n \<and> n \<le> 70 then n - 55 else 99)"

definition base_value :: "int \<Rightarrow> string \<Rightarrow> int" where
  "base_value b s = foldl (\<lambda>v c. v * b + digit_value c) 0 (takeWhile (\<lambda>c. digit_value c < b) s)"

definition unsigned_value :: "string \<Rightarrow> int" where
  "unsigned_value s =
     (case s of
        [] \<Rightarrow> 0
      | c # r \<Rightarrow>
          if c \<noteq> CHR ''0'' then base_value 10 s
          else case r of
                 x # h # t \<Rightarrow> if (x = CHR ''x'' \<or> x = CHR ''X'') \<and> digit_value h < 16 then base_value 16 (h # t)
                              else base_value 8 s
               | _ \<Rightarrow> base_value 8 s)"

definition strtol0 :: "string \<Rightarrow> int" where
  "strtol0 s =
     (let v = (case dropWhile is_space s of
                 [] \<Rightarrow> 0
               | c # r \<Rightarrow> if c = CHR ''-'' then - unsigned_value r
                          else if c = CHR ''+'' then unsigned_value r
                          else unsigned_value (c # r))
      in max (- (2 ^ 31)) (min (2 ^ 31 - 1) v))"

text \<open>Decimal digits of a positive number, for the length of the heading of a scan.\<close>

fun dec_digits :: "nat \<Rightarrow> nat" where
  "dec_digits n = (if n < 10 then 1 else Suc (dec_digits (n div 10)))"

declare dec_digits.simps [simp del]

definition scan_heading :: "i2cd \<Rightarrow> nat" where
  "scan_heading d =
     length ''i2c port '' + dec_digits (nat (ic_port d + 1)) + length '' ('' + dec_digits (nat (ic_hz d)) + length '' Hz):''"

text \<open>The probing loop: the addresses still to try, the length of the text so far, the addresses listed.\<close>

fun scan_addrs :: "i2c_slave \<Rightarrow> int list \<Rightarrow> nat \<Rightarrow> int list \<Rightarrow> i2cd_state \<Rightarrow> int list \<times> i2cd_state" where
  "scan_addrs slave [] len found s = (found, s)"
| "scan_addrs slave (a # as) len found (d, w) =
     (if len < 480 then
        let (r, _, bus, w) = ev3_i2c_gpio_read slave (word_of_int a) [0] 1 (ic_bus d) w;
            d = d\<lparr>ic_bus := bus\<rparr>
        in if r = 0 then scan_addrs slave as (len + length '' 0x00'') (found @ [a]) (d, w)
           else scan_addrs slave as len found (d, w)
      else (found, d, w))"

datatype i2c_text = I2cScan int int "int list" | I2cFailed int | I2cBytes int u8 "u8 list"
  | I2cWritten int int int | I2cSpeed int bool | I2cInfo i2c_bus_info

definition read_request :: "string list \<Rightarrow> i2c_xfer" where
  "read_request argv =
     (let n = atoi (argv ! 3)
      in i2c_xfer_zero\<lparr>ix_addr := strtol0 (argv ! 1), ix_wdata := (replicate 32 0)[0 := word_of_int (strtol0 (argv ! 2))],
           ix_wlen := 1, ix_rlen := (if n < 1 \<or> n > I2C_DEV_MAX_DATA then 1 else n)\<rparr>)"

definition write_request :: "string list \<Rightarrow> i2c_xfer" where
  "write_request argv =
     (let bs = map (\<lambda>a. word_of_int (strtol0 a)) (take (nat I2C_DEV_MAX_DATA) (drop 2 argv))
      in i2c_xfer_zero\<lparr>ix_addr := strtol0 (argv ! 1), ix_wdata := bs @ replicate (nat I2C_DEV_MAX_DATA - length bs) 0,
           ix_wlen := int (length bs)\<rparr>)"

definition i2c_cmd ::
  "i2c_slave \<Rightarrow> (int \<Rightarrow> gpio_state \<Rightarrow> gpio_state) \<Rightarrow> string list \<Rightarrow> i2cd_state \<Rightarrow> i2c_text \<times> i2cd_state" where
  "i2c_cmd slave pd argv s =
     (let op = (if argv = [] then ''info'' else argv ! 0) in
      if op = ''scan'' then
        let (found, s) = scan_addrs slave [0x01..0x77] (scan_heading (fst s)) [] s
        in (I2cScan (ic_port (fst s) + 1) (ic_hz (fst s)) found, s)
      else if op = ''r'' \<and> length argv \<ge> 4 then
        let (x, d, w) = do_xfer slave (read_request argv) s
        in (if ix_result x \<noteq> 0 then I2cFailed (ix_result x)
            else I2cBytes (ix_addr x) (ix_wdata x ! 0) (take (nat (ix_rlen x)) (ix_rdata x)), d\<lparr>ic_last := x\<rparr>, w)
      else if op = ''w'' \<and> length argv \<ge> 3 then
        let (x, d, w) = do_xfer slave (write_request argv) s
        in (I2cWritten (ix_addr x) (ix_wlen x) (ix_result x), d\<lparr>ic_last := x\<rparr>, w)
      else if op = ''speed'' \<and> length argv \<ge> 2 then
        let (r, s) = set_speed pd (atoi (argv ! 1)) s
        in (I2cSpeed (ic_hz (fst s)) (r = 0), s)
      else (I2cInfo (i2c_fill_info (fst s)), s))"

text \<open>\<^verbatim>\<open>main\<close> after the options have set \<open>port\<close> and \<open>hz\<close> (0 and 9600 without): \<open>None\<close> when the bus cannot be opened.\<close>

definition i2cd_main :: "(int \<Rightarrow> gpio_state \<Rightarrow> gpio_state) \<Rightarrow> int \<Rightarrow> int \<Rightarrow> i2c_world \<Rightarrow> i2cd_state option" where
  "i2cd_main pd port hz w =
     (let port = (if port < 0 \<or> port \<ge> EV3_IN_PORT_COUNT then 0 else port);
          hz = (if hz \<le> 0 \<or> hz > EV3_I2C_GPIO_HZ_MAX then EV3_I2C_GPIO_HZ_NXT else hz);
          (rc, bus, w) = ev3_i2c_gpio_open pd port hz
             \<lparr>ig_port = 0, ig_scl = 0, ig_sda = 0, ig_half_us = 0, ig_nacks = 0\<rparr> w
      in if rc \<noteq> 0 then None
         else Some (\<lparr>ic_bus = bus, ic_port = port, ic_hz = hz, ic_xfers = 0, ic_last = i2c_xfer_zero\<rparr>, w))"

text \<open>What can happen to the daemon; each event brings the device that is on the bus then.\<close>

datatype i2cd_event = I2cWrite i2c_slave "i2c_xfer option" int
  | I2cCntl i2c_slave int "i2c_xfer option" "i2c_bus_info option" | I2cShell i2c_slave "string list"

fun i2cd_handle :: "(int \<Rightarrow> gpio_state \<Rightarrow> gpio_state) \<Rightarrow> i2cd_event \<Rightarrow> i2cd_state \<Rightarrow> i2cd_state" where
  "i2cd_handle pd (I2cWrite slave buf sz) s = snd (i2c_write slave buf sz s)"
| "i2cd_handle pd (I2cCntl slave cmd msg info) s = snd (i2c_dev_cntl slave pd cmd msg info s)"
| "i2cd_handle pd (I2cShell slave argv) s = snd (i2c_cmd slave pd argv s)"

section \<open>Specification\<close>

text \<open>What the daemon promises: each accepted request is one I2C transaction, in order, and nothing else
  happens on the bus. The state a client can observe, with the wire history.\<close>

record i2cd_view =
  iv_hist :: "i2c_event list"
  iv_last :: i2c_xfer
  iv_xfers :: int
  iv_nacks :: int
  iv_hz :: int

definition xfer_valid :: "i2c_xfer \<Rightarrow> bool" where
  "xfer_valid x \<longleftrightarrow> ix_addr x \<in> {0..127} \<and> ix_wlen x \<in> {0..32} \<and> ix_rlen x \<in> {0..32} \<and> (ix_wlen x \<noteq> 0 \<or> ix_rlen x \<noteq> 0)"

definition count_nack :: "int \<Rightarrow> int \<Rightarrow> int" where
  "count_nack r n = (if r = 0 then n else wrap32 (n + 1))"

definition spec_xfer :: "i2c_slave \<Rightarrow> i2c_xfer \<Rightarrow> i2cd_view \<Rightarrow> i2cd_view" where
  "spec_xfer slave x v =
     (if \<not> xfer_valid x then v\<lparr>iv_last := x\<lparr>ix_result := -1\<rparr>\<rparr>
      else
        let (r, bs, h) = transfer_spec slave (word_of_int (ix_addr x)) (take (nat (ix_wlen x)) (ix_wdata x))
                           (nat (ix_rlen x)) (iv_hist v)
        in v\<lparr>iv_hist := h, iv_xfers := wrap32 (iv_xfers v + 1), iv_nacks := count_nack r (iv_nacks v),
             iv_last := x\<lparr>ix_result := r,
               ix_rdata := (if r = 0 then bs @ drop (nat (ix_rlen x)) (ix_rdata x) else ix_rdata x)\<rparr>\<rparr>)"

definition spec_probe :: "i2c_slave \<Rightarrow> int \<Rightarrow> i2cd_view \<Rightarrow> i2cd_view" where
  "spec_probe slave a v =
     (let (r, _, h) = transfer_spec slave (word_of_int a) [] 1 (iv_hist v)
      in v\<lparr>iv_hist := h, iv_nacks := count_nack r (iv_nacks v)\<rparr>)"

definition spec_speed :: "int \<Rightarrow> i2cd_view \<Rightarrow> i2cd_view" where
  "spec_speed hz v =
     (if hz > 100000 then v else v\<lparr>iv_hz := (if hz \<le> 0 then 9600 else hz), iv_nacks := 0\<rparr>)"

fun i2cd_spec :: "i2cd_event \<Rightarrow> i2cd_view \<Rightarrow> i2cd_view" where
  "i2cd_spec (I2cWrite slave buf sz) v =
     (case buf of Some x \<Rightarrow> if sz < 80 then v else spec_xfer slave x v | None \<Rightarrow> v)"
| "i2cd_spec (I2cCntl slave cmd msg info) v =
     (if cmd = 1 then (case msg of Some x \<Rightarrow> spec_xfer slave x v | None \<Rightarrow> v)
      else if cmd = 3 then (case info of Some bi \<Rightarrow> spec_speed (ib_hz bi) v | None \<Rightarrow> v)
      else v)"
| "i2cd_spec (I2cShell slave argv) v =
     (if argv = [] then v
      else if argv ! 0 = ''scan'' then fold (spec_probe slave) [1..119] v
      else if argv ! 0 = ''r'' \<and> length argv \<ge> 4 then spec_xfer slave (read_request argv) v
      else if argv ! 0 = ''w'' \<and> length argv \<ge> 3 then spec_xfer slave (write_request argv) v
      else if argv ! 0 = ''speed'' \<and> length argv \<ge> 2 then spec_speed (atoi (argv ! 1)) v
      else v)"

text \<open>The arrays of a transfer record have 32 bytes.\<close>

definition xfer_shape :: "i2c_xfer \<Rightarrow> bool" where
  "xfer_shape x \<longleftrightarrow> length (ix_wdata x) = 32 \<and> length (ix_rdata x) = 32"

fun i2cd_event_ok :: "i2cd_event \<Rightarrow> bool" where
  "i2cd_event_ok (I2cWrite slave buf sz) = pred_option xfer_shape buf"
| "i2cd_event_ok (I2cCntl slave cmd msg info) = pred_option xfer_shape msg"
| "i2cd_event_ok (I2cShell slave argv) = True"

section \<open>The daemon implements it\<close>

fun i2cd_rel :: "int \<Rightarrow> i2cd_state \<Rightarrow> i2cd_view \<Rightarrow> bool" where
  "i2cd_rel port (d, w) v \<longleftrightarrow> in_ok port \<and> wired (ic_bus d) w True True (iv_hist v) \<and> ig_port (ic_bus d) = port \<and>
     ic_port d = port \<and> ic_hz d = iv_hz v \<and> ic_xfers d = iv_xfers v \<and> ig_nacks (ic_bus d) = iv_nacks v \<and> ic_last d = iv_last v"

lemma addr_7bit:
  assumes "0 \<le> a" "a \<le> 127"
  shows "word_of_int a AND (0x7F :: u8) = word_of_int a"
proof -
  have "a mod 256 = a" using assms by (intro mod_pos_pos_trivial) auto
  then have "unat (word_of_int a :: u8) < 2 ^ 7" using assms by (simp add: unat_eq_nat_uint uint_word_of_int)
  then have "take_bit 7 (word_of_int a :: u8) = word_of_int a" by (rule take_bit_word_id)
  then show ?thesis by (simp add: take_bit_eq_mask mask_eq_exp_minus_1)
qed

lemma wired_nacks: "wired (bus\<lparr>ig_nacks := n\<rparr>) w c d h = wired bus w c d h"
  by (simp add: wired_def bus_ok_def bus_lines_def)

lemma do_xfer_rel:
  assumes "i2cd_rel port (d, w) v" "xfer_shape x"
  shows "\<exists>x' d' w'. do_xfer slave x (d, w) = (x', d', w') \<and> i2cd_rel port (d'\<lparr>ic_last := x'\<rparr>, w') (spec_xfer slave x v) \<and>
    x' = iv_last (spec_xfer slave x v)"
proof (cases "xfer_valid x")
  case False
  then have "do_xfer slave x (d, w) = (x\<lparr>ix_result := -1\<rparr>, d, w)"
    by (auto simp: do_xfer_def xfer_valid_def I2C_DEV_MAX_DATA_def)
  with False assms show ?thesis by (simp add: spec_xfer_def)
next
  case True
  let ?a = "word_of_int (ix_addr x) :: u8" and ?ws = "take (nat (ix_wlen x)) (ix_wdata x)"
  obtain r bs h where sp: "transfer_spec slave ?a ?ws (nat (ix_rlen x)) (iv_hist v) = (r, bs, h)" by (metis surj_pair)
  have v: "0 \<le> ix_addr x" "ix_addr x \<le> 127" "0 \<le> ix_wlen x" "0 \<le> ix_rlen x" "ix_wlen x \<noteq> 0 \<or> ix_rlen x \<noteq> 0"
    using True by (auto simp: xfer_valid_def)
  have b: "wired (ic_bus d) w True True (iv_hist v)" "0 \<le> ig_port (ic_bus d)"
    using assms(1) by (auto simp: in_ok_def)
  have "transfer_spec slave (?a AND 0x7F) (if ix_wlen x > 0 then ?ws else []) (nat (ix_rlen x)) (iv_hist v) = (r, bs, h)"
    using sp v(3) addr_7bit [OF v(1,2)] by auto
  then obtain w' where x: "ev3_i2c_gpio_xfer slave ?a (if ix_wlen x > 0 then Some (ix_wdata x) else None) (ix_wlen x)
        (if ix_rlen x > 0 then Some (ix_rdata x) else None) (ix_rlen x) (ic_bus d) w =
      (r, if r = 0 \<and> ix_rlen x > 0 then Some (bs @ drop (nat (ix_rlen x)) (ix_rdata x))
          else if ix_rlen x > 0 then Some (ix_rdata x) else None,
       if r = 0 then ic_bus d else (ic_bus d)\<lparr>ig_nacks := wrap32 (ig_nacks (ic_bus d) + 1)\<rparr>, w')"
      "wired (ic_bus d) w' True True h"
    using xfer_on_wire [OF b v(3-5), of "if ix_wlen x > 0 then Some (ix_wdata x) else None" "ix_wdata x"
        "if ix_rlen x > 0 then Some (ix_rdata x) else None" "ix_rdata x" slave ?a r bs h] assms(2)
    by (force simp: xfer_shape_def)
  have "ix_rlen x = 0 \<Longrightarrow> bs = []" using sp spec_no_read by auto
  moreover have "\<not> (ix_addr x < 0 \<or> ix_addr x > 0x7F \<or> ix_wlen x < 0 \<or> ix_wlen x > I2C_DEV_MAX_DATA \<or>
      ix_rlen x < 0 \<or> ix_rlen x > I2C_DEV_MAX_DATA \<or> ix_wlen x = 0 \<and> ix_rlen x = 0)"
    using True by (auto simp: xfer_valid_def I2C_DEV_MAX_DATA_def)
  ultimately show ?thesis
    using assms(1) True x v(4) sp by (auto simp: do_xfer_def spec_xfer_def count_nack_def wired_nacks)
qed

lemma scan_addrs_rel:
  assumes "i2cd_rel port s v" "\<forall>a \<in> set as. 0 \<le> a \<and> a \<le> 127" "len < 480"
  shows "fst (scan_addrs slave as len [] s) = [] \<and>
    i2cd_rel port (snd (scan_addrs slave as len [] s)) (fold (spec_probe slave) as v)"
  using assms
proof (induction as arbitrary: s v)
  case (Cons a as)
  obtain d w where s: "s = (d, w)" by fastforce
  obtain r bs h where sp: "transfer_spec slave (word_of_int a) [] 1 (iv_hist v) = (r, bs, h)" by (metis surj_pair)
  have b: "wired (ic_bus d) w True True (iv_hist v)" "0 \<le> ig_port (ic_bus d)"
    using Cons.prems(1) s by (auto simp: in_ok_def)
  have "transfer_spec slave (word_of_int a AND 0x7F) (if (0::int) < 0 then take 0 [] else []) (nat 1) (iv_hist v) = (r, bs, h)"
    using sp addr_7bit [of a] Cons.prems(2) by simp
  from xfer_on_wire [OF b, of 0 1 None "[]" "Some [0]" "[0]" slave "word_of_int a" r bs h] this
  obtain rb w' where x: "ev3_i2c_gpio_xfer slave (word_of_int a) None 0 (Some [0]) 1 (ic_bus d) w =
      (r, rb, if r = 0 then ic_bus d else (ic_bus d)\<lparr>ig_nacks := wrap32 (ig_nacks (ic_bus d) + 1)\<rparr>, w')"
      "wired (ic_bus d) w' True True h" by auto
  let ?d = "d\<lparr>ic_bus := (if r = 0 then ic_bus d else (ic_bus d)\<lparr>ig_nacks := wrap32 (ig_nacks (ic_bus d) + 1)\<rparr>)\<rparr>"
  have "i2cd_rel port (?d, w') (spec_probe slave a v)"
    using Cons.prems(1) s x(2) sp by (simp add: spec_probe_def count_nack_def wired_nacks)
  from Cons.IH [OF this] Cons.prems(2,3)
  have IH: "fst (scan_addrs slave as len [] (?d, w')) = [] \<and>
    i2cd_rel port (snd (scan_addrs slave as len [] (?d, w'))) (fold (spec_probe slave) as (spec_probe slave a v))" by simp
  have "scan_addrs slave (a # as) len [] s = scan_addrs slave as len [] (?d, w')"
    using Cons.prems(3) by (simp add: s ev3_i2c_gpio_read_def x(1))
  with IH show ?case by (simp only: fold_simps)
qed simp

lemma close_world:
  assumes "gpio_inv (iw_gpio w)"
  shows "gpio_inv (iw_gpio (snd (ev3_i2c_gpio_close bus w))) \<and> iw_hist (snd (ev3_i2c_gpio_close bus w)) = iw_hist w"
  using assms by (simp add: ev3_i2c_gpio_close_def ev3_input_port_power_def Let_def)

lemma set_speed_rel:
  assumes "i2cd_rel port (d, w) v" "spares_pin1 pd"
  shows "i2cd_rel port (snd (set_speed pd hz (d, w))) (spec_speed hz v)"
proof -
  obtain bus w1 where c: "ev3_i2c_gpio_close (ic_bus d) w = (bus, w1)" by fastforce
  have w1: "gpio_inv (iw_gpio w1)" "iw_hist w1 = iv_hist v"
    using close_world [of w "ic_bus d"] assms(1) c by (simp_all add: wired_def bus_ok_def)
  have port: "in_ok port" using assms(1) by simp
  obtain bus' w2 where "ev3_i2c_gpio_open pd port (if hz \<le> 0 then 9600 else hz) bus w1 = (0, bus', w2)"
      "ig_port bus' = port" "ig_nacks bus' = 0" "wired bus' w2 True True (iv_hist v)"
    using open_result [OF assms(2) w1(1) port, of "if hz \<le> 0 then 9600 else hz" bus] w1(2) by auto
  with assms(1) c show ?thesis
    by (auto simp: set_speed_def spec_speed_def EV3_I2C_GPIO_HZ_NXT_def EV3_I2C_GPIO_HZ_MAX_def Let_def)
qed

lemma request_shape: "xfer_shape (read_request argv)" "xfer_shape (write_request argv)"
  by (simp_all add: xfer_shape_def read_request_def write_request_def i2c_xfer_zero_def I2C_DEV_MAX_DATA_def Let_def)

lemma dec_digits_bound: "n < 10 ^ Suc k \<Longrightarrow> dec_digits n \<le> Suc k"
proof (induction k arbitrary: n)
  case 0
  then show ?case by (simp add: dec_digits.simps)
next
  case (Suc k)
  then have "n div 10 < 10 ^ Suc k" by (simp add: less_mult_imp_div_less)
  with Suc.IH show ?case by (simp add: dec_digits.simps [of n])
qed

text \<open>The heading of a scan never fills the text buffer, since the speed stays within its limits.\<close>

lemma heading_short:
  assumes "i2cd_rel port (d, w) v" "iv_hz v \<le> 100000"
  shows "scan_heading d < 480"
proof -
  have "nat (ic_port d + 1) < 10 ^ Suc 0" "nat (ic_hz d) < 10 ^ Suc 5"
    using assms by (auto simp: in_ok_def EV3_IN_PORT_COUNT_def)
  from this [THEN dec_digits_bound] show ?thesis by (simp add: scan_heading_def)
qed

lemma cmd_rel:
  assumes "i2cd_rel port s v" "spares_pin1 pd" "iv_hz v \<le> 100000"
  shows "i2cd_rel port (snd (i2c_cmd slave pd argv s)) (i2cd_spec (I2cShell slave argv) v)"
proof -
  obtain d w where s: "s = (d, w)" by fastforce
  note sc = scan_addrs_rel [OF assms(1), of "[1..119]" "scan_heading d" slave]
  note rd = do_xfer_rel [OF assms(1) [unfolded s] request_shape(1) [of argv], of slave]
  note wr = do_xfer_rel [OF assms(1) [unfolded s] request_shape(2) [of argv], of slave]
  note sp = set_speed_rel [OF assms(1) [unfolded s] assms(2), of "atoi (argv ! 1)"]
  consider "argv = []" | "argv \<noteq> []" "argv ! 0 = ''scan''" | "argv \<noteq> []" "argv ! 0 = ''r''" "length argv \<ge> 4"
    | "argv \<noteq> []" "argv ! 0 = ''w''" "length argv \<ge> 3" | "argv \<noteq> []" "argv ! 0 = ''speed''" "length argv \<ge> 2"
    | "argv \<noteq> []" "argv ! 0 \<noteq> ''scan''" "argv ! 0 = ''r'' \<longrightarrow> length argv < 4" "argv ! 0 = ''w'' \<longrightarrow> length argv < 3"
      "argv ! 0 = ''speed'' \<longrightarrow> length argv < 2"
    by linarith
  then show ?thesis
  proof cases
    case 2
    with sc heading_short [OF assms(1) [unfolded s] assms(3)] s show ?thesis
      by (auto simp: i2c_cmd_def Let_def split: prod.split)
  next
    case 3
    with rd s show ?thesis by (auto simp: i2c_cmd_def Let_def)
  next
    case 4
    with wr s show ?thesis by (auto simp: i2c_cmd_def Let_def)
  next
    case 5
    with sp s show ?thesis by (auto simp: i2c_cmd_def Let_def split: prod.split)
  qed (use assms(1) s in \<open>auto simp: i2c_cmd_def Let_def\<close>)
qed

text \<open>The relation together with the limit of the speed is kept by every event.\<close>

definition i2cd_sim :: "int \<Rightarrow> i2cd_state \<Rightarrow> i2cd_view \<Rightarrow> bool" where
  "i2cd_sim port s v \<longleftrightarrow> i2cd_rel port s v \<and> iv_hz v \<le> 100000"

lemma spec_hz:
  assumes "iv_hz v \<le> 100000"
  shows "iv_hz (i2cd_spec e v) \<le> 100000"
proof -
  have x: "iv_hz (spec_xfer slave x v) = iv_hz v" for slave x by (simp add: spec_xfer_def Let_def split: prod.split)
  have p: "iv_hz (fold (spec_probe slave) as u) = iv_hz u" for slave as u
    by (induction as arbitrary: u) (simp_all add: spec_probe_def Let_def split: prod.split)
  show ?thesis
    using assms x p by (cases e) (auto simp: spec_speed_def split: option.split)
qed

lemma i2cd_handle_rel:
  assumes "spares_pin1 pd" "i2cd_event_ok e" "i2cd_sim port s v"
  shows "i2cd_sim port (i2cd_handle pd e s) (i2cd_spec e v)"
proof -
  obtain d w where s: "s = (d, w)" by fastforce
  have r: "i2cd_rel port (d, w) v" and hz: "iv_hz v \<le> 100000" using assms(3) s by (auto simp: i2cd_sim_def)
  have x: "i2cd_rel port ((fst (snd (do_xfer slave x (d, w))))\<lparr>ic_last := fst (do_xfer slave x (d, w))\<rparr>,
      snd (snd (do_xfer slave x (d, w)))) (spec_xfer slave x v)" if "xfer_shape x" for slave x
    using do_xfer_rel [OF r that, of slave] by force
  have "i2cd_rel port (i2cd_handle pd e s) (i2cd_spec e v)"
  proof (cases e)
    case (I2cWrite slave buf sz)
    with assms(2) r s show ?thesis
      by (cases buf) (simp_all add: i2c_write_def sizeof_xfer_def split_beta Let_def x del: i2cd_rel.simps)
  next
    case (I2cCntl slave cmd msg info)
    with assms(1,2) r s show ?thesis
      by (cases msg; cases info) (simp_all add: i2c_dev_cntl_def I2C_CNTL_XFER_def I2C_CNTL_INFO_def I2C_CNTL_SPEED_def
          split_beta Let_def x set_speed_rel del: i2cd_rel.simps)
  next
    case (I2cShell slave argv)
    with cmd_rel [OF r assms(1) hz] s show ?thesis by simp
  qed
  with spec_hz [OF hz] show ?thesis by (simp add: i2cd_sim_def)
qed

interpretation i2cd: simulation "\<lambda>e. spares_pin1 pd \<and> i2cd_event_ok e" "i2cd_handle pd" i2cd_spec "i2cd_sim port"
  for pd port
  by unfold_locales (auto intro: i2cd_handle_rel)

definition i2cd_port :: "int \<Rightarrow> int" where
  "i2cd_port p = (if p < 0 \<or> p \<ge> 4 then 0 else p)"

definition i2cd_start :: "int \<Rightarrow> i2c_event list \<Rightarrow> i2cd_view" where
  "i2cd_start hz h = \<lparr>iv_hist = h, iv_last = i2c_xfer_zero, iv_xfers = 0, iv_nacks = 0,
     iv_hz = (if hz \<le> 0 \<or> hz > 100000 then 9600 else hz)\<rparr>"

lemma i2cd_main_rel:
  assumes "spares_pin1 pd" "gpio_inv (iw_gpio w)"
  shows "\<exists>s. i2cd_main pd port hz w = Some s \<and> i2cd_sim (i2cd_port port) s (i2cd_start hz (iw_hist w))"
proof -
  have ok: "in_ok (i2cd_port port)" by (simp add: i2cd_port_def in_ok_def EV3_IN_PORT_COUNT_def)
  let ?hz = "if hz \<le> 0 \<or> hz > EV3_I2C_GPIO_HZ_MAX then EV3_I2C_GPIO_HZ_NXT else hz"
  obtain bus w' where o: "ev3_i2c_gpio_open pd (i2cd_port port) ?hz
        \<lparr>ig_port = 0, ig_scl = 0, ig_sda = 0, ig_half_us = 0, ig_nacks = 0\<rparr> w = (0, bus, w')"
      "ig_port bus = i2cd_port port" "ig_nacks bus = 0" "wired bus w' True True (iw_hist w)"
    using open_result [OF assms ok, of ?hz] by blast
  have "i2cd_main pd port hz w =
      Some (\<lparr>ic_bus = bus, ic_port = i2cd_port port, ic_hz = ?hz, ic_xfers = 0, ic_last = i2c_xfer_zero\<rparr>, w')"
    using o(1) by (simp add: i2cd_main_def i2cd_port_def EV3_IN_PORT_COUNT_def Let_def)
  with o(2-4) ok show ?thesis
    by (simp add: i2cd_sim_def i2cd_start_def EV3_I2C_GPIO_HZ_MAX_def EV3_I2C_GPIO_HZ_NXT_def)
qed

section \<open>Properties\<close>

text \<open>
  C8. The I2C daemon does what its clients ask, and only that: it always comes up, and after any sequence of
  writes, control messages and shell commands, with any devices on the bus, the conditions and bits seen
  on the wires are exactly the transactions of the accepted requests in order (a request with an
  address above 127, a length outside 0 to 32 or nothing to do is answered with -1 and causes no bus
  activity), the stored result and the reported counters are those of the requests, and the bus is idle.
\<close>

theorem i2cd_serves:
  assumes "spares_pin1 pd" "gpio_inv (iw_gpio w)" "list_all i2cd_event_ok evs"
  shows "\<exists>s. i2cd_main pd port hz w = Some s \<and>
    (case (fold (i2cd_handle pd) evs s, fold i2cd_spec evs (i2cd_start hz (iw_hist w))) of
       ((d, w'), v) \<Rightarrow> iw_hist w' = iv_hist v \<and> bus_lines (ic_bus d) (iw_gpio w') = (True, True) \<and> ic_last d = iv_last v \<and>
         i2c_fill_info d = \<lparr>ib_port = i2cd_port port, ib_hz = iv_hz v, ib_xfers = iv_xfers v, ib_nacks = iv_nacks v\<rparr>)"
proof -
  obtain s where s: "i2cd_main pd port hz w = Some s" "i2cd_sim (i2cd_port port) s (i2cd_start hz (iw_hist w))"
    using i2cd_main_rel [OF assms(1,2)] by blast
  have "list_all (\<lambda>e. spares_pin1 pd \<and> i2cd_event_ok e) evs" using assms(1,3) by (simp add: list_all_iff)
  from i2cd.rel_run [OF this s(2)] s(1) show ?thesis
    by (auto simp: i2cd_sim_def wired_def i2c_fill_info_def split: prod.split)
qed

theorem i2cd_serves_witness:
  "\<exists>s d w'. i2cd_main (\<lambda>_ g. g) 0 9600 demo_wires = Some s \<and>
     fold (i2cd_handle (\<lambda>_ g. g)) [I2cWrite demo_device (Some (i2c_xfer_zero\<lparr>ix_addr := 200, ix_wlen := 1\<rparr>)) 80] s = (d, w') \<and>
     iw_hist w' = [] \<and> ix_result (ic_last d) = -1"
proof -
  define x where "x = i2c_xfer_zero\<lparr>ix_addr := 200, ix_wlen := 1\<rparr>"
  define evs where "evs = [I2cWrite demo_device (Some x) 80]"
  have o: "spares_pin1 (\<lambda>_ g. g)" "gpio_inv (iw_gpio demo_wires)" "list_all i2cd_event_ok evs" "iw_hist demo_wires = []"
    by (simp_all add: spares_pin1_def demo_wires_def gpio_inv_def evs_def x_def xfer_shape_def i2c_xfer_zero_def)
  have v: "fold i2cd_spec evs (i2cd_start 9600 []) = (i2cd_start 9600 [])\<lparr>iv_last := x\<lparr>ix_result := -1\<rparr>\<rparr>"
    by (simp add: evs_def spec_xfer_def xfer_valid_def x_def)
  obtain s where s: "i2cd_main (\<lambda>_ g. g) 0 9600 demo_wires = Some s" and
    c: "case (fold (i2cd_handle (\<lambda>_ g. g)) evs s, (i2cd_start 9600 [])\<lparr>iv_last := x\<lparr>ix_result := -1\<rparr>\<rparr>) of
      ((d, w'), v) \<Rightarrow> iw_hist w' = iv_hist v \<and> bus_lines (ic_bus d) (iw_gpio w') = (True, True) \<and> ic_last d = iv_last v \<and>
         i2c_fill_info d = \<lparr>ib_port = i2cd_port 0, ib_hz = iv_hz v, ib_xfers = iv_xfers v, ib_nacks = iv_nacks v\<rparr>"
    using i2cd_serves [OF o(1-3), of 0 9600] unfolding o(4) v by (elim exE conjE) (erule (1) that)
  obtain d w' where "fold (i2cd_handle (\<lambda>_ g. g)) evs s = (d, w')" by fastforce
  with s c have "i2cd_main (\<lambda>_ g. g) 0 9600 demo_wires = Some s" "fold (i2cd_handle (\<lambda>_ g. g)) evs s = (d, w')"
      "iw_hist w' = []" "ic_last d = x\<lparr>ix_result := -1\<rparr>" by (simp_all add: i2cd_start_def)
  then show ?thesis by (intro exI [of _ s] exI [of _ d] exI [of _ w']) (simp add: evs_def x_def del: fold_simps)
qed

text \<open>
  The shell's bus scan finds no device: it tests the result of a one-byte read for 0, but a successful
  read returns the number of bytes, so the list is empty for every device on the bus, also when the device
  acknowledges a probed address and a client's own one-byte transfer from it succeeds.
\<close>

theorem i2c_scan_blind:
  assumes "i2cd_rel port (d, w) v" "iv_hz v \<le> 100000" "0 \<le> a" "a \<le> 127"
    and "transfer_spec slave (word_of_int a) [] 1 (iv_hist v) = (0, bs, h)"
  shows "fst (i2c_cmd slave pd [''scan''] (d, w)) = I2cScan (port + 1) (iv_hz v) [] \<and>
    ix_result (fst (do_xfer slave (i2c_xfer_zero\<lparr>ix_addr := a, ix_rlen := 1\<rparr>) (d, w))) = 0"
proof -
  let ?x = "i2c_xfer_zero\<lparr>ix_addr := a, ix_rlen := 1\<rparr>"
  note sc = scan_addrs_rel [OF assms(1), of "[1..119]" "scan_heading d" slave]
  obtain found d' w' where l: "scan_addrs slave [1..119] (scan_heading d) [] (d, w) = (found, d', w')" by (metis surj_pair)
  have p: "iv_hz (fold (spec_probe slave) as u) = iv_hz u" for as u
    by (induction as arbitrary: u) (simp_all add: spec_probe_def Let_def split: prod.split)
  have "found = []" "ic_port d' = port" "ic_hz d' = iv_hz v"
    using sc l heading_short [OF assms(1,2)] p by auto
  moreover have "xfer_shape ?x" "xfer_valid ?x" using assms(3,4) by (simp_all add: xfer_shape_def xfer_valid_def i2c_xfer_zero_def)
  then have "ix_result (fst (do_xfer slave ?x (d, w))) = 0"
    using do_xfer_rel [OF assms(1), of ?x slave] assms(5) by (auto simp: spec_xfer_def i2c_xfer_zero_def)
  ultimately show ?thesis using l by (simp add: i2c_cmd_def Let_def)
qed

theorem i2c_scan_blind_witness:
  "\<exists>s. i2cd_main (\<lambda>_ g. g) 0 9600 demo_wires = Some s \<and>
     fst (i2c_cmd (\<lambda>_. False) (\<lambda>_ g. g) [''scan''] s) = I2cScan 1 9600 [] \<and>
     ix_result (fst (do_xfer (\<lambda>_. False) (i2c_xfer_zero\<lparr>ix_addr := 1, ix_rlen := 1\<rparr>) s)) = 0"
proof -
  have o: "spares_pin1 (\<lambda>_ g. g)" "gpio_inv (iw_gpio demo_wires)" "iw_hist demo_wires = []"
    by (simp_all add: spares_pin1_def demo_wires_def gpio_inv_def)
  obtain d w where s: "i2cd_main (\<lambda>_ g. g) 0 9600 demo_wires = Some (d, w)" "i2cd_rel 0 (d, w) (i2cd_start 9600 [])"
    using i2cd_main_rel [OF o(1,2), of 0 9600] o(3) by (auto simp: i2cd_sim_def i2cd_port_def simp del: i2cd_rel.simps)
  have "fst (transfer_spec (\<lambda>_. False) (word_of_int 1) [] 1 []) = 0" by code_simp
  then obtain bs h where "transfer_spec (\<lambda>_. False) (word_of_int 1) [] 1 [] = (0, bs, h)" by (metis prod.collapse)
  then show ?thesis
    using i2c_scan_blind [OF s(2), of 1 "\<lambda>_. False" bs h "\<lambda>_ g. g"] s(1) by (simp add: i2cd_start_def)
qed

end
