(* ===== verification/Ev3_Sound.thy ===== *)
theory Ev3_Sound
  imports Ev3_Pwm
begin

text \<open>
  The EV3 loudspeaker (\<^verbatim>\<open>src/lego.ev3/system/libs/arch_ev3/src/sound.c\<close>): channel B of eHRPWM0 as tone generator,
  the amplifier switch, loudness by duty cycle.

  The 16-bit registers of eHRPWM0 are a map from physical address to value; register writes the kernel performs
  and the power/sleep module go to the GPIO state, as in the motor PWM.
\<close>

section \<open>State and registers\<close>

record sound_state =
  so_inited :: bool
  so_volume :: int
  so_mmio :: "u32 \<Rightarrow> u16"

definition EHRPWM0_BASE :: u32 where "EHRPWM0_BASE = 0x01F00000"
definition SOUND_PSC1_BASE :: u32 where "SOUND_PSC1_BASE = 0x01E27000"
definition PIN_AMP_ENABLE :: int where "PIN_AMP_ENABLE = 111"
definition EV3_SOUND_TBCLK_HZ :: u32 where "EV3_SOUND_TBCLK_HZ = 150000000"
definition EV3_SOUND_MIN_FREQ :: int where "EV3_SOUND_MIN_FREQ = 100"
definition EV3_SOUND_MAX_FREQ :: int where "EV3_SOUND_MAX_FREQ = 12000"
definition TBCTL_CTRMODE_MASK :: u16 where "TBCTL_CTRMODE_MASK = 3"
definition TBCTL_CTRMODE_UP :: u16 where "TBCTL_CTRMODE_UP = 0"
definition TBCTL_CTRMODE_FREEZE :: u16 where "TBCTL_CTRMODE_FREEZE = 3"
definition TBCTL_PRDLD :: u16 where "TBCTL_PRDLD = 8"
definition TBCTL_CLKDIV_MASK :: u16 where "TBCTL_CLKDIV_MASK = push_bit 7 0x3f"
definition AQCTL_ZRO_HIGH :: u16 where "AQCTL_ZRO_HIGH = 2"
definition AQCTL_CBU_LOW :: u16 where "AQCTL_CBU_LOW = push_bit 8 1"
definition AQSFRC_RLDCSF_MASK :: u16 where "AQSFRC_RLDCSF_MASK = 0xC0"
definition AQSFRC_RLDCSF_ZRO :: u16 where "AQSFRC_RLDCSF_ZRO = 0"
definition AQSFRC_RLDCSF_IMDT :: u16 where "AQSFRC_RLDCSF_IMDT = 0xC0"
definition AQCSFRC_CSFB_MASK :: u16 where "AQCSFRC_CSFB_MASK = 12"
definition AQCSFRC_CSFB_FRCLOW :: u16 where "AQCSFRC_CSFB_FRCLOW = 4"
definition AQCSFRC_CSFB_FRCDIS :: u16 where "AQCSFRC_CSFB_FRCDIS = 0"

lemmas sound_consts = EHRPWM0_BASE_def PIN_AMP_ENABLE_def EV3_SOUND_TBCLK_HZ_def EV3_SOUND_MIN_FREQ_def
  EV3_SOUND_MAX_FREQ_def TBCTL_CTRMODE_MASK_def TBCTL_CTRMODE_UP_def TBCTL_CTRMODE_FREEZE_def TBCTL_PRDLD_def
  TBCTL_CLKDIV_MASK_def AQCTL_ZRO_HIGH_def AQCTL_CBU_LOW_def AQSFRC_RLDCSF_MASK_def AQSFRC_RLDCSF_ZRO_def
  AQSFRC_RLDCSF_IMDT_def AQCSFRC_CSFB_MASK_def AQCSFRC_CSFB_FRCLOW_def AQCSFRC_CSFB_FRCDIS_def

type_synonym sound_world = "sound_state \<times> gpio_state"

definition sound_writew :: "u16 \<Rightarrow> u32 \<Rightarrow> sound_state \<Rightarrow> sound_state" where
  "sound_writew v a s = s\<lparr>so_mmio := (so_mmio s)(a := v)\<rparr>"

definition sound_reg16_set :: "u32 \<Rightarrow> u16 \<Rightarrow> u16 \<Rightarrow> sound_state \<Rightarrow> sound_state" where
  "sound_reg16_set a v msk s = sound_writew ((so_mmio s a AND NOT msk) OR (v AND msk)) a s"

section \<open>Operations\<close>

definition ev3_sound_init :: "sound_world \<Rightarrow> sound_world" where
  "ev3_sound_init = (\<lambda>(s, g).
     if so_inited s then (s, g)
     else
       let g = psc_module_enable SOUND_PSC1_BASE PSC_MOD_EHRPWM g;
           g = ev3_syscfg_write EV3_SYSCFG_CFGCHIP1 CFGCHIP1_TBCLKSYNC CFGCHIP1_TBCLKSYNC g;
           g = ev3_syscfg_write (EV3_SYSCFG_PINMUX 3) (push_bit 4 2) 0xf0 g;
           g = ev3_gpio_config PIN_AMP_ENABLE GPIO_OUTPUT g;
           g = ev3_gpio_write PIN_AMP_ENABLE False g;
           s = sound_reg16_set (EHRPWM0_BASE + TBCTL) TBCTL_CTRMODE_FREEZE TBCTL_CTRMODE_MASK s;
           s = sound_reg16_set (EHRPWM0_BASE + TBCTL) 0 TBCTL_CLKDIV_MASK s;
           s = sound_reg16_set (EHRPWM0_BASE + TBCTL) 0 TBCTL_PRDLD s;
           s = sound_writew (AQCTL_ZRO_HIGH OR AQCTL_CBU_LOW) (EHRPWM0_BASE + AQCTLB) s;
           s = sound_reg16_set (EHRPWM0_BASE + AQSFRC) AQSFRC_RLDCSF_IMDT AQSFRC_RLDCSF_MASK s;
           s = sound_reg16_set (EHRPWM0_BASE + AQCSFRC) AQCSFRC_CSFB_FRCLOW AQCSFRC_CSFB_MASK s
       in (s\<lparr>so_inited := True\<rparr>, g))"

definition ev3_sound_enable_amp :: "bool \<Rightarrow> sound_world \<Rightarrow> sound_world" where
  "ev3_sound_enable_amp on = (\<lambda>(s, g). if \<not> so_inited s then (s, g) else (s, ev3_gpio_write PIN_AMP_ENABLE on g))"

definition ev3_sound_set_volume :: "int \<Rightarrow> sound_state \<Rightarrow> sound_state" where
  "ev3_sound_set_volume percent s =
     (let p = (if percent < 0 then 0 else percent);
          p = (if p > 100 then 100 else p)
      in s\<lparr>so_volume := p\<rparr>)"

definition ev3_sound_stop :: "sound_world \<Rightarrow> sound_world" where
  "ev3_sound_stop = (\<lambda>(s, g).
     if \<not> so_inited s then (s, g)
     else
       let (s, g) = ev3_sound_enable_amp False (s, g);
           s = sound_reg16_set (EHRPWM0_BASE + TBCTL) TBCTL_CTRMODE_FREEZE TBCTL_CTRMODE_MASK s;
           s = sound_reg16_set (EHRPWM0_BASE + AQSFRC) AQSFRC_RLDCSF_IMDT AQSFRC_RLDCSF_MASK s;
           s = sound_reg16_set (EHRPWM0_BASE + AQCSFRC) AQCSFRC_CSFB_FRCLOW AQCSFRC_CSFB_MASK s
       in (s, g))"

text \<open>The loop that picks the clock divider: the shift and the period in clock ticks.\<close>

function tone_period :: "u32 \<Rightarrow> nat \<Rightarrow> nat \<times> u32" where
  "tone_period freq div_shift =
     (let period = EV3_SOUND_TBCLK_HZ div push_bit div_shift freq
      in if period \<le> 0xFFFF \<or> div_shift \<ge> 7 then (div_shift, period) else tone_period freq (Suc div_shift))"
  by auto
termination by (relation "measure (\<lambda>(_, s). 7 - s)") auto

declare tone_period.simps [simp del]

definition ev3_sound_tone :: "int \<Rightarrow> sound_world \<Rightarrow> sound_world" where
  "ev3_sound_tone freq_hz = (\<lambda>(s, g).
     if \<not> so_inited s then (s, g)
     else if freq_hz \<le> 0 \<or> so_volume s = 0 then ev3_sound_stop (s, g)
     else
       let f = (if freq_hz < EV3_SOUND_MIN_FREQ then EV3_SOUND_MIN_FREQ else freq_hz);
           f = (if f > EV3_SOUND_MAX_FREQ then EV3_SOUND_MAX_FREQ else f);
           (div_shift, period) = tone_period (word_of_int f) 0;
           period = (if period > 0xFFFF then 0xFFFF else period);
           period = (if period < 2 then 2 else period);
           s = sound_reg16_set (EHRPWM0_BASE + TBCTL) TBCTL_CTRMODE_FREEZE TBCTL_CTRMODE_MASK s;
           s = sound_reg16_set (EHRPWM0_BASE + TBCTL) (push_bit 7 (of_nat div_shift)) TBCTL_CLKDIV_MASK s;
           s = sound_writew (ucast (period - 1)) (EHRPWM0_BASE + TBPRD) s;
           duty = period * word_of_int (so_volume s) div 200;
           duty = (if duty < 1 then 1 else duty);
           s = sound_writew (ucast duty) (EHRPWM0_BASE + CMPB) s;
           s = sound_reg16_set (EHRPWM0_BASE + AQCSFRC) AQCSFRC_CSFB_FRCDIS AQCSFRC_CSFB_MASK s;
           s = sound_reg16_set (EHRPWM0_BASE + AQSFRC) AQSFRC_RLDCSF_ZRO AQSFRC_RLDCSF_MASK s;
           s = sound_reg16_set (EHRPWM0_BASE + TBCTL) TBCTL_CTRMODE_UP TBCTL_CTRMODE_MASK s
       in ev3_sound_enable_amp True (s, g))"

section \<open>What the registers say\<close>

text \<open>The generator runs, and its settings; the output is forced low.\<close>

definition sound_running :: "sound_state \<Rightarrow> bool" where
  "sound_running s \<longleftrightarrow> so_mmio s (EHRPWM0_BASE + TBCTL) AND 3 = 0 \<and> so_mmio s (EHRPWM0_BASE + AQCSFRC) AND 12 = 0"

definition sound_stopped :: "sound_state \<Rightarrow> bool" where
  "sound_stopped s \<longleftrightarrow> so_mmio s (EHRPWM0_BASE + TBCTL) AND 3 = 3 \<and> so_mmio s (EHRPWM0_BASE + AQCSFRC) AND 12 = 4"

definition sound_clkdiv :: "sound_state \<Rightarrow> u16" where
  "sound_clkdiv s = drop_bit 7 (so_mmio s (EHRPWM0_BASE + TBCTL)) AND 0x3f"

definition sound_ok :: "sound_world \<Rightarrow> bool" where
  "sound_ok = (\<lambda>(s, g). so_inited s \<and> 0 \<le> so_volume s \<and> so_volume s \<le> 100 \<and> gpio_inv g \<and> pin_is_output g PIN_AMP_ENABLE)"

lemma amp_pin [simp]: "valid_pin PIN_AMP_ENABLE"
  by (simp add: valid_pin_def PIN_AMP_ENABLE_def MAX_GPIO_def)

lemma sound_reg_simps [simp]:
  "so_inited (sound_reg16_set a v m s) = so_inited s" "so_volume (sound_reg16_set a v m s) = so_volume s"
  "so_inited (sound_writew v a s) = so_inited s" "so_volume (sound_writew v a s) = so_volume s"
  "so_mmio (sound_writew v a s) b = (if b = a then v else so_mmio s b)"
  by (simp_all add: sound_reg16_set_def sound_writew_def)

lemma reg16_set_field:
  "so_mmio (sound_reg16_set a v m s) b = (if b = a then (so_mmio s a AND NOT m) OR (v AND m) else so_mmio s b)"
  by (simp add: sound_reg16_set_def sound_writew_def)

text \<open>A masked store sets the bits of the mask and keeps the others.\<close>

lemma masked_bits:
  "(((r AND NOT m) OR (v AND m)) AND m) = (v AND m :: u16)"
  "m AND k = 0 \<Longrightarrow> ((r AND NOT m) OR (v AND m)) AND k = (r AND k :: u16)"
proof -
  show "(((r AND NOT m) OR (v AND m)) AND m) = (v AND m)" by (rule bit_eqI) (auto simp: bit_simps)
  assume "m AND k = 0"
  then have "\<not> (bit m n \<and> bit k n)" for n by (metis bit_and_iff bit_0_eq bot_apply bot_bool_def)
  then show "((r AND NOT m) OR (v AND m)) AND k = (r AND k)" by (intro bit_eqI) (auto simp: bit_simps)
qed

lemma stop_result:
  assumes "sound_ok (s, g)"
  shows "\<exists>s' g'. ev3_sound_stop (s, g) = (s', g') \<and> sound_ok (s', g') \<and> so_volume s' = so_volume s \<and> sound_stopped s' \<and>
    g' = ev3_gpio_write PIN_AMP_ENABLE False g \<and> \<not> pin_level g' PIN_AMP_ENABLE"
proof -
  have "sound_stopped (fst (ev3_sound_stop (s, g)))"
    using assms masked_bits(1) [of _ 3 3] masked_bits(1) [of _ 12 4]
    by (simp add: sound_ok_def ev3_sound_stop_def ev3_sound_enable_amp_def Let_def sound_stopped_def reg16_set_field
        sound_consts pwm_consts)
  with assms show ?thesis
    by (auto simp: sound_ok_def ev3_sound_stop_def ev3_sound_enable_amp_def Let_def level_write)
qed

section \<open>Tones\<close>

lemma shifted_freq:
  assumes "unat (f::u32) \<le> 12000" "k \<le> 7"
  shows "unat (push_bit k f) = unat f * 2 ^ k"
proof -
  have "(2::nat) ^ k \<le> 2 ^ 7" using assms(2) by (intro power_increasing) auto
  then have "unat f * 2 ^ k \<le> 12000 * 2 ^ 7" using assms(1) by (intro mult_le_mono) auto
  then have "unat f * 2 ^ k < 2 ^ 32" by simp
  moreover have "unat (push_bit k f) = take_bit 32 (push_bit k (unat f))" by (simp only: unsigned_push_bit_eq) simp
  ultimately show ?thesis by (simp only: push_bit_eq_mult take_bit_nat_eq_self)
qed

lemma tone_search:
  assumes "100 \<le> unat f" "unat f \<le> 12000" "k \<le> 5" "\<forall>j < k. 65535 < 150000000 div (unat f * 2 ^ j)"
  shows "\<exists>n p. tone_period f k = (n, p) \<and> n \<le> 5 \<and> unat p = 150000000 div (unat f * 2 ^ n) \<and> unat p \<le> 65535 \<and>
    (\<forall>j < n. 65535 < 150000000 div (unat f * 2 ^ j))"
  using assms(3,4)
proof (induction "5 - k" arbitrary: k)
  case 0
  then have k: "k = 5" by simp
  have "150000000 div (unat f * 2 ^ 5) \<le> 150000000 div (100 * 2 ^ 5)"
    using assms(1) by (intro div_le_mono2) auto
  moreover have "unat (EV3_SOUND_TBCLK_HZ div push_bit 5 f) = 150000000 div (unat f * 2 ^ 5)"
    using shifted_freq [OF assms(2), of 5] by (simp add: unat_div EV3_SOUND_TBCLK_HZ_def)
  ultimately show ?case
    using 0 k by (subst tone_period.simps) (auto simp: Let_def word_le_nat_alt)
next
  case (Suc m)
  have u: "unat (EV3_SOUND_TBCLK_HZ div push_bit k f) = 150000000 div (unat f * 2 ^ k)"
    using shifted_freq [OF assms(2), of k] Suc by (simp add: unat_div EV3_SOUND_TBCLK_HZ_def)
  show ?case
  proof (cases "EV3_SOUND_TBCLK_HZ div push_bit k f \<le> 0xFFFF")
    case True
    with Suc u show ?thesis by (subst tone_period.simps) (auto simp: Let_def word_le_nat_alt)
  next
    case False
    with u have "65535 < 150000000 div (unat f * 2 ^ k)" by (simp add: word_le_nat_alt)
    then have "\<forall>j < Suc k. 65535 < 150000000 div (unat f * 2 ^ j)" using Suc.prems by (auto simp: less_Suc_eq)
    with Suc.hyps have "\<exists>n p. tone_period f (Suc k) = (n, p) \<and> n \<le> 5 \<and> unat p = 150000000 div (unat f * 2 ^ n) \<and>
        unat p \<le> 65535 \<and> (\<forall>j < n. 65535 < 150000000 div (unat f * 2 ^ j))" by auto
    moreover have "tone_period f k = tone_period f (Suc k)"
      using False Suc.hyps(2) by (subst tone_period.simps) (auto simp: Let_def)
    ultimately show ?thesis by simp
  qed
qed

text \<open>The period is never so short that the lower limit matters.\<close>

lemma tone_period_result:
  assumes "100 \<le> unat f" "unat f \<le> 12000"
  obtains n p where "tone_period f 0 = (n, p)" "n \<le> 5" "unat p = 150000000 div (unat f * 2 ^ n)" "unat p \<le> 65535"
    "12500 \<le> unat p" "\<forall>j < n. 65535 < 150000000 div (unat f * 2 ^ j)"
proof -
  obtain n p where t: "tone_period f 0 = (n, p)" "n \<le> 5" "unat p = 150000000 div (unat f * 2 ^ n)" "unat p \<le> 65535"
      "\<forall>j < n. 65535 < 150000000 div (unat f * 2 ^ j)"
    using tone_search [OF assms, of 0] by auto
  have "12500 \<le> unat p"
  proof (cases n)
    case 0
    have "150000000 div 12000 \<le> 150000000 div unat f" using assms by (intro div_le_mono2) auto
    with t(3) 0 show ?thesis by simp
  next
    case (Suc k)
    then have "65535 < 150000000 div (unat f * 2 ^ k)" using t(5) by simp
    then have "65535 div 2 \<le> 150000000 div (unat f * 2 ^ k) div 2" by (intro div_le_mono) simp
    also have "\<dots> = 150000000 div (unat f * 2 ^ n)" by (simp add: Suc div_mult2_eq [symmetric] mult_ac)
    finally show ?thesis using t(3) by simp
  qed
  with t show ?thesis using that by blast
qed

lemma duty_cycles:
  assumes "unat (p::u32) \<le> 65535" "12500 \<le> unat p" "0 < v" "v \<le> 100"
  shows "unat (p * word_of_int v div 200) = unat p * nat v div 200"
    "1 \<le> unat p * nat v div 200" "2 * (unat p * nat v div 200) \<le> unat p"
proof -
  have v: "unat (word_of_int v :: u32) = nat v" using assms(3,4) by (simp add: unat_eq_nat_uint uint_word_of_int)
  have "unat p * nat v \<le> 65535 * 100" using assms by (intro mult_le_mono) auto
  then show "unat (p * word_of_int v div 200) = unat p * nat v div 200"
    by (simp add: unat_div unat_word_ariths v)
  have "12500 * 1 \<le> unat p * nat v" using assms by (intro mult_le_mono) auto
  then show "1 \<le> unat p * nat v div 200" by (simp add: div_greater_zero_iff Suc_le_eq)
  have "unat p * nat v \<le> unat p * 100" using assms(4) by (intro mult_le_mono2) simp
  then show "2 * (unat p * nat v div 200) \<le> unat p" by linarith
qed

lemma clkdiv_field:
  assumes "n \<le> 5"
  shows "drop_bit 7 ((r AND NOT TBCTL_CLKDIV_MASK) OR (push_bit 7 (of_nat n) AND TBCTL_CLKDIV_MASK)) AND 0x3f = (of_nat n :: u16)"
proof -
  have "n = 0 \<or> n = 1 \<or> n = 2 \<or> n = 3 \<or> n = 4 \<or> n = 5" using assms by auto
  moreover have "drop_bit 7 ((r AND NOT (push_bit 7 0x3f)) OR (push_bit 7 w AND push_bit 7 0x3f)) AND 0x3f = w AND (0x3f :: u16)" for w
  proof (rule bit_eqI)
    have f: "(0x3f::u16) = mask 6" by (simp add: mask_eq_exp_minus_1)
    fix i show "bit (drop_bit 7 ((r AND NOT (push_bit 7 0x3f)) OR (push_bit 7 w AND push_bit 7 0x3f)) AND 0x3f) i = bit (w AND 0x3f) i"
      unfolding f by (auto simp: bit_simps)
  qed
  ultimately show ?thesis by (auto simp: TBCTL_CLKDIV_MASK_def)
qed

text \<open>The register writes of a tone with divider \<open>n\<close>, period \<open>p\<close> and on-time \<open>duty\<close>.\<close>

definition tone_regs :: "nat \<Rightarrow> u32 \<Rightarrow> u32 \<Rightarrow> sound_state \<Rightarrow> sound_state" where
  "tone_regs n p duty s =
     sound_reg16_set (EHRPWM0_BASE + TBCTL) TBCTL_CTRMODE_UP TBCTL_CTRMODE_MASK
       (sound_reg16_set (EHRPWM0_BASE + AQSFRC) AQSFRC_RLDCSF_ZRO AQSFRC_RLDCSF_MASK
         (sound_reg16_set (EHRPWM0_BASE + AQCSFRC) AQCSFRC_CSFB_FRCDIS AQCSFRC_CSFB_MASK
           (sound_writew (ucast duty) (EHRPWM0_BASE + CMPB)
             (sound_writew (ucast (p - 1)) (EHRPWM0_BASE + TBPRD)
               (sound_reg16_set (EHRPWM0_BASE + TBCTL) (push_bit 7 (of_nat n)) TBCTL_CLKDIV_MASK
                 (sound_reg16_set (EHRPWM0_BASE + TBCTL) TBCTL_CTRMODE_FREEZE TBCTL_CTRMODE_MASK s))))))"

lemma tone_regs_simps [simp]: "so_inited (tone_regs n p duty s) = so_inited s" "so_volume (tone_regs n p duty s) = so_volume s"
  by (simp_all add: tone_regs_def)

lemma tone_regs_mmio:
  "so_mmio (tone_regs n p duty s) (EHRPWM0_BASE + TBPRD) = ucast (p - 1)"
  "so_mmio (tone_regs n p duty s) (EHRPWM0_BASE + CMPB) = ucast duty"
  by (simp_all add: tone_regs_def reg16_set_field EHRPWM0_BASE_def pwm_consts)

lemma tone_regs_running: "sound_running (tone_regs n p duty s)"
  using masked_bits(1) [of _ 3 0] masked_bits(1) [of _ 12 0]
  by (simp add: sound_running_def tone_regs_def reg16_set_field sound_consts pwm_consts)

lemma tone_regs_clkdiv:
  assumes "n \<le> 5"
  shows "sound_clkdiv (tone_regs n p duty s) = of_nat n"
proof -
  have "drop_bit 7 (x AND NOT 3) AND 0x3f = drop_bit 7 x AND (0x3f :: u16)" for x
  proof (rule bit_eqI)
    have f: "(3::u16) = mask 2" "(0x3f::u16) = mask 6" by (simp_all add: mask_eq_exp_minus_1)
    fix i show "bit (drop_bit 7 (x AND NOT 3) AND 0x3f) i = bit (drop_bit 7 x AND (0x3f :: u16)) i"
      unfolding f by (auto simp: bit_simps)
  qed
  moreover obtain r where "so_mmio (tone_regs n p duty s) (EHRPWM0_BASE + TBCTL) =
      ((r AND NOT TBCTL_CLKDIV_MASK) OR (push_bit 7 (of_nat n) AND TBCTL_CLKDIV_MASK)) AND NOT 3"
    by (rule that [of "(so_mmio s EHRPWM0_BASE AND NOT 3) OR 3"])
       (simp add: tone_regs_def reg16_set_field TBCTL_CTRMODE_UP_def TBCTL_CTRMODE_MASK_def TBCTL_CTRMODE_FREEZE_def
        EHRPWM0_BASE_def pwm_consts)
  ultimately show ?thesis using clkdiv_field [OF assms] by (simp only: sound_clkdiv_def)
qed

text \<open>The settings the code computes for a tone.\<close>

lemma tone_result:
  assumes "sound_ok (s, g)" "0 < freq" "0 < so_volume s"
  defines "f \<equiv> nat (max 100 (min 12000 freq))"
  obtains n p where "ev3_sound_tone freq (s, g) =
      (tone_regs n p (p * word_of_int (so_volume s) div 200) s, ev3_gpio_write PIN_AMP_ENABLE True g)"
    "n \<le> 5" "unat p = 150000000 div (f * 2 ^ n)" "unat p \<le> 65535" "12500 \<le> unat p"
    "\<forall>j < n. 65535 < 150000000 div (f * 2 ^ j)"
proof -
  define w :: u32 where "w = word_of_int (max 100 (min 12000 freq))"
  have w: "unat w = f" by (simp add: w_def f_def unat_eq_nat_uint uint_word_of_int)
  then have "100 \<le> unat w" "unat w \<le> 12000" by (auto simp: f_def)
  then obtain n p where t: "tone_period w 0 = (n, p)" "n \<le> 5" "unat p = 150000000 div (unat w * 2 ^ n)" "unat p \<le> 65535"
    "12500 \<le> unat p" "\<forall>j < n. 65535 < 150000000 div (unat w * 2 ^ j)" by (rule tone_period_result)
  have v: "0 < so_volume s" "so_volume s \<le> 100" using assms by (auto simp: sound_ok_def)
  have np: "\<not> p > 0xFFFF" "\<not> p < 2" "\<not> p * word_of_int (so_volume s) div 200 < 1"
    using t(4,5) duty_cycles(1,2) [OF t(4,5) v] by (simp_all add: word_less_nat_alt)
  have c: "(if (if freq < EV3_SOUND_MIN_FREQ then EV3_SOUND_MIN_FREQ else freq) > EV3_SOUND_MAX_FREQ then EV3_SOUND_MAX_FREQ
      else if freq < EV3_SOUND_MIN_FREQ then EV3_SOUND_MIN_FREQ else freq) = max 100 (min 12000 freq)"
    by (simp add: EV3_SOUND_MIN_FREQ_def EV3_SOUND_MAX_FREQ_def)
  have "ev3_sound_tone freq (s, g) =
      (tone_regs n p (p * word_of_int (so_volume s) div 200) s, ev3_gpio_write PIN_AMP_ENABLE True g)"
    using assms(1,2) v(1) np unfolding ev3_sound_tone_def Let_def prod.case c w_def [symmetric] t(1)
    by (simp add: sound_ok_def ev3_sound_enable_amp_def tone_regs_def)
  with t w show ?thesis using that by simp
qed

text \<open>
  The tone generator plays what is asked: for a positive frequency and a volume above zero the frequency is
  limited to 100 to 12000 Hz, the clock divider is the smallest power of two whose period fits the
  16-bit register, the period is the clock divided by the tone rounded down, the duty cycle is half the
  volume percentage of the period (never zero, never above one half), the counter runs with the output
  released, and the amplifier is switched on.
\<close>

theorem sound_tone_exact:
  assumes "sound_ok (s, g)" "0 < freq" "0 < so_volume s"
  shows "\<exists>s' g' n. ev3_sound_tone freq (s, g) = (s', g') \<and> sound_running s' \<and> pin_level g' PIN_AMP_ENABLE \<and>
    n \<le> 5 \<and> sound_clkdiv s' = of_nat n \<and>
    (let f = nat (max 100 (min 12000 freq)); period = 150000000 div (f * 2 ^ n) in
       (\<forall>j < n. 65535 < 150000000 div (f * 2 ^ j)) \<and>
       unat (so_mmio s' (EHRPWM0_BASE + TBPRD)) + 1 = period \<and>
       unat (so_mmio s' (EHRPWM0_BASE + CMPB)) = period * nat (so_volume s) div 200 \<and>
       1 \<le> period * nat (so_volume s) div 200 \<and> 2 * (period * nat (so_volume s) div 200) \<le> period)"
proof -
  obtain n p where t: "ev3_sound_tone freq (s, g) =
      (tone_regs n p (p * word_of_int (so_volume s) div 200) s, ev3_gpio_write PIN_AMP_ENABLE True g)"
    "n \<le> 5" "unat p = 150000000 div (nat (max 100 (min 12000 freq)) * 2 ^ n)" "unat p \<le> 65535" "12500 \<le> unat p"
    "\<forall>j < n. 65535 < 150000000 div (nat (max 100 (min 12000 freq)) * 2 ^ j)" using assms by (rule tone_result)
  have v: "0 < so_volume s" "so_volume s \<le> 100" using assms by (auto simp: sound_ok_def)
  note d = duty_cycles [OF t(4,5) v]
  have "unat (p - 1) = unat p - 1" using t(5) by (simp add: unat_sub word_le_nat_alt)
  then have "unat (ucast (p - 1) :: u16) + 1 = unat p"
    using t(4,5) by (simp add: unsigned_ucast_eq take_bit_nat_eq_self)
  moreover have "unat (ucast (p * word_of_int (so_volume s) div 200) :: u16) = unat p * nat (so_volume s) div 200"
    using d t(4) by (simp add: unsigned_ucast_eq take_bit_nat_eq_self)
  moreover have "pin_level (ev3_gpio_write PIN_AMP_ENABLE True g) PIN_AMP_ENABLE"
    using assms(1) by (simp add: sound_ok_def level_write)
  ultimately show ?thesis
    using t(1,2,6) d(2,3) tone_regs_running tone_regs_clkdiv [OF t(2)] tone_regs_mmio unfolding Let_def t(3) [symmetric]
    by (intro exI [of _ "tone_regs n p (p * word_of_int (so_volume s) div 200) s"]
        exI [of _ "ev3_gpio_write PIN_AMP_ENABLE True g"] exI [of _ n] conjI) (simp_all flip: t(3))
qed

definition demo_sound :: sound_state where
  "demo_sound = \<lparr>so_inited = False, so_volume = 100, so_mmio = (\<lambda>_. 0)\<rparr>"

lemma init_result:
  assumes "gpio_inv g" "\<not> so_inited s" "0 \<le> so_volume s" "so_volume s \<le> 100"
  shows "\<exists>s' g'. ev3_sound_init (s, g) = (s', g') \<and> sound_ok (s', g') \<and> so_volume s' = so_volume s \<and> sound_stopped s' \<and>
    \<not> pin_level g' PIN_AMP_ENABLE"
proof -
  define g1 where "g1 = ev3_syscfg_write (EV3_SYSCFG_PINMUX 3) (push_bit 4 2) 0xf0
    (ev3_syscfg_write EV3_SYSCFG_CFGCHIP1 CFGCHIP1_TBCLKSYNC CFGCHIP1_TBCLKSYNC (psc_module_enable SOUND_PSC1_BASE PSC_MOD_EHRPWM g))"
  define g2 where "g2 = ev3_gpio_write PIN_AMP_ENABLE False (ev3_gpio_config PIN_AMP_ENABLE GPIO_OUTPUT g1)"
  have "gpio_inv g1" using assms(1) by (simp add: g1_def ev3_syscfg_write_def psc_module_enable_def gpio_inv_def)
  then have g2: "gpio_inv g2" "\<not> pin_level g2 PIN_AMP_ENABLE" "pin_is_output g2 PIN_AMP_ENABLE"
    by (simp_all add: g2_def level_write config_output)
  obtain s' where e: "ev3_sound_init (s, g) = (s', g2)" "so_inited s'" "so_volume s' = so_volume s" "sound_stopped s'"
  proof
    show "ev3_sound_init (s, g) = (fst (ev3_sound_init (s, g)), g2)"
      using assms(2) by (simp add: ev3_sound_init_def Let_def g2_def g1_def)
    show "so_inited (fst (ev3_sound_init (s, g)))" "so_volume (fst (ev3_sound_init (s, g))) = so_volume s"
      using assms(2) by (simp_all add: ev3_sound_init_def Let_def)
    show "sound_stopped (fst (ev3_sound_init (s, g)))"
      using assms(2) masked_bits(1) [of _ 12 4] masked_bits(1) [of _ 3 3]
        masked_bits(2) [of "TBCTL_CLKDIV_MASK" 3 _ 0] masked_bits(2) [of "8" 3 _ 0]
      by (simp add: ev3_sound_init_def Let_def sound_stopped_def reg16_set_field pwm_consts sound_consts)
  qed
  with g2 assms(3,4) show ?thesis by (simp add: sound_ok_def)
qed

theorem sound_tone_exact_witness:
  "\<exists>s' g' n. ev3_sound_tone 440 (ev3_sound_init (demo_sound, demo_gpio)) = (s', g') \<and> pin_level g' PIN_AMP_ENABLE \<and>
     unat (so_mmio s' (EHRPWM0_BASE + TBPRD)) + 1 = 150000000 div (440 * 2 ^ n) \<and> n \<le> 5"
proof -
  have "gpio_inv demo_gpio" by (simp add: gpio_inv_def demo_gpio_def)
  then obtain s g where i: "ev3_sound_init (demo_sound, demo_gpio) = (s, g)" "sound_ok (s, g)" "so_volume s = 100"
    using init_result [of demo_gpio demo_sound] by (auto simp: demo_sound_def)
  show ?thesis using sound_tone_exact [OF i(2), of 440] i by (auto simp: Let_def)
qed

end
