(* ===== verification/Ev3_Beep.thy ===== *)
theory Ev3_Beep
  imports Ev3_Sound
begin

text \<open>
  The beeper daemon (\<^verbatim>\<open>src/lego.ev3/system/drivers/beepd/beepd.c\<close>): tones, timed beeps and melodies over the loudspeaker,
  with its binary and shell interfaces.

  The variables are the record \<open>beepd\<close>, paired with the sound and GPIO state; the clock reading of a call is an argument.
  The pointer to the melody being played is the note table itself, or \<open>None\<close>. A command record is \<open>None\<close> when the
  caller passes none or the message is too short.
\<close>

section \<open>State\<close>

record beep_note =
  no_freq :: int
  no_ms :: int

definition mk_notes :: "(int \<times> int) list \<Rightarrow> beep_note list" where
  "mk_notes = map (\<lambda>(f, m). \<lparr>no_freq = f, no_ms = m\<rparr>)"

definition melody_startup :: "beep_note list" where
  "melody_startup = mk_notes [(523, 100), (659, 100), (784, 100), (1047, 200), (0, 0)]"

definition melody_beep_twice :: "beep_note list" where
  "melody_beep_twice = mk_notes [(880, 120), (0, 60), (880, 120), (0, 0)]"

definition melody_alert :: "beep_note list" where
  "melody_alert = mk_notes [(1200, 80), (900, 80), (1200, 80), (900, 80), (0, 0)]"

record beepd =
  bp_cur_freq :: int
  bp_tone_deadline :: u64
  bp_melody :: "beep_note list option"
  bp_melody_id :: int
  bp_melody_idx :: nat
  bp_melody_next :: u64

record beep_cmd_rec =
  bc_cmd :: int
  bc_freq_hz :: int
  bc_duration_ms :: int
  bc_volume :: int
  bc_melody :: int

record beep_state_rec =
  bs_playing :: int
  bs_freq_hz :: int
  bs_remain_ms :: int
  bs_volume :: int
  bs_melody :: int

definition BEEP_CNTL_PLAY :: int where "BEEP_CNTL_PLAY = 1"
definition BEEP_CNTL_GET :: int where "BEEP_CNTL_GET = 2"
definition BEEP_CMD_TONE :: int where "BEEP_CMD_TONE = 1"
definition BEEP_CMD_BEEP :: int where "BEEP_CMD_BEEP = 2"
definition BEEP_CMD_STOP :: int where "BEEP_CMD_STOP = 3"
definition BEEP_CMD_MELODY :: int where "BEEP_CMD_MELODY = 4"
definition sizeof_beep_cmd :: int where "sizeof_beep_cmd = 20"
definition sizeof_beep_state :: int where "sizeof_beep_state = 20"

type_synonym beep_world = "beepd \<times> sound_world"

section \<open>Playing\<close>

definition play_freq :: "int \<Rightarrow> beep_world \<Rightarrow> beep_world" where
  "play_freq freq = (\<lambda>(d, w).
     (d\<lparr>bp_cur_freq := (if freq > 0 then freq else 0)\<rparr>, if freq > 0 then ev3_sound_tone freq w else ev3_sound_stop w))"

definition stop_sound :: "beep_world \<Rightarrow> beep_world" where
  "stop_sound = (\<lambda>(d, w). play_freq 0 (d\<lparr>bp_tone_deadline := 0, bp_melody := None, bp_melody_id := 0\<rparr>, w))"

definition start_tone :: "int \<Rightarrow> beep_world \<Rightarrow> beep_world" where
  "start_tone freq = (\<lambda>(d, w). play_freq freq (d\<lparr>bp_melody := None, bp_melody_id := 0, bp_tone_deadline := 0\<rparr>, w))"

definition start_beep :: "u64 \<Rightarrow> int \<Rightarrow> int \<Rightarrow> beep_world \<Rightarrow> beep_world" where
  "start_beep now freq ms = (\<lambda>(d, w).
     let ms = (if ms < 10 then 10 else ms)
     in play_freq freq (d\<lparr>bp_melody := None, bp_melody_id := 0, bp_tone_deadline := now + word_of_int ms\<rparr>, w))"

definition melody_table :: "int \<Rightarrow> beep_note list option" where
  "melody_table i =
     (if i = 1 then Some melody_startup else if i = 2 then Some melody_beep_twice
      else if i = 3 then Some melody_alert else None)"

definition start_melody :: "u64 \<Rightarrow> int \<Rightarrow> beep_world \<Rightarrow> beep_world" where
  "start_melody now i = (\<lambda>(d, w).
     let d = d\<lparr>bp_tone_deadline := 0, bp_melody := melody_table i,
               bp_melody_id := (if melody_table i \<noteq> None then i else 0), bp_melody_idx := 0, bp_melody_next := 0\<rparr>
     in case bp_melody d of
          Some notes \<Rightarrow>
            let (d, w) = play_freq (no_freq (notes ! 0)) (d, w)
            in (d\<lparr>bp_melody_next := now + word_of_int (no_ms (notes ! 0))\<rparr>, w)
        | None \<Rightarrow> play_freq 0 (d, w))"

definition set_volume :: "int \<Rightarrow> beep_world \<Rightarrow> beep_world" where
  "set_volume v = (\<lambda>(d, s, g). (d, ev3_sound_set_volume v s, g))"

definition beep_do_command :: "u64 \<Rightarrow> beep_cmd_rec \<Rightarrow> beep_world \<Rightarrow> int \<times> beep_world" where
  "beep_do_command now c w =
     (let w = (if bc_volume c > 0 then set_volume (bc_volume c) w else w)
      in if bc_cmd c = BEEP_CMD_TONE then (0, start_tone (bc_freq_hz c) w)
         else if bc_cmd c = BEEP_CMD_BEEP then (0, start_beep now (bc_freq_hz c) (bc_duration_ms c) w)
         else if bc_cmd c = BEEP_CMD_STOP then (0, stop_sound w)
         else if bc_cmd c = BEEP_CMD_MELODY then (0, start_melody now (bc_melody c) w)
         else (-1, w))"

definition beep_get_state :: "u64 \<Rightarrow> beep_world \<Rightarrow> beep_state_rec" where
  "beep_get_state now = (\<lambda>(d, s, g).
     let playing = (if bp_cur_freq d > 0 \<or> bp_melody d \<noteq> None then 1 else 0)
     in \<lparr>bs_playing = playing, bs_freq_hz = bp_cur_freq d,
         bs_remain_ms =
           (if bp_melody d \<noteq> None then -1
            else if bp_tone_deadline d = 0 then (if playing \<noteq> 0 then -1 else 0)
            else if now \<ge> bp_tone_deadline d then 0
            else sint (ucast (bp_tone_deadline d - now) :: u32)),
         bs_volume = so_volume s, bs_melody = bp_melody_id d\<rparr>)"

section \<open>Clients\<close>

definition beep_read :: "u64 \<Rightarrow> int \<Rightarrow> beep_world \<Rightarrow> int \<times> beep_state_rec" where
  "beep_read now sz w = ((if sz > sizeof_beep_state then sizeof_beep_state else sz), beep_get_state now w)"

definition beep_write :: "u64 \<Rightarrow> beep_cmd_rec option \<Rightarrow> int \<Rightarrow> beep_world \<Rightarrow> int \<times> beep_world" where
  "beep_write now buf sz w =
     (case buf of
        None \<Rightarrow> (-1, w)
      | Some c \<Rightarrow>
          if sz < sizeof_beep_cmd then (-1, w)
          else let (r, w) = beep_do_command now c w in (if r \<noteq> 0 then -1 else sizeof_beep_cmd, w))"

definition beep_dev_cntl ::
  "u64 \<Rightarrow> int \<Rightarrow> beep_cmd_rec option \<Rightarrow> beep_world \<Rightarrow> (int \<times> beep_state_rec option) \<times> beep_world" where
  "beep_dev_cntl now cmd msg w =
     (if cmd = BEEP_CNTL_PLAY then
        (case msg of
           None \<Rightarrow> ((-1, None), w)
         | Some c \<Rightarrow> let (r, w) = beep_do_command now c w in ((r, None), w))
      else if cmd = BEEP_CNTL_GET then ((0, Some (beep_get_state now w)), w)
      else ((-1, None), w))"

datatype beep_text = BeepUsage | BeepTone int | BeepTimed int int | BeepStopped | BeepMelody int | BeepVolume int
  | BeepStatus beep_state_rec

definition beep_cmd :: "u64 \<Rightarrow> string list \<Rightarrow> beep_world \<Rightarrow> beep_text \<times> beep_world" where
  "beep_cmd now argv w =
     (if argv = [] then (BeepUsage, w)
      else if argv ! 0 = ''tone'' then
        let hz = (if length argv > 1 then atoi (argv ! 1) else 440) in (BeepTone hz, start_tone hz w)
      else if argv ! 0 = ''beep'' then
        let hz = (if length argv > 1 then atoi (argv ! 1) else 1000);
            ms = (if length argv > 2 then atoi (argv ! 2) else 200)
        in (BeepTimed hz ms, start_beep now hz ms w)
      else if argv ! 0 = ''stop'' then (BeepStopped, stop_sound w)
      else if argv ! 0 = ''melody'' then
        let w = start_melody now (if length argv > 1 then atoi (argv ! 1) else 1) w
        in (BeepMelody (bp_melody_id (fst w)), w)
      else if argv ! 0 = ''volume'' then
        let w = (if length argv > 1 then set_volume (atoi (argv ! 1)) w else w)
        in (BeepVolume (so_volume (fst (snd w))), w)
      else if argv ! 0 = ''status'' then (BeepStatus (beep_get_state now w), w)
      else (BeepUsage, w))"

section \<open>Timing\<close>

definition tone_timeout :: "u64 \<Rightarrow> beep_world \<Rightarrow> beep_world" where
  "tone_timeout now = (\<lambda>(d, w).
     if bp_tone_deadline d > 0 \<and> now \<ge> bp_tone_deadline d then play_freq 0 (d\<lparr>bp_tone_deadline := 0\<rparr>, w) else (d, w))"

definition melody_advance :: "u64 \<Rightarrow> beep_world \<Rightarrow> beep_world" where
  "melody_advance now = (\<lambda>(d, w).
     case bp_melody d of
       None \<Rightarrow> (d, w)
     | Some notes \<Rightarrow>
         if bp_melody_next d > 0 \<and> now \<ge> bp_melody_next d then
           let d = d\<lparr>bp_melody_idx := Suc (bp_melody_idx d)\<rparr>;
               n = notes ! bp_melody_idx d
           in if no_freq n = 0 \<and> no_ms n = 0
              then play_freq 0 (d\<lparr>bp_melody := None, bp_melody_id := 0\<rparr>, w)
              else
                let (d, w) = play_freq (no_freq n) (d, w)
                in (d\<lparr>bp_melody_next := now + word_of_int (no_ms n)\<rparr>, w)
         else (d, w))"

definition beep_loop :: "u64 \<Rightarrow> beep_world \<Rightarrow> beep_world" where
  "beep_loop now w = melody_advance now (tone_timeout now w)"

definition beep_main :: "sound_world \<Rightarrow> beep_world" where
  "beep_main w =
     (\<lparr>bp_cur_freq = 0, bp_tone_deadline = 0, bp_melody = None, bp_melody_id = 0, bp_melody_idx = 0, bp_melody_next = 0\<rparr>,
      ev3_sound_stop (ev3_sound_init w))"

inductive beep_step :: "beep_world \<Rightarrow> beep_world \<Rightarrow> bool" where
  beep_round: "beep_step w (beep_loop now w)"
| beep_written: "beep_step w (snd (beep_write now buf sz w))"
| beep_control: "beep_step w (snd (beep_dev_cntl now cmd msg w))"
| beep_shell: "beep_step w (snd (beep_cmd now argv w))"

section \<open>Safety\<close>

text \<open>What the loudspeaker does, apart from the melody: amplifier and generator are on together, and off when the
  daemon counts itself silent.\<close>

definition speaker_inv :: "beep_world \<Rightarrow> bool" where
  "speaker_inv = (\<lambda>(d, s, g). sound_ok (s, g) \<and> 0 \<le> bp_cur_freq d \<and>
     (if pin_level g PIN_AMP_ENABLE then 0 < bp_cur_freq d \<and> sound_running s else sound_stopped s))"

text \<open>The melody position is a note of the table, before the terminator.\<close>

definition melody_inv :: "beepd \<Rightarrow> bool" where
  "melody_inv d \<longleftrightarrow>
     (case bp_melody d of
        None \<Rightarrow> bp_melody_id d = 0
      | Some tune \<Rightarrow> bp_tone_deadline d = 0 \<and> melody_table (bp_melody_id d) = Some tune \<and>
          Suc (bp_melody_idx d) < length tune)"

definition beep_inv :: "beep_world \<Rightarrow> bool" where
  "beep_inv w \<longleftrightarrow> speaker_inv w \<and> melody_inv (fst w)"

lemma melody_tables:
  assumes "melody_table i = Some tune"
  shows "2 \<le> length tune" "tune ! (length tune - 1) = \<lparr>no_freq = 0, no_ms = 0\<rparr>"
    "k < length tune - 1 \<Longrightarrow> 0 < no_ms (tune ! k) \<and> no_ms (tune ! k) \<le> 200 \<and> 0 \<le> no_freq (tune ! k)"
proof -
  have c: "tune \<in> {melody_startup, melody_beep_twice, melody_alert}"
    using assms by (auto simp: melody_table_def split: if_splits)
  then show "2 \<le> length tune" "tune ! (length tune - 1) = \<lparr>no_freq = 0, no_ms = 0\<rparr>"
    by (auto simp: melody_startup_def melody_beep_twice_def melody_alert_def mk_notes_def)
  have "list_all (\<lambda>n. 0 < no_ms n \<and> no_ms n \<le> 200 \<and> 0 \<le> no_freq n) (butlast tune)"
    using c by (auto simp: melody_startup_def melody_beep_twice_def melody_alert_def mk_notes_def)
  then show "k < length tune - 1 \<Longrightarrow> 0 < no_ms (tune ! k) \<and> no_ms (tune ! k) \<le> 200 \<and> 0 \<le> no_freq (tune ! k)"
    by (simp add: list_all_length nth_butlast)
qed

lemma play_fields:
  "fst (play_freq f (d, w)) = d\<lparr>bp_cur_freq := (if f > 0 then f else 0)\<rparr>"
  by (simp add: play_freq_def)

text \<open>Starting or stopping the tone establishes the speaker part, whatever the other variables.\<close>

lemma play_speaker:
  assumes "sound_ok w"
  shows "speaker_inv (play_freq f (d, w))" "so_volume (fst (snd (play_freq f (d, w)))) = so_volume (fst w)"
    "pin_level (snd (snd (play_freq f (d, w)))) PIN_AMP_ENABLE = (0 < f \<and> 0 < so_volume (fst w))"
proof -
  obtain s g where w: "w = (s, g)" by (cases w)
  have ok: "sound_ok (s, g)" using assms w by simp
  obtain s' g' where st: "ev3_sound_stop (s, g) = (s', g')" "sound_ok (s', g')" "so_volume s' = so_volume s" "sound_stopped s'"
    "\<not> pin_level g' PIN_AMP_ENABLE" using stop_result [OF ok] by blast
  have "speaker_inv (play_freq f (d, w)) \<and> so_volume (fst (snd (play_freq f (d, w)))) = so_volume (fst w) \<and>
    pin_level (snd (snd (play_freq f (d, w)))) PIN_AMP_ENABLE = (0 < f \<and> 0 < so_volume (fst w))"
  proof (cases "0 < f \<and> 0 < so_volume s")
    case True
    obtain n p where t: "ev3_sound_tone f (s, g) =
        (tone_regs n p (p * word_of_int (so_volume s) div 200) s, ev3_gpio_write PIN_AMP_ENABLE True g)"
      using tone_result [OF ok True [THEN conjunct1] True [THEN conjunct2]] by metis
    then show ?thesis
      using True ok by (simp add: w play_freq_def speaker_inv_def sound_ok_def level_write tone_regs_running)
  next
    case False
    then have "play_freq f (d, w) = (d\<lparr>bp_cur_freq := (if f > 0 then f else 0)\<rparr>, s', g')"
      using ok st(1) by (auto simp: w play_freq_def ev3_sound_tone_def sound_ok_def)
    with False st w show ?thesis by (simp add: speaker_inv_def)
  qed
  then show "speaker_inv (play_freq f (d, w))" "so_volume (fst (snd (play_freq f (d, w)))) = so_volume (fst w)"
    "pin_level (snd (snd (play_freq f (d, w)))) PIN_AMP_ENABLE = (0 < f \<and> 0 < so_volume (fst w))" by auto
qed

lemma speaker_vars:
  "bp_cur_freq d' = bp_cur_freq d \<Longrightarrow> speaker_inv (d, w) \<Longrightarrow> speaker_inv (d', w)"
  by (auto simp: speaker_inv_def)

lemma melody_inv_upd [simp]:
  "melody_inv (d\<lparr>bp_cur_freq := f\<rparr>) = melody_inv d" "melody_inv (d\<lparr>bp_melody_next := t\<rparr>) = melody_inv d"
  by (simp_all add: melody_inv_def split: option.split)

lemma speaker_sound: "speaker_inv (d, w) \<Longrightarrow> sound_ok w"
  by (auto simp: speaker_inv_def)

lemma beep_inv_parts: "beep_inv (d, w) \<Longrightarrow> speaker_inv (d, w) \<and> sound_ok w \<and> melody_inv d"
  by (auto simp: beep_inv_def intro: speaker_sound)

lemma play_inv:
  assumes "sound_ok w" "melody_inv d"
  shows "beep_inv (play_freq f (d, w))"
  using play_speaker(1) [OF assms(1), of f d] assms(2) by (simp add: beep_inv_def play_fields)

lemma start_inv:
  assumes "beep_inv w"
  shows "beep_inv (stop_sound w)" "beep_inv (start_tone f w)" "beep_inv (start_beep now f ms w)"
proof -
  obtain d v where w: "w = (d, v)" by (cases w)
  have "sound_ok v" using assms w beep_inv_parts by blast
  then show "beep_inv (stop_sound w)" "beep_inv (start_tone f w)" "beep_inv (start_beep now f ms w)"
    by (simp_all add: w stop_sound_def start_tone_def start_beep_def Let_def play_inv melody_inv_def)
qed

text \<open>Going on to a note: play it and set when it ends.\<close>

lemma next_note_inv:
  assumes "sound_ok w" "melody_inv d"
  shows "beep_inv (case play_freq f (d, w) of (d, w) \<Rightarrow> (d\<lparr>bp_melody_next := t\<rparr>, w))"
proof -
  obtain d' w' where p: "play_freq f (d, w) = (d', w')" by (metis surj_pair)
  have "beep_inv (d', w')" using play_inv [OF assms, of f] p by simp
  then show ?thesis
    using speaker_vars [of "d'\<lparr>bp_melody_next := t\<rparr>" d' w'] by (simp add: p beep_inv_def)
qed

lemma start_melody_inv:
  assumes "beep_inv w"
  shows "beep_inv (start_melody now i w)"
proof -
  obtain d v where w: "w = (d, v)" by (cases w)
  have ok: "sound_ok v" using assms w beep_inv_parts by blast
  show ?thesis
  proof (cases "melody_table i")
    case None
    with ok show ?thesis by (simp add: w start_melody_def Let_def play_inv melody_inv_def)
  next
    case (Some tune)
    with melody_tables(1) [OF Some] ok show ?thesis
      by (simp add: w start_melody_def Let_def next_note_inv melody_inv_def)
  qed
qed

lemma set_volume_inv:
  assumes "beep_inv w"
  shows "beep_inv (set_volume v w)"
proof -
  obtain d s g where w: "w = (d, s, g)" by (metis surj_pair)
  have "so_mmio (ev3_sound_set_volume v s) = so_mmio s" "so_inited (ev3_sound_set_volume v s) = so_inited s"
      "0 \<le> so_volume (ev3_sound_set_volume v s)" "so_volume (ev3_sound_set_volume v s) \<le> 100"
    by (simp_all add: ev3_sound_set_volume_def Let_def)
  with assms w show ?thesis
    by (auto simp: beep_inv_def set_volume_def speaker_inv_def sound_ok_def sound_running_def sound_stopped_def)
qed

lemma timeout_inv:
  assumes "beep_inv w"
  shows "beep_inv (tone_timeout now w)"
proof -
  obtain d v where w: "w = (d, v)" by (cases w)
  have "sound_ok v" "melody_inv (d\<lparr>bp_tone_deadline := 0\<rparr>)"
    using assms w beep_inv_parts [of d v] by (auto simp: melody_inv_def split: option.split)
  with assms w show ?thesis by (auto simp: tone_timeout_def play_inv)
qed

lemma advance_inv:
  assumes "beep_inv w"
  shows "beep_inv (melody_advance now w)"
proof -
  obtain d v where w: "w = (d, v)" by (cases w)
  have ok: "sound_ok v" and mi: "melody_inv d" using assms w beep_inv_parts by blast+
  show ?thesis
  proof (cases "bp_melody d")
    case None
    with assms w show ?thesis by (simp add: melody_advance_def)
  next
    case (Some tune)
    let ?d = "d\<lparr>bp_melody_idx := Suc (bp_melody_idx d)\<rparr>"
    have t: "melody_table (bp_melody_id d) = Some tune" "Suc (bp_melody_idx d) < length tune" "bp_tone_deadline d = 0"
      using mi Some by (auto simp: melody_inv_def)
    have "melody_inv ?d" if "\<not> (no_freq (tune ! Suc (bp_melody_idx d)) = 0 \<and> no_ms (tune ! Suc (bp_melody_idx d)) = 0)"
    proof -
      have "Suc (bp_melody_idx d) \<noteq> length tune - 1" using that melody_tables(2) [OF t(1)] by auto
      with t Some show ?thesis by (simp add: melody_inv_def)
    qed
    moreover have "melody_inv (?d\<lparr>bp_melody := None, bp_melody_id := 0\<rparr>)" by (simp add: melody_inv_def)
    ultimately show ?thesis
      using assms ok Some w by (simp add: melody_advance_def Let_def play_inv next_note_inv)
  qed
qed

lemma command_inv: "beep_inv w \<Longrightarrow> beep_inv (snd (beep_do_command now c w))"
  by (simp add: beep_do_command_def Let_def start_inv start_melody_inv set_volume_inv)

lemma beep_step_inv: "beep_inv w \<Longrightarrow> beep_step w v \<Longrightarrow> beep_inv v"
  by (erule beep_step.cases)
     (simp_all add: beep_loop_def beep_write_def beep_dev_cntl_def beep_cmd_def advance_inv timeout_inv command_inv
        start_inv start_melody_inv set_volume_inv split_beta Let_def split: option.split)

lemma main_beep_inv:
  assumes "gpio_inv g" "\<not> so_inited s" "0 \<le> so_volume s" "so_volume s \<le> 100"
  shows "beep_inv (beep_main (s, g))"
proof -
  obtain s1 g1 where i: "ev3_sound_init (s, g) = (s1, g1)" "sound_ok (s1, g1)" using init_result [OF assms] by blast
  from stop_result [OF i(2)] show ?thesis
    by (auto simp: beep_main_def i(1) beep_inv_def speaker_inv_def melody_inv_def)
qed

interpretation beep: transition_system
  "\<lambda>w. \<exists>s g. w = beep_main (s, g) \<and> gpio_inv g \<and> \<not> so_inited s \<and> so_volume s = 100" beep_step beep_inv
proof
  show "beep_inv w" if "\<exists>s g. w = beep_main (s, g) \<and> gpio_inv g \<and> \<not> so_inited s \<and> so_volume s = 100" for w
    using that main_beep_inv by auto
qed (rule beep_step_inv)

text \<open>
  C20. The loudspeaker never sounds on its own: in every state the beeper daemon can reach, amplifier and tone
  generator are on together, and only while the daemon counts itself playing; otherwise the amplifier
  is off, the counter frozen and the output held low. While a melody plays, its position is a note of
  the table before the terminator, so the next note read is inside the table.
\<close>

theorem beep_reachable_safe:
  assumes "gpio_inv g0" "\<not> so_inited s0" "so_volume s0 = 100" "beep_step\<^sup>*\<^sup>* (beep_main (s0, g0)) (d, s, g)"
  shows "(if pin_level g PIN_AMP_ENABLE then 0 < bp_cur_freq d \<and> sound_running s else sound_stopped s) \<and>
    pin_is_output g PIN_AMP_ENABLE \<and> 0 \<le> so_volume s \<and> so_volume s \<le> 100 \<and>
    (\<forall>tune. bp_melody d = Some tune \<longrightarrow> melody_table (bp_melody_id d) = Some tune \<and> Suc (bp_melody_idx d) < length tune)"
proof -
  have "beep_inv (d, s, g)" using beep.inv_reachable [OF _ assms(4)] assms(1-3) by blast
  then show ?thesis by (auto simp: beep_inv_def speaker_inv_def melody_inv_def sound_ok_def)
qed

theorem beep_reachable_safe_witness:
  "\<exists>d s g. start_tone 440 (beep_main (demo_sound, demo_gpio)) = (d, s, g) \<and> 0 \<le> so_volume s \<and> so_volume s \<le> 100 \<and>
     (pin_level g PIN_AMP_ENABLE \<longrightarrow> sound_running s)"
proof -
  define w where "w = beep_main (demo_sound, demo_gpio)"
  obtain d s g where e: "start_tone 440 w = (d, s, g)" by (metis surj_pair)
  have i: "gpio_inv demo_gpio" "\<not> so_inited demo_sound" "so_volume demo_sound = 100"
    by (simp_all add: gpio_inv_def demo_gpio_def demo_sound_def)
  have "snd (beep_cmd 0 [''tone''] w) = (d, s, g)" by (simp add: beep_cmd_def e)
  then have "beep_step w (d, s, g)" using beep_shell [of w 0 "[''tone'']"] by simp
  then have "beep_step\<^sup>*\<^sup>* (beep_main (demo_sound, demo_gpio)) (d, s, g)" unfolding w_def by (rule r_into_rtranclp)
  from beep_reachable_safe [OF i this] e show ?thesis unfolding w_def by (auto split: if_splits)
qed

section \<open>Timing\<close>

text \<open>A silent daemon stays silent through any number of rounds.\<close>

definition beep_silent :: "beep_world \<Rightarrow> bool" where
  "beep_silent = (\<lambda>(d, s, g). bp_cur_freq d = 0 \<and> bp_tone_deadline d = 0 \<and> bp_melody d = None \<and> \<not> pin_level g PIN_AMP_ENABLE)"

lemma silent_round: "beep_silent w \<Longrightarrow> beep_loop t w = w"
  by (auto simp: beep_silent_def beep_loop_def tone_timeout_def melody_advance_def)

lemma silent_rounds: "beep_silent w \<Longrightarrow> fold beep_loop ts w = w"
  by (induction ts) (simp_all add: silent_round)

lemma play_silent: "sound_ok w \<Longrightarrow> bp_tone_deadline d = 0 \<Longrightarrow> bp_melody d = None \<Longrightarrow> beep_silent (play_freq 0 (d, w))"
  using play_speaker(3) [of w 0 d] by (auto simp: beep_silent_def play_freq_def split: prod.split)

lemma timed_rounds:
  assumes "speaker_inv (d, w)" "bp_melody d = None" "bp_tone_deadline d = due" "0 < due"
  shows "if \<exists>t \<in> set ts. due \<le> t then beep_silent (fold beep_loop ts (d, w)) else fold beep_loop ts (d, w) = (d, w)"
proof (induction ts)
  case (Cons t ts)
  show ?case
  proof (cases "due \<le> t")
    case True
    have "beep_silent (beep_loop t (d, w))"
      using True assms play_silent [OF speaker_sound [OF assms(1)], of "d\<lparr>bp_tone_deadline := 0\<rparr>"]
      by (simp add: beep_loop_def tone_timeout_def melody_advance_def beep_silent_def split: prod.splits)
    with True show ?thesis by (auto simp: silent_rounds)
  next
    case False
    with assms have "beep_loop t (d, w) = (d, w)" by (simp add: beep_loop_def tone_timeout_def melody_advance_def)
    with False Cons show ?thesis by simp
  qed
qed simp

lemma unat_later:
  assumes "unat (now::u64) + nat k < 2 ^ 64" "0 \<le> k"
  shows "unat (now + word_of_int k) = unat now + nat k"
proof -
  have "nat k < 2 ^ 64" using assms(1) by simp
  then have "unat (word_of_int k :: u64) = nat k"
    using assms(2) by (simp add: unat_eq_nat_uint uint_word_of_int nat_mod_distrib)
  with assms(1) show ?thesis by (simp add: unat_word_ariths)
qed

text \<open>
  A timed beep is cut off on time: after a beep of \<open>ms\<close> milliseconds was started (at least 10), the tone and
  the amplifier stay on through every round of the loop before the deadline, and from the first round
  at or after it on the daemon is silent with the amplifier off, until the next command.
\<close>

theorem beep_cut_off:
  assumes "beep_inv w" "0 < freq" "0 < so_volume (fst (snd w))" "unat now + nat (max 10 ms) < 2 ^ 64"
  shows "case fold beep_loop ts (start_beep now freq ms w) of
    (d, s, g) \<Rightarrow> bp_cur_freq d = (if \<exists>t \<in> set ts. unat now + nat (max 10 ms) \<le> unat t then 0 else freq) \<and>
      pin_level g PIN_AMP_ENABLE = (\<not> (\<exists>t \<in> set ts. unat now + nat (max 10 ms) \<le> unat t))"
proof -
  obtain d0 v where w: "w = (d0, v)" by (cases w)
  have ok: "sound_ok v" using assms(1) w beep_inv_parts by blast
  let ?due = "now + word_of_int (max 10 ms)"
  define d1 where "d1 = d0\<lparr>bp_melody := None, bp_melody_id := 0, bp_tone_deadline := ?due\<rparr>"
  have due: "unat ?due = unat now + nat (max 10 ms)" using assms(4) by (intro unat_later) auto
  have st: "start_beep now freq ms w = play_freq freq (d1, v)"
    by (simp add: w start_beep_def d1_def Let_def max_def)
  obtain d s g where p: "play_freq freq (d1, v) = (d, s, g)" by (metis surj_pair)
  have d: "d = d1\<lparr>bp_cur_freq := freq\<rparr>" using play_fields [of freq d1 v] p assms(2) by simp
  have on: "pin_level g PIN_AMP_ENABLE" "speaker_inv (d, s, g)"
    using play_speaker(1,3) [OF ok, of freq d1] p assms(2,3) w by simp_all
  have pos: "0 < ?due" using due by (simp add: word_less_nat_alt less_max_iff_disj)
  have "if \<exists>t \<in> set ts. ?due \<le> t then beep_silent (fold beep_loop ts (d, s, g)) else fold beep_loop ts (d, s, g) = (d, s, g)"
    using pos by (intro timed_rounds [OF on(2)]) (simp_all add: d d1_def)
  then show ?thesis
    unfolding st p word_le_nat_alt due using on(1) d by (auto simp: beep_silent_def split: if_splits prod.splits)
qed

theorem beep_cut_off_witness:
  "\<exists>d s g. fold beep_loop [50, 99, 100] (start_beep 0 440 100 (beep_main (demo_sound, demo_gpio))) = (d, s, g) \<and>
     bp_cur_freq d = 0 \<and> \<not> pin_level g PIN_AMP_ENABLE"
proof -
  define w where "w = beep_main (demo_sound, demo_gpio)"
  have i: "gpio_inv demo_gpio" "\<not> so_inited demo_sound" "so_volume demo_sound = 100"
    by (simp_all add: gpio_inv_def demo_gpio_def demo_sound_def)
  have inv: "beep_inv w" unfolding w_def using i by (intro main_beep_inv) auto
  obtain s1 g1 where e: "ev3_sound_init (demo_sound, demo_gpio) = (s1, g1)" "sound_ok (s1, g1)" "so_volume s1 = 100"
    using init_result [of demo_gpio demo_sound] i by auto
  have vol: "0 < so_volume (fst (snd w))" using stop_result [OF e(2)] e by (auto simp: w_def beep_main_def)
  obtain d s g where f: "fold beep_loop [50, 99, 100] (start_beep 0 440 100 w) = (d, s, g)" by (metis surj_pair)
  show ?thesis
    using beep_cut_off [OF inv _ vol, of 440 0 100 "[50, 99, 100]"] f unfolding w_def by (simp del: fold_simps)
qed

text \<open>How many notes (with the terminator) are begun in a series of rounds, when the current one ends at \<open>fin\<close>
  and the rest of the table is the first argument.\<close>

fun melody_due :: "beep_note list \<Rightarrow> u64 \<Rightarrow> u64 list \<Rightarrow> nat" where
  "melody_due tune fin [] = 0"
| "melody_due [] fin (t # ts) = 0"
| "melody_due (n # tune) fin (t # ts) =
     (if fin \<le> t then Suc (melody_due tune (t + word_of_int (no_ms n)) ts) else melody_due (n # tune) fin ts)"

definition clock_ok :: "u64 \<Rightarrow> bool" where
  "clock_ok t \<longleftrightarrow> unat t + 200 < 2 ^ 64"

lemma fin_pos: "clock_ok t \<Longrightarrow> 0 < m \<Longrightarrow> m \<le> 200 \<Longrightarrow> 0 < t + word_of_int m"
  using unat_later [of t m] by (simp add: clock_ok_def word_less_nat_alt)

text \<open>A daemon at note \<open>j\<close> of a melody.\<close>

definition at_note :: "beep_note list \<Rightarrow> nat \<Rightarrow> u64 \<Rightarrow> beep_world \<Rightarrow> bool" where
  "at_note tune j fin = (\<lambda>(d, w). sound_ok w \<and> bp_melody d = Some tune \<and> bp_melody_idx d = j \<and> bp_tone_deadline d = 0 \<and>
     bp_melody_next d = fin \<and> 0 < fin \<and> Suc j < length tune \<and> bp_cur_freq d = no_freq (tune ! j))"

lemma play_next:
  assumes "sound_ok w" "bp_melody d = Some tune" "bp_melody_idx d = j" "bp_tone_deadline d = 0" "0 < fin"
    "Suc j < length tune" "0 \<le> no_freq (tune ! j)"
  shows "at_note tune j fin (case play_freq (no_freq (tune ! j)) (d, w) of (d, w) \<Rightarrow> (d\<lparr>bp_melody_next := fin\<rparr>, w))"
proof -
  obtain d' w' where p: "play_freq (no_freq (tune ! j)) (d, w) = (d', w')" by (metis surj_pair)
  have "speaker_inv (d', w')" using play_speaker(1) [OF assms(1), of "no_freq (tune ! j)" d] p by simp
  moreover have "d' = d\<lparr>bp_cur_freq := no_freq (tune ! j)\<rparr>"
    using play_fields [of "no_freq (tune ! j)" d w] p assms(7) by (auto split: if_splits)
  ultimately show ?thesis using assms by (auto simp: p at_note_def dest: speaker_sound)
qed

lemma note_round:
  assumes "melody_table i = Some tune" "at_note tune j fin w" "clock_ok t"
  shows "if \<not> fin \<le> t then beep_loop t w = w
    else if Suc (Suc j) < length tune then at_note tune (Suc j) (t + word_of_int (no_ms (tune ! Suc j))) (beep_loop t w)
    else beep_silent (beep_loop t w)"
proof -
  obtain d v where w: "w = (d, v)" by (cases w)
  have n: "sound_ok v" "bp_melody d = Some tune" "bp_melody_idx d = j" "bp_tone_deadline d = 0" "bp_melody_next d = fin"
      "0 < fin" "Suc j < length tune" using assms(2) by (auto simp: w at_note_def)
  have l: "beep_loop t (d, v) = melody_advance t (d, v)" using n by (simp add: beep_loop_def tone_timeout_def)
  note tab = melody_tables [OF assms(1)]
  show ?thesis
  proof (cases "Suc (Suc j) < length tune")
    case True
    then have m: "0 < no_ms (tune ! Suc j)" "no_ms (tune ! Suc j) \<le> 200" "0 \<le> no_freq (tune ! Suc j)"
      using tab(3) [of "Suc j"] by auto
    with True n show ?thesis
      using play_next [of v "d\<lparr>bp_melody_idx := Suc j\<rparr>" tune "Suc j"] fin_pos [OF assms(3) m(1,2)]
      by (simp add: l w melody_advance_def Let_def)
  next
    case False
    then have "Suc j = length tune - 1" using n(7) by simp
    then have "tune ! Suc j = \<lparr>no_freq = 0, no_ms = 0\<rparr>" using tab(2) by simp
    with False n show ?thesis by (simp add: l w melody_advance_def Let_def play_silent)
  qed
qed

lemma note_rounds:
  assumes "melody_table i = Some tune" "at_note tune j fin w" "\<forall>t \<in> set ts. clock_ok t"
  shows "let k = melody_due (drop (Suc j) tune) fin ts in j + k < length tune \<and>
    (if Suc (j + k) < length tune then \<exists>fin'. at_note tune (j + k) fin' (fold beep_loop ts w)
     else beep_silent (fold beep_loop ts w))"
  using assms(2,3)
proof (induction ts arbitrary: j fin w)
  case Nil
  then show ?case by (auto simp: at_note_def)
next
  case (Cons t ts)
  have j: "Suc j < length tune" using Cons.prems(1) by (auto simp: at_note_def)
  then have dr: "drop (Suc j) tune = tune ! Suc j # drop (Suc (Suc j)) tune" by (rule Cons_nth_drop_Suc [symmetric])
  note r = note_round [OF assms(1) Cons.prems(1), of t]
  consider "\<not> fin \<le> t" | "fin \<le> t" "Suc (Suc j) < length tune" | "fin \<le> t" "\<not> Suc (Suc j) < length tune" by blast
  then show ?case
  proof cases
    case 1
    with Cons.IH [OF Cons.prems(1)] Cons.prems r show ?thesis by (simp add: dr Let_def)
  next
    case 2
    with Cons.IH [of "Suc j" "t + word_of_int (no_ms (tune ! Suc j))" "beep_loop t w"] Cons.prems r
    show ?thesis by (auto simp: dr Let_def)
  next
    case 3
    then have e: "drop (Suc (Suc j)) tune = []" by simp
    have "melody_due [] f ts = 0" for f by (cases ts) simp_all
    with 3 e j Cons.prems r show ?thesis by (auto simp: dr Let_def silent_rounds)
  qed
qed

text \<open>
  A melody is played note by note and ends: after melody \<open>i\<close> was started, the rounds of the loop begin each note
  of its table in order, one per round and none before the previous one has had its time; the
  frequency played is that of the note reached, and once the terminator is reached the daemon is silent
  with the amplifier off.
\<close>

theorem melody_in_order:
  assumes "melody_table i = Some tune" "beep_inv w" "clock_ok now" "\<forall>t \<in> set ts. clock_ok t"
  shows "let k = melody_due (tl tune) (now + word_of_int (no_ms (tune ! 0))) ts in k < length tune \<and>
    (case fold beep_loop ts (start_melody now i w) of
       (d, s, g) \<Rightarrow> if Suc k < length tune then bp_melody d = Some tune \<and> bp_melody_idx d = k \<and> bp_cur_freq d = no_freq (tune ! k)
                     else bp_melody d = None \<and> bp_cur_freq d = 0 \<and> \<not> pin_level g PIN_AMP_ENABLE)"
proof -
  obtain d0 v where w: "w = (d0, v)" by (cases w)
  have ok: "sound_ok v" using assms(2) w beep_inv_parts by blast
  note tab = melody_tables [OF assms(1)]
  have m: "0 < no_ms (tune ! 0)" "no_ms (tune ! 0) \<le> 200" "0 \<le> no_freq (tune ! 0)" "Suc 0 < length tune"
    using tab(1) tab(3) [of 0] by auto
  have "at_note tune 0 (now + word_of_int (no_ms (tune ! 0))) (start_melody now i w)"
    using play_next [OF ok, of _ tune 0] assms(1) m fin_pos [OF assms(3) m(1,2)] by (simp add: w start_melody_def Let_def)
  from note_rounds [OF assms(1) this assms(4)] show ?thesis
    by (auto simp: Let_def drop_Suc at_note_def beep_silent_def split: if_splits)
qed

theorem melody_in_order_witness:
  "\<exists>d s g. fold beep_loop [100, 150, 210, 320, 600] (start_melody 0 1 (beep_main (demo_sound, demo_gpio))) = (d, s, g) \<and>
     bp_melody d = None \<and> bp_cur_freq d = 0 \<and> \<not> pin_level g PIN_AMP_ENABLE"
proof -
  define w where "w = beep_main (demo_sound, demo_gpio)"
  have inv: "beep_inv w" unfolding w_def by (rule main_beep_inv) (simp_all add: gpio_inv_def demo_gpio_def demo_sound_def)
  have t: "melody_table 1 = Some melody_startup" "clock_ok 0" "\<forall>t \<in> set [100, 150, 210, 320, 600]. clock_ok t"
    by (simp_all add: melody_table_def clock_ok_def)
  have k: "melody_due (tl melody_startup) (0 + word_of_int (no_ms (melody_startup ! 0))) [100, 150, 210, 320, 600] = 4"
    "length melody_startup = 5" by code_simp+
  obtain d s g where f: "fold beep_loop [100, 150, 210, 320, 600] (start_melody 0 1 w) = (d, s, g)" by (metis surj_pair)
  show ?thesis
    using melody_in_order [OF t(1) inv t(2,3)] f unfolding k Let_def w_def by (simp del: fold_simps)
qed

end
