(* ===== verification/Ev3_Battery.thy ===== *)
theory Ev3_Battery
  imports Ev3_Port
begin

text \<open>
  The battery monitor (\<^verbatim>\<open>src/lego.ev3/system/drivers/batteryd/batteryd.c\<close>): from two ADC channels and the pack-type pin
  to voltage, current, charge estimate and low-battery flag.

  The variables are the record \<open>batteryd\<close>. A read of the ADC device is a list of sixteen channels, or \<open>None\<close> when
  it is short; the GPIO state supplies the pin. Every 32-bit operation of the source that could leave the range is
  wrapped.
\<close>

section \<open>State\<close>

definition ADC_CH_VOLTAGE :: nat where "ADC_CH_VOLTAGE = 4"
definition ADC_CH_CURRENT :: nat where "ADC_CH_CURRENT = 3"
definition PIN_RECHARGEABLE :: int where "PIN_RECHARGEABLE = 136"
definition AA_EMPTY_MV :: int where "AA_EMPTY_MV = 5500"
definition AA_FULL_MV :: int where "AA_FULL_MV = 7500"
definition LIION_EMPTY_MV :: int where "LIION_EMPTY_MV = 7100"
definition LIION_FULL_MV :: int where "LIION_FULL_MV = 8400"
definition BATTERY_CNTL_GET :: int where "BATTERY_CNTL_GET = 1"
definition BATTERY_CNTL_SET_THRESH :: int where "BATTERY_CNTL_SET_THRESH = 2"
definition BATTERY_CMD_SET_THRESH :: int where "BATTERY_CMD_SET_THRESH = 1"
definition sizeof_battery_info :: int where "sizeof_battery_info = 32"
definition sizeof_battery_cmd :: int where "sizeof_battery_cmd = 8"

lemmas battery_consts = ADC_CH_VOLTAGE_def ADC_CH_CURRENT_def AA_EMPTY_MV_def AA_FULL_MV_def LIION_EMPTY_MV_def
  LIION_FULL_MV_def

record battery_info =
  bi_voltage_mv :: int
  bi_current_ma :: int
  bi_percent :: int
  bi_low :: int
  bi_rechargeable :: int
  bi_low_threshold_mv :: int
  bi_adc_voltage_mv :: int
  bi_adc_current_mv :: int

record battery_cmd =
  bt_cmd :: int
  bt_value :: int

record batteryd =
  by_low_mv :: int
  by_adc_fd :: int
  by_info :: battery_info
  by_wakeup :: bool

definition battery_info_zero :: battery_info where
  "battery_info_zero = \<lparr>bi_voltage_mv = 0, bi_current_ma = 0, bi_percent = 0, bi_low = 0, bi_rechargeable = 0,
     bi_low_threshold_mv = 0, bi_adc_voltage_mv = 0, bi_adc_current_mv = 0\<rparr>"

section \<open>Operations\<close>

definition battery_clamp :: "int \<Rightarrow> int \<Rightarrow> int \<Rightarrow> int" where
  "battery_clamp v lo hi = (if v < lo then lo else if v > hi then hi else v)"

text \<open>The measurement computed from the two channels, the pack type and the configured threshold.\<close>

definition battery_measurement :: "int \<Rightarrow> int \<Rightarrow> bool \<Rightarrow> int \<Rightarrow> battery_info" where
  "battery_measurement adc_v adc_c aa low_mv =
     (let rechargeable = (if aa then 0 else 1);
          uv = wrap32 (wrap32 (wrap32 (adc_v * 2000) + 50000) + wrap32 (adc_c * 1000) sdiv 15);
          ua = wrap32 (adc_c * 20000) sdiv 15;
          mv = uv sdiv 1000;
          ma = ua sdiv 1000;
          empty = (if rechargeable \<noteq> 0 then LIION_EMPTY_MV else AA_EMPTY_MV);
          full = (if rechargeable \<noteq> 0 then LIION_FULL_MV else AA_FULL_MV);
          percent = battery_clamp (wrap32 (wrap32 (mv - empty) * 100) sdiv (full - empty)) 0 100;
          thr = (if low_mv > 0 then low_mv else if rechargeable \<noteq> 0 then LIION_EMPTY_MV + 200 else AA_EMPTY_MV + 700);
          low = (if mv > 0 \<and> mv < thr then 1 else 0)
      in \<lparr>bi_voltage_mv = mv, bi_current_ma = ma, bi_percent = percent, bi_low = low, bi_rechargeable = rechargeable,
          bi_low_threshold_mv = thr, bi_adc_voltage_mv = adc_v, bi_adc_current_mv = adc_c\<rparr>)"

definition measure_battery :: "u16 list option \<Rightarrow> gpio_state \<Rightarrow> batteryd \<Rightarrow> batteryd" where
  "measure_battery sample g d =
     (case sample of
        None \<Rightarrow> d
      | Some adc \<Rightarrow>
          let bi = battery_measurement (uint (adc ! ADC_CH_VOLTAGE)) (uint (adc ! ADC_CH_CURRENT))
                     (ev3_gpio_read PIN_RECHARGEABLE g) (by_low_mv d);
              d = (if bi \<noteq> by_info d then d\<lparr>by_wakeup := True\<rparr> else d)
          in d\<lparr>by_info := bi\<rparr>)"

definition batt_do_command :: "battery_cmd \<Rightarrow> batteryd \<Rightarrow> int \<times> batteryd" where
  "batt_do_command c d =
     (if bt_cmd c = BATTERY_CMD_SET_THRESH then (0, d\<lparr>by_low_mv := (if bt_value c < 1000 then 0 else bt_value c)\<rparr>)
      else (-1, d))"

definition batt_read :: "int \<Rightarrow> batteryd \<Rightarrow> int \<times> battery_info" where
  "batt_read sz d = ((if sz > sizeof_battery_info then sizeof_battery_info else sz), by_info d)"

definition batt_write :: "battery_cmd option \<Rightarrow> int \<Rightarrow> batteryd \<Rightarrow> int \<times> batteryd" where
  "batt_write buf sz d =
     (case buf of
        None \<Rightarrow> (-1, d)
      | Some c \<Rightarrow>
          if sz < sizeof_battery_cmd then (-1, d)
          else let (r, d) = batt_do_command c d in (if r \<noteq> 0 then -1 else sizeof_battery_cmd, d))"

definition batt_dev_cntl :: "int \<Rightarrow> battery_cmd option \<Rightarrow> batteryd \<Rightarrow> (int \<times> battery_info option) \<times> batteryd" where
  "batt_dev_cntl cmd msg d =
     (if cmd = BATTERY_CNTL_GET then ((0, Some (by_info d)), d)
      else if cmd = BATTERY_CNTL_SET_THRESH then
        (case msg of
           None \<Rightarrow> ((-1, None), d)
         | Some c \<Rightarrow> let (r, d) = batt_do_command c d in ((r, None), d))
      else ((-1, None), d))"

datatype batt_text = BattThresh int | BattStatus battery_info

definition batt_cmd :: "string list \<Rightarrow> batteryd \<Rightarrow> batt_text \<times> batteryd" where
  "batt_cmd argv d =
     (if length argv > 1 \<and> argv ! 0 = ''thresh'' then
        let d = snd (batt_do_command \<lparr>bt_cmd = BATTERY_CMD_SET_THRESH, bt_value = atoi (argv ! 1)\<rparr> d)
        in (BattThresh (by_low_mv d), d)
      else (BattStatus (by_info d), d))"

text \<open>One round of the loop; the flag says whether the readers were woken.\<close>

definition batt_loop :: "u16 list option \<Rightarrow> gpio_state \<Rightarrow> batteryd \<Rightarrow> bool \<times> batteryd" where
  "batt_loop sample g d =
     (let d = (if by_adc_fd d \<ge> 0 then measure_battery sample g d else d)
      in (by_wakeup d, d\<lparr>by_wakeup := False\<rparr>))"

text \<open>\<^verbatim>\<open>main\<close> with the threshold option (0 without) and the result of opening the ADC device.\<close>

definition batt_main :: "int \<Rightarrow> int \<Rightarrow> gpio_state \<Rightarrow> batteryd \<times> gpio_state" where
  "batt_main low_mv fd g =
     (\<lparr>by_low_mv = low_mv, by_adc_fd = fd, by_info = battery_info_zero, by_wakeup = False\<rparr>,
      ev3_gpio_config PIN_RECHARGEABLE GPIO_INPUT g)"

inductive batt_step :: "batteryd \<Rightarrow> batteryd \<Rightarrow> bool" where
  batt_round: "batt_step d (snd (batt_loop sample g d))"
| batt_written: "batt_step d (snd (batt_write buf sz d))"
| batt_control: "batt_step d (snd (batt_dev_cntl cmd msg d))"
| batt_shell: "batt_step d (snd (batt_cmd argv d))"

section \<open>Properties\<close>

lemma sdiv_pos: "0 \<le> a \<Longrightarrow> 0 < b \<Longrightarrow> a sdiv b = a div (b::int)"
  by (simp add: signed_divide_int_def sgn_if)

lemma clamp_percent: "0 \<le> battery_clamp v 0 100 \<and> battery_clamp v 0 100 \<le> 100"
  by (simp add: battery_clamp_def)

text \<open>For the 16-bit channel values nothing wraps, so the fields are the documented formulas.\<close>

lemma measurement_exact:
  assumes "0 \<le> v" "v < 65536" "0 \<le> c" "c < 65536"
  shows "bi_voltage_mv (battery_measurement v c aa thr) = (v * 2000 + 50000 + c * 1000 div 15) div 1000"
    "bi_current_ma (battery_measurement v c aa thr) = c * 20000 div 15 div 1000"
proof -
  have q: "0 \<le> c * 1000 div 15" "c * 1000 div 15 \<le> 4369000" using assms(3,4) by (auto simp: pos_imp_zdiv_nonneg_iff)
  have w: "wrap32 (v * 2000) = v * 2000" "wrap32 (v * 2000 + 50000) = v * 2000 + 50000" "wrap32 (c * 1000) = c * 1000"
      "wrap32 (c * 20000) = c * 20000" "wrap32 (v * 2000 + 50000 + c * 1000 div 15) = v * 2000 + 50000 + c * 1000 div 15"
    using assms q by (simp_all add: wrap32_small)
  have e: "c * 1000 sdiv 15 = c * 1000 div 15" "c * 20000 sdiv 15 = c * 20000 div 15"
    by (rule sdiv_pos, use assms(3) in simp, simp)+
  show "bi_voltage_mv (battery_measurement v c aa thr) = (v * 2000 + 50000 + c * 1000 div 15) div 1000"
    unfolding battery_measurement_def Let_def battery_info.select_convs w(1-3) e(1) w(5)
    by (rule sdiv_pos) (use assms q in auto)
  show "bi_current_ma (battery_measurement v c aa thr) = c * 20000 div 15 div 1000"
    unfolding battery_measurement_def Let_def battery_info.select_convs w(4) e(2)
    by (rule sdiv_pos) (use assms in \<open>auto simp: pos_imp_zdiv_nonneg_iff\<close>)
qed

lemma voltage_range:
  assumes "0 \<le> v" "v < 65536" "0 \<le> c" "c < 65536"
  shows "50 \<le> bi_voltage_mv (battery_measurement v c aa thr)" "bi_voltage_mv (battery_measurement v c aa thr) \<le> 135489"
proof -
  have q: "0 \<le> c * 1000 div 15" "c * 1000 div 15 \<le> 4369000" using assms(3,4) by (auto simp: pos_imp_zdiv_nonneg_iff)
  have "50000 div 1000 \<le> (v * 2000 + 50000 + c * 1000 div 15) div 1000" using assms q by (intro zdiv_mono1) auto
  moreover have "(v * 2000 + 50000 + c * 1000 div 15) div 1000 \<le> 135489000 div 1000" using assms q by (intro zdiv_mono1) auto
  ultimately show "50 \<le> bi_voltage_mv (battery_measurement v c aa thr)"
    "bi_voltage_mv (battery_measurement v c aa thr) \<le> 135489" by (simp_all add: measurement_exact [OF assms])
qed

text \<open>The percentage of a voltage between empty and full.\<close>

definition charge :: "int \<Rightarrow> int \<Rightarrow> int \<Rightarrow> int" where
  "charge mv lo hi = (if mv \<le> lo then 0 else if hi \<le> mv then 100 else (mv - lo) * 100 div (hi - lo))"

lemma clamp_charge:
  assumes "lo < hi" "50 \<le> mv" "mv \<le> 135489" "0 \<le> lo" "lo \<le> 10000"
  shows "battery_clamp (wrap32 (wrap32 (mv - lo) * 100) sdiv (hi - lo)) 0 100 = charge mv lo hi"
proof -
  have w: "wrap32 (mv - lo) = mv - lo" "wrap32 ((mv - lo) * 100) = (mv - lo) * 100"
    using assms by (simp_all add: wrap32_small)
  have hundred: "(hi - lo) * 100 div (hi - lo) = 100"
    by (rule nonzero_mult_div_cancel_left) (use assms(1) in simp)
  consider "mv \<le> lo" | "lo < mv" "mv < hi" | "lo < mv" "hi \<le> mv" by linarith
  then show ?thesis
  proof cases
    case 1
    then have "(mv - lo) * 100 sdiv (hi - lo) \<le> 0" using assms(1) by (intro sdiv_int_sign(2)) auto
    with 1 show ?thesis unfolding w charge_def battery_clamp_def by auto
  next
    case 2
    then have "(mv - lo) * 100 div (hi - lo) \<le> (hi - lo) * 100 div (hi - lo)" by (intro zdiv_mono1) auto
    then have "(mv - lo) * 100 div (hi - lo) \<le> 100" unfolding hundred .
    moreover have "(mv - lo) * 100 sdiv (hi - lo) = (mv - lo) * 100 div (hi - lo)" using 2 by (intro sdiv_pos) auto
    moreover have "0 \<le> (mv - lo) * 100 div (hi - lo)" using 2 by (auto simp: pos_imp_zdiv_nonneg_iff)
    ultimately show ?thesis using 2 unfolding w charge_def battery_clamp_def by auto
  next
    case 3
    then have "(hi - lo) * 100 div (hi - lo) \<le> (mv - lo) * 100 div (hi - lo)" using assms(1) by (intro zdiv_mono1) auto
    then have "100 \<le> (mv - lo) * 100 div (hi - lo)" unfolding hundred .
    moreover have "(mv - lo) * 100 sdiv (hi - lo) = (mv - lo) * 100 div (hi - lo)" using 3 assms(1) by (intro sdiv_pos) auto
    ultimately show ?thesis using 3 assms(1) unfolding w charge_def battery_clamp_def by auto
  qed
qed

text \<open>
  Every measurement the battery daemon makes is exact: for all 16-bit readings the 32-bit arithmetic never
  overflows, voltage and current are the documented formulas rounded down, the charge is 0 at or below
  the empty voltage of the fitted pack, 100 at or above its full voltage and linear in between, and the
  low flag is set exactly when the voltage is below the threshold (the client's, or 7300 mV for
  the rechargeable pack and 6200 mV for the AA cells).
\<close>

theorem battery_measure_exact:
  fixes g :: gpio_state and d :: batteryd and adc :: "u16 list"
  assumes "length adc = 16"
  defines "v \<equiv> uint (adc ! 4)" and "c \<equiv> uint (adc ! 3)" and "aa \<equiv> ev3_gpio_read PIN_RECHARGEABLE g"
  defines "mv \<equiv> (v * 2000 + 50000 + c * 1000 div 15) div 1000"
  defines "thr \<equiv> (if by_low_mv d > 0 then by_low_mv d else if aa then 6200 else 7300)"
  shows "by_info (measure_battery (Some adc) g d) =
    \<lparr>bi_voltage_mv = mv, bi_current_ma = c * 20000 div 15 div 1000,
     bi_percent = (if aa then charge mv 5500 7500 else charge mv 7100 8400), bi_low = (if mv < thr then 1 else 0),
     bi_rechargeable = (if aa then 0 else 1), bi_low_threshold_mv = thr, bi_adc_voltage_mv = v, bi_adc_current_mv = c\<rparr>"
proof -
  have r: "0 \<le> v" "v < 65536" "0 \<le> c" "c < 65536"
    using uint_lt2p [of "adc ! 4"] uint_lt2p [of "adc ! 3"] by (simp_all add: v_def c_def)
  have mv: "bi_voltage_mv (battery_measurement v c aa (by_low_mv d)) = mv"
    "bi_current_ma (battery_measurement v c aa (by_low_mv d)) = c * 20000 div 15 div 1000"
    using measurement_exact [OF r] by (simp_all add: mv_def)
  have b: "50 \<le> mv" "mv \<le> 135489" using voltage_range [OF r] mv by metis+
  have "by_info (measure_battery (Some adc) g d) = battery_measurement v c aa (by_low_mv d)"
    by (simp add: measure_battery_def Let_def v_def c_def aa_def battery_consts)
  moreover have "battery_measurement v c aa (by_low_mv d) =
      \<lparr>bi_voltage_mv = mv, bi_current_ma = c * 20000 div 15 div 1000,
       bi_percent = (if aa then charge mv 5500 7500 else charge mv 7100 8400), bi_low = (if mv < thr then 1 else 0),
       bi_rechargeable = (if aa then 0 else 1), bi_low_threshold_mv = thr, bi_adc_voltage_mv = v, bi_adc_current_mv = c\<rparr>"
    using mv b clamp_charge [of 5500 7500 mv] clamp_charge [of 7100 8400 mv]
    by (auto simp: battery_measurement_def Let_def battery_consts thr_def)
  ultimately show ?thesis by simp
qed

theorem battery_measure_exact_witness:
  "bi_voltage_mv (by_info (measure_battery (Some ((replicate 16 0)[4 := 3700, 3 := 300])) demo_gpio
     (fst (batt_main 0 3 demo_gpio)))) = 7470"
  using battery_measure_exact [of "(replicate 16 0)[4 := 3700, 3 := 300]" demo_gpio "fst (batt_main 0 3 demo_gpio)"] by simp

end
