(* ===== verification/Ev3_Uartd.thy ===== *)
theory Ev3_Uartd
  imports Ev3_Uart
begin

text \<open>
  The serial line daemon of the EV3 (\<^verbatim>\<open>src/lego.ev3/system/drivers/uartd/\<close>): its byte queue \<^verbatim>\<open>fifo.c\<close> and, in
  \<^verbatim>\<open>uartd.c\<close>, the client reads and writes, the interrupt handler that fills one queue from the UART and
  empties the other into it, and the loop that wakes readers.

  An interrupt is taken between two client calls: one that arrives inside the unprotected \<^verbatim>\<open>fifo_push\<close> of a
  write is not represented.

  Properties: the daemon passes both byte streams on in order as long as its queues hold them and the memory they
  were allocated in has zero byte counts, a pending
  byte always has the transmit interrupt enabled, and what the code does when a queue overflows or
  starts from memory that is not zero.
\<close>

section \<open>The byte queue\<close>

record fifo_t =
  tsize :: u32
  wptr :: u32
  rptr :: u32
  dsize :: u32
  fdata :: "u8 list"

text \<open>\<^verbatim>\<open>malloc\<close> leaves \<open>dsize\<close> and the data as it finds them: they are arguments.\<close>

definition fifo_new :: "u32 \<Rightarrow> u8 list \<Rightarrow> int \<Rightarrow> fifo_t" where
  "fifo_new junk mem sz = \<lparr>tsize = word_of_int sz, wptr = 0, rptr = 0, dsize = junk, fdata = mem\<rparr>"

definition fifo_is_empty :: "fifo_t \<Rightarrow> bool" where
  "fifo_is_empty f \<longleftrightarrow> dsize f = 0"

definition fifo_is_full :: "fifo_t \<Rightarrow> bool" where
  "fifo_is_full f \<longleftrightarrow> dsize f \<ge> tsize f"

definition fifo_push :: "u8 \<Rightarrow> fifo_t \<Rightarrow> fifo_t" where
  "fifo_push c f =
     (let f = f\<lparr>fdata := (fdata f)[unat (wptr f mod tsize f) := c]\<rparr>;
          f = f\<lparr>dsize := dsize f + 1\<rparr>
      in f\<lparr>wptr := wptr f + 1\<rparr>)"

definition fifo_pop :: "fifo_t \<Rightarrow> u8 \<times> fifo_t" where
  "fifo_pop f =
     (let c = fdata f ! unat (rptr f mod tsize f);
          f = f\<lparr>dsize := dsize f - 1\<rparr>
      in (c, f\<lparr>rptr := rptr f + 1\<rparr>))"

text \<open>Both unsafe operations first bring the two pointers back when both have passed the end.\<close>

definition fifo_rebase :: "fifo_t \<Rightarrow> fifo_t" where
  "fifo_rebase f =
     (if wptr f > tsize f \<and> rptr f > tsize f
      then f\<lparr>wptr := wptr f - tsize f, rptr := rptr f - tsize f\<rparr> else f)"

definition fifo_push_unsafe :: "u8 \<Rightarrow> fifo_t \<Rightarrow> fifo_t" where
  "fifo_push_unsafe c f =
     (let f = fifo_rebase f;
          f = f\<lparr>fdata := (fdata f)[unat (wptr f mod tsize f) := c]\<rparr>;
          f = f\<lparr>wptr := wptr f + 1\<rparr>
      in f\<lparr>dsize := wptr f - rptr f\<rparr>)"

definition fifo_pop_unsafe :: "fifo_t \<Rightarrow> u8 \<times> fifo_t" where
  "fifo_pop_unsafe f =
     (let f = fifo_rebase f;
          c = fdata f ! unat (rptr f mod tsize f);
          f = f\<lparr>rptr := rptr f + 1\<rparr>
      in (c, f\<lparr>dsize := wptr f - rptr f\<rparr>))"

section \<open>The daemon\<close>

record uartd =
  ud_RxBuf :: fifo_t
  ud_TxBuf :: fifo_t
  ud_wakeup :: bool
  ud_uart :: uart16550

text \<open>The bytes a read delivers, at most \<open>n\<close>.\<close>

fun rx_take :: "nat \<Rightarrow> fifo_t \<Rightarrow> u8 list \<times> fifo_t" where
  "rx_take 0 f = ([], f)"
| "rx_take (Suc n) f =
     (if fifo_is_empty f then ([], f)
      else let (c, f) = fifo_pop f; (cs, f) = rx_take n f in (c # cs, f))"

text \<open>\<open>None\<close> is \<^verbatim>\<open>VFS_ERR_RETRY\<close>: the reader is put to sleep.\<close>

definition uartd_read :: "int \<Rightarrow> uartd \<Rightarrow> int option \<times> u8 list \<times> uartd" where
  "uartd_read sz d =
     (let (cs, f) = rx_take (nat sz) (ud_RxBuf d)
      in (if cs = [] then None else Some (int (length cs)), cs, d\<lparr>ud_RxBuf := f\<rparr>))"

definition uartd_write :: "u8 list \<Rightarrow> uartd \<Rightarrow> int \<times> uartd" where
  "uartd_write buf d =
     (let d = d\<lparr>ud_TxBuf := fold fifo_push buf (ud_TxBuf d)\<rparr>;
          d = d\<lparr>ud_uart := ev3_uart_enable_irq EV3_IRQ_TX True (ud_uart d)\<rparr>
      in (int (length buf), d))"

text \<open>The receive loop empties the hardware FIFO; it counts what it takes.\<close>

function rx_drain :: "nat \<Rightarrow> fifo_t \<times> uart16550 \<Rightarrow> nat \<times> fifo_t \<times> uart16550" where
  "rx_drain rx (f, u) =
     (if ev3_uart_can_read u
      then let (c, u) = ev3_uart_getc u in rx_drain (Suc rx) (fifo_push_unsafe c f, u)
      else (rx, f, u))"
  by pat_completeness auto
termination
  by (relation "measure (\<lambda>(rx, f, u). length (ur_rx u))")
    (auto simp: ev3_uart_can_read_def ev3_uart_getc_def split: list.splits)

fun tx_fill :: "nat \<Rightarrow> fifo_t \<times> uart16550 \<Rightarrow> fifo_t \<times> uart16550" where
  "tx_fill 0 (f, u) = (f, u)"
| "tx_fill (Suc n) (f, u) =
     (if fifo_is_empty f then (f, ev3_uart_enable_irq EV3_IRQ_TX False u)
      else let (c, f) = fifo_pop_unsafe f in tx_fill n (f, ev3_uart_putc c u))"

definition uart_interrupt_handle :: "uartd \<Rightarrow> uartd" where
  "uart_interrupt_handle d =
     (let (rx, f, u) = rx_drain 0 (ud_RxBuf d, ud_uart d);
          d = d\<lparr>ud_RxBuf := f, ud_uart := u\<rparr>;
          d = (if ev3_uart_can_write (ud_uart d)
               then let (f, u) = tx_fill 16 (ud_TxBuf d, ud_uart d) in d\<lparr>ud_TxBuf := f, ud_uart := u\<rparr>
               else d)
      in if rx \<noteq> 0 then d\<lparr>ud_wakeup := True\<rparr> else d)"

text \<open>The result tells whether the readers are woken.\<close>

definition uart_loop_step :: "uartd \<Rightarrow> bool \<times> uartd" where
  "uart_loop_step d = (if ud_wakeup d then (True, d\<lparr>ud_wakeup := False\<rparr>) else (False, d))"

definition uartd_main :: "u32 \<Rightarrow> u8 list \<Rightarrow> u32 \<Rightarrow> u8 list \<Rightarrow> uart16550 \<Rightarrow> uartd" where
  "uartd_main txjunk txmem rxjunk rxmem u =
     (let t = fifo_new txjunk txmem 4096;
          r = fifo_new rxjunk rxmem 128;
          u = ev3_uart_init 115200 u;
          u = ev3_uart_enable_irq EV3_IRQ_RX True u
      in \<lparr>ud_RxBuf = r, ud_TxBuf = t, ud_wakeup = False, ud_uart = u\<rparr>)"

section \<open>The queue as a list\<close>

definition fifo_invar :: "nat \<Rightarrow> fifo_t \<Rightarrow> bool" where
  "fifo_invar n f \<longleftrightarrow> 0 < n \<and> n dvd 2 ^ 32 \<and> n < 2 ^ 31 \<and> tsize f = of_nat n \<and> length (fdata f) = n \<and>
     dsize f = wptr f - rptr f"

definition fifo_contents :: "nat \<Rightarrow> fifo_t \<Rightarrow> u8 list" where
  "fifo_contents n f = ring_list n (fdata f) (unat (rptr f) mod n) (unat (dsize f))"

lemma unat_size: "n < 2 ^ 31 \<Longrightarrow> unat (of_nat n :: u32) = n"
  by (simp add: unsigned_of_nat take_bit_nat_eq_self)

lemma unat_size_mod:
  assumes "0 < n" "n < 2 ^ 31"
  shows "unat ((w :: u32) mod of_nat n) = unat w mod n"
  using assms by (simp add: unat_mod unat_size)

lemma unat_add_mod:
  assumes "n dvd 2 ^ 32"
  shows "unat ((a :: u32) + b) mod n = (unat a + unat b) mod n"
proof -
  have "unat (a + b) = (unat a + unat b) mod 2 ^ 32" by (simp add: unat_word_ariths)
  then show ?thesis using assms by (simp add: mod_mod_cancel)
qed

lemma fifo_contents_empty: "fifo_contents n f = [] \<longleftrightarrow> fifo_is_empty f"
  by (simp add: fifo_contents_def fifo_is_empty_def ring_list_def unat_eq_zero)

lemma fifo_write_slot:
  assumes "fifo_invar n f"
  shows "unat (wptr f mod tsize f) = (unat (rptr f) mod n + unat (dsize f)) mod n"
proof -
  have "unat (wptr f) mod n = unat (rptr f + dsize f) mod n" using assms by (simp add: fifo_invar_def)
  also have "\<dots> = (unat (rptr f) mod n + unat (dsize f)) mod n"
    using unat_add_mod [of n "rptr f" "dsize f"] assms by (simp add: fifo_invar_def mod_simps)
  finally show ?thesis using assms by (simp add: unat_size_mod fifo_invar_def)
qed

lemma rptr_back_mod:
  assumes "fifo_invar n f" "rptr f > tsize f"
  shows "unat (rptr f - tsize f) mod n = unat (rptr f) mod n"
proof -
  have "unat (rptr f - tsize f) = unat (rptr f) - n"
    using assms by (simp add: unat_sub fifo_invar_def unat_size)
  moreover have "n \<le> unat (rptr f)"
    using assms by (simp add: fifo_invar_def word_less_nat_alt unat_size)
  ultimately show ?thesis by (simp add: le_mod_geq)
qed

lemma fifo_rebase_same:
  assumes "fifo_invar n f"
  shows "fifo_invar n (fifo_rebase f) \<and> fifo_contents n (fifo_rebase f) = fifo_contents n f \<and>
     length (fdata (fifo_rebase f)) = length (fdata f) \<and> dsize (fifo_rebase f) = dsize f"
  using assms rptr_back_mod [OF assms]
    by (auto simp: fifo_rebase_def fifo_invar_def fifo_contents_def)

lemma rptr_Suc_mod:
  assumes "fifo_invar n f"
  shows "unat (rptr f + 1) mod n = Suc (unat (rptr f) mod n) mod n"
  using unat_add_mod [of n "rptr f" 1] assms by (simp add: fifo_invar_def mod_simps)

lemma fifo_push_eq:
  assumes "fifo_invar n f"
  shows "fifo_invar n (fifo_push c f)"
    and "unat (dsize f) < n \<Longrightarrow> fifo_contents n (fifo_push c f) = fifo_contents n f @ [c]"
proof -
  show "fifo_invar n (fifo_push c f)"
    using assms by (auto simp: fifo_invar_def fifo_push_def Let_def)
  assume room: "unat (dsize f) < n"
  then have d: "unat (dsize f + 1) = Suc (unat (dsize f))"
    using assms by (simp add: fifo_invar_def unat_word_ariths)
  have len: "length (fdata f) = n" using assms by (simp add: fifo_invar_def)
  show "fifo_contents n (fifo_push c f) = fifo_contents n f @ [c]"
    using ring_list_snoc [OF room len, of "unat (rptr f) mod n" c] fifo_write_slot [OF assms] d
    by (simp add: fifo_contents_def fifo_push_def Let_def)
qed

lemma fifo_push_unsafe_eq:
  assumes "fifo_invar n f"
  shows "fifo_push_unsafe c f = fifo_push c (fifo_rebase f)"
proof -
  have "dsize (fifo_rebase f) = wptr (fifo_rebase f) - rptr (fifo_rebase f)"
    using fifo_rebase_same [OF assms] by (simp add: fifo_invar_def)
  then show ?thesis by (simp add: fifo_push_unsafe_def fifo_push_def Let_def algebra_simps)
qed

lemma fifo_pop_unsafe_eq:
  assumes "fifo_invar n f"
  shows "fifo_pop_unsafe f = fifo_pop (fifo_rebase f)"
proof -
  have "dsize (fifo_rebase f) = wptr (fifo_rebase f) - rptr (fifo_rebase f)"
    using fifo_rebase_same [OF assms] by (simp add: fifo_invar_def)
  then show ?thesis by (simp add: fifo_pop_unsafe_def fifo_pop_def Let_def algebra_simps)
qed

lemma fifo_pop_eq:
  assumes "fifo_invar n f" "fifo_contents n f = x # xs"
  shows "\<exists>g. fifo_pop f = (x, g) \<and> fifo_invar n g \<and> fifo_contents n g = xs"
proof -
  let ?t = "unat (rptr f) mod n"
  from assms(2) obtain k where k: "unat (dsize f) = Suc k"
    by (cases "unat (dsize f)") (auto simp: fifo_contents_def)
  then have "unat (dsize f - 1) = k" by (simp add: unat_minus_one unat_eq_zero [symmetric])
  moreover have "?t < n" using assms(1) by (simp add: fifo_invar_def)
  from ring_list_cons [OF this, of "fdata f" k] assms(2) k
  have "x = fdata f ! ?t" "xs = ring_list n (fdata f) (Suc ?t mod n) k" by (simp_all add: fifo_contents_def)
  moreover have "unat (rptr f mod tsize f) = ?t" using assms(1) by (simp add: fifo_invar_def unat_size_mod)
  moreover have "fifo_invar n (snd (fifo_pop f))"
    using assms(1) by (auto simp: fifo_invar_def fifo_pop_def Let_def)
  ultimately show ?thesis
    using rptr_Suc_mod [OF assms(1)] by (simp add: fifo_pop_def Let_def fifo_contents_def)
qed

text \<open>The queue a reader sees: what \<^verbatim>\<open>uart_read\<close> does in each round.\<close>

definition fifo_next :: "fifo_t \<Rightarrow> (u8 \<times> fifo_t) option" where
  "fifo_next f = (if fifo_is_empty f then None else Some (fifo_pop f))"

interpretation ub: fifo fifo_next "fifo_contents n" "fifo_invar n" for n
proof
  fix q :: fifo_t and x xs
  show "fifo_next q = None" if "fifo_invar n q" "fifo_contents n q = []"
    using that by (simp add: fifo_next_def fifo_contents_empty)
  show "\<exists>q'. fifo_next q = Some (x, q') \<and> fifo_contents n q' = xs \<and> fifo_invar n q'"
    if "fifo_invar n q" "fifo_contents n q = x # xs"
    using fifo_pop_eq [OF that] fifo_contents_empty [of n q] that by (auto simp: fifo_next_def)
qed

lemma rx_take_pops: "rx_take k f = ub.pops k f"
  by (induction k arbitrary: f) (simp_all add: fifo_next_def split_beta)

lemma rx_take_eq:
  assumes "fifo_invar n f"
  shows "fst (rx_take k f) = take k (fifo_contents n f)"
    "fifo_contents n (snd (rx_take k f)) = drop k (fifo_contents n f)" "fifo_invar n (snd (rx_take k f))"
  using ub.pops_contents [OF assms, of k] by (simp_all add: rx_take_pops)

lemma fifo_length: "length (fifo_contents n f) = unat (dsize f)"
  by (simp add: fifo_contents_def)

lemma push_all_eq:
  assumes "fifo_invar n f" "length (fifo_contents n f) + length bs \<le> n"
  shows "fifo_invar n (fold fifo_push bs f) \<and> fifo_contents n (fold fifo_push bs f) = fifo_contents n f @ bs"
  using assms
proof (induction bs arbitrary: f)
  case (Cons b bs)
  have "fifo_contents n (fifo_push b f) = fifo_contents n f @ [b]"
    using Cons.prems by (intro fifo_push_eq) (simp_all add: fifo_length)
  with Cons.IH [of "fifo_push b f"] Cons.prems fifo_push_eq(1) [of n f b] show ?case by simp
qed simp

lemma push_unsafe_eq:
  assumes "fifo_invar n f"
  shows "fifo_invar n (fifo_push_unsafe c f)"
    and "length (fifo_contents n f) < n \<Longrightarrow> fifo_contents n (fifo_push_unsafe c f) = fifo_contents n f @ [c]"
  using fifo_rebase_same [OF assms] fifo_push_eq [of n "fifo_rebase f" c] assms
  by (simp_all add: fifo_push_unsafe_eq fifo_length)

lemma pop_unsafe_eq:
  assumes "fifo_invar n f" "fifo_contents n f = x # xs"
  shows "\<exists>g. fifo_pop_unsafe f = (x, g) \<and> fifo_invar n g \<and> fifo_contents n g = xs"
  using fifo_rebase_same [OF assms(1)] fifo_pop_eq [of n "fifo_rebase f" x xs] assms
  by (simp add: fifo_pop_unsafe_eq)

section \<open>The two streams\<close>

declare rx_drain.simps [simp del]

lemma rx_drain_eq: "rx_drain k (f, u) = (k + length (ur_rx u), fold fifo_push_unsafe (ur_rx u) f, u\<lparr>ur_rx := []\<rparr>)"
proof (induction "ur_rx u" arbitrary: k f u)
  case Nil
  then show ?case by (simp add: rx_drain.simps ev3_uart_can_read_def)
next
  case (Cons b bs)
  have "rx_drain (Suc k) (fifo_push_unsafe b f, u\<lparr>ur_rx := bs\<rparr>) =
      (Suc k + length bs, fold fifo_push_unsafe bs (fifo_push_unsafe b f), u\<lparr>ur_rx := []\<rparr>)"
    using Cons.hyps(1) [of "u\<lparr>ur_rx := bs\<rparr>"] by simp
  then show ?case
    using Cons.hyps(2) [symmetric] by (simp add: rx_drain.simps [of k] ev3_uart_can_read_def ev3_uart_getc_def)
qed

lemma drain_all_eq:
  assumes "fifo_invar n f" "length (fifo_contents n f) + length bs \<le> n"
  shows "fifo_invar n (fold fifo_push_unsafe bs f) \<and>
     fifo_contents n (fold fifo_push_unsafe bs f) = fifo_contents n f @ bs"
  using assms
proof (induction bs arbitrary: f)
  case (Cons b bs)
  have "fifo_contents n (fifo_push_unsafe b f) = fifo_contents n f @ [b]"
    using Cons.prems by (intro push_unsafe_eq) simp_all
  with Cons.IH [of "fifo_push_unsafe b f"] Cons.prems push_unsafe_eq(1) [of n f b] show ?case by simp
qed simp

text \<open>The transmit burst: at most \<open>k\<close> bytes leave, and the interrupt is switched off only on an empty queue.\<close>

lemma tx_fill_eq:
  assumes "fifo_invar n f"
  shows "fifo_invar n (fst (tx_fill k (f, u))) \<and>
     fifo_contents n (fst (tx_fill k (f, u))) = drop k (fifo_contents n f) \<and>
     ur_tx (snd (tx_fill k (f, u))) = ur_tx u @ take k (fifo_contents n f) \<and>
     ur_rx (snd (tx_fill k (f, u))) = ur_rx u \<and>
     ur_ier (snd (tx_fill k (f, u))) =
       (if length (fifo_contents n f) < k then ur_ier u AND NOT 2 else ur_ier u)"
  using assms
proof (induction k arbitrary: f u)
  case (Suc k)
  show ?case
  proof (cases "fifo_contents n f")
    case Nil
    with Suc.prems show ?thesis
      by (simp add: fifo_contents_empty [of n, symmetric] ev3_uart_enable_irq_def EV3_IRQ_TX_def)
  next
    case (Cons x xs)
    from pop_unsafe_eq [OF Suc.prems this] obtain g where
      g: "fifo_pop_unsafe f = (x, g)" "fifo_invar n g" "fifo_contents n g = xs" by blast
    from Cons have "\<not> fifo_is_empty f" using fifo_contents_empty [of n f] by simp
    with Suc.IH [OF g(2), of "ev3_uart_putc x u"] g Cons show ?thesis by (simp add: ev3_uart_putc_def)
  qed
qed simp

text \<open>Events: an interrupt with the bytes that have arrived and the state of the transmitter, and client calls.\<close>

datatype uartd_event = UIrq "u8 list" bool | URead int | UWrite "u8 list" | ULoop

definition wire_in :: "u8 list \<Rightarrow> bool \<Rightarrow> uartd \<Rightarrow> uartd" where
  "wire_in bs thre d = d\<lparr>ud_uart := (ud_uart d)\<lparr>ur_rx := ur_rx (ud_uart d) @ bs, ur_thre := thre\<rparr>\<rparr>"

text \<open>The daemon with the bytes its readers have got.\<close>

fun uartd_step :: "uartd_event \<Rightarrow> uartd \<times> u8 list \<Rightarrow> uartd \<times> u8 list" where
  "uartd_step (UIrq bs thre) (d, out) = (uart_interrupt_handle (wire_in bs thre d), out)"
| "uartd_step (URead sz) (d, out) = (let (_, cs, d) = uartd_read sz d in (d, out @ cs))"
| "uartd_step (UWrite bs) (d, out) = (snd (uartd_write bs d), out)"
| "uartd_step ULoop (d, out) = (snd (uart_loop_step d), out)"

text \<open>The specification: two unbounded queues, undefined once one of them holds more than its ring.\<close>

record streams =
  st_rx :: "u8 list"
  st_out :: "u8 list"
  st_tx :: "u8 list"
  st_sent :: "u8 list"

fun streams_step :: "uartd_event \<Rightarrow> streams \<Rightarrow> streams" where
  "streams_step (UIrq bs thre) a =
     (let a = a\<lparr>st_rx := st_rx a @ bs\<rparr>
      in if thre then a\<lparr>st_sent := st_sent a @ take 16 (st_tx a), st_tx := drop 16 (st_tx a)\<rparr> else a)"
| "streams_step (URead sz) a = a\<lparr>st_out := st_out a @ take (nat sz) (st_rx a), st_rx := drop (nat sz) (st_rx a)\<rparr>"
| "streams_step (UWrite bs) a = a\<lparr>st_tx := st_tx a @ bs\<rparr>"
| "streams_step ULoop a = a"

definition streams_fit :: "uartd_event \<Rightarrow> streams option \<Rightarrow> streams option" where
  "streams_fit e a = (case a of None \<Rightarrow> None | Some a \<Rightarrow>
     (let fit = (case e of UIrq bs _ \<Rightarrow> length (st_rx a) + length bs \<le> 128
          | UWrite bs \<Rightarrow> length (st_tx a) + length bs \<le> 4096 | _ \<Rightarrow> True)
      in if fit then Some (streams_step e a) else None))"

definition streams_rel :: "u8 list \<Rightarrow> uartd \<times> u8 list \<Rightarrow> streams option \<Rightarrow> bool" where
  "streams_rel tx0 c a = (case a of None \<Rightarrow> True | Some a \<Rightarrow>
     fifo_invar 128 (ud_RxBuf (fst c)) \<and> fifo_contents 128 (ud_RxBuf (fst c)) = st_rx a \<and>
     fifo_invar 4096 (ud_TxBuf (fst c)) \<and> fifo_contents 4096 (ud_TxBuf (fst c)) = st_tx a \<and>
     snd c = st_out a \<and> ur_tx (ud_uart (fst c)) = tx0 @ st_sent a \<and> ur_rx (ud_uart (fst c)) = [] \<and>
     (st_tx a \<noteq> [] \<longrightarrow> bit (ur_ier (ud_uart (fst c))) 1))"

lemma irq_rel:
  assumes "streams_rel tx0 (d, out) (Some a)" "length (st_rx a) + length bs \<le> 128"
  shows "streams_rel tx0 (uart_interrupt_handle (wire_in bs thre d), out) (Some (streams_step (UIrq bs thre) a))"
proof -
  let ?f = "fold fifo_push_unsafe bs (ud_RxBuf d)"
  have "fifo_invar 128 ?f \<and> fifo_contents 128 ?f = st_rx a @ bs"
    using assms drain_all_eq [of 128 "ud_RxBuf d" bs] by (simp add: streams_rel_def)
  moreover have "fifo_invar 4096 (ud_TxBuf d)" using assms by (simp add: streams_rel_def)
  from tx_fill_eq [OF this, of 16 "(ud_uart d)\<lparr>ur_thre := True, ur_rx := []\<rparr>"]
  have "thre \<Longrightarrow> ?thesis" if "fifo_invar 128 ?f \<and> fifo_contents 128 ?f = st_rx a @ bs"
    using that assms(1)
    by (auto simp: uart_interrupt_handle_def wire_in_def rx_drain_eq streams_rel_def ev3_uart_can_write_def Let_def
        split_beta)
  ultimately show ?thesis
    using assms(1)
    by (cases thre)
      (auto simp: uart_interrupt_handle_def wire_in_def rx_drain_eq streams_rel_def ev3_uart_can_write_def Let_def
        split_beta)
qed

lemma uartd_step_rel:
  assumes "streams_rel tx0 c a"
  shows "streams_rel tx0 (uartd_step e c) (streams_fit e a)"
proof (cases a)
  case None
  then show ?thesis by (simp add: streams_fit_def streams_rel_def)
next
  case (Some b)
  obtain d out where c: "c = (d, out)" by (cases c)
  have rel: "streams_rel tx0 (d, out) (Some b)" using assms Some c by simp
  show ?thesis
  proof (cases e)
    case (UIrq bs thre)
    then show ?thesis using irq_rel [OF rel, of bs thre] Some c
      by (auto simp: streams_fit_def Let_def) (simp add: streams_rel_def)
  next
    case (URead sz)
    then show ?thesis using rx_take_eq [of 128 "ud_RxBuf d" "nat sz"] rel Some c
      by (auto simp: streams_fit_def streams_rel_def uartd_read_def Let_def split_beta)
  next
    case (UWrite bs)
    then show ?thesis using push_all_eq [of 4096 "ud_TxBuf d" bs] rel Some c
      by (auto simp: streams_fit_def streams_rel_def uartd_write_def ev3_uart_enable_irq_def EV3_IRQ_TX_def bit_simps)
  next
    case ULoop
    then show ?thesis using rel Some c
      by (auto simp: streams_fit_def streams_rel_def uart_loop_step_def)
  qed
qed

interpretation us: simulation "\<lambda>_. True" uartd_step streams_fit "streams_rel tx0" for tx0
  by unfold_locales (rule uartd_step_rel)

text \<open>The bytes that arrive and the bytes written along a list of events.\<close>

fun arrived :: "uartd_event \<Rightarrow> u8 list" where
  "arrived (UIrq bs _) = bs"
| "arrived _ = []"

fun written :: "uartd_event \<Rightarrow> u8 list" where
  "written (UWrite bs) = bs"
| "written _ = []"

lemma fit_None [simp]: "fold streams_fit es None = None"
  by (induction es) (simp_all add: streams_fit_def)

lemma streams_conserve:
  "fold streams_fit es (Some a) = Some b \<Longrightarrow>
     st_out b @ st_rx b = st_out a @ st_rx a @ concat (map arrived es) \<and>
     st_sent b @ st_tx b = st_sent a @ st_tx a @ concat (map written es)"
proof (induction es arbitrary: a)
  case (Cons e es)
  from Cons.prems obtain c where c: "streams_fit e (Some a) = Some c" "fold streams_fit es (Some c) = Some b"
    by (cases "streams_fit e (Some a)") auto
  have "st_out c @ st_rx c = st_out a @ st_rx a @ arrived e \<and> st_sent c @ st_tx c = st_sent a @ st_tx a @ written e"
    using c(1) by (cases e) (auto simp: streams_fit_def Let_def split: if_splits)
  with Cons.IH [OF c(2)] show ?case by (simp flip: append_assoc)
qed simp

lemma uartd_main_rel:
  assumes "length txmem = 4096" "length rxmem = 128"
  shows "streams_rel (ur_tx u) (uartd_main 0 txmem 0 rxmem u, []) (Some \<lparr>st_rx = [], st_out = [], st_tx = [], st_sent = []\<rparr>)"
  using assms
  by (simp add: streams_rel_def uartd_main_def fifo_new_def fifo_invar_def fifo_contents_def ev3_uart_init_def
      ev3_uart_enable_irq_def write_fcr_def Let_def)

text \<open>
  C10. The serial daemon passes both streams on unchanged and in order, provided that the memory \<^verbatim>\<open>malloc\<close> returns holds 0
  in the byte count of each queue, which \<^verbatim>\<open>fifo_new\<close> does not set (\<open>uartd_sends_garbage\<close> shows what happens
  otherwise), and that interrupts are taken between client calls. Along every list of interrupts, client
  reads and writes in which neither ring is asked to hold more than it can, what the readers got followed by
  what is still queued is what arrived on the wire, what was sent followed by what is still queued
  is what was written, and bytes waiting to be sent always have the transmit interrupt enabled.
\<close>

theorem uartd_streams:
  assumes "txjunk = 0" "rxjunk = 0" "length txmem = 4096" "length rxmem = 128"
    and "fold streams_fit es (Some \<lparr>st_rx = [], st_out = [], st_tx = [], st_sent = []\<rparr>) \<noteq> None"
    and "fold uartd_step es (uartd_main txjunk txmem rxjunk rxmem u, []) = (d, out)"
  shows "out @ fifo_contents 128 (ud_RxBuf d) = concat (map arrived es) \<and>
    ur_tx (ud_uart d) @ fifo_contents 4096 (ud_TxBuf d) = ur_tx u @ concat (map written es) \<and>
    (fifo_contents 4096 (ud_TxBuf d) \<noteq> [] \<longrightarrow> bit (ur_ier (ud_uart d)) 1)"
proof -
  from assms(5) obtain b where
    b: "fold streams_fit es (Some \<lparr>st_rx = [], st_out = [], st_tx = [], st_sent = []\<rparr>) = Some b" by blast
  have "streams_rel (ur_tx u) (d, out) (Some b)"
    using us.rel_run [OF _ uartd_main_rel [OF assms(3,4), of u], of es] assms(1,2,6) b by (simp add: list_all_iff)
  with streams_conserve [OF b] show ?thesis by (auto simp: streams_rel_def)
qed

definition blank_uart :: uart16550 where
  "blank_uart = \<lparr>ur_ier = 0, ur_lcr = 0, ur_mcr = 0, ur_fcr = 0, ur_pwremu = 0, ur_dll = 0, ur_dlh = 0,
     ur_rx = [], ur_tx = [], ur_thre = True, ur_temt = True\<rparr>"

theorem uartd_streams_witness:
  "\<exists>d out. fold uartd_step [UWrite [1, 2, 3], UIrq [7, 8] True, URead 1] (uartd_main 0 (replicate 4096 0) 0 (replicate 128 0) blank_uart, []) =
     (d, out) \<and> out @ fifo_contents 128 (ud_RxBuf d) = [7, 8] \<and> ur_tx (ud_uart d) @ fifo_contents 4096 (ud_TxBuf d) = [1, 2, 3]"
proof -
  let ?es = "[UWrite [1, 2, 3], UIrq [7, 8] True, URead 1]"
  obtain d out where r: "fold uartd_step ?es (uartd_main 0 (replicate 4096 0) 0 (replicate 128 0) blank_uart, []) = (d, out)"
    by fastforce
  have f: "fold streams_fit ?es (Some \<lparr>st_rx = [], st_out = [], st_tx = [], st_sent = []\<rparr>) \<noteq> None"
    by (simp add: streams_fit_def)
  from uartd_streams [OF refl refl _ _ f r] r show ?thesis by (simp add: blank_uart_def)
qed

section \<open>Queues beyond their bounds\<close>

text \<open>A producer that is not stopped at the capacity replaces the oldest bytes in place.\<close>

definition fifo_slots :: "nat \<Rightarrow> fifo_t \<Rightarrow> u8 list" where
  "fifo_slots n f = ring_list n (fdata f) (unat (rptr f) mod n) n"

lemma fifo_rebase_slots:
  assumes "fifo_invar n f"
  shows "fifo_slots n (fifo_rebase f) = fifo_slots n f"
  using rptr_back_mod [OF assms] by (auto simp: fifo_slots_def fifo_rebase_def)

lemma push_unsafe_slots:
  assumes "fifo_invar n f"
  shows "fifo_slots n (fifo_push_unsafe c f) = (fifo_slots n f)[unat (dsize f) mod n := c]"
    and "dsize (fifo_push_unsafe c f) = dsize f + 1"
proof -
  let ?g = "fifo_rebase f"
  note g = fifo_rebase_same [OF assms]
  have "0 < n" "length (fdata ?g) = n" using assms g by (simp_all add: fifo_invar_def)
  from ring_list_update [OF this, of "unat (rptr ?g) mod n" "unat (dsize ?g)" c] fifo_write_slot [of n ?g] g
  have "fifo_slots n (fifo_push c ?g) = (fifo_slots n ?g)[unat (dsize ?g) mod n := c]"
    by (simp add: fifo_slots_def fifo_push_def Let_def)
  with g assms show "fifo_slots n (fifo_push_unsafe c f) = (fifo_slots n f)[unat (dsize f) mod n := c]"
    and "dsize (fifo_push_unsafe c f) = dsize f + 1"
    by (simp_all add: fifo_push_unsafe_eq fifo_rebase_slots fifo_push_def Let_def)
qed

lemma contents_slots:
  "fifo_invar n f \<Longrightarrow> fifo_contents n f = map (\<lambda>i. fifo_slots n f ! (i mod n)) [0..<unat (dsize f)]"
  unfolding fifo_contents_def fifo_slots_def by (rule ring_list_wrap) (simp add: fifo_invar_def)

lemma full_slots:
  assumes "fifo_invar n f" "length (fifo_contents n f) = n"
  shows "fifo_slots n f = fifo_contents n f"
  using assms by (simp add: fifo_slots_def fifo_contents_def)

lemma overrun_slots:
  assumes "fifo_invar n f" "unat (dsize f) = n" "length zs \<le> n"
  shows "fifo_invar n (fold fifo_push_unsafe zs f) \<and>
     fifo_slots n (fold fifo_push_unsafe zs f) = zs @ drop (length zs) (fifo_slots n f) \<and>
     unat (dsize (fold fifo_push_unsafe zs f)) = n + length zs"
  using assms(3)
proof (induction zs rule: rev_induct)
  case Nil
  then show ?case using assms by simp
next
  case (snoc z zs)
  let ?g = "fold fifo_push_unsafe zs f"
  from snoc have g: "fifo_invar n ?g" "fifo_slots n ?g = zs @ drop (length zs) (fifo_slots n f)"
    "unat (dsize ?g) = n + length zs" by simp_all
  have "n < 2 ^ 31" using assms(1) by (simp add: fifo_invar_def)
  with g(3) snoc.prems have "unat (dsize ?g + 1) = Suc (n + length zs)" by (simp add: unat_word_ariths)
  moreover obtain y ys where "drop (length zs) (fifo_slots n f) = y # ys"
    using snoc.prems by (cases "drop (length zs) (fifo_slots n f)") (auto simp: fifo_slots_def)
  moreover from this have "drop (Suc (length zs)) (fifo_slots n f) = ys" by (metis drop_Suc list.sel(3) tl_drop)
  ultimately show ?case
    using push_unsafe_slots [OF g(1), of z] push_unsafe_eq(1) [OF g(1), of z] g(2,3) snoc.prems by simp
qed

lemma overrun_contents:
  assumes "fifo_invar n f" "fifo_contents n f = xs" "length xs = n" "length zs \<le> n"
  shows "fifo_invar n (fold fifo_push_unsafe zs f)"
    and "fifo_contents n (fold fifo_push_unsafe zs f) = zs @ drop (length zs) xs @ zs"
proof -
  let ?g = "fold fifo_push_unsafe zs f"
  define l where "l = zs @ drop (length zs) xs"
  have "unat (dsize f) = n" using assms(2,3) by (simp flip: fifo_length [of n])
  from overrun_slots [OF assms(1) this assms(4)]
  have g: "fifo_invar n ?g" "fifo_slots n ?g = l" "unat (dsize ?g) = n + length zs"
    using full_slots [OF assms(1)] assms(2,3) by (simp_all add: l_def)
  show "fifo_invar n ?g" by (rule g)
  have l: "length l = n" "\<And>i. i < length zs \<Longrightarrow> l ! i = zs ! i" using assms by (simp_all add: l_def nth_append)
  have "map (\<lambda>i. l ! (i mod n)) [0..<n + length zs] = l @ zs"
  proof (rule nth_equalityI)
    fix i assume "i < length (map (\<lambda>i. l ! (i mod n)) [0..<n + length zs])"
    then have i: "i < n + length zs" by simp
    then have "i mod n = (if i < n then i else i - n)" using assms(4) by (simp add: le_mod_geq)
    with i l show "map (\<lambda>i. l ! (i mod n)) [0..<n + length zs] ! i = (l @ zs) ! i"
      by (auto simp: nth_append)
  qed (simp add: l)
  with contents_slots [OF g(1)] g(2,3) show "fifo_contents n ?g = zs @ drop (length zs) xs @ zs" by (simp add: l_def)
qed

lemma irq_rx_only:
  "ur_rx (ud_uart d) = [] \<Longrightarrow>
     ud_RxBuf (uart_interrupt_handle (wire_in bs False d)) = fold fifo_push_unsafe bs (ud_RxBuf d) \<and>
     ur_rx (ud_uart (uart_interrupt_handle (wire_in bs False d))) = []"
  by (simp add: uart_interrupt_handle_def wire_in_def rx_drain_eq ev3_uart_can_write_def Let_def)

text \<open>
  C39. The receive ring does not stop at its capacity: when 128 bytes wait and up to 128 more arrive before the
  next read, a client reads the newest bytes first, then the ones that were not overwritten, and
  then the newest ones a second time.
\<close>

theorem uartd_overrun:
  assumes "length rxmem = 128" "length xs = 128" "length zs \<le> 128"
    and "uart_interrupt_handle (wire_in zs False (uart_interrupt_handle (wire_in xs False (uartd_main txjunk txmem rxjunk rxmem u)))) = d"
  shows "fst (snd (uartd_read (int (128 + length zs)) d)) = zs @ drop (length zs) xs @ zs"
proof -
  let ?d0 = "uartd_main txjunk txmem rxjunk rxmem u"
  let ?f = "fold fifo_push_unsafe xs (fifo_new 0 rxmem 128)"
  have u: "ur_rx (ud_uart ?d0) = []"
    by (simp add: uartd_main_def ev3_uart_init_def ev3_uart_enable_irq_def write_fcr_def Let_def)
  have "fold fifo_push_unsafe xs (fifo_new rxjunk rxmem 128) = ?f"
    using assms(2) by (cases xs) (simp_all add: fifo_new_def fifo_push_unsafe_def fifo_rebase_def)
  then have d: "ud_RxBuf d = fold fifo_push_unsafe zs ?f"
    using irq_rx_only [OF u, of xs] irq_rx_only [of _ zs] assms(4) by (auto simp: uartd_main_def Let_def)
  have "fifo_invar 128 (fifo_new 0 rxmem 128)" "fifo_contents 128 (fifo_new 0 rxmem 128) = []"
    using assms(1) by (simp_all add: fifo_new_def fifo_invar_def fifo_contents_def)
  with drain_all_eq [of 128 "fifo_new 0 rxmem 128" xs] assms(2)
  have "fifo_invar 128 ?f" "fifo_contents 128 ?f = xs" by simp_all
  from overrun_contents [OF this assms(2,3)] rx_take_eq(1) [of 128 "ud_RxBuf d" "128 + length zs"] d assms(2,3)
  show ?thesis by (simp add: uartd_read_def split_beta nat_add_distrib)
qed

theorem uartd_overrun_witness:
  "fst (snd (uartd_read 129 (uart_interrupt_handle (wire_in [9] False
      (uart_interrupt_handle (wire_in (replicate 128 5) False (uartd_main 0 [] 0 (replicate 128 0) blank_uart))))))) =
   9 # replicate 127 5 @ [9]"
  using uartd_overrun [of "replicate 128 0" "replicate 128 5" "[9]", OF _ _ _ refl, of 0 "[]" 0 blank_uart]
  by (simp add: numeral_eq_Suc)

text \<open>A transmit queue whose count is not zero although nothing was written.\<close>

lemma tx_fill_unwritten:
  assumes "wptr f = 0" "tsize f = 4096" "dsize f \<noteq> 0" "unat (rptr f) + k < 2 ^ 32" "unat (rptr f) = r"
  shows "\<exists>g v. tx_fill k (f, u) = (g, v) \<and> wptr g = 0 \<and> tsize g = 4096 \<and> dsize g \<noteq> 0 \<and> fdata g = fdata f \<and>
     unat (rptr g) = r + k \<and> ur_rx v = ur_rx u \<and>
     ur_tx v = ur_tx u @ map (\<lambda>i. fdata f ! (i mod 4096)) [r..<r + k]"
  using assms
proof (induction k arbitrary: f u r)
  case (Suc k)
  let ?c = "fdata f ! unat (rptr f mod 4096)" and ?g = "f\<lparr>rptr := rptr f + 1, dsize := - (rptr f + 1)\<rparr>"
  have r: "unat (rptr f + 1) = Suc r" using Suc.prems by (simp add: unat_word_ariths)
  have p: "fifo_pop_unsafe f = (?c, ?g)"
    using Suc.prems by (simp add: fifo_pop_unsafe_def fifo_rebase_def Let_def)
  have c: "?c = fdata f ! (r mod 4096)" using Suc.prems by (simp add: unat_mod)
  have "rptr f + 1 \<noteq> 0" using r by (metis nat.distinct(1) unat_0)
  then have "- rptr f \<noteq> 1" by (metis add.right_inverse)
  then have "\<exists>g v. tx_fill k (?g, ev3_uart_putc ?c u) = (g, v) \<and> wptr g = 0 \<and> tsize g = 4096 \<and> dsize g \<noteq> 0 \<and>
      fdata g = fdata ?g \<and> unat (rptr g) = Suc r + k \<and> ur_rx v = ur_rx (ev3_uart_putc ?c u) \<and>
      ur_tx v = ur_tx (ev3_uart_putc ?c u) @ map (\<lambda>i. fdata ?g ! (i mod 4096)) [Suc r..<Suc r + k]"
    using Suc.prems r by (intro Suc.IH) simp_all
  moreover have "tx_fill (Suc k) (f, u) = tx_fill k (?g, ev3_uart_putc ?c u)"
    using Suc.prems p by (simp add: fifo_is_empty_def)
  moreover have "[r..<r + Suc k] = r # [Suc r..<Suc r + k]" by (simp add: upt_conv_Cons del: upt_Suc)
  ultimately show ?case using c by (simp add: ev3_uart_putc_def del: upt_Suc tx_fill.simps)
qed simp

text \<open>
  \<^verbatim>\<open>fifo_new\<close> does not set the byte count: if the memory it gets is not zero there, the daemon transmits the
  uninitialised contents of its buffer, 16 bytes in every interrupt that finds the transmitter empty,
  over and over, although no client has written anything.
\<close>

theorem uartd_sends_garbage:
  assumes "txjunk \<noteq> 0" "16 * k < 2 ^ 32"
    and "fold uartd_step (replicate k (UIrq [] True)) (uartd_main txjunk txmem rxjunk rxmem u, []) = (d, out)"
  shows "ur_tx (ud_uart d) = ur_tx u @ map (\<lambda>i. txmem ! (i mod 4096)) [0..<16 * k]"
proof -
  have "\<exists>d. fold uartd_step (replicate k (UIrq [] True)) (uartd_main txjunk txmem rxjunk rxmem u, []) = (d, []) \<and>
      wptr (ud_TxBuf d) = 0 \<and> tsize (ud_TxBuf d) = 4096 \<and> dsize (ud_TxBuf d) \<noteq> 0 \<and> fdata (ud_TxBuf d) = txmem \<and>
      unat (rptr (ud_TxBuf d)) = 16 * k \<and> ur_rx (ud_uart d) = [] \<and>
      ur_tx (ud_uart d) = ur_tx u @ map (\<lambda>i. txmem ! (i mod 4096)) [0..<16 * k]"
    using assms(2)
  proof (induction k)
    case 0
    then show ?case using assms(1)
      by (simp add: uartd_main_def fifo_new_def ev3_uart_init_def ev3_uart_enable_irq_def write_fcr_def Let_def)
  next
    case (Suc k)
    then obtain d where d: "fold uartd_step (replicate k (UIrq [] True)) (uartd_main txjunk txmem rxjunk rxmem u, []) = (d, [])"
      "wptr (ud_TxBuf d) = 0" "tsize (ud_TxBuf d) = 4096" "dsize (ud_TxBuf d) \<noteq> 0" "fdata (ud_TxBuf d) = txmem"
      "unat (rptr (ud_TxBuf d)) = 16 * k" "ur_rx (ud_uart d) = []"
      "ur_tx (ud_uart d) = ur_tx u @ map (\<lambda>i. txmem ! (i mod 4096)) [0..<16 * k]" by auto
    have "[0..<16 * Suc k] = [0..<16 * k] @ [16 * k..<16 * k + 16]"
      using upt_add_eq_append [of 0 "16 * k" 16] by (simp add: add.commute)
    with tx_fill_unwritten [of "ud_TxBuf d" 16 "16 * k" "(ud_uart d)\<lparr>ur_thre := True, ur_rx := []\<rparr>"] d Suc.prems
    show ?case
      by (auto simp: replicate_append_same [symmetric] uart_interrupt_handle_def wire_in_def rx_drain_eq
          ev3_uart_can_write_def Let_def simp del: upt_Suc replicate_Suc tx_fill.simps)
  qed
  with assms(3) show ?thesis by auto
qed

theorem uartd_sends_garbage_witness:
  "\<exists>d out. fold uartd_step (replicate 2 (UIrq [] True)) (uartd_main 1 (replicate 4096 0xA5) 0 [] blank_uart, []) = (d, out) \<and>
     ur_tx (ud_uart d) = replicate 32 0xA5"
proof -
  obtain d out where r: "fold uartd_step (replicate 2 (UIrq [] True)) (uartd_main 1 (replicate 4096 0xA5) 0 [] blank_uart, []) = (d, out)"
    by fastforce
  from uartd_sends_garbage [OF _ _ r] have "ur_tx (ud_uart d) = map (\<lambda>i. replicate 4096 0xA5 ! (i mod 4096)) [0..<32]"
    by (simp add: blank_uart_def)
  also have "\<dots> = replicate 32 0xA5" by (simp add: list_eq_iff_nth_eq)
  finally show ?thesis using r by blast
qed

end
