(* ===== verification/Ev3_Spi.thy ===== *)
theory Ev3_Spi
  imports Ev3_Gpio
begin

text \<open>
  The SPI master of the EV3 (\<^verbatim>\<open>src/lego.ev3/system/libs/arch_ev3/src/spi.c\<close>), to which the analogue converter and
  the display are attached: bus setup and the byte transfers.

  The device on the bus is an argument: a function of the GPIO lines, the word written to \<^verbatim>\<open>SPIDAT1\<close> (chip
  select, hold bit and data byte) and its own state, which answers the byte it shifts out. The two
  polling loops wait for the controller to finish a byte; they have no effect of their own.
\<close>

type_synonym 'd spi_device = "gpio_state \<Rightarrow> u32 \<Rightarrow> 'd \<Rightarrow> u8 \<times> 'd"

record davinci_spi_regs =
  spi_gcr0 :: u32
  spi_gcr1 :: u32
  spi_int0 :: u32
  spi_lvl :: u32
  spi_pc0 :: u32
  spi_dat1 :: u32
  spi_delay :: u32
  spi_def :: u32
  spi_fmt0 :: u32

text \<open>The static \<^verbatim>\<open>_spi\<close>, the GPIO lines, and the device at the other end.\<close>

record 'd spi =
  sp_regs :: davinci_spi_regs
  sp_base :: u32
  sp_freq :: u32
  sp_mode :: u32
  sp_num_cs :: u8
  sp_cur_cs :: u8
  sp_half_duplex :: bool
  sp_gpio :: gpio_state
  sp_dev :: 'd

definition SPI0_BASE :: u32 where "SPI0_BASE = 0x01C41000"
definition SPI1_BASE :: u32 where "SPI1_BASE = 0x01F0E000"
definition CFG_SYS_SPI_CLK :: u32 where "CFG_SYS_SPI_CLK = 100000000"
definition SPI_CPHA :: u32 where "SPI_CPHA = 1"
definition SPI_CPOL :: u32 where "SPI_CPOL = 2"
definition SPI_XFER_END :: u32 where "SPI_XFER_END = 2"
definition SPIDAT1_CSHOLD_SHIFT :: nat where "SPIDAT1_CSHOLD_SHIFT = 28"
definition SPIDAT1_CSNR_SHIFT :: nat where "SPIDAT1_CSNR_SHIFT = 16"
definition SPIFMT_PRESCALE_SHIFT :: nat where "SPIFMT_PRESCALE_SHIFT = 8"
definition SPIFMT_PHASE_SHIFT :: nat where "SPIFMT_PHASE_SHIFT = 16"

definition davinci_spi_xfer_data :: "'d spi_device \<Rightarrow> u32 \<Rightarrow> 'd spi \<Rightarrow> u8 \<times> 'd spi" where
  "davinci_spi_xfer_data dev data s =
     (let s = s\<lparr>sp_regs := (sp_regs s)\<lparr>spi_dat1 := data\<rparr>\<rparr>;
          (b, x) = dev (sp_gpio s) data (sp_dev s)
      in (b, s\<lparr>sp_dev := x\<rparr>))"

text \<open>The loop over all bytes but the last.\<close>

fun spi_shift_out :: "'d spi_device \<Rightarrow> u32 list \<Rightarrow> 'd spi \<Rightarrow> u8 list \<times> 'd spi" where
  "spi_shift_out dev [] s = ([], s)"
| "spi_shift_out dev (w # ws) s =
     (let (b, s) = davinci_spi_xfer_data dev w s; (bs, s) = spi_shift_out dev ws s in (b # bs, s))"

definition spi_hold :: "'d spi \<Rightarrow> u32" where
  "spi_hold s = push_bit SPIDAT1_CSHOLD_SHIFT 1 OR push_bit SPIDAT1_CSNR_SHIFT (ucast (sp_cur_cs s))"

definition spi_end :: "u32 \<Rightarrow> u32 \<Rightarrow> u32" where
  "spi_end flags w = (if flags AND SPI_XFER_END \<noteq> 0 then w AND NOT (push_bit SPIDAT1_CSHOLD_SHIFT 1) else w)"

text \<open>A length of 0 still transfers the last byte.\<close>

definition davinci_spi_read :: "'d spi_device \<Rightarrow> nat \<Rightarrow> u32 \<Rightarrow> 'd spi \<Rightarrow> u8 list \<times> 'd spi" where
  "davinci_spi_read dev len flags s =
     (let d1 = spi_hold s;
          (rs, s) = spi_shift_out dev (replicate (len - 1) d1) s;
          (r, s) = davinci_spi_xfer_data dev (spi_end flags d1) s
      in (rs @ [r], s))"

definition davinci_spi_write :: "'d spi_device \<Rightarrow> nat \<Rightarrow> u8 list \<Rightarrow> u32 \<Rightarrow> 'd spi \<Rightarrow> 'd spi" where
  "davinci_spi_write dev len txp flags s =
     (let d1 = spi_hold s;
          (_, s) = spi_shift_out dev (map (\<lambda>b. d1 OR ucast b) (take (len - 1) txp)) s;
          (_, s) = davinci_spi_xfer_data dev (spi_end flags d1 OR ucast (txp ! (len - 1))) s
      in s)"

definition davinci_spi_read_write :: "'d spi_device \<Rightarrow> nat \<Rightarrow> u8 list \<Rightarrow> u32 \<Rightarrow> 'd spi \<Rightarrow> u8 list \<times> 'd spi" where
  "davinci_spi_read_write dev len txp flags s =
     (let d1 = spi_hold s;
          (rs, s) = spi_shift_out dev (map (\<lambda>b. d1 OR ucast b) (take (len - 1) txp)) s;
          (r, s) = davinci_spi_xfer_data dev (spi_end flags d1 OR ucast (txp ! (len - 1))) s
      in (rs @ [r], s))"

definition davinci_spi_claim_bus :: "nat \<Rightarrow> 'd spi \<Rightarrow> 'd spi" where
  "davinci_spi_claim_bus cs s =
     (let s = s\<lparr>sp_cur_cs := NOT (push_bit cs 1)\<rparr>;
          r = sp_regs s;
          r = r\<lparr>spi_gcr0 := 0\<rparr>;
          r = r\<lparr>spi_gcr0 := 1\<rparr>;
          r = r\<lparr>spi_gcr1 := 1 OR 2\<rparr>;
          r = r\<lparr>spi_pc0 := push_bit cs 1 OR push_bit 9 1 OR push_bit 10 1 OR push_bit 11 1\<rparr>;
          scalar = (CFG_SYS_SPI_CLK div sp_freq s - 1) AND 0xFF;
          mode = (if sp_mode s AND SPI_CPOL \<noteq> 0 then SPI_CPOL else 0);
          mode = (if sp_mode s AND SPI_CPHA = 0 then mode OR SPI_CPHA else mode);
          r = r\<lparr>spi_fmt0 := 8 OR push_bit SPIFMT_PRESCALE_SHIFT scalar OR push_bit SPIFMT_PHASE_SHIFT mode\<rparr>;
          r = r\<lparr>spi_delay := push_bit 24 50 OR push_bit 16 50\<rparr>;
          r = r\<lparr>spi_def := 0xFF\<rparr>;
          r = r\<lparr>spi_int0 := 0, spi_lvl := 0\<rparr>;
          r = r\<lparr>spi_gcr1 := spi_gcr1 r OR push_bit 24 1\<rparr>
      in s\<lparr>sp_regs := r\<rparr>)"

definition davinci_spi_release_bus :: "'d spi \<Rightarrow> 'd spi" where
  "davinci_spi_release_bus s = s\<lparr>sp_regs := (sp_regs s)\<lparr>spi_gcr0 := 0\<rparr>\<rparr>"

text \<open>An unknown bus returns before the defaults are set.\<close>

definition davinci_spi_init :: "int \<Rightarrow> 'd spi \<Rightarrow> 'd spi" where
  "davinci_spi_init bus s =
     (let set = (\<lambda>s. s\<lparr>sp_freq := 1000000, sp_mode := 0, sp_cur_cs := 0, sp_num_cs := 1, sp_half_duplex := False\<rparr>)
      in if bus = 0
         then set (s\<lparr>sp_gpio := ev3_syscfg_write 0x1c1412C 0x01001101 0x0f00ff0f (sp_gpio s), sp_base := SPI0_BASE\<rparr>)
         else if bus = 1 then set (s\<lparr>sp_base := SPI1_BASE\<rparr>)
         else s)"

section \<open>What the device sees\<close>

lemmas spi_consts = SPI_CPHA_def SPI_CPOL_def SPI_XFER_END_def SPIDAT1_CSHOLD_SHIFT_def SPIDAT1_CSNR_SHIFT_def
  SPIFMT_PRESCALE_SHIFT_def SPIFMT_PHASE_SHIFT_def CFG_SYS_SPI_CLK_def

text \<open>The device fed with a list of words, with the lines as they are.\<close>

fun feed :: "'d spi_device \<Rightarrow> gpio_state \<Rightarrow> u32 list \<Rightarrow> 'd \<Rightarrow> u8 list \<times> 'd" where
  "feed dev g [] x = ([], x)"
| "feed dev g (w # ws) x = (let (b, x) = dev g w x; (bs, x) = feed dev g ws x in (b # bs, x))"

lemma feed_append:
  "feed dev g (vs @ ws) x = (let (as, x) = feed dev g vs x; (bs, x) = feed dev g ws x in (as @ bs, x))"
  by (induction vs arbitrary: x) (simp_all add: split_beta Let_def)

text \<open>The words of one transfer: all bytes with chip select held, the last one without if the transfer ends.\<close>

definition spi_words :: "u8 \<Rightarrow> bool \<Rightarrow> u8 list \<Rightarrow> u32 list" where
  "spi_words cs fin bs =
     map (\<lambda>b. 0x10000000 OR push_bit 16 (ucast cs) OR ucast b) (butlast bs) @
     [(if fin then 0 else 0x10000000) OR push_bit 16 (ucast cs) OR ucast (last bs)]"

lemma spi_hold_eq: "spi_hold s = 0x10000000 OR push_bit 16 (ucast (sp_cur_cs s))"
  by (simp add: spi_hold_def spi_consts)

lemma spi_end_hold:
  "spi_end flags (spi_hold s) =
     (if flags AND SPI_XFER_END \<noteq> 0 then 0 else 0x10000000) OR push_bit 16 (ucast (sp_cur_cs s))"
proof -
  have "(268435456 OR push_bit 16 (ucast (c::u8) :: u32)) AND - 268435457 = push_bit 16 (ucast c)" for c
  proof (rule bit_word_eqI)
    fix n assume "n < LENGTH(32)"
    have "(268435456::u32) = push_bit 28 1" "(- 268435457 :: u32) = NOT (push_bit 28 1)" by simp_all
    then show "bit ((268435456 OR push_bit 16 (ucast (c::u8) :: u32)) AND - 268435457) n = bit (push_bit 16 (ucast c) :: u32) n"
      by (auto simp only: bit_simps) (auto dest: bit_imp_le_length)
  qed
  then show ?thesis by (simp add: spi_end_def spi_hold_def spi_consts)
qed

lemma shift_out_feed:
  "spi_shift_out dev ws s =
     (fst (feed dev (sp_gpio s) ws (sp_dev s)),
      s\<lparr>sp_regs := (if ws = [] then sp_regs s else (sp_regs s)\<lparr>spi_dat1 := last ws\<rparr>),
        sp_dev := snd (feed dev (sp_gpio s) ws (sp_dev s))\<rparr>)"
  by (induction ws arbitrary: s) (auto simp: davinci_spi_xfer_data_def split_beta Let_def)

text \<open>The bytes of a transfer of at least one byte, and the device afterwards.\<close>

lemma read_write_feed:
  assumes "txp \<noteq> []"
  shows "davinci_spi_read_write dev (length txp) txp flags s =
    (let ws = spi_words (sp_cur_cs s) (flags AND SPI_XFER_END \<noteq> 0) txp; (bs, x) = feed dev (sp_gpio s) ws (sp_dev s)
     in (bs, s\<lparr>sp_regs := (sp_regs s)\<lparr>spi_dat1 := last ws\<rparr>, sp_dev := x\<rparr>))"
proof -
  have "take (length txp - 1) txp = butlast txp" "txp ! (length txp - 1) = last txp"
    using assms by (simp_all add: butlast_conv_take last_conv_nth)
  then show ?thesis
    by (simp add: davinci_spi_read_write_def shift_out_feed davinci_spi_xfer_data_def spi_end_hold spi_words_def
        feed_append split_beta Let_def)
      (simp add: spi_hold_eq or.assoc)
qed

lemma write_feed:
  assumes "txp \<noteq> []"
  shows "davinci_spi_write dev (length txp) txp flags s =
    (let ws = spi_words (sp_cur_cs s) (flags AND SPI_XFER_END \<noteq> 0) txp
     in s\<lparr>sp_regs := (sp_regs s)\<lparr>spi_dat1 := last ws\<rparr>, sp_dev := snd (feed dev (sp_gpio s) ws (sp_dev s))\<rparr>)"
proof -
  have "davinci_spi_write dev (length txp) txp flags s = snd (davinci_spi_read_write dev (length txp) txp flags s)"
    by (simp add: davinci_spi_write_def davinci_spi_read_write_def split_beta Let_def)
  then show ?thesis using read_write_feed [OF assms, of dev flags s] by (simp add: split_beta Let_def)
qed

text \<open>The clock divider programmed for the default frequency gives 1 MHz.\<close>

lemma claim_bus_clock:
  "bus \<in> {0, 1} \<Longrightarrow>
     drop_bit SPIFMT_PRESCALE_SHIFT (spi_fmt0 (sp_regs (davinci_spi_claim_bus cs (davinci_spi_init bus s)))) AND 0xFF = 99"
  by (auto simp: davinci_spi_claim_bus_def davinci_spi_init_def spi_consts Let_def)

end
