(* ===== verification/Ev3_Adc.thy ===== *)
theory Ev3_Adc
  imports Ev3_Spi
begin

text \<open>
  The analogue converter daemon (\<^verbatim>\<open>src/lego.ev3/system/drivers/adcd/main.c\<close>): it polls the 16 channels of the ADS7950
  over SPI, one per round, and serves the table of millivolts from which the other daemons read
  battery and sensor voltages. The converter answers two frames late; the property shows that the
  table is nevertheless indexed by channel.
\<close>

definition ADC_SPI_CS :: nat where "ADC_SPI_CS = 3"
definition ADC_POWEWR_PIN :: int where "ADC_POWEWR_PIN = 101"
definition ADC_BATTERY_EN :: int where "ADC_BATTERY_EN = 6"
definition TI_ADS7950_CR_MANUAL :: u16 where "TI_ADS7950_CR_MANUAL = push_bit 12 1"
definition TI_ADS7950_CR_WRITE :: u16 where "TI_ADS7950_CR_WRITE = push_bit 11 1"
definition TI_ADS7950_CR_CHAN :: "u8 \<Rightarrow> u16" where "TI_ADS7950_CR_CHAN ch = push_bit 7 (ucast ch)"
definition TI_ADS7950_CR_RANGE_5V :: u16 where "TI_ADS7950_CR_RANGE_5V = push_bit 6 1"
definition MAX_CH :: nat where "MAX_CH = 16"

definition SWAP :: "u16 \<Rightarrow> u16" where
  "SWAP x = (push_bit 8 x AND 0xFF00) OR (drop_bit 8 x AND 0xFF)"

record 'd adcd =
  adc_buf :: "u16 list"
  adc_ch :: u8
  adc_fps :: u32
  adc_spi :: "'d spi"

text \<open>The table as the reader gets it: \<open>size\<close> is compared as an unsigned number.\<close>

definition u16_bytes :: "u16 \<Rightarrow> u8 list" where
  "u16_bytes w = [ucast w, ucast (drop_bit 8 w)]"

definition bytes_u16 :: "u8 list \<Rightarrow> u16" where
  "bytes_u16 bs = ucast (bs ! 0) OR push_bit 8 (ucast (bs ! 1))"

definition adcd_read :: "int \<Rightarrow> 'd adcd \<Rightarrow> int \<times> u8 list" where
  "adcd_read sz d =
     (let sz = (if unat (word_of_int sz :: u32) > 2 * MAX_CH then 2 * MAX_CH else unat (word_of_int sz :: u32))
      in (int sz, take sz (concat (map u16_bytes (adc_buf d)))))"

text \<open>
  One round, with the clock before and after the transfer. \<open>None\<close> is the division by a zero frame rate; the result
  carries the microseconds slept, if any.
\<close>

definition adcd_loop :: "'d spi_device \<Rightarrow> u64 \<Rightarrow> u64 \<Rightarrow> 'd adcd \<Rightarrow> (u32 option \<times> 'd adcd) option" where
  "adcd_loop dev tik tok d =
     (if adc_fps d = 0 then None
      else let tm = 1000 div adc_fps d;
          tx = SWAP (TI_ADS7950_CR_MANUAL OR TI_ADS7950_CR_RANGE_5V OR TI_ADS7950_CR_WRITE OR TI_ADS7950_CR_CHAN (adc_ch d));
          (rx, s) = davinci_spi_read_write dev 2 (u16_bytes tx) SPI_XFER_END (adc_spi d);
          v = uint (SWAP (bytes_u16 rx) AND 0xFFF) * 5000 div 4096;
          d = d\<lparr>adc_spi := s, adc_buf := (adc_buf d)[(unat (adc_ch d) + 14) mod MAX_CH := word_of_int v]\<rparr>;
          d = d\<lparr>adc_ch := word_of_int ((uint (adc_ch d) + 1) mod int MAX_CH)\<rparr>;
          gap = ucast (tok - tik) :: u32
      in Some (if gap < tm then Some ((tm - gap) * 1000 div 16) else None, d))"

text \<open>Option parsing has set the frame rate; \<open>mem\<close> is the zeroed table.\<close>

definition adcd_main :: "u32 \<Rightarrow> 'd spi \<Rightarrow> 'd adcd" where
  "adcd_main fps s =
     (let s = s\<lparr>sp_gpio := ev3_gpio_config ADC_POWEWR_PIN GPIO_OUTPUT (sp_gpio s)\<rparr>;
          s = s\<lparr>sp_gpio := ev3_gpio_config ADC_BATTERY_EN GPIO_OUTPUT (sp_gpio s)\<rparr>;
          s = s\<lparr>sp_gpio := ev3_gpio_write ADC_POWEWR_PIN True (sp_gpio s)\<rparr>;
          s = s\<lparr>sp_gpio := ev3_gpio_write ADC_BATTERY_EN True (sp_gpio s)\<rparr>;
          s = davinci_spi_init 0 s;
          s = davinci_spi_claim_bus ADC_SPI_CS s
      in \<lparr>adc_buf = replicate MAX_CH 0, adc_ch = 0, adc_fps = fps, adc_spi = s\<rparr>)"

section \<open>The converter\<close>

text \<open>
  What the data sheet of the converter promises: a frame of two bytes on its chip select carries a manual-mode
  control word for channel \<open>c\<close>, and the answer is the 12-bit conversion of the channel that was
  selected two frames earlier, under the channel number. \<open>sel\<close> gives the two selections under way,
  \<open>conv\<close> the conversion the device would deliver for a channel in its present state.
\<close>

definition control_word :: "nat \<Rightarrow> u16" where
  "control_word c = 0x1840 OR push_bit 7 (of_nat c)"

definition adc_frame :: "u16 \<Rightarrow> u32 list" where
  "adc_frame w = spi_words 0xF7 True [ucast (drop_bit 8 w), ucast w]"

definition adc_answer :: "nat \<Rightarrow> u16 \<Rightarrow> u16" where
  "adc_answer a v = push_bit 12 (of_nat a) OR (v AND 0xFFF)"

definition ads7950 :: "'d spi_device \<Rightarrow> ('d \<Rightarrow> nat \<times> nat) \<Rightarrow> ('d \<Rightarrow> nat \<Rightarrow> u16) \<Rightarrow> bool" where
  "ads7950 dev sel conv \<longleftrightarrow> (\<forall>g x c. c < 16 \<longrightarrow>
     (let (a, b) = sel x; r = adc_answer a (conv x a);
          (bs, y) = feed dev g (adc_frame (control_word c)) x
      in bs = [ucast (drop_bit 8 r), ucast r] \<and> sel y = (b, c)))"

text \<open>Millivolts of a conversion.\<close>

definition millivolts :: "u16 \<Rightarrow> int" where
  "millivolts w = uint (w AND 0xFFF) * 5000 div 4096"

lemma bit_SWAP: "n < 16 \<Longrightarrow> bit (SWAP w) n = (if n < 8 then bit w (n + 8) else bit w (n - 8))"
proof -
  assume n: "n < 16"
  have "(0xFF00::u16) = push_bit 8 (mask 8)" "(0xFF::u16) = mask 8" by (simp_all add: mask_eq_exp_minus_1)
  then have "SWAP w = (push_bit 8 w AND push_bit 8 (mask 8)) OR (drop_bit 8 w AND mask 8)" by (simp only: SWAP_def)
  with n show ?thesis by (cases "n < 8") (auto simp: bit_simps add.commute)
qed

lemma SWAP_bytes: "u16_bytes (SWAP w) = [ucast (drop_bit 8 w), ucast w]"
proof -
  have "(ucast (SWAP w) :: u8) = ucast (drop_bit 8 w)"
    by (rule bit_word_eqI) (simp add: bit_simps bit_SWAP add.commute)
  moreover have "(ucast (drop_bit 8 (SWAP w)) :: u8) = ucast w"
    by (rule bit_word_eqI) (simp add: bit_simps bit_SWAP)
  ultimately show ?thesis by (simp add: u16_bytes_def)
qed

lemma SWAP_back: "SWAP (bytes_u16 [ucast (drop_bit 8 w), ucast w]) = w"
proof (rule bit_word_eqI)
  fix n assume n: "n < LENGTH(16)"
  then have "bit (SWAP (bytes_u16 [ucast (drop_bit 8 w), ucast w])) n =
      (if n < 8 then bit (bytes_u16 [ucast (drop_bit 8 w), ucast w]) (n + 8)
       else bit (bytes_u16 [ucast (drop_bit 8 w), ucast w]) (n - 8))" by (simp add: bit_SWAP)
  with n show "bit (SWAP (bytes_u16 [ucast (drop_bit 8 w), ucast w])) n = bit w n"
    by (auto simp: bytes_u16_def bit_simps)
qed

lemma ads7950D:
  assumes "ads7950 dev sel conv" "sel x = (a, b)" "c < 16"
  shows "\<exists>y. feed dev g (adc_frame (control_word c)) x =
      ([ucast (drop_bit 8 (adc_answer a (conv x a))), ucast (adc_answer a (conv x a))], y) \<and> sel y = (b, c)"
proof -
  obtain bs y where f: "feed dev g (adc_frame (control_word c)) x = (bs, y)" by fastforce
  from assms(1,3) have "let (a, b) = sel x; r = adc_answer a (conv x a);
      (bs, y) = feed dev g (adc_frame (control_word c)) x
      in bs = [ucast (drop_bit 8 r), ucast r] \<and> sel y = (b, c)"
    unfolding ads7950_def by blast
  with assms(2) f show ?thesis by (simp add: Let_def)
qed

lemma control_word_ch:
  assumes "c < 16"
  shows "TI_ADS7950_CR_MANUAL OR TI_ADS7950_CR_RANGE_5V OR TI_ADS7950_CR_WRITE OR TI_ADS7950_CR_CHAN (of_nat c) = control_word c"
proof -
  have "(ucast (of_nat c :: u8) :: u16) = of_nat c"
    using assms by (simp add: unsigned_of_nat take_bit_nat_eq_self)
  then show ?thesis
    by (simp add: TI_ADS7950_CR_MANUAL_def TI_ADS7950_CR_RANGE_5V_def TI_ADS7950_CR_WRITE_def TI_ADS7950_CR_CHAN_def
        control_word_def flip: or.assoc)
qed

lemma answer_value: "adc_answer a v AND 0xFFF = v AND 0xFFF"
proof -
  have "(push_bit 12 (of_nat a) OR (v AND mask 12)) AND mask 12 = v AND (mask 12 :: u16)"
    by (rule bit_word_eqI) (auto simp: bit_simps)
  then show ?thesis by (simp add: adc_answer_def mask_eq_exp_minus_1)
qed

text \<open>One round with a converter that keeps its promise.\<close>

lemma adc_round:
  assumes "ads7950 dev sel conv" "sel (sp_dev (adc_spi d)) = (a, b)" "adc_fps d \<noteq> 0"
    and "sp_cur_cs (adc_spi d) = 0xF7" "unat (adc_ch d) = c" "c < 16"
  shows "\<exists>z d'. adcd_loop dev tik tok d = Some (z, d') \<and> sel (sp_dev (adc_spi d')) = (b, c) \<and>
     adc_buf d' = (adc_buf d)[(c + 14) mod 16 := word_of_int (millivolts (conv (sp_dev (adc_spi d)) a))] \<and>
     unat (adc_ch d') = (c + 1) mod 16 \<and> adc_fps d' = adc_fps d \<and> sp_cur_cs (adc_spi d') = 0xF7"
proof -
  let ?x = "sp_dev (adc_spi d)"
  let ?r = "adc_answer a (conv ?x a)"
  obtain y where f: "feed dev (sp_gpio (adc_spi d)) (adc_frame (control_word c)) ?x = ([ucast (drop_bit 8 ?r), ucast ?r], y)"
    and y: "sel y = (b, c)"
    using ads7950D [OF assms(1,2,6)] by blast
  have "adc_ch d = of_nat c" using assms(5) [symmetric] by simp
  then have cw: "TI_ADS7950_CR_MANUAL OR TI_ADS7950_CR_RANGE_5V OR TI_ADS7950_CR_WRITE OR TI_ADS7950_CR_CHAN (adc_ch d) = control_word c"
    using control_word_ch [OF assms(6)] by simp
  have rw: "davinci_spi_read_write dev 2 (u16_bytes (SWAP (control_word c))) SPI_XFER_END (adc_spi d) =
      ([ucast (drop_bit 8 ?r), ucast ?r], (adc_spi d)\<lparr>sp_regs := (sp_regs (adc_spi d))\<lparr>spi_dat1 := last (adc_frame (control_word c))\<rparr>, sp_dev := y\<rparr>)"
    using read_write_feed [of "[ucast (drop_bit 8 (control_word c)), ucast (control_word c)]" dev SPI_XFER_END "adc_spi d"] f assms(4)
    by (simp add: SWAP_bytes adc_frame_def SPI_XFER_END_def numeral_2_eq_2)
  have ch: "uint (adc_ch d) = int c" using assms(5) [symmetric] by simp
  have "(int c + 1) mod 16 = int (Suc c mod 16)" by (simp add: zmod_int add.commute)
  then have nxt: "take_bit 8 ((int c + 1) mod 16) = int (Suc c mod 16)" by (simp add: take_bit_int_eq_self)
  show ?thesis
    using assms(3,4,5,6) y ch nxt
    by (simp add: adcd_loop_def cw rw SWAP_back answer_value Let_def MAX_CH_def millivolts_def unsigned_of_int)
qed

section \<open>The table\<close>

text \<open>The daemon after \<open>n\<close> rounds.\<close>

primrec adcd_after :: "'d spi_device \<Rightarrow> (nat \<Rightarrow> u64 \<times> u64) \<Rightarrow> nat \<Rightarrow> 'd adcd \<Rightarrow> 'd adcd option" where
  "adcd_after dev clk 0 d = Some d"
| "adcd_after dev clk (Suc n) d =
     (case adcd_after dev clk n d of None \<Rightarrow> None
      | Some d \<Rightarrow> map_option snd (adcd_loop dev (fst (clk n)) (snd (clk n)) d))"

definition adcd_round_inv :: "'d spi_device \<Rightarrow> (nat \<Rightarrow> u64 \<times> u64) \<Rightarrow> ('d \<Rightarrow> nat \<times> nat) \<Rightarrow> ('d \<Rightarrow> nat \<Rightarrow> u16) \<Rightarrow>
    'd adcd \<Rightarrow> nat \<Rightarrow> 'd adcd \<Rightarrow> bool" where
  "adcd_round_inv dev clk sel conv d0 n d \<longleftrightarrow>
     unat (adc_ch d) = n mod 16 \<and> sp_cur_cs (adc_spi d) = 0xF7 \<and> adc_fps d \<noteq> 0 \<and> length (adc_buf d) = 16 \<and>
     (1 \<le> n \<longrightarrow> snd (sel (sp_dev (adc_spi d))) = (n + 15) mod 16) \<and>
     (2 \<le> n \<longrightarrow> fst (sel (sp_dev (adc_spi d))) = (n + 14) mod 16) \<and>
     (\<forall>m. 2 \<le> m \<longrightarrow> m < n \<longrightarrow> n \<le> m + 16 \<longrightarrow> (\<exists>e. adcd_after dev clk m d0 = Some e \<and>
        adc_buf d ! ((m + 14) mod 16) = word_of_int (millivolts (conv (sp_dev (adc_spi e)) ((m + 14) mod 16)))))"

lemma adcd_round_step:
  assumes "ads7950 dev sel conv" "adcd_round_inv dev clk sel conv d0 n d" "adcd_after dev clk n d0 = Some d"
  shows "\<exists>d'. adcd_after dev clk (Suc n) d0 = Some d' \<and> adcd_round_inv dev clk sel conv d0 (Suc n) d'"
proof -
  obtain a b where sel: "sel (sp_dev (adc_spi d)) = (a, b)" by fastforce
  let ?v = "word_of_int (millivolts (conv (sp_dev (adc_spi d)) a)) :: u16"
  note inv = assms(2) [unfolded adcd_round_inv_def]
  obtain z d' where d': "adcd_loop dev (fst (clk n)) (snd (clk n)) d = Some (z, d')"
    "sel (sp_dev (adc_spi d')) = (b, n mod 16)" "adc_buf d' = (adc_buf d)[(n mod 16 + 14) mod 16 := ?v]"
    "unat (adc_ch d') = (n mod 16 + 1) mod 16" "adc_fps d' = adc_fps d" "sp_cur_cs (adc_spi d') = 0xF7"
    using adc_round [OF assms(1) sel, of "n mod 16" "fst (clk n)" "snd (clk n)"] inv by auto
  have b: "1 \<le> n \<Longrightarrow> b = (n + 15) mod 16" and a: "2 \<le> n \<Longrightarrow> a = (n + 14) mod 16" using inv sel by simp_all
  have buf: "adc_buf d' = (adc_buf d)[(n + 14) mod 16 := ?v]" using d'(3) by (simp add: mod_simps)
  have "\<exists>e. adcd_after dev clk m d0 = Some e \<and>
      adc_buf d' ! ((m + 14) mod 16) = word_of_int (millivolts (conv (sp_dev (adc_spi e)) ((m + 14) mod 16)))"
    if m: "2 \<le> m" "m < Suc n" "Suc n \<le> m + 16" for m
  proof (cases "m = n")
    case True
    then show ?thesis using assms(3) a m inv by (simp add: buf)
  next
    case False
    then have "n - m < 16" "n - m \<noteq> 0" "m + 14 + (n - m) = n + 14" using m by simp_all
    then have "(m + 14) mod 16 \<noteq> (n + 14) mod 16" using ring_slot_eq [of "n - m" 16 "m + 14" 0] by (metis add.right_neutral mod_0)
    moreover have "m < n" "n \<le> m + 16" using m False by simp_all
    ultimately show ?thesis using inv m(1) by (simp add: buf)
  qed
  moreover have "(n + 16) mod 16 = n mod 16" "(n mod 16 + 1) mod 16 = Suc n mod 16" by (simp_all add: mod_simps)
  ultimately have "adcd_round_inv dev clk sel conv d0 (Suc n) d'"
    using d' b inv by (simp add: adcd_round_inv_def buf add.commute)
  then show ?thesis using assms(3) d'(1) by simp
qed

lemma adcd_rounds_inv:
  assumes "ads7950 dev sel conv" "adcd_round_inv dev clk sel conv d0 0 d0"
  shows "\<exists>d. adcd_after dev clk n d0 = Some d \<and> adcd_round_inv dev clk sel conv d0 n d"
proof (induction n)
  case (Suc n)
  then show ?case using adcd_round_step [OF assms(1)] by blast
qed (simp add: assms(2))

lemma adcd_main_start:
  "fps \<noteq> 0 \<Longrightarrow> adcd_round_inv dev clk sel conv (adcd_main fps s) 0 (adcd_main fps s)"
  by (simp add: adcd_round_inv_def adcd_main_def davinci_spi_claim_bus_def davinci_spi_init_def ADC_SPI_CS_def
      MAX_CH_def Let_def)

text \<open>
  C22. The converter daemon's table is indexed by channel although the converter answers two frames late: with any
  converter that keeps the data sheet's promise, any frame rate but 0 and any clock, every slot \<open>k\<close>
  holds, from the 18th round on, the millivolts of a conversion of channel \<open>k\<close> that is at most 16 rounds old.
\<close>

theorem adc_table_by_channel:
  assumes "ads7950 dev sel conv" "fps \<noteq> 0" "18 \<le> n"
  shows "\<exists>d. adcd_after dev clk n (adcd_main fps s) = Some d \<and> (\<forall>k<16. \<exists>m e. m < n \<and> n \<le> m + 16 \<and>
     adcd_after dev clk m (adcd_main fps s) = Some e \<and>
     adc_buf d ! k = word_of_int (millivolts (conv (sp_dev (adc_spi e)) k)))"
proof -
  from adcd_rounds_inv [OF assms(1) adcd_main_start [OF assms(2)]] obtain d where
    d: "adcd_after dev clk n (adcd_main fps s) = Some d" "adcd_round_inv dev clk sel conv (adcd_main fps s) n d" by blast
  have "\<exists>m e. m < n \<and> n \<le> m + 16 \<and> adcd_after dev clk m (adcd_main fps s) = Some e \<and>
      adc_buf d ! k = word_of_int (millivolts (conv (sp_dev (adc_spi e)) k))" if "k < 16" for k
  proof -
    define m where "m = n - 1 - (n + 13 - k) mod 16"
    have "(n + 13 - k) mod 16 < 16" by simp
    then have m: "2 \<le> m" "m < n" "n \<le> m + 16" using assms(3) by (auto simp: m_def)
    have "m + 14 = n + 13 - (n + 13 - k) mod 16" using m by (simp add: m_def add.commute)
    also have "\<dots> = 16 * ((n + 13 - k) div 16) + k"
      using that assms(3) mult_div_mod_eq [of 16 "n + 13 - k"] by linarith
    finally have "(m + 14) mod 16 = k" using that by simp
    with m d(2) show ?thesis unfolding adcd_round_inv_def by blast
  qed
  with d(1) show ?thesis by blast
qed

text \<open>A converter that delivers 100 units per channel number.\<close>

definition demo_chan :: "u8 \<Rightarrow> u8 \<Rightarrow> nat" where
  "demo_chan hi lo = unat (drop_bit 7 (push_bit 8 (ucast hi) OR ucast lo :: u16) AND 15)"

fun demo_adc :: "(nat \<times> nat \<times> u8) spi_device" where
  "demo_adc g w (a, b, hi) =
     (let r = adc_answer a (of_nat (100 * a))
      in if bit w 28 then (ucast (drop_bit 8 r), a, b, ucast w)
         else (ucast r, b, demo_chan hi (ucast w), hi))"

lemma demo_frames:
  "\<forall>c\<in>set [0..<16]. (\<lambda>ws. length ws = 2 \<and> bit (ws ! 0) 28 \<and> \<not> bit (ws ! 1) 28 \<and>
     demo_chan (ucast (ws ! 0)) (ucast (ws ! 1)) = c) (adc_frame (control_word c))"
  by code_simp

lemma demo_adc_ok: "ads7950 demo_adc (\<lambda>(a, b, _). (a, b)) (\<lambda>_ a. of_nat (100 * a))"
proof -
  have "feed demo_adc g (adc_frame (control_word c)) (a, b, hi) =
      ([ucast (drop_bit 8 (adc_answer a (of_nat (100 * a)))), ucast (adc_answer a (of_nat (100 * a)))],
       b, c, ucast (adc_frame (control_word c) ! 0))" if "c < 16" for g a b c hi
  proof -
    have f: "length (adc_frame (control_word c)) = 2" "bit (adc_frame (control_word c) ! 0) 28"
      "\<not> bit (adc_frame (control_word c) ! 1) 28"
      "demo_chan (ucast (adc_frame (control_word c) ! 0)) (ucast (adc_frame (control_word c) ! 1)) = c"
      using bspec [OF demo_frames, of c] that by simp_all
    from f(1) obtain v w where vw: "adc_frame (control_word c) = [v, w]"
      by (auto simp: numeral_2_eq_2 length_Suc_conv)
    with f show ?thesis by (simp add: Let_def)
  qed
  then show ?thesis by (auto simp: ads7950_def Let_def)
qed

definition demo_spi :: "(nat \<times> nat \<times> u8) spi" where
  "demo_spi = \<lparr>sp_regs = \<lparr>spi_gcr0 = 0, spi_gcr1 = 0, spi_int0 = 0, spi_lvl = 0, spi_pc0 = 0, spi_dat1 = 0, spi_delay = 0,
       spi_def = 0, spi_fmt0 = 0\<rparr>, sp_base = 0, sp_freq = 0, sp_mode = 0, sp_num_cs = 0, sp_cur_cs = 0,
     sp_half_duplex = False, sp_gpio = demo_gpio, sp_dev = (0, 0, 0)\<rparr>"

theorem adc_table_by_channel_witness:
  "\<exists>d. adcd_after demo_adc (\<lambda>n. (0, 1)) 18 (adcd_main 30 demo_spi) = Some d \<and> adc_buf d ! 4 = 488"
proof -
  obtain d where d: "adcd_after demo_adc (\<lambda>n. (0, 1)) 18 (adcd_main 30 demo_spi) = Some d"
    "\<forall>k<16. adc_buf d ! k = word_of_int (millivolts (of_nat (100 * k)))"
    using adc_table_by_channel [OF demo_adc_ok, of 30 18 "\<lambda>n. (0, 1)" demo_spi] by auto
  then have "adc_buf d ! 4 = word_of_int (millivolts (of_nat 400))" by auto
  with d(1) show ?thesis by (simp add: millivolts_def)
qed

text \<open>A frame rate of 0 is a division by zero in the first round.\<close>

lemma adcd_zero_fps: "adcd_loop dev tik tok (adcd_main 0 s) = None"
  by (simp add: adcd_loop_def adcd_main_def Let_def)

text \<open>What a reader gets: the whole table for any size beyond it, negative sizes included.\<close>

lemma adcd_read_whole:
  assumes "sz < 0 \<or> 32 \<le> sz" "in_s32 sz" "length (adc_buf d) = 16"
  shows "adcd_read sz d = (32, concat (map u16_bytes (adc_buf d)))"
proof -
  have "32 \<le> sz mod 2 ^ 32"
  proof (cases "sz < 0")
    case True
    then have "sz mod 2 ^ 32 = (sz + 2 ^ 32) mod 2 ^ 32" by simp
    also have "\<dots> = sz + 2 ^ 32" using True assms(2) by (intro mod_pos_pos_trivial) (simp_all add: in_s32_def)
    finally show ?thesis using assms(2) by (simp add: in_s32_def)
  next
    case False
    with assms(1,2) show ?thesis by (simp add: in_s32_def)
  qed
  then have "32 \<le> unat (word_of_int sz :: u32)" by (simp add: unsigned_of_int take_bit_eq_mod le_nat_iff)
  moreover have "length (concat (map u16_bytes (adc_buf d))) = 32"
    using assms(3) by (simp add: length_concat u16_bytes_def comp_def sum_list_triv)
  ultimately show ?thesis by (auto simp: adcd_read_def MAX_CH_def Let_def)
qed

end
