(* ===== verification/Ev3_Keypad.thy ===== *)
theory Ev3_Keypad
  imports Ev3_Gpio
begin

text \<open>
  The brick's button daemon (\<^verbatim>\<open>src/lego.ev3/system/drivers/gpio_keybd/keybd.c\<close>): six keys on GPIO inputs, read by the
  client in the order of the pin table, and the power-off on a long press of the back key.
  The key codes come from a header outside the repository and are an argument, in table order.
\<close>

definition KEY_UP_PIN :: int where "KEY_UP_PIN = 127"
definition KEY_DOWN_PIN :: int where "KEY_DOWN_PIN = 126"
definition KEY_LEFT_PIN :: int where "KEY_LEFT_PIN = 102"
definition KEY_RIGHT_PIN :: int where "KEY_RIGHT_PIN = 124"
definition KEY_END_PIN :: int where "KEY_END_PIN = 106"
definition KEY_ENTER_PIN :: int where "KEY_ENTER_PIN = 29"
definition POWER_OFF_PIN :: int where "POWER_OFF_PIN = 107"

lemmas keypad_pins = KEY_UP_PIN_def KEY_DOWN_PIN_def KEY_LEFT_PIN_def KEY_RIGHT_PIN_def KEY_END_PIN_def
  KEY_ENTER_PIN_def POWER_OFF_PIN_def

record keycodes =
  kc_up :: u8
  kc_down :: u8
  kc_left :: u8
  kc_right :: u8
  kc_enter :: u8
  kc_end :: u8

text \<open>The table \<^verbatim>\<open>_pins\<close>: key code, pin and active level (always high).\<close>

definition gpio_pins :: "keycodes \<Rightarrow> (u8 \<times> int \<times> bool) list" where
  "gpio_pins k =
     [(kc_up k, KEY_UP_PIN, True), (kc_down k, KEY_DOWN_PIN, True), (kc_left k, KEY_LEFT_PIN, True),
      (kc_right k, KEY_RIGHT_PIN, True), (kc_enter k, KEY_ENTER_PIN, True), (kc_end k, KEY_END_PIN, True)]"

text \<open>
  The scan of \<^verbatim>\<open>joystick_read\<close>: \<open>i\<close> keys found so far. Memory beyond the caller's buffer is part of the list
  \<open>mem\<close>, so that a write there is visible.
\<close>

fun scan_keys :: "gpio_state \<Rightarrow> int \<Rightarrow> (u8 \<times> int \<times> bool) list \<Rightarrow> nat \<Rightarrow> u8 list \<Rightarrow> nat \<times> u8 list" where
  "scan_keys g sz [] i mem = (i, mem)"
| "scan_keys g sz ((key, pin, active) # ps) i mem =
     (if ev3_gpio_read pin g = active
      then let mem = mem[i := key]; i = Suc i in if int i \<ge> sz then (i, mem) else scan_keys g sz ps i mem
      else scan_keys g sz ps i mem)"

definition joystick_read :: "keycodes \<Rightarrow> gpio_state \<Rightarrow> nat \<Rightarrow> u8 list \<Rightarrow> int \<times> u8 list" where
  "joystick_read k g sz mem =
     (let mem = replicate sz 0 @ drop sz mem;
          (n, mem) = scan_keys g (int sz) (gpio_pins k) 0 mem
      in (int n, mem))"

definition keypad_init_gpio :: "gpio_state \<Rightarrow> gpio_state" where
  "keypad_init_gpio g =
     fold (\<lambda>pin g. ev3_gpio_config pin GPIO_INPUT (ev3_gpio_pull pin GPIO_PULL_NONE g))
       [KEY_UP_PIN, KEY_DOWN_PIN, KEY_LEFT_PIN, KEY_RIGHT_PIN, KEY_ENTER_PIN, KEY_END_PIN] g"

text \<open>The static counter is the first component.\<close>

definition check_power :: "int \<times> gpio_state \<Rightarrow> int \<times> gpio_state" where
  "check_power s =
     (let (count, g) = s;
          count = (if ev3_gpio_read KEY_END_PIN g then wrap32 (count + 1) else 0)
      in (count, if count \<ge> 10 then ev3_gpio_write POWER_OFF_PIN False g else g))"

section \<open>Reading keys\<close>

text \<open>The codes of the keys held down, in table order.\<close>

definition pressed_keys :: "keycodes \<Rightarrow> gpio_state \<Rightarrow> u8 list" where
  "pressed_keys k g = map fst (filter (\<lambda>(_, pin, active). ev3_gpio_read pin g = active) (gpio_pins k))"

lemma scan_keys_eq:
  assumes "0 < sz" "i < sz" "sz \<le> length mem"
  shows "scan_keys g (int sz) ps i mem =
    (let ks = take (sz - i) (map fst (filter (\<lambda>(_, pin, active). ev3_gpio_read pin g = active) ps))
     in (i + length ks, take i mem @ ks @ drop (i + length ks) mem))"
  using assms(2,3)
proof (induction ps arbitrary: i mem)
  case (Cons p ps)
  obtain key pin act where p: "p = (key, pin, act)" by (cases p)
  show ?case
  proof (cases "ev3_gpio_read pin g = act")
    case False
    with Cons p show ?thesis by simp
  next
    case True
    have m: "take (Suc i) (mem[i := key]) = take i mem @ [key]"
      using Cons.prems by (simp add: take_Suc_conv_app_nth)
    show ?thesis
    proof (cases "Suc i < sz")
      case True
      have "sz - i = Suc (sz - Suc i)" using True by simp
      with Cons.IH [of "Suc i" "mem[i := key]"] True \<open>ev3_gpio_read pin g = act\<close> p m Cons.prems show ?thesis
        by (simp add: Let_def)
    next
      case False
      with Cons.prems have "sz = Suc i" by simp
      with \<open>ev3_gpio_read pin g = act\<close> p Cons.prems show ?thesis
        by (simp add: Let_def upd_conv_take_nth_drop)
    qed
  qed
qed (simp add: Let_def)

text \<open>
  A client with room for at least one key gets the codes of the keys held down, in table order and as many as
  fit, followed by zeros, and nothing outside its buffer is written.
\<close>

theorem keypad_read_exact:
  assumes "0 < sz" "sz \<le> length mem"
  shows "joystick_read k g sz mem =
    (let ks = take sz (pressed_keys k g) in (int (length ks), ks @ replicate (sz - length ks) 0 @ drop sz mem))"
proof -
  let ?ks = "take sz (pressed_keys k g)"
  have "drop (length ?ks) (replicate sz 0 @ drop sz mem) = replicate (sz - length ?ks) 0 @ drop sz mem" by simp
  with scan_keys_eq [of sz 0 "replicate sz 0 @ drop sz mem" g "gpio_pins k"] assms show ?thesis
    by (simp add: joystick_read_def pressed_keys_def Let_def)
qed

theorem keypad_read_exact_witness:
  "joystick_read \<lparr>kc_up = 1, kc_down = 2, kc_left = 3, kc_right = 4, kc_enter = 5, kc_end = 6\<rparr> demo_gpio 2 [7, 7, 7] = (0, [0, 0, 7])"
  using keypad_read_exact [of 2 "[7, 7, 7]"]
  by (simp add: pressed_keys_def gpio_pins_def ev3_gpio_read_def gpio_group_def demo_gpio_def keypad_pins MAX_GPIO_def
      numeral_2_eq_2)

text \<open>With no room at all the first key held down is still stored, one byte past the end of the buffer.\<close>

theorem keypad_empty_overrun:
  assumes "pressed_keys k g \<noteq> []" "mem \<noteq> []"
  shows "joystick_read k g 0 mem = (1, mem[0 := hd (pressed_keys k g)])"
proof -
  have "scan_keys g 0 ps 0 mem = (1, mem[0 := fst (hd fs)])"
    if "fs = filter (\<lambda>(_, pin, active). ev3_gpio_read pin g = active) ps" "fs \<noteq> []" for ps fs
    using that by (induction ps arbitrary: fs) (auto simp: Let_def split: if_splits)
  then have "scan_keys g 0 (gpio_pins k) 0 mem =
      (1, mem[0 := fst (hd (filter (\<lambda>(_, pin, active). ev3_gpio_read pin g = active) (gpio_pins k)))])"
    using assms(1) by (simp add: pressed_keys_def)
  with assms(1) show ?thesis by (simp add: joystick_read_def pressed_keys_def hd_map)
qed

section \<open>Power off\<close>

text \<open>One round of the loop with the back key up or down.\<close>

definition power_round :: "bool \<Rightarrow> int \<times> gpio_state \<Rightarrow> int \<times> gpio_state" where
  "power_round down s =
     (let (count, g) = s;
          g = gpio_upd KEY_END_PIN (\<lambda>r. r\<lparr>g_in := (if down then g_in r OR GPIO_MASK KEY_END_PIN
               else g_in r AND NOT (GPIO_MASK KEY_END_PIN))\<rparr>) g
      in check_power (count, g))"

text \<open>The number of rounds the key has been down without a break, and whether it ever was for ten.\<close>

definition trail :: "bool list \<Rightarrow> nat" where
  "trail ds = length (takeWhile id (rev ds))"

definition long_press :: "bool list \<Rightarrow> bool" where
  "long_press ds \<longleftrightarrow> (\<exists>as bs. ds = as @ replicate 10 True @ bs)"

lemma trail_snoc [simp]: "trail [] = 0" "trail (ds @ [d]) = (if d then Suc (trail ds) else 0)"
  by (simp_all add: trail_def)

lemma trail_le: "trail ds \<le> length ds"
  using length_takeWhile_le [of id "rev ds"] by (simp add: trail_def)

lemma trail_ge: "n \<le> trail ds \<longleftrightarrow> (\<exists>as. ds = as @ replicate n True)"
proof (induction ds arbitrary: n rule: rev_induct)
  case (snoc d ds)
  show ?case
  proof (cases n)
    case (Suc k)
    have "(\<exists>as. ds @ [d] = as @ replicate n True) \<longleftrightarrow> d \<and> (\<exists>as. ds = as @ replicate k True)"
      by (auto simp: Suc replicate_append_same [symmetric])
    with snoc.IH [of k] Suc show ?thesis by auto
  qed simp
qed simp

lemma long_press_snoc: "long_press (ds @ [d]) \<longleftrightarrow> long_press ds \<or> 10 \<le> trail (ds @ [d])"
proof
  assume "long_press (ds @ [d])"
  then obtain as bs where e: "ds @ [d] = as @ replicate 10 True @ bs" unfolding long_press_def by blast
  show "long_press ds \<or> 10 \<le> trail (ds @ [d])"
  proof (cases bs rule: rev_cases)
    case Nil
    with e trail_ge [of 10 "ds @ [d]"] show ?thesis by (metis append_Nil2)
  next
    case (snoc cs c)
    with e show ?thesis by (auto simp: long_press_def simp flip: append_assoc)
  qed
next
  assume "long_press ds \<or> 10 \<le> trail (ds @ [d])"
  then show "long_press (ds @ [d])"
  proof
    assume "10 \<le> trail (ds @ [d])"
    then obtain as where "ds @ [d] = as @ replicate 10 True" using trail_ge [of 10 "ds @ [d]"] by blast
    then have "ds @ [d] = as @ replicate 10 True @ []" by simp
    then show ?thesis unfolding long_press_def by blast
  next
    assume "long_press ds"
    then show ?thesis unfolding long_press_def by (metis append_assoc)
  qed
qed

lemma power_round_eq:
  assumes "gpio_inv g"
  shows "fst (power_round d (c, g)) = (if d then wrap32 (c + 1) else 0)"
    and "gpio_inv (snd (power_round d (c, g)))"
    and "pin_level (snd (power_round d (c, g))) POWER_OFF_PIN \<longleftrightarrow>
      pin_level g POWER_OFF_PIN \<and> \<not> (d \<and> wrap32 (c + 1) \<ge> 10)"
proof -
  let ?g = "gpio_upd KEY_END_PIN (\<lambda>r. r\<lparr>g_in := (if d then g_in r OR GPIO_MASK KEY_END_PIN
      else g_in r AND NOT (GPIO_MASK KEY_END_PIN))\<rparr>) g"
  have len: "3 < length (io_groups g)" using assms by (simp add: gpio_inv_def)
  have m: "m AND (x OR m) = m" "m AND (x AND NOT m) = 0" for m x :: u32
    by (simp_all add: bit_eq_iff bit_simps)
  have rd: "ev3_gpio_read KEY_END_PIN ?g = d"
    using len m [of "GPIO_MASK KEY_END_PIN"]
    by (simp add: ev3_gpio_read_def gpio_upd_def gpio_group_def KEY_END_PIN_def MAX_GPIO_def) (simp add: GPIO_MASK_def)
  have inv: "gpio_inv ?g" using assms by (simp add: gpio_inv_def gpio_upd_def)
  have lv: "pin_level ?g POWER_OFF_PIN = pin_level g POWER_OFF_PIN"
    using len by (simp add: pin_level_def gpio_upd_def gpio_group_def KEY_END_PIN_def POWER_OFF_PIN_def)
  have v: "valid_pin POWER_OFF_PIN" by (simp add: valid_pin_def POWER_OFF_PIN_def MAX_GPIO_def)
  show "fst (power_round d (c, g)) = (if d then wrap32 (c + 1) else 0)"
    and "gpio_inv (snd (power_round d (c, g)))"
    and "pin_level (snd (power_round d (c, g))) POWER_OFF_PIN \<longleftrightarrow>
      pin_level g POWER_OFF_PIN \<and> \<not> (d \<and> wrap32 (c + 1) \<ge> 10)"
    using rd lv inv level.get_put [OF inv v v, of False] level.put_invar [OF inv, of POWER_OFF_PIN False]
    by (simp_all add: power_round_def check_power_def Let_def)
qed

text \<open>
  The power line is pulled low exactly by a long press: along every sequence of fewer than \<open>2 ^ 31\<close> rounds the
  power-off pin stays high unless the back key was seen down in ten consecutive rounds, and from then on it is low.
\<close>

theorem power_off_exact:
  assumes "gpio_inv g" "pin_level g POWER_OFF_PIN" "length ds < 2 ^ 31"
  shows "pin_level (snd (fold power_round ds (0, g))) POWER_OFF_PIN \<longleftrightarrow> \<not> long_press ds"
proof -
  have "fst (fold power_round ds (0, g)) = int (trail ds) \<and> gpio_inv (snd (fold power_round ds (0, g))) \<and>
      (pin_level (snd (fold power_round ds (0, g))) POWER_OFF_PIN \<longleftrightarrow> \<not> long_press ds)"
    using assms(3)
  proof (induction ds rule: rev_induct)
    case Nil
    then show ?case using assms(1,2) by (simp add: long_press_def)
  next
    case (snoc d ds)
    obtain c h where s: "fold power_round ds (0, g) = (c, h)" by fastforce
    with snoc have c: "c = int (trail ds)" and h: "gpio_inv h" "pin_level h POWER_OFF_PIN \<longleftrightarrow> \<not> long_press ds" by auto
    have "wrap32 (c + 1) = int (Suc (trail ds))"
      using c trail_le [of ds] snoc.prems by (simp add: wrap32_id in_s32_def)
    with s h power_round_eq [OF h(1), of d c] show ?case
      by (auto simp: long_press_snoc)
  qed
  then show ?thesis by simp
qed

theorem power_off_exact_witness:
  "\<not> pin_level (snd (fold power_round (replicate 10 True) (0, ev3_gpio_write POWER_OFF_PIN True demo_gpio))) POWER_OFF_PIN"
proof -
  have g: "gpio_inv demo_gpio" "valid_pin POWER_OFF_PIN"
    by (simp_all add: gpio_inv_def demo_gpio_def valid_pin_def POWER_OFF_PIN_def MAX_GPIO_def)
  have "long_press (replicate 10 True)" unfolding long_press_def by (metis append_Nil append_Nil2)
  with power_off_exact [of "ev3_gpio_write POWER_OFF_PIN True demo_gpio" "replicate 10 True"]
    level.get_put [OF g(1,2,2), of True] level.put_invar [OF g(1), of POWER_OFF_PIN True]
  show ?thesis by simp
qed

end
