(* ===== verification/Ev3_Display.thy ===== *)
theory Ev3_Display
  imports Ev3_Spi
begin

text \<open>
  The display of the EV3: the frame buffer (\<^verbatim>\<open>framebuffer.c\<close>), the conversion of a 32-bit image to grey
  (\<^verbatim>\<open>fbdisplayd.c\<close>) and the ST7586 panel driver (\<^verbatim>\<open>st7586.c\<close>), which sends three pixels per byte over SPI with a
  chip-select and a command line on GPIO pins. The property says what the panel receives for an image.
\<close>

definition FB_DEF_W :: int where "FB_DEF_W = 178"
definition FB_DEF_H :: int where "FB_DEF_H = 128"
definition FB_DEP :: int where "FB_DEP = 32"

record disp_info =
  di_width :: int
  di_height :: int
  di_vwidth :: int
  di_vheight :: int
  di_depth :: int
  di_pitch :: int
  di_xoffset :: int
  di_yoffset :: int
  di_size :: int
  di_size_max :: int

text \<open>The requested geometry is ignored; the pointer field is the frame buffer itself, kept in the daemon's state.\<close>

definition ev3_fb_init :: "int \<Rightarrow> int \<Rightarrow> int \<Rightarrow> disp_info" where
  "ev3_fb_init w h dep =
     \<lparr>di_width = FB_DEF_W, di_height = FB_DEF_H, di_vwidth = FB_DEF_W, di_vheight = FB_DEF_H, di_depth = FB_DEP,
      di_pitch = 0, di_xoffset = 0, di_yoffset = 0, di_size = FB_DEF_W * FB_DEF_H * (FB_DEP div 8),
      di_size_max = FB_DEF_W * FB_DEF_H * (FB_DEP div 8)\<rparr>"

definition fb_bytes :: nat where
  "fb_bytes = nat (FB_DEF_W * FB_DEF_H * FB_DEP div 8)"

section \<open>The panel driver\<close>

definition RESET_PIN :: int where "RESET_PIN = 80"
definition CMD_PIN :: int where "CMD_PIN = 43"
definition CS_PIN :: int where "CS_PIN = 44"
definition ST7586_DISP_MODE_GRAY :: u8 where "ST7586_DISP_MODE_GRAY = 0x38"
definition ST7586_ENABLE_DDRAM :: u8 where "ST7586_ENABLE_DDRAM = 0x3a"
definition ST7586_SET_DISP_DUTY :: u8 where "ST7586_SET_DISP_DUTY = 0xb0"
definition ST7586_SET_PART_DISP :: u8 where "ST7586_SET_PART_DISP = 0xb4"
definition ST7586_SET_NLINE_INV :: u8 where "ST7586_SET_NLINE_INV = 0xb5"
definition ST7586_SET_VOP :: u8 where "ST7586_SET_VOP = 0xc0"
definition ST7586_SET_BIAS_SYSTEM :: u8 where "ST7586_SET_BIAS_SYSTEM = 0xc3"
definition ST7586_SET_BOOST_LEVEL :: u8 where "ST7586_SET_BOOST_LEVEL = 0xc4"
definition ST7586_SET_VOP_OFFSET :: u8 where "ST7586_SET_VOP_OFFSET = 0xc7"
definition ST7586_ENABLE_ANALOG :: u8 where "ST7586_ENABLE_ANALOG = 0xd0"
definition ST7586_AUTO_READ_CTRL :: u8 where "ST7586_AUTO_READ_CTRL = 0xd7"
definition ST7586_OTP_RW_CTRL :: u8 where "ST7586_OTP_RW_CTRL = 0xe0"
definition ST7586_OTP_CTRL_OUT :: u8 where "ST7586_OTP_CTRL_OUT = 0xe1"
definition ST7586_OTP_READ :: u8 where "ST7586_OTP_READ = 0xe3"

definition panel_pin :: "int \<Rightarrow> bool \<Rightarrow> 'd spi \<Rightarrow> 'd spi" where
  "panel_pin pin v s = s\<lparr>sp_gpio := ev3_gpio_write pin v (sp_gpio s)\<rparr>"

definition st7586_command0 :: "'d spi_device \<Rightarrow> u8 \<Rightarrow> 'd spi \<Rightarrow> 'd spi" where
  "st7586_command0 dev cmd s =
     (let s = panel_pin CS_PIN False s;
          s = panel_pin CMD_PIN False s;
          s = davinci_spi_write dev 1 [cmd] SPI_XFER_END s;
          s = panel_pin CMD_PIN True s
      in panel_pin CS_PIN True s)"

text \<open>The three other command functions differ in the number of parameter bytes only.\<close>

definition st7586_command_data :: "'d spi_device \<Rightarrow> u8 \<Rightarrow> u8 list \<Rightarrow> 'd spi \<Rightarrow> 'd spi" where
  "st7586_command_data dev cmd data s =
     (let s = panel_pin CMD_PIN False s;
          s = panel_pin CS_PIN False s;
          s = davinci_spi_write dev 1 [cmd] 0 s;
          s = panel_pin CMD_PIN True s;
          s = davinci_spi_write dev (length data) data SPI_XFER_END s
      in panel_pin CS_PIN True s)"

definition st7586_command1 :: "'d spi_device \<Rightarrow> u8 \<Rightarrow> u8 \<Rightarrow> 'd spi \<Rightarrow> 'd spi" where
  "st7586_command1 dev cmd data0 = st7586_command_data dev cmd [data0]"

definition st7586_command2 :: "'d spi_device \<Rightarrow> u8 \<Rightarrow> u8 \<Rightarrow> u8 \<Rightarrow> 'd spi \<Rightarrow> 'd spi" where
  "st7586_command2 dev cmd data0 data1 = st7586_command_data dev cmd [data0, data1]"

definition st7586_command4 :: "'d spi_device \<Rightarrow> u8 \<Rightarrow> u8 \<Rightarrow> u8 \<Rightarrow> u8 \<Rightarrow> u8 \<Rightarrow> 'd spi \<Rightarrow> 'd spi" where
  "st7586_command4 dev cmd data0 data1 data2 data3 = st7586_command_data dev cmd [data0, data1, data2, data3]"

text \<open>The three tables map a grey value to the bits of the first, second and third pixel of a byte; four runs of 64.\<close>

definition lookup_tb_1 :: "u8 list" where
  "lookup_tb_1 = concat (map (replicate 64) [0xe0, 0x80, 0x40, 0x00])"

definition lookup_tb_2 :: "u8 list" where
  "lookup_tb_2 = concat (map (replicate 64) [0x1c, 0x10, 0x08, 0x00])"

definition lookup_tb_3 :: "u8 list" where
  "lookup_tb_3 = concat (map (replicate 64) [0x03, 0x02, 0x01, 0x00])"

definition pack_pixels :: "u8 list \<Rightarrow> nat \<Rightarrow> u8" where
  "pack_pixels buf p =
     (let val = lookup_tb_1 ! unat (buf ! p);
          val = val OR lookup_tb_2 ! unat (buf ! (p + 1))
      in val OR lookup_tb_3 ! unat (buf ! (p + 2)))"

text \<open>The inner loop takes a step of three over the width.\<close>

definition st7586_row :: "'d spi_device \<Rightarrow> u8 list \<Rightarrow> nat \<Rightarrow> nat \<Rightarrow> 'd spi \<Rightarrow> 'd spi" where
  "st7586_row dev buf width i s =
     fold (\<lambda>j s. davinci_spi_write dev 1 [pack_pixels buf (i * width + 3 * j)] 0 s) [0..<(width + 2) div 3] s"

definition st7586_update :: "'d spi_device \<Rightarrow> u8 list \<Rightarrow> nat \<Rightarrow> nat \<Rightarrow> 'd spi \<Rightarrow> 'd spi" where
  "st7586_update dev buf width height s =
     (let w = width div 3;
          s = st7586_command4 dev 0x2B 0 0 (of_nat (height div 256)) (of_nat (height mod 256)) s;
          s = st7586_command4 dev 0x2A 0 0 (of_nat (w div 256)) (of_nat (w mod 256)) s;
          s = panel_pin CS_PIN False s;
          s = panel_pin CMD_PIN False s;
          s = davinci_spi_write dev 1 [0x2C] 0 s;
          s = panel_pin CMD_PIN True s;
          s = fold (st7586_row dev buf width) [0..<height] s
      in panel_pin CS_PIN True s)"

definition st7586_init :: "'d spi_device \<Rightarrow> 'd spi \<Rightarrow> 'd spi" where
  "st7586_init dev s =
     (let s = davinci_spi_init 1 s;
          s = s\<lparr>sp_gpio := ev3_gpio_config CMD_PIN GPIO_OUTPUT (sp_gpio s)\<rparr>;
          s = s\<lparr>sp_gpio := ev3_gpio_config CS_PIN GPIO_OUTPUT (sp_gpio s)\<rparr>;
          s = panel_pin RESET_PIN True s;
          s = panel_pin CMD_PIN True s;
          s = st7586_command1 dev ST7586_AUTO_READ_CTRL 0x9f s;
          s = st7586_command1 dev ST7586_OTP_RW_CTRL 0x00 s;
          s = st7586_command0 dev ST7586_OTP_READ s;
          s = st7586_command0 dev ST7586_OTP_CTRL_OUT s;
          s = st7586_command1 dev ST7586_SET_VOP_OFFSET 0x00 s;
          s = st7586_command2 dev ST7586_SET_VOP 0xe3 0x00 s;
          s = st7586_command1 dev ST7586_SET_BIAS_SYSTEM 0x02 s;
          s = st7586_command1 dev ST7586_SET_BOOST_LEVEL 0x04 s;
          s = st7586_command1 dev ST7586_ENABLE_ANALOG 0x1d s;
          s = st7586_command1 dev ST7586_SET_NLINE_INV 0x00 s;
          s = st7586_command0 dev ST7586_DISP_MODE_GRAY s;
          s = st7586_command1 dev ST7586_ENABLE_DDRAM 0x02 s;
          s = st7586_command1 dev ST7586_SET_DISP_DUTY 0x7f s
      in st7586_command1 dev ST7586_SET_PART_DISP 0xa0 s)"

section \<open>The daemon\<close>

text \<open>One pixel: blue, green, red from the low bytes up.\<close>

definition pixel_gray :: "u32 \<Rightarrow> u8" where
  "pixel_gray w =
     (let b = ucast w :: u8; g = ucast (drop_bit 8 w) :: u8; r = ucast (drop_bit 16 w) :: u8
      in of_nat ((unat r + unat g + unat b) div 3))"

definition argb32_to_gray :: "u32 list \<Rightarrow> u8 list \<Rightarrow> nat \<Rightarrow> u8 list" where
  "argb32_to_gray argb gray n = fold (\<lambda>i gray. gray[i := pixel_gray (argb ! i)]) [0..<n] gray"

record graph =
  gr_w :: nat
  gr_h :: nat
  gr_buffer :: "u32 list"

text \<open>The frame buffer and the bus; the result is the number of bytes shown.\<close>

definition fb_flush :: "'d spi_device \<Rightarrow> graph \<Rightarrow> u8 list \<times> 'd spi \<Rightarrow> int \<times> u8 list \<times> 'd spi" where
  "fb_flush dev g st =
     (let (fb, s) = st;
          fb = argb32_to_gray (gr_buffer g) fb (gr_w g * gr_h g);
          s = st7586_update dev fb (gr_w g) (gr_h g) s
      in (4 * int (gr_w g) * int (gr_h g), fb, s))"

section \<open>What the panel receives\<close>

text \<open>Everything a device on this bus can see: the chip-select and command lines and the byte, in order.\<close>

definition panel_log :: "(bool \<times> bool \<times> u8) list spi_device" where
  "panel_log g w x = (0, x @ [(pin_level g CS_PIN, pin_level g CMD_PIN, ucast w)])"

abbreviation panel_cmd :: "u8 \<Rightarrow> bool \<times> bool \<times> u8" where
  "panel_cmd b \<equiv> (False, False, b)"

abbreviation panel_data :: "u8 \<Rightarrow> bool \<times> bool \<times> u8" where
  "panel_data b \<equiv> (False, True, b)"

lemma panel_pins: "valid_pin CS_PIN" "valid_pin CMD_PIN" "CS_PIN \<noteq> CMD_PIN" "CMD_PIN \<noteq> CS_PIN"
  by (simp_all add: valid_pin_def CS_PIN_def CMD_PIN_def MAX_GPIO_def)

lemma panel_pin_level:
  "gpio_inv (sp_gpio s) \<Longrightarrow> valid_pin p \<Longrightarrow> valid_pin q \<Longrightarrow>
     pin_level (sp_gpio (panel_pin p v s)) q = (if p = q then v else pin_level (sp_gpio s) q)"
  "gpio_inv (sp_gpio s) \<Longrightarrow> gpio_inv (sp_gpio (panel_pin p v s))"
  "sp_dev (panel_pin p v s) = sp_dev s"
  by (simp_all add: panel_pin_def level.get_put level.put_invar)

lemma word_byte: "(ucast (d OR (push_bit 16 (ucast (c::u8)) OR ucast (b::u8)) :: u32) :: u8) = ucast d OR b"
  by (rule bit_word_eqI) (auto simp: bit_simps)

lemma feed_panel_log:
  "snd (feed panel_log g ws x) = x @ map (\<lambda>w. (pin_level g CS_PIN, pin_level g CMD_PIN, ucast w)) ws"
  by (induction ws arbitrary: x) (simp_all add: panel_log_def split_beta Let_def)

lemma spi_words_bytes: "bs \<noteq> [] \<Longrightarrow> map ucast (spi_words cs fin bs) = bs"
proof -
  have "(268435456 :: u8) = 0" by (simp add: word_uint_eq_iff)
  then have "268435456 OR b = b" for b :: u8 by (metis or.left_neutral)
  then have "(OR) (268435456 :: u8) = id" "\<And>b. 268435456 OR b = (b :: u8)" by auto
  moreover assume "bs \<noteq> []"
  ultimately show ?thesis
    by (cases bs rule: rev_cases) (simp_all add: spi_words_def word_byte comp_def)
qed

lemma panel_write:
  assumes "bs \<noteq> []" "length bs = n"
  shows "sp_dev (davinci_spi_write panel_log n bs flags s) =
      sp_dev s @ map (\<lambda>b. (pin_level (sp_gpio s) CS_PIN, pin_level (sp_gpio s) CMD_PIN, b)) bs"
    and "sp_gpio (davinci_spi_write panel_log n bs flags s) = sp_gpio s"
proof -
  let ?ws = "spi_words (sp_cur_cs s) (flags AND SPI_XFER_END \<noteq> 0) bs"
  have "map (\<lambda>w. (x, y, ucast w :: u8)) ?ws = map (\<lambda>b. (x, y, b)) bs" for x y :: bool
    using arg_cong [OF spi_words_bytes [OF assms(1)], of "map (\<lambda>b. (x, y, b))"] by (simp add: comp_def)
  then show "sp_dev (davinci_spi_write panel_log n bs flags s) =
      sp_dev s @ map (\<lambda>b. (pin_level (sp_gpio s) CS_PIN, pin_level (sp_gpio s) CMD_PIN, b)) bs"
    and "sp_gpio (davinci_spi_write panel_log n bs flags s) = sp_gpio s"
    using write_feed [OF assms(1), of panel_log flags s] assms(2) by (simp_all add: feed_panel_log Let_def)
qed

lemmas panel_simps = panel_pins panel_pin_level panel_write

lemma command_data_log:
  assumes "gpio_inv (sp_gpio s)" "data \<noteq> []"
  shows "sp_dev (st7586_command_data panel_log cmd data s) = sp_dev s @ panel_cmd cmd # map panel_data data"
    and "gpio_inv (sp_gpio (st7586_command_data panel_log cmd data s))"
  using assms by (simp_all add: st7586_command_data_def Let_def panel_simps)

lemma command0_log:
  assumes "gpio_inv (sp_gpio s)"
  shows "sp_dev (st7586_command0 panel_log cmd s) = sp_dev s @ [panel_cmd cmd]"
    and "gpio_inv (sp_gpio (st7586_command0 panel_log cmd s))"
  using assms by (simp_all add: st7586_command0_def Let_def panel_simps)

text \<open>The initialisation sequence as the panel receives it.\<close>

lemma st7586_init_log:
  assumes "gpio_inv (sp_gpio s)"
  shows "sp_dev (st7586_init panel_log s) = sp_dev s @
    [panel_cmd 0xd7, panel_data 0x9f, panel_cmd 0xe0, panel_data 0, panel_cmd 0xe3, panel_cmd 0xe1,
     panel_cmd 0xc7, panel_data 0, panel_cmd 0xc0, panel_data 0xe3, panel_data 0, panel_cmd 0xc3, panel_data 2,
     panel_cmd 0xc4, panel_data 4, panel_cmd 0xd0, panel_data 0x1d, panel_cmd 0xb5, panel_data 0, panel_cmd 0x38,
     panel_cmd 0x3a, panel_data 2, panel_cmd 0xb0, panel_data 0x7f, panel_cmd 0xb4, panel_data 0xa0]"
proof -
  have c: "gpio_inv g \<Longrightarrow> gpio_inv (ev3_gpio_config p m g)" for p m g
    by (simp add: gpio_inv_def ev3_gpio_config_def gpio_mux_cfg_def ev3_syscfg_write_def gpio_upd_def Let_def)
  show ?thesis
    using assms
    by (simp add: st7586_init_def davinci_spi_init_def st7586_command1_def st7586_command2_def command_data_log
        command0_log c panel_pin_level Let_def
        ST7586_DISP_MODE_GRAY_def ST7586_ENABLE_DDRAM_def ST7586_SET_DISP_DUTY_def ST7586_SET_PART_DISP_def
        ST7586_SET_NLINE_INV_def ST7586_SET_VOP_def ST7586_SET_BIAS_SYSTEM_def ST7586_SET_BOOST_LEVEL_def
        ST7586_SET_VOP_OFFSET_def ST7586_ENABLE_ANALOG_def ST7586_AUTO_READ_CTRL_def ST7586_OTP_RW_CTRL_def
        ST7586_OTP_CTRL_OUT_def ST7586_OTP_READ_def)
qed

text \<open>Rows: every byte is data, the lines do not change.\<close>

lemma row_log:
  assumes "gpio_inv (sp_gpio s)" "\<not> pin_level (sp_gpio s) CS_PIN" "pin_level (sp_gpio s) CMD_PIN"
  shows "sp_dev (st7586_row panel_log buf width i s) =
      sp_dev s @ map (\<lambda>j. panel_data (pack_pixels buf (i * width + 3 * j))) [0..<(width + 2) div 3]"
    and "sp_gpio (st7586_row panel_log buf width i s) = sp_gpio s"
proof -
  have "sp_dev (fold (\<lambda>j s. davinci_spi_write panel_log 1 [f j] 0 s) js s) = sp_dev s @ map (\<lambda>j. panel_data (f j)) js \<and>
      sp_gpio (fold (\<lambda>j s. davinci_spi_write panel_log 1 [f j] 0 s) js s) = sp_gpio s" for js :: "nat list" and f
    using assms by (induction js arbitrary: s) (simp_all add: panel_write)
  then show "sp_dev (st7586_row panel_log buf width i s) =
      sp_dev s @ map (\<lambda>j. panel_data (pack_pixels buf (i * width + 3 * j))) [0..<(width + 2) div 3]"
    and "sp_gpio (st7586_row panel_log buf width i s) = sp_gpio s"
    by (simp_all add: st7586_row_def)
qed

definition frame_bytes :: "u8 list \<Rightarrow> nat \<Rightarrow> nat \<Rightarrow> u8 list" where
  "frame_bytes buf width height =
     concat (map (\<lambda>i. map (\<lambda>j. pack_pixels buf (i * width + 3 * j)) [0..<(width + 2) div 3]) [0..<height])"

lemma rows_log:
  assumes "gpio_inv (sp_gpio s)" "\<not> pin_level (sp_gpio s) CS_PIN" "pin_level (sp_gpio s) CMD_PIN"
  shows "sp_dev (fold (st7586_row panel_log buf width) [0..<n] s) = sp_dev s @ map panel_data (frame_bytes buf width n) \<and>
     sp_gpio (fold (st7586_row panel_log buf width) [0..<n] s) = sp_gpio s"
proof (induction n)
  case (Suc n)
  with row_log [of "fold (st7586_row panel_log buf width) [0..<n] s" buf width n] assms show ?case
    by (simp add: frame_bytes_def comp_def)
qed (simp add: frame_bytes_def)

lemma update_log:
  assumes "gpio_inv (sp_gpio s)"
  shows "sp_dev (st7586_update panel_log buf width height s) = sp_dev s @
    [panel_cmd 0x2B, panel_data 0, panel_data 0, panel_data (of_nat (height div 256)), panel_data (of_nat (height mod 256)),
     panel_cmd 0x2A, panel_data 0, panel_data 0, panel_data (of_nat (width div 3 div 256)),
     panel_data (of_nat (width div 3 mod 256)), panel_cmd 0x2C] @ map panel_data (frame_bytes buf width height)"
proof -
  define s1 where "s1 = st7586_command4 panel_log 0x2A 0 0 (of_nat (width div 3 div 256)) (of_nat (width div 3 mod 256))
    (st7586_command4 panel_log 0x2B 0 0 (of_nat (height div 256)) (of_nat (height mod 256)) s)"
  have s1: "gpio_inv (sp_gpio s1)" "sp_dev s1 = sp_dev s @
    [panel_cmd 0x2B, panel_data 0, panel_data 0, panel_data (of_nat (height div 256)), panel_data (of_nat (height mod 256)),
     panel_cmd 0x2A, panel_data 0, panel_data 0, panel_data (of_nat (width div 3 div 256)),
     panel_data (of_nat (width div 3 mod 256))]"
    using assms by (simp_all add: s1_def st7586_command4_def command_data_log)
  define s2 where "s2 = panel_pin CMD_PIN True (davinci_spi_write panel_log 1 [0x2C] 0
    (panel_pin CMD_PIN False (panel_pin CS_PIN False s1)))"
  have s2: "gpio_inv (sp_gpio s2)" "\<not> pin_level (sp_gpio s2) CS_PIN" "pin_level (sp_gpio s2) CMD_PIN"
    "sp_dev s2 = sp_dev s1 @ [panel_cmd 0x2C]"
    using s1(1) by (simp_all add: s2_def panel_simps)
  have "st7586_update panel_log buf width height s =
      panel_pin CS_PIN True (fold (st7586_row panel_log buf width) [0..<height] s2)"
    by (simp add: st7586_update_def s1_def s2_def Let_def)
  with rows_log [OF s2(1-3), of buf width height] s1(2) s2(4) show ?thesis by (simp add: panel_pin_level)
qed

section \<open>Pixels\<close>

text \<open>The four shades, black first, and the bits the panel uses for them in each third of a byte.\<close>

definition shade :: "u8 \<Rightarrow> nat" where
  "shade v = unat v div 64"

definition pixel_code :: "nat \<Rightarrow> nat \<Rightarrow> u8" where
  "pixel_code k sh = (if k = 2 then [3, 2, 1, 0] ! sh else [7, 4, 2, 0] ! sh)"

definition pixel_field :: "nat \<Rightarrow> u8 \<Rightarrow> u8" where
  "pixel_field k b = (if k = 0 then drop_bit 5 b else if k = 1 then drop_bit 2 b AND 7 else b AND 3)"

lemma shade_less: "shade v < 4"
proof -
  have "unat v < 256" using unsigned_less [of v] by simp
  then show ?thesis by (simp add: shade_def)
qed

lemma nth_runs:
  assumes "i < n * length xs"
  shows "concat (map (replicate n) xs) ! i = xs ! (i div n)"
  using assms
proof (induction xs arbitrary: i)
  case (Cons x xs)
  have "0 < n" using Cons.prems by (cases n) auto
  then show ?case
    using Cons.IH [of "i - n"] Cons.prems by (cases "i < n") (auto simp: nth_append le_div_geq)
qed simp

lemma lookup_nth:
  "lookup_tb_1 ! unat v = [0xe0, 0x80, 0x40, 0x00] ! shade v"
  "lookup_tb_2 ! unat v = [0x1c, 0x10, 0x08, 0x00] ! shade v"
  "lookup_tb_3 ! unat v = [0x03, 0x02, 0x01, 0x00] ! shade v"
proof -
  have "unat v < 64 * 4" using unsigned_less [of v] by simp
  then show "lookup_tb_1 ! unat v = [0xe0, 0x80, 0x40, 0x00] ! shade v"
    and "lookup_tb_2 ! unat v = [0x1c, 0x10, 0x08, 0x00] ! shade v"
    and "lookup_tb_3 ! unat v = [0x03, 0x02, 0x01, 0x00] ! shade v"
    unfolding lookup_tb_1_def lookup_tb_2_def lookup_tb_3_def shade_def by (subst nth_runs; simp)+
qed

lemma pack_codes:
  "\<forall>a\<in>set [0..<4]. \<forall>b\<in>set [0..<4]. \<forall>c\<in>set [0..<4].
     (\<lambda>v :: u8. pixel_field 0 v = pixel_code 0 a \<and> pixel_field 1 v = pixel_code 1 b \<and> pixel_field 2 v = pixel_code 2 c)
       ([0xe0, 0x80, 0x40, 0x00] ! a OR [0x1c, 0x10, 0x08, 0x00] ! b OR [0x03, 0x02, 0x01, 0x00] ! c)"
  by code_simp

lemma pack_field:
  assumes "k < 3"
  shows "pixel_field k (pack_pixels buf p) = pixel_code k (shade (buf ! (p + k)))"
proof -
  have "k = 0 \<or> k = 1 \<or> k = 2" using assms by auto
  then show ?thesis
    using pack_codes shade_less [of "buf ! p"] shade_less [of "buf ! (p + 1)"] shade_less [of "buf ! (p + 2)"]
    by (auto simp: pack_pixels_def lookup_nth Let_def or.assoc)
qed

lemma argb32_to_gray_eq:
  "n \<le> length gray \<Longrightarrow> argb32_to_gray argb gray n = map (\<lambda>i. pixel_gray (argb ! i)) [0..<n] @ drop n gray"
proof (induction n)
  case (Suc n)
  then obtain x xs where x: "drop n gray = x # xs" by (cases "drop n gray") auto
  then have "drop (Suc n) gray = xs" by (metis drop_Suc list.sel(3) tl_drop)
  moreover have "argb32_to_gray argb gray (Suc n) = (argb32_to_gray argb gray n)[n := pixel_gray (argb ! n)]"
    by (simp add: argb32_to_gray_def)
  ultimately show ?case using Suc x by (simp add: list_update_append)
qed (simp add: argb32_to_gray_def)

lemma nth_rows:
  assumes "\<And>i. length (f i) = m" "i < n" "j < m"
  shows "concat (map f [0..<n]) ! (i * m + j) = f i ! j"
  using assms(2)
proof (induction n)
  case (Suc n)
  have len: "length (concat (map f [0..<k])) = k * m" for k using assms(1) by (induction k) simp_all
  show ?case
  proof (cases "i = n")
    case True
    then show ?thesis using len assms(3) by (simp add: nth_append)
  next
    case False
    with Suc.prems have "i < n" by simp
    then have "Suc i * m \<le> n * m" by (intro mult_le_mono1) simp
    then have "i * m + j < n * m" using assms(3) by simp
    then show ?thesis using Suc.IH \<open>i < n\<close> len by (simp add: nth_append)
  qed
qed simp

text \<open>
  C21. The panel receives the image: whatever the geometry, the lines and bytes on the bus after a flush are the row
  and column window, the write command and one data byte per group of three pixels, and in the byte
  and third of a byte that belong to column \<open>x\<close> of row \<open>y\<close> stands the panel's code for the shade of
  that pixel's grey value.
\<close>

theorem display_shows_frame:
  assumes "gpio_inv (sp_gpio s)" "gr_w g = w" "gr_h g = h" "w * h + 2 \<le> length fb" "length (gr_buffer g) = w * h"
    and "fb_flush panel_log g (fb, s) = (r, fb', s')"
  shows "\<exists>bytes. sp_dev s' = sp_dev s @
      [panel_cmd 0x2B, panel_data 0, panel_data 0, panel_data (of_nat (h div 256)), panel_data (of_nat (h mod 256)),
       panel_cmd 0x2A, panel_data 0, panel_data 0, panel_data (of_nat (w div 3 div 256)),
       panel_data (of_nat (w div 3 mod 256)), panel_cmd 0x2C] @ map panel_data bytes \<and>
    length bytes = h * ((w + 2) div 3) \<and>
    (\<forall>y<h. \<forall>x<w. pixel_field (x mod 3) (bytes ! (y * ((w + 2) div 3) + x div 3)) =
      pixel_code (x mod 3) (shade (pixel_gray (gr_buffer g ! (y * w + x)))))"
proof (intro exI conjI allI impI)
  let ?m = "(w + 2) div 3"
  have fb': "fb' = map (\<lambda>i. pixel_gray (gr_buffer g ! i)) [0..<w * h] @ drop (w * h) fb"
    using assms(2,3,4,6) argb32_to_gray_eq [of "w * h" fb "gr_buffer g"] by (auto simp: fb_flush_def Let_def)
  show "sp_dev s' = sp_dev s @
      [panel_cmd 0x2B, panel_data 0, panel_data 0, panel_data (of_nat (h div 256)), panel_data (of_nat (h mod 256)),
       panel_cmd 0x2A, panel_data 0, panel_data 0, panel_data (of_nat (w div 3 div 256)),
       panel_data (of_nat (w div 3 mod 256)), panel_cmd 0x2C] @ map panel_data (frame_bytes fb' w h)"
    using assms(2,3,6) update_log [OF assms(1), of fb' w h] by (auto simp: fb_flush_def Let_def)
  show "length (frame_bytes fb' w h) = h * ?m"
    by (simp add: frame_bytes_def length_concat comp_def sum_list_triv)
  fix y x assume y: "y < h" and x: "x < w"
  have "x div 3 < ?m" using x by simp
  then have "frame_bytes fb' w h ! (y * ?m + x div 3) = pack_pixels fb' (y * w + 3 * (x div 3))"
    unfolding frame_bytes_def by (subst nth_rows [where m = ?m]) (use y in simp_all)
  then have "pixel_field (x mod 3) (frame_bytes fb' w h ! (y * ?m + x div 3)) =
      pixel_code (x mod 3) (shade (fb' ! (y * w + x)))"
    using pack_field [of "x mod 3" fb' "y * w + 3 * (x div 3)"] by (simp add: add.assoc)
  moreover have "y * w + x < w * h"
  proof -
    have "Suc y * w \<le> h * w" using y by (intro mult_le_mono1) simp
    then show ?thesis using x by (simp add: mult.commute)
  qed
  ultimately show "pixel_field (x mod 3) (frame_bytes fb' w h ! (y * ?m + x div 3)) =
      pixel_code (x mod 3) (shade (pixel_gray (gr_buffer g ! (y * w + x))))"
    by (simp add: fb' nth_append)
qed

definition demo_panel :: "(bool \<times> bool \<times> u8) list spi" where
  "demo_panel = \<lparr>sp_regs = \<lparr>spi_gcr0 = 0, spi_gcr1 = 0, spi_int0 = 0, spi_lvl = 0, spi_pc0 = 0, spi_dat1 = 0, spi_delay = 0,
       spi_def = 0, spi_fmt0 = 0\<rparr>, sp_base = 0, sp_freq = 0, sp_mode = 0, sp_num_cs = 0, sp_cur_cs = 0,
     sp_half_duplex = False, sp_gpio = demo_gpio, sp_dev = []\<rparr>"

theorem display_shows_frame_witness:
  "\<exists>bytes r fb' s'. fb_flush panel_log \<lparr>gr_w = 2, gr_h = 1, gr_buffer = [0, 0xFFFFFF]\<rparr> (replicate 8 0, demo_panel) = (r, fb', s') \<and>
     length (sp_dev s') = 11 + length bytes \<and> length bytes = 1 \<and>
     pixel_field 0 (bytes ! 0) = pixel_code 0 (shade (pixel_gray 0)) \<and>
     pixel_field 1 (bytes ! 0) = pixel_code 1 (shade (pixel_gray 0xFFFFFF))"
proof -
  let ?g = "\<lparr>gr_w = 2, gr_h = 1, gr_buffer = [0, 0xFFFFFF]\<rparr> :: graph"
  obtain r fb' s' where f: "fb_flush panel_log ?g (replicate 8 0, demo_panel) = (r, fb', s')" by (metis prod_cases3)
  have "gpio_inv (sp_gpio demo_panel)" by (simp add: demo_panel_def gpio_inv_def demo_gpio_def)
  from display_shows_frame [OF this _ _ _ _ f, of 2 1] obtain bytes where
    b: "length (sp_dev s') = 11 + length bytes" "length bytes = 1"
    "\<forall>y<1. \<forall>x<2. pixel_field (x mod 3) (bytes ! (y * 1 + x div 3)) = pixel_code (x mod 3) (shade (pixel_gray ([0, 0xFFFFFF] ! (y * 2 + x))))"
    by (auto simp: demo_panel_def)
  from b(3) [rule_format, of 0 0] b(3) [rule_format, of 0 1]
  have "pixel_field 0 (bytes ! 0) = pixel_code 0 (shade (pixel_gray 0))"
    "pixel_field 1 (bytes ! 0) = pixel_code 1 (shade (pixel_gray 0xFFFFFF))" by simp_all
  with f b(1,2) show ?thesis by blast
qed

text \<open>The frame buffer holds the image of the EV3's own geometry with room for the two bytes read past the last row.\<close>

lemma fb_room: "nat (di_width (ev3_fb_init w h dep)) * nat (di_height (ev3_fb_init w h dep)) + 2 \<le> fb_bytes"
  by (simp add: ev3_fb_init_def fb_bytes_def FB_DEF_W_def FB_DEF_H_def FB_DEP_def)

end
