(* ===== verification/Wlan_Qbuf.thy ===== *)
theory Wlan_Qbuf
  imports Interfaces
begin

text \<open>
  The frame queue of the WLAN drivers (\<^verbatim>\<open>wlan/utils/qbuf.c\<close>, the same file on three boards): a ring of fixed-size
  buffers between the worker thread and the device thread. Every operation holds the queue's lock for
  its whole body, so the operations are the atomic steps of the model.

  Properties: the queue is a bounded first-in first-out queue of frames (interpretation of \<open>bounded_fifo\<close>),
  any sequence of pushes, pops and resets behaves like an ideal queue, and a failed allocation
  leaks nothing.
\<close>

record buf_t =
  bf_size :: int
  bf_data :: "u8 list"

record queue_buffer =
  qb_qsize :: int
  qb_bsize :: int
  qb_bufs :: "buf_t list"
  qb_push_idx :: int
  qb_pop_idx :: int

section \<open>Allocation\<close>

text \<open>The heap: the outcomes of the allocations to come, and how many blocks are live.\<close>

record heap =
  hp_outcomes :: "bool list"
  hp_live :: nat

definition malloc :: "heap \<Rightarrow> bool \<times> heap" where
  "malloc h = (case hp_outcomes h of [] \<Rightarrow> (False, h)
     | ok # oks \<Rightarrow> (ok, h\<lparr>hp_outcomes := oks, hp_live := hp_live h + (if ok then 1 else 0)\<rparr>))"

definition free :: "heap \<Rightarrow> heap" where
  "free h = h\<lparr>hp_live := hp_live h - 1\<rparr>"

text \<open>The loop over the buffers: \<open>i\<close> of them have been allocated, with the contents \<open>mem\<close> the memory happens to have.\<close>

fun alloc_bufs :: "nat \<Rightarrow> nat \<Rightarrow> u8 list \<Rightarrow> buf_t list \<Rightarrow> heap \<Rightarrow> buf_t list option \<times> heap" where
  "alloc_bufs 0 i mem bs h = (Some bs, h)"
| "alloc_bufs (Suc n) i mem bs h =
     (let (ok, h) = malloc h
      in if ok then alloc_bufs n (Suc i) mem (bs @ [\<lparr>bf_size = 0, bf_data = mem\<rparr>]) h
         else (None, free (free ((free ^^ i) h))))"

definition queue_buffer_alloc :: "nat \<Rightarrow> u8 list \<Rightarrow> heap \<Rightarrow> queue_buffer option \<times> heap" where
  "queue_buffer_alloc qsize mem h =
     (let (ok, h) = malloc h
      in if \<not> ok then (None, h)
         else let (ok, h) = malloc h
              in if \<not> ok then (None, free h)
                 else let (bs, h) = alloc_bufs qsize 0 mem [] h
                      in (case bs of None \<Rightarrow> (None, h)
                          | Some bs \<Rightarrow> (Some \<lparr>qb_qsize = int qsize, qb_bsize = int (length mem), qb_bufs = bs,
                              qb_push_idx = 0, qb_pop_idx = 0\<rparr>, h)))"

definition queue_buffer_free :: "queue_buffer \<Rightarrow> heap \<Rightarrow> heap" where
  "queue_buffer_free q h = free (free ((free ^^ nat (qb_qsize q)) h))"

section \<open>Operations\<close>

definition queue_buffer_push :: "u8 list \<Rightarrow> queue_buffer \<Rightarrow> int \<times> queue_buffer" where
  "queue_buffer_push buf q =
     (let sz = int (length buf)
      in if sz \<le> 0 \<or> sz > qb_bsize q then (0, q)
         else if wrap32 (qb_push_idx q - qb_pop_idx q) < qb_qsize q
         then let idx = nat (qb_push_idx q mod qb_qsize q);
                  dst = qb_bufs q ! idx;
                  dst = dst\<lparr>bf_data := buf @ drop (length buf) (bf_data dst)\<rparr>;
                  dst = dst\<lparr>bf_size := sz\<rparr>;
                  q = q\<lparr>qb_bufs := (qb_bufs q)[idx := dst]\<rparr>
              in (sz, q\<lparr>qb_push_idx := wrap32 (qb_push_idx q + 1)\<rparr>)
         else (0, q))"

text \<open>The bytes copied to the caller's buffer come first in the result.\<close>

definition queue_buffer_pop :: "nat \<Rightarrow> queue_buffer \<Rightarrow> u8 list \<times> int \<times> queue_buffer" where
  "queue_buffer_pop sz q =
     (if qb_push_idx q > qb_pop_idx q
      then let src = qb_bufs q ! nat (qb_pop_idx q mod qb_qsize q);
               n = min (bf_size src) (int sz);
               q = q\<lparr>qb_pop_idx := wrap32 (qb_pop_idx q + 1)\<rparr>;
               q = (if qb_push_idx q \<ge> qb_qsize q \<and> qb_pop_idx q \<ge> qb_qsize q
                    then q\<lparr>qb_push_idx := qb_push_idx q - qb_qsize q, qb_pop_idx := qb_pop_idx q - qb_qsize q\<rparr> else q)
           in (take (nat n) (bf_data src), n, q)
      else ([], 0, q))"

definition queue_buffer_check :: "queue_buffer \<Rightarrow> int" where
  "queue_buffer_check q = wrap32 (qb_push_idx q - qb_pop_idx q)"

definition queue_buffer_reset :: "queue_buffer \<Rightarrow> queue_buffer" where
  "queue_buffer_reset q = q\<lparr>qb_pop_idx := qb_push_idx q\<rparr>"

section \<open>The queue as a list of frames\<close>

definition frame :: "buf_t \<Rightarrow> u8 list" where
  "frame b = take (nat (bf_size b)) (bf_data b)"

definition qb_contents :: "queue_buffer \<Rightarrow> u8 list list" where
  "qb_contents q = ring_list (nat (qb_qsize q)) (map frame (qb_bufs q)) (nat (qb_pop_idx q mod qb_qsize q))
     (nat (qb_push_idx q - qb_pop_idx q))"

text \<open>What all operations keep; the write index may still grow.\<close>

definition qb_shape :: "queue_buffer \<Rightarrow> bool" where
  "qb_shape q \<longleftrightarrow> 0 < qb_qsize q \<and> 0 \<le> qb_bsize q \<and> length (qb_bufs q) = nat (qb_qsize q) \<and>
     (\<forall>b\<in>set (qb_bufs q). 0 \<le> bf_size b \<and> bf_size b \<le> qb_bsize q \<and> int (length (bf_data b)) = qb_bsize q) \<and>
     0 \<le> qb_pop_idx q \<and> qb_pop_idx q \<le> qb_push_idx q \<and> qb_push_idx q \<le> qb_pop_idx q + qb_qsize q \<and>
     qb_push_idx q < 2 ^ 31"

lemma qb_depth: "qb_shape q \<Longrightarrow> wrap32 (qb_push_idx q - qb_pop_idx q) = qb_push_idx q - qb_pop_idx q"
  by (rule wrap32_id) (simp add: qb_shape_def in_s32_def)

lemma qb_length: "length (qb_contents q) = nat (qb_push_idx q - qb_pop_idx q)"
  by (simp add: qb_contents_def)

lemma qb_write_slot:
  assumes "qb_shape q"
  shows "nat (qb_push_idx q mod qb_qsize q) =
    (nat (qb_pop_idx q mod qb_qsize q) + nat (qb_push_idx q - qb_pop_idx q)) mod nat (qb_qsize q)"
proof -
  have "int (nat (qb_push_idx q mod qb_qsize q)) =
      int ((nat (qb_pop_idx q mod qb_qsize q) + nat (qb_push_idx q - qb_pop_idx q)) mod nat (qb_qsize q))"
    using assms by (simp add: qb_shape_def zmod_int mod_simps)
  then show ?thesis by (simp only: of_nat_eq_iff)
qed

lemma push_accepted:
  assumes "qb_shape q" "buf \<noteq> []" "int (length buf) \<le> qb_bsize q" "length (qb_contents q) < nat (qb_qsize q)"
    and "qb_push_idx q + 1 < 2 ^ 31"
  shows "fst (queue_buffer_push buf q) = int (length buf)" "qb_contents (snd (queue_buffer_push buf q)) = qb_contents q @ [buf]"
    and "qb_shape (snd (queue_buffer_push buf q))"
    and "qb_push_idx (snd (queue_buffer_push buf q)) = qb_push_idx q + 1"
    "qb_pop_idx (snd (queue_buffer_push buf q)) = qb_pop_idx q" "qb_qsize (snd (queue_buffer_push buf q)) = qb_qsize q"
    "qb_bsize (snd (queue_buffer_push buf q)) = qb_bsize q"
proof -
  let ?i = "nat (qb_push_idx q mod qb_qsize q)" and ?n = "nat (qb_qsize q)"
  let ?b = "(qb_bufs q ! ?i)\<lparr>bf_data := buf @ drop (length buf) (bf_data (qb_bufs q ! ?i)), bf_size := int (length buf)\<rparr>"
  have room: "qb_push_idx q - qb_pop_idx q < qb_qsize q" using assms(1,4) by (simp add: qb_length qb_shape_def)
  have i: "?i < length (qb_bufs q)" using assms(1) by (simp add: qb_shape_def)
  have w: "wrap32 (qb_push_idx q + 1) = qb_push_idx q + 1"
    using assms(1,5) by (intro wrap32_id) (simp add: qb_shape_def in_s32_def)
  have p: "queue_buffer_push buf q =
      (int (length buf), q\<lparr>qb_bufs := (qb_bufs q)[?i := ?b], qb_push_idx := qb_push_idx q + 1\<rparr>)"
    using assms(2,3) room w qb_depth [OF assms(1)] by (simp add: queue_buffer_push_def Let_def)
  then show "fst (queue_buffer_push buf q) = int (length buf)"
    and "qb_push_idx (snd (queue_buffer_push buf q)) = qb_push_idx q + 1"
    and "qb_pop_idx (snd (queue_buffer_push buf q)) = qb_pop_idx q"
    and "qb_qsize (snd (queue_buffer_push buf q)) = qb_qsize q"
    and "qb_bsize (snd (queue_buffer_push buf q)) = qb_bsize q" by simp_all
  have "int (length (bf_data (qb_bufs q ! ?i))) = qb_bsize q" using assms(1) i by (auto simp: qb_shape_def)
  then have new: "0 \<le> bf_size ?b \<and> bf_size ?b \<le> qb_bsize q \<and> int (length (bf_data ?b)) = qb_bsize q" using assms(3) by simp
  have "\<forall>b\<in>set ((qb_bufs q)[?i := ?b]). 0 \<le> bf_size b \<and> bf_size b \<le> qb_bsize q \<and> int (length (bf_data b)) = qb_bsize q"
  proof
    fix b assume "b \<in> set ((qb_bufs q)[?i := ?b])"
    then have "b = ?b \<or> b \<in> set (qb_bufs q)" using set_update_subset_insert by fast
    then show "0 \<le> bf_size b \<and> bf_size b \<le> qb_bsize q \<and> int (length (bf_data b)) = qb_bsize q"
      using new assms(1) unfolding qb_shape_def by blast
  qed
  with p assms(1,5) room show "qb_shape (snd (queue_buffer_push buf q))" by (simp add: qb_shape_def)
  have "map frame ((qb_bufs q)[?i := ?b]) = (map frame (qb_bufs q))[?i := buf]" by (simp add: map_update frame_def)
  moreover have "nat (qb_push_idx q + 1 - qb_pop_idx q) = Suc (nat (qb_push_idx q - qb_pop_idx q))"
    using assms(1) by (simp add: qb_shape_def nat_add_distrib [symmetric] Suc_nat_eq_nat_zadd1 algebra_simps)
  ultimately show "qb_contents (snd (queue_buffer_push buf q)) = qb_contents q @ [buf]"
    using p ring_list_snoc [of "nat (qb_push_idx q - qb_pop_idx q)" ?n "map frame (qb_bufs q)"
        "nat (qb_pop_idx q mod qb_qsize q)" buf] qb_write_slot [OF assms(1)] room assms(1)
    by (simp add: qb_contents_def qb_shape_def)
qed

lemma push_refused:
  assumes "qb_shape q" "buf = [] \<or> int (length buf) > qb_bsize q \<or> length (qb_contents q) \<ge> nat (qb_qsize q)"
  shows "queue_buffer_push buf q = (0, q)"
  using assms qb_depth [OF assms(1)] by (auto simp: queue_buffer_push_def Let_def qb_length qb_shape_def nat_le_iff)

lemma pop_empty:
  assumes "qb_shape q" "qb_contents q = []"
  shows "queue_buffer_pop sz q = ([], 0, q)"
  using assms qb_length [of q] by (simp add: queue_buffer_pop_def qb_shape_def)

lemma pop_frame:
  assumes "qb_shape q" "qb_contents q = x # xs"
  shows "fst (queue_buffer_pop sz q) = take sz x" "fst (snd (queue_buffer_pop sz q)) = int (min (length x) sz)"
    and "qb_contents (snd (snd (queue_buffer_pop sz q))) = xs" "qb_shape (snd (snd (queue_buffer_pop sz q)))"
    and "qb_qsize (snd (snd (queue_buffer_pop sz q))) = qb_qsize q" "qb_bsize (snd (snd (queue_buffer_pop sz q))) = qb_bsize q"
    and "qb_push_idx (snd (snd (queue_buffer_pop sz q))) \<le> qb_push_idx q"
    and "qb_pop_idx q < qb_qsize q \<Longrightarrow> qb_pop_idx (snd (snd (queue_buffer_pop sz q))) < qb_qsize q"
proof -
  let ?n = "nat (qb_qsize q)" and ?t = "nat (qb_pop_idx q mod qb_qsize q)"
  let ?src = "qb_bufs q ! ?t"
  have len: "length (qb_contents q) = nat (qb_push_idx q - qb_pop_idx q)" by (rule qb_length)
  then have lt: "qb_pop_idx q < qb_push_idx q" using assms by (cases "qb_pop_idx q < qb_push_idx q") (auto simp: qb_shape_def)
  have t: "?t < ?n" "?t < length (qb_bufs q)" using assms(1) by (simp_all add: qb_shape_def)
  have w: "wrap32 (qb_pop_idx q + 1) = qb_pop_idx q + 1"
    using assms(1) lt by (intro wrap32_id) (simp add: qb_shape_def in_s32_def)
  have src: "0 \<le> bf_size ?src" "bf_size ?src \<le> int (length (bf_data ?src))" using assms(1) t(2) by (auto simp: qb_shape_def)
  have k: "nat (qb_push_idx q - qb_pop_idx q) = Suc (nat (qb_push_idx q - (qb_pop_idx q + 1)))" using lt by simp
  have sl: "Suc ?t mod ?n = nat ((qb_pop_idx q + 1) mod qb_qsize q)"
  proof -
    have "int (Suc ?t mod ?n) = (qb_pop_idx q + 1) mod qb_qsize q"
      using assms(1) by (simp add: qb_shape_def zmod_int mod_simps add.commute)
    then show ?thesis by simp
  qed
  from ring_list_cons [OF t(1), of "map frame (qb_bufs q)" "nat (qb_push_idx q - (qb_pop_idx q + 1))"] assms(2) k sl t(2)
  have x: "x = frame ?src"
    and xs: "xs = ring_list ?n (map frame (qb_bufs q)) (nat ((qb_pop_idx q + 1) mod qb_qsize q)) (nat (qb_push_idx q - (qb_pop_idx q + 1)))"
    by (simp_all add: qb_contents_def)
  have lx: "length x = nat (bf_size ?src)" using x src by (simp add: frame_def nat_le_iff)
  have "nat (min (bf_size ?src) (int sz)) = min sz (nat (bf_size ?src))" by (simp add: min_def nat_le_iff le_nat_iff) linarith
  then show "fst (queue_buffer_pop sz q) = take sz x"
    using lt x by (simp add: queue_buffer_pop_def Let_def frame_def)
  show "fst (snd (queue_buffer_pop sz q)) = int (min (length x) sz)"
    using lt lx src by (simp add: queue_buffer_pop_def Let_def of_nat_min)
  have e: "(p - qb_qsize q) mod qb_qsize q = p mod qb_qsize q" for p by simp
  show "qb_contents (snd (snd (queue_buffer_pop sz q))) = xs"
    using lt w xs e by (auto simp: queue_buffer_pop_def Let_def qb_contents_def algebra_simps)
  show "qb_shape (snd (snd (queue_buffer_pop sz q)))" using assms(1) lt w by (auto simp: queue_buffer_pop_def Let_def qb_shape_def)
  show "qb_qsize (snd (snd (queue_buffer_pop sz q))) = qb_qsize q" "qb_bsize (snd (snd (queue_buffer_pop sz q))) = qb_bsize q"
    "qb_push_idx (snd (snd (queue_buffer_pop sz q))) \<le> qb_push_idx q"
    using lt assms(1) by (auto simp: queue_buffer_pop_def Let_def qb_shape_def)
  show "qb_pop_idx (snd (snd (queue_buffer_pop sz q))) < qb_qsize q" if "qb_pop_idx q < qb_qsize q"
    using that lt w assms(1) by (auto simp: queue_buffer_pop_def Let_def qb_shape_def)
qed

text \<open>
  The contract of a bounded queue, for a queue that is not reset: popping keeps the read index inside the ring, so the
  indices stay below twice the size and never overflow.
\<close>

definition qb_next :: "queue_buffer \<Rightarrow> (u8 list \<times> queue_buffer) option" where
  "qb_next q = (if queue_buffer_check q = 0 then None
     else let (bs, _, q) = queue_buffer_pop (nat (qb_bsize q)) q in Some (bs, q))"

definition qb_invar :: "queue_buffer \<Rightarrow> bool" where
  "qb_invar q \<longleftrightarrow> qb_shape q \<and> qb_pop_idx q < qb_qsize q \<and> 2 * qb_qsize q < 2 ^ 31 \<and>
     (\<forall>f\<in>set (qb_contents q). int (length f) \<le> qb_bsize q)"

lemma qb_invar_room:
  assumes "qb_invar q" "length (qb_contents q) < nat (qb_qsize q)"
  shows "qb_push_idx q + 1 < 2 ^ 31"
  using assms qb_length [of q] by (auto simp: qb_invar_def qb_shape_def)

lemma qb_next_cons:
  assumes "qb_invar q" "qb_contents q = x # xs"
  shows "\<exists>q'. qb_next q = Some (x, q') \<and> qb_contents q' = xs \<and> qb_invar q'"
proof -
  have s: "qb_shape q" and x: "int (length x) \<le> qb_bsize q" using assms by (simp_all add: qb_invar_def)
  have "queue_buffer_check q \<noteq> 0"
    using qb_depth [OF s] qb_length [of q] assms(2) by (auto simp: queue_buffer_check_def)
  moreover have "take (nat (qb_bsize q)) x = x" using x by simp
  ultimately show ?thesis
    using pop_frame [OF s assms(2), of "nat (qb_bsize q)"] assms
    by (auto simp: qb_next_def qb_invar_def split_beta Let_def)
qed

lemma qb_push_invar: "qb_invar q \<Longrightarrow> qb_invar (snd (queue_buffer_push f q))"
proof -
  assume q: "qb_invar q"
  then have s: "qb_shape q" by (simp add: qb_invar_def)
  show ?thesis
  proof (cases "f = [] \<or> int (length f) > qb_bsize q \<or> length (qb_contents q) \<ge> nat (qb_qsize q)")
    case True
    with push_refused [OF s] q show ?thesis by simp
  next
    case False
    then have "f \<noteq> []" "int (length f) \<le> qb_bsize q" "length (qb_contents q) < nat (qb_qsize q)" by simp_all
    from push_accepted [OF s this qb_invar_room [OF q this(3)]] q this show ?thesis by (auto simp: qb_invar_def)
  qed
qed

interpretation qb: bounded_fifo qb_next qb_contents qb_invar "\<lambda>f q. snd (queue_buffer_push f q)" "\<lambda>q. nat (qb_qsize q)"
    "\<lambda>q f. f \<noteq> [] \<and> int (length f) \<le> qb_bsize q"
proof
  fix q :: queue_buffer and f g :: "u8 list" and fs
  assume q: "qb_invar q"
  then have s: "qb_shape q" by (simp add: qb_invar_def)
  show "qb_next q = None" if "qb_contents q = []"
    using qb_depth [OF s] qb_length [of q] that s by (auto simp: qb_next_def queue_buffer_check_def qb_shape_def)
  show "\<exists>q'. qb_next q = Some (f, q') \<and> qb_contents q' = fs \<and> qb_invar q'" if "qb_contents q = f # fs"
    using qb_next_cons [OF q that] .
  show "qb_contents (snd (queue_buffer_push f q)) = qb_contents q @ [f]"
    if "f \<noteq> [] \<and> int (length f) \<le> qb_bsize q" "length (qb_contents q) < nat (qb_qsize q)"
    using push_accepted(2) [OF s _ _ that(2) qb_invar_room [OF q that(2)]] that(1) by simp
  show "qb_contents (snd (queue_buffer_push f q)) = qb_contents q"
    if "\<not> ((f \<noteq> [] \<and> int (length f) \<le> qb_bsize q) \<and> length (qb_contents q) < nat (qb_qsize q))"
    using push_refused [OF s, of f] that by auto
  show "qb_invar (snd (queue_buffer_push f q))" by (rule qb_push_invar [OF q])
  show "nat (qb_qsize (snd (queue_buffer_push f q))) = nat (qb_qsize q)"
    by (simp add: queue_buffer_push_def Let_def)
  show "(g \<noteq> [] \<and> int (length g) \<le> qb_bsize (snd (queue_buffer_push f q))) = (g \<noteq> [] \<and> int (length g) \<le> qb_bsize q)"
    by (simp add: queue_buffer_push_def Let_def)
  show "length (qb_contents q) \<le> nat (qb_qsize q)" using s by (auto simp: qb_length qb_shape_def)
qed

section \<open>Sequences of operations\<close>

datatype qb_op = QPush "u8 list" | QPop nat | QReset | QCheck

text \<open>What a client sees: the result and the bytes it got.\<close>

fun qb_step :: "qb_op \<Rightarrow> queue_buffer \<times> (int \<times> u8 list) list \<Rightarrow> queue_buffer \<times> (int \<times> u8 list) list" where
  "qb_step (QPush f) (q, out) = (let (r, q) = queue_buffer_push f q in (q, out @ [(r, [])]))"
| "qb_step (QPop n) (q, out) = (let (bs, r, q) = queue_buffer_pop n q in (q, out @ [(r, bs)]))"
| "qb_step QReset (q, out) = (queue_buffer_reset q, out @ [(0, [])])"
| "qb_step QCheck (q, out) = (q, out @ [(queue_buffer_check q, [])])"

text \<open>The ideal queue of at most \<open>n\<close> frames of at most \<open>m\<close> bytes.\<close>

fun ideal_step :: "nat \<Rightarrow> nat \<Rightarrow> qb_op \<Rightarrow> u8 list list \<times> (int \<times> u8 list) list \<Rightarrow> u8 list list \<times> (int \<times> u8 list) list" where
  "ideal_step n m (QPush f) (xs, out) =
     (if f \<noteq> [] \<and> length f \<le> m \<and> length xs < n then (xs @ [f], out @ [(int (length f), [])]) else (xs, out @ [(0, [])]))"
| "ideal_step n m (QPop k) (xs, out) =
     (case xs of [] \<Rightarrow> ([], out @ [(0, [])]) | x # xs \<Rightarrow> (xs, out @ [(int (min (length x) k), take k x)]))"
| "ideal_step n m QReset (xs, out) = ([], out @ [(0, [])])"
| "ideal_step n m QCheck (xs, out) = (xs, out @ [(int (length xs), [])])"

text \<open>The relation holds for the first \<open>2 ^ 31\<close> operations: only resets let the indices grow, by one per push.\<close>

definition qb_rel :: "nat \<Rightarrow> nat \<Rightarrow> queue_buffer \<times> (int \<times> u8 list) list \<Rightarrow>
    (u8 list list \<times> (int \<times> u8 list) list) \<times> nat \<Rightarrow> bool" where
  "qb_rel n m c a \<longleftrightarrow> (snd a < 2 ^ 31 \<longrightarrow>
     qb_shape (fst c) \<and> qb_qsize (fst c) = int n \<and> qb_bsize (fst c) = int m \<and> qb_push_idx (fst c) \<le> int (snd a) \<and>
     qb_contents (fst c) = fst (fst a) \<and> snd c = snd (fst a))"

definition counted_step :: "nat \<Rightarrow> nat \<Rightarrow> qb_op \<Rightarrow> (u8 list list \<times> (int \<times> u8 list) list) \<times> nat \<Rightarrow>
    (u8 list list \<times> (int \<times> u8 list) list) \<times> nat" where
  "counted_step n m e a = (ideal_step n m e (fst a), Suc (snd a))"

lemma qb_step_rel:
  assumes "qb_rel n m c a"
  shows "qb_rel n m (qb_step e c) (counted_step n m e a)"
proof (cases "Suc (snd a) < 2 ^ 31")
  case False
  then show ?thesis by (simp add: qb_rel_def counted_step_def)
next
  case True
  obtain q out where c: "c = (q, out)" by (cases c)
  obtain xs k where a: "a = ((xs, out), k)" and k: "Suc k < 2 ^ 31" and s: "qb_shape q"
    and q: "qb_qsize q = int n" "qb_bsize q = int m" "qb_push_idx q \<le> int k" "qb_contents q = xs"
    using assms True c by (cases a) (auto simp: qb_rel_def)
  show ?thesis
  proof (cases e)
    case (QPush f)
    show ?thesis
    proof (cases "f \<noteq> [] \<and> length f \<le> m \<and> length xs < n")
      case acc: True
      have "qb_push_idx q + 1 < 2 ^ 31" using q(3) k by simp
      from push_accepted [OF s _ _ _ this, of f] acc q QPush c a k show ?thesis
        by (auto simp: qb_rel_def counted_step_def split_beta Let_def)
    next
      case False
      then have "queue_buffer_push f q = (0, q)" using q by (intro push_refused [OF s]) auto
      with False QPush c a k s q show ?thesis by (auto simp: qb_rel_def counted_step_def)
    qed
  next
    case (QPop j)
    show ?thesis
    proof (cases xs)
      case Nil
      with QPop c a k s q pop_empty [OF s, of j] show ?thesis by (simp add: qb_rel_def counted_step_def)
    next
      case (Cons y ys)
      with pop_frame [OF s, of y ys j] QPop c a k q show ?thesis
        by (auto simp: qb_rel_def counted_step_def split_beta Let_def)
    qed
  next
    case QReset
    with s q a c k show ?thesis
      by (auto simp: qb_rel_def counted_step_def queue_buffer_reset_def qb_shape_def qb_contents_def)
  next
    case QCheck
    with s q a c k qb_depth [OF s] qb_length [of q] show ?thesis
      by (auto simp: qb_rel_def counted_step_def queue_buffer_check_def qb_shape_def)
  qed
qed

interpretation qs: simulation "\<lambda>_. True" qb_step "counted_step n m" "qb_rel n m" for n m
  by unfold_locales (rule qb_step_rel)

lemma counted_fold: "fold (counted_step n m) es (x, k) = (fold (ideal_step n m) es x, k + length es)"
  by (induction es arbitrary: x k) (simp_all add: counted_step_def)

text \<open>Allocation: every block is there, or none is left.\<close>

lemma alloc_bufs_ok:
  "alloc_bufs n i mem bs h = (Some cs, h') \<Longrightarrow>
     cs = bs @ replicate n \<lparr>bf_size = 0, bf_data = mem\<rparr> \<and> hp_live h' = hp_live h + n"
proof (induction n arbitrary: i bs h)
  case (Suc n)
  from Suc.prems show ?case
    by (cases "hp_outcomes h") (auto simp: malloc_def Let_def dest!: Suc.IH split: if_splits)
qed simp

lemma free_pow: "hp_live ((free ^^ n) h) = hp_live h - n"
  by (induction n) (simp_all add: free_def)

lemma alloc_bufs_fail:
  "alloc_bufs n i mem bs h = (None, h') \<Longrightarrow> i + 2 \<le> hp_live h \<Longrightarrow> hp_live h' = hp_live h - i - 2"
proof (induction n arbitrary: i bs h)
  case (Suc n)
  from Suc.prems show ?case
    by (cases "hp_outcomes h") (auto simp: malloc_def free_pow Let_def free_def dest!: Suc.IH split: if_splits)
qed simp

lemma alloc_shape:
  assumes "queue_buffer_alloc n mem h = (Some q, h')" "0 < n"
  shows "qb_shape q \<and> qb_qsize q = int n \<and> qb_bsize q = int (length mem) \<and> qb_push_idx q = 0 \<and> qb_contents q = [] \<and>
    hp_live h' = hp_live h + n + 2"
  using assms
  by (auto simp: queue_buffer_alloc_def malloc_def qb_shape_def qb_contents_def Let_def dest!: alloc_bufs_ok
      split: if_splits option.splits list.splits prod.splits)

lemma alloc_leaks_nothing:
  assumes "queue_buffer_alloc n mem h = (None, h')"
  shows "hp_live h' = hp_live h"
  using assms
  by (auto simp: queue_buffer_alloc_def malloc_def free_def Let_def dest!: alloc_bufs_fail
      split: if_splits option.splits list.splits prod.splits)

lemma free_returns_all:
  assumes "queue_buffer_alloc n mem h = (Some q, h')" "0 < n" "qb_qsize q' = qb_qsize q"
  shows "hp_live (queue_buffer_free q' h') = hp_live h"
  using alloc_shape [OF assms(1,2)] assms(3) by (simp add: queue_buffer_free_def free_pow free_def)

text \<open>
  C11. The WLAN frame queue is an ideal bounded queue: a freshly allocated queue answers every sequence of fewer than
  \<open>2 ^ 31\<close> pushes, pops, resets and depth queries with the results and bytes of an ideal queue of at most
  \<open>n\<close> frames; empty, oversize and excess frames are refused without effect.
\<close>

theorem qbuf_refines_queue:
  assumes "queue_buffer_alloc n mem h = (Some q, h')" "0 < n" "length es < 2 ^ 31"
  shows "snd (fold qb_step es (q, [])) = snd (fold (ideal_step n (length mem)) es ([], [])) \<and>
    qb_contents (fst (fold qb_step es (q, []))) = fst (fold (ideal_step n (length mem)) es ([], []))"
proof -
  have "qb_rel n (length mem) (q, []) (([], []), 0)" using alloc_shape [OF assms(1,2)] by (simp add: qb_rel_def)
  from qs.rel_run [OF _ this, of es] assms(3) show ?thesis by (simp add: counted_fold qb_rel_def list_all_iff)
qed

theorem qbuf_refines_queue_witness:
  "\<exists>q h'. queue_buffer_alloc 1 [0, 0] \<lparr>hp_outcomes = [True, True, True], hp_live = 0\<rparr> = (Some q, h') \<and>
     snd (fold qb_step [QPush [1], QPush [2], QPop 5, QPop 5] (q, [])) = [(1, []), (0, []), (1, [1]), (0, [])]"
proof -
  obtain q h' where q: "queue_buffer_alloc 1 [0, 0] \<lparr>hp_outcomes = [True, True, True], hp_live = 0\<rparr> = (Some q, h')"
    by (simp add: queue_buffer_alloc_def malloc_def)
  from qbuf_refines_queue [OF q, of "[QPush [1], QPush [2], QPop 5, QPop 5]"] q show ?thesis by simp
qed

end
