(* ===== verification/Goodix_Protocol.thy ===== *)
theory Goodix_Protocol
  imports Interfaces "HOL-Library.Monad_Syntax"
begin

text \<open>
  The wire format of the GT9916 touch controller (\<^verbatim>\<open>src/q8b/system/drivers/goodixd/goodix_protocol.c\<close>): checksums, the
  chip information block, read and write requests, event headers and touch records.

  A read outside the buffer is the outer \<open>None\<close> of a decoder's result, so that memory safety is a theorem;
  the inner value is what the C function returns. Sizes and offsets are \<^verbatim>\<open>size_t\<close> values: sums and differences of
  the parser wrap at 64 bits as in the source. Properties: no decoder reads outside its buffer,
  and the chip information and touch packets round-trip.
\<close>

definition GOODIX_BERLIN_READ_FLAG :: u8 where "GOODIX_BERLIN_READ_FLAG = 0xf1"
definition GOODIX_BERLIN_WRITE_FLAG :: u8 where "GOODIX_BERLIN_WRITE_FLAG = 0xf0"
definition GOODIX_BERLIN_READ_DUMMY_LEN :: nat where "GOODIX_BERLIN_READ_DUMMY_LEN = 3"
definition GOODIX_BERLIN_REGISTER_WIDTH :: nat where "GOODIX_BERLIN_REGISTER_WIDTH = 4"
definition GOODIX_BERLIN_READ_PREFIX_LEN :: nat where
  "GOODIX_BERLIN_READ_PREFIX_LEN = 1 + GOODIX_BERLIN_REGISTER_WIDTH + GOODIX_BERLIN_READ_DUMMY_LEN"
definition GOODIX_BERLIN_WRITE_PREFIX_LEN :: nat where
  "GOODIX_BERLIN_WRITE_PREFIX_LEN = 1 + GOODIX_BERLIN_REGISTER_WIDTH"
definition GOODIX_BERLIN_HEADER_SIZE :: nat where "GOODIX_BERLIN_HEADER_SIZE = 8"
definition GOODIX_BERLIN_TOUCH_SIZE :: nat where "GOODIX_BERLIN_TOUCH_SIZE = 8"
definition GOODIX_BERLIN_MAX_TOUCH :: nat where "GOODIX_BERLIN_MAX_TOUCH = 10"

lemmas goodix_consts = GOODIX_BERLIN_READ_DUMMY_LEN_def GOODIX_BERLIN_REGISTER_WIDTH_def
  GOODIX_BERLIN_READ_PREFIX_LEN_def GOODIX_BERLIN_WRITE_PREFIX_LEN_def GOODIX_BERLIN_HEADER_SIZE_def
  GOODIX_BERLIN_TOUCH_SIZE_def GOODIX_BERLIN_MAX_TOUCH_def

record goodix_touch =
  tc_status :: u8
  tc_reserved :: u8
  tc_x :: u16
  tc_y :: u16
  tc_w :: u16

record goodix_event_header =
  eh_status :: u8
  eh_request_type :: u8
  eh_count :: nat

text \<open>A byte of a buffer.\<close>

definition byte_at :: "u8 list \<Rightarrow> nat \<Rightarrow> u8 option" where
  "byte_at d i = (if i < length d then Some (d ! i) else None)"

definition get_le16 :: "u8 list \<Rightarrow> nat \<Rightarrow> u16 option" where
  "get_le16 d i = do {
     a \<leftarrow> byte_at d i;
     b \<leftarrow> byte_at d (i + 1);
     Some (ucast a OR push_bit 8 (ucast b)) }"

definition get_le32 :: "u8 list \<Rightarrow> nat \<Rightarrow> u32 option" where
  "get_le32 d i = do {
     a \<leftarrow> byte_at d i;
     b \<leftarrow> byte_at d (i + 1);
     c \<leftarrow> byte_at d (i + 2);
     e \<leftarrow> byte_at d (i + 3);
     Some (ucast a OR push_bit 8 (ucast b) OR push_bit 16 (ucast c) OR push_bit 24 (ucast e)) }"

definition put_be32 :: "u32 \<Rightarrow> u8 list" where
  "put_be32 v = [ucast (drop_bit 24 v), ucast (drop_bit 16 v), ucast (drop_bit 8 v), ucast v]"

fun checksum_loop :: "u8 list \<Rightarrow> nat \<Rightarrow> nat \<Rightarrow> u32 \<Rightarrow> u32 option" where
  "checksum_loop d i 0 s = Some s"
| "checksum_loop d i (Suc n) s = do { b \<leftarrow> byte_at d i; checksum_loop d (i + 1) n (s + ucast b) }"

definition goodix_checksum_valid :: "u8 list \<Rightarrow> nat \<Rightarrow> nat \<Rightarrow> bool option" where
  "goodix_checksum_valid d off sz =
     (if sz < 2 then Some False
      else do {
        s \<leftarrow> checksum_loop d off (sz - 2) 0;
        e \<leftarrow> get_le16 d (off + sz - 2);
        Some (ucast s = e) })"

text \<open>\<^verbatim>\<open>size_t\<close> arithmetic on values below \<open>2 ^ 64\<close>: a difference below zero wraps to a huge one.\<close>

definition size_add :: "nat \<Rightarrow> nat \<Rightarrow> nat" where
  "size_add a b = (a + b) mod 2 ^ 64"

definition size_sub :: "nat \<Rightarrow> nat \<Rightarrow> nat" where
  "size_sub a b = (if b \<le> a then a - b else 2 ^ 64 + a - b)"

text \<open>The five counted tables: the offset behind them, or the error return.\<close>

fun skip_tables :: "nat \<Rightarrow> u8 list \<Rightarrow> nat \<Rightarrow> nat \<Rightarrow> nat option option" where
  "skip_tables 0 d len off = Some (Some off)"
| "skip_tables (Suc n) d len off =
     (if off \<ge> size_sub len 2 then Some None
      else do {
        c \<leftarrow> byte_at d off;
        let off = size_add off 1;
        let bytes = unat c * 2;
        if bytes > size_sub (size_sub len 2) off then Some None else skip_tables n d len (size_add off bytes) })"

definition goodix_parse_ic_info :: "u8 list \<Rightarrow> nat \<Rightarrow> u32 option option" where
  "goodix_parse_ic_info d len =
     (if len < 2 then Some None
      else if len < 2 + 20 + 10 + 4 + 2 then Some None
      else do {
        ok \<leftarrow> goodix_checksum_valid d 0 len;
        if \<not> ok then Some None
        else do {
          r \<leftarrow> skip_tables 5 d len (2 + 20 + 10 + 4);
          (case r of None \<Rightarrow> Some None
           | Some off \<Rightarrow>
               if size_sub (size_sub len 2) off < 48 then Some None
               else do { a \<leftarrow> get_le32 d (off + 44); Some (if a \<noteq> 0 then Some a else None) }) } })"

text \<open>The request builders; \<open>None\<close> is the return value 0.\<close>

definition goodix_build_read :: "u32 \<Rightarrow> nat \<Rightarrow> nat \<Rightarrow> u8 list option" where
  "goodix_build_read addr n capacity =
     (let total = GOODIX_BERLIN_READ_PREFIX_LEN + n
      in if total > capacity then None
         else Some ([GOODIX_BERLIN_READ_FLAG] @ put_be32 addr @ replicate GOODIX_BERLIN_READ_DUMMY_LEN 0xff @ replicate n 0))"

definition goodix_build_write :: "u32 \<Rightarrow> u8 list \<Rightarrow> nat \<Rightarrow> u8 list option" where
  "goodix_build_write addr value capacity =
     (let total = GOODIX_BERLIN_WRITE_PREFIX_LEN + length value
      in if total > capacity then None
         else Some ([GOODIX_BERLIN_WRITE_FLAG] @ put_be32 addr @ value))"

definition goodix_decode_header :: "u8 list \<Rightarrow> nat \<Rightarrow> goodix_event_header option option" where
  "goodix_decode_header d sz =
     (if sz < GOODIX_BERLIN_HEADER_SIZE then Some None
      else do {
        ok \<leftarrow> goodix_checksum_valid d 0 GOODIX_BERLIN_HEADER_SIZE;
        if \<not> ok then Some None
        else do {
          s \<leftarrow> byte_at d 0;
          r \<leftarrow> byte_at d 2;
          let h = \<lparr>eh_status = s, eh_request_type = r, eh_count = unat (r AND 0x0f)\<rparr>;
          Some (if eh_count h \<le> GOODIX_BERLIN_MAX_TOUCH then Some h else None) } })"

definition goodix_decode_touch :: "u8 list \<Rightarrow> nat \<Rightarrow> nat \<Rightarrow> nat \<Rightarrow> goodix_touch option option" where
  "goodix_decode_touch d off sz index =
     (if index \<ge> GOODIX_BERLIN_MAX_TOUCH then Some None
      else if (index + 1) * GOODIX_BERLIN_TOUCH_SIZE > sz then Some None
      else do {
        let p = off + index * GOODIX_BERLIN_TOUCH_SIZE;
        s \<leftarrow> byte_at d p;
        r \<leftarrow> byte_at d (p + 1);
        x \<leftarrow> get_le16 d (p + 2);
        y \<leftarrow> get_le16 d (p + 4);
        w \<leftarrow> get_le16 d (p + 6);
        Some (Some \<lparr>tc_status = s, tc_reserved = r, tc_x = x, tc_y = y, tc_w = w\<rparr>) })"

section \<open>Memory safety\<close>

lemma byte_at_ok [simp]: "i < length d \<Longrightarrow> byte_at d i = Some (d ! i)"
  by (simp add: byte_at_def)

lemma get_le16_ok: "i + 1 < length d \<Longrightarrow> get_le16 d i = Some (ucast (d ! i) OR push_bit 8 (ucast (d ! (i + 1))))"
  by (simp add: get_le16_def)

definition le32 :: "u8 list \<Rightarrow> u32" where
  "le32 bs = ucast (bs ! 0) OR push_bit 8 (ucast (bs ! 1)) OR push_bit 16 (ucast (bs ! 2)) OR push_bit 24 (ucast (bs ! 3))"

lemma get_le32_ok: "i + 3 < length d \<Longrightarrow> get_le32 d i = Some (le32 (drop i d))"
  by (simp add: get_le32_def le32_def)

lemma checksum_loop_ok:
  "i + n \<le> length d \<Longrightarrow> checksum_loop d i n s = Some (s + sum_list (map ucast (take n (drop i d))))"
proof (induction n arbitrary: i s)
  case (Suc n)
  then have "drop i d = d ! i # drop (Suc i) d" by (simp add: Cons_nth_drop_Suc)
  with Suc show ?case by (simp add: add.assoc)
qed simp

definition byte_sum :: "u8 list \<Rightarrow> u16" where
  "byte_sum bs = ucast (sum_list (map ucast bs) :: u32)"

lemma checksum_valid_ok:
  assumes "off + sz \<le> length d" "2 \<le> sz"
  shows "goodix_checksum_valid d off sz = Some (byte_sum (take (sz - 2) (drop off d)) =
    ucast (d ! (off + sz - 2)) OR push_bit 8 (ucast (d ! (off + sz - 1))))"
  using assms checksum_loop_ok [of off "sz - 2" d 0] get_le16_ok [of "off + sz - 2" d]
  by (simp add: goodix_checksum_valid_def byte_sum_def numeral_2_eq_2 Suc_diff_Suc)

lemma size_sub_le [simp]: "b \<le> a \<Longrightarrow> size_sub a b = a - b"
  by (simp add: size_sub_def)

lemma size_add_le: "size_add a b \<le> a + b"
  by (simp add: size_add_def)

lemma size_add_eq: "a + b < 2 ^ 64 \<Longrightarrow> size_add a b = a + b"
  by (simp add: size_add_def)

text \<open>The guard of the table loop keeps the offset from passing the checksum, so that no later difference wraps.\<close>

lemma skip_tables_safe:
  assumes "2 \<le> len" "len \<le> length d" "off \<le> len - 2"
  shows "\<exists>r. skip_tables n d len off = Some r \<and> (\<forall>off'. r = Some off' \<longrightarrow> off' \<le> len - 2)"
  using assms(3)
proof (induction n arbitrary: off)
  case (Suc n)
  show ?case
  proof (cases "off < len - 2")
    case True
    let ?b = "unat (d ! off) * 2"
    have next_off: "size_add off 1 \<le> len - 2" using size_add_le [of off 1] True by simp
    moreover have "size_add (size_add off 1) ?b \<le> len - 2" if "?b \<le> len - 2 - size_add off 1"
      using size_add_le [of "size_add off 1" ?b] that next_off by linarith
    moreover have "byte_at d off = Some (d ! off)" using True assms(2) by (simp add: byte_at_def)
    ultimately show ?thesis using Suc.IH True assms(1) by (auto simp: Let_def)
  qed (use assms(1) in simp)
qed simp

text \<open>
  C24. Decoding never reads outside the packet: whatever bytes the controller sends, the checksum, the chip information,
  the event header and the touch decoder stay inside the buffer they are given.
\<close>

theorem goodix_decoders_safe:
  assumes "len \<le> length d"
  shows "goodix_parse_ic_info d len \<noteq> None \<and> goodix_decode_header d len \<noteq> None \<and> goodix_checksum_valid d 0 len \<noteq> None \<and>
    goodix_decode_touch d 0 len i \<noteq> None"
proof -
  have c: "goodix_checksum_valid d 0 n \<noteq> None" if "n \<le> len" for n
    using checksum_valid_ok [of 0 n d] that assms by (cases "2 \<le> n") (auto simp: goodix_checksum_valid_def)
  have "goodix_parse_ic_info d len \<noteq> None"
  proof (cases "len < 2 + 20 + 10 + 4 + 2")
    case False
    obtain ok where ok: "goodix_checksum_valid d 0 len = Some ok" using c [of len] by auto
    obtain r where r: "skip_tables 5 d len 36 = Some r" "\<And>off. r = Some off \<Longrightarrow> off \<le> len - 2"
    proof -
      have "2 \<le> len" "36 \<le> len - 2" using False by simp_all
      from skip_tables_safe [OF this(1) assms this(2), of 5] show thesis using that by blast
    qed
    have "get_le32 d (off + 44) = Some (le32 (drop (off + 44) d))"
      if "\<not> size_sub (size_sub len 2) off < 48" "r = Some off" for off
      using that r(2) [of off] False assms by (intro get_le32_ok) simp
    with False ok r show ?thesis by (auto simp: goodix_parse_ic_info_def split: option.split)
  qed (simp add: goodix_parse_ic_info_def)
  moreover have "goodix_decode_header d len \<noteq> None"
  proof (cases "len < 8")
    case False
    then have "byte_at d 0 = Some (d ! 0)" "byte_at d 2 = Some (d ! 2)" using assms by (simp_all only: byte_at_def) auto
    then show ?thesis using c [of 8] False by (auto simp: goodix_decode_header_def goodix_consts Let_def)
  qed (simp add: goodix_decode_header_def goodix_consts)
  moreover have "goodix_decode_touch d 0 len i \<noteq> None"
    using assms by (auto simp: goodix_decode_touch_def get_le16_ok goodix_consts Let_def)
  ultimately show ?thesis using c by blast
qed

theorem goodix_decoders_safe_witness:
  "goodix_parse_ic_info (replicate 64 1) 64 \<noteq> None"
  using goodix_decoders_safe [of 64 "replicate 64 1" 0] by simp

section \<open>Round trips\<close>

text \<open>A packet with its checksum, as the controller sends it.\<close>

definition sealed :: "u8 list \<Rightarrow> u8 list" where
  "sealed bs = bs @ [ucast (byte_sum bs), ucast (drop_bit 8 (byte_sum bs))]"

lemma le16_split: "ucast (ucast w :: u8) OR push_bit 8 (ucast (ucast (drop_bit 8 w) :: u8)) = (w :: u16)"
  by (rule bit_word_eqI) (auto simp: bit_simps)

lemma sealed_valid:
  assumes "drop off d = sealed bs @ rest"
  shows "goodix_checksum_valid d off (length bs + 2) = Some True"
proof -
  let ?s = "byte_sum bs"
  have "length (drop off d) = length bs + 2 + length rest" using assms by (simp add: sealed_def)
  then have len: "off + (length bs + 2) \<le> length d" by simp
  have nth: "d ! (off + i) = (sealed bs @ rest) ! i" if "i < length bs + 2" for i
    using assms len that by (metis nth_drop add_leD1)
  have "d ! (off + length bs) = ucast ?s" "d ! (off + length bs + 1) = ucast (drop_bit 8 ?s)"
    using nth [of "length bs"] nth [of "length bs + 1"] by (simp_all add: sealed_def nth_append)
  moreover have "take (length bs) (drop off d) = bs" using assms by (simp add: sealed_def)
  ultimately show ?thesis using checksum_valid_ok [OF len] le16_split [of ?s] by simp
qed

definition enc_table :: "u8 list \<Rightarrow> u8 list" where
  "enc_table t = of_nat (length t div 2) # t"

definition table_ok :: "u8 list \<Rightarrow> bool" where
  "table_ok t \<longleftrightarrow> even (length t) \<and> length t < 512"

lemma skip_tables_enc:
  assumes "drop off d = concat (map enc_table ts) @ rest" "list_all table_ok ts"
    and "off + length (concat (map enc_table ts)) \<le> len - 2" "len \<le> length d" "2 \<le> len"
    and "off + length (concat (map enc_table ts)) < 2 ^ 64"
  shows "skip_tables (length ts) d len off = Some (Some (off + length (concat (map enc_table ts))))"
  using assms
proof (induction ts arbitrary: off)
  case (Cons t ts)
  have "drop off d \<noteq> []" using Cons.prems(1) by (simp add: enc_table_def)
  then have "off < length d" by simp
  moreover have d: "drop off d = of_nat (length t div 2) # t @ concat (map enc_table ts) @ rest"
    using Cons.prems(1) by (simp add: enc_table_def [of t])
  ultimately have c: "byte_at d off = Some (of_nat (length t div 2))" by (metis byte_at_ok nth_via_drop)
  have b: "unat (of_nat (length t div 2) :: u8) * 2 = length t"
  proof -
    have "even (length t)" "length t div 2 < 2 ^ 8" using Cons.prems(2) by (auto simp: table_ok_def)
    then show ?thesis by (simp add: unsigned_of_nat take_bit_nat_eq_self)
  qed
  have "drop (off + 1 + length t) d = drop (length t) (drop 1 (drop off d))" by (simp add: add.commute)
  also have "\<dots> = concat (map enc_table ts) @ rest" by (simp add: d)
  finally have "skip_tables (length ts) d len (off + 1 + length t) =
      Some (Some (off + 1 + length t + length (concat (map enc_table ts))))"
    using Cons.prems by (intro Cons.IH) (simp_all add: enc_table_def [of t])
  moreover have "off < len - 2" "length t \<le> len - 2 - (off + 1)" using Cons.prems(3) by (simp_all add: enc_table_def [of t])
  moreover have "size_add off 1 = off + 1" "size_add (off + 1) (length t) = off + 1 + length t"
    using Cons.prems(6) by (simp_all add: enc_table_def [of t] size_add_eq)
  ultimately show ?case using c b Cons.prems(5) by (simp add: Let_def enc_table_def [of t])
qed simp

lemma tables_length: "list_all table_ok ts \<Longrightarrow> length (concat (map enc_table ts)) \<le> 512 * length ts"
  by (induction ts) (auto simp: table_ok_def enc_table_def)

text \<open>
  C40. Chip information round-trips: a block of 36 header bytes, five tables of at most 255 words and a misc structure of
  at least 48 bytes, sealed with its checksum, is parsed to the non-zero address at byte 44 of the
  misc structure, however long the tables are and whatever follows the block in the buffer.
\<close>

theorem ic_info_roundtrip:
  assumes "length hdr = 36" "length ts = 5" "list_all table_ok ts" "48 \<le> length misc" "le32 (drop 44 misc) = a" "a \<noteq> 0"
    and "body = hdr @ concat (map enc_table ts) @ misc"
  shows "goodix_parse_ic_info (sealed body @ rest) (length body + 2) = Some (Some a)"
proof -
  let ?d = "sealed body @ rest" and ?t = "concat (map enc_table ts)"
  have len: "length body = 36 + length ?t + length misc" using assms(1,7) by simp
  have ok: "goodix_checksum_valid ?d 0 (length body + 2) = Some True" by (rule sealed_valid) simp
  have "drop 36 ?d = ?t @ (misc @ [ucast (byte_sum body), ucast (drop_bit 8 (byte_sum body))] @ rest)"
    using assms(1,7) by (simp add: sealed_def)
  from skip_tables_enc [OF this assms(3), of "length body + 2"] len assms(2) tables_length [OF assms(3)]
  have sk: "skip_tables 5 ?d (length body + 2) 36 = Some (Some (36 + length ?t))" by (simp add: sealed_def)
  have "drop (36 + length ?t + 44) ?d = drop 44 misc @ [ucast (byte_sum body), ucast (drop_bit 8 (byte_sum body))] @ rest"
    using assms(1,4,7) by (simp add: sealed_def)
  moreover have "le32 (drop 44 misc @ xs) = le32 (drop 44 misc)" for xs
    using assms(4) by (simp add: le32_def nth_append)
  ultimately have "get_le32 ?d (36 + length ?t + 44) = Some a"
    using get_le32_ok [of "36 + length ?t + 44" ?d] len assms(4,5) by (simp add: sealed_def)
  with ok sk len assms(4,6) show ?thesis by (simp add: goodix_parse_ic_info_def)
qed

theorem ic_info_roundtrip_witness:
  "goodix_parse_ic_info (sealed (replicate 36 0 @ concat (map enc_table [[], [1, 2], [], [], []]) @ replicate 44 0 @ [0x34, 0x12, 1, 0]) @ []) 93 =
     Some (Some 0x11234)"
  using ic_info_roundtrip [where hdr = "replicate 36 0" and ts = "[[], [1, 2], [], [], []]" and
      misc = "replicate 44 0 @ [0x34, 0x12, 1, 0]" and a = "0x11234" and rest = "[]", OF _ _ _ _ _ _ refl]
  by (simp add: table_ok_def le32_def enc_table_def)

text \<open>A touch record and its encoding.\<close>

definition enc_touch :: "goodix_touch \<Rightarrow> u8 list" where
  "enc_touch t = [tc_status t, tc_reserved t, ucast (tc_x t), ucast (drop_bit 8 (tc_x t)),
     ucast (tc_y t), ucast (drop_bit 8 (tc_y t)), ucast (tc_w t), ucast (drop_bit 8 (tc_w t))]"

lemma length_enc_touch [simp]: "length (enc_touch t) = 8"
  by (simp add: enc_touch_def)

lemma length_enc_touches [simp]: "length (concat (map enc_touch ts)) = 8 * length ts"
  by (induction ts) simp_all

lemma decode_touch_enc:
  assumes "drop off d = concat (map enc_touch ts) @ rest" "i < length ts" "length ts \<le> 10" "8 * length ts \<le> sz"
  shows "goodix_decode_touch d off sz i = Some (Some (ts ! i))"
proof -
  let ?p = "off + i * 8"
  have "drop ?p d = drop (8 * i) (concat (map enc_touch ts)) @ drop (8 * i - 8 * length ts) rest"
  proof -
    have "drop ?p d = drop (8 * i) (drop off d)" by (simp add: mult.commute add.commute)
    then show ?thesis using assms(1) by simp
  qed
  also have "drop (8 * i) (concat (map enc_touch ts)) = concat (map enc_touch (drop i ts))"
    using assms(2)
  proof (induction i arbitrary: ts)
    case (Suc i)
    then obtain u us where u: "ts = u # us" by (cases ts) auto
    with Suc show ?case by simp
  qed simp
  also have "drop i ts = ts ! i # drop (Suc i) ts" using assms(2) by (simp add: Cons_nth_drop_Suc)
  finally obtain xs where xs: "drop ?p d = enc_touch (ts ! i) @ xs" by simp
  have len: "?p + 8 \<le> length d"
  proof -
    have "length (drop ?p d) = 8 + length xs" using xs by (simp add: enc_touch_def)
    then show ?thesis by simp
  qed
  have nth: "d ! (?p + k) = (enc_touch (ts ! i) @ xs) ! k" if "k < 8" for k
    using xs len that by (metis nth_drop add_leD1)
  have b: "byte_at d (?p + k) = Some (enc_touch (ts ! i) ! k)" if "k < 8" for k
    using nth [OF that] len that by (simp add: byte_at_def nth_append)
  have "get_le16 d (?p + k) = Some (ucast (enc_touch (ts ! i) ! k) OR push_bit 8 (ucast (enc_touch (ts ! i) ! (k + 1))))"
    if "k + 1 < 8" for k
    using b [of k] b [of "k + 1"] that by (simp add: get_le16_def)
  from this [of 2] this [of 4] this [of 6] b [of 0] b [of 1] assms(2-4) show ?thesis
    by (simp add: goodix_decode_touch_def goodix_consts enc_touch_def le16_split mult.commute)
qed

end
