(* ===== verification/Q8b_Geni.thy ===== *)
theory Q8b_Geni
  imports Interfaces
begin

text \<open>
  The serial engine (GENI) of the Q8B board as its drivers use it: the register numbers that the SPI transfer of
  \<^verbatim>\<open>src/q8b/system/drivers/goodixd/goodixd.c\<close> and the console of \<^verbatim>\<open>src/q8b/system/drivers/uartd/uartd.c\<close> share (both files
  define them with the same values), and the packing of up to four bytes in a FIFO word, the lowest
  byte first.
\<close>

type_synonym regs = "nat \<Rightarrow> u32"

definition SE_GENI_CGC_CTRL :: nat where "SE_GENI_CGC_CTRL = 0x028"
definition GENI_OUTPUT_CTRL :: nat where "GENI_OUTPUT_CTRL = 0x024"
definition SE_GENI_DMA_MODE_EN :: nat where "SE_GENI_DMA_MODE_EN = 0x258"
definition SE_GENI_BYTE_GRAN :: nat where "SE_GENI_BYTE_GRAN = 0x254"
definition SE_GENI_M_CMD0 :: nat where "SE_GENI_M_CMD0 = 0x600"
definition SE_GENI_M_CMD_CTRL_REG :: nat where "SE_GENI_M_CMD_CTRL_REG = 0x604"
definition SE_GENI_M_IRQ_EN :: nat where "SE_GENI_M_IRQ_EN = 0x614"
definition SE_GENI_M_IRQ_CLEAR :: nat where "SE_GENI_M_IRQ_CLEAR = 0x618"
definition SE_GENI_TX_WATERMARK_REG :: nat where "SE_GENI_TX_WATERMARK_REG = 0x80c"
definition SE_GENI_RX_WATERMARK_REG :: nat where "SE_GENI_RX_WATERMARK_REG = 0x810"
definition SE_GENI_RX_RFR_WATERMARK_REG :: nat where "SE_GENI_RX_RFR_WATERMARK_REG = 0x814"
definition SE_GENI_TX_PACKING_CFG0 :: nat where "SE_GENI_TX_PACKING_CFG0 = 0x260"
definition SE_GENI_TX_PACKING_CFG1 :: nat where "SE_GENI_TX_PACKING_CFG1 = 0x264"
definition SE_GENI_RX_PACKING_CFG0 :: nat where "SE_GENI_RX_PACKING_CFG0 = 0x284"
definition SE_GENI_RX_PACKING_CFG1 :: nat where "SE_GENI_RX_PACKING_CFG1 = 0x288"
definition M_OPCODE_SHIFT :: nat where "M_OPCODE_SHIFT = 27"

section \<open>FIFO words\<close>

definition word_bytes :: "nat \<Rightarrow> u32 \<Rightarrow> u8 list" where
  "word_bytes n w = map (\<lambda>i. ucast (drop_bit (8 * i) w)) [0..<n]"

text \<open>The packing loop of a sender, for at most four bytes.\<close>

definition word_of_bytes :: "u8 list \<Rightarrow> u32" where
  "word_of_bytes data = fold (\<lambda>i w. w OR push_bit (i * 8) (ucast (data ! i))) [0..<length data] 0"

lemma word_bytes_of_bytes:
  assumes "length data \<le> 4"
  shows "word_bytes (length data) (word_of_bytes data) = data"
proof -
  have "ucast (drop_bit (8 * i) (word_of_bytes data)) = data ! i" if "i < length data" for i
  proof (rule bit_word_eqI)
    fix n assume n: "n < LENGTH(8)"
    have b: "bit (fold (\<lambda>i w. w OR push_bit (i * 8) (ucast (data ! i))) [0..<k] (0 :: u32)) m \<longleftrightarrow>
        m div 8 < k \<and> bit (data ! (m div 8)) (m mod 8)" if "m < 32" "k \<le> 4" for k m
      using that(2)
    proof (induction k)
      case (Suc k)
      have "bit (push_bit (k * 8) (ucast (data ! k)) :: u32) m \<longleftrightarrow> m div 8 = k \<and> bit (data ! k) (m mod 8)"
      proof (cases "m div 8 = k")
        case True
        then have "m - k * 8 = m mod 8" "k * 8 \<le> m" by (auto simp: minus_div_mult_eq_mod)
        moreover have "m mod 8 < 32" by (rule less_trans [of _ 8]) simp_all
        ultimately show ?thesis using True \<open>m < 32\<close> by (simp add: bit_push_bit_iff bit_ucast_iff)
      next
        case False
        then have "m < k * 8 \<or> 8 \<le> m - k * 8" using div_nat_eqI [of 8 k m] by (cases "m < k * 8") simp_all
        then have "\<not> (k * 8 \<le> m \<and> bit (data ! k) (m - k * 8))" using bit_imp_le_length [of "data ! k" "m - k * 8"] by auto
        then show ?thesis using False by (auto simp: bit_push_bit_iff bit_ucast_iff)
      qed
      with Suc show ?case by (auto simp: bit_or_iff less_Suc_eq)
    qed simp
    show "bit (ucast (drop_bit (8 * i) (word_of_bytes data)) :: u8) n \<longleftrightarrow> bit (data ! i) n"
      using b [of "8 * i + n" "length data"] assms that n
      by (simp add: word_of_bytes_def bit_ucast_iff bit_drop_bit_eq)
  qed
  then show ?thesis by (auto simp: word_bytes_def intro: nth_equalityI)
qed

end
