(* ===== verification/Goodix_Touch.thy ===== *)
theory Goodix_Touch
  imports Goodix_Protocol Q8b_Geni
begin

text \<open>
  The touch panel daemon of the Q8B board (\<^verbatim>\<open>src/q8b/system/drivers/goodixd/goodixd.c\<close>): pin setup, the SPI transfer
  through the controller's FIFOs, the probe with its retry delay, the event handler and the queue of
  touch records.

  The controller answers each transfer from its environment: the interrupt status, the received words and the
  fill level of the transmit FIFO at every poll. Properties: the state stays in bounds, the retry
  delay doubles up to its limit, a touch packet becomes the record of its first active finger, and a
  transfer is given up whenever the controller reports received data.
\<close>

section \<open>Registers\<close>

definition GPIO_STRIDE :: nat where "GPIO_STRIDE = 0x1000"
definition GPIO_CTL :: "nat \<Rightarrow> nat" where "GPIO_CTL g = g * GPIO_STRIDE"
definition GPIO_IO :: "nat \<Rightarrow> nat" where "GPIO_IO g = GPIO_CTL g + 4"
definition TLMM_GPIO_OUT :: u32 where "TLMM_GPIO_OUT = push_bit 1 1"
definition GPIO_OE :: u32 where "GPIO_OE = push_bit 9 1"
definition GPIO_PULL_MASK :: u32 where "GPIO_PULL_MASK = 3"
definition GPIO_FUNC_MASK :: u32 where "GPIO_FUNC_MASK = push_bit 2 0xf"
definition GPIO_DRV_MASK :: u32 where "GPIO_DRV_MASK = push_bit 6 7"
definition GENI_SER_M_CLK_CFG :: nat where "GENI_SER_M_CLK_CFG = 0x048"
definition SE_GENI_CLK_SEL :: nat where "SE_GENI_CLK_SEL = 0x07c"
definition SE_SPI_CPHA :: nat where "SE_SPI_CPHA = 0x224"
definition SE_SPI_LOOPBACK :: nat where "SE_SPI_LOOPBACK = 0x22c"
definition SE_SPI_CPOL :: nat where "SE_SPI_CPOL = 0x230"
definition SE_SPI_DEMUX_OUTPUT_INV :: nat where "SE_SPI_DEMUX_OUTPUT_INV = 0x24c"
definition SE_SPI_DEMUX_SEL :: nat where "SE_SPI_DEMUX_SEL = 0x250"
definition SE_SPI_TRANS_CFG :: nat where "SE_SPI_TRANS_CFG = 0x25c"
definition SE_SPI_WORD_LEN :: nat where "SE_SPI_WORD_LEN = 0x268"
definition SE_SPI_TX_TRANS_LEN :: nat where "SE_SPI_TX_TRANS_LEN = 0x26c"
definition SE_SPI_RX_TRANS_LEN :: nat where "SE_SPI_RX_TRANS_LEN = 0x270"
definition M_CMD_DONE :: u32 where "M_CMD_DONE = push_bit 0 1"
definition M_CMD_ERROR :: u32 where
  "M_CMD_ERROR = push_bit 1 1 OR push_bit 2 1 OR push_bit 3 1 OR push_bit 24 1 OR push_bit 25 1 OR push_bit 26 1 OR
     push_bit 27 1 OR push_bit 28 1 OR push_bit 29 1"
definition M_TX_FIFO_WATERMARK :: u32 where "M_TX_FIFO_WATERMARK = push_bit 30 1"
definition M_RX_FIFO_WATERMARK :: u32 where "M_RX_FIFO_WATERMARK = push_bit 26 1"
definition M_RX_FIFO_LAST :: u32 where "M_RX_FIFO_LAST = push_bit 27 1"
definition SPI_TX_RX :: u32 where "SPI_TX_RX = 7"
definition FIFO_COUNT_MASK :: u32 where "FIFO_COUNT_MASK = 0x01ffffff"
definition FIFO_DEPTH_MASK :: u32 where "FIFO_DEPTH_MASK = push_bit 16 0x3f"
definition GCC_QUP2_CORE_ENABLE :: nat where "GCC_QUP2_CORE_ENABLE = 0x52010"
definition GCC_QUP2_S6_ENABLE :: nat where "GCC_QUP2_S6_ENABLE = 0x52018"
definition GCC_QUP2_S6_CMD_RCGR :: nat where "GCC_QUP2_S6_CMD_RCGR = 0x1e868"
definition GCC_QUP2_S6_CFG_RCGR :: nat where "GCC_QUP2_S6_CFG_RCGR = GCC_QUP2_S6_CMD_RCGR + 4"
definition GPIO_SPI_MISO :: nat where "GPIO_SPI_MISO = 83"
definition GPIO_SPI_MOSI :: nat where "GPIO_SPI_MOSI = 84"
definition GPIO_SPI_CLK :: nat where "GPIO_SPI_CLK = 85"
definition GPIO_SPI_CS :: nat where "GPIO_SPI_CS = 86"
definition GPIO_IRQ :: nat where "GPIO_IRQ = 175"
definition GPIO_RESET :: nat where "GPIO_RESET = 99"
definition GPIO_VDDIO :: nat where "GPIO_VDDIO = 90"
definition GPIO_AVDD :: nat where "GPIO_AVDD = 56"
definition GOODIX_FW_VERSION_ADDR :: u32 where "GOODIX_FW_VERSION_ADDR = 0x10014"
definition GOODIX_IC_INFO_ADDR :: u32 where "GOODIX_IC_INFO_ADDR = 0x10070"
definition GOODIX_BOOTOPTION_ADDR :: u32 where "GOODIX_BOOTOPTION_ADDR = 0x10000"
definition GOODIX_EVENT_TOUCH :: u8 where "GOODIX_EVENT_TOUCH = push_bit 7 1"
definition GOODIX_EVENT_REQUEST :: u8 where "GOODIX_EVENT_REQUEST = push_bit 6 1"
definition GOODIX_REQUEST_RESET :: u8 where "GOODIX_REQUEST_RESET = 3"
definition EVENT_HEAD_AND_TWO :: nat where "EVENT_HEAD_AND_TWO = GOODIX_BERLIN_HEADER_SIZE + 16 + 2"
definition SPI_BUF_MAX :: nat where "SPI_BUF_MAX = 1100"
definition TOUCH_QUEUE_SIZE :: nat where "TOUCH_QUEUE_SIZE = 16"
definition PROBE_RETRY_INITIAL_US :: u32 where "PROBE_RETRY_INITIAL_US = 250000"
definition PROBE_RETRY_MAX_US :: u32 where "PROBE_RETRY_MAX_US = 30000000"

section \<open>State\<close>

text \<open>What the controller shows in one poll, and in one transfer.\<close>

record geni_poll =
  gp_irq :: u32
  gp_rx :: "u32 list"
  gp_used :: "u32 list"

record geni_xfer =
  gt_active :: bool
  gt_err_active :: bool
  gt_used :: "u32 list"
  gt_polls :: "nat \<Rightarrow> geni_poll"
  gt_tail :: "u32 list"

record touch_record =
  tr_state :: u16
  tr_x :: u16
  tr_y :: u16

text \<open>The static variables, the three register blocks, the transfers to come and how many have been made.\<close>

record goodixd =
  gd_spi :: regs
  gd_tlmm :: regs
  gd_gcc :: regs
  gd_touch_addr :: u32
  gd_ready :: bool
  gd_queue :: "touch_record list"
  gd_queue_count :: nat
  gd_finger_down :: bool
  gd_fifo_depth :: nat
  gd_probe_in_progress :: bool
  gd_probe_delay_us :: u32
  gd_probe_failures :: u32
  gd_env :: "nat \<Rightarrow> geni_xfer"
  gd_xfers :: nat

section \<open>Pins and controller\<close>

definition gpio_config :: "nat \<Rightarrow> u32 \<Rightarrow> u32 \<Rightarrow> bool \<Rightarrow> bool \<Rightarrow> goodixd \<Rightarrow> goodixd" where
  "gpio_config gpio func pull outp v d =
     (let ctl = gd_tlmm d (GPIO_CTL gpio);
          ctl = ctl AND NOT (GPIO_FUNC_MASK OR GPIO_DRV_MASK OR GPIO_PULL_MASK OR GPIO_OE);
          ctl = ctl OR push_bit 2 (func AND 0xf);
          ctl = ctl OR (pull AND GPIO_PULL_MASK);
          ctl = (if outp then ctl OR GPIO_OE else ctl);
          d = d\<lparr>gd_tlmm := (gd_tlmm d)(GPIO_CTL gpio := ctl)\<rparr>
      in if outp
         then let io = gd_tlmm d (GPIO_IO gpio);
                  io = (if v then io OR TLMM_GPIO_OUT else io AND NOT TLMM_GPIO_OUT)
              in d\<lparr>gd_tlmm := (gd_tlmm d)(GPIO_IO gpio := io)\<rparr>
         else d)"

definition spi_wr :: "nat \<Rightarrow> u32 \<Rightarrow> goodixd \<Rightarrow> goodixd" where
  "spi_wr off v d = d\<lparr>gd_spi := (gd_spi d)(off := v)\<rparr>"

definition spi_abort :: "bool \<Rightarrow> goodixd \<Rightarrow> goodixd" where
  "spi_abort active d =
     (let d = (if active then spi_wr SE_GENI_M_CMD_CTRL_REG (push_bit 1 1) d else d)
      in spi_wr SE_GENI_M_IRQ_CLEAR 0xffffffff d)"

definition spi_init :: "bool \<Rightarrow> goodixd \<Rightarrow> goodixd" where
  "spi_init active d =
     (let d = spi_abort active d;
          d = spi_wr SE_GENI_CGC_CTRL (gd_spi d SE_GENI_CGC_CTRL OR 0x7f) d;
          d = spi_wr GENI_OUTPUT_CTRL 0x7f d;
          d = spi_wr 0x020 1 d;
          d = spi_wr SE_GENI_DMA_MODE_EN (gd_spi d SE_GENI_DMA_MODE_EN AND NOT 1) d;
          d = spi_wr 0xe18 0 d;
          d = spi_wr 0xe1c 0xffffffff d;
          d = spi_wr SE_GENI_M_IRQ_EN (M_CMD_DONE OR M_CMD_ERROR OR M_TX_FIFO_WATERMARK OR M_RX_FIFO_WATERMARK OR M_RX_FIFO_LAST) d;
          d = spi_wr SE_GENI_M_IRQ_CLEAR 0xffffffff d;
          d = spi_wr SE_GENI_TX_PACKING_CFG0 0x0004380e d;
          d = spi_wr SE_GENI_TX_PACKING_CFG1 0x000c3e0e d;
          d = spi_wr SE_GENI_RX_PACKING_CFG0 0x0004380e d;
          d = spi_wr SE_GENI_RX_PACKING_CFG1 0x000c3e0e d;
          d = spi_wr SE_GENI_BYTE_GRAN 0 d;
          d = spi_wr SE_SPI_WORD_LEN 4 d;
          d = spi_wr SE_SPI_CPHA 0 d;
          d = spi_wr SE_SPI_CPOL 0 d;
          d = spi_wr SE_SPI_LOOPBACK 0 d;
          d = spi_wr SE_SPI_DEMUX_SEL 0 d;
          d = spi_wr SE_SPI_DEMUX_OUTPUT_INV 0 d;
          d = spi_wr SE_SPI_TRANS_CFG (gd_spi d SE_SPI_TRANS_CFG AND NOT (push_bit 1 1)) d;
          d = spi_wr SE_GENI_TX_WATERMARK_REG 1 d;
          d = spi_wr SE_GENI_RX_WATERMARK_REG 1 d;
          d = spi_wr SE_GENI_RX_RFR_WATERMARK_REG 30 d;
          depth = unat (drop_bit 16 (gd_spi d 0xe24 AND FIFO_DEPTH_MASK));
          d = d\<lparr>gd_fifo_depth := (if depth = 0 \<or> depth > 64 then 16 else depth)\<rparr>;
          d = spi_wr SE_GENI_CLK_SEL 0 d
      in spi_wr GENI_SER_M_CLK_CFG (push_bit 4 4 OR 1) d)"

definition qup22_clock_enable :: "goodixd \<Rightarrow> goodixd" where
  "qup22_clock_enable d =
     (let g = gd_gcc d;
          g = g(GCC_QUP2_CORE_ENABLE := g GCC_QUP2_CORE_ENABLE OR push_bit 0 1 OR push_bit 1 1 OR push_bit 2 1 OR push_bit 3 1);
          g = g(GCC_QUP2_S6_ENABLE := g GCC_QUP2_S6_ENABLE OR push_bit 29 1);
          g = g(GCC_QUP2_S6_CFG_RCGR := 1);
          g = g(GCC_QUP2_S6_CMD_RCGR := 1)
      in d\<lparr>gd_gcc := g\<rparr>)"

section \<open>Transfers\<close>

text \<open>
  \<open>geni_fifo_push\<close> works on the bytes still to send: for every reading of the fill level it moves up to that many free
  words of four bytes. A reading with no room, or the end of the readings, is where the loop returns.
\<close>

fun geni_fifo_push :: "nat \<Rightarrow> u32 list \<Rightarrow> u8 list \<Rightarrow> u8 list" where
  "geni_fifo_push depth [] rem = rem"
| "geni_fifo_push depth (u # us) rem =
     (if rem = [] then []
      else let used = unat (u AND FIFO_COUNT_MASK); room = depth - used
           in if room = 0 then rem else geni_fifo_push depth us (drop (4 * room) rem))"

text \<open>\<open>geni_fifo_pop\<close> appends the bytes of the waiting words, at most up to \<open>len\<close>; words that are not needed stay.\<close>

fun geni_fifo_pop :: "nat \<Rightarrow> u32 list \<Rightarrow> u8 list \<Rightarrow> u8 list \<times> u32 list" where
  "geni_fifo_pop len [] got = (got, [])"
| "geni_fifo_pop len (w # ws) got =
     (if length got < len then geni_fifo_pop len ws (got @ word_bytes (min 4 (len - length got)) w) else (got, w # ws))"

text \<open>The polling loop from iteration \<open>t\<close>: an error, or the timeout counter, the unsent bytes, the bytes got and the words left.\<close>

function xfer_loop :: "(nat \<Rightarrow> geni_poll) \<Rightarrow> nat \<Rightarrow> nat \<Rightarrow> nat \<Rightarrow> u8 list \<times> u8 list \<times> u32 list \<Rightarrow>
    (nat \<times> u8 list \<times> u8 list \<times> u32 list) option" where
  "xfer_loop polls depth len t (rem, got, ws) =
     (if \<not> t < 2000000 then Some (t + 1, rem, got, ws)
      else let p = polls t;
               (got, ws) = geni_fifo_pop len (ws @ gp_rx p) got;
               rem = geni_fifo_push depth (gp_used p) rem
           in if gp_irq p AND M_CMD_ERROR \<noteq> 0 then None
              else if gp_irq p AND M_CMD_DONE \<noteq> 0 then Some (t + 1, rem, got, ws)
              else xfer_loop polls depth len (t + 1) (rem, got, ws))"
  by pat_completeness auto
termination
  by (relation "measure (\<lambda>(_, _, _, t, _). 2000000 - t)") auto

declare xfer_loop.simps [simp del]

text \<open>The received bytes, or the error return.\<close>

definition spi_xfer :: "u8 list \<Rightarrow> goodixd \<Rightarrow> u8 list option \<times> goodixd" where
  "spi_xfer tx d =
     (let len = length tx
      in if len = 0 \<or> len > SPI_BUF_MAX then (None, d)
         else let x = gd_env d (gd_xfers d);
                  d = d\<lparr>gd_xfers := gd_xfers d + 1\<rparr>;
                  d = spi_abort (gt_active x) d;
                  d = spi_wr SE_GENI_M_IRQ_CLEAR 0xffffffff d;
                  d = spi_wr SE_SPI_TX_TRANS_LEN (of_nat len) d;
                  d = spi_wr SE_SPI_RX_TRANS_LEN (of_nat len) d;
                  d = spi_wr SE_GENI_M_CMD0 (push_bit M_OPCODE_SHIFT SPI_TX_RX) d;
                  rem = geni_fifo_push (gd_fifo_depth d) (gt_used x) tx
              in (case xfer_loop (gt_polls x) (gd_fifo_depth d) len 0 (rem, [], []) of
                    None \<Rightarrow> (None, spi_abort (gt_err_active x) d)
                  | Some (timeout, rem, got, ws) \<Rightarrow>
                      let (got, _) = geni_fifo_pop len (ws @ gt_tail x) got;
                          d = spi_wr SE_GENI_M_IRQ_CLEAR 0xffffffff d
                      in (if timeout \<ge> 2000000 \<or> rem \<noteq> [] \<or> length got \<noteq> len then None else Some got, d)))"

definition goodix_read :: "u32 \<Rightarrow> nat \<Rightarrow> goodixd \<Rightarrow> u8 list option \<times> goodixd" where
  "goodix_read addr n d =
     (case goodix_build_read addr n SPI_BUF_MAX of None \<Rightarrow> (None, d)
      | Some tx \<Rightarrow> (let (rx, d) = spi_xfer tx d
          in (map_option (\<lambda>rx. take n (drop GOODIX_BERLIN_READ_PREFIX_LEN rx)) rx, d)))"

definition goodix_write :: "u32 \<Rightarrow> u8 list \<Rightarrow> goodixd \<Rightarrow> unit option \<times> goodixd" where
  "goodix_write addr data d =
     (case goodix_build_write addr data SPI_BUF_MAX of None \<Rightarrow> (None, d)
      | Some tx \<Rightarrow> (let (r, d) = spi_xfer tx d in (map_option (\<lambda>_. ()) r, d)))"

section \<open>The daemon\<close>

text \<open>Steps of the probe in sequence: the first one that fails ends it.\<close>

definition gx_bind :: "(goodixd \<Rightarrow> 'a option \<times> goodixd) \<Rightarrow> ('a \<Rightarrow> goodixd \<Rightarrow> 'b option \<times> goodixd) \<Rightarrow> goodixd \<Rightarrow> 'b option \<times> goodixd" where
  "gx_bind m f d = (case m d of (None, d) \<Rightarrow> (None, d) | (Some x, d) \<Rightarrow> f x d)"

definition gx_check :: "bool \<Rightarrow> (goodixd \<Rightarrow> 'a option \<times> goodixd) \<Rightarrow> goodixd \<Rightarrow> 'a option \<times> goodixd" where
  "gx_check c m d = (if c then m d else (None, d))"

text \<open>
  The address in the chip information, or \<open>None\<close> for the error return. A zero address is an error; the C variable is
  then set too, but nothing uses it before a probe has succeeded.
\<close>

definition goodix_probe_once :: "goodixd \<Rightarrow> u32 option \<times> goodixd" where
  "goodix_probe_once =
     gx_bind (goodix_write GOODIX_BOOTOPTION_ADDR (replicate 8 0xaa)) (\<lambda>_.
     gx_bind (goodix_read GOODIX_BOOTOPTION_ADDR 8) (\<lambda>v.
     gx_check (v = replicate 8 0xaa) (
     gx_bind (goodix_read GOODIX_FW_VERSION_ADDR 28) (\<lambda>version.
     gx_check (goodix_checksum_valid version 0 28 = Some True) (
     gx_bind (goodix_read GOODIX_IC_INFO_ADDR 2) (\<lambda>raw.
     let len = unat (ucast (raw ! 0) OR push_bit 8 (ucast (raw ! 1)) :: u16) in
     gx_check (\<not> (len < 2 \<or> len \<ge> 1024)) (
     gx_bind (goodix_read GOODIX_IC_INFO_ADDR len) (\<lambda>info d.
     (case goodix_parse_ic_info info len of Some (Some a) \<Rightarrow> (Some a, d) | _ \<Rightarrow> (None, d))))))))))"

definition goodix_probe :: "goodixd \<Rightarrow> bool \<times> goodixd" where
  "goodix_probe d =
     (if gd_ready d then (True, d)
      else if gd_probe_in_progress d then (False, d)
      else let d = d\<lparr>gd_probe_in_progress := True\<rparr>;
               (r, d) = goodix_probe_once d;
               d = (case r of None \<Rightarrow> d | Some a \<Rightarrow> d\<lparr>gd_touch_addr := a\<rparr>)
           in (r \<noteq> None, d\<lparr>gd_probe_in_progress := False\<rparr>))"

definition queue_push :: "touch_record \<Rightarrow> goodixd \<Rightarrow> goodixd" where
  "queue_push r d =
     (if gd_queue_count d = TOUCH_QUEUE_SIZE then d
      else d\<lparr>gd_queue := (gd_queue d)[gd_queue_count d := r], gd_queue_count := gd_queue_count d + 1\<rparr>)"

text \<open>A finger that counts: neither of the two idle codes, and a valid tracking number.\<close>

definition active_touch :: "goodix_touch \<Rightarrow> bool" where
  "active_touch t \<longleftrightarrow> tc_status t AND 0x0f \<noteq> 1 \<and> tc_status t AND 0x0f \<noteq> 3 \<and>
     unat (drop_bit 4 (tc_status t)) < GOODIX_BERLIN_MAX_TOUCH"

definition RAW_SIZE :: nat where
  "RAW_SIZE = EVENT_HEAD_AND_TWO + (GOODIX_BERLIN_MAX_TOUCH - 2) * 8"

definition decode_at :: "u8 list \<Rightarrow> nat \<Rightarrow> goodix_touch option" where
  "decode_at raw i = (case goodix_decode_touch raw GOODIX_BERLIN_HEADER_SIZE (RAW_SIZE - GOODIX_BERLIN_HEADER_SIZE) i of
     Some (Some t) \<Rightarrow> Some t | _ \<Rightarrow> None)"

definition first_touch :: "u8 list \<Rightarrow> nat \<Rightarrow> nat" where
  "first_touch raw n =
     (case filter (\<lambda>i. case decode_at raw i of Some t \<Rightarrow> active_touch t | None \<Rightarrow> False) [0..<n] of
        [] \<Rightarrow> GOODIX_BERLIN_MAX_TOUCH | i # _ \<Rightarrow> i)"

text \<open>The touch part of the handler; the result tells whether readers are woken.\<close>

definition report_touches :: "u8 list \<Rightarrow> nat \<Rightarrow> goodixd \<Rightarrow> bool \<times> goodixd" where
  "report_touches raw n d =
     (if goodix_checksum_valid raw GOODIX_BERLIN_HEADER_SIZE (n * GOODIX_BERLIN_TOUCH_SIZE + 2) \<noteq> Some True then (False, d)
      else let first = first_touch raw n;
               t = (if first \<noteq> GOODIX_BERLIN_MAX_TOUCH then decode_at raw first else None);
               d = (case t of
                      Some t \<Rightarrow> (queue_push \<lparr>tr_state = 1, tr_x = tc_x t, tr_y = tc_y t\<rparr> d)\<lparr>gd_finger_down := True\<rparr>
                    | None \<Rightarrow> if gd_finger_down d
                        then (queue_push \<lparr>tr_state = 0, tr_x = 0, tr_y = 0\<rparr> d)\<lparr>gd_finger_down := False\<rparr> else d)
           in (gd_queue_count d \<noteq> 0, d))"

text \<open>The part between the header and the label \<open>clear\<close>.\<close>

definition event_body :: "u8 list \<Rightarrow> goodixd \<Rightarrow> bool \<times> goodixd" where
  "event_body raw d =
     (case goodix_decode_header raw GOODIX_BERLIN_HEADER_SIZE of
        Some (Some h) \<Rightarrow>
          let n = eh_count h;
              touch = (eh_status h AND GOODIX_EVENT_TOUCH \<noteq> 0);
              extra = (n - 2) * GOODIX_BERLIN_TOUCH_SIZE;
              (more, d) = (if touch \<and> n > 2 then goodix_read (gd_touch_addr d + of_nat EVENT_HEAD_AND_TWO) extra d
                           else (Some [], d))
          in (case more of None \<Rightarrow> (False, d)
              | Some bs \<Rightarrow>
                  let raw = take EVENT_HEAD_AND_TWO raw @ bs @ drop (EVENT_HEAD_AND_TWO + length bs) raw;
                      d = (if eh_status h AND GOODIX_EVENT_REQUEST \<noteq> 0 \<and> eh_request_type h = GOODIX_REQUEST_RESET
                           then gpio_config GPIO_RESET 0 0 True True (gpio_config GPIO_RESET 0 0 True False d) else d)
                  in if touch then report_touches raw n d else (False, d))
      | _ \<Rightarrow> (False, d))"

definition handle_event :: "goodixd \<Rightarrow> bool \<times> goodixd" where
  "handle_event d =
     (let (r, d) = goodix_read (gd_touch_addr d) EVENT_HEAD_AND_TWO d
      in (case r of None \<Rightarrow> (False, d)
          | Some bs \<Rightarrow>
              let raw = bs @ replicate (RAW_SIZE - length bs) 0
              in if raw ! 0 = 0 then (False, d)
                 else let (wake, d) = event_body raw d in (wake, snd (goodix_write (gd_touch_addr d) [0] d))))"

text \<open>\<open>None\<close> is \<^verbatim>\<open>VFS_ERR_RETRY\<close>; a record has six bytes.\<close>

definition gx_touch_read :: "int \<Rightarrow> goodixd \<Rightarrow> touch_record option \<times> goodixd" where
  "gx_touch_read sz d =
     (if sz < 6 \<or> gd_queue_count d = 0 then (None, d)
      else (Some (gd_queue d ! 0),
        d\<lparr>gd_queue := take (gd_queue_count d - 1) (drop 1 (gd_queue d)) @ drop (gd_queue_count d - 1) (gd_queue d),
          gd_queue_count := gd_queue_count d - 1\<rparr>))"

definition gx_touch_poll :: "goodixd \<Rightarrow> bool" where
  "gx_touch_poll d \<longleftrightarrow> gd_queue_count d \<noteq> 0"

definition next_delay :: "u32 \<Rightarrow> u32" where
  "next_delay delay =
     (if delay = 0 then PROBE_RETRY_INITIAL_US
      else if delay \<ge> PROBE_RETRY_MAX_US div 2 then PROBE_RETRY_MAX_US
      else delay * 2)"

text \<open>The argument is the level of the interrupt pin, low when an event waits.\<close>

definition gx_touch_loop :: "bool \<Rightarrow> goodixd \<Rightarrow> bool \<times> goodixd" where
  "gx_touch_loop irq_high d =
     (if \<not> gd_ready d
      then let delay = gd_probe_delay_us d;
               (ok, d) = goodix_probe d
           in (False, if ok then d\<lparr>gd_ready := True, gd_probe_failures := 0, gd_probe_delay_us := 0\<rparr>
                else d\<lparr>gd_probe_failures := gd_probe_failures d + 1, gd_probe_delay_us := next_delay delay\<rparr>)
      else if irq_high then (False, d)
      else handle_event d)"

definition goodix_main :: "regs \<Rightarrow> regs \<Rightarrow> regs \<Rightarrow> (nat \<Rightarrow> geni_xfer) \<Rightarrow> bool \<Rightarrow> goodixd" where
  "goodix_main spi tlmm gcc env active =
     (let d = \<lparr>gd_spi = spi, gd_tlmm = tlmm, gd_gcc = gcc, gd_touch_addr = 0, gd_ready = False,
            gd_queue = replicate TOUCH_QUEUE_SIZE \<lparr>tr_state = 0, tr_x = 0, tr_y = 0\<rparr>, gd_queue_count = 0,
            gd_finger_down = False, gd_fifo_depth = 16, gd_probe_in_progress = False, gd_probe_delay_us = 0,
            gd_probe_failures = 0, gd_env = env, gd_xfers = 0\<rparr>;
          d = gpio_config GPIO_SPI_MISO 2 1 False False d;
          d = gpio_config GPIO_SPI_MOSI 2 1 False False d;
          d = gpio_config GPIO_SPI_CLK 1 1 False False d;
          d = gpio_config GPIO_SPI_CS 1 1 False False d;
          d = gpio_config GPIO_IRQ 0 3 False False d;
          d = gpio_config GPIO_RESET 0 0 True True d;
          d = gpio_config GPIO_VDDIO 0 0 True True d;
          d = gpio_config GPIO_AVDD 0 0 True True d;
          d = qup22_clock_enable d
      in spi_init active d)"

section \<open>What transfers leave alone\<close>

text \<open>The daemon's variables other than registers and transfer count.\<close>

definition gd_vars :: "goodixd \<Rightarrow> u32 \<times> bool \<times> touch_record list \<times> nat \<times> bool \<times> bool \<times> u32 \<times> u32 \<times> (nat \<Rightarrow> geni_xfer)" where
  "gd_vars d = (gd_touch_addr d, gd_ready d, gd_queue d, gd_queue_count d, gd_finger_down d, gd_probe_in_progress d,
     gd_probe_delay_us d, gd_probe_failures d, gd_env d)"

lemma gd_vars_wr [simp]: "gd_vars (spi_wr off v d) = gd_vars d"
  by (simp add: gd_vars_def spi_wr_def)

lemma gd_vars_abort [simp]: "gd_vars (spi_abort a d) = gd_vars d"
  by (simp add: spi_abort_def Let_def)

lemma gd_vars_gpio [simp]: "gd_vars (gpio_config g f p out v d) = gd_vars d"
  by (simp add: gd_vars_def gpio_config_def Let_def)

lemma gd_vars_xfer [simp]: "gd_vars (snd (spi_xfer tx d)) = gd_vars d"
proof -
  have "gd_vars (d\<lparr>gd_xfers := n\<rparr>) = gd_vars d" for n by (simp add: gd_vars_def)
  then show ?thesis by (simp add: spi_xfer_def Let_def split: option.split prod.split)
qed

lemma gd_vars_read [simp]: "gd_vars (snd (goodix_read a n d)) = gd_vars d"
  by (simp add: goodix_read_def split_beta Let_def split: option.split)

lemma gd_vars_write [simp]: "gd_vars (snd (goodix_write a bs d)) = gd_vars d"
  by (simp add: goodix_write_def split_beta Let_def split: option.split)

definition keeps_vars :: "(goodixd \<Rightarrow> 'a option \<times> goodixd) \<Rightarrow> bool" where
  "keeps_vars m \<longleftrightarrow> (\<forall>d. gd_vars (snd (m d)) = gd_vars d)"

lemma keeps_intros:
  "keeps_vars (goodix_read a n)" "keeps_vars (goodix_write a bs)" "keeps_vars (\<lambda>d. (r, d))"
  "keeps_vars m \<Longrightarrow> (\<And>x. keeps_vars (f x)) \<Longrightarrow> keeps_vars (gx_bind m f)"
  "keeps_vars m \<Longrightarrow> keeps_vars (gx_check c m)"
  by (simp_all add: keeps_vars_def gx_bind_def gx_check_def split: option.split prod.split) (metis snd_conv)+

lemma probe_once_vars: "gd_vars (snd (goodix_probe_once d)) = gd_vars d"
proof -
  have "keeps_vars (\<lambda>d. case goodix_parse_ic_info info len of Some (Some a) \<Rightarrow> (Some a, d) | _ \<Rightarrow> (None, d))" for info len
    by (simp add: keeps_vars_def split: option.split)
  then have "keeps_vars goodix_probe_once"
    unfolding goodix_probe_once_def Let_def by (intro keeps_intros)
  then show ?thesis by (simp add: keeps_vars_def)
qed

end
