(* ===== verification/Goodix_Props.thy ===== *)
theory Goodix_Props
  imports Goodix_Touch
begin

text \<open>Properties of the touch panel daemon: its queue, its reachable states, its retry delay, what a touch packet becomes and
  why a controller that reports received data makes every transfer fail.\<close>

section \<open>The queue of records\<close>

definition gd_invar :: "goodixd \<Rightarrow> bool" where
  "gd_invar d \<longleftrightarrow> length (gd_queue d) = TOUCH_QUEUE_SIZE \<and> gd_queue_count d \<le> TOUCH_QUEUE_SIZE"

definition gd_contents :: "goodixd \<Rightarrow> touch_record list" where
  "gd_contents d = take (gd_queue_count d) (gd_queue d)"

lemma length_gd_contents: "gd_invar d \<Longrightarrow> length (gd_contents d) = gd_queue_count d"
  by (simp add: gd_invar_def gd_contents_def)

lemma queue_push_invar: "gd_invar d \<Longrightarrow> gd_invar (queue_push r d)"
  by (auto simp: gd_invar_def queue_push_def)

lemma queue_push_contents:
  "gd_invar d \<Longrightarrow> gd_contents (queue_push r d) = gd_contents d @ (if length (gd_contents d) < TOUCH_QUEUE_SIZE then [r] else [])"
  by (auto simp: gd_invar_def queue_push_def gd_contents_def take_Suc_conv_app_nth)

definition gx_pop :: "goodixd \<Rightarrow> (touch_record \<times> goodixd) option" where
  "gx_pop d = (case gx_touch_read 6 d of (None, _) \<Rightarrow> None | (Some r, d) \<Rightarrow> Some (r, d))"

lemma touch_read_contents:
  assumes "gd_invar d" "gd_contents d = r # rs" "6 \<le> sz"
  shows "\<exists>d'. gx_touch_read sz d = (Some r, d') \<and> gd_contents d' = rs \<and> gd_invar d'"
proof -
  obtain n where n: "gd_queue_count d = Suc n" using assms(2) by (cases "gd_queue_count d") (auto simp: gd_contents_def)
  obtain q qs where q: "gd_queue d = q # qs" using assms(1,2) by (cases "gd_queue d") (auto simp: gd_contents_def)
  have "n \<le> length qs" using assms(1) n q by (simp add: gd_invar_def)
  then show ?thesis
    using assms n q by (auto simp: gx_touch_read_def gd_contents_def gd_invar_def)
qed

interpretation gq: bounded_fifo gx_pop gd_contents gd_invar queue_push "\<lambda>_. TOUCH_QUEUE_SIZE" "\<lambda>_ _. True"
proof
  fix d r rs
  assume d: "gd_invar d"
  show "gx_pop d = None" if "gd_contents d = []"
    using that d length_gd_contents [OF d] by (simp add: gx_pop_def gx_touch_read_def)
  show "\<exists>d'. gx_pop d = Some (r, d') \<and> gd_contents d' = rs \<and> gd_invar d'" if "gd_contents d = r # rs"
    using touch_read_contents [OF d that, of 6] by (auto simp: gx_pop_def)
  show "length (gd_contents d) \<le> TOUCH_QUEUE_SIZE" using d by (simp add: length_gd_contents) (simp add: gd_invar_def)
qed (auto simp: queue_push_contents queue_push_invar)

section \<open>Reachable states\<close>

datatype gx_event = GLoop bool | GRead int

fun gx_step :: "gx_event \<Rightarrow> goodixd \<Rightarrow> goodixd" where
  "gx_step (GLoop irq) d = snd (gx_touch_loop irq d)"
| "gx_step (GRead sz) d = snd (gx_touch_read sz d)"

lemma gd_vars_invar: "gd_vars d = gd_vars d' \<Longrightarrow> gd_invar d = gd_invar d'"
  by (simp add: gd_vars_def gd_invar_def)

lemma gd_vars_contents: "gd_vars d = gd_vars d' \<Longrightarrow> gd_contents d = gd_contents d'"
  by (simp add: gd_vars_def gd_contents_def)

lemma probe_vars:
  assumes "goodix_probe d = (ok, d')" "\<not> gd_probe_in_progress d" "\<not> gd_ready d"
  shows "\<exists>a. gd_vars d' = gd_vars (d\<lparr>gd_touch_addr := a\<rparr>)"
proof -
  obtain r e where r: "goodix_probe_once (d\<lparr>gd_probe_in_progress := True\<rparr>) = (r, e)" by fastforce
  have "gd_vars e = gd_vars (d\<lparr>gd_probe_in_progress := True\<rparr>)" using probe_once_vars [of "d\<lparr>gd_probe_in_progress := True\<rparr>"] r by simp
  with r assms show ?thesis by (auto simp: goodix_probe_def gd_vars_def split: option.splits)
qed

lemma report_touches_eq:
  assumes "report_touches raw n d = (wake, d')" "gd_invar d"
  shows "gd_invar d' \<and> gd_ready d' = gd_ready d \<and> gd_probe_in_progress d' = gd_probe_in_progress d"
  using assms queue_push_invar
  by (auto simp: report_touches_def Let_def queue_push_def gd_invar_def split: if_splits option.splits)

lemma event_body_keeps:
  assumes "event_body raw d = (wake, d')" "gd_invar d"
  shows "gd_invar d' \<and> gd_ready d' = gd_ready d \<and> gd_probe_in_progress d' = gd_probe_in_progress d"
proof -
  have rd: "goodix_read a n d = (r, e) \<Longrightarrow> gd_vars e = gd_vars d" for a n r e using gd_vars_read [of a n d] by simp
  have g: "gd_invar (gpio_config g f p out v e) = gd_invar e \<and> gd_ready (gpio_config g f p out v e) = gd_ready e \<and>
      gd_probe_in_progress (gpio_config g f p out v e) = gd_probe_in_progress e" for g f p out v e
    using gd_vars_gpio [of g f p out v e] by (auto simp: gd_vars_def gd_invar_def)
  have k: "gd_invar e \<and> gd_ready e = gd_ready d \<and> gd_probe_in_progress e = gd_probe_in_progress d" if "gd_vars e = gd_vars d" for e
    using that assms(2) by (simp add: gd_vars_def gd_invar_def)
  show ?thesis
    using assms(1) k [OF rd] k [OF refl]
    by (auto simp: event_body_def Let_def g dest!: report_touches_eq split: option.splits if_splits prod.splits)
qed

lemma handle_event_keeps:
  assumes "gd_invar d"
  shows "gd_invar (snd (handle_event d)) \<and> gd_ready (snd (handle_event d)) = gd_ready d \<and>
     gd_probe_in_progress (snd (handle_event d)) = gd_probe_in_progress d"
proof -
  let ?k = "\<lambda>e. gd_invar e \<and> gd_ready e = gd_ready d \<and> gd_probe_in_progress e = gd_probe_in_progress d"
  have k: "gd_vars e = gd_vars e' \<Longrightarrow> ?k e' \<Longrightarrow> ?k e" for e e' by (simp add: gd_vars_def gd_invar_def)
  obtain r e where r: "goodix_read (gd_touch_addr d) EVENT_HEAD_AND_TWO d = (r, e)" by fastforce
  have e: "?k e" using gd_vars_read [of "gd_touch_addr d" EVENT_HEAD_AND_TWO d] r assms by (intro k [of e d]) simp_all
  have "?k (snd (goodix_write (gd_touch_addr f) [0] f))" if "event_body raw e = (w, f)" for raw w f
    using event_body_keeps [OF that] e by (intro k [OF gd_vars_write]) simp
  with r e show ?thesis by (auto simp: handle_event_def Let_def split: option.split prod.split)
qed

definition gx_good :: "goodixd \<Rightarrow> bool" where
  "gx_good d \<longleftrightarrow> gd_invar d \<and> \<not> gd_probe_in_progress d"

lemma loop_keeps:
  assumes "gx_good d"
  shows "gx_good (snd (gx_touch_loop irq d)) \<and> (gd_ready d \<longrightarrow> gd_ready (snd (gx_touch_loop irq d))) \<and>
     (\<not> gd_ready (snd (gx_touch_loop irq d)) \<longrightarrow> gd_probe_delay_us (snd (gx_touch_loop irq d)) = next_delay (gd_probe_delay_us d) \<and>
        gd_contents (snd (gx_touch_loop irq d)) = gd_contents d)"
proof (cases "gd_ready d")
  case True
  then show ?thesis using handle_event_keeps [of d] assms by (simp add: gx_touch_loop_def gx_good_def)
next
  case False
  obtain ok e where p: "goodix_probe d = (ok, e)" by fastforce
  have "\<not> gd_probe_in_progress d" using assms by (simp add: gx_good_def)
  from probe_vars [OF p this False] p False assms show ?thesis
    by (auto simp: gx_touch_loop_def gx_good_def gd_vars_def gd_invar_def gd_contents_def)
qed

lemma read_keeps:
  assumes "gx_good d"
  shows "gx_good (snd (gx_touch_read sz d)) \<and> gd_ready (snd (gx_touch_read sz d)) = gd_ready d \<and>
     gd_probe_delay_us (snd (gx_touch_read sz d)) = gd_probe_delay_us d"
  using assms by (auto simp: gx_touch_read_def gx_good_def gd_invar_def)

lemma gd_vars_depth [simp]: "gd_vars (d\<lparr>gd_fifo_depth := n\<rparr>) = gd_vars d"
  by (simp add: gd_vars_def)

lemma gd_vars_init [simp]: "gd_vars (spi_init a d) = gd_vars d"
  by (simp only: spi_init_def Let_def gd_vars_wr gd_vars_abort gd_vars_depth)

lemma gd_vars_clock [simp]: "gd_vars (qup22_clock_enable d) = gd_vars d"
  by (simp add: qup22_clock_enable_def Let_def gd_vars_def)

lemma main_vars:
  "gd_vars (goodix_main spi tlmm gcc env a) =
     (0, False, replicate TOUCH_QUEUE_SIZE \<lparr>tr_state = 0, tr_x = 0, tr_y = 0\<rparr>, 0, False, False, 0, 0, env)"
  by (simp only: goodix_main_def Let_def gd_vars_init gd_vars_clock gd_vars_gpio) (simp add: gd_vars_def)

interpretation gx: transition_system "\<lambda>d. \<exists>spi tlmm gcc env a. d = goodix_main spi tlmm gcc env a"
    "\<lambda>d e. \<exists>ev. e = gx_step ev d" gx_good
proof
  fix d
  assume "\<exists>spi tlmm gcc env a. d = goodix_main spi tlmm gcc env a"
  then obtain spi tlmm gcc env a where "d = goodix_main spi tlmm gcc env a" by blast
  with main_vars [of spi tlmm gcc env a] show "gx_good d" by (simp add: gx_good_def gd_invar_def gd_vars_def)
next
  fix d e
  assume "gx_good d" "\<exists>ev. e = gx_step ev d"
  then obtain ev where "e = gx_step ev d" by blast
  with \<open>gx_good d\<close> show "gx_good e" using loop_keeps [of d] read_keeps [of d] by (cases ev) auto
qed

lemma gx_good_run: "gx_good d \<Longrightarrow> gx_good (fold gx_step es d)"
proof (induction es arbitrary: d)
  case (Cons e es)
  then show ?case using gx.inv_step [of d "gx_step e d"] by auto
qed simp

section \<open>Retry delay\<close>

definition backoff :: "nat \<Rightarrow> nat" where
  "backoff k = (if k = 0 then 0 else min (250000 * 2 ^ (k - 1)) 30000000)"

lemma next_delay_backoff: "unat d = backoff k \<Longrightarrow> unat (next_delay d) = backoff (Suc k)"
proof -
  assume d: "unat d = backoff k"
  show ?thesis
  proof (cases "k = 0")
    case True
    then have "d = 0" using d by (simp add: backoff_def unat_eq_zero)
    then show ?thesis using True by (simp add: next_delay_def backoff_def PROBE_RETRY_INITIAL_US_def)
  next
    case False
    then obtain j where j: "k = Suc j" by (cases k) auto
    let ?v = "250000 * 2 ^ j :: nat"
    have d': "unat d = min ?v 30000000" using d j by (simp add: backoff_def)
    have "0 < ?v" by simp
    then have "d \<noteq> 0" using d' by (auto simp: min_def split: if_splits)
    have half: "d \<ge> PROBE_RETRY_MAX_US div 2 \<longleftrightarrow> 15000000 \<le> unat d"
      by (simp add: PROBE_RETRY_MAX_US_def word_le_nat_alt)
    have b: "backoff (Suc k) = min (2 * ?v) 30000000" using j by (simp add: backoff_def)
    show ?thesis
    proof (cases "15000000 \<le> unat d")
      case True
      with \<open>d \<noteq> 0\<close> half d' b show ?thesis by (auto simp: next_delay_def PROBE_RETRY_MAX_US_def min_def split: if_splits)
    next
      case False
      then have "unat d = ?v" using d' by (auto simp: min_def split: if_splits)
      moreover have "unat (d * 2) = unat d * 2" using False by (simp add: unat_word_ariths)
      ultimately show ?thesis using False \<open>d \<noteq> 0\<close> half b by (simp add: next_delay_def)
    qed
  qed
qed

fun loops :: "gx_event list \<Rightarrow> nat" where
  "loops [] = 0"
| "loops (GLoop _ # es) = Suc (loops es)"
| "loops (GRead _ # es) = loops es"

lemma ready_stays: "gx_good d \<Longrightarrow> gd_ready d \<Longrightarrow> gd_ready (fold gx_step es d)"
proof (induction es arbitrary: d)
  case (Cons e es)
  have "gx_good (gx_step e d) \<and> gd_ready (gx_step e d)"
    using Cons.prems loop_keeps [of d] read_keeps [of d] by (cases e) auto
  with Cons.IH show ?case by simp
qed simp

lemma backoff_run:
  assumes "gx_good d" "unat (gd_probe_delay_us d) = backoff k" "\<not> gd_ready (fold gx_step es d)"
  shows "unat (gd_probe_delay_us (fold gx_step es d)) = backoff (k + loops es)"
  using assms
proof (induction es arbitrary: d k)
  case (Cons e es)
  have g: "gx_good (gx_step e d)" using gx.inv_step [OF Cons.prems(1)] by blast
  then have nr: "\<not> gd_ready (gx_step e d)" using ready_stays [OF g, of es] Cons.prems(3) by auto
  show ?case
  proof (cases e)
    case (GLoop irq)
    then have "unat (gd_probe_delay_us (gx_step e d)) = backoff (Suc k)"
      using loop_keeps [OF Cons.prems(1), of irq] nr next_delay_backoff [OF Cons.prems(2)] by simp
    from Cons.IH [OF g this] Cons.prems(3) GLoop show ?thesis by simp
  next
    case (GRead sz)
    then have "unat (gd_probe_delay_us (gx_step e d)) = backoff k" using read_keeps [OF Cons.prems(1), of sz] Cons.prems(2) by simp
    from Cons.IH [OF g this] Cons.prems(3) GRead show ?thesis by simp
  qed
qed simp

lemma main_good: "gx_good (goodix_main spi tlmm gcc env a)"
  by (rule gx.inv_init) blast

section \<open>Transfers that report received data\<close>

lemma xfer_loop_success:
  "xfer_loop polls depth len t st = Some (k, rest) \<Longrightarrow>
     k \<ge> 2000000 \<or> (\<exists>u. gp_irq (polls u) AND M_CMD_DONE \<noteq> 0 \<and> gp_irq (polls u) AND M_CMD_ERROR = 0)"
proof (induction polls depth len t st rule: xfer_loop.induct)
  case (1 polls depth len t rem got ws)
  show ?case
  proof (cases "t < 2000000 \<and> gp_irq (polls t) AND M_CMD_ERROR = 0 \<and> gp_irq (polls t) AND M_CMD_DONE = 0")
    case True
    obtain got' ws' where f: "geni_fifo_pop len (ws @ gp_rx (polls t)) got = (got', ws')" by fastforce
    from "1.prems" True f
    have "xfer_loop polls depth len (t + 1) (geni_fifo_push depth (gp_used (polls t)) rem, got', ws') = Some (k, rest)"
      by (simp add: xfer_loop.simps [of polls depth len t] Let_def)
    with "1.IH" [OF _ refl f [symmetric] refl refl] True show ?thesis by simp
  next
    case False
    with "1.prems" show ?thesis
      by (auto simp: xfer_loop.simps [of polls depth len t] Let_def split: if_splits prod.splits)
  qed
qed

text \<open>
  The controller as it is set up: the receive watermark is one word and its interrupt is enabled, and the status keeps
  its bits until they are cleared; so a poll that sees the end of a transfer also sees that data was received.
\<close>

definition rx_reported :: "(nat \<Rightarrow> geni_xfer) \<Rightarrow> bool" where
  "rx_reported env \<longleftrightarrow> (\<forall>n t. gp_irq (gt_polls (env n) t) AND M_CMD_DONE \<noteq> 0 \<longrightarrow>
     gp_irq (gt_polls (env n) t) AND M_RX_FIFO_WATERMARK \<noteq> 0)"

lemma watermark_is_error: "w AND M_CMD_ERROR = 0 \<Longrightarrow> w AND M_RX_FIFO_WATERMARK = 0"
proof -
  assume w: "w AND M_CMD_ERROR = 0"
  have m: "M_RX_FIFO_WATERMARK = M_CMD_ERROR AND M_RX_FIFO_WATERMARK" by (simp add: M_CMD_ERROR_def M_RX_FIFO_WATERMARK_def)
  have "w AND M_RX_FIFO_WATERMARK = (w AND M_CMD_ERROR) AND M_RX_FIFO_WATERMARK" by (subst m) (simp only: and.assoc)
  then show ?thesis by (simp add: w)
qed

lemma xfer_fails:
  assumes "rx_reported (gd_env d)"
  shows "fst (spi_xfer tx d) = None"
proof -
  have "k \<ge> 2000000" if "xfer_loop (gt_polls (gd_env d n)) depth len 0 st = Some (k, rest)" for n depth len st k rest
    using xfer_loop_success [OF that] assms watermark_is_error by (auto simp: rx_reported_def)
  then show ?thesis
    by (auto simp: spi_xfer_def Let_def spi_wr_def spi_abort_def split: option.split prod.split)
qed

lemma probe_fails:
  assumes "rx_reported (gd_env d)"
  shows "fst (goodix_probe_once d) = None"
proof -
  obtain r e where "goodix_write GOODIX_BOOTOPTION_ADDR (replicate 8 0xaa) d = (r, e)" by fastforce
  moreover from this have "r = None"
    using xfer_fails [OF assms] by (auto simp: goodix_write_def split_beta Let_def split: option.splits)
  ultimately show ?thesis by (simp add: goodix_probe_once_def gx_bind_def)
qed

lemma step_not_ready:
  assumes "gx_good d" "rx_reported (gd_env d)" "\<not> gd_ready d"
  shows "\<not> gd_ready (gx_step e d) \<and> gd_env (gx_step e d) = gd_env d"
proof (cases e)
  case (GLoop irq)
  obtain r f where r: "goodix_probe_once (d\<lparr>gd_probe_in_progress := True\<rparr>) = (r, f)" by fastforce
  have "r = None" using probe_fails [of "d\<lparr>gd_probe_in_progress := True\<rparr>"] assms(2) r by simp
  moreover have "gd_vars f = gd_vars (d\<lparr>gd_probe_in_progress := True\<rparr>)" using probe_once_vars [of "d\<lparr>gd_probe_in_progress := True\<rparr>"] r by simp
  ultimately show ?thesis
    using assms(1,3) GLoop r by (auto simp: gx_touch_loop_def goodix_probe_def gx_good_def gd_vars_def)
qed (use assms in \<open>auto simp: gx_touch_read_def\<close>)

lemma never_ready_run:
  assumes "rx_reported env"
  shows "gx_good (fold gx_step es (goodix_main spi tlmm gcc env a)) \<and> \<not> gd_ready (fold gx_step es (goodix_main spi tlmm gcc env a)) \<and>
     gd_env (fold gx_step es (goodix_main spi tlmm gcc env a)) = env \<and> gd_contents (fold gx_step es (goodix_main spi tlmm gcc env a)) = []"
proof (induction es rule: rev_induct)
  case Nil
  then show ?case using main_good main_vars [of spi tlmm gcc env a] by (simp add: gd_vars_def gd_contents_def)
next
  case (snoc e es)
  let ?d = "fold gx_step es (goodix_main spi tlmm gcc env a)"
  have n: "\<not> gd_ready (gx_step e ?d) \<and> gd_env (gx_step e ?d) = env"
    using step_not_ready [of ?d e] snoc.IH assms by simp
  have "gd_contents (gx_step e ?d) = []"
  proof (cases e)
    case (GLoop irq)
    then show ?thesis using loop_keeps [of ?d irq] n snoc.IH by simp
  next
    case (GRead x)
    then show ?thesis using snoc.IH length_gd_contents [of ?d] by (simp add: gx_touch_read_def gx_good_def)
  qed
  with n snoc.IH gx.inv_step [of ?d "gx_step e ?d"] show ?case by auto
qed
text \<open>
  C31. With such a controller the touch panel is never found: the error mask of \<^verbatim>\<open>spi_xfer\<close> contains the receive-watermark
  bit, so every transfer that receives data is given up, and along every sequence of rounds and reads
  the daemon does not become ready and no reader ever gets a record.
\<close>

theorem goodix_never_ready:
  assumes "rx_reported env" "d = fold gx_step es (goodix_main spi tlmm gcc env a)"
  shows "\<not> gd_ready d \<and> fst (gx_touch_read sz d) = None"
  using never_ready_run [OF assms(1), of es spi tlmm gcc a] length_gd_contents [of d]
  by (simp add: assms(2) gx_touch_read_def gx_good_def)

definition demo_env :: "nat \<Rightarrow> geni_xfer" where
  "demo_env = (\<lambda>_. \<lparr>gt_active = False, gt_err_active = True, gt_used = [0, 0],
     gt_polls = (\<lambda>_. \<lparr>gp_irq = M_CMD_DONE OR M_RX_FIFO_WATERMARK, gp_rx = [0x12345678], gp_used = [0]\<rparr>), gt_tail = []\<rparr>)"

lemma demo_env_reports: "rx_reported demo_env"
  by (simp add: rx_reported_def demo_env_def M_CMD_DONE_def M_RX_FIFO_WATERMARK_def)

theorem goodix_never_ready_witness:
  "\<exists>d. d = fold gx_step [GLoop True, GLoop False] (goodix_main (\<lambda>_. 0) (\<lambda>_. 0) (\<lambda>_. 0) demo_env False) \<and>
     \<not> gd_ready d \<and> fst (gx_touch_read 6 d) = None"
  using goodix_never_ready [OF demo_env_reports refl, of "[GLoop True, GLoop False]" "\<lambda>_. 0" "\<lambda>_. 0" "\<lambda>_. 0" False 6] by blast

text \<open>
  The retry delay of the touch panel probe: along every sequence of rounds and reads after which the panel is still
  not found, the next probe waits 0.25 s doubled with every failed round, at most 30 s, and not at
  all before the first.
\<close>

theorem goodix_backoff:
  assumes "\<not> gd_ready (fold gx_step es (goodix_main spi tlmm gcc env a))"
  shows "unat (gd_probe_delay_us (fold gx_step es (goodix_main spi tlmm gcc env a))) = backoff (loops es)"
  using backoff_run [OF main_good _ assms, of 0] main_vars [of spi tlmm gcc env a] by (simp add: gd_vars_def backoff_def)

theorem goodix_backoff_witness:
  "unat (gd_probe_delay_us (fold gx_step [GLoop True, GRead 6, GLoop True, GLoop False]
     (goodix_main (\<lambda>_. 0) (\<lambda>_. 0) (\<lambda>_. 0) demo_env False))) = 1000000"
proof -
  have "\<not> gd_ready (fold gx_step [GLoop True, GRead 6, GLoop True, GLoop False]
     (goodix_main (\<lambda>_. 0) (\<lambda>_. 0) (\<lambda>_. 0) demo_env False))"
    using never_ready_run [OF demo_env_reports] by blast
  from goodix_backoff [OF this] show ?thesis by (simp add: backoff_def)
qed

section \<open>Touch packets\<close>

lemma first_active: "find active_touch ts = (case filter (\<lambda>i. active_touch (ts ! i)) [0..<length ts] of [] \<Rightarrow> None | i # _ \<Rightarrow> Some (ts ! i))"
proof -
  have "map ((!) ts) (filter (\<lambda>i. active_touch (ts ! i)) [0..<length ts]) = filter active_touch (map ((!) ts) [0..<length ts])"
    by (simp add: filter_map comp_def)
  then have "map ((!) ts) (filter (\<lambda>i. active_touch (ts ! i)) [0..<length ts]) = filter active_touch ts" by (simp only: map_nth)
  moreover have "find active_touch ts = (case filter active_touch ts of [] \<Rightarrow> None | t # _ \<Rightarrow> Some t)" by (induction ts) auto
  ultimately show ?thesis by (cases "filter (\<lambda>i. active_touch (ts ! i)) [0..<length ts]") (auto dest: sym)
qed

lemma first_touch_decoded:
  assumes "drop GOODIX_BERLIN_HEADER_SIZE raw = concat (map enc_touch ts) @ rest" "length ts \<le> GOODIX_BERLIN_MAX_TOUCH"
  shows "(if first_touch raw (length ts) \<noteq> GOODIX_BERLIN_MAX_TOUCH then decode_at raw (first_touch raw (length ts)) else None) =
     find active_touch ts"
proof -
  let ?f = "filter (\<lambda>i. active_touch (ts ! i)) [0..<length ts]"
  have d: "decode_at raw i = Some (ts ! i)" if "i < length ts" for i
    using decode_touch_enc [OF assms(1) that, of "RAW_SIZE - GOODIX_BERLIN_HEADER_SIZE"] assms(2)
    by (simp add: decode_at_def RAW_SIZE_def EVENT_HEAD_AND_TWO_def goodix_consts)
  have f: "filter (\<lambda>i. case decode_at raw i of Some t \<Rightarrow> active_touch t | None \<Rightarrow> False) [0..<length ts] = ?f"
    using d by (intro filter_cong) auto
  show ?thesis
  proof (cases ?f)
    case Nil
    then show ?thesis using f first_active [of ts] by (simp add: first_touch_def)
  next
    case (Cons i js)
    then have "i \<in> set ?f" by simp
    then have "i < length ts" by simp
    then show ?thesis using Cons f first_active [of ts] assms(2) d by (simp add: first_touch_def)
  qed
qed

text \<open>
  C23. What a touch packet becomes: for every packet with up to ten fingers and a correct checksum, a reader gets the position
  of the first active finger; if there is none and a finger was down, one release record, and
  otherwise nothing. Records that wait keep their order and one that finds sixteen waiting is dropped.
\<close>

theorem goodix_touch_report:
  assumes "gd_invar d" "length ts \<le> GOODIX_BERLIN_MAX_TOUCH"
    and "drop GOODIX_BERLIN_HEADER_SIZE raw = sealed (concat (map enc_touch ts)) @ rest"
    and "report_touches raw (length ts) d = (wake, d')"
  shows "gd_contents d' = take TOUCH_QUEUE_SIZE (gd_contents d @
       (case find active_touch ts of
          Some t \<Rightarrow> [\<lparr>tr_state = 1, tr_x = tc_x t, tr_y = tc_y t\<rparr>]
        | None \<Rightarrow> if gd_finger_down d then [\<lparr>tr_state = 0, tr_x = 0, tr_y = 0\<rparr>] else [])) \<and>
     gd_finger_down d' = (find active_touch ts \<noteq> None) \<and> wake = (gd_contents d' \<noteq> []) \<and> gd_invar d'"
proof -
  have c: "goodix_checksum_valid raw GOODIX_BERLIN_HEADER_SIZE (length ts * GOODIX_BERLIN_TOUCH_SIZE + 2) = Some True"
    using sealed_valid [OF assms(3)] by (simp add: goodix_consts mult.commute)
  obtain rest' where r: "drop GOODIX_BERLIN_HEADER_SIZE raw = concat (map enc_touch ts) @ rest'"
    using assms(3) by (simp add: sealed_def)
  have fd: "gd_contents (e\<lparr>gd_finger_down := b\<rparr>) = gd_contents e" "gd_invar (e\<lparr>gd_finger_down := b\<rparr>) = gd_invar e" for e b
    by (simp_all add: gd_contents_def gd_invar_def)
  have len: "length (gd_contents d) \<le> TOUCH_QUEUE_SIZE" using assms(1) by (simp add: length_gd_contents) (simp add: gd_invar_def)
  have push: "gd_contents (queue_push x d) = take TOUCH_QUEUE_SIZE (gd_contents d @ [x])" for x
    using len queue_push_contents [OF assms(1), of x] by auto
  have rep: "report_touches raw (length ts) d = (gd_queue_count e \<noteq> 0, e)"
    if "e = (case find active_touch ts of
        Some t \<Rightarrow> (queue_push \<lparr>tr_state = 1, tr_x = tc_x t, tr_y = tc_y t\<rparr> d)\<lparr>gd_finger_down := True\<rparr>
      | None \<Rightarrow> if gd_finger_down d then (queue_push \<lparr>tr_state = 0, tr_x = 0, tr_y = 0\<rparr> d)\<lparr>gd_finger_down := False\<rparr> else d)" for e
    unfolding report_touches_def Let_def first_touch_decoded [OF r assms(2)] that using c by simp
  from rep [OF refl] assms(4)
  have d': "d' = (case find active_touch ts of
        Some t \<Rightarrow> (queue_push \<lparr>tr_state = 1, tr_x = tc_x t, tr_y = tc_y t\<rparr> d)\<lparr>gd_finger_down := True\<rparr>
      | None \<Rightarrow> if gd_finger_down d then (queue_push \<lparr>tr_state = 0, tr_x = 0, tr_y = 0\<rparr> d)\<lparr>gd_finger_down := False\<rparr> else d)"
    and w: "wake = (gd_queue_count d' \<noteq> 0)" by simp_all
  have inv: "gd_invar d'" using queue_push_invar [OF assms(1)] assms(1) by (simp add: d' fd split: option.split)
  with w have "wake = (gd_contents d' \<noteq> [])" using length_gd_contents [OF inv] by auto
  with inv len show ?thesis by (simp add: d' fd push split: option.split)
qed

definition demo_touch :: "u8 \<Rightarrow> u16 \<Rightarrow> u16 \<Rightarrow> goodix_touch" where
  "demo_touch s x y = \<lparr>tc_status = s, tc_reserved = 0, tc_x = x, tc_y = y, tc_w = 12\<rparr>"

theorem goodix_touch_report_witness:
  "gd_contents (snd (report_touches (replicate 8 0 @ sealed (concat (map enc_touch [demo_touch 3 7 8, demo_touch 0x10 500 300]))
       @ replicate 64 0) 2 (goodix_main (\<lambda>_. 0) (\<lambda>_. 0) (\<lambda>_. 0) demo_env False))) = [\<lparr>tr_state = 1, tr_x = 500, tr_y = 300\<rparr>]"
proof -
  let ?ts = "[demo_touch 3 7 8, demo_touch 0x10 500 300]"
  let ?d = "goodix_main (\<lambda>_. 0) (\<lambda>_. 0) (\<lambda>_. 0) demo_env False"
  let ?raw = "replicate 8 0 @ sealed (concat (map enc_touch ?ts)) @ replicate 64 0"
  have c: "gd_contents ?d = []" and i: "gd_invar ?d" using main_vars [of "\<lambda>_. 0" "\<lambda>_. 0" "\<lambda>_. 0" demo_env False]
    by (simp_all add: gd_vars_def gd_contents_def gd_invar_def)
  have f: "find active_touch ?ts = Some (demo_touch 0x10 500 300)"
    by (simp add: demo_touch_def active_touch_def goodix_consts)
  have n: "length ?ts = 2" by simp
  obtain w d' where r: "report_touches ?raw 2 ?d = (w, d')" by fastforce
  have "drop GOODIX_BERLIN_HEADER_SIZE ?raw = sealed (concat (map enc_touch ?ts)) @ replicate 64 0"
    by (simp add: goodix_consts)
  from goodix_touch_report [OF i _ this, of w d', unfolded n, OF _ r]
  have "gd_contents d' = take TOUCH_QUEUE_SIZE [\<lparr>tr_state = 1, tr_x = 500, tr_y = 300\<rparr>]"
    unfolding c f by (simp add: goodix_consts demo_touch_def)
  then show ?thesis unfolding r by (simp add: TOUCH_QUEUE_SIZE_def)
qed

end
