(* ===== verification/Ps2_Controller.thy ===== *)
theory Ps2_Controller
  imports Interfaces
begin

text \<open>
  Access to the PC keyboard/mouse controller (i8042) as the two PS/2 daemons use it
  (\<^verbatim>\<open>src/x86/system/drivers/ps2moused/moused.c\<close>, \<^verbatim>\<open>src/x86/system/drivers/ps2keybd/keybd.c\<close>): bounded
  waits on the status port, commands, data bytes and the configuration byte.

  The hardware is the environment: \<open>pio_in\<close> lists the values the coming port reads return, in order
  (zero once it is used up), and \<open>pio_out\<close> records the port writes made. Theorems hold for every
  input list. The number of polls of a wait is an argument: the two daemons use different limits.
\<close>

record pio =
  pio_in :: "u8 list"
  pio_out :: "(u16 \<times> u8) list"

definition I8042_DATA_PORT :: u16 where "I8042_DATA_PORT = 0x60"
definition I8042_STATUS_PORT :: u16 where "I8042_STATUS_PORT = 0x64"
definition I8042_CMD_PORT :: u16 where "I8042_CMD_PORT = 0x64"
definition I8042_STATUS_OBF :: u8 where "I8042_STATUS_OBF = 0x01"
definition I8042_STATUS_IBF :: u8 where "I8042_STATUS_IBF = 0x02"
definition I8042_STATUS_AUX :: u8 where "I8042_STATUS_AUX = 0x20"
definition I8042_CMD_READ_CFG :: u8 where "I8042_CMD_READ_CFG = 0x20"
definition I8042_CMD_WRITE_CFG :: u8 where "I8042_CMD_WRITE_CFG = 0x60"

lemmas i8042_consts = I8042_DATA_PORT_def I8042_STATUS_PORT_def I8042_CMD_PORT_def I8042_STATUS_OBF_def
  I8042_STATUS_IBF_def I8042_STATUS_AUX_def I8042_CMD_READ_CFG_def I8042_CMD_WRITE_CFG_def

definition x86_inb :: "u16 \<Rightarrow> pio \<Rightarrow> u8 \<times> pio" where
  "x86_inb port h = (case pio_in h of [] \<Rightarrow> (0, h) | v # vs \<Rightarrow> (v, h\<lparr>pio_in := vs\<rparr>))"

definition x86_outb :: "u16 \<Rightarrow> u8 \<Rightarrow> pio \<Rightarrow> pio" where
  "x86_outb port v h = h\<lparr>pio_out := pio_out h @ [(port, v)]\<rparr>"

section \<open>Waiting\<close>

fun i8042_wait_write :: "nat \<Rightarrow> pio \<Rightarrow> bool \<times> pio" where
  "i8042_wait_write 0 h = (False, h)"
| "i8042_wait_write (Suc n) h =
     (let (status, h) = x86_inb I8042_STATUS_PORT h
      in if status AND I8042_STATUS_IBF = 0 then (True, h) else i8042_wait_write n h)"

fun i8042_wait_read :: "nat \<Rightarrow> pio \<Rightarrow> bool \<times> pio" where
  "i8042_wait_read 0 h = (False, h)"
| "i8042_wait_read (Suc n) h =
     (let (status, h) = x86_inb I8042_STATUS_PORT h
      in if status AND I8042_STATUS_OBF \<noteq> 0 then (True, h) else i8042_wait_read n h)"

fun i8042_wait_aux_read :: "nat \<Rightarrow> pio \<Rightarrow> bool \<times> pio" where
  "i8042_wait_aux_read 0 h = (False, h)"
| "i8042_wait_aux_read (Suc n) h =
     (let (status, h) = x86_inb I8042_STATUS_PORT h
      in if status AND (I8042_STATUS_OBF OR I8042_STATUS_AUX) = (I8042_STATUS_OBF OR I8042_STATUS_AUX)
         then (True, h) else i8042_wait_aux_read n h)"

fun i8042_flush :: "nat \<Rightarrow> pio \<Rightarrow> pio" where
  "i8042_flush 0 h = h"
| "i8042_flush (Suc n) h =
     (let (status, h) = x86_inb I8042_STATUS_PORT h
      in if status AND I8042_STATUS_OBF = 0 then h else i8042_flush n (snd (x86_inb I8042_DATA_PORT h)))"

section \<open>Commands and data\<close>

definition i8042_write_cmd :: "nat \<Rightarrow> u8 \<Rightarrow> pio \<Rightarrow> bool \<times> pio" where
  "i8042_write_cmd loops v h =
     (case i8042_wait_write loops h of
        (False, h) \<Rightarrow> (False, h)
      | (True, h) \<Rightarrow> (True, x86_outb I8042_CMD_PORT v h))"

definition i8042_write_data :: "nat \<Rightarrow> u8 \<Rightarrow> pio \<Rightarrow> bool \<times> pio" where
  "i8042_write_data loops v h =
     (case i8042_wait_write loops h of
        (False, h) \<Rightarrow> (False, h)
      | (True, h) \<Rightarrow> (True, x86_outb I8042_DATA_PORT v h))"

definition i8042_read_data :: "nat \<Rightarrow> pio \<Rightarrow> u8 option \<times> pio" where
  "i8042_read_data loops h =
     (case i8042_wait_read loops h of
        (False, h) \<Rightarrow> (None, h)
      | (True, h) \<Rightarrow> (let (v, h) = x86_inb I8042_DATA_PORT h in (Some v, h)))"

definition i8042_read_cfg :: "nat \<Rightarrow> pio \<Rightarrow> u8 option \<times> pio" where
  "i8042_read_cfg loops h =
     (case i8042_write_cmd loops I8042_CMD_READ_CFG h of
        (False, h) \<Rightarrow> (None, h)
      | (True, h) \<Rightarrow> i8042_read_data loops h)"

definition i8042_write_cfg :: "nat \<Rightarrow> u8 \<Rightarrow> pio \<Rightarrow> bool \<times> pio" where
  "i8042_write_cfg loops v h =
     (case i8042_write_cmd loops I8042_CMD_WRITE_CFG h of
        (False, h) \<Rightarrow> (False, h)
      | (True, h) \<Rightarrow> i8042_write_data loops v h)"

section \<open>What the primitives do\<close>

text \<open>
  The port writes are the only lasting effect: a wait or a read writes nothing, and a command or data
  byte is written exactly once when it succeeds and not at all when the controller stays busy.
\<close>

lemma inb_out [simp]: "pio_out (snd (x86_inb p h)) = pio_out h"
  by (simp add: x86_inb_def split: list.split)

lemma inb_outD: "x86_inb p h = (v, h') \<Longrightarrow> pio_out h' = pio_out h"
  using inb_out [of p h] by simp

lemma outb_out [simp]: "pio_out (x86_outb p v h) = pio_out h @ [(p, v)]"
  by (simp add: x86_outb_def)

lemma wait_write_out [simp]: "pio_out (snd (i8042_wait_write n h)) = pio_out h"
  by (induction n arbitrary: h) (auto simp: Let_def split_beta)

lemma wait_read_out [simp]: "pio_out (snd (i8042_wait_read n h)) = pio_out h"
  by (induction n arbitrary: h) (auto simp: Let_def split_beta)

lemma wait_aux_read_out [simp]: "pio_out (snd (i8042_wait_aux_read n h)) = pio_out h"
  by (induction n arbitrary: h) (auto simp: Let_def split_beta)

lemma flush_out [simp]: "pio_out (i8042_flush n h) = pio_out h"
  by (induction n arbitrary: h) (auto simp: Let_def split_beta)

lemma wait_outD:
  "i8042_wait_write n h = (b, h') \<Longrightarrow> pio_out h' = pio_out h"
  "i8042_wait_read n h = (b, h') \<Longrightarrow> pio_out h' = pio_out h"
  "i8042_wait_aux_read n h = (b, h') \<Longrightarrow> pio_out h' = pio_out h"
  using wait_write_out [of n h] wait_read_out [of n h] wait_aux_read_out [of n h] by simp_all

lemma write_cmd_out:
  "i8042_write_cmd n v h = (ok, h') \<Longrightarrow> pio_out h' = pio_out h @ (if ok then [(I8042_CMD_PORT, v)] else [])"
  by (auto simp: i8042_write_cmd_def split: prod.splits bool.splits dest: wait_outD)

lemma write_data_out:
  "i8042_write_data n v h = (ok, h') \<Longrightarrow> pio_out h' = pio_out h @ (if ok then [(I8042_DATA_PORT, v)] else [])"
  by (auto simp: i8042_write_data_def split: prod.splits bool.splits dest: wait_outD)

lemma read_data_out: "i8042_read_data n h = (r, h') \<Longrightarrow> pio_out h' = pio_out h"
  by (auto simp: i8042_read_data_def split: prod.splits bool.splits dest!: inb_outD wait_outD)

lemma read_cfg_out:
  assumes "i8042_read_cfg n h = (r, h')"
  shows "pio_out h' = pio_out h \<or> pio_out h' = pio_out h @ [(I8042_CMD_PORT, I8042_CMD_READ_CFG)]"
    "r \<noteq> None \<Longrightarrow> pio_out h' = pio_out h @ [(I8042_CMD_PORT, I8042_CMD_READ_CFG)]"
  using assms
  by (auto simp: i8042_read_cfg_def split: prod.splits bool.splits dest!: write_cmd_out read_data_out)

lemma write_cfg_out:
  assumes "i8042_write_cfg n v h = (True, h')"
  shows "pio_out h' = pio_out h @ [(I8042_CMD_PORT, I8042_CMD_WRITE_CFG), (I8042_DATA_PORT, v)]"
  using assms
  by (auto simp: i8042_write_cfg_def split: prod.splits bool.splits dest!: write_cmd_out write_data_out)

end
