(* ===== verification/Char_Dev.thy ===== *)
theory Char_Dev
  imports Interfaces
begin

text \<open>
  What the console daemons share. The character buffer of their input side belongs to a library outside the repository:
  its operations are a record the daemons take as an argument, and reading takes bytes from it until
  it is empty or the request is filled. On output a line feed is sent as carriage return and line
  feed.
\<close>

record 'b charbuf_ops =
  cb_push :: "'b \<Rightarrow> u8 \<Rightarrow> bool \<Rightarrow> 'b"
  cb_pop :: "'b \<Rightarrow> (u8 \<times> 'b) option"
  cb_is_empty :: "'b \<Rightarrow> bool"

fun cb_pops :: "'b charbuf_ops \<Rightarrow> nat \<Rightarrow> 'b \<Rightarrow> u8 list \<times> 'b" where
  "cb_pops cb 0 b = ([], b)"
| "cb_pops cb (Suc n) b = (case cb_pop cb b of None \<Rightarrow> ([], b)
     | Some (c, b) \<Rightarrow> (let (cs, b) = cb_pops cb n b in (c # cs, b)))"

definition cb_pushes :: "'b charbuf_ops \<Rightarrow> u8 list \<Rightarrow> 'b \<Rightarrow> 'b" where
  "cb_pushes cb cs b = foldl (\<lambda>b c. cb_push cb b c True) b cs"

lemma cb_pushes_simps [simp]:
  "cb_pushes cb [] b = b" "cb_pushes cb (c # cs) b = cb_pushes cb cs (cb_push cb b c True)"
  "cb_pushes cb (cs @ cs') b = cb_pushes cb cs' (cb_pushes cb cs b)"
  by (simp_all add: cb_pushes_def)

definition crlf :: "u8 list \<Rightarrow> u8 list" where
  "crlf s = concat (map (\<lambda>c. if c = 10 then [13, 10] else [c]) s)"

text \<open>A buffer that keeps everything: an instance of the operations.\<close>

definition list_charbuf :: "u8 list charbuf_ops" where
  "list_charbuf = \<lparr>cb_push = (\<lambda>b c _. b @ [c]), cb_pop = (\<lambda>b. case b of [] \<Rightarrow> None | c # cs \<Rightarrow> Some (c, cs)), cb_is_empty = (\<lambda>b. b = [])\<rparr>"

lemma list_charbuf_pushes: "cb_pushes list_charbuf cs b = b @ cs"
  by (induction cs arbitrary: b) (simp_all add: list_charbuf_def)

end
