(* ===== verification/X86_Ttyd.thy ===== *)
theory X86_Ttyd
  imports Ps2_Controller Char_Dev "HOL-Library.Sublist"
begin

text \<open>
  The serial console of the PC (\<^verbatim>\<open>src/x86/system/drivers/ttyd/ttyd.c\<close>): a software FIFO in front of the transmitter
  that drops instead of blocking, and the input filter. Port reads and writes are those of
  \<^verbatim>\<open>Ps2_Controller\<close>, the operations of the character buffer an argument (\<^verbatim>\<open>Char_Dev\<close>).

  Properties: along every list of events the bytes on the wire and in the FIFO are the written text with
  line ends expanded, in order, less the counted drops; the input side hands on exactly the bytes
  received without error.
\<close>

section \<open>State\<close>

definition COM1_PORT :: u16 where "COM1_PORT = 0x3F8"
definition TX_FIFO_SIZE :: u32 where "TX_FIFO_SIZE = 512"
definition UART_LSR_RX_ERR :: u8 where "UART_LSR_RX_ERR = 0x9E"

record 'b ttyd =
  tt_fifo :: "u8 list"
  tt_head :: u32
  tt_tail :: u32
  tt_dropped :: u32
  tt_drop_reported :: u32
  tt_buffer :: 'b
  tt_wakeup :: bool
  tt_pio :: pio

section \<open>Transmitter\<close>

definition uart_tx_ready :: "pio \<Rightarrow> bool \<times> pio" where
  "uart_tx_ready h = (let (lsr, h) = x86_inb (COM1_PORT + 5) h in (lsr AND 0x20 \<noteq> 0, h))"

definition uart_init :: "pio \<Rightarrow> pio" where
  "uart_init h =
     (let divisor = 1 :: u16;
          h = x86_outb (COM1_PORT + 1) 0x00 h;
          h = x86_outb (COM1_PORT + 3) 0x80 h;
          h = x86_outb (COM1_PORT + 0) (ucast (divisor AND 0xFF)) h;
          h = x86_outb (COM1_PORT + 1) (ucast (drop_bit 8 divisor)) h;
          h = x86_outb (COM1_PORT + 3) 0x03 h;
          h = x86_outb (COM1_PORT + 2) 0xC7 h
      in x86_outb (COM1_PORT + 4) 0x0B h)"

text \<open>The loop of \<open>tx_pump\<close>; one round per byte, so a full FIFO needs fewer than 512.\<close>

fun tx_pump_loop :: "nat \<Rightarrow> 'b ttyd \<Rightarrow> 'b ttyd" where
  "tx_pump_loop 0 d = d"
| "tx_pump_loop (Suc n) d =
     (if tt_tail d = tt_head d then d
      else let (ready, h) = uart_tx_ready (tt_pio d)
           in if \<not> ready then d\<lparr>tt_pio := h\<rparr>
              else let h = x86_outb COM1_PORT (tt_fifo d ! unat (tt_tail d)) h
                   in tx_pump_loop n (d\<lparr>tt_pio := h, tt_tail := (tt_tail d + 1) AND (TX_FIFO_SIZE - 1)\<rparr>))"

definition tx_pump :: "'b ttyd \<Rightarrow> 'b ttyd" where
  "tx_pump d = tx_pump_loop (unat TX_FIFO_SIZE) d"

definition tt_store :: "u8 \<Rightarrow> u32 \<Rightarrow> 'b ttyd \<Rightarrow> 'b ttyd" where
  "tt_store c next d = tx_pump (d\<lparr>tt_fifo := (tt_fifo d)[unat (tt_head d) := c], tt_head := next\<rparr>)"

definition uart_putc :: "u8 \<Rightarrow> 'b ttyd \<Rightarrow> 'b ttyd" where
  "uart_putc c d =
     (let next = (tt_head d + 1) AND (TX_FIFO_SIZE - 1)
      in if next = tt_tail d
         then let d = tx_pump d;
                  next = (tt_head d + 1) AND (TX_FIFO_SIZE - 1)
              in if next = tt_tail d then d\<lparr>tt_dropped := tt_dropped d + 1\<rparr> else tt_store c next d
         else tt_store c next d)"

section \<open>Device\<close>

function tty_poll_loop :: "'b charbuf_ops \<Rightarrow> bool \<Rightarrow> 'b ttyd \<Rightarrow> 'b ttyd" where
  "tty_poll_loop cb was_empty d =
     (let (lsr, h) = x86_inb (COM1_PORT + 5) (tt_pio d)
      in if lsr AND 0x01 = 0 then d\<lparr>tt_pio := h\<rparr>
         else let (ch, h) = x86_inb COM1_PORT h;
                  d = d\<lparr>tt_pio := h\<rparr>
              in if lsr AND UART_LSR_RX_ERR \<noteq> 0 then tty_poll_loop cb was_empty d
                 else let ch = (if ch = 13 then 10 else ch);
                          d = d\<lparr>tt_buffer := cb_push cb (tt_buffer d) ch True\<rparr>
                      in if was_empty then tty_poll_loop cb False (d\<lparr>tt_wakeup := True\<rparr>) else tty_poll_loop cb was_empty d)"
  by pat_completeness auto
termination
  by (relation "measure (\<lambda>(_, _, d). length (pio_in (tt_pio d)))") (auto simp: x86_inb_def split: list.splits)

declare tty_poll_loop.simps [simp del]

definition tty_poll_input :: "'b charbuf_ops \<Rightarrow> 'b ttyd \<Rightarrow> 'b ttyd" where
  "tty_poll_input cb d = tty_poll_loop cb (cb_is_empty cb (tt_buffer d)) d"

text \<open>\<open>None\<close> is \<^verbatim>\<open>VFS_ERR_RETRY\<close>.\<close>

definition tty_read :: "'b charbuf_ops \<Rightarrow> int \<Rightarrow> 'b ttyd \<Rightarrow> u8 list option \<times> 'b ttyd" where
  "tty_read cb sz d =
     (let d = tty_poll_input cb d;
          (cs, b) = cb_pops cb (nat sz) (tt_buffer d)
      in (if cs = [] then None else Some cs, d\<lparr>tt_buffer := b\<rparr>))"

definition tty_check_poll_events :: "'b charbuf_ops \<Rightarrow> 'b ttyd \<Rightarrow> bool" where
  "tty_check_poll_events cb d \<longleftrightarrow> \<not> cb_is_empty cb (tt_buffer d)"

definition tty_write :: "u8 list \<Rightarrow> 'b ttyd \<Rightarrow> int \<times> 'b ttyd" where
  "tty_write s d =
     (int (length s), fold (\<lambda>c d. uart_putc c (if c = 10 then uart_putc 13 d else d)) s d)"

text \<open>The results: whether readers are woken and the drop count that is logged.\<close>

definition tty_loop :: "'b charbuf_ops \<Rightarrow> 'b ttyd \<Rightarrow> bool \<times> u32 option \<times> 'b ttyd" where
  "tty_loop cb d =
     (let d = tty_poll_input cb d;
          wake = tt_wakeup d;
          d = (if wake then d\<lparr>tt_wakeup := False\<rparr> else d);
          d = tx_pump d
      in if tt_dropped d \<noteq> tt_drop_reported d
         then (wake, Some (tt_dropped d), d\<lparr>tt_drop_reported := tt_dropped d\<rparr>)
         else (wake, None, d))"

definition tty_main :: "'b \<Rightarrow> pio \<Rightarrow> 'b ttyd" where
  "tty_main b h = \<lparr>tt_fifo = replicate (unat TX_FIFO_SIZE) 0, tt_head = 0, tt_tail = 0, tt_dropped = 0, tt_drop_reported = 0,
     tt_buffer = b, tt_wakeup = False, tt_pio = uart_init h\<rparr>"

section \<open>The FIFO\<close>

definition tt_inv :: "'b ttyd \<Rightarrow> bool" where
  "tt_inv d \<longleftrightarrow> length (tt_fifo d) = 512 \<and> unat (tt_head d) < 512 \<and> unat (tt_tail d) < 512"

definition tt_pending :: "'b ttyd \<Rightarrow> u8 list" where
  "tt_pending d = ring_list 512 (tt_fifo d) (unat (tt_tail d)) (ring_count 512 (unat (tt_head d)) (unat (tt_tail d)))"

lemma tt_next: "unat ((x + 1) AND (TX_FIFO_SIZE - 1)) = Suc (unat (x :: u32)) mod 512"
proof -
  have "unat ((x + 1) AND 511) = unat (x + 1) mod 512" by (rule unat_mod_pow2_u32)
  also have "unat (x + 1) mod 512 = Suc (unat x) mod 512"
    by (simp add: unat_word_ariths mod_mod_cancel)
  finally show ?thesis by (simp add: TX_FIFO_SIZE_def)
qed

lemma length_tt_pending: "length (tt_pending d) < 512"
  by (simp add: tt_pending_def ring_count_less)

lemma tt_pending_Nil: "tt_inv d \<Longrightarrow> tt_pending d = [] \<longleftrightarrow> tt_tail d = tt_head d"
  using ring_count_0_iff [of "unat (tt_head d)" 512 "unat (tt_tail d)"]
  by (auto simp: tt_pending_def tt_inv_def ring_list_def word_unat_eq_iff)

lemma tt_pending_Cons:
  assumes "tt_inv d" "tt_tail d \<noteq> tt_head d" "e = d\<lparr>tt_pio := h, tt_tail := (tt_tail d + 1) AND (TX_FIFO_SIZE - 1)\<rparr>"
  shows "tt_pending d = tt_fifo d ! unat (tt_tail d) # tt_pending e \<and> tt_inv e"
  using assms ring_count_pop [of "unat (tt_head d)" 512 "unat (tt_tail d)"]
    ring_list_cons [of "unat (tt_tail d)" 512 "tt_fifo d"]
  by (auto simp: tt_pending_def tt_inv_def tt_next word_unat_eq_iff)

lemma tt_pending_snoc:
  assumes "tt_inv d" "(tt_head d + 1) AND (TX_FIFO_SIZE - 1) \<noteq> tt_tail d"
    "e = d\<lparr>tt_fifo := (tt_fifo d)[unat (tt_head d) := c], tt_head := (tt_head d + 1) AND (TX_FIFO_SIZE - 1)\<rparr>"
  shows "tt_pending e = tt_pending d @ [c] \<and> tt_inv e"
proof -
  let ?h = "unat (tt_head d)" and ?t = "unat (tt_tail d)"
  have b: "?h < 512" "?t < 512" "length (tt_fifo d) = 512" "Suc ?h mod 512 \<noteq> ?t"
    using assms(1,2) by (auto simp: tt_inv_def tt_next word_unat_eq_iff)
  have "ring_list 512 ((tt_fifo d)[(?t + ring_count 512 ?h ?t) mod 512 := c]) ?t (Suc (ring_count 512 ?h ?t)) =
      ring_list 512 (tt_fifo d) ?t (ring_count 512 ?h ?t) @ [c]"
    using b by (intro ring_list_snoc) (simp_all add: ring_count_less)
  then show ?thesis using b ring_count_push [OF b(1,2,4)] ring_count_head [OF b(1,2)]
    by (simp add: assms(3) tt_pending_def tt_inv_def tt_next)
qed

lemma tt_full: "tt_inv d \<Longrightarrow> (tt_head d + 1) AND (TX_FIFO_SIZE - 1) = tt_tail d \<Longrightarrow> length (tt_pending d) = 511"
  using ring_count_full [of "unat (tt_head d)" 512 "unat (tt_tail d)"]
  by (auto simp: tt_pending_def tt_inv_def tt_next word_unat_eq_iff)

section \<open>Pumping\<close>

text \<open>What the transmitter takes: one byte for each of the coming status readings that shows room.\<close>

definition room :: "u8 \<Rightarrow> bool" where
  "room lsr \<longleftrightarrow> lsr AND 0x20 \<noteq> 0"

definition taken :: "'b ttyd \<Rightarrow> nat" where
  "taken d = length (takeWhile room (take (length (tt_pending d)) (pio_in (tt_pio d))))"

definition on_wire :: "u8 list \<Rightarrow> pio \<Rightarrow> bool" where
  "on_wire bs h \<longleftrightarrow> pio_out h = pio_out (uart_init \<lparr>pio_in = [], pio_out = []\<rparr>) @ map (Pair COM1_PORT) bs"

definition same_rest :: "'b ttyd \<Rightarrow> 'b ttyd \<Rightarrow> bool" where
  "same_rest d e \<longleftrightarrow> tt_dropped e = tt_dropped d \<and> tt_drop_reported e = tt_drop_reported d \<and> tt_buffer e = tt_buffer d \<and>
     tt_wakeup e = tt_wakeup d"

lemma pump_loop_exact:
  assumes "tt_inv d" "length (tt_pending d) \<le> n" "e = tx_pump_loop n d"
  shows "tt_inv e \<and> tt_pending e = drop (taken d) (tt_pending d) \<and> same_rest d e \<and>
     (\<forall>bs. on_wire bs (tt_pio d) \<longrightarrow> on_wire (bs @ take (taken d) (tt_pending d)) (tt_pio e))"
  using assms
proof (induction n arbitrary: d)
  case 0
  then show ?case by (simp add: taken_def same_rest_def)
next
  case (Suc n)
  show ?case
  proof (cases "tt_tail d = tt_head d")
    case True
    then show ?thesis using Suc.prems tt_pending_Nil [of d] by (simp add: taken_def same_rest_def)
  next
    case ne: False
    let ?b = "tt_fifo d ! unat (tt_tail d)"
    show ?thesis
    proof (cases "pio_in (tt_pio d) \<noteq> [] \<and> room (hd (pio_in (tt_pio d)))")
      case True
      then obtain l ls where l: "pio_in (tt_pio d) = l # ls" "room l" by (cases "pio_in (tt_pio d)") auto
      define f where "f = d\<lparr>tt_pio := x86_outb COM1_PORT ?b ((tt_pio d)\<lparr>pio_in := ls\<rparr>),
        tt_tail := (tt_tail d + 1) AND (TX_FIFO_SIZE - 1)\<rparr>"
      note p = tt_pending_Cons [OF Suc.prems(1) ne f_def]
      have t: "taken d = Suc (taken f)" using l p by (simp add: taken_def f_def x86_outb_def)
      have e: "e = tx_pump_loop n f" using Suc.prems(3) ne l by (simp add: uart_tx_ready_def x86_inb_def room_def f_def)
      have w: "on_wire (bs @ [?b]) (tt_pio f)" if "on_wire bs (tt_pio d)" for bs
        using that by (simp add: on_wire_def f_def x86_outb_def)
      have "same_rest d f" by (simp add: same_rest_def f_def)
      moreover note IH = Suc.IH [of f, OF _ _ e]
      moreover have "on_wire (bs @ ?b # take (taken f) (tt_pending f)) (tt_pio e)" if "on_wire bs (tt_pio d)" for bs
        using IH p Suc.prems(2) w [OF that] by auto
      ultimately show ?thesis using p Suc.prems(2) t by (auto simp: same_rest_def)
    next
      case False
      then have "e = d\<lparr>tt_pio := snd (x86_inb (COM1_PORT + 5) (tt_pio d))\<rparr> \<and> taken d = 0"
        using Suc.prems(3) ne
        by (cases "pio_in (tt_pio d)")
          (auto simp: uart_tx_ready_def x86_inb_def room_def taken_def take_Cons' split: if_splits)
      then show ?thesis using Suc.prems(1)
        by (auto simp: tt_inv_def tt_pending_def same_rest_def on_wire_def x86_inb_def split: list.split)
    qed
  qed
qed

lemma pump_exact:
  assumes "tt_inv d"
  shows "tt_inv (tx_pump d) \<and> tt_pending (tx_pump d) = drop (taken d) (tt_pending d) \<and> same_rest d (tx_pump d) \<and>
     (\<forall>bs. on_wire bs (tt_pio d) \<longrightarrow> on_wire (bs @ take (taken d) (tt_pending d)) (tt_pio (tx_pump d)))"
  using pump_loop_exact [OF assms _ refl, of "unat TX_FIFO_SIZE"] length_tt_pending [of d]
  by (simp add: tx_pump_def TX_FIFO_SIZE_def)

section \<open>Output is conserved\<close>

text \<open>The daemon has been given \<open>xs\<close> to send: what left it and what waits is \<open>xs\<close> without \<open>k\<close> dropped bytes.\<close>

definition tt_carries :: "u8 list \<Rightarrow> 'b ttyd \<Rightarrow> bool" where
  "tt_carries xs d \<longleftrightarrow> tt_inv d \<and> (\<exists>sent k. on_wire sent (tt_pio d) \<and> subseq (sent @ tt_pending d) xs \<and>
     length xs = length sent + length (tt_pending d) + k \<and> tt_dropped d = of_nat k \<and> (k = 0 \<or> 511 < length xs))"

lemma carries_pump:
  assumes "tt_carries xs d"
  shows "tt_carries xs (tx_pump d)"
proof -
  obtain sent k where d: "tt_inv d" "on_wire sent (tt_pio d)" "subseq (sent @ tt_pending d) xs"
    "length xs = length sent + length (tt_pending d) + k" "tt_dropped d = of_nat k" "k = 0 \<or> 511 < length xs"
    using assms by (auto simp: tt_carries_def)
  have t: "taken d \<le> length (tt_pending d)"
    unfolding taken_def by (rule order.trans [OF length_takeWhile_le]) simp
  note p = pump_exact [OF d(1)]
  show ?thesis unfolding tt_carries_def
    using p d t by (intro conjI exI [of _ "sent @ take (taken d) (tt_pending d)"] exI [of _ k]) (auto simp: same_rest_def)
qed

lemma carries_putc:
  assumes "tt_carries xs d"
  shows "tt_carries (xs @ [c]) (uart_putc c d)"
proof -
  have store: "tt_carries (xs @ [c]) (tt_store c ((tt_head e + 1) AND (TX_FIFO_SIZE - 1)) e)"
    if e: "tt_carries xs e" "(tt_head e + 1) AND (TX_FIFO_SIZE - 1) \<noteq> tt_tail e" for e
  proof -
    define f where "f = e\<lparr>tt_fifo := (tt_fifo e)[unat (tt_head e) := c], tt_head := (tt_head e + 1) AND (TX_FIFO_SIZE - 1)\<rparr>"
    obtain sent k where i: "tt_inv e" and k: "on_wire sent (tt_pio e)" "subseq (sent @ tt_pending e) xs"
      "length xs = length sent + length (tt_pending e) + k" "tt_dropped e = of_nat k" "k = 0 \<or> 511 < length xs"
      using e(1) by (auto simp: tt_carries_def)
    have "subseq ((sent @ tt_pending e) @ [c]) (xs @ [c])" using k(2) by (simp only: subseq_append)
    with tt_pending_snoc [OF i e(2) f_def] k have "tt_carries (xs @ [c]) f"
      unfolding tt_carries_def by (intro conjI exI [of _ sent] exI [of _ k]) (auto simp: f_def)
    then show ?thesis using carries_pump by (simp add: tt_store_def f_def)
  qed
  have drop: "tt_carries (xs @ [c]) (e\<lparr>tt_dropped := tt_dropped e + 1\<rparr>)"
    if e: "tt_carries xs e" "(tt_head e + 1) AND (TX_FIFO_SIZE - 1) = tt_tail e" for e
  proof -
    obtain sent k where i: "tt_inv e" and k: "on_wire sent (tt_pio e)" "subseq (sent @ tt_pending e) xs"
      "length xs = length sent + length (tt_pending e) + k" "tt_dropped e = of_nat k"
      using e(1) by (auto simp: tt_carries_def)
    have "tt_pending (e\<lparr>tt_dropped := v\<rparr>) = tt_pending e" "tt_inv (e\<lparr>tt_dropped := v\<rparr>) = tt_inv e" for v
      by (simp_all add: tt_pending_def tt_inv_def)
    then show ?thesis unfolding tt_carries_def
      using i k tt_full [OF i e(2)] by (intro conjI exI [of _ sent] exI [of _ "Suc k"]) (auto intro: subseq_append')
  qed
  show ?thesis using assms carries_pump [OF assms] store drop by (auto simp: uart_putc_def Let_def)
qed

lemma carries_write: "tt_carries xs d \<Longrightarrow> tt_carries (xs @ crlf s) (snd (tty_write s d))"
proof (induction s arbitrary: xs d)
  case (Cons c s)
  let ?e = "uart_putc c (if c = 10 then uart_putc 13 d else d)"
  have "tt_carries (xs @ (if c = 10 then [13, 10] else [c])) ?e"
    using carries_putc [OF carries_putc [OF Cons.prems, of 13], of 10] carries_putc [OF Cons.prems, of c] by simp
  from Cons.IH [OF this] show ?case by (simp add: tty_write_def crlf_def)
qed (simp add: tty_write_def crlf_def)

lemma poll_frame:
  "tt_fifo (tty_poll_loop cb w d) = tt_fifo d \<and> tt_head (tty_poll_loop cb w d) = tt_head d \<and> tt_tail (tty_poll_loop cb w d) = tt_tail d \<and>
   tt_dropped (tty_poll_loop cb w d) = tt_dropped d \<and> pio_out (tt_pio (tty_poll_loop cb w d)) = pio_out (tt_pio d)"
proof (induction cb w d rule: tty_poll_loop.induct)
  case (1 cb w d)
  obtain l h c h' where h: "x86_inb (COM1_PORT + 5) (tt_pio d) = (l, h)" "x86_inb COM1_PORT h = (c, h')" by fastforce
  have o: "pio_out h = pio_out (tt_pio d)" "pio_out h' = pio_out (tt_pio d)"
    using h by (auto simp: x86_inb_def split: list.splits)
  note IH = "1.IH" [OF h(1) [symmetric] refl _ h(2) [symmetric] refl refl]
  show ?case using IH o h by (simp add: tty_poll_loop.simps [of cb w d] Let_def)
qed

lemma carries_frame:
  assumes "tt_carries xs d" "tt_fifo e = tt_fifo d" "tt_head e = tt_head d" "tt_tail e = tt_tail d" "tt_dropped e = tt_dropped d"
    "pio_out (tt_pio e) = pio_out (tt_pio d)"
  shows "tt_carries xs e"
  using assms by (simp add: tt_carries_def tt_inv_def tt_pending_def on_wire_def)

datatype tt_event = TWrite "u8 list" | TRead int | TLoop

fun tt_step :: "'b charbuf_ops \<Rightarrow> tt_event \<Rightarrow> 'b ttyd \<Rightarrow> 'b ttyd" where
  "tt_step cb (TWrite s) d = snd (tty_write s d)"
| "tt_step cb (TRead n) d = snd (tty_read cb n d)"
| "tt_step cb TLoop d = snd (snd (tty_loop cb d))"

fun tt_text :: "tt_event list \<Rightarrow> u8 list" where
  "tt_text [] = []"
| "tt_text (TWrite s # es) = crlf s @ tt_text es"
| "tt_text (_ # es) = tt_text es"

lemma carries_step: "tt_carries xs d \<Longrightarrow> tt_carries (xs @ tt_text [e]) (tt_step cb e d)"
proof (cases e)
  case (TRead n)
  assume c: "tt_carries xs d"
  have "tt_carries xs (tt_step cb e d)"
    using poll_frame [of cb "cb_is_empty cb (tt_buffer d)" d] TRead
    by (intro carries_frame [OF c]) (simp_all add: tty_read_def tty_poll_input_def Let_def split_beta)
  then show ?thesis using TRead by simp
next
  case TLoop
  assume c: "tt_carries xs d"
  define e1 where "e1 = tty_poll_input cb d"
  define e2 where "e2 = (if tt_wakeup e1 then e1\<lparr>tt_wakeup := False\<rparr> else e1)"
  have "tt_carries xs e2"
    using poll_frame [of cb "cb_is_empty cb (tt_buffer d)" d]
    by (intro carries_frame [OF c]) (simp_all add: e2_def e1_def tty_poll_input_def)
  from carries_pump [OF this] have "tt_carries xs (tt_step cb TLoop d)"
    by (rule carries_frame) (simp_all add: tty_loop_def Let_def e2_def e1_def)
  then show ?thesis using TLoop by simp
qed (simp add: carries_write)

lemma carries_run: "tt_carries xs d \<Longrightarrow> tt_carries (xs @ tt_text es) (fold (tt_step cb) es d)"
proof (induction es arbitrary: xs d)
  case (Cons e es)
  have "tt_text (e # es) = tt_text [e] @ tt_text es" by (cases e) simp_all
  then show ?case using Cons.IH [OF carries_step [OF Cons.prems]] by simp
qed simp

lemma carries_main: "pio_out h = [] \<Longrightarrow> tt_carries [] (tty_main b h)"
  by (simp add: tt_carries_def tt_inv_def tt_pending_def tty_main_def TX_FIFO_SIZE_def on_wire_def uart_init_def x86_outb_def Let_def)

interpretation tt: simulation "\<lambda>_. True" "tt_step cb" "\<lambda>e xs. xs @ tt_text [e]" "\<lambda>d xs. tt_carries xs d" for cb
  by unfold_locales (rule carries_step)

text \<open>
  C14. The serial console loses nothing silently: for every list of writes, reads and polling rounds and whatever the line
  status shows, the bytes sent after the setup sequence followed by the bytes in the FIFO are the written
  text with line ends expanded, in order, without the dropped bytes, which the drop counter counts (modulo \<open>2 ^ 32\<close>); nothing is
  dropped before 512 bytes have been written.
\<close>

theorem tty_output_conserved:
  assumes "pio_out h = []" "d = fold (tt_step cb) es (tty_main b h)"
  shows "\<exists>sent k. pio_out (tt_pio d) = pio_out (uart_init \<lparr>pio_in = [], pio_out = []\<rparr>) @ map (Pair COM1_PORT) sent \<and>
     subseq (sent @ tt_pending d) (tt_text es) \<and> length (tt_text es) = length sent + length (tt_pending d) + k \<and>
     tt_dropped d = of_nat k \<and> (length (tt_text es) < 512 \<longrightarrow> k = 0 \<and> sent @ tt_pending d = tt_text es) \<and> length (tt_pending d) < 512"
proof -
  have "tt_carries (tt_text es) d"
    using carries_run [OF carries_main [OF assms(1), of b], of es cb] assms(2) by simp
  then obtain sent k where k: "on_wire sent (tt_pio d)" "subseq (sent @ tt_pending d) (tt_text es)"
     "length (tt_text es) = length sent + length (tt_pending d) + k" "tt_dropped d = of_nat k" "k = 0 \<or> 511 < length (tt_text es)"
    by (auto simp: tt_carries_def)
  have "sent @ tt_pending d = tt_text es" if "k = 0" using k(2,3) that by (intro subseq_same_length) simp_all
  with k show ?thesis using length_tt_pending [of d]
    by (intro exI [of _ sent] exI [of _ k]) (auto simp: on_wire_def)
qed

theorem tty_output_conserved_witness:
  "\<exists>d sent. d = fold (tt_step list_charbuf) [TWrite [65, 10], TLoop] (tty_main [] \<lparr>pio_in = [0x20, 0x20, 0, 0], pio_out = []\<rparr>) \<and>
     sent @ tt_pending d = [65, 13, 10] \<and> tt_dropped d = 0 \<and>
     pio_out (tt_pio d) = pio_out (uart_init \<lparr>pio_in = [], pio_out = []\<rparr>) @ map (Pair COM1_PORT) sent"
proof -
  define d where "d = fold (tt_step list_charbuf) [TWrite [65, 10], TLoop] (tty_main [] \<lparr>pio_in = [0x20, 0x20, 0, 0], pio_out = []\<rparr>)"
  have x: "tt_text [TWrite [65, 10], TLoop] = [65, 13, 10]" by (simp add: crlf_def)
  from tty_output_conserved [OF _ d_def] obtain sent k where
    "pio_out (tt_pio d) = pio_out (uart_init \<lparr>pio_in = [], pio_out = []\<rparr>) @ map (Pair COM1_PORT) sent" "tt_dropped d = of_nat k"
    "k = 0" "sent @ tt_pending d = [65, 13, 10]" unfolding x by auto
  then show ?thesis using d_def by auto
qed

section \<open>Input\<close>

text \<open>The readings of a poll: status and data for each received byte, then a status without data.\<close>

definition rx_reads :: "(u8 \<times> u8) list \<Rightarrow> u8 list" where
  "rx_reads rs = concat (map (\<lambda>(l, c). [l, c]) rs)"

definition rx_clean :: "(u8 \<times> u8) list \<Rightarrow> u8 list" where
  "rx_clean rs = map (\<lambda>(l, c). if c = 13 then 10 else c) (filter (\<lambda>(l, c). l AND UART_LSR_RX_ERR = 0) rs)"

lemma poll_exact:
  assumes "pio_in (tt_pio d) = rx_reads rs @ l0 # rest" "list_all (\<lambda>(l, c). l AND 1 \<noteq> 0) rs" "l0 AND 1 = 0"
  shows "tty_poll_loop cb w d = d\<lparr>tt_pio := (tt_pio d)\<lparr>pio_in := rest\<rparr>,
     tt_buffer := cb_pushes cb (rx_clean rs) (tt_buffer d),
     tt_wakeup := tt_wakeup d \<or> w \<and> rx_clean rs \<noteq> []\<rparr>"
  using assms
proof (induction rs arbitrary: d w)
  case Nil
  then show ?case by (simp add: tty_poll_loop.simps [of cb w d] x86_inb_def rx_reads_def rx_clean_def)
next
  case (Cons r rs)
  obtain l c where r: "r = (l, c)" by fastforce
  let ?c = "if c = 13 then 10 else c"
  define e where "e = d\<lparr>tt_pio := (tt_pio d)\<lparr>pio_in := rx_reads rs @ l0 # rest\<rparr>\<rparr>"
  have l: "l AND 1 \<noteq> 0" "list_all (\<lambda>(l, c). l AND 1 \<noteq> 0) rs" using Cons.prems(2) r by simp_all
  have step: "tty_poll_loop cb w d =
      (if l AND UART_LSR_RX_ERR \<noteq> 0 then tty_poll_loop cb w e
       else let f = e\<lparr>tt_buffer := cb_push cb (tt_buffer d) ?c True\<rparr>
            in if w then tty_poll_loop cb False (f\<lparr>tt_wakeup := True\<rparr>) else tty_poll_loop cb w f)"
    using Cons.prems(1) l r by (simp add: tty_poll_loop.simps [of cb w d] x86_inb_def rx_reads_def e_def Let_def)
  have IH: "tty_poll_loop cb w' f = f\<lparr>tt_pio := (tt_pio f)\<lparr>pio_in := rest\<rparr>,
     tt_buffer := cb_pushes cb (rx_clean rs) (tt_buffer f), tt_wakeup := tt_wakeup f \<or> w' \<and> rx_clean rs \<noteq> []\<rparr>"
    if "tt_pio f = tt_pio e" for f w'
    using Cons.IH [of f w', OF _ l(2) Cons.prems(3)] that by (simp add: e_def)
  show ?case
    unfolding step by (cases w) (simp_all add: IH e_def Let_def rx_clean_def r)
qed

text \<open>
  The input filter: a poll that finds the bytes \<open>rs\<close> hands exactly those received without an error flag to the character
  buffer, in order and with carriage returns as line feeds, and asks for a wake-up exactly if the
  buffer was empty and got at least one byte.
\<close>

theorem tty_input_exact:
  assumes "pio_in (tt_pio d) = rx_reads rs @ l0 # rest" "list_all (\<lambda>(l, c). l AND 1 \<noteq> 0) rs" "l0 AND 1 = 0"
  shows "tty_poll_input cb d = d\<lparr>tt_pio := (tt_pio d)\<lparr>pio_in := rest\<rparr>,
     tt_buffer := cb_pushes cb (rx_clean rs) (tt_buffer d),
     tt_wakeup := tt_wakeup d \<or> cb_is_empty cb (tt_buffer d) \<and> rx_clean rs \<noteq> []\<rparr>"
  unfolding tty_poll_input_def by (rule poll_exact [OF assms])

theorem tty_input_exact_witness:
  "tt_buffer (tty_poll_input list_charbuf (tty_main [] \<lparr>pio_in = [1, 104, 0x09, 255, 1, 13, 0x60], pio_out = []\<rparr>)) = [104, 10]"
proof -
  let ?d = "tty_main [] \<lparr>pio_in = [1, 104, 0x09, 255, 1, 13, 0x60], pio_out = []\<rparr> :: u8 list ttyd"
  have "pio_in (tt_pio ?d) = rx_reads [(1, 104), (9, 255), (1, 13)] @ 0x60 # []"
    by (simp add: tty_main_def uart_init_def x86_outb_def rx_reads_def Let_def)
  from tty_input_exact [OF this, of list_charbuf] show ?thesis
    by (simp add: rx_clean_def UART_LSR_RX_ERR_def list_charbuf_def tty_main_def)
qed

end
