(* ===== verification/X86_Vgacon.thy ===== *)
theory X86_Vgacon
  imports Interfaces
begin

text \<open>
  The text back end of the PC console daemon (\<^verbatim>\<open>src/x86/system/drivers/vgacond/vgacond.c\<close>): 25 rows of 80 cells, two bytes
  each, in the text page the kernel maps. A write outside the 4000 bytes of the screen is the result \<open>None\<close>.

  Properties: the screen is a window on an endless canvas that shows the rows up to the cursor, along every text; and
  the daemon's start-up finds the place after the kernel's output without ever writing outside.
\<close>

section \<open>Model\<close>

definition VGA_COLS :: nat where "VGA_COLS = 80"
definition VGA_ROWS :: nat where "VGA_ROWS = 25"
definition VGA_ATTR :: u8 where "VGA_ATTR = 0x07"

lemmas vga_consts = VGA_COLS_def VGA_ROWS_def VGA_ATTR_def

record vgatext =
  vt_mem :: "u8 list"
  vt_row :: nat
  vt_col :: nat

definition vga_cell :: "nat \<Rightarrow> nat \<Rightarrow> nat" where
  "vga_cell row col = (row * VGA_COLS + col) * 2"

text \<open>The two loops of \<open>vga_locate\<close> visit the cells from the last to the first.\<close>

definition vga_cells :: "(nat \<times> nat) list" where
  "vga_cells = concat (map (\<lambda>r. map (\<lambda>c. (r, c)) (rev [0..<VGA_COLS])) (rev [0..<VGA_ROWS]))"

definition vga_locate :: "vgatext \<Rightarrow> vgatext" where
  "vga_locate d =
     (case find (\<lambda>(r, c). vt_mem d ! vga_cell r c \<noteq> 32) vga_cells of
        None \<Rightarrow> d\<lparr>vt_row := 0, vt_col := 0\<rparr>
      | Some (r, c) \<Rightarrow>
          if c + 1 \<ge> VGA_COLS then d\<lparr>vt_row := r + 1, vt_col := 0\<rparr> else d\<lparr>vt_row := r, vt_col := c + 1\<rparr>)"

definition vga_blank :: "nat \<Rightarrow> u8 list \<Rightarrow> u8 list" where
  "vga_blank c m = m[vga_cell (VGA_ROWS - 1) c := 32, vga_cell (VGA_ROWS - 1) c + 1 := VGA_ATTR]"

definition vga_scroll :: "u8 list \<Rightarrow> u8 list" where
  "vga_scroll m =
     (let m = fold (\<lambda>i m. m[vga_cell 0 0 + i := m ! (vga_cell 1 0 + i)]) [0..<(VGA_ROWS - 1) * VGA_COLS * 2] m
      in fold vga_blank [0..<VGA_COLS] m)"

definition vga_store :: "u8 \<Rightarrow> vgatext \<Rightarrow> vgatext option" where
  "vga_store c d =
     (let i = vga_cell (vt_row d) (vt_col d)
      in if i + 1 < length (vt_mem d) then Some (d\<lparr>vt_mem := (vt_mem d)[i := c, i + 1 := VGA_ATTR]\<rparr>) else None)"

text \<open>One round of the loop of \<open>vga_write\<close>.\<close>

definition vga_putc :: "u8 \<Rightarrow> vgatext \<Rightarrow> vgatext option" where
  "vga_putc c d =
     map_option (\<lambda>d. if vt_row d \<ge> VGA_ROWS then d\<lparr>vt_mem := vga_scroll (vt_mem d), vt_row := VGA_ROWS - 1\<rparr> else d)
       (if c = 10 then Some (d\<lparr>vt_col := 0, vt_row := vt_row d + 1\<rparr>)
        else if c = 13 then Some (d\<lparr>vt_col := 0\<rparr>)
        else map_option (\<lambda>d. if vt_col d + 1 \<ge> VGA_COLS then d\<lparr>vt_col := 0, vt_row := vt_row d + 1\<rparr>
            else d\<lparr>vt_col := vt_col d + 1\<rparr>) (vga_store c d))"

fun vga_write :: "u8 list \<Rightarrow> vgatext \<Rightarrow> vgatext option" where
  "vga_write [] d = Some d"
| "vga_write (c # s) d = Option.bind (vga_putc c d) (vga_write s)"

definition vga_banner :: "u8 list" where
  "vga_banner = map of_char (''\<newline>--- vgacond: userspace console attached ---\<newline>'')"

definition vga_start :: "u8 list \<Rightarrow> vgatext option" where
  "vga_start m = vga_write vga_banner (vga_locate \<lparr>vt_mem = m, vt_row = 0, vt_col = 0\<rparr>)"

section \<open>Scrolling\<close>

lemma copy_down:
  assumes "n + k \<le> length m"
  shows "fold (\<lambda>i m. m[i := m ! (k + i)]) [0..<n] m = take n (drop k m) @ drop n m"
  using assms
proof (induction n)
  case (Suc n)
  let ?m = "take n (drop k m) @ drop n m"
  have len: "n < length ?m" and l: "length (take n (drop k m)) = n" using Suc.prems by auto
  have "fold (\<lambda>i m. m[i := m ! (k + i)]) [0..<Suc n] m = ?m[n := ?m ! (k + n)]" using Suc by simp
  also have "?m ! (k + n) = m ! (k + n)" using Suc.prems l by (simp add: nth_append add.commute)
  also have "?m[n := m ! (k + n)] = take n (drop k m) @ (m ! (k + n)) # drop (Suc n) m"
    using l Suc.prems by (simp add: list_update_append Cons_nth_drop_Suc [symmetric])
  also have "\<dots> = take (Suc n) (drop k m) @ drop (Suc n) m"
    using Suc.prems by (simp add: take_Suc_conv_app_nth)
  finally show ?case .
qed simp

lemma blank_row:
  assumes "length m = 4000" "k \<le> 80"
  shows "fold vga_blank [0..<k] m ! i = (if 3840 \<le> i \<and> i < 3840 + 2 * k then (if even i then 32 else VGA_ATTR) else m ! i) \<and>
     length (fold vga_blank [0..<k] m) = 4000"
  using assms
proof (induction k)
  case (Suc k)
  then show ?case
    by (auto simp: vga_blank_def vga_cell_def vga_consts nth_list_update)
qed auto

lemma scroll_nth:
  assumes "length m = 4000"
  shows "length (vga_scroll m) = 4000"
    "i < 3840 \<Longrightarrow> vga_scroll m ! i = m ! (i + 160)"
    "3840 \<le> i \<Longrightarrow> i < 4000 \<Longrightarrow> vga_scroll m ! i = (if even i then 32 else VGA_ATTR)"
proof -
  let ?m = "take 3840 (drop 160 m) @ drop 3840 m"
  have eq: "vga_scroll m = fold vga_blank [0..<80] ?m"
    using copy_down [of 3840 160 m] assms by (simp add: vga_scroll_def vga_cell_def vga_consts Let_def)
  have len: "length ?m = 4000" using assms by simp
  note b = blank_row [OF len order_refl]
  show "length (vga_scroll m) = 4000" using b by (simp add: eq)
  show "vga_scroll m ! i = m ! (i + 160)" if "i < 3840"
    using b [of i] that assms by (simp add: eq nth_append add.commute)
  show "vga_scroll m ! i = (if even i then 32 else VGA_ATTR)" if "3840 \<le> i" "i < 4000"
    using b [of i] that by (simp add: eq)
qed

section \<open>A window on a canvas\<close>

text \<open>The terminal without an end: text goes on an endless canvas of rows of 80 cells.\<close>

type_synonym canvas = "(nat \<Rightarrow> nat \<Rightarrow> u8) \<times> nat \<times> nat"

definition cv_put :: "nat \<Rightarrow> u8 \<Rightarrow> canvas \<Rightarrow> canvas" where
  "cv_put cols c = (\<lambda>(cv, r, j).
     if c = 10 then (cv, r + 1, 0)
     else if c = 13 then (cv, r, 0)
     else if j + 1 \<ge> cols then (cv(r := (cv r)(j := c)), r + 1, 0) else (cv(r := (cv r)(j := c)), r, j + 1))"

definition vga_shows :: "nat \<Rightarrow> canvas \<Rightarrow> vgatext \<Rightarrow> bool" where
  "vga_shows base = (\<lambda>(cv, r, j) d. length (vt_mem d) = 4000 \<and> vt_row d < 25 \<and> j < 80 \<and> r = base + vt_row d \<and> j = vt_col d \<and>
     (\<forall>i<25. \<forall>k<80. vt_mem d ! vga_cell i k = cv (base + i) k) \<and> (\<forall>q>r. \<forall>k<80. cv q k = 32))"

lemma cell_eq: "i < 25 \<Longrightarrow> k < 80 \<Longrightarrow> i' < 25 \<Longrightarrow> k' < 80 \<Longrightarrow> vga_cell i k = vga_cell i' k' \<longleftrightarrow> i = i' \<and> k = k'"
proof -
  assume k: "k < 80" "k' < 80"
  have "k = k' \<and> i = i'" if "80 * i + k = 80 * i' + k'"
  proof -
    have "k = (80 * i + k) mod 80" "k' = (80 * i' + k') mod 80" using k by simp_all
    then have "k = k'" using that by simp
    then show ?thesis using that by simp
  qed
  then show ?thesis by (auto simp: vga_cell_def VGA_COLS_def mult.commute)
qed

lemma cell_less: "i < 25 \<Longrightarrow> k < 80 \<Longrightarrow> vga_cell i k + 1 < 4000"
  by (simp add: vga_cell_def VGA_COLS_def)

lemma cell_even [simp]: "even (vga_cell i k)"
  by (simp add: vga_cell_def)

text \<open>The end of a round: a cursor below the last row scrolls the window down by one.\<close>

definition vga_settle :: "vgatext \<Rightarrow> vgatext" where
  "vga_settle d = (if vt_row d \<ge> VGA_ROWS then d\<lparr>vt_mem := vga_scroll (vt_mem d), vt_row := VGA_ROWS - 1\<rparr> else d)"

lemma settle_shows:
  assumes "length (vt_mem d) = 4000" "vt_row d \<le> 25" "vt_col d < 80" "r = base + vt_row d"
    "\<forall>i<25. \<forall>k<80. vt_mem d ! vga_cell i k = cv (base + i) k" "\<forall>q>r. \<forall>k<80. cv q k = 32" "vt_row d = 25 \<Longrightarrow> \<forall>k<80. cv r k = 32"
  shows "vga_shows (max base (r - 24)) (cv, r, vt_col d) (vga_settle d)"
proof (cases "vt_row d = 25")
  case False
  then have "max base (r - 24) = base" using assms(2,4) by simp
  then show ?thesis using assms False by (simp add: vga_settle_def vga_shows_def vga_consts)
next
  case True
  have "vga_scroll (vt_mem d) ! vga_cell i k = cv (Suc base + i) k" if "i < 25" "k < 80" for i k
  proof (cases "i = 24")
    case True
    then show ?thesis using scroll_nth(3) [OF assms(1), of "vga_cell 24 k"] cell_less [of 24 k] that assms(4,7) \<open>vt_row d = 25\<close>
      by (simp add: vga_cell_def VGA_COLS_def add.commute)
  next
    case False
    then have "vga_scroll (vt_mem d) ! vga_cell i k = vt_mem d ! vga_cell (Suc i) k"
      using scroll_nth(2) [OF assms(1), of "vga_cell i k"] that by (simp add: vga_cell_def VGA_COLS_def algebra_simps)
    also have "\<dots> = cv (base + Suc i) k" using assms(5) that False by simp
    finally show ?thesis by simp
  qed
  then show ?thesis using True assms scroll_nth(1) [OF assms(1)]
    by (simp add: vga_settle_def vga_shows_def vga_consts max_def)
qed

lemma putc_shows:
  assumes "vga_shows base (cv, r, j) d"
  shows "\<exists>d'. vga_putc c d = Some d' \<and> vga_shows (max base (fst (snd (cv_put 80 c (cv, r, j))) - 24)) (cv_put 80 c (cv, r, j)) d'"
proof -
  have d: "length (vt_mem d) = 4000" "vt_row d < 25" "j < 80" "r = base + vt_row d" "j = vt_col d"
    "\<forall>i<25. \<forall>k<80. vt_mem d ! vga_cell i k = cv (base + i) k" "\<forall>q>r. \<forall>k<80. cv q k = 32"
    using assms by (simp_all add: vga_shows_def)
  have settle: "vga_putc c d = map_option vga_settle (if c = 10 then Some (d\<lparr>vt_col := 0, vt_row := vt_row d + 1\<rparr>)
        else if c = 13 then Some (d\<lparr>vt_col := 0\<rparr>)
        else map_option (\<lambda>d. if vt_col d + 1 \<ge> VGA_COLS then d\<lparr>vt_col := 0, vt_row := vt_row d + 1\<rparr>
            else d\<lparr>vt_col := vt_col d + 1\<rparr>) (vga_store c d))"
    by (simp add: vga_putc_def vga_settle_def [abs_def])
  show ?thesis
  proof (cases "c = 10 \<or> c = 13")
    case True
    then show ?thesis
      using d settle settle_shows [of "d\<lparr>vt_col := 0, vt_row := vt_row d + 1\<rparr>" "r + 1" base cv]
        settle_shows [of "d\<lparr>vt_col := 0\<rparr>" r base cv] by (auto simp: cv_put_def)
  next
    case False
    let ?cv = "cv(r := (cv r)(j := c))"
    define e where "e = d\<lparr>vt_mem := (vt_mem d)[vga_cell (vt_row d) j := c, vga_cell (vt_row d) j + 1 := VGA_ATTR]\<rparr>"
    have st: "vga_store c d = Some e" using d cell_less [of "vt_row d" j] by (simp add: vga_store_def e_def Let_def)
    have e: "vt_row e = vt_row d" "vt_col e = j" "length (vt_mem e) = 4000" using d by (simp_all add: e_def)
    have m: "\<forall>i<25. \<forall>k<80. vt_mem e ! vga_cell i k = ?cv (base + i) k"
    proof (intro allI impI)
      fix i k :: nat assume ik: "i < 25" "k < 80"
      have "vga_cell (vt_row d) j + 1 \<noteq> vga_cell i k" by (metis cell_even even_plus_one_iff)
      then show "vt_mem e ! vga_cell i k = ?cv (base + i) k"
        using d ik cell_eq [OF d(2,3) ik] cell_less [OF ik] by (auto simp: e_def nth_list_update)
    qed
    have b: "\<forall>q>r. \<forall>k<80. ?cv q k = 32" using d(7) by simp
    show ?thesis
    proof (cases "j + 1 \<ge> 80")
      case True
      let ?f = "e\<lparr>vt_col := 0, vt_row := vt_row e + 1\<rparr>"
      have "vga_putc c d = Some (vga_settle ?f)" "cv_put 80 c (cv, r, j) = (?cv, r + 1, 0)"
        using settle st False True e by (simp_all add: VGA_COLS_def cv_put_def)
      moreover have "vga_shows (max base (r + 1 - 24)) (?cv, r + 1, vt_col ?f) (vga_settle ?f)"
        using d e m b by (intro settle_shows) auto
      ultimately show ?thesis by simp
    next
      case nw: False
      let ?f = "e\<lparr>vt_col := j + 1\<rparr>"
      have "vga_putc c d = Some (vga_settle ?f)" "cv_put 80 c (cv, r, j) = (?cv, r, j + 1)"
        using settle st False nw e by (simp_all add: VGA_COLS_def cv_put_def)
      moreover have "vga_shows (max base (r - 24)) (?cv, r, vt_col ?f) (vga_settle ?f)"
        using d e m b nw by (intro settle_shows) auto
      ultimately show ?thesis by simp
    qed
  qed
qed

lemma cv_row_mono: "fst (snd st) \<le> fst (snd (fold (cv_put n) s st))"
proof (induction s arbitrary: st)
  case (Cons c s)
  have "fst (snd st) \<le> fst (snd (cv_put n c st))" by (cases st) (simp add: cv_put_def)
  with Cons.IH [of "cv_put n c st"] show ?case by simp
qed simp

lemma write_shows:
  assumes "vga_shows base st d"
  shows "\<exists>d'. vga_write s d = Some d' \<and> vga_shows (max base (fst (snd (fold (cv_put 80) s st)) - 24)) (fold (cv_put 80) s st) d'"
  using assms
proof (induction s arbitrary: base st d)
  case Nil
  obtain cv r j where st: "st = (cv, r, j)" by (cases st)
  with Nil have "max base (r - 24) = base" by (auto simp: vga_shows_def)
  with Nil st show ?case by simp
next
  case (Cons c s)
  obtain cv r j where st: "st = (cv, r, j)" by (cases st)
  let ?st = "cv_put 80 c st"
  from putc_shows [OF Cons.prems [unfolded st], of c] obtain e where e: "vga_putc c d = Some e"
    "vga_shows (max base (fst (snd ?st) - 24)) ?st e" unfolding st by blast
  from Cons.IH [OF e(2)] obtain d' where d': "vga_write s e = Some d'"
    "vga_shows (max (max base (fst (snd ?st) - 24)) (fst (snd (fold (cv_put 80) s ?st)) - 24)) (fold (cv_put 80) s ?st) d'" by blast
  have "max (max base (fst (snd ?st) - 24)) (fst (snd (fold (cv_put 80) s ?st)) - 24) = max base (fst (snd (fold (cv_put 80) s ?st)) - 24)"
    using cv_row_mono [of ?st 80 s] by (auto simp: max_def)
  with d' e(1) show ?case by auto
qed

section \<open>Taking over from the kernel\<close>

text \<open>The canvas the daemon continues: the kernel's screen with the cursor after its last character.\<close>

definition kernel_canvas :: "u8 list \<Rightarrow> canvas" where
  "kernel_canvas m =
     (\<lambda>i k. if i < 25 then m ! vga_cell i k else 32,
      case find (\<lambda>(r, c). m ! vga_cell r c \<noteq> 32) vga_cells of
        None \<Rightarrow> (0, 0) | Some (r, c) \<Rightarrow> if c < 79 then (r, c + 1) else (min 24 (r + 1), 0))"

lemma vga_cells_set: "(r, c) \<in> set vga_cells \<longleftrightarrow> r < 25 \<and> c < 80"
  by (force simp: vga_cells_def vga_consts)

lemma sorted_cells: "sorted_wrt (\<lambda>(r, c) (r', c'). r' < r \<or> r' = r \<and> c' < c) vga_cells"
proof -
  have row: "sorted_wrt (\<lambda>(r, c) (r', c'). r' < r \<or> r' = r \<and> c' < c) (map (\<lambda>c. (r, c)) (rev [0..<n]))" for r n :: nat
    by (induction n) (auto simp: sorted_wrt_append)
  have "sorted_wrt (\<lambda>(r, c) (r', c'). r' < r \<or> r' = r \<and> c' < c) (concat (map (\<lambda>r. map (\<lambda>c. (r, c)) (rev [0..<n])) (rev [0..<k])))" for n k :: nat
    by (induction k) (auto simp: sorted_wrt_append row)
  then show ?thesis by (simp add: vga_cells_def)
qed

lemma find_last:
  assumes "find P xs = Some x" "sorted_wrt R xs" "y \<in> set xs" "y \<noteq> x" "\<not> R x y"
  shows "\<not> P y"
  using assms
proof (induction xs)
  case (Cons z zs)
  then show ?case by (cases "P z") auto
qed simp

lemma locate_rows:
  assumes "find (\<lambda>(r, c). m ! vga_cell r c \<noteq> 32) vga_cells = Some (r, c)"
  shows "r < 25 \<and> c < 80 \<and> (\<forall>q k. r < q \<and> q < 25 \<and> k < 80 \<longrightarrow> m ! vga_cell q k = 32)"
proof -
  have "(r, c) \<in> set vga_cells" using assms by (auto simp: find_Some_iff) (metis nth_mem)
  moreover have "m ! vga_cell q k = 32" if "r < q" "q < 25" "k < 80" for q k
    using find_last [OF assms sorted_cells, of "(q, k)"] that by (auto simp: vga_cells_set)
  ultimately show ?thesis by (simp add: vga_cells_set)
qed

lemma start_newline:
  assumes "length m = 4000"
  shows "\<exists>d. vga_putc 10 (vga_locate \<lparr>vt_mem = m, vt_row = 0, vt_col = 0\<rparr>) = Some d \<and>
     vga_shows (fst (snd (cv_put 80 10 (kernel_canvas m))) - 24) (cv_put 80 10 (kernel_canvas m)) d"
proof -
  let ?cv = "\<lambda>i k. if i < 25 then m ! vga_cell i k else 32"
  let ?d = "\<lparr>vt_mem = m, vt_row = 0, vt_col = 0\<rparr>"
  have put: "vga_putc 10 d = Some (vga_settle (d\<lparr>vt_col := 0, vt_row := vt_row d + 1\<rparr>))" for d
    by (simp add: vga_putc_def vga_settle_def)
  have shows_at: "vga_shows (row + 1 - 24) (?cv, row + 1, 0) (vga_settle (d\<lparr>vt_col := 0, vt_row := row + 1\<rparr>))"
    if "vt_mem d = m" "row < 25" "\<forall>q k. row < q \<and> q < 25 \<and> k < 80 \<longrightarrow> m ! vga_cell q k = 32" for row d
    using settle_shows [of "d\<lparr>vt_col := 0, vt_row := row + 1\<rparr>" "row + 1" 0 ?cv] that assms by simp
  have full: "vga_settle (d\<lparr>vt_row := 26\<rparr>) = vga_settle (d\<lparr>vt_row := 25\<rparr>)" for d by (simp add: vga_settle_def vga_consts)
  show ?thesis
  proof (cases "find (\<lambda>(r, c). m ! vga_cell r c \<noteq> 32) vga_cells")
    case None
    then have "\<forall>q k. 0 < q \<and> q < 25 \<and> k < 80 \<longrightarrow> m ! vga_cell q k = 32"
      using vga_cells_set by (force simp: find_None_iff)
    with shows_at [of "?d" 0] None show ?thesis by (simp add: put vga_locate_def kernel_canvas_def cv_put_def)
  next
    case (Some rc)
    obtain r c where rc: "rc = (r, c)" by fastforce
    note l = locate_rows [OF Some [unfolded rc]]
    show ?thesis
    proof (cases "c < 79")
      case True
      then show ?thesis using shows_at [of "?d\<lparr>vt_row := r, vt_col := c + 1\<rparr>" r] l Some rc
        by (simp add: put vga_locate_def kernel_canvas_def cv_put_def vga_consts)
    next
      case False
      let ?r = "min 24 (r + 1)"
      have "\<forall>q k. ?r < q \<and> q < 25 \<and> k < 80 \<longrightarrow> m ! vga_cell q k = 32" using l by auto
      with shows_at [of ?d ?r] False l Some rc full [of "?d\<lparr>vt_col := 0\<rparr>"] show ?thesis
        by (cases "r = 24") (simp_all add: put vga_locate_def kernel_canvas_def cv_put_def vga_consts)
    qed
  qed
qed

lemma vga_window:
  assumes "length m = 4000"
  shows "\<exists>d. Option.bind (vga_start m) (vga_write s) = Some d \<and>
     vga_shows (fst (snd (fold (cv_put 80) (vga_banner @ s) (kernel_canvas m))) - 24) (fold (cv_put 80) (vga_banner @ s) (kernel_canvas m)) d"
proof -
  obtain b where b: "vga_banner = 10 # b" by (simp add: vga_banner_def)
  from start_newline [OF assms] obtain e where e: "vga_putc 10 (vga_locate \<lparr>vt_mem = m, vt_row = 0, vt_col = 0\<rparr>) = Some e"
    "vga_shows (fst (snd (cv_put 80 10 (kernel_canvas m))) - 24) (cv_put 80 10 (kernel_canvas m)) e" by blast
  let ?k = "cv_put 80 10 (kernel_canvas m)"
  have app: "vga_write (x @ y) d = Option.bind (vga_write x d) (vga_write y)" for x y d
    by (induction x arbitrary: d) (auto split: Option.bind_split)
  from write_shows [OF e(2), of "b @ s"] obtain d where d: "vga_write (b @ s) e = Some d"
    "vga_shows (max (fst (snd ?k) - 24) (fst (snd (fold (cv_put 80) (b @ s) ?k)) - 24)) (fold (cv_put 80) (b @ s) ?k) d" by blast
  have "max (fst (snd ?k) - 24) (fst (snd (fold (cv_put 80) (b @ s) ?k)) - 24) = fst (snd (fold (cv_put 80) (b @ s) ?k)) - 24"
    using cv_row_mono [of ?k 80 "b @ s"] by (simp add: max_def)
  with d e(1) app [of b s e] show ?thesis unfolding vga_start_def b by simp
qed

text \<open>
  C13. The text console is a window on an endless canvas: whatever screen the kernel left, the daemon's start-up and every
  text written afterwards stay inside the 4000 bytes of the screen, and the screen always shows the 25
  rows of the canvas, the kernel's screen continued with the banner and the text, that end with
  the cursor's row or before it with the first row.
\<close>

theorem vga_text_window:
  assumes "length m = 4000"
  shows "\<exists>d. Option.bind (vga_start m) (vga_write s) = Some d \<and>
     vga_shows (fst (snd (fold (cv_put 80) (vga_banner @ s) (kernel_canvas m))) - 24) (fold (cv_put 80) (vga_banner @ s) (kernel_canvas m)) d"
  by (rule vga_window [OF assms])

theorem vga_text_window_witness:
  "\<exists>d. Option.bind (vga_start (replicate 4000 32)) (vga_write [72, 105]) = Some d \<and> vt_row d < 25 \<and> vt_col d < 80"
  using vga_text_window [of "replicate 4000 32" "[72, 105]"] by (auto simp: vga_shows_def split: prod.splits)

end
