(* ===== verification/X86_Fbcon.thy ===== *)
theory X86_Fbcon
  imports X86_Vgacon
begin

text \<open>
  The frame buffer back end of the PC console daemon (\<^verbatim>\<open>src/x86/system/drivers/vgacond/vgacond.c\<close>) for machines without a
  text mode: pixels, rectangles, glyphs, the cursor, scrolling and the search for the kernel's last
  row. The font table is an argument; a write outside the frame buffer is the result \<open>None\<close>.

  Properties: with 24 or 32 bits per pixel every text without carriage returns leaves a picture of the canvas window of
  \<^verbatim>\<open>X86_Vgacon\<close> with the cursor on it and never writes outside; a carriage return damages the glyph under
  the cursor; with 16 bits per pixel, which the daemon accepts, the last pixel lies outside; and the test of the
  mapping call takes its success for a failure.
\<close>

section \<open>Model\<close>

definition FB_BG :: u32 where "FB_BG = 0xff101010"
definition FB_FG :: u32 where "FB_FG = 0xffe8e8e8"

type_synonym font = "nat \<Rightarrow> nat \<Rightarrow> u8"

record fbcon =
  fb_mem :: "u8 list"
  fb_w :: nat
  fb_h :: nat
  fb_pitch :: nat
  fb_bpp :: nat
  fb_scale :: nat
  fb_cols :: nat
  fb_rows :: nat
  fb_cx :: nat
  fb_cy :: nat

definition fb_addr :: "nat \<Rightarrow> nat \<Rightarrow> fbcon \<Rightarrow> nat" where
  "fb_addr x y d = y * fb_pitch d + x * (fb_bpp d div 8)"

definition fb_px :: "nat \<Rightarrow> nat \<Rightarrow> u32 \<Rightarrow> fbcon \<Rightarrow> fbcon option" where
  "fb_px x y c d =
     (let p = fb_addr x y d;
          m = fb_mem d
      in if fb_bpp d = 32
         then if p + 3 < length m
              then Some (d\<lparr>fb_mem := m[p := ucast c, p + 1 := ucast (drop_bit 8 c), p + 2 := ucast (drop_bit 16 c), p + 3 := 0xff]\<rparr>) else None
         else if p + 2 < length m
              then Some (d\<lparr>fb_mem := m[p := ucast c, p + 1 := ucast (drop_bit 8 c), p + 2 := ucast (drop_bit 16 c)]\<rparr>) else None)"

text \<open>The drawing loops: the pixels in the order they are written.\<close>

fun fb_draw :: "(nat \<times> nat \<times> u32) list \<Rightarrow> fbcon \<Rightarrow> fbcon option" where
  "fb_draw [] d = Some d"
| "fb_draw ((x, y, c) # ps) d = Option.bind (fb_px x y c d) (fb_draw ps)"

definition rect_pts :: "nat \<Rightarrow> nat \<Rightarrow> nat \<Rightarrow> nat \<Rightarrow> u32 \<Rightarrow> (nat \<times> nat \<times> u32) list" where
  "rect_pts x y w h c = concat (map (\<lambda>yy. map (\<lambda>xx. (x + xx, y + yy, c)) [0..<w]) [0..<h])"

definition fb_rect :: "nat \<Rightarrow> nat \<Rightarrow> nat \<Rightarrow> nat \<Rightarrow> u32 \<Rightarrow> fbcon \<Rightarrow> fbcon option" where
  "fb_rect x y w h c = fb_draw (rect_pts x y w h c)"

definition glyph_char :: "u8 \<Rightarrow> nat" where
  "glyph_char c = (if unat c < 0x20 \<or> unat c > 0x7e then 0x2e else unat c)"

definition glyph_bit :: "font \<Rightarrow> u8 \<Rightarrow> nat \<Rightarrow> nat \<Rightarrow> bool" where
  "glyph_bit font c rx ry \<longleftrightarrow> font (glyph_char c - 0x20) ry AND drop_bit rx 0x80 \<noteq> 0"

definition glyph_pts :: "font \<Rightarrow> nat \<Rightarrow> nat \<Rightarrow> nat \<Rightarrow> u8 \<Rightarrow> u32 \<Rightarrow> (nat \<times> nat \<times> u32) list" where
  "glyph_pts font scale col row c color =
     (let x0 = col * 8 * scale; y0 = row * 16 * scale
      in concat (map (\<lambda>ry. concat (map (\<lambda>rx.
           let v = (if glyph_bit font c rx ry then color else FB_BG)
           in if scale = 1 then [(x0 + rx, y0 + ry, v)] else rect_pts (x0 + rx * 2) (y0 + ry * 2) 2 2 v) [0..<8])) [0..<16]))"

definition fb_glyph :: "font \<Rightarrow> nat \<Rightarrow> nat \<Rightarrow> u8 \<Rightarrow> u32 \<Rightarrow> fbcon \<Rightarrow> fbcon option" where
  "fb_glyph font col row c color d = fb_draw (glyph_pts font (fb_scale d) col row c color) d"

definition fb_cursor :: "bool \<Rightarrow> fbcon \<Rightarrow> fbcon option" where
  "fb_cursor on d =
     (let c = (if on then FB_FG else FB_BG);
          x = fb_cx d * 8 * fb_scale d;
          y = (fb_cy d * 16 + 14) * fb_scale d
      in fb_rect x y (8 * fb_scale d) (2 * fb_scale d) c d)"

definition fb_scroll :: "fbcon \<Rightarrow> fbcon option" where
  "fb_scroll d =
     (let cell_bytes = 16 * fb_scale d * fb_pitch d;
          n = cell_bytes * (fb_rows d - 1)
      in if n + cell_bytes \<le> length (fb_mem d)
         then fb_rect 0 ((fb_rows d - 1) * 16 * fb_scale d) (fb_w d) (16 * fb_scale d) FB_BG
           (d\<lparr>fb_mem := fold (\<lambda>i m. m[i := m ! (cell_bytes + i)]) [0..<n] (fb_mem d)\<rparr>)
         else None)"

definition fb_advance :: "font \<Rightarrow> u8 \<Rightarrow> fbcon \<Rightarrow> fbcon option" where
  "fb_advance font c d =
     (if c = 10 then Some (d\<lparr>fb_cx := 0, fb_cy := fb_cy d + 1\<rparr>)
      else if c = 13 then Some (d\<lparr>fb_cx := 0\<rparr>)
      else map_option (\<lambda>d. if fb_cx d + 1 \<ge> fb_cols d then d\<lparr>fb_cx := 0, fb_cy := fb_cy d + 1\<rparr> else d\<lparr>fb_cx := fb_cx d + 1\<rparr>)
        (fb_glyph font (fb_cx d) (fb_cy d) c FB_FG d))"

definition fb_putchar :: "font \<Rightarrow> u8 \<Rightarrow> fbcon \<Rightarrow> fbcon option" where
  "fb_putchar font c d =
     Option.bind (fb_cursor False d) (\<lambda>d.
     Option.bind (fb_advance font c d) (\<lambda>d.
     Option.bind (if fb_cy d \<ge> fb_rows d then map_option (\<lambda>d. d\<lparr>fb_cy := fb_rows d - 1\<rparr>) (fb_scroll d) else Some d)
       (fb_cursor True)))"

fun fb_write :: "font \<Rightarrow> u8 list \<Rightarrow> fbcon \<Rightarrow> fbcon option" where
  "fb_write font [] d = Some d"
| "fb_write font (c # s) d = Option.bind (fb_putchar font c d) (fb_write font s)"

text \<open>The pixel as its three colour bytes, and the search for the last row that is not empty.\<close>

definition px :: "fbcon \<Rightarrow> nat \<Rightarrow> nat \<Rightarrow> u8 \<times> u8 \<times> u8" where
  "px d x y = (let p = fb_addr x y d in (fb_mem d ! p, fb_mem d ! (p + 1), fb_mem d ! (p + 2)))"

definition rgb :: "u32 \<Rightarrow> u8 \<times> u8 \<times> u8" where
  "rgb c = (ucast c, ucast (drop_bit 8 c), ucast (drop_bit 16 c))"

definition row_used :: "fbcon \<Rightarrow> nat \<Rightarrow> bool" where
  "row_used d r \<longleftrightarrow> (\<exists>y\<in>set [r * 16 * fb_scale d..<r * 16 * fb_scale d + 16 * fb_scale d]. \<exists>x\<in>set [0..<fb_w d]. px d x y \<noteq> rgb FB_BG)"

definition fb_locate :: "fbcon \<Rightarrow> fbcon" where
  "fb_locate d =
     (case find (row_used d) (rev [0..<fb_rows d]) of
        None \<Rightarrow> d\<lparr>fb_cx := 0, fb_cy := 0\<rparr>
      | Some r \<Rightarrow> d\<lparr>fb_cx := 0, fb_cy := (if r + 1 \<ge> fb_rows d then fb_rows d - 1 else r + 1)\<rparr>)"

text \<open>
  \<open>None\<close>: the daemon falls back to the text screen. The arguments: physical address and geometry as the kernel reports
  them, the result of the \<^verbatim>\<open>SYS_MEM_MAP\<close> call and the memory at the mapped address.
\<close>

definition fb_init :: "u64 \<Rightarrow> nat \<Rightarrow> nat \<Rightarrow> nat \<Rightarrow> nat \<Rightarrow> u64 \<Rightarrow> u8 list \<Rightarrow> fbcon option" where
  "fb_init phy_base width height pitch bpp mem_map m =
     (if phy_base = 0 \<or> pitch = 0 \<or> height = 0 \<or> width = 0 \<or> bpp < 16 then None
      else let scale = (if width \<ge> 1600 then 2 else 1);
               cols = width div (8 * scale);
               rows = height div (16 * scale)
           in if cols = 0 \<or> rows = 0 then None
              else if mem_map \<noteq> 0 then None
              else Some (fb_locate \<lparr>fb_mem = m, fb_w = width, fb_h = height, fb_pitch = pitch, fb_bpp = bpp, fb_scale = scale,
                fb_cols = cols, fb_rows = rows, fb_cx = 0, fb_cy = 0\<rparr>))"

text \<open>The daemon: the back end it chose, its start-up (\<open>None\<close>: an access outside the buffer) and the two callbacks.\<close>

datatype vgacon = FbCon fbcon | TextCon vgatext

definition fb_banner :: "u8 list" where
  "fb_banner = map of_char (''\<newline>--- vgacond: GOP console attached ---\<newline>'')"

definition vgacond_main :: "font \<Rightarrow> u64 \<Rightarrow> nat \<Rightarrow> nat \<Rightarrow> nat \<Rightarrow> nat \<Rightarrow> u64 \<Rightarrow> u8 list \<Rightarrow> u8 list \<Rightarrow> vgacon option" where
  "vgacond_main font phy_base width height pitch bpp mem_map m text_screen =
     (case fb_init phy_base width height pitch bpp mem_map m of
        Some d \<Rightarrow> map_option FbCon (fb_write font fb_banner d)
      | None \<Rightarrow> map_option TextCon (vga_start text_screen))"

definition vga0_write :: "font \<Rightarrow> u8 list \<Rightarrow> vgacon \<Rightarrow> (int \<times> vgacon) option" where
  "vga0_write font buf d =
     (if buf = [] then Some (0, d)
      else case d of
        FbCon f \<Rightarrow> map_option (\<lambda>f. (int (length buf), FbCon f)) (fb_write font buf f)
      | TextCon v \<Rightarrow> map_option (\<lambda>v. (int (length buf), TextCon v)) (vga_write buf v))"

text \<open>The keyboard's descriptor and the result of reading it; \<open>None\<close> is \<^verbatim>\<open>VFS_ERR_RETRY\<close>.\<close>

definition vga0_read :: "int \<Rightarrow> int \<Rightarrow> int option" where
  "vga0_read keyb_fd n = (if keyb_fd \<ge> 0 \<and> n > 0 then Some n else None)"

section \<open>Drawing\<close>

definition fb_geometry :: "fbcon \<Rightarrow> nat \<times> nat \<times> nat \<times> nat \<times> nat \<times> nat \<times> nat \<times> nat" where
  "fb_geometry d = (fb_w d, fb_h d, fb_pitch d, fb_bpp d, fb_scale d, fb_cols d, fb_rows d, length (fb_mem d))"

text \<open>
  A usable geometry. A frame buffer below 4 GiB keeps every 32-bit sum and product of the source from wrapping: the
  model's natural numbers are then their values.
\<close>

definition fb_ok :: "fbcon \<Rightarrow> bool" where
  "fb_ok d \<longleftrightarrow> (fb_bpp d = 24 \<or> fb_bpp d = 32) \<and> fb_w d * (fb_bpp d div 8) \<le> fb_pitch d \<and> length (fb_mem d) = fb_pitch d * fb_h d \<and>
     (fb_scale d = 1 \<or> fb_scale d = 2) \<and> fb_cols d = fb_w d div (8 * fb_scale d) \<and> fb_rows d = fb_h d div (16 * fb_scale d) \<and>
     0 < fb_cols d \<and> 0 < fb_rows d \<and> fb_pitch d * fb_h d < 2 ^ 32"

lemma fb_ok_geometry: "fb_geometry d' = fb_geometry d \<Longrightarrow> fb_ok d' = fb_ok d"
  by (simp add: fb_geometry_def fb_ok_def)

text \<open>Each pixel has bytes of its own, inside the buffer.\<close>

lemma pixel_inside:
  assumes "fb_ok d" "x < fb_w d" "y < fb_h d"
  shows "fb_addr x y d + fb_bpp d div 8 \<le> (y + 1) * fb_pitch d" "(y + 1) * fb_pitch d \<le> length (fb_mem d)" "y * fb_pitch d \<le> fb_addr x y d"
proof -
  let ?b = "fb_bpp d div 8"
  have "(x + 1) * ?b \<le> fb_w d * ?b" using assms(2) by (intro mult_le_mono1) simp
  then have "x * ?b + ?b \<le> fb_pitch d" using assms(1) by (simp add: fb_ok_def)
  then show "fb_addr x y d + ?b \<le> (y + 1) * fb_pitch d" by (simp add: fb_addr_def)
  have "(y + 1) * fb_pitch d \<le> fb_h d * fb_pitch d" using assms(3) by (intro mult_le_mono1) simp
  then show "(y + 1) * fb_pitch d \<le> length (fb_mem d)" using assms(1) by (simp add: fb_ok_def mult.commute)
qed (simp add: fb_addr_def)

lemma pixel_apart:
  assumes "fb_ok d" "x < fb_w d" "y < fb_h d" "x' < fb_w d" "y' < fb_h d" "(x, y) \<noteq> (x', y')"
  shows "fb_addr x y d + fb_bpp d div 8 \<le> fb_addr x' y' d \<or> fb_addr x' y' d + fb_bpp d div 8 \<le> fb_addr x y d"
proof -
  let ?b = "fb_bpp d div 8"
  have rows: "fb_addr a v d + ?b \<le> fb_addr a' v' d" if "v < v'" "a < fb_w d" "a' < fb_w d" "v < fb_h d" "v' < fb_h d" for a v a' v'
  proof -
    have "(v + 1) * fb_pitch d \<le> v' * fb_pitch d" using that(1) by (intro mult_le_mono1) simp
    then show ?thesis using pixel_inside(1) [OF assms(1) that(2,4)] pixel_inside(3) [OF assms(1) that(3,5)] by linarith
  qed
  have cols: "fb_addr a v d + ?b \<le> fb_addr a' v d" if "a < a'" for a a' v
  proof -
    have "(a + 1) * ?b \<le> a' * ?b" using that by (intro mult_le_mono1) simp
    then show ?thesis by (simp add: fb_addr_def)
  qed
  consider "y < y'" | "y' < y" | "y = y'" "x < x'" | "y = y'" "x' < x" using assms(6) by fastforce
  then show ?thesis
  proof cases
    case 1
    then show ?thesis using rows [OF 1 assms(2,4,3,5)] by simp
  next
    case 2
    then show ?thesis using rows [OF 2 assms(4,2,5,3)] by simp
  next
    case 3
    then show ?thesis using cols [OF 3(2), of y] by simp
  next
    case 4
    then show ?thesis using cols [OF 4(2), of y] by simp
  qed
qed

lemma px_put:
  assumes "fb_ok d" "x < fb_w d" "y < fb_h d"
  shows "\<exists>d'. fb_px x y c d = Some d' \<and> fb_geometry d' = fb_geometry d \<and> fb_cx d' = fb_cx d \<and> fb_cy d' = fb_cy d \<and>
     (\<forall>x'<fb_w d. \<forall>y'<fb_h d. px d' x' y' = (if x' = x \<and> y' = y then rgb c else px d x' y'))"
proof -
  let ?p = "fb_addr x y d" and ?b = "fb_bpp d div 8"
  have b: "fb_bpp d = 32 \<and> ?b = 4 \<or> fb_bpp d = 24 \<and> ?b = 3" using assms(1) by (auto simp: fb_ok_def)
  have in_mem: "?p + ?b \<le> length (fb_mem d)" using pixel_inside [OF assms] by linarith
  define d' where "d' = (if fb_bpp d = 32
    then d\<lparr>fb_mem := (fb_mem d)[?p := ucast c, ?p + 1 := ucast (drop_bit 8 c), ?p + 2 := ucast (drop_bit 16 c), ?p + 3 := 0xff]\<rparr>
    else d\<lparr>fb_mem := (fb_mem d)[?p := ucast c, ?p + 1 := ucast (drop_bit 8 c), ?p + 2 := ucast (drop_bit 16 c)]\<rparr>)"
  have some: "fb_px x y c d = Some d'" using b in_mem by (auto simp: fb_px_def Let_def d'_def)
  have addr: "fb_addr a v d' = fb_addr a v d" for a v by (simp add: d'_def fb_addr_def)
  have far: "fb_mem d' ! i = fb_mem d ! i" if "i < ?p \<or> ?p + ?b \<le> i" for i
    using that b by (auto simp: d'_def nth_list_update)
  have l2: "?p + 2 < length (fb_mem d)" using b in_mem by linarith
  have "fb_mem d' ! ?p = ucast c \<and> fb_mem d' ! (?p + 1) = ucast (drop_bit 8 c) \<and> fb_mem d' ! (?p + 2) = ucast (drop_bit 16 c)"
    using l2 by (cases "fb_bpp d = 32") (simp_all add: d'_def)
  then have same: "px d' x y = rgb c" by (simp add: px_def rgb_def addr Let_def)
  have other: "px d' x' y' = px d x' y'" if q: "x' < fb_w d" "y' < fb_h d" "(x, y) \<noteq> (x', y')" for x' y'
  proof -
    let ?q = "fb_addr x' y' d"
    have "?q + i < ?p \<or> ?p + ?b \<le> ?q + i" if "i < 3" for i
      using pixel_apart [OF assms q] b that by linarith
    from far [OF this] have f: "fb_mem d' ! (?q + i) = fb_mem d ! (?q + i)" if "i < 3" for i using that by blast
    show ?thesis using f [of 0] f [of 1] f [of 2] by (simp add: px_def addr Let_def)
  qed
  show ?thesis
    using some same other by (intro exI [of _ d']) (auto simp: d'_def fb_geometry_def)
qed

text \<open>A picture drawn: the pixels of \<open>S\<close> get the colours \<open>f\<close>, all others stay.\<close>

definition drawn :: "(nat \<times> nat) set \<Rightarrow> (nat \<Rightarrow> nat \<Rightarrow> u32) \<Rightarrow> fbcon \<Rightarrow> fbcon \<Rightarrow> bool" where
  "drawn S f d d' \<longleftrightarrow> fb_geometry d' = fb_geometry d \<and> fb_cx d' = fb_cx d \<and> fb_cy d' = fb_cy d \<and>
     (\<forall>x<fb_w d. \<forall>y<fb_h d. px d' x y = (if (x, y) \<in> S then rgb (f x y) else px d x y))"

lemma draw_exact:
  assumes "fb_ok d" "\<And>x y c. (x, y, c) \<in> set ps \<Longrightarrow> x < fb_w d \<and> y < fb_h d \<and> c = f x y"
  shows "\<exists>d'. fb_draw ps d = Some d' \<and> drawn {(x, y). \<exists>c. (x, y, c) \<in> set ps} f d d'"
  using assms
proof (induction ps arbitrary: d)
  case Nil
  then show ?case by (simp add: drawn_def)
next
  case (Cons p ps)
  obtain x y c where p: "p = (x, y, c)" by (cases p)
  from Cons.prems(2) [of x y c] p have xy: "x < fb_w d" "y < fb_h d" and c: "c = f x y" by auto
  from px_put [OF Cons.prems(1) xy, of c] obtain e where e: "fb_px x y c d = Some e" "fb_geometry e = fb_geometry d"
    "fb_cx e = fb_cx d" "fb_cy e = fb_cy d"
    "\<forall>x'<fb_w d. \<forall>y'<fb_h d. px e x' y' = (if x' = x \<and> y' = y then rgb c else px d x' y')" by blast
  have wh: "fb_w e = fb_w d" "fb_h e = fb_h d" using e(2) by (simp_all add: fb_geometry_def)
  have ok: "fb_ok e" using Cons.prems(1) fb_ok_geometry [OF e(2)] by simp
  have inside: "x < fb_w e \<and> y < fb_h e \<and> c = f x y" if "(x, y, c) \<in> set ps" for x y c
    using Cons.prems(2) [of x y c] that wh by simp
  from Cons.IH [OF ok inside] obtain d' where d': "fb_draw ps e = Some d'"
    "drawn {(x, y). \<exists>c. (x, y, c) \<in> set ps} f e d'" by blast
  have "drawn {(x, y). \<exists>c. (x, y, c) \<in> set (p # ps)} f d d'"
    using d'(2) e c wh p by (auto simp: drawn_def)
  with d'(1) e(1) p show ?case by auto
qed

lemma set_rect: "(a, b, c') \<in> set (rect_pts x y w h c) \<longleftrightarrow> x \<le> a \<and> a < x + w \<and> y \<le> b \<and> b < y + h \<and> c' = c"
proof -
  have "(a, b, c') \<in> set (rect_pts x y w h c) \<longleftrightarrow> (\<exists>yy<h. \<exists>xx<w. a = x + xx \<and> b = y + yy \<and> c' = c)"
    by (force simp: rect_pts_def)
  also have "\<dots> \<longleftrightarrow> x \<le> a \<and> a < x + w \<and> y \<le> b \<and> b < y + h \<and> c' = c"
    using le_iff_add [of x a] le_iff_add [of y b] by auto
  finally show ?thesis .
qed

lemma rect_exact:
  assumes "fb_ok d" "x + w \<le> fb_w d" "y + h \<le> fb_h d"
  shows "\<exists>d'. fb_rect x y w h c d = Some d' \<and> drawn ({x..<x + w} \<times> {y..<y + h}) (\<lambda>_ _. c) d d'"
proof -
  have "{(a, b). \<exists>c'. (a, b, c') \<in> set (rect_pts x y w h c)} = {x..<x + w} \<times> {y..<y + h}" by (auto simp: set_rect)
  with draw_exact [OF assms(1), of "rect_pts x y w h c" "\<lambda>_ _. c"] assms(2,3) show ?thesis
    by (simp add: fb_rect_def set_rect)
qed

lemma div_cell: "0 < (n::nat) \<Longrightarrow> x div n * n \<le> x" "0 < n \<Longrightarrow> x < x div n * n + n"
  using div_mult_mod_eq [of x n] mod_less_divisor [of n x] by linarith+

lemma in_cell:
  assumes "0 < (n::nat)"
  shows "k * n \<le> x \<and> x < k * n + n \<longleftrightarrow> x div n = k"
proof
  assume "k * n \<le> x \<and> x < k * n + n"
  then show "x div n = k" by (intro div_nat_eqI) (simp_all add: mult.commute)
qed (use div_cell [OF assms] in auto)

lemma in_bar:
  assumes "0 < s"
  shows "k * (16 * s) + 14 * s \<le> x \<and> x < k * (16 * s) + 14 * s + 2 * s \<longleftrightarrow> x div (16 * s) = k \<and> 14 * s \<le> x mod (16 * (s::nat))"
proof (cases "x div (16 * s) = k")
  case True
  define m where "m = x mod (16 * s)"
  have x: "x = k * (16 * s) + m" using True div_mult_mod_eq [of x "16 * s"] by (simp add: m_def)
  have m: "m < 16 * s" using assms by (simp add: m_def)
  have "k * (16 * s) + 14 * s \<le> x \<and> x < k * (16 * s) + 14 * s + 2 * s \<longleftrightarrow> 14 * s \<le> m"
  proof
    assume "14 * s \<le> m"
    then show "k * (16 * s) + 14 * s \<le> x \<and> x < k * (16 * s) + 14 * s + 2 * s" using x m by linarith
  qed (use x in linarith)
  then show ?thesis using True by (simp only: m_def simp_thms)
next
  case False
  have "\<not> (k * (16 * s) + 14 * s \<le> x \<and> x < k * (16 * s) + 14 * s + 2 * s)"
  proof
    assume "k * (16 * s) + 14 * s \<le> x \<and> x < k * (16 * s) + 14 * s + 2 * s"
    then have "k * (16 * s) \<le> x \<and> x < k * (16 * s) + 16 * s" by linarith
    then show False using False in_cell [of "16 * s" k x] assms by simp
  qed
  with False show ?thesis by simp
qed

lemma set_glyph:
  assumes "s = 1 \<or> s = 2"
  shows "(a, b, v) \<in> set (glyph_pts font s col row c color) \<longleftrightarrow>
     col * 8 * s \<le> a \<and> a < col * 8 * s + 8 * s \<and> row * 16 * s \<le> b \<and> b < row * 16 * s + 16 * s \<and>
     v = (if glyph_bit font c ((a - col * 8 * s) div s) ((b - row * 16 * s) div s) then color else FB_BG)"
proof -
  let ?x = "col * 8 * s" and ?y = "row * 16 * s"
  have one: "rect_pts i j 1 1 w = [(i, j, w)]" for i j w by (simp add: rect_pts_def)
  define g where "g rx ry = (if glyph_bit font c rx ry then color else FB_BG)" for rx ry
  have pts: "glyph_pts font s col row c color = concat (map (\<lambda>ry. concat (map (\<lambda>rx.
      rect_pts (?x + rx * s) (?y + ry * s) s s (g rx ry)) [0..<8])) [0..<16])"
    using assms by (auto simp: glyph_pts_def Let_def one g_def simp del: One_nat_def)
  have s: "0 < s" using assms by auto
  have "(a, b, v) \<in> set (glyph_pts font s col row c color) \<longleftrightarrow>
      (\<exists>ry<16. \<exists>rx<8. ?x + rx * s \<le> a \<and> a < ?x + rx * s + s \<and> ?y + ry * s \<le> b \<and> b < ?y + ry * s + s \<and>
        v = g rx ry)"
    unfolding pts by (simp add: set_rect Bex_def)
  also have "\<dots> \<longleftrightarrow> ?x \<le> a \<and> a < ?x + 8 * s \<and> ?y \<le> b \<and> b < ?y + 16 * s \<and>
      v = g ((a - ?x) div s) ((b - ?y) div s)" (is "?l \<longleftrightarrow> ?r")
  proof
    assume ?l
    then obtain ry rx where r: "ry < 16" "rx < 8" "?x + rx * s \<le> a" "a < ?x + rx * s + s" "?y + ry * s \<le> b" "b < ?y + ry * s + s"
      "v = g rx ry" by blast
    have "s * rx \<le> a - ?x" "a - ?x < s * Suc rx" "s * ry \<le> b - ?y" "b - ?y < s * Suc ry"
      using r(3-6) by (simp_all add: mult.commute)
    then have "(a - ?x) div s = rx" "(b - ?y) div s = ry" by (intro div_nat_eqI; simp)+
    moreover have "rx * s + s \<le> 8 * s" "ry * s + s \<le> 16 * s"
      using mult_le_mono1 [of "rx + 1" 8 s] mult_le_mono1 [of "ry + 1" 16 s] r(1,2) by (simp_all only: add_mult_distrib mult_1)
    ultimately show ?r using r(3-7) by (intro conjI) (linarith | simp)+
  next
    assume r: ?r
    let ?rx = "(a - ?x) div s" and ?ry = "(b - ?y) div s"
    have "?rx < 8" "?ry < 16" using r by (auto intro!: less_mult_imp_div_less)
    moreover have "?rx * s \<le> a - ?x" "a - ?x < ?rx * s + s" "?ry * s \<le> b - ?y" "b - ?y < ?ry * s + s"
      using div_cell [OF s] by simp_all
    ultimately show ?l using r by (intro exI [of _ ?ry] conjI exI [of _ ?rx]) linarith+
  qed
  finally show ?thesis unfolding g_def .
qed

text \<open>The scroll copies whole pixel rows and clears the last text row.\<close>

lemma scroll_exact:
  assumes "fb_ok d"
  shows "\<exists>d'. fb_scroll d = Some d' \<and> fb_geometry d' = fb_geometry d \<and> fb_cx d' = fb_cx d \<and> fb_cy d' = fb_cy d \<and>
     (\<forall>x<fb_w d. \<forall>y<fb_rows d * (16 * fb_scale d).
        px d' x y = (if y < (fb_rows d - 1) * (16 * fb_scale d) then px d x (y + 16 * fb_scale d) else rgb FB_BG))"
proof -
  let ?H = "16 * fb_scale d"
  let ?k = "?H * fb_pitch d"
  let ?n = "?k * (fb_rows d - 1)"
  have rows: "fb_rows d * ?H \<le> fb_h d" "0 < fb_rows d" using assms by (auto simp: fb_ok_def)
  then have rk: "(fb_rows d - 1) * ?H + ?H = fb_rows d * ?H" by (cases "fb_rows d") simp_all
  have mem: "?n + ?k \<le> length (fb_mem d)"
  proof -
    have "?n + ?k = ((fb_rows d - 1) * ?H + ?H) * fb_pitch d" by (simp add: algebra_simps)
    also have "\<dots> \<le> fb_h d * fb_pitch d" using rk rows by (intro mult_le_mono1) simp
    finally show ?thesis using assms by (simp add: fb_ok_def mult.commute)
  qed
  define e where "e = d\<lparr>fb_mem := take ?n (drop ?k (fb_mem d)) @ drop ?n (fb_mem d)\<rparr>"
  have eg: "fb_geometry e = fb_geometry d" using mem by (simp add: e_def fb_geometry_def)
  have eo: "fb_ok e" "fb_w e = fb_w d" "fb_h e = fb_h d" "fb_cx e = fb_cx d" "fb_cy e = fb_cy d"
    using fb_ok_geometry [OF eg] assms by (simp_all add: e_def)
  have sc: "fb_scroll d = fb_rect 0 ((fb_rows d - 1) * ?H) (fb_w d) ?H FB_BG e"
    using mem copy_down [OF mem] by (simp add: fb_scroll_def Let_def e_def mult.assoc)
  from rect_exact [OF eo(1), of 0 "fb_w d" "(fb_rows d - 1) * ?H" ?H FB_BG] eo rk rows obtain d' where
    d': "fb_scroll d = Some d'" "drawn ({0..<fb_w d} \<times> {(fb_rows d - 1) * ?H..<(fb_rows d - 1) * ?H + ?H}) (\<lambda>_ _. FB_BG) e d'"
    unfolding sc by auto
  have up: "px e x y = px d x (y + ?H)" if xy: "x < fb_w d" "y < (fb_rows d - 1) * ?H" for x y
  proof -
    have yh: "y < fb_h d" using xy(2) rk rows by linarith
    have "fb_addr x y d + fb_bpp d div 8 \<le> (y + 1) * fb_pitch d" by (rule pixel_inside(1) [OF assms xy(1) yh])
    also have "\<dots> \<le> ((fb_rows d - 1) * ?H) * fb_pitch d" using xy(2) by (intro mult_le_mono1) simp
    finally have "fb_addr x y d + fb_bpp d div 8 \<le> ?n" by (simp add: algebra_simps)
    moreover have "2 < fb_bpp d div 8" using assms by (auto simp: fb_ok_def)
    ultimately have i: "fb_addr x y d + i < ?n" if "i < 3" for i using that by linarith
    have a: "fb_addr x (y + ?H) d = fb_addr x y d + ?k" by (simp add: fb_addr_def algebra_simps)
    have m: "fb_mem e ! (fb_addr x y d + i) = fb_mem d ! (fb_addr x y d + ?k + i)" if "i < 3" for i
      using i [OF that] mem by (simp add: e_def nth_append ac_simps)
    have "fb_addr x y e = fb_addr x y d" by (simp add: e_def fb_addr_def)
    then show ?thesis unfolding px_def Let_def a using m [of 0] m [of 1] m [of 2] by simp
  qed
  have "px d' x y = (if y < (fb_rows d - 1) * ?H then px d x (y + ?H) else rgb FB_BG)"
    if "x < fb_w d" "y < fb_rows d * ?H" for x y
    using d'(2) that rk rows up eo by (auto simp: drawn_def)
  then show ?thesis using d' eg eo by (auto simp: drawn_def)
qed

section \<open>A picture of the canvas\<close>

text \<open>The colour of pixel \<open>(u, v)\<close> of a cell, and of a pixel of the screen with the window at row \<open>base\<close>.\<close>

definition cell_px :: "font \<Rightarrow> nat \<Rightarrow> u8 \<Rightarrow> nat \<Rightarrow> nat \<Rightarrow> u32" where
  "cell_px font s c u v = (if glyph_bit font c (u div s) (v div s) then FB_FG else FB_BG)"

definition screen_px :: "font \<Rightarrow> nat \<Rightarrow> bool \<Rightarrow> (nat \<Rightarrow> nat \<Rightarrow> u8) \<Rightarrow> nat \<Rightarrow> nat \<Rightarrow> nat \<Rightarrow> nat \<Rightarrow> nat \<Rightarrow> u32" where
  "screen_px font s cur cv base cx cy x y =
     (if cur \<and> x div (8 * s) = cx \<and> y div (16 * s) = cy \<and> 14 * s \<le> y mod (16 * s) then FB_FG
      else cell_px font s (cv (base + y div (16 * s)) (x div (8 * s))) (x mod (8 * s)) (y mod (16 * s)))"

text \<open>The cursor may be one row below the screen while a character is being processed.\<close>

definition fb_shows :: "font \<Rightarrow> bool \<Rightarrow> nat \<Rightarrow> canvas \<Rightarrow> fbcon \<Rightarrow> bool" where
  "fb_shows font cur base = (\<lambda>(cv, r, j) d. fb_ok d \<and> fb_cy d \<le> fb_rows d \<and> j < fb_cols d \<and> r = base + fb_cy d \<and> j = fb_cx d \<and> (fb_cy d = fb_rows d \<longrightarrow> j = 0) \<and>
     (\<forall>x<fb_cols d * (8 * fb_scale d). \<forall>y<fb_rows d * (16 * fb_scale d).
        px d x y = rgb (screen_px font (fb_scale d) cur cv base (fb_cx d) (fb_cy d) x y)) \<and>
     (\<forall>q k. r < q \<or> q = r \<and> j \<le> k \<longrightarrow> cv q k = 32))"

text \<open>Moving the cursor changes neither the pixels nor the geometry.\<close>

lemma cursor_moved:
  "px (e\<lparr>fb_cx := a\<rparr>) = px e" "px (e\<lparr>fb_cy := b\<rparr>) = px e" "fb_ok (e\<lparr>fb_cx := a\<rparr>) = fb_ok e" "fb_ok (e\<lparr>fb_cy := b\<rparr>) = fb_ok e"
  "px (e\<lparr>fb_cx := a, fb_cy := b\<rparr>) = px e" "fb_ok (e\<lparr>fb_cx := a, fb_cy := b\<rparr>) = fb_ok e"
  by (simp_all add: px_def fb_addr_def fb_ok_def fun_eq_iff)

lemma blank_cell: "\<forall>ry. font 0 ry = 0 \<Longrightarrow> cell_px font s 32 u v = FB_BG"
  by (simp add: cell_px_def glyph_bit_def glyph_char_def)

lemma screen_fits:
  assumes "fb_ok d"
  shows "fb_cols d * (8 * fb_scale d) \<le> fb_w d" "fb_rows d * (16 * fb_scale d) \<le> fb_h d" "0 < 8 * fb_scale d" "0 < 16 * fb_scale d"
  using assms by (auto simp: fb_ok_def)

lemma cell_fits:
  assumes "fb_ok d" "k < fb_cols d" "i < fb_rows d"
  shows "k * (8 * fb_scale d) + 8 * fb_scale d \<le> fb_w d" "i * (16 * fb_scale d) + 16 * fb_scale d \<le> fb_h d"
proof -
  have "(k + 1) * (8 * fb_scale d) \<le> fb_cols d * (8 * fb_scale d)" "(i + 1) * (16 * fb_scale d) \<le> fb_rows d * (16 * fb_scale d)"
    using assms(2,3) by (intro mult_le_mono1; simp)+
  then show "k * (8 * fb_scale d) + 8 * fb_scale d \<le> fb_w d" "i * (16 * fb_scale d) + 16 * fb_scale d \<le> fb_h d"
    using screen_fits [OF assms(1)] by (simp_all only: add_mult_distrib mult_1)
qed

text \<open>The cursor bar: the last two rows of the cell.\<close>

lemma cursor_drawn:
  assumes "fb_ok d" "fb_cx d < fb_cols d" "fb_cy d < fb_rows d"
  shows "\<exists>d'. fb_cursor on d = Some d' \<and>
    drawn {(x, y). x div (8 * fb_scale d) = fb_cx d \<and> y div (16 * fb_scale d) = fb_cy d \<and> 14 * fb_scale d \<le> y mod (16 * fb_scale d)}
      (\<lambda>_ _. if on then FB_FG else FB_BG) d d'"
proof -
  let ?s = "fb_scale d" and ?cx = "fb_cx d" and ?cy = "fb_cy d"
  let ?S = "{(x, y). x div (8 * ?s) = ?cx \<and> y div (16 * ?s) = ?cy \<and> 14 * ?s \<le> y mod (16 * ?s)}"
  note pos = screen_fits(3,4) [OF assms(1)]
  have y: "(?cy * 16 + 14) * ?s = ?cy * (16 * ?s) + 14 * ?s" by (simp add: algebra_simps)
  have S: "{?cx * 8 * ?s..<?cx * 8 * ?s + 8 * ?s} \<times> {(?cy * 16 + 14) * ?s..<(?cy * 16 + 14) * ?s + 2 * ?s} = ?S"
  proof (rule set_eqI, clarify)
    fix a b
    show "(a, b) \<in> {?cx * 8 * ?s..<?cx * 8 * ?s + 8 * ?s} \<times> {(?cy * 16 + 14) * ?s..<(?cy * 16 + 14) * ?s + 2 * ?s} \<longleftrightarrow> (a, b) \<in> ?S"
      using in_cell [OF pos(1), of ?cx a] in_bar [of ?s ?cy b] pos
      by (simp only: y mult.assoc mem_Sigma_iff atLeastLessThan_iff mem_Collect_eq prod.case)
  qed
  show ?thesis
    using rect_exact [OF assms(1), of "?cx * 8 * ?s" "8 * ?s" "(?cy * 16 + 14) * ?s" "2 * ?s" "if on then FB_FG else FB_BG"]
      cell_fits [OF assms] unfolding S by (simp add: fb_cursor_def Let_def y mult.assoc)
qed

lemma drawn_ok: "drawn S f d d' \<Longrightarrow> fb_ok d \<Longrightarrow> fb_ok d' \<and> fb_cols d' = fb_cols d \<and> fb_rows d' = fb_rows d \<and> fb_scale d' = fb_scale d \<and>
    fb_cx d' = fb_cx d \<and> fb_cy d' = fb_cy d"
  using fb_ok_geometry [of d' d] by (simp add: drawn_def fb_geometry_def)

lemma drawn_px:
  assumes "drawn S f d d'" "fb_ok d" "x < fb_cols d * (8 * fb_scale d)" "y < fb_rows d * (16 * fb_scale d)"
  shows "px d' x y = (if (x, y) \<in> S then rgb (f x y) else px d x y)"
  using assms screen_fits [OF assms(2)] by (simp add: drawn_def)

lemma cursor_off:
  assumes "fb_shows font cur base st d" "fb_cy d < fb_rows d" "\<forall>ry. font 0 ry = 0"
  shows "\<exists>d'. fb_cursor False d = Some d' \<and> fb_shows font False base st d' \<and> fb_cy d' < fb_rows d'"
proof -
  obtain cv r j where st: "st = (cv, r, j)" by (cases st)
  note d = assms(1) [unfolded st fb_shows_def, simplified]
  have ok: "fb_ok d" "fb_cx d < fb_cols d" using d by auto
  from cursor_drawn [OF ok assms(2), of False] obtain d' where d': "fb_cursor False d = Some d'"
    "drawn {(x, y). x div (8 * fb_scale d) = fb_cx d \<and> y div (16 * fb_scale d) = fb_cy d \<and> 14 * fb_scale d \<le> y mod (16 * fb_scale d)}
      (\<lambda>_ _. FB_BG) d d'" by auto
  have "px d' x y = rgb (screen_px font (fb_scale d) False cv base (fb_cx d) (fb_cy d) x y)"
    if xy: "x < fb_cols d * (8 * fb_scale d)" "y < fb_rows d * (16 * fb_scale d)" for x y
    using drawn_px [OF d'(2) ok(1) xy] d xy blank_cell [where font = font, OF assms(3)] by (auto simp: screen_px_def)
  then have "fb_shows font False base st d'" using d drawn_ok [OF d'(2) ok(1)] by (auto simp: st fb_shows_def)
  with d'(1) drawn_ok [OF d'(2) ok(1)] assms(2) show ?thesis by auto
qed

lemma cursor_on:
  assumes "fb_shows font False base st d" "fb_cy d < fb_rows d"
  shows "\<exists>d'. fb_cursor True d = Some d' \<and> fb_shows font True base st d' \<and> fb_cy d' < fb_rows d'"
proof -
  obtain cv r j where st: "st = (cv, r, j)" by (cases st)
  note d = assms(1) [unfolded st fb_shows_def, simplified]
  have ok: "fb_ok d" "fb_cx d < fb_cols d" using d by auto
  from cursor_drawn [OF ok assms(2), of True] obtain d' where d': "fb_cursor True d = Some d'"
    "drawn {(x, y). x div (8 * fb_scale d) = fb_cx d \<and> y div (16 * fb_scale d) = fb_cy d \<and> 14 * fb_scale d \<le> y mod (16 * fb_scale d)}
      (\<lambda>_ _. FB_FG) d d'" by auto
  have "px d' x y = rgb (screen_px font (fb_scale d) True cv base (fb_cx d) (fb_cy d) x y)"
    if xy: "x < fb_cols d * (8 * fb_scale d)" "y < fb_rows d * (16 * fb_scale d)" for x y
    using drawn_px [OF d'(2) ok(1) xy] d xy by (auto simp: screen_px_def)
  then have "fb_shows font True base st d'" using d drawn_ok [OF d'(2) ok(1)] by (auto simp: st fb_shows_def)
  with d'(1) drawn_ok [OF d'(2) ok(1)] assms(2) show ?thesis by auto
qed

lemma glyph_drawn:
  assumes "fb_ok d" "fb_cx d < fb_cols d" "fb_cy d < fb_rows d"
  shows "\<exists>d'. fb_glyph font (fb_cx d) (fb_cy d) c FB_FG d = Some d' \<and>
    drawn {(x, y). x div (8 * fb_scale d) = fb_cx d \<and> y div (16 * fb_scale d) = fb_cy d}
      (\<lambda>x y. cell_px font (fb_scale d) c (x mod (8 * fb_scale d)) (y mod (16 * fb_scale d))) d d'"
proof -
  let ?s = "fb_scale d" and ?cx = "fb_cx d" and ?cy = "fb_cy d"
  let ?ps = "glyph_pts font ?s ?cx ?cy c FB_FG"
  let ?f = "\<lambda>x y. cell_px font ?s c (x mod (8 * ?s)) (y mod (16 * ?s))"
  note pos = screen_fits(3,4) [OF assms(1)]
  have s: "?s = 1 \<or> ?s = 2" using assms(1) by (simp add: fb_ok_def)
  have pts: "(a, b, v) \<in> set ?ps \<longleftrightarrow> a div (8 * ?s) = ?cx \<and> b div (16 * ?s) = ?cy \<and> v = ?f a b" for a b v
  proof -
    have "a - ?cx * (8 * ?s) = a mod (8 * ?s)" if "a div (8 * ?s) = ?cx" using that by (metis minus_div_mult_eq_mod)
    moreover have "b - ?cy * (16 * ?s) = b mod (16 * ?s)" if "b div (16 * ?s) = ?cy" using that by (metis minus_div_mult_eq_mod)
    ultimately show ?thesis
      using set_glyph [OF s, of a b v font ?cx ?cy c FB_FG] in_cell [OF pos(1), of ?cx a] in_cell [OF pos(2), of ?cy b]
      by (simp only: cell_px_def mult.assoc) metis
  qed
  have inside: "x < fb_w d \<and> y < fb_h d \<and> v = ?f x y" if "(x, y, v) \<in> set ?ps" for x y v
    using that [unfolded pts] in_cell [OF pos(1), of ?cx x] in_cell [OF pos(2), of ?cy y] cell_fits [OF assms] by linarith
  have "{(x, y). \<exists>v. (x, y, v) \<in> set ?ps} = {(x, y). x div (8 * ?s) = ?cx \<and> y div (16 * ?s) = ?cy}" by (simp add: pts)
  with draw_exact [OF assms(1), of ?ps ?f, OF inside] show ?thesis by (simp add: fb_glyph_def)
qed

lemma advance_shows:
  assumes "fb_shows font False base (cv, r, j) d" "fb_cy d < fb_rows d" "c \<noteq> 13"
  shows "\<exists>d'. fb_advance font c d = Some d' \<and> fb_shows font False base (cv_put (fb_cols d) c (cv, r, j)) d' \<and> fb_cols d' = fb_cols d \<and> fb_rows d' = fb_rows d"
proof -
  note d = assms(1) [unfolded fb_shows_def, simplified]
  have ok: "fb_ok d" "fb_cx d < fb_cols d" using d by auto
  have plain: "screen_px font s False cv' base a b x y = screen_px font s False cv' base a' b' x y" for s cv' a b a' b' x y
    by (simp add: screen_px_def)
  show ?thesis
  proof (cases "c = 10")
    case True
    have "fb_shows font False base (cv, r + 1, 0) (d\<lparr>fb_cx := 0, fb_cy := fb_cy d + 1\<rparr>)"
      using d assms(2) plain [of _ cv "fb_cx d" "fb_cy d" _ _ 0 "fb_cy d + 1"] by (auto simp: fb_shows_def cursor_moved)
    then show ?thesis using True by (simp add: fb_advance_def cv_put_def)
  next
    case False
    let ?cv = "cv(r := (cv r)(j := c))"
    from glyph_drawn [OF ok assms(2), of font c] obtain e where e: "fb_glyph font (fb_cx d) (fb_cy d) c FB_FG d = Some e"
      "drawn {(x, y). x div (8 * fb_scale d) = fb_cx d \<and> y div (16 * fb_scale d) = fb_cy d}
        (\<lambda>x y. cell_px font (fb_scale d) c (x mod (8 * fb_scale d)) (y mod (16 * fb_scale d))) d e" by blast
    note k = drawn_ok [OF e(2) ok(1)]
    have pic: "px e x y = rgb (screen_px font (fb_scale d) False ?cv base a b x y)"
      if xy: "x < fb_cols d * (8 * fb_scale d)" "y < fb_rows d * (16 * fb_scale d)" for x y a b
      using drawn_px [OF e(2) ok(1) xy] d xy by (auto simp: screen_px_def)
    have blank: "?cv q k = 32" if "r < q \<or> q = r \<and> j < k" for q k using d that by auto
    show ?thesis
    proof (cases "j + 1 \<ge> fb_cols d")
      case True
      have "fb_shows font False base (?cv, r + 1, 0) (e\<lparr>fb_cx := 0, fb_cy := fb_cy e + 1\<rparr>)"
        using k pic d blank assms(2) by (auto simp: fb_shows_def cursor_moved)
      then show ?thesis using True False assms(3) e(1) k d by (simp add: fb_advance_def cv_put_def)
    next
      case nw: False
      have "fb_shows font False base (?cv, r, j + 1) (e\<lparr>fb_cx := fb_cx e + 1\<rparr>)"
        using k pic d blank assms(2) nw by (auto simp: fb_shows_def cursor_moved)
      then show ?thesis using nw False assms(3) e(1) k d by (simp add: fb_advance_def cv_put_def)
    qed
  qed
qed

lemma scroll_shows:
  assumes "fb_shows font False base (cv, r, j) d" "fb_cy d = fb_rows d" "\<forall>ry. font 0 ry = 0"
  shows "\<exists>d'. fb_scroll d = Some d' \<and> fb_shows font False (base + 1) (cv, r, j) (d'\<lparr>fb_cy := fb_rows d' - 1\<rparr>) \<and>
    fb_rows d' = fb_rows d \<and> fb_cols d' = fb_cols d"
proof -
  note d = assms(1) [unfolded fb_shows_def, simplified]
  let ?s = "fb_scale d"
  have ok: "fb_ok d" using d by auto
  from scroll_exact [OF ok] obtain e where e: "fb_scroll d = Some e" "fb_geometry e = fb_geometry d" "fb_cx e = fb_cx d"
    "\<forall>x<fb_w d. \<forall>y<fb_rows d * (16 * ?s). px e x y =
      (if y < (fb_rows d - 1) * (16 * ?s) then px d x (y + 16 * ?s) else rgb FB_BG)" by blast
  have g: "fb_ok e" "fb_rows e = fb_rows d" "fb_cols e = fb_cols d" "fb_scale e = ?s"
    using fb_ok_geometry [OF e(2)] ok e(2) by (simp_all add: fb_geometry_def)
  have rows: "0 < fb_rows d" using ok by (simp add: fb_ok_def)
  have "px e x y = rgb (screen_px font ?s False cv (base + 1) a b x y)"
    if xy: "x < fb_cols d * (8 * ?s)" "y < fb_rows d * (16 * ?s)" for x y a b
  proof -
    note pos = screen_fits(3,4) [OF ok]
    have w: "x < fb_w d" using xy(1) screen_fits(1) [OF ok] by linarith
    have rk: "(fb_rows d - 1) * (16 * ?s) + 16 * ?s = fb_rows d * (16 * ?s)" using rows by (cases "fb_rows d") simp_all
    show ?thesis
    proof (cases "y < (fb_rows d - 1) * (16 * ?s)")
      case True
      have "y + 16 * ?s < fb_rows d * (16 * ?s)" using True rk by linarith
      moreover have "(y + 16 * ?s) div (16 * ?s) = y div (16 * ?s) + 1" "(y + 16 * ?s) mod (16 * ?s) = y mod (16 * ?s)"
        using pos div_add_self2 [of "16 * ?s" y] by auto
      ultimately show ?thesis using e(4) w xy True d by (simp add: screen_px_def)
    next
      case False
      then have "y div (16 * ?s) = fb_rows d - 1" using in_cell [OF pos(2), of "fb_rows d - 1" y] xy(2) rk by linarith
      then have "cv (base + 1 + y div (16 * ?s)) k = 32" if "x div (8 * ?s) = k" for k
        using d assms(2) rows by auto
      then show ?thesis using e(4) w xy False blank_cell [where font = font, OF assms(3)] by (simp add: screen_px_def)
    qed
  qed
  moreover have fresh: "cv (base + fb_rows d) k = 32" for k using d assms(2) by auto
  ultimately have "fb_shows font False (base + 1) (cv, r, j) (e\<lparr>fb_cy := fb_rows e - 1\<rparr>)"
    using g e(3) d assms(2) rows fresh by (simp add: fb_shows_def cursor_moved)
  then show ?thesis using e(1) g by blast
qed

lemma putchar_shows:
  assumes "fb_shows font cur base (cv, r, j) d" "fb_cy d < fb_rows d" "\<forall>ry. font 0 ry = 0" "c \<noteq> 13"
    and "st' = cv_put (fb_cols d) c (cv, r, j)"
  shows "\<exists>d'. fb_putchar font c d = Some d' \<and> fb_shows font True (max base (fst (snd st') - (fb_rows d - 1))) st' d' \<and>
    fb_cy d' < fb_rows d' \<and> fb_rows d' = fb_rows d \<and> fb_cols d' = fb_cols d"
proof -
  have geo: "fb_rows d' = fb_rows d \<and> fb_cols d' = fb_cols d" if "fb_cursor on d = Some d'" "fb_ok d" "fb_cx d < fb_cols d" "fb_cy d < fb_rows d" for on d d'
    using cursor_drawn [OF that(2-4), of on] that(1) drawn_ok [OF _ that(2)] by auto
  have ok: "fb_ok d" "fb_cx d < fb_cols d" using assms(1) by (auto simp: fb_shows_def)
  from cursor_off [OF assms(1-3)] obtain e where e: "fb_cursor False d = Some e" "fb_shows font False base (cv, r, j) e" "fb_cy e < fb_rows e" by blast
  note ge = geo [OF e(1) ok assms(2)]
  from advance_shows [OF e(2,3) assms(4)] obtain f where f: "fb_advance font c e = Some f" "fb_shows font False base st' f"
    "fb_cols f = fb_cols d" "fb_rows f = fb_rows d" unfolding assms(5) using ge by auto
  obtain cv' r' j' where st': "st' = (cv', r', j')" by (cases st')
  have fr: "fb_cy f \<le> fb_rows f" "r' = base + fb_cy f" "0 < fb_rows f" using f(2) by (auto simp: fb_shows_def st' fb_ok_def)
  have "\<exists>g. (if fb_cy f \<ge> fb_rows f then map_option (\<lambda>d. d\<lparr>fb_cy := fb_rows d - 1\<rparr>) (fb_scroll f) else Some f) = Some g \<and>
      fb_shows font False (max base (r' - (fb_rows d - 1))) st' g \<and> fb_cy g < fb_rows g \<and> fb_rows g = fb_rows d \<and> fb_cols g = fb_cols d"
  proof (cases "fb_cy f = fb_rows f")
    case True
    from scroll_shows [OF f(2) [unfolded st'] True assms(3)] obtain g where g: "fb_scroll f = Some g"
      "fb_shows font False (base + 1) st' (g\<lparr>fb_cy := fb_rows g - 1\<rparr>)" "fb_rows g = fb_rows f" "fb_cols g = fb_cols f" unfolding st' by blast
    have "max base (r' - (fb_rows d - 1)) = base + 1" using True fr f(4) by simp
    with g True f fr show ?thesis by simp
  next
    case False
    then have "max base (r' - (fb_rows d - 1)) = base" using fr f(4) by simp
    with False f fr show ?thesis by simp
  qed
  then obtain g where g: "(if fb_cy f \<ge> fb_rows f then map_option (\<lambda>d. d\<lparr>fb_cy := fb_rows d - 1\<rparr>) (fb_scroll f) else Some f) = Some g"
    "fb_shows font False (max base (r' - (fb_rows d - 1))) st' g" "fb_cy g < fb_rows g" "fb_rows g = fb_rows d" "fb_cols g = fb_cols d" by blast
  from cursor_on [OF g(2,3)] obtain d' where d': "fb_cursor True g = Some d'"
    "fb_shows font True (max base (r' - (fb_rows d - 1))) st' d'" "fb_cy d' < fb_rows d'" by blast
  have "fb_ok g" "fb_cx g < fb_cols g" using g(2) by (auto simp: fb_shows_def st')
  from geo [OF d'(1) this g(3)] g(4,5) d' e(1) f(1) g(1) show ?thesis by (simp add: fb_putchar_def st')
qed

lemma fb_write_shows:
  assumes "fb_shows font cur base st d" "fb_cy d < fb_rows d" "\<forall>ry. font 0 ry = 0" "13 \<notin> set s"
  shows "\<exists>d'. fb_write font s d = Some d' \<and>
    fb_shows font (cur \<or> s \<noteq> []) (max base (fst (snd (fold (cv_put (fb_cols d)) s st)) - (fb_rows d - 1))) (fold (cv_put (fb_cols d)) s st) d'"
  using assms
proof (induction s arbitrary: base st d cur)
  case Nil
  obtain cv r j where st: "st = (cv, r, j)" by (cases st)
  with Nil.prems have "max base (r - (fb_rows d - 1)) = base" by (auto simp: fb_shows_def)
  with Nil.prems st show ?case by simp
next
  case (Cons c s)
  obtain cv r j where st: "st = (cv, r, j)" by (cases st)
  let ?n = "fb_cols d" and ?R = "fb_rows d - 1"
  let ?st = "cv_put ?n c st"
  have c: "c \<noteq> 13" "13 \<notin> set s" using Cons.prems(4) by auto
  from putchar_shows [OF Cons.prems(1) [unfolded st] Cons.prems(2,3) c(1) refl] obtain e where
    e: "fb_putchar font c d = Some e" "fb_shows font True (max base (fst (snd ?st) - ?R)) ?st e" "fb_cy e < fb_rows e"
    "fb_rows e = fb_rows d" "fb_cols e = ?n" unfolding st by blast
  from Cons.IH [OF e(2,3) Cons.prems(3) c(2)] obtain d' where d': "fb_write font s e = Some d'"
    "fb_shows font True (max (max base (fst (snd ?st) - ?R)) (fst (snd (fold (cv_put ?n) s ?st)) - ?R)) (fold (cv_put ?n) s ?st) d'"
    using e(4,5) by auto
  have "max (max base (fst (snd ?st) - ?R)) (fst (snd (fold (cv_put ?n) s ?st)) - ?R) = max base (fst (snd (fold (cv_put ?n) s ?st)) - ?R)"
    using cv_row_mono [of ?st ?n s] by (auto simp: max_def)
  with d' e(1) show ?case by simp
qed

lemma blank_screen_shows:
  assumes "fb_ok d" "fb_cx d = 0" "fb_cy d = 0" "\<forall>x<fb_w d. \<forall>y<fb_h d. px d x y = rgb FB_BG" "\<forall>ry. font 0 ry = 0"
  shows "fb_shows font False 0 (\<lambda>_ _. 32, 0, 0) d"
proof -
  have "px d x y = rgb (screen_px font (fb_scale d) False (\<lambda>_ _. 32) 0 0 0 x y)"
    if "x < fb_cols d * (8 * fb_scale d)" "y < fb_rows d * (16 * fb_scale d)" for x y
    using that assms(4) screen_fits [OF assms(1)] blank_cell [where font = font, OF assms(5)] by (simp add: screen_px_def)
  then show ?thesis using assms(1-3) by (simp add: fb_shows_def fb_ok_def)
qed

text \<open>Attaching to a blank screen gives such a picture: the cursor starts in the top left cell.\<close>

lemma attach_blank:
  assumes "fb_init phy w h pitch bpp ret m = Some d" "bpp = 24 \<or> bpp = 32" "w * (bpp div 8) \<le> pitch" "length m = pitch * h" "pitch * h < 2 ^ 32"
    and "\<forall>x<w. \<forall>y<h. px d x y = rgb FB_BG" "\<forall>ry. font 0 ry = 0"
  shows "fb_shows font False 0 (\<lambda>_ _. 32, 0, 0) d"
proof -
  have same: "fb_geometry (fb_locate e) = fb_geometry e" "px (fb_locate e) = px e" for e
    by (auto simp: fb_locate_def fb_geometry_def px_def fb_addr_def fun_eq_iff split: option.split)
  from assms(1) obtain e where e: "d = fb_locate e" "fb_ok e" "fb_w e = w" "fb_h e = h"
    using assms(2-5) by (auto simp: fb_init_def fb_ok_def Let_def split: if_splits)
  have g: "fb_ok d" "fb_w d = w" "fb_h d = h" "fb_rows e * (16 * fb_scale e) \<le> h"
    using e same(1) [of e] fb_ok_geometry [of d e] screen_fits [OF e(2)] by (simp_all add: fb_geometry_def)
  have "\<not> row_used e r" if "r < fb_rows e" for r
  proof -
    have "y < h" if "y < r * 16 * fb_scale e + 16 * fb_scale e" for y
    proof -
      have "(r + 1) * (16 * fb_scale e) \<le> fb_rows e * (16 * fb_scale e)" using \<open>r < fb_rows e\<close> by (intro mult_le_mono1) simp
      then show ?thesis using that g(4) by (simp add: algebra_simps)
    qed
    then show ?thesis using assms(6) e same(2) [of e] by (simp add: row_used_def)
  qed
  then have "find (row_used e) (rev [0..<fb_rows e]) = None" by (simp add: find_None_iff)
  then have "fb_cx d = 0" "fb_cy d = 0" by (simp_all add: e(1) fb_locate_def)
  with blank_screen_shows [OF g(1), where font = font] g assms(6,7) show ?thesis by simp
qed

text \<open>
  C12. The frame buffer console paints its canvas: with 24 or 32 bits per pixel, either scale and any font whose blank is
  empty, every text without carriage returns is drawn without a write outside the frame buffer, and
  every pixel of the text area then has the colour of the canvas window that ends with the cursor's
  row, with the cursor bar at the cursor, however often the screen scrolled.
\<close>

theorem fb_paints_canvas:
  assumes "fb_shows font cur base st d" "fb_cy d < fb_rows d" "\<forall>ry. font 0 ry = 0" "13 \<notin> set s"
  shows "\<exists>d'. fb_write font s d = Some d' \<and>
    fb_shows font (cur \<or> s \<noteq> []) (max base (fst (snd (fold (cv_put (fb_cols d)) s st)) - (fb_rows d - 1))) (fold (cv_put (fb_cols d)) s st) d'"
  by (rule fb_write_shows [OF assms])

definition demo_fb :: fbcon where
  "demo_fb = \<lparr>fb_mem = replicate 512 0x10, fb_w = 8, fb_h = 16, fb_pitch = 32, fb_bpp = 32, fb_scale = 1, fb_cols = 1, fb_rows = 1,
     fb_cx = 0, fb_cy = 0\<rparr>"

theorem fb_paints_canvas_witness:
  "\<exists>d'. fb_write (\<lambda>c ry. if c = 33 then 0xff else 0) [65, 66] demo_fb = Some d' \<and> fb_ok d' \<and> fb_cx d' = 0"
proof -
  have b: "px demo_fb x y = rgb FB_BG" if "x < 8" "y < 16" for x y
    using that by (simp add: px_def fb_addr_def demo_fb_def rgb_def FB_BG_def Let_def)
  have "fb_shows (\<lambda>c ry. if c = 33 then 0xff else 0) False 0 (\<lambda>_ _. 32, 0, 0) demo_fb"
    using b by (intro blank_screen_shows) (auto simp: fb_ok_def demo_fb_def)
  from fb_paints_canvas [OF this, of "[65, 66]"] show ?thesis
    by (auto simp: demo_fb_def fb_shows_def cv_put_def)
qed

section \<open>Flaws\<close>

text \<open>
  Erasing the cursor paints its bar with the background and does not restore the glyph: a line end sent as carriage
  return and line feed wipes the last two pixel rows of the first character of the line.
\<close>

theorem fb_return_damages:
  assumes "fb_ok d" "fb_cx d < fb_cols d" "fb_cy d + 1 < fb_rows d" "fb_write font [13, 10] d = Some d'"
    and "x < 8 * fb_scale d" "y < fb_rows d * (16 * fb_scale d)" "y div (16 * fb_scale d) = fb_cy d" "14 * fb_scale d \<le> y mod (16 * fb_scale d)"
  shows "px d' x y = rgb FB_BG"
proof -
  let ?cy = "fb_cy d" and ?s = "fb_scale d"
  have cols: "0 < fb_cols d" using assms(1) by (simp add: fb_ok_def)
  from cursor_drawn [OF assms(1,2), of False] assms(3) obtain d1 where d1: "fb_cursor False d = Some d1" and k1: "drawn
    {(x, y). x div (8 * ?s) = fb_cx d \<and> y div (16 * ?s) = ?cy \<and> 14 * ?s \<le> y mod (16 * ?s)} (\<lambda>_ _. FB_BG) d d1" by auto
  note o1 = drawn_ok [OF k1 assms(1)]
  let ?d1 = "d1\<lparr>fb_cx := 0\<rparr>"
  have p2: "fb_ok ?d1" "fb_cx ?d1 < fb_cols ?d1" "fb_cy ?d1 < fb_rows ?d1" using o1 assms(3) cols by (simp_all add: cursor_moved)
  from cursor_drawn [OF p2, of True] obtain d2 where d2: "fb_cursor True ?d1 = Some d2" and k2: "drawn
    {(x, y). x div (8 * fb_scale ?d1) = fb_cx ?d1 \<and> y div (16 * fb_scale ?d1) = fb_cy ?d1 \<and> 14 * fb_scale ?d1 \<le> y mod (16 * fb_scale ?d1)}
      (\<lambda>_ _. FB_FG) ?d1 d2" by auto
  note o2 = drawn_ok [OF k2 p2(1)]
  have p3: "fb_ok d2" "fb_cx d2 < fb_cols d2" "fb_cy d2 < fb_rows d2" using o1 o2 assms(3) cols by simp_all
  from cursor_drawn [OF p3, of False] obtain d3 where d3: "fb_cursor False d2 = Some d3" and k3: "drawn
    {(x, y). x div (8 * fb_scale d2) = fb_cx d2 \<and> y div (16 * fb_scale d2) = fb_cy d2 \<and> 14 * fb_scale d2 \<le> y mod (16 * fb_scale d2)}
      (\<lambda>_ _. FB_BG) d2 d3" by auto
  note o3 = drawn_ok [OF k3 p3(1)]
  let ?d3 = "d3\<lparr>fb_cx := 0, fb_cy := fb_cy d3 + 1\<rparr>"
  have p4: "fb_ok ?d3" "fb_cx ?d3 < fb_cols ?d3" "fb_cy ?d3 < fb_rows ?d3" using o1 o2 o3 assms(3) cols by (simp_all add: cursor_moved)
  from cursor_drawn [OF p4, of True] obtain d4 where d4: "fb_cursor True ?d3 = Some d4" and k4: "drawn
    {(x, y). x div (8 * fb_scale ?d3) = fb_cx ?d3 \<and> y div (16 * fb_scale ?d3) = fb_cy ?d3 \<and> 14 * fb_scale ?d3 \<le> y mod (16 * fb_scale ?d3)}
      (\<lambda>_ _. FB_FG) ?d3 d4" by auto
  have "d' = d4"
    using assms(3,4) d1 d2 d3 d4 o1 o2 o3 by (simp add: fb_putchar_def fb_advance_def)
  moreover have "x < fb_cols d * (8 * ?s)" using assms(5) cols mult_le_mono1 [of 1 "fb_cols d" "8 * ?s"] by linarith
  ultimately show ?thesis
    using drawn_px [OF k4 p4(1), of x y] drawn_px [OF k3 p3(1), of x y] assms(5-8) o1 o2 o3 by (simp add: cursor_moved)
qed

text \<open>With 16 bits per pixel three bytes are written for every two: the last pixel of the buffer is written outside it.\<close>

theorem fb16_overrun:
  assumes "fb_bpp d = 16" "fb_pitch d = 2 * fb_w d" "length (fb_mem d) = fb_pitch d * fb_h d" "0 < fb_w d" "0 < fb_h d"
  shows "fb_px (fb_w d - 1) (fb_h d - 1) c d = None"
proof -
  obtain w h where "fb_w d = Suc w" "fb_h d = Suc h" using assms(4,5) by (metis Suc_pred)
  then show ?thesis using assms by (simp add: fb_px_def fb_addr_def Let_def)
qed

text \<open>
  C27. The frame buffer is never used when it can be: the system call that maps it returns the mapped address, here the
  non-zero \<^verbatim>\<open>0x40000000\<close>, and the daemon takes every result but 0 for a failure. With any frame buffer the
  kernel reports, a successful mapping makes the daemon continue on the text screen and print its
  banner and every later text there.
\<close>

theorem fb_never_attached:
  assumes "mem_map = 0x40000000" "length text_screen = 4000"
  shows "\<exists>v w. vgacond_main font phy_base width height pitch bpp mem_map m text_screen = Some (TextCon v) \<and>
    vga0_write font s (TextCon v) = Some (int (length s), TextCon w) \<and>
    vga_shows (fst (snd (fold (cv_put 80) (vga_banner @ s) (kernel_canvas text_screen))) - 24)
      (fold (cv_put 80) (vga_banner @ s) (kernel_canvas text_screen)) w"
proof -
  from vga_window [OF assms(2), of s] obtain w where w: "Option.bind (vga_start text_screen) (vga_write s) = Some w"
    "vga_shows (fst (snd (fold (cv_put 80) (vga_banner @ s) (kernel_canvas text_screen))) - 24)
      (fold (cv_put 80) (vga_banner @ s) (kernel_canvas text_screen)) w" by blast
  then obtain v where v: "vga_start text_screen = Some v" "vga_write s v = Some w" by (auto simp: bind_eq_Some_conv)
  then have "vga0_write font s (TextCon v) = Some (int (length s), TextCon w)" by (cases s) (auto simp: vga0_write_def)
  moreover have "fb_init phy_base width height pitch bpp mem_map m = None" using assms(1) by (simp add: fb_init_def Let_def)
  ultimately show ?thesis using v(1) w(2) by (auto simp: vgacond_main_def)
qed

theorem fb_never_attached_witness:
  "\<exists>v w. vgacond_main (\<lambda>_ _. 0) 0xc0000000 1024 768 4096 32 0x40000000 [] (replicate 4000 32) = Some (TextCon v) \<and>
    vga0_write (\<lambda>_ _. 0) [72, 105] (TextCon v) = Some (2, TextCon w)"
  using fb_never_attached [of "0x40000000" "replicate 4000 32" "\<lambda>_ _. 0" "0xc0000000" 1024 768 4096 32 "[]" "[72, 105]"]
  by (simp add: length_replicate) blast

end
