(* ===== verification/Q8b_Uartd.thy ===== *)
theory Q8b_Uartd
  imports Q8b_Geni Char_Dev
begin

text \<open>
  The serial console of the Q8B board (\<^verbatim>\<open>src/q8b/system/drivers/uartd/uartd.c\<close>): register setup, output in words of up to
  four bytes, and the receive FIFO emptied into a character buffer (\<^verbatim>\<open>Char_Dev\<close>).

  The controller answers from lists: \<open>gu_answers\<close> says for each status question in order whether the flag was set or a
  bounded wait saw its condition (no once it is used up), \<open>gu_status\<close> and \<open>gu_words\<close> are the coming readings of the
  receive FIFO's status and data registers. \<open>gu_log\<close> keeps the register writes.

  Properties: a write puts exactly its text on the line, less the words whose wait timed out; the receive side hands
  on exactly the bytes the controller packed; the polling delay stays between its limits.
\<close>

section \<open>Registers and state\<close>

definition GENI_FORCE_DEFAULT_REG :: nat where "GENI_FORCE_DEFAULT_REG = 0x020"
definition SE_GENI_S_CMD0 :: nat where "SE_GENI_S_CMD0 = 0x630"
definition SE_GENI_S_CMD_CTRL_REG :: nat where "SE_GENI_S_CMD_CTRL_REG = 0x634"
definition SE_GENI_S_IRQ_EN :: nat where "SE_GENI_S_IRQ_EN = 0x644"
definition SE_GENI_S_IRQ_CLEAR :: nat where "SE_GENI_S_IRQ_CLEAR = 0x648"
definition SE_GENI_SER_M_CLK :: nat where "SE_GENI_SER_M_CLK = 0x048"
definition SE_GENI_SER_S_CLK :: nat where "SE_GENI_SER_S_CLK = 0x04c"
definition SE_GENI_TX_FIFOn :: nat where "SE_GENI_TX_FIFOn = 0x700"
definition SE_GSI_EVENT_EN :: nat where "SE_GSI_EVENT_EN = 0xe18"
definition SE_IRQ_EN :: nat where "SE_IRQ_EN = 0xe1c"
definition SE_DMA_GENERAL_CFG :: nat where "SE_DMA_GENERAL_CFG = 0xe30"
definition SE_DMA_TX_IRQ_CLEAR :: nat where "SE_DMA_TX_IRQ_CLEAR = 0xc50"
definition SE_DMA_RX_IRQ_CLEAR :: nat where "SE_DMA_RX_IRQ_CLEAR = 0xd44"
definition SE_UART_TX_TRANS_CFG :: nat where "SE_UART_TX_TRANS_CFG = 0x25c"
definition SE_UART_TX_WORD_LEN :: nat where "SE_UART_TX_WORD_LEN = 0x268"
definition SE_UART_TX_STOP_BIT_LEN :: nat where "SE_UART_TX_STOP_BIT_LEN = 0x26c"
definition SE_UART_TX_TRANS_LEN :: nat where "SE_UART_TX_TRANS_LEN = 0x270"
definition SE_UART_RX_TRANS_CFG :: nat where "SE_UART_RX_TRANS_CFG = 0x280"
definition SE_UART_RX_WORD_LEN :: nat where "SE_UART_RX_WORD_LEN = 0x28c"
definition SE_UART_RX_STALE_CNT :: nat where "SE_UART_RX_STALE_CNT = 0x294"
definition SE_UART_TX_PARITY_CFG :: nat where "SE_UART_TX_PARITY_CFG = 0x2a4"
definition SE_UART_RX_PARITY_CFG :: nat where "SE_UART_RX_PARITY_CFG = 0x2a8"
definition SE_UART_LOOPBACK_CFG :: nat where "SE_UART_LOOPBACK_CFG = 0x22c"
definition M_CMD_DONE_EN :: u32 where "M_CMD_DONE_EN = push_bit 0 1"
definition M_CMD_ABORT_EN :: u32 where "M_CMD_ABORT_EN = push_bit 5 1"
definition M_TX_FIFO_WATERMARK_EN :: u32 where "M_TX_FIFO_WATERMARK_EN = push_bit 30 1"
definition UART_START_TX :: u32 where "UART_START_TX = 1"
definition UART_START_READ :: u32 where "UART_START_READ = 1"
definition DEF_TX_WM :: u32 where "DEF_TX_WM = 2"
definition UART_PACKING_CFG0 :: u32 where "UART_PACKING_CFG0 = 0x0004380e"
definition UART_PACKING_CFG1 :: u32 where "UART_PACKING_CFG1 = 0x000c3e0e"
definition UART_CTS_MASK :: u32 where "UART_CTS_MASK = push_bit 1 1"
definition S_CMD_ABORT :: u32 where "S_CMD_ABORT = push_bit 1 1"
definition S_CMD_DONE_EN :: u32 where "S_CMD_DONE_EN = push_bit 0 1"
definition S_CMD_CANCEL_EN :: u32 where "S_CMD_CANCEL_EN = push_bit 4 1"
definition S_CMD_ABORT_EN :: u32 where "S_CMD_ABORT_EN = push_bit 5 1"
definition S_RX_FIFO_WATERMARK_EN :: u32 where "S_RX_FIFO_WATERMARK_EN = push_bit 26 1"
definition S_RX_FIFO_LAST_EN :: u32 where "S_RX_FIFO_LAST_EN = push_bit 27 1"
definition RX_FIFO_WC_MSK :: u32 where "RX_FIFO_WC_MSK = 0x01ffffff"
definition RX_LAST :: u32 where "RX_LAST = push_bit 31 1"
definition RX_LAST_BYTE_VALID_MSK :: u32 where "RX_LAST_BYTE_VALID_MSK = push_bit 28 7"
definition RX_LAST_BYTE_VALID_SHFT :: nat where "RX_LAST_BYTE_VALID_SHFT = 28"

record 'b geni_uart =
  gu_regs :: regs
  gu_log :: "(nat \<times> u32) list"
  gu_answers :: "bool list"
  gu_status :: "u32 list"
  gu_words :: "u32 list"
  gu_RxBuf :: 'b
  gu_idle_sleep_us :: u32

definition gu_rd :: "nat \<Rightarrow> 'b geni_uart \<Rightarrow> u32" where
  "gu_rd off d = gu_regs d off"

definition gu_wr :: "nat \<Rightarrow> u32 \<Rightarrow> 'b geni_uart \<Rightarrow> 'b geni_uart" where
  "gu_wr off v d = d\<lparr>gu_regs := (gu_regs d)(off := v), gu_log := gu_log d @ [(off, v)]\<rparr>"

definition gu_ask :: "'b geni_uart \<Rightarrow> bool \<times> 'b geni_uart" where
  "gu_ask d = (case gu_answers d of [] \<Rightarrow> (False, d) | a # as \<Rightarrow> (a, d\<lparr>gu_answers := as\<rparr>))"

definition rx_status :: "'b geni_uart \<Rightarrow> u32 \<times> 'b geni_uart" where
  "rx_status d = (case gu_status d of [] \<Rightarrow> (0, d) | s # ss \<Rightarrow> (s, d\<lparr>gu_status := ss\<rparr>))"

definition rx_word :: "'b geni_uart \<Rightarrow> u32 \<times> 'b geni_uart" where
  "rx_word d = (case gu_words d of [] \<Rightarrow> (0, d) | w # ws \<Rightarrow> (w, d\<lparr>gu_words := ws\<rparr>))"

section \<open>Output\<close>

definition geni_send :: "u8 list \<Rightarrow> 'b geni_uart \<Rightarrow> 'b geni_uart" where
  "geni_send data d =
     (let count = length data
      in if count = 0 \<or> count > 4 then d
         else let word = word_of_bytes data;
                  d = gu_wr SE_GENI_TX_WATERMARK_REG DEF_TX_WM d;
                  d = gu_wr SE_GENI_M_IRQ_CLEAR (M_CMD_DONE_EN OR M_TX_FIFO_WATERMARK_EN OR M_CMD_ABORT_EN) d;
                  d = gu_wr SE_UART_TX_TRANS_LEN (of_nat count) d;
                  d = gu_wr SE_GENI_M_CMD0 (push_bit M_OPCODE_SHIFT UART_START_TX) d;
                  (ok, d) = gu_ask d
              in if \<not> ok
                 then let d = gu_wr SE_GENI_M_CMD_CTRL_REG (push_bit 1 1) d
                      in gu_wr SE_GENI_M_IRQ_CLEAR M_CMD_ABORT_EN d
                 else let d = gu_wr SE_GENI_TX_FIFOn word d;
                          d = gu_wr SE_GENI_M_IRQ_CLEAR M_TX_FIFO_WATERMARK_EN d;
                          (ok, d) = gu_ask d;
                          d = (if ok then d
                               else gu_wr SE_GENI_M_IRQ_CLEAR M_CMD_ABORT_EN (gu_wr SE_GENI_M_CMD_CTRL_REG (push_bit 1 1) d))
                      in gu_wr SE_GENI_M_IRQ_CLEAR M_CMD_DONE_EN d)"

text \<open>One character into the word buffer of \<open>uart_write\<close>, which is sent when it is full.\<close>

definition word_put :: "u8 \<Rightarrow> u8 list \<times> 'b geni_uart \<Rightarrow> u8 list \<times> 'b geni_uart" where
  "word_put c = (\<lambda>(word, d). let word = word @ [c] in if length word = 4 then ([], geni_send word d) else (word, d))"

definition gu_write :: "u8 list \<Rightarrow> 'b geni_uart \<Rightarrow> int \<times> 'b geni_uart" where
  "gu_write s d =
     (let (word, d) = fold (\<lambda>c st. word_put c (if c = 10 then word_put 13 st else st)) s ([], d)
      in (int (length s), if word \<noteq> [] then geni_send word d else d))"

section \<open>Setup\<close>

definition geni_rx_stop :: "'b geni_uart \<Rightarrow> 'b geni_uart" where
  "geni_rx_stop d =
     (let (active, d) = gu_ask d;
          d = (if active then snd (gu_ask (gu_wr SE_GENI_S_CMD_CTRL_REG S_CMD_ABORT d)) else d);
          d = gu_wr SE_GENI_S_IRQ_CLEAR 0xffffffff d
      in gu_wr GENI_FORCE_DEFAULT_REG 1 d)"

fun flush_pass :: "nat \<Rightarrow> 'b geni_uart \<Rightarrow> 'b geni_uart" where
  "flush_pass 0 d = d"
| "flush_pass (Suc n) d =
     (let (st, d) = rx_status d;
          words = unat (st AND RX_FIFO_WC_MSK)
      in if words = 0 then d
         else flush_pass n (((\<lambda>d. snd (rx_word d)) ^^ (if words > 64 then 64 else words)) d))"

definition geni_rx_flush_fifo :: "'b geni_uart \<Rightarrow> 'b geni_uart" where
  "geni_rx_flush_fifo d = flush_pass 4 d"

definition geni_hw_init :: "'b geni_uart \<Rightarrow> 'b geni_uart" where
  "geni_hw_init d =
     (let d = gu_wr SE_GENI_CGC_CTRL (gu_rd SE_GENI_CGC_CTRL d OR 0x7f) d;
          d = gu_wr SE_DMA_GENERAL_CFG (gu_rd SE_DMA_GENERAL_CFG d OR 0xf) d;
          d = gu_wr GENI_OUTPUT_CTRL 0x7f d;
          d = gu_wr GENI_FORCE_DEFAULT_REG 1 d;
          d = gu_wr SE_GSI_EVENT_EN 0 d;
          d = gu_wr SE_GENI_DMA_MODE_EN (gu_rd SE_GENI_DMA_MODE_EN d AND NOT 1) d;
          d = gu_wr SE_GENI_BYTE_GRAN 0 d;
          d = gu_wr SE_GENI_M_IRQ_CLEAR 0xffffffff d;
          d = gu_wr SE_GENI_S_IRQ_CLEAR 0xffffffff d;
          d = gu_wr SE_DMA_TX_IRQ_CLEAR 0xffffffff d;
          d = gu_wr SE_DMA_RX_IRQ_CLEAR 0xffffffff d;
          d = gu_wr SE_IRQ_EN 0xffffffff d;
          d = gu_wr SE_GENI_M_IRQ_EN 0x33c0007f d;
          d = gu_wr SE_GENI_RX_WATERMARK_REG 2 d
      in gu_wr SE_GENI_RX_RFR_WATERMARK_REG 30 d)"

definition geni_rx_start :: "'b geni_uart \<Rightarrow> 'b geni_uart" where
  "geni_rx_start d =
     (let d = geni_rx_stop d;
          d = geni_rx_flush_fifo d;
          d = gu_wr SE_GENI_S_IRQ_CLEAR
            (S_CMD_DONE_EN OR S_CMD_CANCEL_EN OR S_CMD_ABORT_EN OR S_RX_FIFO_WATERMARK_EN OR S_RX_FIFO_LAST_EN) d;
          d = gu_wr SE_GENI_RX_PACKING_CFG0 UART_PACKING_CFG0 d;
          d = gu_wr SE_GENI_RX_PACKING_CFG1 UART_PACKING_CFG1 d;
          d = gu_wr SE_UART_RX_TRANS_CFG 0 d;
          d = gu_wr SE_UART_RX_PARITY_CFG 0 d;
          d = gu_wr SE_UART_RX_WORD_LEN 8 d;
          d = gu_wr SE_UART_RX_STALE_CNT 40 d;
          d = gu_wr SE_GENI_S_IRQ_EN 0x03003e3f d;
          d = gu_wr SE_GENI_SER_M_CLK (gu_rd SE_GENI_SER_M_CLK d OR 1) d;
          d = gu_wr SE_GENI_SER_S_CLK (gu_rd SE_GENI_SER_S_CLK d OR 1) d
      in gu_wr SE_GENI_S_CMD0 (push_bit M_OPCODE_SHIFT UART_START_READ) d)"

definition geni_init :: "'b geni_uart \<Rightarrow> 'b geni_uart" where
  "geni_init d =
     (let d = geni_rx_stop d;
          d = geni_hw_init d;
          d = gu_wr SE_UART_LOOPBACK_CFG 0 d;
          d = gu_wr SE_GENI_TX_PACKING_CFG0 UART_PACKING_CFG0 d;
          d = gu_wr SE_GENI_TX_PACKING_CFG1 UART_PACKING_CFG1 d;
          d = gu_wr SE_UART_TX_TRANS_CFG UART_CTS_MASK d;
          d = gu_wr SE_UART_TX_PARITY_CFG 0 d;
          d = gu_wr SE_UART_TX_WORD_LEN 8 d;
          d = gu_wr SE_UART_TX_STOP_BIT_LEN 0 d;
          d = gu_wr SE_GENI_TX_WATERMARK_REG DEF_TX_WM d;
          d = gu_wr SE_GENI_M_IRQ_CLEAR (M_CMD_DONE_EN OR M_CMD_ABORT_EN OR M_TX_FIFO_WATERMARK_EN) d
      in geni_rx_start d)"

section \<open>Input\<close>

text \<open>The loop of \<open>drain_rx\<close> over the remaining words: the last one gives \<open>last_n\<close> bytes, the others four.\<close>

fun drain_words :: "'b charbuf_ops \<Rightarrow> nat \<Rightarrow> nat \<Rightarrow> 'b geni_uart \<Rightarrow> 'b geni_uart" where
  "drain_words cb 0 last_n d = d"
| "drain_words cb (Suc k) last_n d =
     (let (word, d) = rx_word d;
          n = (if k = 0 then last_n else 4)
      in drain_words cb k last_n (d\<lparr>gu_RxBuf := cb_pushes cb (word_bytes n word) (gu_RxBuf d)\<rparr>))"

definition drain_rx :: "'b charbuf_ops \<Rightarrow> 'b geni_uart \<Rightarrow> bool \<times> 'b geni_uart" where
  "drain_rx cb d =
     (let (status, d) = rx_status d;
          word_cnt = unat (status AND RX_FIFO_WC_MSK)
      in if word_cnt = 0 then (False, d)
         else let last_partial = status AND RX_LAST;
                  last_valid = drop_bit RX_LAST_BYTE_VALID_SHFT (status AND RX_LAST_BYTE_VALID_MSK);
                  word_cnt = (if word_cnt > 64 then 64 else word_cnt);
                  last_n = (if last_partial \<noteq> 0 \<and> last_valid \<noteq> 0 then unat last_valid else 4)
              in (True, drain_words cb word_cnt last_n d))"

text \<open>\<open>None\<close> is \<^verbatim>\<open>VFS_ERR_RETRY\<close>.\<close>

definition gu_read :: "'b charbuf_ops \<Rightarrow> int \<Rightarrow> 'b geni_uart \<Rightarrow> u8 list option \<times> 'b geni_uart" where
  "gu_read cb sz d =
     (let (cs, b) = cb_pops cb (nat sz) (gu_RxBuf d) in (if cs = [] then None else Some cs, d\<lparr>gu_RxBuf := b\<rparr>))"

definition gu_check_poll_events :: "'b charbuf_ops \<Rightarrow> 'b geni_uart \<Rightarrow> bool" where
  "gu_check_poll_events cb d \<longleftrightarrow> \<not> cb_is_empty cb (gu_RxBuf d)"

definition gu_loop :: "'b charbuf_ops \<Rightarrow> 'b geni_uart \<Rightarrow> bool \<times> 'b geni_uart" where
  "gu_loop cb d =
     (let (quiet, d) = (if cb_is_empty cb (gu_RxBuf d)
                        then let (status, d) = rx_status d in (status AND RX_FIFO_WC_MSK = 0, d)
                        else (False, d))
      in if quiet
         then (False, if gu_idle_sleep_us d < 20000 then d\<lparr>gu_idle_sleep_us := push_bit 1 (gu_idle_sleep_us d)\<rparr> else d)
         else let (wake, d) = drain_rx cb d in (wake, d\<lparr>gu_idle_sleep_us := 1000\<rparr>))"

definition gu_main :: "'b \<Rightarrow> regs \<Rightarrow> bool list \<Rightarrow> u32 list \<Rightarrow> u32 list \<Rightarrow> 'b geni_uart" where
  "gu_main b r as ss ws = geni_init
     \<lparr>gu_regs = r, gu_log = [], gu_answers = as, gu_status = ss, gu_words = ws, gu_RxBuf = b, gu_idle_sleep_us = 1000\<rparr>"

section \<open>What is sent\<close>

text \<open>
  The controller as the register writes drive it: a start command with opcode 1 begins a transfer of the length set
  before, the next FIFO word loads its bytes, an abort ends the transfer, and acknowledging the done interrupt
  ends a loaded one. \<open>line_bytes\<close> collects the transfers that were acknowledged and not aborted; of an aborted
  one the controller may have sent a part, which the driver cannot know.
\<close>

datatype tx_state = TxIdle | TxStarted nat | TxLoaded "u8 list"

fun line_bytes :: "nat \<Rightarrow> tx_state \<Rightarrow> (nat \<times> u32) list \<Rightarrow> u8 list" where
  "line_bytes n st [] = []"
| "line_bytes n st ((r, v) # l) =
     (if r = SE_UART_TX_TRANS_LEN then line_bytes (unat v) st l
      else if r = SE_GENI_M_CMD0 then line_bytes n (if drop_bit 27 v = 1 then TxStarted n else TxIdle) l
      else if r = SE_GENI_TX_FIFOn then line_bytes n (case st of TxStarted k \<Rightarrow> TxLoaded (word_bytes k v) | _ \<Rightarrow> st) l
      else if r = SE_GENI_M_CMD_CTRL_REG \<and> v AND 2 \<noteq> 0 then line_bytes n TxIdle l
      else if r = SE_GENI_M_IRQ_CLEAR \<and> v AND 1 \<noteq> 0
        then (case st of TxLoaded bs \<Rightarrow> bs @ line_bytes n TxIdle l | _ \<Rightarrow> line_bytes n st l)
      else line_bytes n st l)"

lemmas uart_regs = SE_GENI_TX_WATERMARK_REG_def SE_GENI_M_IRQ_CLEAR_def SE_UART_TX_TRANS_LEN_def SE_GENI_M_CMD0_def
  SE_GENI_M_CMD_CTRL_REG_def SE_GENI_TX_FIFOn_def

lemmas uart_bits = M_CMD_DONE_EN_def M_CMD_ABORT_EN_def M_TX_FIFO_WATERMARK_EN_def M_OPCODE_SHIFT_def UART_START_TX_def DEF_TX_WM_def

text \<open>A word goes out if both waits succeed, for room and for completion; the second follows only on the first.\<close>

definition word_out :: "u8 list \<Rightarrow> bool list \<Rightarrow> u8 list \<times> bool list" where
  "word_out w as = (case as of [] \<Rightarrow> ([], [])
     | room # as \<Rightarrow> if \<not> room then ([], as) else case as of [] \<Rightarrow> ([], []) | compl # as \<Rightarrow> (if compl then w else [], as))"

fun words_out :: "u8 list list \<Rightarrow> bool list \<Rightarrow> u8 list" where
  "words_out [] as = []"
| "words_out (w # ws) as = fst (word_out w as) @ words_out ws (snd (word_out w as))"

text \<open>What the controller makes of each register write of \<open>geni_send\<close>.\<close>

lemma line_writes:
  "line_bytes n st ((SE_GENI_TX_WATERMARK_REG, v) # l) = line_bytes n st l"
  "line_bytes n st ((SE_UART_TX_TRANS_LEN, v) # l) = line_bytes (unat v) st l"
  "line_bytes n st ((SE_GENI_M_CMD0, push_bit M_OPCODE_SHIFT UART_START_TX) # l) = line_bytes n (TxStarted n) l"
  "line_bytes n (TxStarted k) ((SE_GENI_TX_FIFOn, v) # l) = line_bytes n (TxLoaded (word_bytes k v)) l"
  "line_bytes n st ((SE_GENI_M_CMD_CTRL_REG, 2) # l) = line_bytes n TxIdle l"
  "line_bytes n st ((SE_GENI_M_IRQ_CLEAR, M_CMD_ABORT_EN) # l) = line_bytes n st l"
  "line_bytes n st ((SE_GENI_M_IRQ_CLEAR, M_TX_FIFO_WATERMARK_EN) # l) = line_bytes n st l"
  "line_bytes n TxIdle ((SE_GENI_M_IRQ_CLEAR, v) # l) = line_bytes n TxIdle l"
  "line_bytes n (TxLoaded bs) ((SE_GENI_M_IRQ_CLEAR, M_CMD_DONE_EN) # l) = bs @ line_bytes n TxIdle l"
  by (simp_all add: uart_regs uart_bits)

lemma send_exact:
  assumes "0 < length data" "length data \<le> 4"
  shows "\<exists>new. gu_log (geni_send data d) = gu_log d @ new \<and> gu_answers (geni_send data d) = snd (word_out data (gu_answers d)) \<and>
     (\<forall>n l. line_bytes n TxIdle (new @ l) = fst (word_out data (gu_answers d)) @ line_bytes (length data) TxIdle l)"
proof -
  have n: "unat (of_nat (length data) :: u32) = length data" using assms(2) by (simp add: unat_of_nat)
  have ne: "data \<noteq> []" "\<not> 4 < length data" using assms by auto
  note wb = word_bytes_of_bytes [OF assms(2)]
  note run = geni_send_def Let_def gu_wr_def gu_ask_def word_out_def
  consider "gu_answers d = []" | as where "gu_answers d = False # as" | "gu_answers d = [True]"
    | b as where "gu_answers d = True # b # as"
    by (cases "gu_answers d"; cases "hd (gu_answers d)"; cases "tl (gu_answers d)") auto
  then show ?thesis
  proof cases
    case (4 b)
    then show ?thesis using ne by (cases b) (simp_all add: run line_writes n wb del: line_bytes.simps)
  qed (use ne in \<open>simp_all add: run line_writes n wb del: line_bytes.simps\<close>)
qed

lemma sends_exact:
  assumes "list_all (\<lambda>w. 0 < length w \<and> length w \<le> 4) ws"
  shows "\<exists>new. gu_log (fold geni_send ws d) = gu_log d @ new \<and> (\<forall>n. line_bytes n TxIdle new = words_out ws (gu_answers d))"
  using assms
proof (induction ws arbitrary: d)
  case (Cons w ws)
  from send_exact [of w d] Cons.prems obtain new where new: "gu_log (geni_send w d) = gu_log d @ new"
    "gu_answers (geni_send w d) = snd (word_out w (gu_answers d))"
    "\<And>n l. line_bytes n TxIdle (new @ l) = fst (word_out w (gu_answers d)) @ line_bytes (length w) TxIdle l" by auto
  from Cons.IH [of "geni_send w d"] Cons.prems obtain new' where new': "gu_log (fold geni_send (w # ws) d) = gu_log (geni_send w d) @ new'"
    "\<And>n. line_bytes n TxIdle new' = words_out ws (gu_answers (geni_send w d))" by auto
  with new have "gu_log (fold geni_send (w # ws) d) = gu_log d @ (new @ new')"
    "\<And>n. line_bytes n TxIdle (new @ new') = words_out (w # ws) (gu_answers d)" by simp_all
  then show ?case by blast
qed simp

section \<open>Words of four\<close>

fun fulls :: "'a list \<Rightarrow> 'a list list" where
  "fulls (a # b # c # d # xs) = [a, b, c, d] # fulls xs"
| "fulls xs = []"

fun rest4 :: "'a list \<Rightarrow> 'a list" where
  "rest4 (a # b # c # d # xs) = rest4 xs"
| "rest4 xs = xs"

definition words_of :: "'a list \<Rightarrow> 'a list list" where
  "words_of xs = fulls xs @ (if rest4 xs = [] then [] else [rest4 xs])"

lemma fulls4: "length w = 4 \<Longrightarrow> fulls (w @ xs) = w # fulls xs" and rest44: "length w = 4 \<Longrightarrow> rest4 (w @ xs) = rest4 xs"
  by (auto simp: length_Suc_conv numeral_eq_Suc)

lemma short4: "length w < 4 \<Longrightarrow> fulls w = [] \<and> rest4 w = w"
  by (induction w rule: fulls.induct) auto

lemma concat_words_of: "concat (words_of xs) = xs"
  unfolding words_of_def by (induction xs rule: fulls.induct) auto

lemma words_of_sizes: "list_all (\<lambda>w. 0 < length w \<and> length w \<le> 4) (words_of xs)"
  unfolding words_of_def by (induction xs rule: fulls.induct) auto

lemma fold_word_put:
  "length w < 4 \<Longrightarrow> fold word_put xs (w, d) = (rest4 (w @ xs), fold geni_send (fulls (w @ xs)) d)"
proof (induction xs arbitrary: w d)
  case Nil
  then show ?case by (simp add: short4)
next
  case (Cons c xs)
  show ?case
  proof (cases "length (w @ [c]) = 4")
    case True
    then have "fold word_put (c # xs) (w, d) = fold word_put xs ([], geni_send (w @ [c]) d)" by (simp add: word_put_def)
    then show ?thesis using Cons.IH [of "[]"] fulls4 [OF True, of xs] rest44 [OF True, of xs] by simp
  next
    case False
    then have "fold word_put (c # xs) (w, d) = fold word_put xs (w @ [c], d)" by (simp add: word_put_def)
    then show ?thesis using Cons.IH [of "w @ [c]"] Cons.prems False by simp
  qed
qed

lemma gu_write_eq: "gu_write s d = (int (length s), fold geni_send (words_of (crlf s)) d)"
proof -
  have "fold (\<lambda>c st. word_put c (if c = 10 then word_put 13 st else st)) s st = fold word_put (crlf s) st" for st :: "u8 list \<times> 'a geni_uart"
    by (induction s arbitrary: st) (simp_all add: crlf_def)
  then show ?thesis using fold_word_put [of "[]" "crlf s" d] by (simp add: gu_write_def words_of_def)
qed

lemma words_out_all: "list_all id as \<Longrightarrow> 2 * length ws \<le> length as \<Longrightarrow> words_out ws as = concat ws"
proof (induction ws arbitrary: as)
  case (Cons w ws)
  from Cons.prems(2) obtain a b as' where as: "as = a # b # as'" by (cases as; cases "tl as") auto
  then show ?case using Cons.IH [of as'] Cons.prems by (simp add: word_out_def)
qed simp

text \<open>
  C28. A console write puts exactly its text on the line: whatever was written before, the registers written by a write
  make the controller start, load and complete one transfer for each word of four bytes of the text with
  line ends expanded, in order, except for the words with a wait that timed out, which are aborted:
  before their word is loaded if there was no room, afterwards if completion was not reported. If no
  wait times out the completed transfers are the whole text.
\<close>

theorem q8b_write_exact:
  "\<exists>new. gu_log (snd (gu_write s d)) = gu_log d @ new \<and>
     (\<forall>n. line_bytes n TxIdle new = words_out (words_of (crlf s)) (gu_answers d)) \<and>
     (list_all id (gu_answers d) \<and> 2 * length (words_of (crlf s)) \<le> length (gu_answers d) \<longrightarrow> (\<forall>n. line_bytes n TxIdle new = crlf s))"
  using sends_exact [OF words_of_sizes, of "crlf s" d] words_out_all [of "gu_answers d" "words_of (crlf s)"]
  by (auto simp: gu_write_eq concat_words_of)

definition demo_geni :: "bool list \<Rightarrow> u32 list \<Rightarrow> u32 list \<Rightarrow> u8 list geni_uart" where
  "demo_geni as ss ws = gu_main [] (\<lambda>_. 0) as ss ws"

theorem q8b_write_exact_witness:
  "\<exists>new. gu_log (snd (gu_write [72, 105, 33, 10] ((demo_geni [] [] [])\<lparr>gu_answers := [True, True, True, True]\<rparr>))) = gu_log (demo_geni [] [] []) @ new \<and>
     line_bytes 0 TxIdle new = [72, 105, 33, 13, 10]"
  using q8b_write_exact [of "[72, 105, 33, 10]" "(demo_geni [] [] [])\<lparr>gu_answers := [True, True, True, True]\<rparr>"]
  by (auto simp: crlf_def words_of_def)

section \<open>What is received\<close>

text \<open>A status that announces the bytes \<open>bs\<close>: the number of words, and how many bytes of the last one count.\<close>

definition announces :: "u32 \<Rightarrow> u8 list \<Rightarrow> bool" where
  "announces st bs \<longleftrightarrow> unat (st AND RX_FIFO_WC_MSK) = length (words_of bs) \<and> st AND RX_LAST \<noteq> 0 \<and>
     unat (drop_bit RX_LAST_BYTE_VALID_SHFT (st AND RX_LAST_BYTE_VALID_MSK)) = length (last (words_of bs))"

lemma drain_words_exact:
  assumes "gu_words d = map word_of_bytes ws @ rest" "list_all (\<lambda>w. length w = 4) (butlast ws)" "ws \<noteq> [] \<Longrightarrow> length (last ws) \<le> 4"
    "ws \<noteq> [] \<Longrightarrow> k = length (last ws)"
  shows "drain_words cb (length ws) k d = d\<lparr>gu_words := rest, gu_RxBuf := cb_pushes cb (concat ws) (gu_RxBuf d)\<rparr>"
  using assms
proof (induction ws arbitrary: d)
  case (Cons w ws)
  have len: "length w \<le> 4" and n: "(if length ws = 0 then k else 4) = length w"
    using Cons.prems(2-4) by (cases ws; simp)+
  have l: "ws \<noteq> [] \<Longrightarrow> last (w # ws) = last ws" and b: "list_all (\<lambda>w. length w = 4) (butlast ws)"
    using Cons.prems(2) by (cases ws; simp)+
  define e where "e = d\<lparr>gu_words := map word_of_bytes ws @ rest, gu_RxBuf := cb_pushes cb w (gu_RxBuf d)\<rparr>"
  have "drain_words cb (length (w # ws)) k d = drain_words cb (length ws) k e"
    using Cons.prems(1) word_bytes_of_bytes [OF len] n by (simp add: rx_word_def e_def)
  also have "\<dots> = e\<lparr>gu_words := rest, gu_RxBuf := cb_pushes cb (concat ws) (gu_RxBuf e)\<rparr>"
    using Cons.prems(3,4) l b by (intro Cons.IH) (auto simp: e_def)
  finally show ?case by (simp add: e_def)
qed simp

lemma words_of_shape: "bs \<noteq> [] \<Longrightarrow> words_of bs \<noteq> [] \<and> list_all (\<lambda>w. length w = 4) (butlast (words_of bs)) \<and>
    0 < length (last (words_of bs)) \<and> length (last (words_of bs)) \<le> 4"
proof -
  assume ne: "bs \<noteq> []"
  have f: "list_all (\<lambda>w. length w = 4) (fulls bs)" by (induction bs rule: fulls.induct) auto
  have w: "words_of bs \<noteq> []" using concat_words_of [of bs] ne by auto
  have "list_all (\<lambda>w. length w = 4) (butlast (words_of bs))"
    using f by (auto simp: words_of_def list_all_iff dest: in_set_butlastD)
  moreover have "0 < length (last (words_of bs)) \<and> length (last (words_of bs)) \<le> 4"
    using words_of_sizes [of bs] w last_in_set [OF w] by (auto simp: list_all_iff)
  ultimately show ?thesis using w by blast
qed

text \<open>
  C29. Receiving round-trips: if the controller packs up to 256 received bytes in words and announces them, emptying the
  FIFO hands exactly these bytes in order to the character buffer, whatever its implementation, takes
  exactly their words and wakes the readers.
\<close>

theorem q8b_receive_roundtrip:
  assumes "gu_status d = st # ss" "announces st bs" "gu_words d = map word_of_bytes (words_of bs) @ ws" "bs \<noteq> []"
    "length (words_of bs) \<le> 64"
  shows "drain_rx cb d = (True, d\<lparr>gu_status := ss, gu_words := ws, gu_RxBuf := cb_pushes cb bs (gu_RxBuf d)\<rparr>)"
proof -
  let ?k = "length (last (words_of bs))"
  note w = words_of_shape [OF assms(4)]
  have v: "drop_bit RX_LAST_BYTE_VALID_SHFT (st AND RX_LAST_BYTE_VALID_MSK) \<noteq> 0"
    using assms(2) w by (auto simp: announces_def simp flip: unat_eq_zero)
  have "drain_rx cb d = (True, drain_words cb (length (words_of bs)) ?k (d\<lparr>gu_status := ss\<rparr>))"
    using assms(1,2,5) w v by (simp add: drain_rx_def rx_status_def announces_def Let_def)
  also have "drain_words cb (length (words_of bs)) ?k (d\<lparr>gu_status := ss\<rparr>) =
      (d\<lparr>gu_status := ss\<rparr>)\<lparr>gu_words := ws, gu_RxBuf := cb_pushes cb (concat (words_of bs)) (gu_RxBuf d)\<rparr>"
    using drain_words_exact [of "d\<lparr>gu_status := ss\<rparr>" "words_of bs" ws ?k cb] assms(3) w by simp
  finally show ?thesis by (simp add: concat_words_of)
qed

theorem q8b_receive_roundtrip_witness:
  "\<exists>d. gu_RxBuf (snd (drain_rx list_charbuf d)) = [1, 2, 3, 4, 5]"
proof -
  define d where "d = (demo_geni [] [] [])\<lparr>gu_status := [0x90000002], gu_words := map word_of_bytes (words_of [1, 2, 3, 4, 5]) @ [], gu_RxBuf := []\<rparr>"
  have s: "gu_status d = 0x90000002 # []" "gu_words d = map word_of_bytes (words_of [1, 2, 3, 4, 5]) @ []" by (simp_all add: d_def)
  have a: "announces 0x90000002 [1, 2, 3, 4, 5]"
    by (simp add: announces_def words_of_def RX_FIFO_WC_MSK_def RX_LAST_def RX_LAST_BYTE_VALID_MSK_def RX_LAST_BYTE_VALID_SHFT_def)
  from q8b_receive_roundtrip [OF s(1) a s(2), of list_charbuf] show ?thesis
    by (intro exI [of _ d]) (simp add: words_of_def list_charbuf_def d_def)
qed

section \<open>Polling delay\<close>

lemma gu_idle_simps [simp]:
  "gu_idle_sleep_us (gu_wr r v d) = gu_idle_sleep_us d" "gu_idle_sleep_us (snd (gu_ask d)) = gu_idle_sleep_us d"
  "gu_idle_sleep_us (snd (rx_word d)) = gu_idle_sleep_us d" "gu_idle_sleep_us (snd (rx_status d)) = gu_idle_sleep_us d"
  by (simp_all add: gu_wr_def gu_ask_def rx_word_def rx_status_def split: list.split)

lemma idle_send [simp]: "gu_idle_sleep_us (geni_send w d) = gu_idle_sleep_us d"
  by (simp add: geni_send_def Let_def split_beta)

lemma idle_flush [simp]: "gu_idle_sleep_us (flush_pass n d) = gu_idle_sleep_us d"
proof (induction n arbitrary: d)
  case (Suc n)
  have "gu_idle_sleep_us (((\<lambda>d. snd (rx_word d)) ^^ m) e) = gu_idle_sleep_us e" for m and e :: "'a geni_uart"
    by (induction m arbitrary: e) simp_all
  then show ?case using Suc.IH by (simp add: Let_def split_beta)
qed simp

lemma idle_stop [simp]: "gu_idle_sleep_us (geni_rx_stop d) = gu_idle_sleep_us d"
  by (simp add: geni_rx_stop_def Let_def split_beta)

lemma idle_main: "gu_idle_sleep_us (gu_main b r as ss ws) = 1000"
  by (simp add: gu_main_def geni_init_def geni_hw_init_def geni_rx_start_def geni_rx_flush_fifo_def Let_def)

datatype gu_event = GWrite "u8 list" | GFetch int | GRound

fun gu_step :: "'b charbuf_ops \<Rightarrow> gu_event \<Rightarrow> 'b geni_uart \<Rightarrow> 'b geni_uart" where
  "gu_step cb (GWrite s) d = snd (gu_write s d)"
| "gu_step cb (GFetch n) d = snd (gu_read cb n d)"
| "gu_step cb GRound d = snd (gu_loop cb d)"

definition idle_ok :: "'b geni_uart \<Rightarrow> bool" where
  "idle_ok d \<longleftrightarrow> gu_idle_sleep_us d \<in> {1000, 2000, 4000, 8000, 16000, 32000}"

lemma idle_words [simp]: "gu_idle_sleep_us (drain_words cb n k d) = gu_idle_sleep_us d"
  by (induction n arbitrary: d) (simp_all add: Let_def split_beta)

lemma idle_sends [simp]: "gu_idle_sleep_us (fold geni_send ws d) = gu_idle_sleep_us d"
  by (induction ws arbitrary: d) simp_all

lemma idle_loop: "idle_ok d \<Longrightarrow> idle_ok (snd (gu_loop cb d))"
  by (auto simp: gu_loop_def idle_ok_def Let_def split_beta)

interpretation gu: transition_system "\<lambda>d. \<exists>b r as ss ws. d = gu_main b r as ss ws" "\<lambda>d e. \<exists>ev cb. e = gu_step cb ev d" idle_ok
proof
  fix d :: "'a geni_uart"
  assume "\<exists>b r as ss ws. d = gu_main b r as ss ws"
  then show "idle_ok d" by (auto simp: idle_ok_def idle_main)
next
  fix d e :: "'a geni_uart"
  assume d: "idle_ok d" and "\<exists>ev cb. e = gu_step cb ev d"
  then obtain ev cb where e: "e = gu_step cb ev d" by blast
  show "idle_ok e"
  proof (cases ev)
    case GRound
    then show ?thesis using idle_loop [OF d] e by simp
  qed (use d e in \<open>simp_all add: idle_ok_def gu_write_eq gu_read_def Let_def split_beta\<close>)
qed

text \<open>In every reachable state a quiet console sleeps between 1 and 32 ms before it looks again.\<close>

theorem q8b_idle_bounds:
  assumes "(\<lambda>d e. \<exists>ev cb. e = gu_step cb ev d)\<^sup>*\<^sup>* (gu_main b r as ss ws) d"
  shows "1000 \<le> unat (gu_idle_sleep_us d) \<and> unat (gu_idle_sleep_us d) \<le> 32000"
proof -
  have "idle_ok d" by (rule gu.inv_reachable [OF _ assms]) blast
  then show ?thesis by (auto simp: idle_ok_def)
qed

end
