(* ===== verification/Rp1_Gpio.thy ===== *)
theory Rp1_Gpio
  imports Interfaces
begin

text \<open>
  The GPIO pins of the Raspberry Pi 5 (\<^verbatim>\<open>src/raspi5/system/libs/arch_bcm2712/src/gpio.c\<close>, \<^verbatim>\<open>gpio.h\<close>): three regions of the RP1
  chip with three banks each, one control and one pad register per pin and one bit per pin in the
  output, direction and input registers of its bank.

  Addresses are offsets from the start of the peripheral window. The register file follows the documentation in
  \<^verbatim>\<open>gpio.h\<close>: every register of the three regions has, beside the plain view, one that toggles, one that
  sets and one that clears the bits written. Bringing up the chip (\<^verbatim>\<open>bcm2712_rp1_init\<close>) is its result, an argument.

  Properties: no two pins share a register or a bit, levels and directions are an array of pins, and configuring and
  driving a pin has exactly its effect.
\<close>

section \<open>Registers\<close>

definition PI5_RP1_WIN_OFF :: nat where "PI5_RP1_WIN_OFF = 0x06000000"
definition RP1_IO_BANK_OFF :: nat where "RP1_IO_BANK_OFF = PI5_RP1_WIN_OFF + 0x000d0000"
definition RP1_SYS_RIO_OFF :: nat where "RP1_SYS_RIO_OFF = PI5_RP1_WIN_OFF + 0x000e0000"
definition RP1_PADS_BANK_OFF :: nat where "RP1_PADS_BANK_OFF = PI5_RP1_WIN_OFF + 0x000f0000"
definition RP1_BANK_STRIDE :: nat where "RP1_BANK_STRIDE = 0x4000"
definition RP1_NUM_BANKS :: nat where "RP1_NUM_BANKS = 3"
definition RP1_NUM_GPIOS :: nat where "RP1_NUM_GPIOS = 54"
definition RP1_RW_OFFSET :: nat where "RP1_RW_OFFSET = 0x0000"
definition RP1_XOR_OFFSET :: nat where "RP1_XOR_OFFSET = 0x1000"
definition RP1_SET_OFFSET :: nat where "RP1_SET_OFFSET = 0x2000"
definition RP1_CLR_OFFSET :: nat where "RP1_CLR_OFFSET = 0x3000"
definition RP1_GPIO_CTRL :: nat where "RP1_GPIO_CTRL = 0x04"
definition RP1_GPIO_PIN_STRIDE :: nat where "RP1_GPIO_PIN_STRIDE = 0x08"
definition RP1_GPIO_CTRL_FUNCSEL_LSB :: nat where "RP1_GPIO_CTRL_FUNCSEL_LSB = 0"
definition RP1_GPIO_CTRL_FUNCSEL_MASK :: u32 where "RP1_GPIO_CTRL_FUNCSEL_MASK = 0x0000001f"
definition RP1_GPIO_CTRL_OUTOVER_LSB :: nat where "RP1_GPIO_CTRL_OUTOVER_LSB = 12"
definition RP1_GPIO_CTRL_OUTOVER_MASK :: u32 where "RP1_GPIO_CTRL_OUTOVER_MASK = 0x00003000"
definition RP1_GPIO_CTRL_OEOVER_LSB :: nat where "RP1_GPIO_CTRL_OEOVER_LSB = 14"
definition RP1_GPIO_CTRL_OEOVER_MASK :: u32 where "RP1_GPIO_CTRL_OEOVER_MASK = 0x0000c000"
definition RP1_OUTOVER_PERI :: u32 where "RP1_OUTOVER_PERI = 0"
definition RP1_OEOVER_PERI :: u32 where "RP1_OEOVER_PERI = 0"
definition RP1_OEOVER_DISABLE :: u32 where "RP1_OEOVER_DISABLE = 2"
definition RP1_RIO_OUT :: nat where "RP1_RIO_OUT = 0x00"
definition RP1_RIO_OE :: nat where "RP1_RIO_OE = 0x04"
definition RP1_RIO_IN :: nat where "RP1_RIO_IN = 0x08"
definition RP1_PADS_PIN0 :: nat where "RP1_PADS_PIN0 = 0x04"
definition RP1_PAD_PIN_STRIDE :: nat where "RP1_PAD_PIN_STRIDE = 0x04"
definition RP1_PAD_PULL_LSB :: nat where "RP1_PAD_PULL_LSB = 2"
definition RP1_PAD_PULL_MASK :: u32 where "RP1_PAD_PULL_MASK = 0x0000000c"
definition RP1_PAD_IN_ENABLE_MASK :: u32 where "RP1_PAD_IN_ENABLE_MASK = 0x00000040"
definition RP1_PAD_OUT_DISABLE_MASK :: u32 where "RP1_PAD_OUT_DISABLE_MASK = 0x00000080"
definition GPIO_FUNC_ALTF0 :: u32 where "GPIO_FUNC_ALTF0 = 0"
definition GPIO_FUNC_RIO :: u32 where "GPIO_FUNC_RIO = 5"
definition GPIO_FUNC_NONE :: u32 where "GPIO_FUNC_NONE = 9"
definition GPIO_FUNC_DIR_FLAG :: u32 where "GPIO_FUNC_DIR_FLAG = 0x10"
definition GPIO_FUNC_INPUT :: u32 where "GPIO_FUNC_INPUT = GPIO_FUNC_DIR_FLAG OR GPIO_FUNC_RIO"
definition GPIO_FUNC_OUTPUT :: u32 where "GPIO_FUNC_OUTPUT = GPIO_FUNC_DIR_FLAG OR GPIO_FUNC_RIO OR 0x20"
definition RP1_PULL_DOWN :: u32 where "RP1_PULL_DOWN = 1"

lemmas rp1_bases = PI5_RP1_WIN_OFF_def RP1_IO_BANK_OFF_def RP1_SYS_RIO_OFF_def RP1_PADS_BANK_OFF_def RP1_BANK_STRIDE_def
lemmas rp1_offsets = RP1_RW_OFFSET_def RP1_XOR_OFFSET_def RP1_SET_OFFSET_def RP1_CLR_OFFSET_def RP1_GPIO_CTRL_def
  RP1_GPIO_PIN_STRIDE_def RP1_RIO_OUT_def RP1_RIO_OE_def RP1_RIO_IN_def RP1_PADS_PIN0_def RP1_PAD_PIN_STRIDE_def
lemmas rp1_fields = RP1_GPIO_CTRL_FUNCSEL_LSB_def RP1_GPIO_CTRL_FUNCSEL_MASK_def RP1_GPIO_CTRL_OUTOVER_LSB_def
  RP1_GPIO_CTRL_OUTOVER_MASK_def RP1_GPIO_CTRL_OEOVER_LSB_def RP1_GPIO_CTRL_OEOVER_MASK_def RP1_OUTOVER_PERI_def
  RP1_OEOVER_PERI_def RP1_OEOVER_DISABLE_def RP1_PAD_PULL_LSB_def RP1_PAD_PULL_MASK_def RP1_PAD_IN_ENABLE_MASK_def
  RP1_PAD_OUT_DISABLE_MASK_def
lemmas gpio_funcs = GPIO_FUNC_ALTF0_def GPIO_FUNC_RIO_def GPIO_FUNC_NONE_def GPIO_FUNC_DIR_FLAG_def GPIO_FUNC_INPUT_def
  GPIO_FUNC_OUTPUT_def

text \<open>The register file: the four views of the GPIO regions, plain memory elsewhere.\<close>

definition rp1_put :: "nat \<Rightarrow> u32 \<Rightarrow> (nat \<Rightarrow> u32) \<Rightarrow> nat \<Rightarrow> u32" where
  "rp1_put a v m =
     (if RP1_IO_BANK_OFF \<le> a \<and> a < RP1_PADS_BANK_OFF + RP1_NUM_BANKS * RP1_BANK_STRIDE
      then let view = a mod RP1_BANK_STRIDE div 0x1000;
               r = a - view * 0x1000
           in m(r := (if view = 0 then v else if view = 1 then m r XOR v else if view = 2 then m r OR v else m r AND NOT v))
      else m(a := v))"

record rp1 =
  rp_mem :: "nat \<Rightarrow> u32"
  rp_io_bank_base :: nat
  rp_sys_rio_base :: nat
  rp_pads_bank_base :: nat
  rp_gpio_ready :: bool

definition get32 :: "nat \<Rightarrow> rp1 \<Rightarrow> u32" where
  "get32 a s = rp_mem s a"

definition put32 :: "nat \<Rightarrow> u32 \<Rightarrow> rp1 \<Rightarrow> rp1" where
  "put32 a v s = s\<lparr>rp_mem := rp1_put a v (rp_mem s)\<rparr>"

section \<open>Operations\<close>

definition gpio_bank :: "nat \<Rightarrow> nat" where
  "gpio_bank pin = (if pin < 28 then 0 else if pin < 34 then 1 else 2)"

definition gpio_bank_pin :: "nat \<Rightarrow> nat" where
  "gpio_bank_pin pin = (if pin < 28 then pin else if pin < 34 then pin - 28 else pin - 34)"

definition gpio_ctrl :: "nat \<Rightarrow> rp1 \<Rightarrow> nat" where
  "gpio_ctrl pin s = rp_io_bank_base s + gpio_bank pin * RP1_BANK_STRIDE + gpio_bank_pin pin * RP1_GPIO_PIN_STRIDE + RP1_GPIO_CTRL"

definition gpio_rio :: "nat \<Rightarrow> nat \<Rightarrow> nat \<Rightarrow> rp1 \<Rightarrow> nat" where
  "gpio_rio pin reg alias s = rp_sys_rio_base s + gpio_bank pin * RP1_BANK_STRIDE + reg + alias"

definition gpio_pad :: "nat \<Rightarrow> rp1 \<Rightarrow> nat" where
  "gpio_pad pin s = rp_pads_bank_base s + gpio_bank pin * RP1_BANK_STRIDE + RP1_PADS_PIN0 + gpio_bank_pin pin * RP1_PAD_PIN_STRIDE"

definition gpio_pad_update :: "nat \<Rightarrow> u32 \<Rightarrow> u32 \<Rightarrow> rp1 \<Rightarrow> rp1" where
  "gpio_pad_update pin clr sets s = (let pad = gpio_pad pin s; v = get32 pad s in put32 pad ((v AND NOT clr) OR sets) s)"

definition bcm2712_gpio_init :: "bool \<Rightarrow> rp1 \<Rightarrow> rp1" where
  "bcm2712_gpio_init rp1_up s =
     (if rp_gpio_ready s then s
      else let s = s\<lparr>rp_io_bank_base := RP1_IO_BANK_OFF, rp_sys_rio_base := RP1_SYS_RIO_OFF, rp_pads_bank_base := RP1_PADS_BANK_OFF\<rparr>
           in if \<not> rp1_up then s else s\<lparr>rp_gpio_ready := True\<rparr>)"

definition bcm2712_gpio_config :: "nat \<Rightarrow> u32 \<Rightarrow> rp1 \<Rightarrow> rp1" where
  "bcm2712_gpio_config pin func s =
     (if pin \<ge> RP1_NUM_GPIOS then s
      else let fsel = func AND RP1_GPIO_CTRL_FUNCSEL_MASK;
               (fsel, s) = (if func AND GPIO_FUNC_DIR_FLAG \<noteq> 0
                 then (GPIO_FUNC_RIO,
                   put32 (gpio_rio pin RP1_RIO_OE (if func = GPIO_FUNC_OUTPUT then RP1_SET_OFFSET else RP1_CLR_OFFSET) s)
                     (push_bit (gpio_bank_pin pin) 1) s)
                 else (fsel, s));
               s = gpio_pad_update pin RP1_PAD_OUT_DISABLE_MASK RP1_PAD_IN_ENABLE_MASK s;
               ctrl = get32 (gpio_ctrl pin s) s;
               ctrl = ctrl AND NOT (RP1_GPIO_CTRL_FUNCSEL_MASK OR RP1_GPIO_CTRL_OUTOVER_MASK OR RP1_GPIO_CTRL_OEOVER_MASK);
               ctrl = (if fsel = GPIO_FUNC_NONE
                 then ctrl OR push_bit RP1_GPIO_CTRL_OEOVER_LSB RP1_OEOVER_DISABLE OR RP1_GPIO_CTRL_FUNCSEL_MASK
                 else ctrl OR push_bit RP1_GPIO_CTRL_OUTOVER_LSB RP1_OUTOVER_PERI OR
                   push_bit RP1_GPIO_CTRL_OEOVER_LSB RP1_OEOVER_PERI OR push_bit RP1_GPIO_CTRL_FUNCSEL_LSB fsel)
           in put32 (gpio_ctrl pin s) ctrl s)"

definition bcm2712_gpio_pull :: "nat \<Rightarrow> u32 \<Rightarrow> rp1 \<Rightarrow> rp1" where
  "bcm2712_gpio_pull pin pull s =
     (if pin \<ge> RP1_NUM_GPIOS then s
      else gpio_pad_update pin RP1_PAD_PULL_MASK (push_bit RP1_PAD_PULL_LSB pull AND RP1_PAD_PULL_MASK) s)"

definition bcm2712_gpio_write :: "nat \<Rightarrow> bool \<Rightarrow> rp1 \<Rightarrow> rp1" where
  "bcm2712_gpio_write pin high s =
     (if pin \<ge> RP1_NUM_GPIOS then s
      else put32 (gpio_rio pin RP1_RIO_OUT (if high then RP1_SET_OFFSET else RP1_CLR_OFFSET) s) (push_bit (gpio_bank_pin pin) 1) s)"

definition bcm2712_gpio_read :: "nat \<Rightarrow> rp1 \<Rightarrow> bool" where
  "bcm2712_gpio_read pin s =
     (if pin \<ge> RP1_NUM_GPIOS then False
      else get32 (gpio_rio pin RP1_RIO_IN RP1_RW_OFFSET s) s AND push_bit (gpio_bank_pin pin) 1 \<noteq> 0)"

section \<open>Addresses\<close>

definition rp1_up :: "rp1 \<Rightarrow> bool" where
  "rp1_up s \<longleftrightarrow> rp_io_bank_base s = RP1_IO_BANK_OFF \<and> rp_sys_rio_base s = RP1_SYS_RIO_OFF \<and> rp_pads_bank_base s = RP1_PADS_BANK_OFF"

lemma bank_split: "pin < 54 \<Longrightarrow> gpio_bank pin < 3 \<and> gpio_bank_pin pin < 28"
  by (auto simp: gpio_bank_def gpio_bank_pin_def)

lemma bank_inj: "gpio_bank p = gpio_bank q \<Longrightarrow> gpio_bank_pin p = gpio_bank_pin q \<Longrightarrow> p = q"
  by (auto simp: gpio_bank_def gpio_bank_pin_def split: if_splits)

text \<open>The decoded plain, setting and clearing views of a register at \<open>off\<close> in a bank.\<close>

lemma rp1_put_view:
  assumes "base \<in> {RP1_IO_BANK_OFF, RP1_SYS_RIO_OFF, RP1_PADS_BANK_OFF}" "b < 3" "off < 0x1000"
  shows "rp1_put (base + b * 0x4000 + off) v m = m(base + b * 0x4000 + off := v)"
    "rp1_put (base + b * 0x4000 + off + 0x2000) v m = m(base + b * 0x4000 + off := m (base + b * 0x4000 + off) OR v)"
    "rp1_put (base + b * 0x4000 + off + 0x3000) v m = m(base + b * 0x4000 + off := m (base + b * 0x4000 + off) AND NOT v)"
proof -
  have base: "base mod 0x4000 = 0" "RP1_IO_BANK_OFF \<le> base" "base \<le> RP1_PADS_BANK_OFF"
    using assms(1) by (auto simp: rp1_bases)
  have bank: "(base + b * 0x4000 + off + k) mod 0x4000 = off + k" if "off + k < 0x4000" for k :: nat
  proof -
    obtain q where "base = 0x4000 * q" using base(1) by (auto simp: mod_eq_0_iff_dvd elim: dvdE)
    then have "base + b * 0x4000 + off + k = 0x4000 * (q + b) + (off + k)" by simp
    then show ?thesis using that by (simp only: mod_mult_self4) simp
  qed
  have r: "RP1_IO_BANK_OFF \<le> base + b * 0x4000 + off + k \<and>
      base + b * 0x4000 + off + k < RP1_PADS_BANK_OFF + RP1_NUM_BANKS * RP1_BANK_STRIDE" if "off + k < 0x4000" for k :: nat
    using that base assms(2) by (auto simp: RP1_NUM_BANKS_def RP1_BANK_STRIDE_def)
  have dv: "(off + 0x2000) div 0x1000 = 2" "(off + 0x3000) div 0x1000 = 3" "off div 0x1000 = 0"
    using assms(3) div_nat_eqI [of "0x1000" 2 "off + 0x2000"] div_nat_eqI [of "0x1000" 3 "off + 0x3000"] by simp_all
  show "rp1_put (base + b * 0x4000 + off) v m = m(base + b * 0x4000 + off := v)"
    using r [of 0] bank [of 0] dv assms(3) by (simp add: rp1_put_def RP1_BANK_STRIDE_def Let_def)
  show "rp1_put (base + b * 0x4000 + off + 0x2000) v m = m(base + b * 0x4000 + off := m (base + b * 0x4000 + off) OR v)"
    using r [of "0x2000"] bank [of "0x2000"] dv assms(3) by (simp add: rp1_put_def RP1_BANK_STRIDE_def Let_def)
  show "rp1_put (base + b * 0x4000 + off + 0x3000) v m = m(base + b * 0x4000 + off := m (base + b * 0x4000 + off) AND NOT v)"
    using r [of "0x3000"] bank [of "0x3000"] dv assms(3) by (simp add: rp1_put_def RP1_BANK_STRIDE_def Let_def)
qed

text \<open>The registers of a pin once the bases are set, and its bit in the registers of its bank.\<close>

definition ctrl_at :: "nat \<Rightarrow> nat" where
  "ctrl_at p = RP1_IO_BANK_OFF + gpio_bank p * 0x4000 + (gpio_bank_pin p * 8 + 4)"

definition pad_at :: "nat \<Rightarrow> nat" where
  "pad_at p = RP1_PADS_BANK_OFF + gpio_bank p * 0x4000 + (4 + gpio_bank_pin p * 4)"

definition out_at :: "nat \<Rightarrow> nat" where
  "out_at p = RP1_SYS_RIO_OFF + gpio_bank p * 0x4000 + 0"

definition oe_at :: "nat \<Rightarrow> nat" where
  "oe_at p = RP1_SYS_RIO_OFF + gpio_bank p * 0x4000 + 4"

lemma at_ranges:
  assumes "p < 54"
  shows "ctrl_at p \<in> {0x60d0000..<0x60e0000}" "pad_at p \<in> {0x60f0000..<0x6100000}" "out_at p \<in> {0x60e0000..<0x60f0000}"
    "oe_at p \<in> {0x60e0000..<0x60f0000}"
  using bank_split [OF assms] by (simp_all add: ctrl_at_def pad_at_def out_at_def oe_at_def rp1_bases)

lemma at_distinct [simp]:
  assumes "p < 54" "q < 54"
  shows "ctrl_at p \<noteq> pad_at q" "ctrl_at p \<noteq> out_at q" "ctrl_at p \<noteq> oe_at q" "pad_at p \<noteq> ctrl_at q" "pad_at p \<noteq> out_at q"
    "pad_at p \<noteq> oe_at q" "out_at p \<noteq> ctrl_at q" "out_at p \<noteq> pad_at q" "oe_at p \<noteq> ctrl_at q" "oe_at p \<noteq> pad_at q"
    "out_at p \<noteq> oe_at q" "oe_at p \<noteq> out_at q"
proof -
  show "ctrl_at p \<noteq> pad_at q" "ctrl_at p \<noteq> out_at q" "ctrl_at p \<noteq> oe_at q" "pad_at p \<noteq> ctrl_at q" "pad_at p \<noteq> out_at q"
    "pad_at p \<noteq> oe_at q" "out_at p \<noteq> ctrl_at q" "out_at p \<noteq> pad_at q" "oe_at p \<noteq> ctrl_at q" "oe_at p \<noteq> pad_at q"
    using at_ranges [OF assms(1)] at_ranges [OF assms(2)] by auto
  have "(gpio_bank x * 0x4000) mod 0x4000 \<noteq> (gpio_bank y * 0x4000 + 4) mod 0x4000" for x y by simp
  then have "gpio_bank x * 0x4000 \<noteq> gpio_bank y * 0x4000 + 4" for x y by metis
  then show "out_at p \<noteq> oe_at q" "oe_at p \<noteq> out_at q" by (simp_all add: out_at_def oe_at_def add.assoc) (metis add.commute)
qed

lemma at_inj [simp]:
  assumes "p < 54" "q < 54"
  shows "ctrl_at p = ctrl_at q \<longleftrightarrow> p = q" "pad_at p = pad_at q \<longleftrightarrow> p = q"
    "out_at p = out_at q \<longleftrightarrow> gpio_bank p = gpio_bank q" "oe_at p = oe_at q \<longleftrightarrow> gpio_bank p = gpio_bank q"
  using assms by (auto simp: ctrl_at_def pad_at_def out_at_def oe_at_def gpio_bank_def gpio_bank_pin_def split: if_splits)

lemma addr_eqs:
  assumes "rp1_up s"
  shows "gpio_ctrl p s = ctrl_at p" "gpio_pad p s = pad_at p" "gpio_rio p RP1_RIO_OUT k s = out_at p + k" "gpio_rio p RP1_RIO_OE k s = oe_at p + k"
  using assms by (simp_all add: gpio_ctrl_def gpio_pad_def gpio_rio_def rp1_up_def ctrl_at_def pad_at_def out_at_def oe_at_def
      rp1_offsets RP1_BANK_STRIDE_def)

lemma put_at:
  assumes "p < 54"
  shows "rp1_put (ctrl_at p) v m = m(ctrl_at p := v)" "rp1_put (pad_at p) v m = m(pad_at p := v)"
    "rp1_put (out_at p + 0x2000) v m = m(out_at p := m (out_at p) OR v)" "rp1_put (out_at p + 0x3000) v m = m(out_at p := m (out_at p) AND NOT v)"
    "rp1_put (oe_at p + 0x2000) v m = m(oe_at p := m (oe_at p) OR v)" "rp1_put (oe_at p + 0x3000) v m = m(oe_at p := m (oe_at p) AND NOT v)"
proof -
  note b = bank_split [OF assms]
  note view = rp1_put_view [where b = "gpio_bank p" and v = v and m = m]
  show "rp1_put (ctrl_at p) v m = m(ctrl_at p := v)" unfolding ctrl_at_def using b by (intro view(1)) auto
  show "rp1_put (pad_at p) v m = m(pad_at p := v)" unfolding pad_at_def using b by (intro view(1)) auto
  show "rp1_put (out_at p + 0x2000) v m = m(out_at p := m (out_at p) OR v)" unfolding out_at_def using b by (intro view(2)) auto
  show "rp1_put (out_at p + 0x3000) v m = m(out_at p := m (out_at p) AND NOT v)" unfolding out_at_def using b by (intro view(3)) auto
  show "rp1_put (oe_at p + 0x2000) v m = m(oe_at p := m (oe_at p) OR v)" unfolding oe_at_def using b by (intro view(2)) auto
  show "rp1_put (oe_at p + 0x3000) v m = m(oe_at p := m (oe_at p) AND NOT v)" unfolding oe_at_def using b by (intro view(3)) auto
qed

section \<open>Pins\<close>

definition rp_level :: "rp1 \<Rightarrow> nat \<Rightarrow> bool" where
  "rp_level s p = bit (rp_mem s (out_at p)) (gpio_bank_pin p)"

definition rp_output :: "rp1 \<Rightarrow> nat \<Rightarrow> bool" where
  "rp_output s p = bit (rp_mem s (oe_at p)) (gpio_bank_pin p)"

lemma bit_one: "n < 32 \<Longrightarrow> bit (2 ^ k :: u32) n \<longleftrightarrow> n = k"
  by (auto simp: bit_exp_iff)

lemma up_mem [simp]: "rp1_up (s\<lparr>rp_mem := m\<rparr>) = rp1_up s"
  by (simp add: rp1_up_def)

lemma up_put [simp]: "rp1_up (put32 a v s) = rp1_up s"
  by (simp add: put32_def)

lemma write_mem:
  assumes "rp1_up s" "p < 54"
  shows "rp_mem (bcm2712_gpio_write p v s) =
      (rp_mem s)(out_at p := (if v then rp_mem s (out_at p) OR 2 ^ gpio_bank_pin p else rp_mem s (out_at p) AND NOT (2 ^ gpio_bank_pin p)))"
  using assms by (simp add: bcm2712_gpio_write_def RP1_NUM_GPIOS_def addr_eqs put32_def RP1_SET_OFFSET_def RP1_CLR_OFFSET_def put_at)

lemma level_gpio_write:
  assumes "rp1_up s" "p < 54" "q < 54"
  shows "rp_level (bcm2712_gpio_write p v s) q = (if p = q then v else rp_level s q)"
proof -
  have b: "gpio_bank_pin q < 32" using bank_split [OF assms(3)] by simp
  note w = write_mem [OF assms(1,2), of v]
  show ?thesis
  proof (cases "gpio_bank p = gpio_bank q")
    case True
    then have same: "out_at q = out_at p" by (simp add: out_at_def)
    show ?thesis unfolding rp_level_def w same using b bank_inj [OF True]
      by (auto simp: bit_or_iff bit_and_iff bit_not_iff bit_one)
  next
    case False
    then show ?thesis using assms by (auto simp: rp_level_def w)
  qed
qed

lemma up_write [simp]: "rp1_up (bcm2712_gpio_write p v s) = rp1_up s"
  by (simp add: bcm2712_gpio_write_def)

interpretation rp1_levels: pin_array "\<lambda>s p. rp_level s (nat p)" "\<lambda>p. bcm2712_gpio_write (nat p)" "\<lambda>p. 0 \<le> p \<and> p < 54" rp1_up
proof
  show "rp_level (bcm2712_gpio_write (nat p) v s) (nat q) = (if p = q then v else rp_level s (nat q))"
    if "rp1_up s" "0 \<le> p \<and> p < 54" "0 \<le> q \<and> q < 54" for s p q v
    using level_gpio_write [of s "nat p" "nat q" v] that by (auto simp: eq_nat_nat_iff)
qed simp

lemma config_mem:
  assumes "rp1_up s" "p < 54"
  shows "rp_mem (bcm2712_gpio_config p func s) =
     (let m = rp_mem s;
          bitv = push_bit (gpio_bank_pin p) 1;
          m = (if func AND GPIO_FUNC_DIR_FLAG \<noteq> 0
               then m(oe_at p := (if func = GPIO_FUNC_OUTPUT then m (oe_at p) OR bitv else m (oe_at p) AND NOT bitv)) else m);
          fsel = (if func AND GPIO_FUNC_DIR_FLAG \<noteq> 0 then GPIO_FUNC_RIO else func AND RP1_GPIO_CTRL_FUNCSEL_MASK);
          ctrl = m (ctrl_at p) AND NOT (RP1_GPIO_CTRL_FUNCSEL_MASK OR RP1_GPIO_CTRL_OUTOVER_MASK OR RP1_GPIO_CTRL_OEOVER_MASK)
      in m(pad_at p := (m (pad_at p) AND NOT RP1_PAD_OUT_DISABLE_MASK) OR RP1_PAD_IN_ENABLE_MASK,
           ctrl_at p := (if fsel = GPIO_FUNC_NONE
                 then ctrl OR push_bit RP1_GPIO_CTRL_OEOVER_LSB RP1_OEOVER_DISABLE OR RP1_GPIO_CTRL_FUNCSEL_MASK
                 else ctrl OR push_bit RP1_GPIO_CTRL_OUTOVER_LSB RP1_OUTOVER_PERI OR
                   push_bit RP1_GPIO_CTRL_OEOVER_LSB RP1_OEOVER_PERI OR push_bit RP1_GPIO_CTRL_FUNCSEL_LSB fsel)))"
  using assms
  by (simp add: bcm2712_gpio_config_def RP1_NUM_GPIOS_def gpio_pad_update_def get32_def Let_def addr_eqs
      put32_def put_at RP1_SET_OFFSET_def RP1_CLR_OFFSET_def)

lemma up_config [simp]: "rp1_up (bcm2712_gpio_config p func s) = rp1_up s"
  by (simp add: bcm2712_gpio_config_def gpio_pad_update_def Let_def)

lemma up_pull [simp]: "rp1_up (bcm2712_gpio_pull p pull s) = rp1_up s"
  by (simp add: bcm2712_gpio_pull_def gpio_pad_update_def Let_def)

lemma up_init: "\<not> rp_gpio_ready s \<or> rp1_up s \<Longrightarrow> rp1_up (bcm2712_gpio_init ok s)"
  by (auto simp: bcm2712_gpio_init_def rp1_up_def Let_def)

lemma pull_mem:
  assumes "rp1_up s" "p < 54"
  shows "rp_mem (bcm2712_gpio_pull p pull s) = (rp_mem s)(pad_at p := (rp_mem s (pad_at p) AND NOT RP1_PAD_PULL_MASK) OR
     (push_bit RP1_PAD_PULL_LSB pull AND RP1_PAD_PULL_MASK))"
  using assms by (simp add: bcm2712_gpio_pull_def RP1_NUM_GPIOS_def gpio_pad_update_def get32_def addr_eqs put32_def put_at Let_def)

text \<open>Selecting the function of a pin.\<close>

definition rp_func :: "rp1 \<Rightarrow> nat \<Rightarrow> u32" where
  "rp_func s p = rp_mem s (ctrl_at p) AND RP1_GPIO_CTRL_FUNCSEL_MASK"

definition rp_others_kept :: "rp1 \<Rightarrow> rp1 \<Rightarrow> nat \<Rightarrow> bool" where
  "rp_others_kept s s' p \<longleftrightarrow> (\<forall>q<54. q \<noteq> p \<longrightarrow> rp_level s' q = rp_level s q \<and> rp_output s' q = rp_output s q \<and>
     rp_mem s' (ctrl_at q) = rp_mem s (ctrl_at q) \<and> rp_mem s' (pad_at q) = rp_mem s (pad_at q))"

lemma output_config:
  assumes "rp1_up s" "p < 54" "q < 54" "func = GPIO_FUNC_INPUT \<or> func = GPIO_FUNC_OUTPUT"
  shows "rp_output (bcm2712_gpio_config p func s) q = (if p = q then func = GPIO_FUNC_OUTPUT else rp_output s q)"
proof -
  have f: "GPIO_FUNC_OUTPUT AND GPIO_FUNC_DIR_FLAG \<noteq> 0" "GPIO_FUNC_INPUT AND GPIO_FUNC_DIR_FLAG \<noteq> 0" "GPIO_FUNC_INPUT \<noteq> GPIO_FUNC_OUTPUT"
    by (simp_all add: gpio_funcs)
  have b: "gpio_bank_pin q < 32" using bank_split [OF assms(3)] by simp
  have m: "rp_mem (bcm2712_gpio_config p func s) (oe_at q) = ((rp_mem s)(oe_at p := (if func = GPIO_FUNC_OUTPUT
      then rp_mem s (oe_at p) OR 2 ^ gpio_bank_pin p else rp_mem s (oe_at p) AND NOT (2 ^ gpio_bank_pin p)))) (oe_at q)"
    using assms f by (auto simp: config_mem Let_def)
  show ?thesis
  proof (cases "gpio_bank p = gpio_bank q")
    case True
    then have same: "oe_at q = oe_at p" by (simp add: oe_at_def)
    show ?thesis unfolding rp_output_def m unfolding same using b bank_inj [OF True]
      by (auto simp: bit_or_iff bit_and_iff bit_not_iff bit_one)
  next
    case False
    then show ?thesis unfolding rp_output_def m using assms(2,3) by auto
  qed
qed

interpretation rp1_directions: pin_array "\<lambda>s p. rp_output s (nat p)"
    "\<lambda>p v. bcm2712_gpio_config (nat p) (if v then GPIO_FUNC_OUTPUT else GPIO_FUNC_INPUT)" "\<lambda>p. 0 \<le> p \<and> p < 54" rp1_up
proof
  have "GPIO_FUNC_INPUT \<noteq> GPIO_FUNC_OUTPUT" by (simp add: gpio_funcs)
  then show "rp_output (bcm2712_gpio_config (nat p) (if v then GPIO_FUNC_OUTPUT else GPIO_FUNC_INPUT) s) (nat q) =
      (if p = q then v else rp_output s (nat q))"
    if "rp1_up s" "0 \<le> p \<and> p < 54" "0 \<le> q \<and> q < 54" for s p q v
    using output_config [of s "nat p" "nat q"] that by (auto simp: eq_nat_nat_iff)
qed simp

text \<open>
  C30. Driving a pin of the Raspberry Pi 5: configuring any of the 54 pins as an output and writing a level enables its
  driver at that level, routes it to the software-controlled function with the pad open, and leaves
  level, direction, control and pad of every other pin alone.
\<close>

theorem rp1_drive_exact:
  assumes "rp1_up s" "p < 54" "s' = bcm2712_gpio_write p v (bcm2712_gpio_config p GPIO_FUNC_OUTPUT s)"
  shows "rp_level s' p = v \<and> rp_output s' p \<and> rp_func s' p = GPIO_FUNC_RIO \<and>
     rp_mem s' (pad_at p) AND RP1_PAD_OUT_DISABLE_MASK = 0 \<and> rp_mem s' (pad_at p) AND RP1_PAD_IN_ENABLE_MASK \<noteq> 0 \<and>
     rp_others_kept s s' p"
proof -
  let ?c = "bcm2712_gpio_config p GPIO_FUNC_OUTPUT s"
  have up: "rp1_up ?c" using assms(1) by simp
  have f: "GPIO_FUNC_OUTPUT AND GPIO_FUNC_DIR_FLAG \<noteq> 0" by (simp add: gpio_funcs)
  have keep: "rp_mem s' a = rp_mem ?c a" if "a \<noteq> out_at p" for a using that assms by (simp add: write_mem up)
  have level: "rp_level s' q = (if p = q then v else rp_level s q)" if "q < 54" for q
    using level_gpio_write [OF up assms(2) that, of v] assms that f by (auto simp: rp_level_def config_mem Let_def)
  have out: "rp_output s' q = (if p = q then True else rp_output s q)" if "q < 54" for q
    using output_config [OF assms(1,2) that, of GPIO_FUNC_OUTPUT] keep [of "oe_at q"] assms(2) that by (auto simp: rp_output_def)
  have other: "rp_mem s' (ctrl_at q) = rp_mem s (ctrl_at q) \<and> rp_mem s' (pad_at q) = rp_mem s (pad_at q)" if "q < 54" "q \<noteq> p" for q
    using that assms(1,2) keep [of "ctrl_at q"] keep [of "pad_at q"] f by (simp add: config_mem Let_def)
  have "rp_func s' p = GPIO_FUNC_RIO"
    using assms(1,2) keep [of "ctrl_at p"] f
    by (simp add: rp_func_def config_mem Let_def gpio_funcs rp1_fields bit.conj_disj_distrib2 and.assoc)
  moreover have "rp_mem s' (pad_at p) AND RP1_PAD_OUT_DISABLE_MASK = 0 \<and> rp_mem s' (pad_at p) AND RP1_PAD_IN_ENABLE_MASK \<noteq> 0"
  proof -
    have "rp_mem s' (pad_at p) = (rp_mem s (pad_at p) AND NOT RP1_PAD_OUT_DISABLE_MASK) OR RP1_PAD_IN_ENABLE_MASK"
      using assms(1,2) keep [of "pad_at p"] f by (simp add: config_mem Let_def)
    then show ?thesis by (simp add: rp1_fields bit.conj_disj_distrib2 and.assoc or_eq_0_iff)
  qed
  ultimately show ?thesis using level [OF assms(2)] out [OF assms(2)] level out other by (auto simp: rp_others_kept_def)
qed

definition demo_rp1 :: rp1 where
  "demo_rp1 = bcm2712_gpio_init True \<lparr>rp_mem = (\<lambda>_. 0), rp_io_bank_base = 0, rp_sys_rio_base = 0, rp_pads_bank_base = 0, rp_gpio_ready = False\<rparr>"

theorem rp1_drive_exact_witness:
  "rp_level (bcm2712_gpio_write 45 True (bcm2712_gpio_config 45 GPIO_FUNC_OUTPUT demo_rp1)) 45"
proof -
  have "rp1_up demo_rp1" by (simp add: demo_rp1_def up_init)
  from rp1_drive_exact [OF this _ refl, of 45 True] show ?thesis by simp
qed

end
