(* ===== verification/Rpi5_Fan.thy ===== *)
theory Rpi5_Fan
  imports Rp1_Gpio
begin

text \<open>
  The fan daemon of the Raspberry Pi 5 (\<^verbatim>\<open>src/raspi5/system/drivers/fand/fand.c\<close>): level and duty cycle down to the PWM
  registers, the clock and pin setup, and the device, control and shell interfaces. The register file
  and the pin operations are those of \<^verbatim>\<open>Rp1_Gpio\<close>.

  Properties: in every reachable state the PWM registers agree with the level or duty cycle last set, level 0 gates the
  channel off, and the pin stays configured; and how far the reported duty cycle is from the one set.
\<close>

section \<open>Registers and state\<close>

definition RP1_PWM1_OFF :: nat where "RP1_PWM1_OFF = 0x9c000"
definition RP1_PWM_GLB_CTRL :: nat where "RP1_PWM_GLB_CTRL = 0x000"
definition RP1_PWM_GLB_CTRL_EN :: "nat \<Rightarrow> u32" where "RP1_PWM_GLB_CTRL_EN ch = push_bit ch 1"
definition RP1_PWM_GLB_CTRL_UPDATE :: u32 where "RP1_PWM_GLB_CTRL_UPDATE = push_bit 31 1"
definition RP1_PWM_CHAN_CTRL :: "nat \<Rightarrow> nat" where "RP1_PWM_CHAN_CTRL ch = 0x014 + ch * 0x10"
definition RP1_PWM_CTRL_MODE_TE_MS :: u32 where "RP1_PWM_CTRL_MODE_TE_MS = 0x1"
definition RP1_PWM_CTRL_POLARITY :: u32 where "RP1_PWM_CTRL_POLARITY = push_bit 3 1"
definition RP1_PWM_CTRL_FIFO_POP :: u32 where "RP1_PWM_CTRL_FIFO_POP = push_bit 8 1"
definition RP1_PWM_RANGE :: "nat \<Rightarrow> nat" where "RP1_PWM_RANGE ch = 0x018 + ch * 0x10"
definition RP1_PWM_PHASE :: "nat \<Rightarrow> nat" where "RP1_PWM_PHASE ch = 0x01C + ch * 0x10"
definition RP1_PWM_DUTY :: "nat \<Rightarrow> nat" where "RP1_PWM_DUTY ch = 0x020 + ch * 0x10"
definition RP1_PWM_RPM :: nat where "RP1_PWM_RPM = RP1_PWM_PHASE 2"
definition RP1_CLOCKS_OFF :: nat where "RP1_CLOCKS_OFF = 0x18000"
definition RP1_CLK_PWM1_CTRL :: nat where "RP1_CLK_PWM1_CTRL = 0x084"
definition RP1_CLK_PWM1_DIV_INT :: nat where "RP1_CLK_PWM1_DIV_INT = 0x088"
definition RP1_CLK_PWM1_DIV_FRAC :: nat where "RP1_CLK_PWM1_DIV_FRAC = 0x08c"
definition RP1_CLK_PWM1_SEL :: nat where "RP1_CLK_PWM1_SEL = 0x090"
definition RP1_CLK_CTRL_ENABLE :: u32 where "RP1_CLK_CTRL_ENABLE = push_bit 11 1"
definition RP1_CLK_CTRL_AUXSRC :: "u32 \<Rightarrow> u32" where "RP1_CLK_CTRL_AUXSRC x = push_bit 5 x"
definition RP1_CLK_CTRL_SRC_AUX :: u32 where "RP1_CLK_CTRL_SRC_AUX = 0x1"
definition RP1_CLK_SRC_MASK :: u32 where "RP1_CLK_SRC_MASK = 0x1f"
definition RP1_CLK_PWM1_SRC_XOSC :: u32 where "RP1_CLK_PWM1_SRC_XOSC = 2"
definition FAN_PWM_CHAN :: nat where "FAN_PWM_CHAN = 3"
definition FAN_PWM_GPIO :: nat where "FAN_PWM_GPIO = 45"
definition FAN_PWM_CLK_HZ :: int where "FAN_PWM_CLK_HZ = 50000000"
definition FAN_PWM_PERIOD_NS :: int where "FAN_PWM_PERIOD_NS = 41566"
definition FAN_PWM_RANGE_TICKS :: u32 where
  "FAN_PWM_RANGE_TICKS = word_of_int (FAN_PWM_CLK_HZ * FAN_PWM_PERIOD_NS div 1000000000)"
definition FAN_LEVEL_MAX :: int where "FAN_LEVEL_MAX = 10"
definition FAN_LEVEL_DEFAULT :: int where "FAN_LEVEL_DEFAULT = 5"
definition FAN_CNTL_SET_LEVEL :: int where "FAN_CNTL_SET_LEVEL = 1"
definition FAN_CNTL_GET_INFO :: int where "FAN_CNTL_GET_INFO = 2"

lemmas fan_consts = RP1_PWM1_OFF_def RP1_PWM_GLB_CTRL_def RP1_PWM_CHAN_CTRL_def RP1_PWM_RANGE_def RP1_PWM_DUTY_def
  RP1_CLOCKS_OFF_def RP1_CLK_PWM1_CTRL_def RP1_CLK_PWM1_DIV_INT_def RP1_CLK_PWM1_DIV_FRAC_def FAN_PWM_CHAN_def

record fand =
  fn_rp :: rp1
  fn_pwm_base :: nat
  fn_level :: int
  fn_duty_pct :: int
  fn_rev :: bool

definition fan_put :: "nat \<Rightarrow> u32 \<Rightarrow> fand \<Rightarrow> fand" where
  "fan_put a v d = d\<lparr>fn_rp := put32 a v (fn_rp d)\<rparr>"

definition fan_get :: "nat \<Rightarrow> fand \<Rightarrow> u32" where
  "fan_get a d = get32 a (fn_rp d)"

section \<open>Levels\<close>

definition fan_level_to_duty_ticks :: "int \<Rightarrow> fand \<Rightarrow> u32" where
  "fan_level_to_duty_ticks level d =
     (let pct = (if fn_rev d then word_of_int ((FAN_LEVEL_MAX - level) * 100 sdiv FAN_LEVEL_MAX) else word_of_int (level * 100 sdiv FAN_LEVEL_MAX)) :: u32
      in ucast ((ucast FAN_PWM_RANGE_TICKS * ucast pct :: u64) div 100))"

definition fan_commit :: "fand \<Rightarrow> fand" where
  "fan_commit d =
     (let glb = fan_get (fn_pwm_base d + RP1_PWM_GLB_CTRL) d;
          glb = (if fn_level d = 0 \<and> fn_duty_pct d < 0 then glb AND NOT (RP1_PWM_GLB_CTRL_EN FAN_PWM_CHAN)
                 else glb OR RP1_PWM_GLB_CTRL_EN FAN_PWM_CHAN)
      in fan_put (fn_pwm_base d + RP1_PWM_GLB_CTRL) (glb OR RP1_PWM_GLB_CTRL_UPDATE) d)"

definition fan_write_duty_ticks :: "u32 \<Rightarrow> fand \<Rightarrow> fand" where
  "fan_write_duty_ticks ticks d =
     (let ticks = (if ticks > FAN_PWM_RANGE_TICKS then FAN_PWM_RANGE_TICKS else ticks)
      in fan_commit (fan_put (fn_pwm_base d + RP1_PWM_DUTY FAN_PWM_CHAN) ticks d))"

definition fan_set_level :: "int \<Rightarrow> fand \<Rightarrow> fand" where
  "fan_set_level level d =
     (let level = (if level < 0 then 0 else level);
          level = (if level > FAN_LEVEL_MAX then FAN_LEVEL_MAX else level);
          d = d\<lparr>fn_level := level, fn_duty_pct := -1\<rparr>
      in fan_write_duty_ticks (fan_level_to_duty_ticks level d) d)"

definition fan_set_duty_pct :: "int \<Rightarrow> fand \<Rightarrow> fand" where
  "fan_set_duty_pct pct d =
     (let pct = (if pct < 0 then 0 else pct);
          pct = (if pct > 100 then 100 else pct);
          d = d\<lparr>fn_duty_pct := pct\<rparr>
      in fan_write_duty_ticks (ucast ((ucast FAN_PWM_RANGE_TICKS * word_of_int pct :: u64) div 100)) d)"

definition fan_current_duty_pct :: "fand \<Rightarrow> int" where
  "fan_current_duty_pct d =
     (if fn_duty_pct d \<ge> 0 then fn_duty_pct d
      else let ticks = fan_level_to_duty_ticks (fn_level d) d
           in uint (ucast ticks * 100 div ucast FAN_PWM_RANGE_TICKS :: u64))"

definition fan_read_rpm :: "fand \<Rightarrow> u32" where
  "fan_read_rpm d = fan_get (fn_pwm_base d + RP1_PWM_RPM) d"

section \<open>Setup\<close>

definition fan_clk_init :: "fand \<Rightarrow> fand" where
  "fan_clk_init d =
     (let clk = PI5_RP1_WIN_OFF + RP1_CLOCKS_OFF;
          ctrl = fan_get (clk + RP1_CLK_PWM1_CTRL) d
      in if ctrl AND RP1_CLK_CTRL_ENABLE \<noteq> 0 then d
         else let d = fan_put (clk + RP1_CLK_PWM1_DIV_INT) 1 d;
                  d = fan_put (clk + RP1_CLK_PWM1_DIV_FRAC) 0 d;
                  ctrl = ctrl AND NOT (RP1_CLK_CTRL_AUXSRC 0x1f OR RP1_CLK_SRC_MASK);
                  ctrl = ctrl OR RP1_CLK_CTRL_SRC_AUX OR RP1_CLK_CTRL_AUXSRC RP1_CLK_PWM1_SRC_XOSC;
                  d = fan_put (clk + RP1_CLK_PWM1_CTRL) ctrl d
              in fan_put (clk + RP1_CLK_PWM1_CTRL) (ctrl OR RP1_CLK_CTRL_ENABLE) d)"

definition fan_hw_init :: "bool \<Rightarrow> fand \<Rightarrow> fand" where
  "fan_hw_init up d =
     (let d = d\<lparr>fn_pwm_base := PI5_RP1_WIN_OFF + RP1_PWM1_OFF\<rparr>;
          d = fan_clk_init d;
          d = d\<lparr>fn_rp := bcm2712_gpio_init up (fn_rp d)\<rparr>;
          d = d\<lparr>fn_rp := bcm2712_gpio_config FAN_PWM_GPIO GPIO_FUNC_ALTF0 (fn_rp d)\<rparr>;
          d = d\<lparr>fn_rp := bcm2712_gpio_pull FAN_PWM_GPIO RP1_PULL_DOWN (fn_rp d)\<rparr>;
          d = fan_put (fn_pwm_base d + RP1_PWM_RANGE FAN_PWM_CHAN) FAN_PWM_RANGE_TICKS d;
          d = fan_put (fn_pwm_base d + RP1_PWM_DUTY FAN_PWM_CHAN) FAN_PWM_RANGE_TICKS d;
          d = fan_put (fn_pwm_base d + RP1_PWM_CHAN_CTRL FAN_PWM_CHAN)
                (RP1_PWM_CTRL_FIFO_POP OR RP1_PWM_CTRL_POLARITY OR RP1_PWM_CTRL_MODE_TE_MS) d
      in fan_commit d)"

text \<open>The arguments: whether the register window could be mapped, whether the chip came up, and what the registers hold.\<close>

definition fan_main :: "bool \<Rightarrow> bool \<Rightarrow> (nat \<Rightarrow> u32) \<Rightarrow> fand option" where
  "fan_main mapped up m =
     (if \<not> mapped then None
      else let rp = \<lparr>rp_mem = m, rp_io_bank_base = 0, rp_sys_rio_base = 0, rp_pads_bank_base = 0, rp_gpio_ready = False\<rparr>;
               d = \<lparr>fn_rp = rp, fn_pwm_base = 0, fn_level = FAN_LEVEL_DEFAULT, fn_duty_pct = -1, fn_rev = False\<rparr>;
               d = fan_hw_init up d
           in Some (fan_set_level FAN_LEVEL_DEFAULT d))"

section \<open>Device\<close>

text \<open>The replies, their texts as constructors.\<close>

datatype fan_text = FanUsage | FanStatus bool int int u32 | FanConversion bool | FanDiag "u32 list" int bool

definition fan_dup_status :: "fand \<Rightarrow> fan_text" where
  "fan_dup_status d =
     FanStatus (fn_duty_pct d \<ge> 0) (if fn_duty_pct d \<ge> 0 then fn_duty_pct d else fn_level d) (fan_current_duty_pct d) (fan_read_rpm d)"

text \<open>The registers are read again after a pause; \<open>later\<close> is what they hold then.\<close>

definition fan_diag :: "(nat \<Rightarrow> u32) \<Rightarrow> fand \<Rightarrow> fan_text" where
  "fan_diag later d =
     (let clk = PI5_RP1_WIN_OFF + RP1_CLOCKS_OFF;
          ctrl = RP1_IO_BANK_OFF + 2 * RP1_BANK_STRIDE + (FAN_PWM_GPIO - 34) * RP1_GPIO_PIN_STRIDE + RP1_GPIO_CTRL;
          pad = RP1_PADS_BANK_OFF + 2 * RP1_BANK_STRIDE + RP1_PADS_PIN0 + (FAN_PWM_GPIO - 34) * RP1_PAD_PIN_STRIDE;
          pwm = fn_pwm_base d;
          duty0 = fan_get (pwm + RP1_PWM_DUTY FAN_PWM_CHAN) d;
          duty1 = later (pwm + RP1_PWM_DUTY FAN_PWM_CHAN)
      in FanDiag [later (clk + RP1_CLK_PWM1_CTRL), later (clk + RP1_CLK_PWM1_SEL), later (clk + RP1_CLK_PWM1_DIV_INT),
           later (clk + RP1_CLK_PWM1_DIV_FRAC) AND 0xffff, later ctrl, later pad, later (pwm + RP1_PWM_GLB_CTRL),
           later (pwm + RP1_PWM_CHAN_CTRL FAN_PWM_CHAN), later (pwm + RP1_PWM_RANGE FAN_PWM_CHAN), duty0, duty1,
           later (pwm + RP1_PWM_PHASE FAN_PWM_CHAN), later (pwm + RP1_PWM_RPM)] (fn_level d) (duty0 \<noteq> duty1))"

text \<open>\<^verbatim>\<open>strtol\<close> with base 10: the value, clipped to 64 bits, and the rest of the text; the whole text if there is no digit.\<close>

definition strtol10 :: "string \<Rightarrow> int \<times> string" where
  "strtol10 s =
     (let t = dropWhile is_space s;
          (neg, u) = (case t of c # r \<Rightarrow> if c = CHR ''-'' then (True, r) else if c = CHR ''+'' then (False, r) else (False, t) | [] \<Rightarrow> (False, []))
      in if takeWhile is_digit u = [] then (0, s)
         else (max (- (2 ^ 63)) (min (2 ^ 63 - 1) (if neg then - digits_value u else digits_value u)), dropWhile is_digit u))"

definition fan_cmd :: "(nat \<Rightarrow> u32) \<Rightarrow> string list \<Rightarrow> fand \<Rightarrow> fan_text option \<times> fand" where
  "fan_cmd later argv d =
     (if argv ! 0 = ''help'' then (Some FanUsage, d)
      else if argv ! 0 = ''status'' then (Some (fan_dup_status d), d)
      else if argv ! 0 = ''diag'' then (Some (fan_diag later d), d)
      else if argv ! 0 = ''run'' \<and> length argv > 1
        then let (level, rest) = strtol10 (argv ! 1)
             in if rest = [] then let d = fan_set_level (wrap32 level) d in (Some (fan_dup_status d), d) else (None, d)
      else if argv ! 0 = ''rev''
        then let d = d\<lparr>fn_rev := \<not> fn_rev d\<rparr>;
                 d = (if fn_duty_pct d < 0 then fan_set_level (fn_level d) d else d)
             in (Some (FanConversion (fn_rev d)), d)
      else if argv ! 0 = ''duty'' \<and> length argv > 1
        then let d = fan_set_duty_pct (atoi (argv ! 1)) d in (Some (fan_dup_status d), d)
      else (None, d))"

definition fan_read :: "int \<Rightarrow> int \<Rightarrow> fand \<Rightarrow> u8 list" where
  "fan_read sz offset d = (if sz \<le> 0 \<or> offset \<noteq> 0 then [] else [word_of_int (fn_level d)])"

definition fan_write :: "u8 list \<Rightarrow> fand \<Rightarrow> int \<times> fand" where
  "fan_write buf d = (case buf of [] \<Rightarrow> (0, d) | b # _ \<Rightarrow> (1, fan_set_level (uint b) d))"

definition fan_dcntl :: "int \<Rightarrow> int \<Rightarrow> fand \<Rightarrow> int list option \<times> fand" where
  "fan_dcntl cmd arg d =
     (if cmd = FAN_CNTL_SET_LEVEL then let d = fan_set_level arg d in (Some [fn_level d], d)
      else if cmd = FAN_CNTL_GET_INFO then (Some [fn_level d, fan_current_duty_pct d, sint (fan_read_rpm d)], d)
      else (None, d))"

section \<open>What the registers hold\<close>

text \<open>The duty cycle in percent that is in force.\<close>

definition fan_pct :: "fand \<Rightarrow> int" where
  "fan_pct d = (if fn_duty_pct d \<ge> 0 then fn_duty_pct d else if fn_rev d then 100 - 10 * fn_level d else 10 * fn_level d)"

definition fan_ranges :: "fand \<Rightarrow> bool" where
  "fan_ranges d \<longleftrightarrow> 0 \<le> fn_level d \<and> fn_level d \<le> 10 \<and> -1 \<le> fn_duty_pct d \<and> fn_duty_pct d \<le> 100"

definition fan_setup :: "fand \<Rightarrow> bool" where
  "fan_setup d \<longleftrightarrow> rp1_up (fn_rp d) \<and> fn_pwm_base d = 0x609c000 \<and> fan_get 0x609c048 d = 2078 \<and> fan_get 0x609c044 d = 0x109 \<and>
     rp_func (fn_rp d) 45 = GPIO_FUNC_ALTF0 \<and> fan_get (pad_at 45) d AND RP1_PAD_PULL_MASK = 4"

definition fan_follows :: "fand \<Rightarrow> bool" where
  "fan_follows d \<longleftrightarrow> uint (fan_get 0x609c050 d) = 2078 * fan_pct d div 100 \<and>
     (bit (fan_get 0x609c000 d) 3 \<longleftrightarrow> \<not> (fn_level d = 0 \<and> fn_duty_pct d < 0))"

lemma range_ticks: "FAN_PWM_RANGE_TICKS = 2078"
  by (simp add: FAN_PWM_RANGE_TICKS_def FAN_PWM_CLK_HZ_def FAN_PWM_PERIOD_NS_def)

lemma ticks_of_pct:
  assumes "0 \<le> p" "p \<le> 100"
  shows "uint (ucast ((2078 * word_of_int p :: u64) div 100) :: u32) = 2078 * p div 100"
proof -
  have u: "uint (2078 * word_of_int p :: u64) = 2078 * p"
    using assms by (simp add: uint_word_ariths take_bit_eq_mod uint_word_of_int)
  have "uint ((2078 * word_of_int p :: u64) div 100) = 2078 * p div 100" by (simp add: uint_div u)
  then show ?thesis using assms by (simp add: unsigned_ucast_eq take_bit_eq_mod)
qed

lemma level_ticks:
  assumes "0 \<le> fn_level d" "fn_level d \<le> 10" "fn_duty_pct d < 0"
  shows "uint (fan_level_to_duty_ticks (fn_level d) d) = 2078 * fan_pct d div 100"
proof -
  have s: "(10 - l) * 100 sdiv 10 = 100 - 10 * l" "l * 100 sdiv 10 = 10 * l" if "0 \<le> l" "l \<le> 10" for l :: int
    using that by (simp_all add: signed_divide_int_def sgn_if)
  have u: "ucast (word_of_int p :: u32) = (word_of_int p :: u64)" if "0 \<le> p" "p \<le> 100" for p
    using that by (subst word_uint_eq_iff) (simp add: unsigned_ucast_eq uint_word_of_int take_bit_eq_mod)
  have "0 \<le> fan_pct d" "fan_pct d \<le> 100" using assms by (auto simp: fan_pct_def)
  note t = ticks_of_pct [OF this]
  have "fan_level_to_duty_ticks (fn_level d) d = ucast ((2078 * word_of_int (fan_pct d) :: u64) div 100)"
    using assms s [of "fn_level d"] u [of "fan_pct d"]
    by (auto simp: fan_level_to_duty_ticks_def range_ticks FAN_LEVEL_MAX_def fan_pct_def Let_def)
  then show ?thesis using t by simp
qed

lemma put_pwm: "a < RP1_IO_BANK_OFF \<Longrightarrow> rp1_put a v m = m(a := v)"
  by (simp add: rp1_put_def)

lemma fan_get_put: "a < RP1_IO_BANK_OFF \<Longrightarrow> fan_get b (fan_put a v d) = (if b = a then v else fan_get b d)"
  by (simp add: fan_get_def fan_put_def get32_def put32_def put_pwm)

lemma fan_put_fields [simp]:
  "fn_level (fan_put a v d) = fn_level d" "fn_duty_pct (fan_put a v d) = fn_duty_pct d" "fn_rev (fan_put a v d) = fn_rev d"
  "fn_pwm_base (fan_put a v d) = fn_pwm_base d" "rp1_up (fn_rp (fan_put a v d)) = rp1_up (fn_rp d)"
  by (simp_all add: fan_put_def)

lemma rp_func_get: "rp_func (fn_rp d) 45 = fan_get (ctrl_at 45) d AND RP1_GPIO_CTRL_FUNCSEL_MASK"
  by (simp add: rp_func_def fan_get_def get32_def)

lemma at45: "ctrl_at 45 = 0x60d805c" "pad_at 45 = 0x60f8030"
  by (simp_all add: ctrl_at_def pad_at_def rp1_bases gpio_bank_def gpio_bank_pin_def)

lemma write_duty:
  assumes "fan_setup d" "fan_ranges d" "uint ticks = 2078 * fan_pct d div 100"
  shows "fan_setup (fan_write_duty_ticks ticks d) \<and> fan_follows (fan_write_duty_ticks ticks d) \<and>
     fan_ranges (fan_write_duty_ticks ticks d)"
proof -
  have "0 \<le> fan_pct d" "fan_pct d \<le> 100" using assms(2) by (auto simp: fan_ranges_def fan_pct_def)
  then have "uint ticks \<le> 2078" using assms(3) by linarith
  then have t: "\<not> ticks > FAN_PWM_RANGE_TICKS" by (simp add: range_ticks word_less_def)
  have b: "0x609c000 < RP1_IO_BANK_OFF" "0x609c050 < RP1_IO_BANK_OFF" by (simp_all add: rp1_bases)
  have base: "fn_pwm_base d = 0x609c000" using assms(1) by (simp add: fan_setup_def)
  define e where "e = fan_write_duty_ticks ticks d"
  have g: "fan_get a e = (if a = 0x609c000 then ((if fn_level d = 0 \<and> fn_duty_pct d < 0 then fan_get 0x609c000 d AND NOT (2 ^ 3)
        else fan_get 0x609c000 d OR 2 ^ 3) OR RP1_PWM_GLB_CTRL_UPDATE) else if a = 0x609c050 then ticks else fan_get a d)" for a
    using t base b by (simp add: e_def fan_write_duty_ticks_def fan_commit_def fan_get_put Let_def RP1_PWM_GLB_CTRL_EN_def fan_consts)
  have f: "fn_level e = fn_level d" "fn_duty_pct e = fn_duty_pct d" "fn_rev e = fn_rev d" "fn_pwm_base e = fn_pwm_base d"
    "rp1_up (fn_rp e) = rp1_up (fn_rp d)"
    by (simp_all add: e_def fan_write_duty_ticks_def fan_commit_def Let_def)
  have "fan_setup e" using assms(1) f g by (simp add: fan_setup_def rp_func_get at45)
  moreover have "fan_follows e" using assms(3) f g
    by (simp add: fan_follows_def fan_pct_def RP1_PWM_GLB_CTRL_UPDATE_def bit_or_iff bit_and_iff bit_not_iff bit_one bit_push_bit_iff)
  moreover have "fan_ranges e" using assms(2) f by (simp add: fan_ranges_def)
  ultimately show ?thesis by (simp add: e_def)
qed

lemma fan_setup_fields [simp]:
  "fan_setup (d\<lparr>fn_level := l\<rparr>) = fan_setup d" "fan_setup (d\<lparr>fn_duty_pct := p\<rparr>) = fan_setup d" "fan_setup (d\<lparr>fn_rev := r\<rparr>) = fan_setup d"
  by (simp_all add: fan_setup_def fan_get_def)

definition fan_good :: "fand \<Rightarrow> bool" where
  "fan_good d \<longleftrightarrow> fan_setup d \<and> fan_follows d \<and> fan_ranges d"

lemma set_level_good:
  assumes "fan_setup d"
  shows "fan_good (fan_set_level level d) \<and> fn_level (fan_set_level level d) = max 0 (min 10 level) \<and> fn_duty_pct (fan_set_level level d) = -1"
proof -
  let ?l = "max 0 (min 10 level)"
  define e where "e = d\<lparr>fn_level := ?l, fn_duty_pct := -1\<rparr>"
  have e: "fan_setup e" "fan_ranges e" using assms by (simp_all add: e_def fan_ranges_def)
  have "uint (fan_level_to_duty_ticks (fn_level e) e) = 2078 * fan_pct e div 100" by (rule level_ticks) (simp_all add: e_def)
  from write_duty [OF e this] have "fan_good (fan_write_duty_ticks (fan_level_to_duty_ticks ?l e) e)" by (simp add: fan_good_def e_def)
  moreover have "fan_set_level level d = fan_write_duty_ticks (fan_level_to_duty_ticks ?l e) e"
    by (auto simp: fan_set_level_def FAN_LEVEL_MAX_def e_def Let_def max_def min_def)
  ultimately show ?thesis by (simp add: fan_write_duty_ticks_def fan_commit_def Let_def e_def)
qed

lemma set_duty_good:
  assumes "fan_good d"
  shows "fan_good (fan_set_duty_pct pct d) \<and> fn_duty_pct (fan_set_duty_pct pct d) = max 0 (min 100 pct)"
proof -
  let ?p = "max 0 (min 100 pct)"
  define e where "e = d\<lparr>fn_duty_pct := ?p\<rparr>"
  have e: "fan_setup e" "fan_ranges e" using assms by (simp_all add: e_def fan_good_def fan_ranges_def)
  have "uint (ucast ((2078 * word_of_int ?p :: u64) div 100) :: u32) = 2078 * fan_pct e div 100"
    using ticks_of_pct [of ?p] by (simp add: e_def fan_pct_def)
  from write_duty [OF e this] have "fan_good (fan_write_duty_ticks (ucast ((2078 * word_of_int ?p :: u64) div 100)) e)"
    by (simp add: fan_good_def)
  moreover have "fan_set_duty_pct pct d = fan_write_duty_ticks (ucast ((2078 * word_of_int ?p :: u64) div 100)) e"
    by (auto simp: fan_set_duty_pct_def range_ticks e_def Let_def max_def min_def)
  ultimately show ?thesis by (simp add: fan_write_duty_ticks_def fan_commit_def Let_def e_def)
qed

section \<open>Reachable states\<close>

datatype fan_event = FanCmd "nat \<Rightarrow> u32" "string list" | FanWrite "u8 list" | FanCntl int int

fun fan_step :: "fan_event \<Rightarrow> fand \<Rightarrow> fand" where
  "fan_step (FanCmd later argv) d = snd (fan_cmd later argv d)"
| "fan_step (FanWrite buf) d = snd (fan_write buf d)"
| "fan_step (FanCntl c x) d = snd (fan_dcntl c x d)"

lemma fan_cmd_good: "fan_good d \<Longrightarrow> fan_good (snd (fan_cmd later argv d))"
proof -
  assume d: "fan_good d"
  have l: "fan_good (fan_set_level x e)" if "fan_setup e" for x e using set_level_good [OF that] by blast
  have r: "fan_good (d\<lparr>fn_rev := b\<rparr>)" if "\<not> fn_duty_pct d < 0" for b
    using d that by (auto simp: fan_good_def fan_follows_def fan_ranges_def fan_pct_def fan_get_def)
  show ?thesis using d l [of d] l [of "d\<lparr>fn_rev := \<not> fn_rev d\<rparr>"] r set_duty_good [OF d]
    by (auto simp: fan_cmd_def Let_def split_beta fan_good_def)
qed

lemma fan_step_good: "fan_good d \<Longrightarrow> fan_good (fan_step e d)"
  using set_level_good [of d] fan_cmd_good [of d]
  by (cases e) (auto simp: fan_write_def fan_dcntl_def fan_good_def Let_def split: list.split)

lemma clk_fields [simp]:
  "fn_level (fan_clk_init d) = fn_level d" "fn_duty_pct (fan_clk_init d) = fn_duty_pct d" "fn_rev (fan_clk_init d) = fn_rev d"
  "fn_pwm_base (fan_clk_init d) = fn_pwm_base d" "rp_gpio_ready (fn_rp (fan_clk_init d)) = rp_gpio_ready (fn_rp d)"
  by (simp_all add: fan_clk_init_def Let_def fan_put_def put32_def)

lemma hw_init_setup:
  assumes "\<not> rp_gpio_ready (fn_rp d)"
  shows "fan_setup (fan_hw_init up d)"
proof -
  define e where "e = fan_clk_init (d\<lparr>fn_pwm_base := PI5_RP1_WIN_OFF + RP1_PWM1_OFF\<rparr>)"
  define r0 where "r0 = bcm2712_gpio_init up (fn_rp e)"
  define r1 where "r1 = bcm2712_gpio_config 45 GPIO_FUNC_ALTF0 r0"
  define r2 where "r2 = bcm2712_gpio_pull 45 RP1_PULL_DOWN r1"
  define f where "f = e\<lparr>fn_rp := r2\<rparr>"
  have up: "rp1_up r0" "rp1_up r1" "rp1_up r2" using assms by (simp_all add: r0_def r1_def r2_def e_def up_init)
  have c: "rp_mem r1 (ctrl_at 45) AND RP1_GPIO_CTRL_FUNCSEL_MASK = GPIO_FUNC_ALTF0"
    using up(1) by (simp add: r1_def config_mem Let_def gpio_funcs rp1_fields bit.conj_disj_distrib2 and.assoc)
  have "rp_mem r2 (pad_at 45) AND RP1_PAD_PULL_MASK = 4" "rp_mem r2 (ctrl_at 45) = rp_mem r1 (ctrl_at 45)"
    using up(2) by (simp_all add: r2_def pull_mem rp1_fields RP1_PULL_DOWN_def bit.conj_disj_distrib2 and.assoc)
  then have pins: "fan_get (pad_at 45) f AND RP1_PAD_PULL_MASK = 4" "fan_get (ctrl_at 45) f AND RP1_GPIO_CTRL_FUNCSEL_MASK = GPIO_FUNC_ALTF0"
    using c by (simp_all add: f_def fan_get_def get32_def)
  have b: "0x609c000 < RP1_IO_BANK_OFF" "0x609c044 < RP1_IO_BANK_OFF" "0x609c048 < RP1_IO_BANK_OFF" "0x609c050 < RP1_IO_BANK_OFF"
    by (simp_all add: rp1_bases)
  have base: "fn_pwm_base f = 0x609c000" by (simp add: f_def e_def PI5_RP1_WIN_OFF_def RP1_PWM1_OFF_def)
  have "fan_hw_init up d = fan_commit (fan_put (fn_pwm_base f + RP1_PWM_CHAN_CTRL FAN_PWM_CHAN)
      (RP1_PWM_CTRL_FIFO_POP OR RP1_PWM_CTRL_POLARITY OR RP1_PWM_CTRL_MODE_TE_MS)
      (fan_put (fn_pwm_base f + RP1_PWM_DUTY FAN_PWM_CHAN) FAN_PWM_RANGE_TICKS
      (fan_put (fn_pwm_base f + RP1_PWM_RANGE FAN_PWM_CHAN) FAN_PWM_RANGE_TICKS f)))"
    by (simp add: fan_hw_init_def f_def r2_def r1_def r0_def e_def Let_def FAN_PWM_GPIO_def)
  then show ?thesis
    using base b pins up(3) by (simp add: fan_setup_def fan_commit_def Let_def fan_get_put rp_func_get at45 fan_consts range_ticks
        RP1_PWM_CTRL_FIFO_POP_def RP1_PWM_CTRL_POLARITY_def RP1_PWM_CTRL_MODE_TE_MS_def f_def)
qed

lemma fan_main_good: "fan_main mapped up m = Some d \<Longrightarrow> fan_good d"
  using set_level_good [OF hw_init_setup, of _ FAN_LEVEL_DEFAULT up]
  by (auto simp: fan_main_def Let_def split: if_splits)

interpretation fan: transition_system "\<lambda>d. \<exists>up m. fan_main True up m = Some d" "\<lambda>d e. \<exists>ev. e = fan_step ev d" fan_good
  by unfold_locales (auto intro: fan_main_good fan_step_good)

text \<open>
  C15. The fan follows its setting in every reachable state, whatever commands, writes and control calls came and whatever
  the registers held at the start: level and duty cycle are in range, the duty register holds that
  share of the 24 kHz period, the channel is enabled unless level 0 is in force, and polarity, period
  and the pin's function and pull-down are as set up.
\<close>

theorem fan_reachable_follows:
  assumes "fan_main True up m = Some d0" "(\<lambda>d e. \<exists>ev. e = fan_step ev d)\<^sup>*\<^sup>* d0 d"
  shows "fan_ranges d \<and> fan_follows d \<and> fan_setup d"
proof -
  have "fan_good d" using fan.inv_reachable [OF _ assms(2)] assms(1) by blast
  then show ?thesis by (simp add: fan_good_def)
qed

theorem fan_reachable_follows_witness:
  "\<exists>d0. fan_main True True (\<lambda>_. 0) = Some d0 \<and> fan_follows (fan_step (FanCntl 1 7) d0)"
proof -
  obtain d0 where d0: "fan_main True True (\<lambda>_. 0) = Some d0" by (simp add: fan_main_def Let_def)
  have "(\<lambda>d e. \<exists>ev. e = fan_step ev d)\<^sup>*\<^sup>* d0 (fan_step (FanCntl 1 7) d0)" by blast
  from fan_reachable_follows [OF d0 this] d0 show ?thesis by blast
qed

text \<open>
  The duty cycle reported for a level is rounded down twice: it equals the one set only at the stop, half and full
  level, and is one percent too low at all others.
\<close>

theorem fan_reported_duty:
  assumes "fan_ranges d" "fn_duty_pct d < 0"
  shows "fan_current_duty_pct d = (if fan_pct d \<in> {0, 50, 100} then fan_pct d else fan_pct d - 1)"
proof -
  let ?t = "fan_level_to_duty_ticks (fn_level d) d"
  have t: "uint ?t = 2078 * fan_pct d div 100" by (rule level_ticks) (use assms in \<open>auto simp: fan_ranges_def\<close>)
  have "fan_pct d \<in> {0, 10, 20, 30, 40, 50, 60, 70, 80, 90, 100}"
  proof -
    have "fn_level d \<in> {0, 1, 2, 3, 4, 5, 6, 7, 8, 9, 10}"
      using assms(1) by (simp add: fan_ranges_def) presburger
    then show ?thesis using assms(2) by (auto simp: fan_pct_def)
  qed
  moreover have "fan_current_duty_pct d = uint ?t * 100 div 2078"
  proof -
    have "uint ?t \<le> 2078" using t calculation by auto
    then have "uint (ucast ?t * 100 :: u64) = uint ?t * 100"
      by (simp add: uint_word_ariths unsigned_ucast_eq take_bit_eq_mod)
    then show ?thesis using assms(2) by (simp add: fan_current_duty_pct_def Let_def range_ticks uint_div)
  qed
  ultimately show ?thesis using t by auto
qed

end
