(* ===== verification/Sd_Card.thy ===== *)
theory Sd_Card
  imports Interfaces
begin

text \<open>
  Sector transfers of the EV3 SD driver (\<^verbatim>\<open>src/lego.ev3/system/libs/arch_ev3/src/sd.c\<close>): single- and
  multi-block reads and writes, the chunking of long transfers and the single-block fallback after a
  failed multi-block command.

  Data moves in whole 512-byte sectors, so a buffer is the list of the sectors it holds. Sector
  numbers are 32-bit, written as naturals with the reduction modulo \<open>2 ^ 32\<close>. The controller and
  the card below \<^verbatim>\<open>davinci_mmc_send_cmd\<close> are the environment: \<open>card_mem\<close> is what the card stores and
  \<open>card_events\<close> the outcome of each command still to be sent, \<open>Failed ys\<close> standing for a command that
  reports an error and, if it was a write, has left \<open>ys\<close> in the first sectors of its range. When the
  list is used up, commands succeed. Theorems hold for every list.
\<close>

type_synonym sector = "u8 list"

datatype outcome = Done | Failed "sector list"

record sd_card =
  card_mem :: "nat \<Rightarrow> sector"
  card_events :: "outcome list"

definition EV3_SD_MAX_BLOCKS :: nat where "EV3_SD_MAX_BLOCKS = 128"

definition u32_wrap :: "nat \<Rightarrow> nat" where
  "u32_wrap x = x mod 2 ^ 32"

lemma u32_wrap_id [simp]: "x < 2 ^ 32 \<Longrightarrow> u32_wrap x = x"
  by (simp add: u32_wrap_def)

definition next_event :: "sd_card \<Rightarrow> outcome \<times> sd_card" where
  "next_event c = (case card_events c of [] \<Rightarrow> (Done, c) | e # es \<Rightarrow> (e, c\<lparr>card_events := es\<rparr>))"

definition send_read :: "nat \<Rightarrow> nat \<Rightarrow> sd_card \<Rightarrow> sector list option \<times> sd_card" where
  "send_read s n c =
     (case next_event c of
        (Done, c) \<Rightarrow> (Some (map (card_mem c) [s..<s + n]), c)
      | (Failed _, c) \<Rightarrow> (None, c))"

definition send_write :: "nat \<Rightarrow> sector list \<Rightarrow> sd_card \<Rightarrow> bool \<times> sd_card" where
  "send_write s xs c =
     (case next_event c of
        (Done, c) \<Rightarrow> (True, c\<lparr>card_mem := put_run s xs (card_mem c)\<rparr>)
      | (Failed ys, c) \<Rightarrow> (False, c\<lparr>card_mem := put_run s (take (length xs) ys) (card_mem c)\<rparr>))"

definition send_stop :: "sd_card \<Rightarrow> sd_card" where
  "send_stop c = snd (next_event c)"

section \<open>Driver\<close>

definition ev3_sd_read_sector :: "nat \<Rightarrow> sd_card \<Rightarrow> sector list option \<times> sd_card" where
  "ev3_sd_read_sector s c = send_read s 1 c"

definition read_chunk :: "nat \<Rightarrow> nat \<Rightarrow> sd_card \<Rightarrow> (nat \<times> sector list) option \<times> sd_card" where
  "read_chunk s count c =
     (let chunk = (if count > EV3_SD_MAX_BLOCKS then EV3_SD_MAX_BLOCKS else count)
      in case send_read s chunk c of
           (Some xs, c) \<Rightarrow> (Some (chunk, xs), send_stop c)
         | (None, c) \<Rightarrow>
             (case ev3_sd_read_sector s c of
                (None, c) \<Rightarrow> (None, c)
              | (Some xs, c) \<Rightarrow> (Some (1, xs), c)))"

lemma read_chunk_progress: "read_chunk s count c = (Some (n, xs), c') \<Longrightarrow> 0 < count \<Longrightarrow> 0 < n \<and> n \<le> count"
  by (auto simp: read_chunk_def EV3_SD_MAX_BLOCKS_def Let_def split: prod.splits option.splits if_splits)

function read_chunks :: "nat \<Rightarrow> nat \<Rightarrow> sd_card \<Rightarrow> sector list option \<times> sd_card" where
  "read_chunks s count c =
     (if count = 0 then (Some [], c)
      else case read_chunk s count c of
             (None, c) \<Rightarrow> (None, c)
           | (Some (n, xs), c) \<Rightarrow>
               (case read_chunks (u32_wrap (s + n)) (count - n) c of
                  (None, c) \<Rightarrow> (None, c)
                | (Some ys, c) \<Rightarrow> (Some (xs @ ys), c)))"
  by pat_completeness auto
termination
  by (relation "measure (\<lambda>(s, count, c). count)") (auto dest!: sym [THEN read_chunk_progress])

declare read_chunks.simps [simp del]

definition ev3_sd_read_sectors :: "nat \<Rightarrow> nat \<Rightarrow> sd_card \<Rightarrow> sector list option \<times> sd_card" where
  "ev3_sd_read_sectors s count c =
     (if count = 0 then (Some [], c)
      else if count = 1 then ev3_sd_read_sector s c
      else read_chunks s count c)"

definition ev3_sd_write_sector :: "nat \<Rightarrow> sector \<Rightarrow> sd_card \<Rightarrow> bool \<times> sd_card" where
  "ev3_sd_write_sector s x c = send_write s [x] c"

definition write_chunk :: "nat \<Rightarrow> sector list \<Rightarrow> nat \<Rightarrow> sd_card \<Rightarrow> nat option \<times> sd_card" where
  "write_chunk s src count c =
     (let chunk = (if count > EV3_SD_MAX_BLOCKS then EV3_SD_MAX_BLOCKS else count)
      in case send_write s (take chunk src) c of
           (True, c) \<Rightarrow> (Some chunk, send_stop c)
         | (False, c) \<Rightarrow>
             (case ev3_sd_write_sector s (hd src) c of
                (False, c) \<Rightarrow> (None, c)
              | (True, c) \<Rightarrow> (Some 1, c)))"

lemma write_chunk_progress: "write_chunk s src count c = (Some n, c') \<Longrightarrow> 0 < count \<Longrightarrow> 0 < n \<and> n \<le> count"
  by (auto simp: write_chunk_def EV3_SD_MAX_BLOCKS_def Let_def split: prod.splits bool.splits if_splits)

function write_chunks :: "nat \<Rightarrow> sector list \<Rightarrow> nat \<Rightarrow> sd_card \<Rightarrow> bool \<times> sd_card" where
  "write_chunks s src count c =
     (if count = 0 then (True, c)
      else case write_chunk s src count c of
             (None, c) \<Rightarrow> (False, c)
           | (Some n, c) \<Rightarrow> write_chunks (u32_wrap (s + n)) (drop n src) (count - n) c)"
  by pat_completeness auto
termination
  by (relation "measure (\<lambda>(s, src, count, c). count)") (auto dest!: sym [THEN write_chunk_progress])

declare write_chunks.simps [simp del]

definition ev3_sd_write_sectors :: "nat \<Rightarrow> sector list \<Rightarrow> nat \<Rightarrow> sd_card \<Rightarrow> bool \<times> sd_card" where
  "ev3_sd_write_sectors s src count c =
     (if count = 0 then (True, c)
      else if count = 1 then ev3_sd_write_sector s (hd src) c
      else write_chunks s src count c)"

section \<open>What the driver promises\<close>

lemma next_event_mem [simp]: "card_mem (snd (next_event c)) = card_mem c"
  by (simp add: next_event_def split: list.split)

lemma next_event_memD: "next_event c = (e, c') \<Longrightarrow> card_mem c' = card_mem c"
  using next_event_mem [of c] by simp

lemma send_stop_mem [simp]: "card_mem (send_stop c) = card_mem c"
  by (simp add: send_stop_def)

lemma send_read_spec:
  assumes "send_read s n c = (r, c')"
  shows "card_mem c' = card_mem c" "r = Some xs \<Longrightarrow> xs = map (card_mem c) [s..<s + n]"
  using assms by (auto simp: send_read_def split: prod.splits outcome.splits dest: next_event_memD)

lemma send_write_spec:
  assumes "send_write s xs c = (ok, c')"
  shows "ok \<Longrightarrow> card_mem c' = put_run s xs (card_mem c)"
    and "a \<notin> {s..<s + length xs} \<Longrightarrow> card_mem c' a = card_mem c a"
  using assms
  by (auto simp: send_write_def put_run_def split: prod.splits outcome.splits dest!: next_event_memD)

lemma read_chunk_spec:
  assumes "read_chunk s count c = (r, c')"
  shows "card_mem c' = card_mem c" "r = Some (n, xs) \<Longrightarrow> xs = map (card_mem c) [s..<s + n]"
proof -
  let ?k = "if count > EV3_SD_MAX_BLOCKS then EV3_SD_MAX_BLOCKS else count"
  obtain r1 c1 where r1: "send_read s ?k c = (r1, c1)" by fastforce
  obtain r2 c2 where r2: "send_read s 1 c1 = (r2, c2)" by fastforce
  show "card_mem c' = card_mem c" "r = Some (n, xs) \<Longrightarrow> xs = map (card_mem c) [s..<s + n]"
    using assms send_read_spec [OF r1] send_read_spec [OF r2]
    by (auto simp: read_chunk_def ev3_sd_read_sector_def Let_def r1 r2 simp del: One_nat_def split: option.splits)
qed

lemma upt_run_split: "n \<le> (k::nat) \<Longrightarrow> [s..<s + k] = [s..<s + n] @ [s + n..<s + k]"
  by (metis le_add_diff_inverse add.assoc upt_add_eq_append le_add1)

lemma read_chunks_spec:
  assumes "s + count \<le> 2 ^ 32" "read_chunks s count c = (r, c')"
  shows "card_mem c' = card_mem c \<and> (r = Some xs \<longrightarrow> xs = map (card_mem c) [s..<s + count])"
  using assms
proof (induction count arbitrary: s c r c' xs rule: less_induct)
  case (less count)
  show ?case
  proof (cases "count = 0")
    case True
    with less.prems show ?thesis by (auto simp: read_chunks.simps)
  next
    case False
    obtain r1 c1 where r1: "read_chunk s count c = (r1, c1)" by fastforce
    show ?thesis
    proof (cases r1)
      case None
      with r1 False less.prems read_chunk_spec(1) [OF r1] show ?thesis
        by (simp add: read_chunks.simps [of s count])
    next
      case (Some nx)
      then obtain n xs1 where nx: "r1 = Some (n, xs1)" by (cases nx) simp
      have n: "0 < n" "n \<le> count" using read_chunk_progress [of s count c n xs1 c1] r1 nx False by auto
      obtain r2 c2 where r2: "read_chunks (u32_wrap (s + n)) (count - n) c1 = (r2, c2)" by fastforce
      have ih: "card_mem c2 = card_mem c1 \<and> (r2 = Some ys \<longrightarrow> ys = map (card_mem c1) [s + n..<s + count])" for ys
      proof (cases "n = count")
        case True
        with r2 show ?thesis by (auto simp: read_chunks.simps)
      next
        case False
        with n less.prems(1) have "s + n < 2 ^ 32" by linarith
        then show ?thesis
          using less.IH [of "count - n" "s + n" c1 r2 c2 ys] r2 n less.prems(1) by simp
      qed
      have "read_chunks s count c =
          (case r2 of None \<Rightarrow> (None, c2) | Some ys \<Rightarrow> (Some (xs1 @ ys), c2))"
        using False by (simp add: read_chunks.simps [of s count] r1 nx r2 split: option.split)
      with less.prems(2) ih read_chunk_spec(1) [OF r1] read_chunk_spec(2) [OF r1, of n xs1] nx upt_run_split [OF n(2), of s]
      show ?thesis by (auto split: option.splits)
    qed
  qed
qed

lemma write_chunk_spec:
  assumes "write_chunk s src count c = (r, c')" "count = length src" "0 < count"
  shows "r = Some n \<Longrightarrow> s \<le> a \<Longrightarrow> a < s + n \<Longrightarrow> card_mem c' a = src ! (a - s)"
    and "a \<notin> {s..<s + count} \<Longrightarrow> card_mem c' a = card_mem c a"
proof -
  let ?k = "if count > EV3_SD_MAX_BLOCKS then EV3_SD_MAX_BLOCKS else count"
  obtain r1 c1 where r1: "send_write s (take ?k src) c = (r1, c1)" by fastforce
  obtain r2 c2 where r2: "send_write s [src ! 0] c1 = (r2, c2)" by fastforce
  have hd: "hd src = src ! 0" using assms(2,3) by (simp add: hd_conv_nth)
  note w = assms(1) [unfolded write_chunk_def Let_def r1 ev3_sd_write_sector_def hd]
  show "r = Some n \<Longrightarrow> s \<le> a \<Longrightarrow> a < s + n \<Longrightarrow> card_mem c' a = src ! (a - s)"
    using w send_write_spec(1) [OF r1] send_write_spec(1) [OF r2]
    by (cases r1; cases r2) (auto simp: r2 put_run_def assms(2))
  have k: "length (take ?k src) \<le> count" "0 < length (take ?k src)"
    using assms(2,3) by (auto simp: EV3_SD_MAX_BLOCKS_def)
  show "a \<notin> {s..<s + count} \<Longrightarrow> card_mem c' a = card_mem c a"
    using w assms(3) k send_write_spec(2) [OF r1, of a] send_write_spec(2) [OF r2, of a]
    by (cases r1; cases r2) (force simp: r2)+
qed

lemma write_chunks_spec:
  assumes "s + count \<le> 2 ^ 32" "count = length src" "write_chunks s src count c = (ok, c')"
  shows "(ok \<longrightarrow> s \<le> a \<longrightarrow> a < s + count \<longrightarrow> card_mem c' a = src ! (a - s)) \<and>
    (a \<notin> {s..<s + count} \<longrightarrow> card_mem c' a = card_mem c a)"
  using assms
proof (induction count arbitrary: s src c ok c' rule: less_induct)
  case (less count)
  show ?case
  proof (cases "count = 0")
    case True
    with less.prems show ?thesis by (auto simp: write_chunks.simps)
  next
    case False
    obtain r1 c1 where r1: "write_chunk s src count c = (r1, c1)" by fastforce
    have pos: "0 < count" using False by simp
    note w = write_chunk_spec [OF r1 less.prems(2) pos]
    show ?thesis
    proof (cases r1)
      case None
      have "\<not> ok \<and> c' = c1"
        using less.prems(3) False by (simp add: write_chunks.simps [of s src count] r1 None)
      with w(2) [of a] show ?thesis by simp
    next
      case (Some n)
      have n: "0 < n" "n \<le> count" using write_chunk_progress [of s src count c n c1] r1 Some False by auto
      have rest: "write_chunks (u32_wrap (s + n)) (drop n src) (count - n) c1 = (ok, c')"
        using less.prems(3) False by (simp add: write_chunks.simps [of s src count] r1 Some)
      show ?thesis
      proof (cases "n = count")
        case True
        with rest w(1) [of n a] w(2) [of a] Some show ?thesis by (auto simp: write_chunks.simps)
      next
        case False
        with n less.prems(1) have "s + n < 2 ^ 32" by linarith
        with rest n less.prems(1,2) less.IH [of "count - n" "s + n" "drop n src" c1 ok c']
        have "(ok \<longrightarrow> s + n \<le> a \<longrightarrow> a < s + count \<longrightarrow> card_mem c' a = src ! (a - s)) \<and>
          (a \<notin> {s + n..<s + count} \<longrightarrow> card_mem c' a = card_mem c1 a)"
          by simp
        with w(1) [of n a] w(2) [of a] Some n show ?thesis by (cases "a < s + n") auto
      qed
    qed
  qed
qed

lemma sd_read_spec:
  assumes "s + n \<le> 2 ^ 32" "ev3_sd_read_sectors s n c = (r, c')"
  shows "card_mem c' = card_mem c" "r = Some xs \<Longrightarrow> xs = map (card_mem c) [s..<s + n]"
  using assms read_chunks_spec [OF assms(1), of c r c' xs] send_read_spec [of s 1 c r c']
  by (auto simp: ev3_sd_read_sectors_def ev3_sd_read_sector_def split: if_splits)

lemma sd_write_spec:
  assumes "s + length src \<le> 2 ^ 32" "ev3_sd_write_sectors s src (length src) c = (ok, c')"
  shows "ok \<Longrightarrow> card_mem c' = put_run s src (card_mem c)"
    and "a \<notin> {s..<s + length src} \<Longrightarrow> card_mem c' a = card_mem c a"
proof -
  have one: "src = [hd src]" if "length src = 1" using that by (cases src) auto
  show "ok \<Longrightarrow> card_mem c' = put_run s src (card_mem c)"
    using assms write_chunks_spec [OF assms(1) refl, of c ok c'] send_write_spec [of s "[hd src]" c ok c'] one
    by (auto simp: ev3_sd_write_sectors_def ev3_sd_write_sector_def put_run_def fun_eq_iff split: if_splits)
  show "a \<notin> {s..<s + length src} \<Longrightarrow> card_mem c' a = card_mem c a"
    using assms write_chunks_spec [OF assms(1) refl, of c ok c' a] send_write_spec [of s "[hd src]" c ok c'] one
    by (auto simp: ev3_sd_write_sectors_def ev3_sd_write_sector_def split: if_splits)
qed

interpretation raw: block_device ev3_sd_read_sectors "\<lambda>s xs. ev3_sd_write_sectors s xs (length xs)"
  card_mem "2 ^ 32" "\<lambda>_. True"
proof unfold_locales
  fix d d' :: sd_card and s n :: nat and xs :: "sector list"
  assume "s + n \<le> 2 ^ 32" "ev3_sd_read_sectors s n d = (Some xs, d')"
  then show "xs = map (card_mem d) [s..<s + n]" by (rule sd_read_spec(2)) simp
next
  fix d :: sd_card and s n :: nat
  assume "s + n \<le> 2 ^ 32"
  then show "card_mem (snd (ev3_sd_read_sectors s n d)) = card_mem d"
    by (rule sd_read_spec(1)) (rule surjective_pairing)
next
  fix d d' :: sd_card and s :: nat and xs :: "sector list"
  assume "s + length xs \<le> 2 ^ 32" "ev3_sd_write_sectors s xs (length xs) d = (True, d')"
  then show "card_mem d' = put_run s xs (card_mem d)" by (rule sd_write_spec(1)) simp
next
  fix d :: sd_card and s a :: nat and xs :: "sector list"
  assume "s + length xs \<le> 2 ^ 32" "a \<notin> {s..<s + length xs}"
  then show "card_mem (snd (ev3_sd_write_sectors s xs (length xs) d)) a = card_mem d a"
    using sd_write_spec(2) [of s xs d _ _ a] by (metis surjective_pairing)
qed simp_all

end
