(* ===== verification/Sd_Cache.thy ===== *)
theory Sd_Cache
  imports Sd_Card
begin

text \<open>
  The SD page cache of the EV3 board library (\<^verbatim>\<open>src/lego.ev3/system/libs/bsp/src/bsp_sd.c\<close>): a
  three-level radix table of 4 KiB pages with batched fills, a streaming bypass for long uncached
  runs and write-through, over the sector driver of \<open>Sd_Card\<close>.

  A table of the source is a function from its index; a null entry is \<open>None\<close>. \<open>heap_events\<close> gives
  the outcome of each allocation to come (\<open>False\<close>: the allocator returns null; an exhausted list:
  it succeeds). The content of the prefetch buffer is passed to the fill loop as a value; the state
  keeps its size.
\<close>

section \<open>State\<close>

type_synonym page = "sector list"
type_synonym l3_table = "nat \<Rightarrow> page option"
type_synonym l2_table = "nat \<Rightarrow> l3_table option"

record sd_cache =
  cache_entry :: "nat \<Rightarrow> l2_table option"
  prefetch_buf_sectors :: nat
  heap_events :: "bool list"
  sc_card :: sd_card

definition SD_CACHE_PAGE_SECTORS :: nat where "SD_CACHE_PAGE_SECTORS = 8"
definition SD_CACHE_MAX_BATCH_PAGES :: nat where "SD_CACHE_MAX_BATCH_PAGES = 32"
definition SD_STREAM_MAX_BATCH_PAGES :: nat where "SD_STREAM_MAX_BATCH_PAGES = 64"

definition alloc :: "sd_cache \<Rightarrow> bool \<times> sd_cache" where
  "alloc st = (case heap_events st of [] \<Rightarrow> (True, st) | b # bs \<Rightarrow> (b, st\<lparr>heap_events := bs\<rparr>))"

definition l1_index :: "nat \<Rightarrow> nat" where "l1_index sector = sector div 2 ^ 21 mod 2 ^ 9"
definition l2_index :: "nat \<Rightarrow> nat" where "l2_index sector = sector div 2 ^ 12 mod 2 ^ 9"
definition l3_index :: "nat \<Rightarrow> nat" where "l3_index sector = sector div 2 ^ 3 mod 2 ^ 9"

section \<open>Operations\<close>

definition ensure_l1 :: "nat \<Rightarrow> bool \<Rightarrow> sd_cache \<Rightarrow> sd_cache" where
  "ensure_l1 sector create st =
     (let l1 = l1_index sector
      in if cache_entry st l1 = None \<and> create
         then (case alloc st of
                 (True, st) \<Rightarrow> st\<lparr>cache_entry := (cache_entry st)(l1 := Some (\<lambda>_. None))\<rparr>
               | (False, st) \<Rightarrow> st)
         else st)"

definition bsp_sd_get_l3 :: "nat \<Rightarrow> bool \<Rightarrow> sd_cache \<Rightarrow> l3_table option \<times> sd_cache" where
  "bsp_sd_get_l3 sector create st =
     (let st = ensure_l1 sector create st; l1 = l1_index sector; l2 = l2_index sector
      in case cache_entry st l1 of
           None \<Rightarrow> (None, st)
         | Some l2_entry \<Rightarrow>
             (case l2_entry l2 of
                Some l3_entry \<Rightarrow> (Some l3_entry, st)
              | None \<Rightarrow>
                  if create then
                    (case alloc st of
                       (True, st) \<Rightarrow>
                         (Some (\<lambda>_. None),
                          st\<lparr>cache_entry := (cache_entry st)(l1 := Some (l2_entry(l2 := Some (\<lambda>_. None))))\<rparr>)
                     | (False, st) \<Rightarrow> (None, st))
                  else (None, st)))"

text \<open>Storing into the slot of a sector's page, \<^verbatim>\<open>l3_entry[l3] = v\<close>, through the tables that lead to it.\<close>

definition set_slot :: "nat \<Rightarrow> page option \<Rightarrow> sd_cache \<Rightarrow> sd_cache" where
  "set_slot sector v st =
     (case cache_entry st (l1_index sector) of
        None \<Rightarrow> st
      | Some t2 \<Rightarrow>
          (case t2 (l2_index sector) of
             None \<Rightarrow> st
           | Some t3 \<Rightarrow>
               st\<lparr>cache_entry := (cache_entry st)(l1_index sector :=
                  Some (t2(l2_index sector := Some (t3(l3_index sector := v)))))\<rparr>))"

definition bsp_sd_ensure_prefetch_buf :: "nat \<Rightarrow> sd_cache \<Rightarrow> bool \<times> sd_cache" where
  "bsp_sd_ensure_prefetch_buf sectors st =
     (if sectors \<le> prefetch_buf_sectors st then (True, st)
      else case alloc st of
             (False, st) \<Rightarrow> (False, st)
           | (True, st) \<Rightarrow> (True, st\<lparr>prefetch_buf_sectors := sectors\<rparr>))"

fun fill_pages :: "nat \<Rightarrow> nat \<Rightarrow> sector list \<Rightarrow> sd_cache \<Rightarrow> bool \<times> sd_cache" where
  "fill_pages p 0 buf st = (True, st)"
| "fill_pages p (Suc n) buf st =
     (let sector = u32_wrap (p * SD_CACHE_PAGE_SECTORS)
      in case bsp_sd_get_l3 sector True st of
           (None, st) \<Rightarrow> (False, st)
         | (Some l3_entry, st) \<Rightarrow>
             (case (if l3_entry (p mod 2 ^ 9) = None then alloc st else (True, st)) of
                (False, st) \<Rightarrow> (False, st)
              | (True, st) \<Rightarrow>
                  fill_pages (p + 1) n (drop SD_CACHE_PAGE_SECTORS buf)
                    (set_slot sector (Some (take SD_CACHE_PAGE_SECTORS buf)) st)))"

definition bsp_sd_fill_page_cache :: "nat \<Rightarrow> nat \<Rightarrow> sd_cache \<Rightarrow> bool \<times> sd_cache" where
  "bsp_sd_fill_page_cache start_page page_count st =
     (let start_sector = u32_wrap (start_page * SD_CACHE_PAGE_SECTORS);
          sectors = u32_wrap (page_count * SD_CACHE_PAGE_SECTORS)
      in if page_count = 0 then (True, st)
         else case bsp_sd_ensure_prefetch_buf sectors st of
                (False, st) \<Rightarrow> (False, st)
              | (True, st) \<Rightarrow>
                  (case ev3_sd_read_sectors start_sector sectors (sc_card st) of
                     (None, c) \<Rightarrow> (False, st\<lparr>sc_card := c\<rparr>)
                   | (Some buf, c) \<Rightarrow> fill_pages start_page page_count buf (st\<lparr>sc_card := c\<rparr>)))"

fun uncached_run :: "l3_table \<Rightarrow> nat \<Rightarrow> nat \<Rightarrow> nat" where
  "uncached_run t i 0 = 0"
| "uncached_run t i (Suc n) = (if t i = None then Suc (uncached_run t (Suc i) n) else 0)"

definition copy_page :: "nat \<Rightarrow> nat \<Rightarrow> page \<Rightarrow> nat \<times> sector list" where
  "copy_page sector_offset remaining pg =
     (let n = min (SD_CACHE_PAGE_SECTORS - sector_offset) remaining
      in (n, take n (drop sector_offset pg)))"

definition stream_pages :: "nat \<Rightarrow> nat \<Rightarrow> sd_cache \<Rightarrow> (nat \<times> sector list) option \<times> sd_cache" where
  "stream_pages current uncached st =
     (let run_sectors = uncached * SD_CACHE_PAGE_SECTORS
      in case ev3_sd_read_sectors current run_sectors (sc_card st) of
           (None, c) \<Rightarrow> (None, st\<lparr>sc_card := c\<rparr>)
         | (Some xs, c) \<Rightarrow> (Some (run_sectors, xs), st\<lparr>sc_card := c\<rparr>))"

definition miss_pages :: "nat \<Rightarrow> nat \<Rightarrow> nat" where
  "miss_pages current remaining =
     min (min (u32_wrap (current mod SD_CACHE_PAGE_SECTORS + remaining + SD_CACHE_PAGE_SECTORS - 1)
               div SD_CACHE_PAGE_SECTORS)
           (0x200 - l3_index current))
       SD_CACHE_MAX_BATCH_PAGES"

definition fill_and_copy :: "nat \<Rightarrow> nat \<Rightarrow> sd_cache \<Rightarrow> (nat \<times> sector list) option \<times> sd_cache" where
  "fill_and_copy current remaining st =
     (case bsp_sd_fill_page_cache (current div 2 ^ 3) (miss_pages current remaining) st of
        (False, st) \<Rightarrow> (None, st)
      | (True, st) \<Rightarrow>
          (case bsp_sd_get_l3 current False st of
             (None, st) \<Rightarrow> (None, st)
           | (Some l3_entry, st) \<Rightarrow>
               (case l3_entry (l3_index current) of
                  None \<Rightarrow> (None, st)
                | Some page_buf \<Rightarrow>
                    (Some (copy_page (current mod SD_CACHE_PAGE_SECTORS) remaining page_buf), st))))"

definition stream_run :: "nat \<Rightarrow> nat \<Rightarrow> l3_table \<Rightarrow> nat" where
  "stream_run current remaining l3_entry =
     (let l3 = l3_index current;
          run = min (min (remaining div SD_CACHE_PAGE_SECTORS) (0x200 - l3)) SD_STREAM_MAX_BATCH_PAGES
      in uncached_run l3_entry l3 run)"

text \<open>One iteration of the read loop: how many sectors it advanced and what it put in the buffer.\<close>

definition read_step :: "nat \<Rightarrow> nat \<Rightarrow> sd_cache \<Rightarrow> (nat \<times> sector list) option \<times> sd_cache" where
  "read_step current remaining st =
     (let sector_offset = current mod SD_CACHE_PAGE_SECTORS
      in case bsp_sd_get_l3 current True st of
           (None, st) \<Rightarrow> (None, st)
         | (Some l3_entry, st) \<Rightarrow>
             (case l3_entry (l3_index current) of
                Some page_buf \<Rightarrow> (Some (copy_page sector_offset remaining page_buf), st)
              | None \<Rightarrow>
                  let uncached = stream_run current remaining l3_entry
                  in if sector_offset = 0 \<and> uncached \<ge> 4 then stream_pages current uncached st
                     else fill_and_copy current remaining st))"

lemma copy_page_progress: "copy_page (s mod SD_CACHE_PAGE_SECTORS) r pg = (n, xs) \<Longrightarrow> 0 < r \<Longrightarrow> 0 < n \<and> n \<le> r"
  by (auto simp: copy_page_def SD_CACHE_PAGE_SECTORS_def Let_def)

lemma uncached_run_le: "uncached_run t i n \<le> n"
  by (induction n arbitrary: i) auto

lemma stream_run_le: "stream_run s r t * 8 \<le> r"
proof -
  have "stream_run s r t \<le> r div 8"
    using uncached_run_le [of t "l3_index s"] by (simp add: stream_run_def Let_def SD_CACHE_PAGE_SECTORS_def min.coboundedI1)
       (meson le_trans min.cobounded1 min.boundedE)
  then show ?thesis by linarith
qed

lemma fill_and_copy_progress: "fill_and_copy s r st = (Some (n, xs), st') \<Longrightarrow> 0 < r \<Longrightarrow> 0 < n \<and> n \<le> r"
  unfolding fill_and_copy_def
  by (auto split: prod.splits option.splits bool.splits dest: copy_page_progress)

lemma stream_pages_progress: "stream_pages s k st = (Some (n, xs), st') \<Longrightarrow> n = k * 8"
  by (auto simp: stream_pages_def Let_def SD_CACHE_PAGE_SECTORS_def split: prod.splits option.splits)

lemma read_step_progress:
  assumes "read_step s r st = (Some (n, xs), st')" "0 < r"
  shows "0 < n \<and> n \<le> r"
  using assms unfolding read_step_def Let_def
  by (auto split: prod.splits option.splits if_splits dest!: stream_pages_progress
      dest: fill_and_copy_progress copy_page_progress intro: stream_run_le)

function bsp_sd_read_cache_sectors :: "nat \<Rightarrow> nat \<Rightarrow> sd_cache \<Rightarrow> sector list option \<times> sd_cache" where
  "bsp_sd_read_cache_sectors current remaining st =
     (if remaining = 0 then (Some [], st)
      else case read_step current remaining st of
             (None, st) \<Rightarrow> (None, st)
           | (Some (n, xs), st) \<Rightarrow>
               (case bsp_sd_read_cache_sectors (u32_wrap (current + n)) (remaining - n) st of
                  (None, st) \<Rightarrow> (None, st)
                | (Some ys, st) \<Rightarrow> (Some (xs @ ys), st)))"
  by pat_completeness auto
termination
  by (relation "measure (\<lambda>(s, r, st). r)") (auto dest!: sym [THEN read_step_progress])

declare bsp_sd_read_cache_sectors.simps [simp del]

definition bsp_sd_read_cache :: "nat \<Rightarrow> sd_cache \<Rightarrow> sector list option \<times> sd_cache" where
  "bsp_sd_read_cache sector st = bsp_sd_read_cache_sectors sector 1 st"

definition invalidate_sector :: "nat \<Rightarrow> sd_cache \<Rightarrow> sd_cache" where
  "invalidate_sector sector st =
     (case bsp_sd_get_l3 sector False st of
        (None, st) \<Rightarrow> st
      | (Some l3_entry, st) \<Rightarrow> if l3_entry (l3_index sector) \<noteq> None then set_slot sector None st else st)"

definition bsp_sd_invalidate_sectors :: "nat \<Rightarrow> nat \<Rightarrow> sd_cache \<Rightarrow> sd_cache" where
  "bsp_sd_invalidate_sectors sector count st =
     fold (\<lambda>i. invalidate_sector (u32_wrap (sector + i))) [0..<count] st"

definition update_sector :: "nat \<Rightarrow> sector \<Rightarrow> sd_cache \<Rightarrow> sd_cache" where
  "update_sector cur x st =
     (case bsp_sd_get_l3 cur False st of
        (None, st) \<Rightarrow> st
      | (Some l3_entry, st) \<Rightarrow>
          (case l3_entry (l3_index cur) of
             None \<Rightarrow> st
           | Some pg \<Rightarrow> set_slot cur (Some (pg[cur mod SD_CACHE_PAGE_SECTORS := x])) st))"

definition bsp_sd_write_cache :: "nat \<Rightarrow> sector \<Rightarrow> sd_cache \<Rightarrow> bool \<times> sd_cache" where
  "bsp_sd_write_cache sector x st =
     (case ev3_sd_write_sector sector x (sc_card st) of
        (False, c) \<Rightarrow> (False, bsp_sd_invalidate_sectors sector 1 (st\<lparr>sc_card := c\<rparr>))
      | (True, c) \<Rightarrow> (True, update_sector sector x (st\<lparr>sc_card := c\<rparr>)))"

definition bsp_sd_write_cache_sectors :: "nat \<Rightarrow> sector list \<Rightarrow> nat \<Rightarrow> sd_cache \<Rightarrow> bool \<times> sd_cache" where
  "bsp_sd_write_cache_sectors sector src count st =
     (if count = 0 then (True, st)
      else case ev3_sd_write_sectors sector src count (sc_card st) of
             (False, c) \<Rightarrow> (False, bsp_sd_invalidate_sectors sector count (st\<lparr>sc_card := c\<rparr>))
           | (True, c) \<Rightarrow>
               (True, fold (\<lambda>i. update_sector (u32_wrap (sector + i)) (src ! i)) [0..<count]
                        (st\<lparr>sc_card := c\<rparr>)))"

end
