(* ===== verification/Sd_Cache_Props.thy ===== *)
theory Sd_Cache_Props
  imports Sd_Cache
begin

text \<open>
  Correctness of the SD page cache: every cached page equals the card (\<open>coherent\<close>), whatever commands
  and allocations fail; the cached device answers requests like an ideal disk, and reads the same
  sectors as the plain driver.
\<close>

section \<open>Slots\<close>

definition slot :: "sd_cache \<Rightarrow> nat \<Rightarrow> page option" where
  "slot st s =
     (case cache_entry st (l1_index s) of
        None \<Rightarrow> None
      | Some t2 \<Rightarrow> (case t2 (l2_index s) of None \<Rightarrow> None | Some t3 \<Rightarrow> t3 (l3_index s)))"

definition has_table :: "sd_cache \<Rightarrow> nat \<Rightarrow> bool" where
  "has_table st s \<longleftrightarrow> (\<exists>t2 t3. cache_entry st (l1_index s) = Some t2 \<and> t2 (l2_index s) = Some t3)"

definition same_table :: "nat \<Rightarrow> nat \<Rightarrow> bool" where
  "same_table s t \<longleftrightarrow> l1_index s = l1_index t \<and> l2_index s = l2_index t"

lemma index_split: "s < 2 ^ 30 \<Longrightarrow> s div 8 = l1_index s * 2 ^ 18 + l2_index s * 2 ^ 9 + l3_index s"
proof -
  assume s: "s < 2 ^ 30"
  define p where "p = s div 8"
  have p: "s div 2 ^ 21 = p div 512 div 512" "s div 2 ^ 12 = p div 512" "s div 2 ^ 3 = p"
    by (simp_all add: p_def div_mult2_eq [symmetric])
  have "p div 512 div 512 < 512" using s by (simp add: p_def div_mult2_eq [symmetric] less_mult_imp_div_less)
  then have "l1_index s = p div 512 div 512" unfolding l1_index_def p by simp
  moreover have "p = p div 512 div 512 * 262144 + p div 512 mod 512 * 512 + p mod 512"
    using div_mult_mod_eq [of p 512] div_mult_mod_eq [of "p div 512" 512] by linarith
  moreover have "(2::nat) ^ 18 = 262144" "(2::nat) ^ 9 = 512" by simp_all
  ultimately show ?thesis
    unfolding l2_index_def l3_index_def p p_def [symmetric] by (simp only:)
qed

lemma same_page_iff:
  assumes "s < 2 ^ 30" "t < 2 ^ 30"
  shows "same_table s t \<and> l3_index s = l3_index t \<longleftrightarrow> s div 8 = t div 8"
proof
  show "same_table s t \<and> l3_index s = l3_index t \<Longrightarrow> s div 8 = t div 8"
    using index_split [OF assms(1)] index_split [OF assms(2)] by (simp add: same_table_def)
  assume e: "s div 8 = t div 8"
  have "s div 2 ^ 21 = s div 8 div 2 ^ 18" "s div 2 ^ 12 = s div 8 div 2 ^ 9"
    "t div 2 ^ 21 = t div 8 div 2 ^ 18" "t div 2 ^ 12 = t div 8 div 2 ^ 9"
    by (simp_all add: div_mult2_eq [symmetric])
  with e show "same_table s t \<and> l3_index s = l3_index t"
    by (simp add: same_table_def l1_index_def l2_index_def l3_index_def)
qed

lemma alloc_cases:
  assumes "alloc st = (b, st')"
  shows "cache_entry st' = cache_entry st" "sc_card st' = sc_card st" "heap_events st = [] \<Longrightarrow> b \<and> st' = st"
  using assms by (auto simp: alloc_def split: list.splits)

lemma ensure_l1_slot:
  "slot (ensure_l1 s cr st) = slot st" "sc_card (ensure_l1 s cr st) = sc_card st"
proof -
  obtain b st1 where a: "alloc st = (b, st1)" by fastforce
  show "slot (ensure_l1 s cr st) = slot st" "sc_card (ensure_l1 s cr st) = sc_card st"
    using alloc_cases [OF a] by (cases b; auto simp: ensure_l1_def Let_def slot_def fun_eq_iff a)+
qed

lemma get_l3_frame:
  assumes "bsp_sd_get_l3 s cr st = (r, st')"
  shows "slot st' = slot st" "sc_card st' = sc_card st"
proof -
  let ?st = "ensure_l1 s cr st"
  have "slot st' = slot ?st \<and> sc_card st' = sc_card ?st"
  proof (cases "cache_entry ?st (l1_index s)")
    case None
    with assms show ?thesis by (simp add: bsp_sd_get_l3_def Let_def)
  next
    case (Some t2)
    obtain b st1 where a: "alloc ?st = (b, st1)" by fastforce
    with assms Some alloc_cases [OF a] show ?thesis
      by (cases "t2 (l2_index s)"; cases cr; cases b) (auto simp: bsp_sd_get_l3_def Let_def slot_def fun_eq_iff)
  qed
  then show "slot st' = slot st" "sc_card st' = sc_card st" by (simp_all add: ensure_l1_slot)
qed

lemma get_l3_table:
  assumes "bsp_sd_get_l3 s cr st = (Some t, st')"
  shows "has_table st' s" "same_table s s' \<Longrightarrow> slot st' s' = t (l3_index s')"
proof -
  let ?st = "ensure_l1 s cr st"
  obtain t2 where t2: "cache_entry ?st (l1_index s) = Some t2"
    using assms by (auto simp: bsp_sd_get_l3_def Let_def split: option.splits)
  obtain b st1 where a: "alloc ?st = (b, st1)" by fastforce
  have "has_table st' s \<and> (same_table s s' \<longrightarrow> slot st' s' = t (l3_index s'))"
    using assms t2 a alloc_cases [OF a]
    by (cases "t2 (l2_index s)"; cases cr; cases b)
       (auto simp: bsp_sd_get_l3_def Let_def slot_def has_table_def same_table_def)
  then show "has_table st' s" "same_table s s' \<Longrightarrow> slot st' s' = t (l3_index s')" by auto
qed

lemma get_l3_lookup:
  assumes "bsp_sd_get_l3 s False st = (r, st')"
  shows "st' = st" "r = None \<Longrightarrow> slot st s = None" "has_table st s \<Longrightarrow> r \<noteq> None"
  using assms
  by (auto simp: bsp_sd_get_l3_def ensure_l1_def Let_def slot_def has_table_def split: option.splits)
     (metis option.distinct(1))+

lemma get_l3_no_fault:
  assumes "heap_events st = []" "bsp_sd_get_l3 s True st = (r, st')"
  shows "r \<noteq> None \<and> heap_events st' = []"
proof -
  have a: "alloc st = (True, st)" if "heap_events st = []" for st
    using that by (simp add: alloc_def)
  show ?thesis
    using assms by (auto simp: bsp_sd_get_l3_def ensure_l1_def Let_def a split: option.splits if_splits)
      (metis option.distinct(1))+
qed

lemma set_slot_slot:
  "has_table st s \<Longrightarrow> slot (set_slot s v st) t = (if same_table s t \<and> l3_index s = l3_index t then v else slot st t)"
  by (auto simp: set_slot_def slot_def has_table_def same_table_def)

lemma set_slot_frame [simp]: "sc_card (set_slot s v st) = sc_card st" "heap_events (set_slot s v st) = heap_events st"
  by (auto simp: set_slot_def split: option.splits)

lemma slot_cong: "same_table s t \<and> l3_index s = l3_index t \<Longrightarrow> slot st s = slot st t"
  by (auto simp: slot_def same_table_def split: option.split)

section \<open>Coherence\<close>

definition page_at :: "(nat \<Rightarrow> sector) \<Rightarrow> nat \<Rightarrow> page" where
  "page_at m p = map m [p * 8..<p * 8 + 8]"

definition coh :: "(nat \<Rightarrow> sector) \<Rightarrow> sd_cache \<Rightarrow> bool" where
  "coh m st \<longleftrightarrow> (\<forall>s < 2 ^ 30. \<forall>pg. slot st s = Some pg \<longrightarrow> pg = page_at m (s div 8))"

definition coherent :: "sd_cache \<Rightarrow> bool" where
  "coherent st \<longleftrightarrow> coh (card_mem (sc_card st)) st"

lemma cohI: "(\<And>s pg. s < 2 ^ 30 \<Longrightarrow> slot st s = Some pg \<Longrightarrow> pg = page_at m (s div 8)) \<Longrightarrow> coh m st"
  by (simp add: coh_def)

lemma cohD: "coh m st \<Longrightarrow> s < 2 ^ 30 \<Longrightarrow> slot st s = Some pg \<Longrightarrow> pg = page_at m (s div 8)"
  by (simp add: coh_def)

lemma coh_slot: "coh m st \<Longrightarrow> slot st' = slot st \<Longrightarrow> coh m st'"
  by (simp add: coh_def)

lemma slot_card [simp]: "slot (st\<lparr>sc_card := c\<rparr>) = slot st" "slot (st\<lparr>prefetch_buf_sectors := k\<rparr>) = slot st"
  by (simp_all add: slot_def fun_eq_iff)

lemma coh_set_slot:
  assumes "coh m st" "has_table st s" "s < 2 ^ 30" "v = None \<or> v = Some (page_at m (s div 8))"
  shows "coh m (set_slot s v st)"
proof (rule cohI)
  fix t pg assume t: "t < 2 ^ 30" "slot (set_slot s v st) t = Some pg"
  then show "pg = page_at m (t div 8)"
    using assms cohD [OF assms(1) t(1)] same_page_iff [OF assms(3) t(1)]
    by (auto simp: set_slot_slot split: if_splits)
qed

lemma page_at_nth: "i < 8 \<Longrightarrow> page_at m p ! i = m (p * 8 + i)"
  by (simp add: page_at_def)

lemma length_page_at [simp]: "length (page_at m p) = 8"
  by (simp add: page_at_def)

lemma copy_page_at:
  assumes "copy_page (s mod SD_CACHE_PAGE_SECTORS) r (page_at m (s div 8)) = (n, xs)"
  shows "xs = map m [s..<s + n]"
proof -
  have n: "n \<le> 8 - s mod 8" "xs = take n (drop (s mod 8) (page_at m (s div 8)))"
    using assms by (auto simp: copy_page_def SD_CACHE_PAGE_SECTORS_def Let_def)
  show ?thesis
  proof (rule nth_equalityI)
    show "length xs = length (map m [s..<s + n])" using n by simp
    fix i assume "i < length xs"
    then have "i < n" "s mod 8 + i < 8" using n by auto
    then show "xs ! i = map m [s..<s + n] ! i"
      using n(2) by (simp add: page_at_nth)
  qed
qed

section \<open>Filling\<close>

lemma fill_pages_spec:
  assumes "coh m st" "(p + n) * 8 \<le> 2 ^ 30" "buf = map m [p * 8..<(p + n) * 8]" "fill_pages p n buf st = (ok, st')"
  shows "coh m st' \<and> sc_card st' = sc_card st \<and>
    (\<forall>s < 2 ^ 30. slot st s \<noteq> None \<or> ok \<and> p \<le> s div 8 \<and> s div 8 < p + n \<longrightarrow> slot st' s \<noteq> None) \<and>
    (heap_events st = [] \<longrightarrow> ok \<and> heap_events st' = [])"
  using assms
proof (induction n arbitrary: p buf st)
  case 0
  then show ?case by auto
next
  case (Suc n)
  define s0 where "s0 = p * 8"
  have s0: "s0 < 2 ^ 30" "s0 div 8 = p" "l3_index s0 = p mod 2 ^ 9"
    using Suc.prems(2) by (auto simp: s0_def l3_index_def)
  have w: "u32_wrap (p * SD_CACHE_PAGE_SECTORS) = s0"
    using s0(1) by (simp add: SD_CACHE_PAGE_SECTORS_def s0_def)
  have bufs: "take SD_CACHE_PAGE_SECTORS buf = page_at m p"
    "drop SD_CACHE_PAGE_SECTORS buf = map m [(p + 1) * 8..<(p + 1 + n) * 8]"
    using Suc.prems(3) by (simp_all add: SD_CACHE_PAGE_SECTORS_def take_map drop_map page_at_def add.commute)
  obtain r st1 where g: "bsp_sd_get_l3 s0 True st = (r, st1)" by fastforce
  note g1 = get_l3_frame [OF g]
  show ?case
  proof (cases r)
    case None
    then have "\<not> ok \<and> st' = st1" using Suc.prems(4) by (simp add: w g)
    moreover have "heap_events st \<noteq> []" using get_l3_no_fault [OF _ g] None by auto
    ultimately show ?thesis using g1 coh_slot [OF Suc.prems(1)] by simp
  next
    case (Some t)
    obtain b st2 where b: "(if t (p mod 512) = None then alloc st1 else (True, st1)) = (b, st2)" by fastforce
    then have st2: "cache_entry st2 = cache_entry st1" "sc_card st2 = sc_card st1"
      "heap_events st1 = [] \<Longrightarrow> b \<and> heap_events st2 = []"
      using alloc_cases [of st1 b st2] by (auto split: if_splits)
    then have slot2: "slot st2 = slot st" using g1 by (simp add: slot_def fun_eq_iff)
    have table: "has_table st2 s0" using get_l3_table(1) [OF g [unfolded Some]] st2(1) by (simp add: has_table_def)
    show ?thesis
    proof (cases b)
      case False
      then have "\<not> ok \<and> st' = st2" using Suc.prems(4) by (simp add: w g Some b)
      moreover have "heap_events st \<noteq> []" using get_l3_no_fault [OF _ g] st2(3) False by auto
      ultimately show ?thesis using g1 slot2 st2(2) coh_slot [OF Suc.prems(1) slot2] by simp
    next
      case True
      define st3 where "st3 = set_slot s0 (Some (page_at m p)) st2"
      have c3: "coh m st3"
        unfolding st3_def using coh_slot [OF Suc.prems(1) slot2] table s0 by (intro coh_set_slot) simp_all
      have slot3: "slot st3 s = (if s div 8 = p then Some (page_at m p) else slot st s)" if "s < 2 ^ 30" for s
        using that table slot2 same_page_iff [OF s0(1) that] s0(2) by (auto simp: st3_def set_slot_slot)
      have rest: "fill_pages (p + 1) n (map m [(p + 1) * 8..<(p + 1 + n) * 8]) st3 = (ok, st')"
        using Suc.prems(4) by (simp add: w g Some b True bufs st3_def)
      have "coh m st' \<and> sc_card st' = sc_card st3 \<and>
          (\<forall>s < 2 ^ 30. slot st3 s \<noteq> None \<or> ok \<and> p + 1 \<le> s div 8 \<and> s div 8 < p + 1 + n \<longrightarrow> slot st' s \<noteq> None) \<and>
          (heap_events st3 = [] \<longrightarrow> ok \<and> heap_events st' = [])"
        using Suc.prems(2) by (intro Suc.IH [OF c3 _ refl rest]) simp
      then have ih: "coh m st'" "sc_card st' = sc_card st3"
          "\<And>s. s < 2 ^ 30 \<Longrightarrow> slot st3 s \<noteq> None \<or> ok \<and> p + 1 \<le> s div 8 \<and> s div 8 < p + 1 + n \<Longrightarrow> slot st' s \<noteq> None"
          "heap_events st3 = [] \<Longrightarrow> ok \<and> heap_events st' = []"
        by blast+
      have "slot st' s \<noteq> None" if "s < 2 ^ 30" "slot st s \<noteq> None \<or> ok \<and> p \<le> s div 8 \<and> s div 8 < p + Suc n" for s
        using that slot3 [OF that(1)] by (intro ih(3)) auto
      moreover have "sc_card st3 = sc_card st" using st2(2) g1(2) by (simp add: st3_def)
      moreover have "heap_events st = [] \<Longrightarrow> heap_events st3 = []"
        using st2(3) get_l3_no_fault [OF _ g] by (simp add: st3_def)
      ultimately show ?thesis using ih(1,2,4) by (auto simp del: power_Suc)
    qed
  qed
qed

lemma ensure_prefetch_frame:
  assumes "bsp_sd_ensure_prefetch_buf k st = (b, st')"
  shows "slot st' = slot st" "sc_card st' = sc_card st" "heap_events st = [] \<Longrightarrow> b \<and> heap_events st' = []"
proof -
  obtain c st1 where a: "alloc st = (c, st1)" by fastforce
  note f = alloc_cases [OF a]
  show "slot st' = slot st" "sc_card st' = sc_card st" "heap_events st = [] \<Longrightarrow> b \<and> heap_events st' = []"
    using assms f
    by (cases c; auto simp: bsp_sd_ensure_prefetch_buf_def a slot_def fun_eq_iff split: if_splits)+
qed

lemma fill_page_cache_spec:
  assumes "coherent st" "(p + n) * 8 \<le> 2 ^ 30" "bsp_sd_fill_page_cache p n st = (ok, st')"
  shows "coherent st'" "card_mem (sc_card st') = card_mem (sc_card st)"
    "ok \<Longrightarrow> s < 2 ^ 30 \<Longrightarrow> p \<le> s div 8 \<Longrightarrow> s div 8 < p + n \<Longrightarrow> slot st' s \<noteq> None"
proof -
  let ?m = "card_mem (sc_card st)"
  have "coherent st' \<and> card_mem (sc_card st') = ?m \<and>
    (ok \<and> s < 2 ^ 30 \<and> p \<le> s div 8 \<and> s div 8 < p + n \<longrightarrow> slot st' s \<noteq> None)"
  proof (cases "n = 0")
    case True
    with assms show ?thesis by (auto simp: bsp_sd_fill_page_cache_def Let_def)
  next
    case False
    have w: "u32_wrap (p * SD_CACHE_PAGE_SECTORS) = p * 8" "u32_wrap (n * SD_CACHE_PAGE_SECTORS) = n * 8"
      using assms(2) by (simp_all add: SD_CACHE_PAGE_SECTORS_def)
    obtain b st1 where b: "bsp_sd_ensure_prefetch_buf (n * 8) st = (b, st1)" by fastforce
    note b1 = ensure_prefetch_frame [OF b]
    obtain r c where r: "ev3_sd_read_sectors (p * 8) (n * 8) (sc_card st1) = (r, c)" by fastforce
    have len: "p * 8 + n * 8 \<le> 2 ^ 32" using assms(2) by simp
    note c = sd_read_spec [OF len r]
    have coh1: "coh ?m (st1\<lparr>sc_card := c\<rparr>)"
      using assms(1) b1 by (simp add: coherent_def coh_slot [of ?m st])
    show ?thesis
    proof (cases "b \<and> r \<noteq> None")
      case fail: False
      then have "\<not> ok \<and> (st' = st1 \<or> st' = st1\<lparr>sc_card := c\<rparr>)"
        using assms(3) False unfolding bsp_sd_fill_page_cache_def Let_def w b r
        by (cases b; cases r; simp add: r)
      moreover have "coherent st1" "coherent (st1\<lparr>sc_card := c\<rparr>)"
        using coh_slot [OF assms(1) [unfolded coherent_def] b1(1)] coh1 c(1) b1(2) by (simp_all add: coherent_def)
      ultimately show ?thesis using c(1) b1(2) by (elim conjE disjE) simp_all
    next
      case True
      then obtain buf where buf: "r = Some buf" by auto
      have fp: "fill_pages p n buf (st1\<lparr>sc_card := c\<rparr>) = (ok, st')"
        using assms(3) False True unfolding bsp_sd_fill_page_cache_def Let_def w b by (simp add: r buf)
      have bf: "buf = map ?m [p * 8..<(p + n) * 8]"
        using c(2) [OF buf] b1(2) by (simp add: add_mult_distrib)
      note spec = fill_pages_spec [OF coh1 assms(2) bf fp]
      then have "sc_card st' = c" by simp
      moreover have "card_mem c = ?m" using c(1) b1(2) by simp
      moreover have "coh ?m st'" using spec by (rule conjunct1)
      ultimately show ?thesis using spec unfolding coherent_def by metis
    qed
  qed
  then show "coherent st'" "card_mem (sc_card st') = ?m"
    "ok \<Longrightarrow> s < 2 ^ 30 \<Longrightarrow> p \<le> s div 8 \<Longrightarrow> s div 8 < p + n \<Longrightarrow> slot st' s \<noteq> None"
    by blast+
qed

section \<open>Reading\<close>

text \<open>A batch never crosses the end of a level-3 table, so it stays below sector \<open>2 ^ 30\<close>.\<close>

lemma batch_in_table:
  assumes "s < 2 ^ 30" "n \<le> 0x200 - l3_index s"
  shows "(s div 8 + n) * 8 \<le> 2 ^ 30"
proof -
  have "l3_index s = s div 8 mod 512" by (simp add: l3_index_def)
  moreover have "s div 8 = s div 8 div 512 * 512 + s div 8 mod 512" "s div 8 mod 512 < 512" by simp_all
  moreover have "s div 8 div 512 < 262144" using assms(1) by (simp add: div_mult2_eq [symmetric] less_mult_imp_div_less)
  ultimately have "s div 8 + n \<le> 134217728" using assms(2) by linarith
  then show ?thesis by simp
qed

definition good_read :: "nat \<Rightarrow> nat \<Rightarrow> sd_cache \<Rightarrow> (nat \<times> sector list) option \<times> sd_cache \<Rightarrow> bool" where
  "good_read s r st out \<longleftrightarrow> coherent (snd out) \<and> card_mem (sc_card (snd out)) = card_mem (sc_card st) \<and>
     (\<forall>n xs. fst out = Some (n, xs) \<longrightarrow> xs = map (card_mem (sc_card st)) [s..<s + n])"

lemma good_read_copy:
  assumes "coherent st" "s < 2 ^ 30" "slot st s = Some pg"
  shows "good_read s r st (Some (copy_page (s mod SD_CACHE_PAGE_SECTORS) r pg), st)"
proof -
  have "pg = page_at (card_mem (sc_card st)) (s div 8)"
    using assms by (auto simp: coherent_def dest: cohD)
  with assms(1) show ?thesis by (auto simp: good_read_def dest: copy_page_at)
qed

lemma good_read_fail: "coherent st' \<Longrightarrow> card_mem (sc_card st') = card_mem (sc_card st) \<Longrightarrow> good_read s r st (None, st')"
  by (simp add: good_read_def)

lemma good_read_mono:
  "good_read s r st' out \<Longrightarrow> card_mem (sc_card st') = card_mem (sc_card st) \<Longrightarrow> good_read s r st out"
  by (simp add: good_read_def)

lemma fill_and_copy_good:
  assumes "coherent st" "s < 2 ^ 30"
  shows "good_read s r st (fill_and_copy s r st)"
proof -
  obtain ok st1 where f: "bsp_sd_fill_page_cache (s div 2 ^ 3) (miss_pages s r) st = (ok, st1)" by fastforce
  have n: "(s div 8 + miss_pages s r) * 8 \<le> 2 ^ 30"
    using assms(2) by (intro batch_in_table) (simp_all add: miss_pages_def)
  have f': "bsp_sd_fill_page_cache (s div 8) (miss_pages s r) st = (ok, st1)" using f by simp
  note st1 = fill_page_cache_spec(1,2) [OF assms(1) n f']
  obtain t st2 where g: "bsp_sd_get_l3 s False st1 = (t, st2)" by fastforce
  note g1 = get_l3_lookup(1) [OF g]
  show ?thesis
  proof (cases "ok \<and> (\<exists>l pg. t = Some l \<and> l (l3_index s) = Some pg)")
    case True
    then obtain l pg where l: "t = Some l" "l (l3_index s) = Some pg" by auto
    have "slot st1 s = Some pg"
      using get_l3_table(2) [OF g [unfolded l(1)], of s] g1 l(2) by (simp add: same_table_def)
    with True l g g1 show ?thesis
      using good_read_mono [OF good_read_copy [OF st1(1) assms(2)] st1(2)] by (simp add: fill_and_copy_def f')
  next
    case False
    then have "fill_and_copy s r st = (None, st1)"
      using g g1 by (cases ok; cases t) (auto simp: fill_and_copy_def f' split: option.split)
    with st1 show ?thesis by (simp add: good_read_fail)
  qed
qed

lemma stream_pages_good:
  assumes "coherent st" "s + k * 8 \<le> 2 ^ 32"
  shows "good_read s r st (stream_pages s k st)"
proof -
  obtain x c where x: "ev3_sd_read_sectors s (k * 8) (sc_card st) = (x, c)" by fastforce
  note c = sd_read_spec [OF assms(2) x]
  have "coherent (st\<lparr>sc_card := c\<rparr>)"
    using assms(1) c(1) coh_slot [of "card_mem c" st "st\<lparr>sc_card := c\<rparr>"] by (simp add: coherent_def)
  with c show ?thesis
    by (cases x) (auto simp: stream_pages_def SD_CACHE_PAGE_SECTORS_def x good_read_def Let_def)
qed

lemma read_step_good:
  assumes "coherent st" "s + r \<le> 2 ^ 30" "0 < r"
  shows "good_read s r st (read_step s r st)"
proof -
  have s: "s < 2 ^ 30" using assms(2,3) by simp
  obtain t st1 where g: "bsp_sd_get_l3 s True st = (t, st1)" by fastforce
  note g1 = get_l3_frame [OF g]
  have st1: "coherent st1" using assms(1) g1 by (simp add: coherent_def coh_slot)
  have mem: "card_mem (sc_card st1) = card_mem (sc_card st)" using g1 by simp
  show ?thesis
  proof (cases t)
    case None
    with g st1 mem show ?thesis by (simp add: read_step_def good_read_fail)
  next
    case (Some l)
    have sl: "slot st1 s = l (l3_index s)"
      using get_l3_table(2) [OF g [unfolded Some], of s] by (simp add: same_table_def)
    show ?thesis
    proof (cases "l (l3_index s)")
      case (Some pg)
      with \<open>t = Some l\<close> g sl show ?thesis
        using good_read_mono [OF good_read_copy [OF st1 s] mem] by (simp add: read_step_def)
    next
      case None
      have "s + stream_run s r l * 8 \<le> 2 ^ 32" using stream_run_le [of s r l] assms(2) by simp
      with None \<open>t = Some l\<close> g show ?thesis
        using good_read_mono [OF stream_pages_good [OF st1] mem] good_read_mono [OF fill_and_copy_good [OF st1 s] mem]
        by (simp add: read_step_def Let_def)
    qed
  qed
qed

lemma read_cache_spec:
  assumes "coherent st" "s + r \<le> 2 ^ 30" "bsp_sd_read_cache_sectors s r st = (out, st')"
  shows "coherent st' \<and> card_mem (sc_card st') = card_mem (sc_card st) \<and>
    (out = Some xs \<longrightarrow> xs = map (card_mem (sc_card st)) [s..<s + r])"
  using assms
proof (induction r arbitrary: s st out st' xs rule: less_induct)
  case (less r)
  show ?case
  proof (cases "r = 0")
    case True
    with less.prems show ?thesis by (auto simp: bsp_sd_read_cache_sectors.simps)
  next
    case False
    obtain o1 st1 where o1: "read_step s r st = (o1, st1)" by fastforce
    have good: "good_read s r st (o1, st1)"
      using read_step_good [OF less.prems(1,2)] False by (simp add: o1)
    show ?thesis
    proof (cases o1)
      case None
      then have "out = None \<and> st' = st1"
        using less.prems(3) False by (simp add: bsp_sd_read_cache_sectors.simps [of s r] o1)
      with good show ?thesis by (simp add: good_read_def)
    next
      case (Some nx)
      then obtain n ys where nx: "o1 = Some (n, ys)" by (cases nx) simp
      have n: "0 < n" "n \<le> r" using read_step_progress [of s r st n ys st1] o1 nx False by auto
      obtain o2 st2 where o2: "bsp_sd_read_cache_sectors (s + n) (r - n) st1 = (o2, st2)" by fastforce
      have w: "u32_wrap (s + n) = s + n" using n less.prems(2) by simp
      have ih: "coherent st2 \<and> card_mem (sc_card st2) = card_mem (sc_card st) \<and>
          (o2 = Some zs \<longrightarrow> zs = map (card_mem (sc_card st)) [s + n..<s + r])" for zs
        using less.IH [of "r - n" st1 "s + n" o2 st2 zs] good n less.prems(2) o2 by (simp add: good_read_def)
      have "(out, st') = (case o2 of None \<Rightarrow> (None, st2) | Some zs \<Rightarrow> (Some (ys @ zs), st2))"
        using less.prems(3) False by (simp add: bsp_sd_read_cache_sectors.simps [of s r] o1 nx w o2 split: option.splits)
      with ih good nx upt_run_split [OF n(2), of s] show ?thesis
        by (auto simp: good_read_def split: option.splits)
    qed
  qed
qed

section \<open>Writing\<close>

lemma invalidate_slot:
  "slot (invalidate_sector s st) t = (if same_table s t \<and> l3_index s = l3_index t then None else slot st t)"
  "sc_card (invalidate_sector s st) = sc_card st"
proof -
  obtain r st1 where g: "bsp_sd_get_l3 s False st = (r, st1)" by fastforce
  note g1 = get_l3_lookup [OF g]
  have same: "slot st t = slot st s" if "same_table s t \<and> l3_index s = l3_index t"
    using slot_cong [OF that] by simp
  have "slot (invalidate_sector s st) t = (if same_table s t \<and> l3_index s = l3_index t then None else slot st t) \<and>
    sc_card (invalidate_sector s st) = sc_card st"
  proof (cases r)
    case None
    with g g1 same show ?thesis by (auto simp: invalidate_sector_def)
  next
    case (Some l)
    note l = get_l3_table [OF g [unfolded Some]]
    show ?thesis
      using g g1(1) Some l(1) l(2) [of s] same
      by (auto simp: invalidate_sector_def set_slot_slot same_table_def)
  qed
  then show "slot (invalidate_sector s st) t = (if same_table s t \<and> l3_index s = l3_index t then None else slot st t)"
    "sc_card (invalidate_sector s st) = sc_card st" by blast+
qed

lemma invalidate_sectors_slot:
  assumes "s + n \<le> 2 ^ 30" "t < 2 ^ 30"
  shows "slot (bsp_sd_invalidate_sectors s n st) t = (if \<exists>i < n. (s + i) div 8 = t div 8 then None else slot st t) \<and>
    sc_card (bsp_sd_invalidate_sectors s n st) = sc_card st"
  using assms(1)
proof (induction n)
  case 0
  then show ?case by (simp add: bsp_sd_invalidate_sectors_def)
next
  case (Suc n)
  have "s + n < 2 ^ 30" "u32_wrap (s + n) = s + n" using Suc.prems by simp_all
  with Suc same_page_iff [OF \<open>s + n < 2 ^ 30\<close> assms(2)] show ?case
    by (auto simp: bsp_sd_invalidate_sectors_def invalidate_slot less_Suc_eq)
qed

text \<open>After a failed write the cache holds no page that has a sector of the range.\<close>

lemma invalidate_coherent:
  assumes "coh m st" "s + n \<le> 2 ^ 30" "\<And>a. a \<notin> {s..<s + n} \<Longrightarrow> m' a = m a"
  shows "coh m' (bsp_sd_invalidate_sectors s n st)"
proof (rule cohI)
  fix t pg assume t: "t < 2 ^ 30" "slot (bsp_sd_invalidate_sectors s n st) t = Some pg"
  then have out: "(s + i) div 8 \<noteq> t div 8" if "i < n" for i
    using that invalidate_sectors_slot [OF assms(2) t(1), of st] by (auto split: if_splits)
  have "m' a = m a" if "a \<in> set [t div 8 * 8..<t div 8 * 8 + 8]" for a
  proof (rule assms(3))
    have "a div 8 = t div 8" using that by auto
    moreover have "a - s < n" "s + (a - s) = a" if "a \<in> {s..<s + n}" using that by auto
    ultimately show "a \<notin> {s..<s + n}" using out by metis
  qed
  then have "page_at m' (t div 8) = page_at m (t div 8)" by (simp add: page_at_def)
  moreover have "slot st t = Some pg"
    using t invalidate_sectors_slot [OF assms(2) t(1), of st] by (auto split: if_splits)
  ultimately show "pg = page_at m' (t div 8)" using cohD [OF assms(1) t(1)] by simp
qed

lemma page_at_update:
  assumes "s div 8 = p"
  shows "(page_at m p)[s mod 8 := x] = page_at (m(s := x)) p"
proof (rule nth_equalityI)
  fix i assume i: "i < length ((page_at m p)[s mod 8 := x])"
  moreover have "p * 8 + i = s \<longleftrightarrow> i = s mod 8" by (metis assms add_left_cancel div_mult_mod_eq)
  ultimately show "(page_at m p)[s mod 8 := x] ! i = page_at (m(s := x)) p ! i"
    by (simp add: page_at_nth nth_list_update)
qed simp

lemma update_sector_coherent:
  assumes "coh m st" "s < 2 ^ 30"
  shows "coh (m(s := x)) (update_sector s x st)" "sc_card (update_sector s x st) = sc_card st"
proof -
  obtain r st1 where g: "bsp_sd_get_l3 s False st = (r, st1)" by fastforce
  note g1 = get_l3_lookup [OF g]
  have other: "page_at (m(s := x)) (t div 8) = page_at m (t div 8)" if "s div 8 \<noteq> t div 8" for t
    using that by (auto simp: page_at_def)
  have absent: "coh (m(s := x)) st" if "slot st s = None"
  proof (rule cohI)
    fix t pg assume t: "t < 2 ^ 30" "slot st t = Some pg"
    with that have "s div 8 \<noteq> t div 8"
      using same_page_iff [OF assms(2) t(1)] slot_cong [of s t st] by auto
    with other cohD [OF assms(1) t] show "pg = page_at (m(s := x)) (t div 8)" by simp
  qed
  have "coh (m(s := x)) (update_sector s x st) \<and> sc_card (update_sector s x st) = sc_card st"
  proof (cases "slot st s")
    case None
    then have "update_sector s x st = st"
      using g g1 get_l3_table(2) [of s False st _ st1 s]
      by (cases r) (auto simp: update_sector_def same_table_def)
    with absent None show ?thesis by simp
  next
    case (Some pg)
    then obtain l where l: "r = Some l" using g1(2) by auto
    have ll: "has_table st s" "l (l3_index s) = Some pg"
      using get_l3_table [OF g [unfolded l]] g1(1) Some by (auto simp: same_table_def)
    have pg: "pg[s mod 8 := x] = page_at (m(s := x)) (s div 8)"
      using cohD [OF assms Some] page_at_update by simp
    have u: "update_sector s x st = set_slot s (Some (pg[s mod 8 := x])) st"
      using g g1(1) l ll by (simp add: update_sector_def SD_CACHE_PAGE_SECTORS_def)
    have "coh (m(s := x)) (set_slot s (Some (pg[s mod 8 := x])) st)"
    proof (rule cohI)
      fix t qg assume t: "t < 2 ^ 30" "slot (set_slot s (Some (pg[s mod 8 := x])) st) t = Some qg"
      then show "qg = page_at (m(s := x)) (t div 8)"
        using ll(1) pg other [of t] cohD [OF assms(1) t(1)] same_page_iff [OF assms(2) t(1)]
        by (auto simp: set_slot_slot split: if_splits)
    qed
    then show ?thesis by (simp add: u)
  qed
  then show "coh (m(s := x)) (update_sector s x st)" "sc_card (update_sector s x st) = sc_card st" by blast+
qed

lemma put_run_snoc:
  assumes "n < length xs"
  shows "put_run s (take (Suc n) xs) m = (put_run s (take n xs) m)(s + n := xs ! n)"
proof -
  have "put_run k [x] g = g(k := x)" for k x and g :: "nat \<Rightarrow> 'a"
    by (auto simp: put_run_def fun_eq_iff)
  with assms show ?thesis by (simp add: take_Suc_conv_app_nth put_run_append)
qed

lemma update_sectors_coherent:
  assumes "coh m st" "s + length xs \<le> 2 ^ 30" "n \<le> length xs"
  shows "coh (put_run s (take n xs) m) (fold (\<lambda>i. update_sector (u32_wrap (s + i)) (xs ! i)) [0..<n] st) \<and>
    sc_card (fold (\<lambda>i. update_sector (u32_wrap (s + i)) (xs ! i)) [0..<n] st) = sc_card st"
  using assms(3)
proof (induction n)
  case 0
  with assms(1) show ?case by simp
next
  case (Suc n)
  have "s + n < 2 ^ 30" "u32_wrap (s + n) = s + n" using Suc.prems assms(2) by simp_all
  moreover have "put_run s (take (Suc n) xs) m = (put_run s (take n xs) m)(s + n := xs ! n)"
    using Suc.prems by (intro put_run_snoc) simp
  ultimately show ?case
    using Suc.IH Suc.prems update_sector_coherent [of "put_run s (take n xs) m" _ "s + n" "xs ! n"]
    by (simp del: fun_upd_apply)
qed

lemma write_cache_spec:
  assumes "coherent st" "s + length xs \<le> 2 ^ 30" "bsp_sd_write_cache_sectors s xs (length xs) st = (ok, st')"
  shows "coherent st'" "ok \<Longrightarrow> card_mem (sc_card st') = put_run s xs (card_mem (sc_card st))"
    "a \<notin> {s..<s + length xs} \<Longrightarrow> card_mem (sc_card st') a = card_mem (sc_card st) a"
proof -
  let ?m = "card_mem (sc_card st)"
  obtain b c where w: "ev3_sd_write_sectors s xs (length xs) (sc_card st) = (b, c)" by fastforce
  have len: "s + length xs \<le> 2 ^ 32" using assms(2) by simp
  note c = sd_write_spec [OF len w]
  have coh1: "coh ?m (st\<lparr>sc_card := c\<rparr>)" using assms(1) by (simp add: coherent_def coh_def)
  consider "xs = []" | "xs \<noteq> []" b | "xs \<noteq> []" "\<not> b" by blast
  then have "coherent st' \<and> (ok \<longrightarrow> card_mem (sc_card st') = put_run s xs ?m) \<and>
    (a \<notin> {s..<s + length xs} \<longrightarrow> card_mem (sc_card st') a = ?m a)"
  proof cases
    case 1
    with assms show ?thesis by (simp add: bsp_sd_write_cache_sectors_def)
  next
    case 2
    then have "ok \<and> st' = fold (\<lambda>i. update_sector (u32_wrap (s + i)) (xs ! i)) [0..<length xs] (st\<lparr>sc_card := c\<rparr>)"
      using assms(3) by (simp add: bsp_sd_write_cache_sectors_def w)
    with update_sectors_coherent [OF coh1 assms(2), of "length xs"] c(1) [OF 2(2)]
    show ?thesis by (auto simp: coherent_def put_run_def)
  next
    case 3
    then have "\<not> ok \<and> st' = bsp_sd_invalidate_sectors s (length xs) (st\<lparr>sc_card := c\<rparr>)"
      using assms(3) by (simp add: bsp_sd_write_cache_sectors_def w)
    moreover have "sc_card (bsp_sd_invalidate_sectors s (length xs) (st\<lparr>sc_card := c\<rparr>)) = c"
      using invalidate_sectors_slot [OF assms(2), of 0] by simp
    ultimately show ?thesis
      using invalidate_coherent [OF coh1 assms(2) c(2)] c(2) [of a] by (simp add: coherent_def)
  qed
  then show "coherent st'" "ok \<Longrightarrow> card_mem (sc_card st') = put_run s xs ?m"
    "a \<notin> {s..<s + length xs} \<Longrightarrow> card_mem (sc_card st') a = ?m a" by blast+
qed

abbreviation cached_write :: "nat \<Rightarrow> sector list \<Rightarrow> sd_cache \<Rightarrow> bool \<times> sd_cache" where
  "cached_write s xs \<equiv> bsp_sd_write_cache_sectors s xs (length xs)"

abbreviation cached_mem :: "sd_cache \<Rightarrow> nat \<Rightarrow> sector" where
  "cached_mem st \<equiv> card_mem (sc_card st)"

interpretation cached: block_device bsp_sd_read_cache_sectors cached_write cached_mem "2 ^ 30" coherent
proof unfold_locales
  fix d d' :: sd_cache and s n :: nat and xs :: "sector list"
  assume "coherent d" "s + n \<le> 2 ^ 30" "bsp_sd_read_cache_sectors s n d = (Some xs, d')"
  from read_cache_spec [OF this] show "xs = map (cached_mem d) [s..<s + n]" by blast
next
  fix d :: sd_cache and s n :: nat
  assume "coherent d" "s + n \<le> 2 ^ 30"
  from read_cache_spec [OF this surjective_pairing]
  show "cached_mem (snd (bsp_sd_read_cache_sectors s n d)) = cached_mem d"
    "coherent (snd (bsp_sd_read_cache_sectors s n d))" by blast+
next
  fix d d' :: sd_cache and s :: nat and xs :: "sector list"
  assume "coherent d" "s + length xs \<le> 2 ^ 30" "cached_write s xs d = (True, d')"
  from write_cache_spec(2) [OF this] show "cached_mem d' = put_run s xs (cached_mem d)" by simp
next
  fix d :: sd_cache and s a :: nat and xs :: "sector list"
  assume a: "coherent d" "s + length xs \<le> 2 ^ 30"
  show "coherent (snd (cached_write s xs d))" using a by (rule write_cache_spec(1)) (rule surjective_pairing)
  assume "a \<notin> {s..<s + length xs}"
  with a show "cached_mem (snd (cached_write s xs d)) a = cached_mem d a"
    using write_cache_spec(3) [OF a surjective_pairing] by blast
qed

section \<open>Runs without faults\<close>

definition no_faults :: "sd_cache \<Rightarrow> bool" where
  "no_faults st \<longleftrightarrow> heap_events st = [] \<and> card_events (sc_card st) = []"

lemma send_read_no_fault: "card_events c = [] \<Longrightarrow> send_read s n c = (Some (map (card_mem c) [s..<s + n]), c)"
  by (simp add: send_read_def next_event_def)

lemma read_chunks_no_fault:
  "card_events c = [] \<Longrightarrow> \<exists>xs. read_chunks s n c = (Some xs, c)"
proof (induction n arbitrary: s rule: less_induct)
  case (less n)
  show ?case
  proof (cases "n = 0")
    case True
    then show ?thesis by (simp add: read_chunks.simps)
  next
    case False
    obtain k xs where k: "read_chunk s n c = (Some (k, xs), c)"
      using less.prems by (auto simp: read_chunk_def Let_def send_read_no_fault send_stop_def next_event_def)
    then have "0 < k" "k \<le> n" using read_chunk_progress False by blast+
    then obtain ys where "read_chunks (u32_wrap (s + k)) (n - k) c = (Some ys, c)"
      using less.IH [of "n - k"] less.prems by auto
    with k False show ?thesis by (simp add: read_chunks.simps [of s n])
  qed
qed

lemma sd_read_no_fault:
  assumes "card_events c = []" "s + n \<le> 2 ^ 32"
  shows "ev3_sd_read_sectors s n c = (Some (map (card_mem c) [s..<s + n]), c)"
proof -
  have "\<exists>xs. ev3_sd_read_sectors s n c = (Some xs, c)"
    using read_chunks_no_fault [OF assms(1), of s n] assms(1)
    by (simp add: ev3_sd_read_sectors_def ev3_sd_read_sector_def send_read_no_fault)
  then obtain xs where xs: "ev3_sd_read_sectors s n c = (Some xs, c)" by blast
  with sd_read_spec(2) [OF assms(2) xs] show ?thesis by simp
qed

lemma fill_page_cache_no_fault:
  assumes "coherent st" "(p + n) * 8 \<le> 2 ^ 30" "no_faults st" "bsp_sd_fill_page_cache p n st = (ok, st')"
  shows "ok \<and> no_faults st'"
proof (cases "n = 0")
  case True
  with assms show ?thesis by (simp add: bsp_sd_fill_page_cache_def Let_def)
next
  case False
  let ?m = "card_mem (sc_card st)"
  have w: "u32_wrap (p * SD_CACHE_PAGE_SECTORS) = p * 8" "u32_wrap (n * SD_CACHE_PAGE_SECTORS) = n * 8"
    using assms(2) by (simp_all add: SD_CACHE_PAGE_SECTORS_def)
  obtain b st1 where b: "bsp_sd_ensure_prefetch_buf (n * 8) st = (b, st1)" by fastforce
  note b1 = ensure_prefetch_frame [OF b]
  have b2: "b" "heap_events st1 = []" using b1(3) assms(3) by (simp_all add: no_faults_def)
  have "p * 8 + n * 8 \<le> 2 ^ 32" using assms(2) by simp
  then have r: "ev3_sd_read_sectors (p * 8) (n * 8) (sc_card st1) =
      (Some (map ?m [p * 8..<(p + n) * 8]), sc_card st)"
    using assms(3) b1(2) by (simp add: sd_read_no_fault no_faults_def add_mult_distrib)
  have fp: "fill_pages p n (map ?m [p * 8..<(p + n) * 8]) (st1\<lparr>sc_card := sc_card st\<rparr>) = (ok, st')"
    using assms(4) False b2(1) unfolding bsp_sd_fill_page_cache_def Let_def w b by (simp add: r)
  have "coh ?m (st1\<lparr>sc_card := sc_card st\<rparr>)"
    using assms(1) b1(1) by (simp add: coherent_def coh_def)
  from fill_pages_spec [OF this assms(2) refl fp] b2(2) assms(3)
  show ?thesis by (simp add: no_faults_def)
qed

lemma miss_pages_pos:
  assumes "s + r \<le> 2 ^ 30" "0 < r"
  shows "0 < miss_pages s r"
proof -
  have "s mod 8 + r + 7 < 2 ^ 32" using assms(1) mod_less_divisor [of 8 s] by simp
  then have "u32_wrap (s mod SD_CACHE_PAGE_SECTORS + r + SD_CACHE_PAGE_SECTORS - 1) = s mod 8 + r + 7"
    by (simp add: SD_CACHE_PAGE_SECTORS_def)
  moreover have "1 \<le> (s mod 8 + r + 7) div 8" using assms(2) by linarith
  moreover have "l3_index s < 512" by (simp add: l3_index_def)
  ultimately show ?thesis
    by (simp add: miss_pages_def SD_CACHE_PAGE_SECTORS_def SD_CACHE_MAX_BATCH_PAGES_def)
qed

lemma fill_and_copy_no_fault:
  assumes "coherent st" "s + r \<le> 2 ^ 30" "0 < r" "no_faults st"
  shows "\<exists>x st'. fill_and_copy s r st = (Some x, st') \<and> no_faults st'"
proof -
  have s: "s < 2 ^ 30" using assms(2,3) by simp
  obtain ok st1 where f: "bsp_sd_fill_page_cache (s div 8) (miss_pages s r) st = (ok, st1)" by fastforce
  have n: "(s div 8 + miss_pages s r) * 8 \<le> 2 ^ 30"
    using s by (intro batch_in_table) (simp_all add: miss_pages_def)
  have ok: "ok" "no_faults st1" using fill_page_cache_no_fault [OF assms(1) n assms(4) f] by auto
  have "slot st1 s \<noteq> None"
    using fill_page_cache_spec(3) [OF assms(1) n f ok(1) s] miss_pages_pos [OF assms(2,3)] by simp
  moreover obtain t st2 where g: "bsp_sd_get_l3 s False st1 = (t, st2)" by fastforce
  ultimately obtain l pg where l: "t = Some l" "l (l3_index s) = Some pg" "st2 = st1"
    using get_l3_lookup [OF g] get_l3_table(2) [of s False st1 _ st2 s] g
    by (cases t) (auto simp: same_table_def)
  with ok g f show ?thesis by (simp add: fill_and_copy_def)
qed

lemma read_step_no_fault:
  assumes "coherent st" "s + r \<le> 2 ^ 30" "0 < r" "no_faults st"
  shows "\<exists>x st'. read_step s r st = (Some x, st') \<and> no_faults st'"
proof -
  obtain t st1 where g: "bsp_sd_get_l3 s True st = (t, st1)" by fastforce
  note g1 = get_l3_frame [OF g]
  have nf: "no_faults st1" "t \<noteq> None"
    using get_l3_no_fault [OF _ g] assms(4) g1(2) by (auto simp: no_faults_def)
  have st1: "coherent st1" using assms(1) g1 by (simp add: coherent_def coh_def)
  obtain l where l: "t = Some l" using nf(2) by auto
  have "\<exists>x st'. stream_pages s k st1 = (Some x, st') \<and> no_faults st'" if "s + k * 8 \<le> 2 ^ 32" for k
    using that nf(1) by (simp add: stream_pages_def Let_def SD_CACHE_PAGE_SECTORS_def no_faults_def sd_read_no_fault)
  moreover have "s + stream_run s r l * 8 \<le> 2 ^ 32" using stream_run_le [of s r l] assms(2) by simp
  ultimately show ?thesis
    using g l nf(1) fill_and_copy_no_fault [OF st1 assms(2,3) nf(1)]
    by (auto simp: read_step_def Let_def split: option.split)
qed

lemma read_cache_no_fault:
  assumes "coherent st" "s + r \<le> 2 ^ 30" "no_faults st"
  shows "\<exists>xs st'. bsp_sd_read_cache_sectors s r st = (Some xs, st')"
  using assms
proof (induction r arbitrary: s st rule: less_induct)
  case (less r)
  show ?case
  proof (cases "r = 0")
    case True
    then show ?thesis by (simp add: bsp_sd_read_cache_sectors.simps)
  next
    case False
    obtain n ys st1 where x: "read_step s r st = (Some (n, ys), st1)" "no_faults st1"
      using read_step_no_fault [OF less.prems(1,2) _ less.prems(3)] False by auto
    have n: "0 < n" "n \<le> r" using read_step_progress [OF x(1)] False by auto
    have "coherent st1" using read_step_good [OF less.prems(1,2)] False x(1) by (simp add: good_read_def)
    then obtain zs st2 where "bsp_sd_read_cache_sectors (s + n) (r - n) st1 = (Some zs, st2)"
      using less.IH [of "r - n" st1 "s + n"] n x(2) less.prems(2) by auto
    moreover have "u32_wrap (s + n) = s + n" using n less.prems(2) by simp
    ultimately show ?thesis using x(1) False by (simp add: bsp_sd_read_cache_sectors.simps [of s r])
  qed
qed

section \<open>Hits\<close>

lemma get_l3_hit:
  assumes "slot st s = Some pg"
  shows "\<exists>l. bsp_sd_get_l3 s cr st = (Some l, st) \<and> l (l3_index s) = Some pg"
proof -
  obtain t2 t3 where "cache_entry st (l1_index s) = Some t2" "t2 (l2_index s) = Some t3" "t3 (l3_index s) = Some pg"
    using assms by (auto simp: slot_def split: option.splits)
  then show ?thesis by (simp add: bsp_sd_get_l3_def ensure_l1_def Let_def)
qed

lemma read_step_hit:
  assumes "slot st s = Some pg"
  shows "read_step s r st = (Some (copy_page (s mod SD_CACHE_PAGE_SECTORS) r pg), st)"
  using get_l3_hit [OF assms, of True] by (auto simp: read_step_def Let_def)

section \<open>Main theorems\<close>

definition cold_cache :: "sd_card \<Rightarrow> bool list \<Rightarrow> sd_cache" where
  "cold_cache c h = \<lparr>cache_entry = \<lambda>_. None, prefetch_buf_sectors = 0, heap_events = h, sc_card = c\<rparr>"

lemma cold_coherent: "coherent (cold_cache c h)"
  by (simp add: coherent_def coh_def slot_def cold_cache_def)

text \<open>
  C3. The cached card is a disk: started with an empty cache, and whatever card commands and
  allocations fail on the way, any list of sector reads and writes below sector \<open>2 ^ 30\<close> is answered
  the way an ideal disk answers it: a read returns what was last written, a failed write may damage
  only its own range, and no stale page is ever served.
\<close>

theorem cache_refines_disk:
  assumes "list_all (in_range (2 ^ 30)) rs"
  shows "disk (card_mem c) (fst (cached.serves rs (cold_cache c h)))
    (cached_mem (snd (cached.serves rs (cold_cache c h))))"
proof -
  have "cached_mem (cold_cache c h) = card_mem c" by (simp add: cold_cache_def)
  with cached.serves_disk [OF cold_coherent assms, of c h] show ?thesis by simp
qed

definition demo_card :: sd_card where
  "demo_card = \<lparr>card_mem = \<lambda>a. [of_nat a], card_events = [Done, Failed [[7]], Failed []]\<rparr>"

theorem cache_refines_disk_witness:
  "disk (card_mem demo_card)
     (fst (cached.serves [Read 3 2, Write 4 [[1], [2]], Read 3 3] (cold_cache demo_card [True, True])))
     (cached_mem (snd (cached.serves [Read 3 2, Write 4 [[1], [2]], Read 3 3] (cold_cache demo_card [True, True]))))"
  by (rule cache_refines_disk) simp

text \<open>
  C36. Without faults the cached read always completes and returns exactly what the plain sector
  driver returns, whichever mix of cached pages, batched fills and streamed runs it goes through.
\<close>

theorem cached_read_equals_driver:
  assumes "coherent st" "s + n \<le> 2 ^ 30" "heap_events st = []" "card_events (sc_card st) = []"
  shows "fst (bsp_sd_read_cache_sectors s n st) = fst (ev3_sd_read_sectors s n (sc_card st)) \<and>
    fst (bsp_sd_read_cache_sectors s n st) = Some (map (cached_mem st) [s..<s + n])"
proof -
  have nf: "no_faults st" using assms(3,4) by (simp add: no_faults_def)
  obtain xs st' where r: "bsp_sd_read_cache_sectors s n st = (Some xs, st')"
    using read_cache_no_fault [OF assms(1,2) nf] by blast
  have "xs = map (cached_mem st) [s..<s + n]" using read_cache_spec [OF assms(1,2) r] by blast
  moreover have "s + n \<le> 2 ^ 32" using assms(2) by simp
  ultimately show ?thesis using r assms(4) by (simp add: sd_read_no_fault)
qed

theorem cached_read_equals_driver_witness:
  "fst (bsp_sd_read_cache_sectors 5 600 (cold_cache (demo_card\<lparr>card_events := []\<rparr>) [])) =
   Some (map (card_mem demo_card) [5..<5 + 600])"
proof -
  have "fst (bsp_sd_read_cache_sectors 5 600 (cold_cache (demo_card\<lparr>card_events := []\<rparr>) [])) =
      Some (map (cached_mem (cold_cache (demo_card\<lparr>card_events := []\<rparr>) [])) [5..<5 + 600])"
    by (rule cached_read_equals_driver [OF cold_coherent, THEN conjunct2]) (simp_all add: cold_cache_def)
  moreover have "cached_mem (cold_cache (demo_card\<lparr>card_events := []\<rparr>) []) = card_mem demo_card"
    by (simp add: cold_cache_def)
  ultimately show ?thesis by (simp only:)
qed

text \<open>
  A hit costs no card transaction: when every page of the range is cached, the read succeeds
  without any card command or allocation and leaves the whole state as it was.
\<close>

theorem hit_costs_nothing:
  assumes "s + n \<le> 2 ^ 30" "\<And>i. i < n \<Longrightarrow> slot st (s + i) \<noteq> None"
  shows "fst (bsp_sd_read_cache_sectors s n st) \<noteq> None \<and> snd (bsp_sd_read_cache_sectors s n st) = st"
  using assms
proof (induction n arbitrary: s rule: less_induct)
  case (less n)
  show ?case
  proof (cases "n = 0")
    case True
    then show ?thesis by (simp add: bsp_sd_read_cache_sectors.simps)
  next
    case False
    then obtain pg where pg: "slot st s = Some pg" using less.prems(2) [of 0] by auto
    obtain k xs where k: "copy_page (s mod SD_CACHE_PAGE_SECTORS) n pg = (k, xs)" by fastforce
    have kn: "0 < k" "k \<le> n" using copy_page_progress [OF k] False by auto
    have w: "u32_wrap (s + k) = s + k" using kn less.prems(1) by simp
    have "fst (bsp_sd_read_cache_sectors (s + k) (n - k) st) \<noteq> None \<and>
        snd (bsp_sd_read_cache_sectors (s + k) (n - k) st) = st"
      using kn less.prems(1) less.prems(2) [of "k + _"] by (intro less.IH) (auto simp: add.assoc)
    then obtain zs where "bsp_sd_read_cache_sectors (s + k) (n - k) st = (Some zs, st)"
      by (cases "bsp_sd_read_cache_sectors (s + k) (n - k) st") auto
    with False show ?thesis
      by (simp add: bsp_sd_read_cache_sectors.simps [of s n] read_step_hit [OF pg] k w)
  qed
qed

definition demo_page :: page where
  "demo_page = map (\<lambda>i. [of_nat i]) [0..<8]"

definition demo_cached :: sd_cache where
  "demo_cached = (cold_cache demo_card [False])\<lparr>cache_entry := (\<lambda>_. None)(0 := Some ((\<lambda>_. None)(0 :=
     Some ((\<lambda>_. None)(0 := Some demo_page)))))\<rparr>"

lemma demo_cached_slot: "s < 8 \<Longrightarrow> slot demo_cached s = Some demo_page"
  by (simp add: slot_def demo_cached_def l1_index_def l2_index_def l3_index_def)

theorem hit_costs_nothing_witness: "snd (bsp_sd_read_cache_sectors 2 5 demo_cached) = demo_cached"
  using hit_costs_nothing [of 2 5 demo_cached] by (simp add: demo_cached_slot)

text \<open>
  C37. The radix key has 27 page bits, so sectors \<open>2 ^ 30\<close> apart share a slot: once the page of
  sector \<open>s\<close> is cached, reading sector \<open>s + 2 ^ 30\<close> returns sector \<open>s\<close> without asking the card.
\<close>

theorem cache_alias:
  assumes "s < 2 ^ 30" "slot st s = Some pg"
  shows "bsp_sd_read_cache (s + 2 ^ 30) st = (Some (take 1 (drop (s mod 8) pg)), st)"
proof -
  have "(s + 2 ^ 30) div 2 ^ 21 = s div 2 ^ 21 + 512" "(s + 2 ^ 30) div 2 ^ 12 = s div 2 ^ 12 + 2 ^ 18"
    "(s + 2 ^ 30) div 2 ^ 3 = s div 2 ^ 3 + 2 ^ 27" by simp_all
  then have "same_table s (s + 2 ^ 30) \<and> l3_index s = l3_index (s + 2 ^ 30)"
    by (simp add: same_table_def l1_index_def l2_index_def l3_index_def mod_add_eq [symmetric])
  then have "slot st s = slot st (s + 2 ^ 30)" by (rule slot_cong)
  then have "slot st (s + 2 ^ 30) = Some pg" using assms(2) by simp
  moreover have "(s + 2 ^ 30) mod SD_CACHE_PAGE_SECTORS = s mod 8"
    by (simp add: SD_CACHE_PAGE_SECTORS_def mod_add_eq [symmetric])
  moreover have "copy_page (s mod 8) 1 pg = (1, take 1 (drop (s mod 8) pg))"
    using mod_less_divisor [of 8 s] by (simp add: copy_page_def SD_CACHE_PAGE_SECTORS_def Let_def)
  ultimately show ?thesis
    by (simp add: bsp_sd_read_cache_def bsp_sd_read_cache_sectors.simps read_step_hit)
qed

theorem cache_alias_witness: "bsp_sd_read_cache (3 + 2 ^ 30) demo_cached = (Some [[3]], demo_cached)"
  using cache_alias [of 3 demo_cached demo_page] by (simp add: demo_cached_slot demo_page_def upt_rec)

lemma write_single_is_run:
  "s < 2 ^ 32 \<Longrightarrow> bsp_sd_write_cache s x st = bsp_sd_write_cache_sectors s [x] 1 st"
  by (auto simp: bsp_sd_write_cache_def bsp_sd_write_cache_sectors_def ev3_sd_write_sectors_def
      split: prod.split bool.split)

end
