(* ===== verification/Ps2_Mouse.thy ===== *)
theory Ps2_Mouse
  imports Ps2_Controller
begin

text \<open>
  The PS/2 mouse daemon (\<^verbatim>\<open>src/x86/system/drivers/ps2moused/moused.c\<close>): the device handshake, the packet
  assembler, the translation of packets to events and the ring of 64 slots read by clients.

  The event fields and button and state names come from the shared mouse header, which is not part
  of this repository; an event is a record of the fields the daemon sets, \<open>int8_t\<close> values are signed
  8-bit words read as integers. Where the source returns a retry code the model returns \<open>None\<close>.
\<close>

section \<open>State\<close>

datatype mouse_button = MOUSE_BUTTON_NONE | MOUSE_BUTTON_LEFT | MOUSE_BUTTON_RIGHT | MOUSE_BUTTON_MID
  | MOUSE_BUTTON_SCROLL_UP | MOUSE_BUTTON_SCROLL_DOWN
datatype mouse_motion = MOUSE_STATE_MOVE | MOUSE_STATE_DOWN | MOUSE_STATE_UP

record mouse_evt =
  me_x :: int
  me_y :: int
  me_button :: mouse_button
  me_state :: mouse_motion

record mouse =
  mouse_data :: "mouse_evt list"
  mouse_r :: nat
  mouse_w :: nat
  packet :: "u8 list"
  packet_index :: nat
  packet_size :: nat
  button_state :: u8
  m_wakeup :: bool
  polling_mode :: bool
  m_pio :: pio

definition MOUSE_CACHE :: nat where "MOUSE_CACHE = 64"
definition I8042_WAIT_LOOPS :: nat where "I8042_WAIT_LOOPS = 5000"
definition I8042_CMD_ENABLE_AUX :: u8 where "I8042_CMD_ENABLE_AUX = 0xA8"
definition I8042_CMD_AUX_WRITE :: u8 where "I8042_CMD_AUX_WRITE = 0xD4"
definition I8042_CFG_AUX_IRQ :: u8 where "I8042_CFG_AUX_IRQ = 0x02"
definition I8042_CFG_AUX_CLK_DISABLE :: u8 where "I8042_CFG_AUX_CLK_DISABLE = 0x20"
definition PS2_CMD_SET_DEFAULT :: u8 where "PS2_CMD_SET_DEFAULT = 0xF6"
definition PS2_CMD_SET_SAMPLE_RATE :: u8 where "PS2_CMD_SET_SAMPLE_RATE = 0xF3"
definition PS2_CMD_GET_DEVICE_ID :: u8 where "PS2_CMD_GET_DEVICE_ID = 0xF2"
definition PS2_CMD_ENABLE_REPORT :: u8 where "PS2_CMD_ENABLE_REPORT = 0xF4"
definition PS2_ACK :: u8 where "PS2_ACK = 0xFA"

section \<open>Handshake\<close>

definition i8042_read_aux_data :: "pio \<Rightarrow> u8 option \<times> pio" where
  "i8042_read_aux_data h =
     (case i8042_wait_aux_read I8042_WAIT_LOOPS h of
        (False, h) \<Rightarrow> (None, h)
      | (True, h) \<Rightarrow> (let (v, h) = x86_inb I8042_DATA_PORT h in (Some v, h)))"

definition i8042_read_mouse_reply :: "pio \<Rightarrow> u8 option \<times> pio" where
  "i8042_read_mouse_reply h =
     (case i8042_read_aux_data h of
        (Some v, h) \<Rightarrow> (Some v, h)
      | (None, h) \<Rightarrow> i8042_read_data I8042_WAIT_LOOPS h)"

definition aux_send :: "u8 \<Rightarrow> pio \<Rightarrow> u8 option \<times> pio" where
  "aux_send v h =
     (case i8042_write_cmd I8042_WAIT_LOOPS I8042_CMD_AUX_WRITE h of
        (False, h) \<Rightarrow> (None, h)
      | (True, h) \<Rightarrow>
          (case i8042_write_data I8042_WAIT_LOOPS v h of
             (False, h) \<Rightarrow> (None, h)
           | (True, h) \<Rightarrow> i8042_read_mouse_reply h))"

definition ps2_mouse_write :: "u8 \<Rightarrow> pio \<Rightarrow> bool \<times> pio" where
  "ps2_mouse_write v h = (let (ack, h) = aux_send v h in (ack = Some PS2_ACK, h))"

definition ps2_mouse_set_rate :: "u8 \<Rightarrow> pio \<Rightarrow> bool \<times> pio" where
  "ps2_mouse_set_rate v h =
     (case ps2_mouse_write PS2_CMD_SET_SAMPLE_RATE h of
        (False, h) \<Rightarrow> (False, h)
      | (True, h) \<Rightarrow> ps2_mouse_write v h)"

definition ps2_mouse_get_id :: "pio \<Rightarrow> u8 option \<times> pio" where
  "ps2_mouse_get_id h =
     (let (ack, h) = aux_send PS2_CMD_GET_DEVICE_ID h
      in if ack \<noteq> Some PS2_ACK then (None, h) else i8042_read_mouse_reply h)"

text \<open>The wheel knock: the conjunction of the source, evaluated from the left until one fails.\<close>

fun set_rates :: "u8 list \<Rightarrow> pio \<Rightarrow> bool \<times> pio" where
  "set_rates [] h = (True, h)"
| "set_rates (v # vs) h =
     (case ps2_mouse_set_rate v h of (False, h) \<Rightarrow> (False, h) | (True, h) \<Rightarrow> set_rates vs h)"

definition wheel_knock :: "pio \<Rightarrow> bool \<times> pio" where
  "wheel_knock h =
     (case set_rates [200, 100, 80] h of
        (False, h) \<Rightarrow> (False, h)
      | (True, h) \<Rightarrow> (let (i, h) = ps2_mouse_get_id h in (i = Some 3 \<or> i = Some 4, h)))"

definition setup_cfg :: "pio \<Rightarrow> bool \<times> pio" where
  "setup_cfg h =
     (case i8042_read_cfg I8042_WAIT_LOOPS h of
        (None, h) \<Rightarrow> (False, h)
      | (Some cfg, h) \<Rightarrow>
          i8042_write_cfg I8042_WAIT_LOOPS ((cfg OR I8042_CFG_AUX_IRQ) AND NOT I8042_CFG_AUX_CLK_DISABLE) h)"

definition empty_evt :: mouse_evt where
  "empty_evt = \<lparr>me_x = 0, me_y = 0, me_button = MOUSE_BUTTON_NONE, me_state = MOUSE_STATE_MOVE\<rparr>"

definition mouse_init :: "mouse \<Rightarrow> bool \<times> mouse" where
  "mouse_init m =
     (let m = m\<lparr>mouse_data := replicate MOUSE_CACHE empty_evt\<rparr>;
          h = i8042_flush 64 (m_pio m);
          (have_cfg, h) = setup_cfg h
      in case i8042_write_cmd I8042_WAIT_LOOPS I8042_CMD_ENABLE_AUX h of
           (False, h) \<Rightarrow> (False, m\<lparr>m_pio := h\<rparr>)
         | (True, h) \<Rightarrow>
             (case ps2_mouse_write PS2_CMD_SET_DEFAULT h of
                (False, h) \<Rightarrow> (False, m\<lparr>m_pio := h\<rparr>)
              | (True, h) \<Rightarrow>
                  let (wheel, h) = wheel_knock h;
                      m = m\<lparr>packet_size := (if wheel then 4 else 3)\<rparr>
                  in case ps2_mouse_write PS2_CMD_ENABLE_REPORT h of
                       (False, h) \<Rightarrow> (False, m\<lparr>m_pio := h\<rparr>)
                     | (True, h) \<Rightarrow> (True, m\<lparr>polling_mode := \<not> have_cfg, m_pio := i8042_flush 64 h\<rparr>)))"

section \<open>Events\<close>

definition mouse_enqueue :: "mouse_evt \<Rightarrow> mouse \<Rightarrow> mouse" where
  "mouse_enqueue evt m =
     (let w = (mouse_w m + 1) mod MOUSE_CACHE;
          m = m\<lparr>mouse_data := (mouse_data m)[mouse_w m := evt], mouse_w := w\<rparr>;
          m = (if w = mouse_r m then m\<lparr>mouse_r := (mouse_r m + 1) mod MOUSE_CACHE\<rparr> else m)
      in m\<lparr>m_wakeup := True\<rparr>)"

definition mouse_wheel_delta :: "u8 \<Rightarrow> int" where
  "mouse_wheel_delta v =
     (let wheel = v AND 0x0F; wheel = (if wheel AND 0x08 \<noteq> 0 then wheel OR 0xF0 else wheel)
      in sint wheel)"

definition mouse_button_from_mask :: "u8 \<Rightarrow> mouse_button" where
  "mouse_button_from_mask msk =
     (if msk = 0x1 then MOUSE_BUTTON_LEFT
      else if msk = 0x2 then MOUSE_BUTTON_RIGHT
      else if msk = 0x4 then MOUSE_BUTTON_MID
      else MOUSE_BUTTON_NONE)"

definition wheel_events :: "mouse_evt \<Rightarrow> mouse \<Rightarrow> mouse" where
  "wheel_events evt m =
     (if packet_size m = 4 then
        (let wheel = mouse_wheel_delta (packet m ! 3)
         in if wheel > 0 then mouse_enqueue (evt\<lparr>me_button := MOUSE_BUTTON_SCROLL_UP\<rparr>) m
            else if wheel < 0 then mouse_enqueue (evt\<lparr>me_button := MOUSE_BUTTON_SCROLL_DOWN\<rparr>) m
            else m)
      else m)"

definition mouse_handle_packet :: "mouse \<Rightarrow> mouse" where
  "mouse_handle_packet m =
     (if packet m ! 0 AND 0xC0 \<noteq> 0 then m
      else
        let evt = \<lparr>me_x = sint (packet m ! 1), me_y = - sint (packet m ! 2),
                   me_button = MOUSE_BUTTON_NONE, me_state = MOUSE_STATE_MOVE\<rparr>;
            buttons = packet m ! 0 AND 0x07;
            changed = buttons XOR button_state m;
            m = m\<lparr>button_state := buttons\<rparr>;
            m = wheel_events evt m
        in if changed \<noteq> 0 then
             (let msk = changed AND 0x1;
                  msk = (if msk = 0 then changed AND 0x2 else msk);
                  msk = (if msk = 0 then changed AND 0x4 else msk)
              in mouse_enqueue (evt\<lparr>me_button := mouse_button_from_mask msk,
                   me_state := (if buttons AND msk \<noteq> 0 then MOUSE_STATE_DOWN else MOUSE_STATE_UP)\<rparr>) m)
           else if me_x evt \<noteq> 0 \<or> me_y evt \<noteq> 0 then mouse_enqueue evt m
           else m)"

definition mouse_process_byte :: "u8 \<Rightarrow> mouse \<Rightarrow> mouse" where
  "mouse_process_byte v m =
     (if packet_index m = 0 \<and> v AND 0x08 = 0 then m
      else
        let m = m\<lparr>packet := (packet m)[packet_index m := v], packet_index := packet_index m + 1\<rparr>
        in if packet_index m \<ge> packet_size m then mouse_handle_packet (m\<lparr>packet_index := 0\<rparr>) else m)"

definition aux_ready :: "u8 \<Rightarrow> bool" where
  "aux_ready status \<longleftrightarrow>
     status AND (I8042_STATUS_OBF OR I8042_STATUS_AUX) = (I8042_STATUS_OBF OR I8042_STATUS_AUX)"

definition take_byte :: "mouse \<Rightarrow> mouse" where
  "take_byte m = (let (v, h) = x86_inb I8042_DATA_PORT (m_pio m) in mouse_process_byte v (m\<lparr>m_pio := h\<rparr>))"

fun poll_bytes :: "nat \<Rightarrow> mouse \<Rightarrow> mouse" where
  "poll_bytes 0 m = m"
| "poll_bytes (Suc n) m =
     (let (status, h) = x86_inb I8042_STATUS_PORT (m_pio m); m = m\<lparr>m_pio := h\<rparr>
      in if \<not> aux_ready status then m else poll_bytes n (take_byte m))"

definition mouse_poll_input :: "mouse \<Rightarrow> mouse" where
  "mouse_poll_input m = poll_bytes 32 m"

definition mouse_interrupt_handle :: "mouse \<Rightarrow> mouse" where
  "mouse_interrupt_handle m =
     (let (status, h) = x86_inb I8042_STATUS_PORT (m_pio m); m = m\<lparr>m_pio := h\<rparr>
      in if status AND I8042_STATUS_OBF = 0 \<or> status AND I8042_STATUS_AUX = 0 then m else take_byte m)"

definition moused_read :: "mouse \<Rightarrow> mouse_evt option \<times> mouse" where
  "moused_read m =
     (if mouse_r m = mouse_w m then (None, m)
      else (Some (mouse_data m ! mouse_r m), m\<lparr>mouse_r := (mouse_r m + 1) mod MOUSE_CACHE\<rparr>))"

definition mouse_loop :: "mouse \<Rightarrow> bool \<times> mouse" where
  "mouse_loop m =
     (let m = (if polling_mode m then mouse_poll_input m else m)
      in (m_wakeup m, m\<lparr>m_wakeup := False\<rparr>))"

end
