(* ===== verification/Ps2_Mouse_Props.thy ===== *)
theory Ps2_Mouse_Props
  imports Ps2_Mouse
begin

text \<open>
  Properties of the PS/2 mouse daemon: the event ring keeps the newest 63 events in order, the state
  stays within its arrays whatever the controller sends, and packets become the events they encode.
\<close>

section \<open>Invariant\<close>

definition mouse_inv :: "mouse \<Rightarrow> bool" where
  "mouse_inv m \<longleftrightarrow> length (mouse_data m) = 64 \<and> mouse_r m < 64 \<and> mouse_w m < 64 \<and> length (packet m) = 4 \<and>
     (packet_size m = 3 \<or> packet_size m = 4) \<and> packet_index m < packet_size m"

definition mouse_contents :: "mouse \<Rightarrow> mouse_evt list" where
  "mouse_contents m = ring_list 64 (mouse_data m) (mouse_r m) (ring_count 64 (mouse_w m) (mouse_r m))"

definition mouse_pop :: "mouse \<Rightarrow> (mouse_evt \<times> mouse) option" where
  "mouse_pop m = (case moused_read m of (Some e, m') \<Rightarrow> Some (e, m') | (None, _) \<Rightarrow> None)"

lemma enqueue_inv: "mouse_inv m \<Longrightarrow> mouse_inv (mouse_enqueue e m)"
  by (auto simp: mouse_inv_def mouse_enqueue_def MOUSE_CACHE_def Let_def)

lemma enqueue_frame [simp]:
  "packet (mouse_enqueue e m) = packet m" "packet_size (mouse_enqueue e m) = packet_size m"
  "packet_index (mouse_enqueue e m) = packet_index m" "button_state (mouse_enqueue e m) = button_state m"
  "polling_mode (mouse_enqueue e m) = polling_mode m" "m_pio (mouse_enqueue e m) = m_pio m"
  by (simp_all add: mouse_enqueue_def Let_def)

lemma contents_cong: "mouse_data m' = mouse_data m \<Longrightarrow> mouse_r m' = mouse_r m \<Longrightarrow> mouse_w m' = mouse_w m \<Longrightarrow>
    mouse_contents m' = mouse_contents m"
  by (simp add: mouse_contents_def)

lemma contents_length: "length (mouse_contents m) = ring_count 64 (mouse_w m) (mouse_r m)"
  by (simp add: mouse_contents_def)

lemma enqueue_room:
  assumes "mouse_inv m" "length (mouse_contents m) < 63"
  shows "mouse_contents (mouse_enqueue e m) = mouse_contents m @ [e]"
proof -
  let ?n = "ring_count 64 (mouse_w m) (mouse_r m)"
  have i: "mouse_w m < 64" "mouse_r m < 64" "length (mouse_data m) = 64" using assms(1) by (auto simp: mouse_inv_def)
  have n: "?n < 63" using assms(2) by (simp add: contents_length)
  have ne: "(mouse_w m + 1) mod 64 \<noteq> mouse_r m"
  proof
    assume "(mouse_w m + 1) mod 64 = mouse_r m"
    then have "?n = 64 - 1" using i by (intro ring_count_full) auto
    with n show False by simp
  qed
  then have c: "ring_count 64 ((mouse_w m + 1) mod 64) (mouse_r m) = Suc ?n"
    using ring_count_push [of "mouse_w m" 64 "mouse_r m"] i by simp
  have h: "(mouse_r m + ?n) mod 64 = mouse_w m" using i by (intro ring_count_head) auto
  show ?thesis
    using ring_list_snoc [of ?n 64 "mouse_data m" "mouse_r m" e] ne c n i h
    by (simp add: mouse_contents_def mouse_enqueue_def MOUSE_CACHE_def Let_def)
qed

lemma read_cons:
  assumes "mouse_inv m" "mouse_r m \<noteq> mouse_w m"
  shows "mouse_contents m = mouse_data m ! mouse_r m #
    mouse_contents (m\<lparr>mouse_r := (mouse_r m + 1) mod MOUSE_CACHE\<rparr>)"
proof -
  let ?n = "ring_count 64 (mouse_w m) (mouse_r m)"
  have i: "mouse_w m < 64" "mouse_r m < 64" "length (mouse_data m) = 64" using assms(1) by (auto simp: mouse_inv_def)
  have c: "?n = Suc (ring_count 64 (mouse_w m) (Suc (mouse_r m) mod 64))"
    using i assms(2) by (intro ring_count_pop) auto
  have "ring_count 64 (mouse_w m) (mouse_r m) < 64" by (rule ring_count_less) simp
  then show ?thesis
    using ring_list_cons [of "mouse_r m" 64 "mouse_data m" "ring_count 64 (mouse_w m) (Suc (mouse_r m) mod 64)"] c i
    by (simp add: mouse_contents_def MOUSE_CACHE_def)
qed

lemma enqueue_full:
  assumes "mouse_inv m" "length (mouse_contents m) = 63"
  shows "mouse_contents (mouse_enqueue e m) = tl (mouse_contents m) @ [e]"
proof -
  have i: "mouse_w m < 64" "mouse_r m < 64" "length (mouse_data m) = 64" using assms(1) by (auto simp: mouse_inv_def)
  have w: "(mouse_w m + 1) mod 64 = mouse_r m"
  proof (rule ccontr)
    assume "(mouse_w m + 1) mod 64 \<noteq> mouse_r m"
    then have "ring_count 64 (mouse_w m) (mouse_r m) < 64 - 1" using i by (intro ring_count_not_full) auto
    with assms(2) show False by (simp add: contents_length)
  qed
  define m' where "m' = m\<lparr>mouse_r := (mouse_r m + 1) mod MOUSE_CACHE\<rparr>"
  have ne: "mouse_r m \<noteq> mouse_w m" using assms(2) i by (auto simp: contents_length ring_count_0_iff)
  have inv': "mouse_inv m'" using assms(1) by (simp add: m'_def mouse_inv_def MOUSE_CACHE_def)
  have tl: "tl (mouse_contents m) = mouse_contents m'" using read_cons [OF assms(1) ne] by (simp add: m'_def)
  have "length (mouse_contents m') = 62" using assms(2) tl by (simp flip: tl)
  then have "mouse_contents (mouse_enqueue e m') = mouse_contents m' @ [e]"
    using inv' by (intro enqueue_room) auto
  moreover have "mouse_contents (mouse_enqueue e m') = mouse_contents (mouse_enqueue e m)"
    using w i by (intro contents_cong) (auto simp: m'_def mouse_enqueue_def MOUSE_CACHE_def Let_def mod_if split: if_splits)
  ultimately show ?thesis by (simp add: tl)
qed

interpretation mouse_ring: overwrite_fifo mouse_pop mouse_contents mouse_inv mouse_enqueue 63
proof unfold_locales
  fix m assume i: "mouse_inv m"
  { assume "mouse_contents m = []"
    then have "ring_count 64 (mouse_w m) (mouse_r m) = 0" using contents_length [of m] by simp
    then show "mouse_pop m = None"
      using i by (simp add: mouse_inv_def ring_count_0_iff mouse_pop_def moused_read_def) }
  { fix x xs assume c: "mouse_contents m = x # xs"
    then have ne: "mouse_r m \<noteq> mouse_w m"
      using i contents_length [of m] by (auto simp: mouse_inv_def ring_count_0_iff)
    with c i read_cons [OF i ne]
    show "\<exists>q'. mouse_pop m = Some (x, q') \<and> mouse_contents q' = xs \<and> mouse_inv q'"
      by (simp add: mouse_pop_def moused_read_def mouse_inv_def MOUSE_CACHE_def) }
  show "length (mouse_contents m) \<le> 63"
    using ring_count_less [of 64 "mouse_w m" "mouse_r m"] by (simp add: contents_length)
qed (simp_all add: enqueue_room enqueue_full enqueue_inv)

section \<open>Every input keeps the invariant\<close>

lemma inv_field_updates [simp]:
  "mouse_inv (m\<lparr>m_pio := h\<rparr>) = mouse_inv m" "mouse_inv (m\<lparr>button_state := b\<rparr>) = mouse_inv m"
  "mouse_inv (m\<lparr>m_wakeup := k\<rparr>) = mouse_inv m" "mouse_inv (m\<lparr>polling_mode := k\<rparr>) = mouse_inv m"
  by (simp_all add: mouse_inv_def)

lemma wheel_events_inv: "mouse_inv m \<Longrightarrow> mouse_inv (wheel_events e m)"
  by (simp add: wheel_events_def Let_def enqueue_inv)

lemma handle_packet_inv: "mouse_inv m \<Longrightarrow> mouse_inv (mouse_handle_packet m)"
  unfolding mouse_handle_packet_def Let_def
  by (auto intro!: enqueue_inv wheel_events_inv)

lemma process_byte_inv:
  assumes "mouse_inv m"
  shows "mouse_inv (mouse_process_byte v m)"
proof -
  let ?m = "m\<lparr>packet := (packet m)[packet_index m := v], packet_index := packet_index m + 1\<rparr>"
  have "mouse_inv (?m\<lparr>packet_index := 0\<rparr>)" "packet_index ?m < packet_size ?m \<Longrightarrow> mouse_inv ?m"
    using assms by (auto simp: mouse_inv_def)
  with assms show ?thesis
    by (auto simp: mouse_process_byte_def Let_def not_le intro!: handle_packet_inv)
qed

lemma take_byte_inv: "mouse_inv m \<Longrightarrow> mouse_inv (take_byte m)"
  by (simp add: take_byte_def split_beta process_byte_inv)

lemma poll_bytes_inv: "mouse_inv m \<Longrightarrow> mouse_inv (poll_bytes n m)"
  by (induction n arbitrary: m) (simp_all add: Let_def split_beta take_byte_inv)

lemma mouse_init_inv:
  assumes "mouse_init m = (True, m')" "length (packet m) = 4" "mouse_r m < 64" "mouse_w m < 64" "packet_index m = 0"
  shows "mouse_inv m'"
  using assms
  by (auto simp: mouse_init_def mouse_inv_def MOUSE_CACHE_def Let_def split: prod.splits bool.splits)

lemma interrupt_inv: "mouse_inv m \<Longrightarrow> mouse_inv (mouse_interrupt_handle m)"
  by (simp add: mouse_interrupt_handle_def Let_def split_beta take_byte_inv)

lemma loop_inv: "mouse_inv m \<Longrightarrow> mouse_inv (snd (mouse_loop m))"
  by (simp add: mouse_loop_def mouse_poll_input_def Let_def poll_bytes_inv)

lemma read_inv: "mouse_inv m \<Longrightarrow> mouse_inv (snd (moused_read m))"
  by (simp add: moused_read_def mouse_inv_def MOUSE_CACHE_def)

text \<open>
  The static state before \<open>mouse_init\<close>, and the steps: an interrupt, a turn of the device loop and a
  client read. Before each the controller may present any bytes.
\<close>

definition mouse_start :: "pio \<Rightarrow> mouse" where
  "mouse_start h = \<lparr>mouse_data = replicate 64 empty_evt, mouse_r = 0, mouse_w = 0, packet = [0, 0, 0, 0],
     packet_index = 0, packet_size = 3, button_state = 0, m_wakeup = False, polling_mode = False, m_pio = h\<rparr>"

inductive mouse_step :: "mouse \<Rightarrow> mouse \<Rightarrow> bool" where
  step_irq: "mouse_step m (mouse_interrupt_handle (m\<lparr>m_pio := h\<rparr>))"
| step_loop: "mouse_step m (snd (mouse_loop (m\<lparr>m_pio := h\<rparr>)))"
| step_read: "mouse_step m (snd (moused_read m))"

inductive_cases mouse_stepE: "mouse_step m m'"

lemma mouse_step_inv: "mouse_inv m \<Longrightarrow> mouse_step m m' \<Longrightarrow> mouse_inv m'"
  by (erule mouse_stepE) (simp_all add: interrupt_inv loop_inv read_inv)

interpretation mouse_sys: transition_system "\<lambda>m. \<exists>h. mouse_init (mouse_start h) = (True, m)" mouse_step mouse_inv
proof unfold_locales
  fix m assume "\<exists>h. mouse_init (mouse_start h) = (True, m)"
  then obtain h where "mouse_init (mouse_start h) = (True, m)" ..
  then show "mouse_inv m" by (rule mouse_init_inv) (simp_all add: mouse_start_def)
qed (rule mouse_step_inv)

text \<open>
  C17. After a successful handshake, whatever bytes and interrupts arrive and however clients read, the
  daemon stays inside its arrays: the packet index is below the packet size (three or four), both
  ring indices are below 64, and at most 63 events are pending.
\<close>

theorem mouse_reachable_safe:
  assumes "mouse_init (mouse_start h) = (True, m)" "mouse_step\<^sup>*\<^sup>* m m'"
  shows "packet_index m' < packet_size m' \<and> packet_size m' \<le> length (packet m') \<and>
    mouse_r m' < length (mouse_data m') \<and> mouse_w m' < length (mouse_data m') \<and> length (mouse_contents m') \<le> 63"
proof -
  have i: "mouse_inv m'" using mouse_sys.inv_reachable assms by blast
  then show ?thesis using mouse_ring.ow_bounded [OF i] by (auto simp: mouse_inv_def)
qed

text \<open>
  The ring never blocks the producer and never reorders: after a burst of events a reader finds
  the newest 63 of what was pending and what arrived, oldest first.
\<close>

theorem mouse_keeps_newest:
  assumes "mouse_inv m"
  shows "mouse_contents (fold mouse_enqueue es m) =
    drop (length (mouse_contents m) + length es - 63) (mouse_contents m @ es)"
  using mouse_ring.fold_push_newest [OF assms] by blast

section \<open>Packets\<close>

lemma sint_word_id: "- 128 \<le> i \<Longrightarrow> i \<le> 127 \<Longrightarrow> sint (word_of_int i :: u8) = i"
  by (simp add: sint_sbintrunc' signed_take_bit_int_eq_self)

lemma process_first:
  "packet_index m = 0 \<Longrightarrow> packet_size m = 3 \<Longrightarrow> v AND 0x08 \<noteq> 0 \<Longrightarrow>
     mouse_process_byte v m = m\<lparr>packet := (packet m)[0 := v], packet_index := 1\<rparr>"
  by (simp add: mouse_process_byte_def Let_def)

lemma process_packet3:
  assumes "mouse_inv m" "packet_index m = 0" "packet_size m = 3" "b0 AND 0x08 \<noteq> 0"
  shows "fold mouse_process_byte [b0, b1, b2] m =
    mouse_handle_packet (m\<lparr>packet := [b0, b1, b2, packet m ! 3], packet_index := 0\<rparr>)"
proof -
  obtain p0 p1 p2 p3 where p: "packet m = [p0, p1, p2, p3]"
    using assms(1) by (auto simp: mouse_inv_def length_Suc_conv numeral_eq_Suc)
  show ?thesis
    using assms(2-4) by (simp add: mouse_process_byte_def Let_def p numeral_2_eq_2 numeral_3_eq_3)
qed

text \<open>The three bytes a mouse sends for a movement with the given buttons held.\<close>

definition move_packet :: "u8 \<Rightarrow> int \<Rightarrow> int \<Rightarrow> u8 list" where
  "move_packet buttons dx dy =
     [0x08 OR (buttons AND 0x07) OR (if dx < 0 then 0x10 else 0) OR (if dy < 0 then 0x20 else 0),
      word_of_int dx, word_of_int dy]"

lemma low3_cases:
  obtains "(b :: u8) AND 0x07 = 0" | "b AND 0x07 = 1" | "b AND 0x07 = 2" | "b AND 0x07 = 3"
    | "b AND 0x07 = 4" | "b AND 0x07 = 5" | "b AND 0x07 = 6" | "b AND 0x07 = 7"
proof -
  have "b AND 0x07 = take_bit 3 b" by (simp add: take_bit_eq_mask mask_eq_exp_minus_1)
  then have "unat (b AND 0x07) = unat b mod 8"
    by (simp only: unsigned_take_bit_eq) (simp add: take_bit_eq_mod)
  then have "unat (b AND 0x07) < 8" by simp
  then have "unat (b AND 0x07) \<in> {0, 1, 2, 3, 4, 5, 6, 7}" by auto
  then have "b AND 0x07 \<in> {0, 1, 2, 3, 4, 5, 6, 7}"
    by (auto simp: word_unat_eq_iff)
  with that show ?thesis by blast
qed

lemma head_bits:
  fixes b :: u8 and p q :: bool
  defines "h \<equiv> 0x08 OR (b AND 0x07) OR (if p then 0x10 else 0) OR (if q then 0x20 else 0)"
  shows "h AND 0x08 \<noteq> 0" "h AND 0xC0 = 0" "h AND 0x07 = b AND 0x07"
  unfolding h_def by (cases rule: low3_cases [of b]; cases p; cases q; simp)+

text \<open>
  A movement comes through unchanged: when a mouse with unchanged buttons reports a displacement
  of at most 127 in each direction, the daemon queues one motion event with that displacement, the
  vertical axis turned to screen orientation.
\<close>

theorem mouse_move_roundtrip:
  assumes "mouse_inv m" "packet_index m = 0" "packet_size m = 3" "buttons AND 0x07 = button_state m"
    "\<bar>dx\<bar> \<le> 127" "\<bar>dy\<bar> \<le> 127" "dx \<noteq> 0 \<or> dy \<noteq> 0" "length (mouse_contents m) < 63"
  shows "mouse_contents (fold mouse_process_byte (move_packet buttons dx dy) m) = mouse_contents m @
    [\<lparr>me_x = dx, me_y = - dy, me_button = MOUSE_BUTTON_NONE, me_state = MOUSE_STATE_MOVE\<rparr>]"
proof -
  let ?b0 = "0x08 OR (buttons AND 0x07) OR (if dx < 0 then 0x10 else 0) OR (if dy < 0 then 0x20 else (0::u8))"
  define p where "p = [?b0, word_of_int dx, word_of_int dy, packet m ! 3]"
  define m1 where "m1 = m\<lparr>packet := p, packet_index := 0\<rparr>"
  define m2 where "m2 = m1\<lparr>button_state := button_state m\<rparr>"
  let ?e = "\<lparr>me_x = dx, me_y = - dy, me_button = MOUSE_BUTTON_NONE, me_state = MOUSE_STATE_MOVE\<rparr>"
  have "fold mouse_process_byte (move_packet buttons dx dy) m = mouse_handle_packet m1"
    unfolding move_packet_def m1_def p_def
    by (rule process_packet3 [OF assms(1-3) head_bits(1)])
  moreover have "mouse_handle_packet m1 = mouse_enqueue ?e m2"
  proof -
    have pm: "packet m1 = p" by (simp add: m1_def)
    have "sint (word_of_int dx :: u8) = dx" "sint (word_of_int dy :: u8) = dy"
      using assms(5,6) by (auto intro!: sint_word_id)
    moreover have "packet_size m1 = 3" "button_state m1 = button_state m" using assms(3) by (simp_all add: m1_def)
    moreover have "packet m1 ! 0 AND 0xC0 = 0" "packet m1 ! 0 AND 0x07 = buttons AND 0x07"
      using head_bits(2,3) [where b = buttons] by (simp_all only: pm p_def nth_Cons_0)
    moreover have "packet m1 ! 1 = word_of_int dx" "packet m1 ! 2 = word_of_int dy"
      by (simp_all add: pm p_def)
    ultimately show ?thesis
      using assms(4,7) unfolding mouse_handle_packet_def m2_def
      by (simp add: Let_def wheel_events_def)
  qed
  moreover have "mouse_inv m2" "mouse_contents m2 = mouse_contents m"
    using assms(1-3) by (auto simp: m2_def m1_def p_def mouse_inv_def intro!: contents_cong)
  ultimately show ?thesis using assms(8) by (simp add: enqueue_room)
qed

text \<open>
  A packet in which two buttons change reports only one of them, and the other change is never
  reported later: after left and right are pressed together the queue holds the left press alone,
  and a further packet with both buttons held adds nothing.
\<close>

theorem mouse_button_lost:
  assumes "mouse_inv m" "packet_index m = 0" "packet_size m = 3" "button_state m = 0" "length (mouse_contents m) < 63"
  shows "mouse_contents (fold mouse_process_byte (move_packet 3 0 0) m) = mouse_contents m @
      [\<lparr>me_x = 0, me_y = 0, me_button = MOUSE_BUTTON_LEFT, me_state = MOUSE_STATE_DOWN\<rparr>] \<and>
    mouse_contents (fold mouse_process_byte (move_packet 3 0 0 @ move_packet 3 0 0) m) =
      mouse_contents (fold mouse_process_byte (move_packet 3 0 0) m)"
proof -
  let ?e = "\<lparr>me_x = 0, me_y = 0, me_button = MOUSE_BUTTON_LEFT, me_state = MOUSE_STATE_DOWN\<rparr>"
  define m1 where "m1 = m\<lparr>packet := [0x0B, 0, 0, packet m ! 3], packet_index := 0, button_state := 3\<rparr>"
  define m2 where "m2 = mouse_enqueue ?e m1"
  have pk: "move_packet 3 0 0 = [0x0B, 0, 0]" by (simp add: move_packet_def)
  have f: "fold mouse_process_byte [0x0B, 0, 0] k =
      mouse_handle_packet (k\<lparr>packet := [0x0B, 0, 0, packet k ! 3], packet_index := 0\<rparr>)"
    if "mouse_inv k" "packet_index k = 0" "packet_size k = 3" for k
    using that by (intro process_packet3) simp_all
  have one: "fold mouse_process_byte (move_packet 3 0 0) m = m2"
    using assms(3,4) by (simp add: pk f [OF assms(1-3)] mouse_handle_packet_def Let_def wheel_events_def
        mouse_button_from_mask_def m2_def m1_def del: fold.simps)
  have inv1: "mouse_inv m1" "mouse_contents m1 = mouse_contents m"
    using assms(1,3) by (auto simp: m1_def mouse_inv_def intro!: contents_cong)
  then have inv2: "mouse_inv m2" "packet_index m2 = 0" "packet_size m2 = 3" "button_state m2 = 3"
    using assms(3) by (simp_all add: m2_def enqueue_inv m1_def)
  have "fold mouse_process_byte [0x0B, 0, 0] m2 =
      m2\<lparr>packet := [0x0B, 0, 0, packet m2 ! 3], packet_index := 0, button_state := 3\<rparr>"
    using inv2(3,4) by (simp add: f [OF inv2(1-3)] mouse_handle_packet_def Let_def wheel_events_def del: fold.simps)
  then have "mouse_contents (fold mouse_process_byte [0x0B, 0, 0] m2) = mouse_contents m2"
    by (simp add: mouse_contents_def del: fold.simps)
  moreover have "mouse_contents m2 = mouse_contents m @ [?e]"
    unfolding m2_def using inv1 assms(5) by (subst enqueue_room) simp_all
  ultimately show ?thesis by (simp only: fold_append o_apply one) (simp add: pk del: fold.simps)
qed

section \<open>Witnesses\<close>

definition demo_mouse :: mouse where
  "demo_mouse = mouse_start \<lparr>pio_in = [], pio_out = []\<rparr>"

lemma demo_mouse_facts:
  "mouse_inv demo_mouse" "packet_index demo_mouse = 0" "packet_size demo_mouse = 3" "button_state demo_mouse = 0"
  "mouse_contents demo_mouse = []"
  by (simp_all add: demo_mouse_def mouse_start_def mouse_inv_def mouse_contents_def)

theorem mouse_keeps_newest_witness:
  "mouse_contents (fold mouse_enqueue (replicate 100 empty_evt) demo_mouse) = replicate 63 empty_evt"
  using mouse_keeps_newest [OF demo_mouse_facts(1), of "replicate 100 empty_evt"]
  by (simp add: demo_mouse_facts)

theorem mouse_move_roundtrip_witness:
  "mouse_contents (fold mouse_process_byte (move_packet 0 (- 5) 12) demo_mouse) =
    [\<lparr>me_x = - 5, me_y = - 12, me_button = MOUSE_BUTTON_NONE, me_state = MOUSE_STATE_MOVE\<rparr>]"
  using mouse_move_roundtrip [of demo_mouse 0 "- 5" 12] by (simp add: demo_mouse_facts del: fold.simps)

theorem mouse_button_lost_witness:
  "mouse_contents (fold mouse_process_byte (move_packet 3 0 0) demo_mouse) =
    [\<lparr>me_x = 0, me_y = 0, me_button = MOUSE_BUTTON_LEFT, me_state = MOUSE_STATE_DOWN\<rparr>]"
  using mouse_button_lost [of demo_mouse] by (simp add: demo_mouse_facts del: fold.simps)

text \<open>A controller and a wheel mouse that answer every command.\<close>

definition demo_answers :: "u8 list" where
  "demo_answers = [0, 0, 1, 0x47, 0, 0, 0, 0, 0, 0x21, 0xFA] @
     [0, 0, 0x21, 0xFA, 0, 0, 0x21, 0xFA, 0, 0, 0x21, 0xFA, 0, 0, 0x21, 0xFA, 0, 0, 0x21, 0xFA, 0, 0, 0x21, 0xFA] @
     [0, 0, 0x21, 0xFA, 0x21, 3] @ [0, 0, 0x21, 0xFA]"

lemma wait_numeral:
  "i8042_wait_write (numeral k) h = (let (status, h) = x86_inb I8042_STATUS_PORT h
      in if status AND I8042_STATUS_IBF = 0 then (True, h) else i8042_wait_write (pred_numeral k) h)"
  "i8042_wait_read (numeral k) h = (let (status, h) = x86_inb I8042_STATUS_PORT h
      in if status AND I8042_STATUS_OBF \<noteq> 0 then (True, h) else i8042_wait_read (pred_numeral k) h)"
  "i8042_wait_aux_read (numeral k) h = (let (status, h) = x86_inb I8042_STATUS_PORT h
      in if status AND (I8042_STATUS_OBF OR I8042_STATUS_AUX) = (I8042_STATUS_OBF OR I8042_STATUS_AUX)
         then (True, h) else i8042_wait_aux_read (pred_numeral k) h)"
  "i8042_flush (numeral k) h = (let (status, h) = x86_inb I8042_STATUS_PORT h
      in if status AND I8042_STATUS_OBF = 0 then h
         else i8042_flush (pred_numeral k) (snd (x86_inb I8042_DATA_PORT h)))"
  by (simp_all add: numeral_eq_Suc)

definition demo_started :: mouse where
  "demo_started = snd (mouse_init (mouse_start \<lparr>pio_in = demo_answers, pio_out = []\<rparr>))"

lemma demo_init: "mouse_init (mouse_start \<lparr>pio_in = demo_answers, pio_out = []\<rparr>) = (True, demo_started)"
  unfolding demo_started_def mouse_init_def mouse_start_def demo_answers_def
  by (simp add: Let_def wait_numeral x86_inb_def x86_outb_def i8042_consts setup_cfg_def i8042_read_cfg_def
      i8042_write_cfg_def i8042_write_cmd_def i8042_write_data_def i8042_read_data_def I8042_WAIT_LOOPS_def
      ps2_mouse_write_def aux_send_def i8042_read_mouse_reply_def i8042_read_aux_data_def PS2_ACK_def
      wheel_knock_def ps2_mouse_set_rate_def ps2_mouse_get_id_def)

theorem mouse_reachable_safe_witness:
  "packet_index (mouse_interrupt_handle (demo_started\<lparr>m_pio := \<lparr>pio_in = [0x21, 0x09], pio_out = []\<rparr>\<rparr>)) <
   packet_size (mouse_interrupt_handle (demo_started\<lparr>m_pio := \<lparr>pio_in = [0x21, 0x09], pio_out = []\<rparr>\<rparr>))"
  using mouse_reachable_safe [OF demo_init r_into_rtranclp [where r = mouse_step, OF step_irq [of demo_started]]]
  by blast

end
