(* ===== verification/Ps2_Keyboard.thy ===== *)
theory Ps2_Keyboard
  imports Ps2_Controller
begin

text \<open>
  The PS/2 keyboard daemon (\<^verbatim>\<open>src/x86/system/drivers/ps2keybd/keybd.c\<close> with \<^verbatim>\<open>keymap.h\<close>): controller setup,
  translation of scan codes and the list of held keys that clients read.

  The key codes of the special keys come from the shared header \<^verbatim>\<open>keydef.h\<close>, which is not part of this
  repository; they are a record argument. Where the source returns a retry code the model returns
  \<open>None\<close>.
\<close>

section \<open>State and key map\<close>

record keydefs =
  KEY_ESC :: u8
  KEY_BACKSPACE :: u8
  KEY_TAB :: u8
  KEY_ENTER :: u8
  KEY_CTRL :: u8
  KEY_LSHIFT :: u8
  KEY_RSHIFT :: u8
  KEY_SPACE :: u8
  KEY_HOME :: u8
  KEY_UP :: u8
  KEY_LEFT :: u8
  KEY_RIGHT :: u8
  KEY_END :: u8
  KEY_DOWN :: u8

record keybd =
  key_count :: nat
  key_code :: "u8 list"
  kb_extended :: bool
  kb_wakeup :: bool
  kb_pio :: pio

definition KBD_WAIT_LOOPS :: nat where "KBD_WAIT_LOOPS = 100000"
definition MAX_KEY :: nat where "MAX_KEY = 6"
definition I8042_CMD_ENABLE_KBD :: u8 where "I8042_CMD_ENABLE_KBD = 0xAE"
definition I8042_CFG_KBD_IRQ :: u8 where "I8042_CFG_KBD_IRQ = 0x01"
definition I8042_CFG_KBD_CLK_DISABLE :: u8 where "I8042_CFG_KBD_CLK_DISABLE = 0x10"
definition KBD_CMD_SET_DEFAULT :: u8 where "KBD_CMD_SET_DEFAULT = 0xF6"
definition KBD_CMD_ENABLE_SCAN :: u8 where "KBD_CMD_ENABLE_SCAN = 0xF4"
definition KBD_ACK :: u8 where "KBD_ACK = 0xFA"

abbreviation ch :: "char \<Rightarrow> u8" where
  "ch c \<equiv> of_char c"

definition keymap :: "keydefs \<Rightarrow> u8 list" where
  "keymap k =
     [0, KEY_ESC k, ch CHR ''1'', ch CHR ''2'', ch CHR ''3'', ch CHR ''4'', ch CHR ''5'', ch CHR ''6'',
      ch CHR ''7'', ch CHR ''8'', ch CHR ''9'', ch CHR ''0'', ch CHR ''-'', ch CHR ''='', KEY_BACKSPACE k, KEY_TAB k,
      ch CHR ''q'', ch CHR ''w'', ch CHR ''e'', ch CHR ''r'', ch CHR ''t'', ch CHR ''y'', ch CHR ''u'', ch CHR ''i'',
      ch CHR ''o'', ch CHR ''p'', ch CHR ''['', ch CHR '']'', KEY_ENTER k, KEY_CTRL k, ch CHR ''a'', ch CHR ''s'',
      ch CHR ''d'', ch CHR ''f'', ch CHR ''g'', ch CHR ''h'', ch CHR ''j'', ch CHR ''k'', ch CHR ''l'', ch CHR '';'',
      0x27, 0x60, KEY_LSHIFT k, 0x5C, ch CHR ''z'', ch CHR ''x'', ch CHR ''c'', ch CHR ''v'',
      ch CHR ''b'', ch CHR ''n'', ch CHR ''m'', ch CHR '','', ch CHR ''.'', ch CHR ''/'', KEY_RSHIFT k, 0,
      0, KEY_SPACE k, 0, 0, 0, 0, 0, 0] @
     replicate 16 0 @
     [0, 0, 0, 0, 0, 0, ch CHR ''<'', 0, 0, 0, 0, 0, 0, 0, 0, 0,
      KEY_ENTER k, KEY_CTRL k, ch CHR ''/'', 0, 0, 0, KEY_HOME k, KEY_UP k, 0, KEY_LEFT k, KEY_RIGHT k, KEY_END k,
      KEY_DOWN k, 0, 0, 0] @
     replicate 16 0"

section \<open>Controller setup\<close>

definition kbd_write_cmd :: "u8 \<Rightarrow> pio \<Rightarrow> bool \<times> pio" where
  "kbd_write_cmd v h = i8042_write_cmd KBD_WAIT_LOOPS v h"

definition kbd_write_data :: "u8 \<Rightarrow> pio \<Rightarrow> bool \<times> pio" where
  "kbd_write_data v h = i8042_write_data KBD_WAIT_LOOPS v h"

definition kbd_read_data :: "pio \<Rightarrow> u8 option \<times> pio" where
  "kbd_read_data h = i8042_read_data KBD_WAIT_LOOPS h"

definition kbd_read_cfg :: "pio \<Rightarrow> u8 option \<times> pio" where
  "kbd_read_cfg h = i8042_read_cfg KBD_WAIT_LOOPS h"

definition kbd_write_cfg :: "u8 \<Rightarrow> pio \<Rightarrow> bool \<times> pio" where
  "kbd_write_cfg v h = i8042_write_cfg KBD_WAIT_LOOPS v h"

definition keybd_write :: "u8 \<Rightarrow> pio \<Rightarrow> bool \<times> pio" where
  "keybd_write v h =
     (case kbd_write_data v h of
        (False, h) \<Rightarrow> (False, h)
      | (True, h) \<Rightarrow> (let (ack, h) = kbd_read_data h in (ack = Some KBD_ACK, h)))"

text \<open>The controller dialogue of \<open>keybd_init\<close>, stopping at the first step that fails.\<close>

definition kbd_setup :: "pio \<Rightarrow> bool \<times> pio" where
  "kbd_setup h =
     (case kbd_read_cfg (i8042_flush 32 h) of
        (None, h) \<Rightarrow> (False, h)
      | (Some cfg, h) \<Rightarrow>
          (case kbd_write_cfg ((cfg OR I8042_CFG_KBD_IRQ) AND NOT I8042_CFG_KBD_CLK_DISABLE) h of
             (False, h) \<Rightarrow> (False, h)
           | (True, h) \<Rightarrow>
               (case kbd_write_cmd I8042_CMD_ENABLE_KBD h of
                  (False, h) \<Rightarrow> (False, h)
                | (True, h) \<Rightarrow>
                    (case keybd_write KBD_CMD_SET_DEFAULT h of
                       (False, h) \<Rightarrow> (False, h)
                     | (True, h) \<Rightarrow>
                         (case keybd_write KBD_CMD_ENABLE_SCAN h of
                            (False, h) \<Rightarrow> (False, h)
                          | (True, h) \<Rightarrow> (True, i8042_flush 32 h))))))"

definition keybd_init :: "keybd \<Rightarrow> bool \<times> keybd" where
  "keybd_init kb =
     (let kb = kb\<lparr>key_count := 0, key_code := replicate MAX_KEY 0\<rparr>; (ok, h) = kbd_setup (kb_pio kb)
      in (ok, kb\<lparr>kb_pio := h\<rparr>))"

section \<open>Keys\<close>

definition extended_index :: "u8 \<Rightarrow> u8 option" where
  "extended_index scancode =
     (if scancode = 0x1C then Some 0x60
      else if scancode = 0x1D then Some 0x61
      else if scancode = 0x35 then Some 0x62
      else if scancode = 0x47 then Some 0x66
      else if scancode = 0x48 then Some 0x67
      else if scancode = 0x4B then Some 0x69
      else if scancode = 0x4D then Some 0x6A
      else if scancode = 0x4F then Some 0x6B
      else if scancode = 0x50 then Some 0x6C
      else None)"

definition translate_scancode :: "keydefs \<Rightarrow> u8 \<Rightarrow> bool \<Rightarrow> u8" where
  "translate_scancode k scancode extended =
     (case (if extended then extended_index scancode else Some scancode) of
        None \<Rightarrow> 0
      | Some i \<Rightarrow> if unat i \<ge> 128 then 0 else keymap k ! unat i)"

definition key_press :: "u8 \<Rightarrow> keybd \<Rightarrow> keybd" where
  "key_press c kb =
     (if c \<in> set (take (key_count kb) (key_code kb)) then kb
      else if key_count kb < MAX_KEY then
        kb\<lparr>key_code := (key_code kb)[key_count kb := c], key_count := key_count kb + 1\<rparr>
      else kb)"

function shift_left :: "nat \<Rightarrow> nat \<Rightarrow> u8 list \<Rightarrow> u8 list" where
  "shift_left j n ks = (if j + 1 < n then shift_left (j + 1) n (ks[j := ks ! (j + 1)]) else ks)"
  by pat_completeness auto
termination by (relation "measure (\<lambda>(j, n, ks). n - j)") auto

declare shift_left.simps [simp del]

function release_from :: "nat \<Rightarrow> u8 \<Rightarrow> keybd \<Rightarrow> keybd" where
  "release_from i c kb =
     (if i < key_count kb then
        (if key_code kb ! i = c then
           kb\<lparr>key_code := shift_left i (key_count kb) (key_code kb), key_count := key_count kb - 1\<rparr>
         else release_from (i + 1) c kb)
      else kb)"
  by pat_completeness auto
termination by (relation "measure (\<lambda>(i, c, kb). key_count kb - i)") auto

declare release_from.simps [simp del]

definition key_release :: "u8 \<Rightarrow> keybd \<Rightarrow> keybd" where
  "key_release c kb = release_from 0 c kb"

definition keybd_byte :: "keydefs \<Rightarrow> u8 \<Rightarrow> keybd \<Rightarrow> keybd" where
  "keybd_byte k raw kb =
     (if raw = 0xE0 then kb\<lparr>kb_extended := True\<rparr>
      else if raw = 0xE1 \<or> raw = KBD_ACK then kb\<lparr>kb_extended := False\<rparr>
      else
        let key = translate_scancode k (raw AND 0x7F) (kb_extended kb);
            kb = kb\<lparr>kb_extended := False\<rparr>
        in if key = 0 then kb
           else (if raw AND 0x80 \<noteq> 0 then key_release key kb else key_press key kb)\<lparr>kb_wakeup := True\<rparr>)"

definition keybd_interrupt_handle :: "keydefs \<Rightarrow> keybd \<Rightarrow> keybd" where
  "keybd_interrupt_handle k kb =
     (let (status, h) = x86_inb I8042_STATUS_PORT (kb_pio kb); kb = kb\<lparr>kb_pio := h\<rparr>
      in if status AND I8042_STATUS_OBF = 0 \<or> status AND I8042_STATUS_AUX \<noteq> 0 then kb
         else let (raw, h) = x86_inb I8042_DATA_PORT h in keybd_byte k raw (kb\<lparr>kb_pio := h\<rparr>))"

definition keybd_read :: "nat \<Rightarrow> keybd \<Rightarrow> u8 list option" where
  "keybd_read msz kb =
     (let out = take (min (key_count kb) msz) (key_code kb) in if out = [] then None else Some out)"

definition keybd_loop :: "keybd \<Rightarrow> bool \<times> keybd" where
  "keybd_loop kb = (kb_wakeup kb, kb\<lparr>kb_wakeup := False\<rparr>)"

end
