(* ===== verification/Ps2_Keyboard_Props.thy ===== *)
theory Ps2_Keyboard_Props
  imports Ps2_Keyboard
begin

text \<open>
  Properties of the PS/2 keyboard daemon: its translation is the US layout of a scan code set 1 keyboard, and as long
  as no two keys with the same code are used together the key array holds the codes of the keys that
  are down, in the order of pressing; releasing one of two such keys loses the other.
\<close>

section \<open>Held keys\<close>

definition held :: "keybd \<Rightarrow> u8 list" where
  "held kb = take (key_count kb) (key_code kb)"

definition kb_inv :: "keybd \<Rightarrow> bool" where
  "kb_inv kb \<longleftrightarrow> length (key_code kb) = 6 \<and> key_count kb \<le> 6 \<and> distinct (held kb)"

lemma held_length: "kb_inv kb \<Longrightarrow> length (held kb) = key_count kb"
  by (simp add: kb_inv_def held_def)

lemma press_held:
  assumes "kb_inv kb"
  shows "held (key_press c kb) = (if c \<in> set (held kb) \<or> length (held kb) = 6 then held kb else held kb @ [c])"
    and "kb_inv (key_press c kb)"
proof -
  show h: "held (key_press c kb) = (if c \<in> set (held kb) \<or> length (held kb) = 6 then held kb else held kb @ [c])"
    using assms by (auto simp: key_press_def kb_inv_def held_def MAX_KEY_def take_Suc_update)
  show "kb_inv (key_press c kb)"
    using assms h by (auto simp: kb_inv_def key_press_def MAX_KEY_def held_def [symmetric])
qed

lemma shift_left_length [simp]: "length (shift_left j n ks) = length ks"
  by (induction j n ks rule: shift_left.induct) (simp add: shift_left.simps)

lemma shift_left_nth:
  "n \<le> length ks \<Longrightarrow> shift_left j n ks ! i = (if j \<le> i \<and> i + 1 < n then ks ! (i + 1) else ks ! i)"
proof (induction j n ks rule: shift_left.induct)
  case (1 j n ks)
  then show ?case by (auto simp: shift_left.simps [of j] nth_list_update not_less_eq_eq dest: le_antisym)
qed

lemma shift_left_take:
  assumes "n \<le> length ks" "j < n"
  shows "take (n - 1) (shift_left j n ks) = take j ks @ drop (Suc j) (take n ks)"
proof (rule nth_equalityI)
  fix i assume "i < length (take (n - 1) (shift_left j n ks))"
  with assms show "take (n - 1) (shift_left j n ks) ! i = (take j ks @ drop (Suc j) (take n ks)) ! i"
    by (auto simp: shift_left_nth nth_append)
qed (use assms in auto)

lemma release_from_held:
  assumes "kb_inv kb" "c \<notin> set (take i (held kb))" "i \<le> key_count kb"
  shows "held (release_from i c kb) = remove1 c (held kb) \<and> length (key_code (release_from i c kb)) = 6 \<and>
    key_count (release_from i c kb) \<le> 6"
  using assms
proof (induction i c kb rule: release_from.induct)
  case (1 i c kb)
  let ?ks = "key_code kb" and ?n = "key_count kb"
  have l: "length ?ks = 6" "?n \<le> 6" "length (held kb) = ?n" using "1.prems"(1) by (auto simp: kb_inv_def held_def)
  show ?case
  proof (cases "i < ?n")
    case False
    then have "c \<notin> set (held kb)" using "1.prems"(2,3) l by simp
    with False l show ?thesis by (simp add: release_from.simps [of i] remove1_idem)
  next
    case True
    have hi: "held kb ! i = ?ks ! i" using True by (simp add: held_def)
    show ?thesis
    proof (cases "?ks ! i = c")
      case eq: True
      have "held kb = take i (held kb) @ c # drop (Suc i) (held kb)"
        using True l eq hi id_take_nth_drop [of i "held kb"] by simp
      then have "remove1 c (held kb) = take i (held kb) @ drop (Suc i) (held kb)"
        using "1.prems"(2) by (metis remove1_append remove1.simps(2))
      moreover have "take i (held kb) = take i ?ks" using True by (simp add: held_def min_def)
      ultimately show ?thesis
        using True eq l shift_left_take [of ?n ?ks i]
        by (simp add: release_from.simps [of i] held_def)
    next
      case False
      have "c \<notin> set (take (i + 1) (held kb))"
        using "1.prems"(2) True False hi l by (simp add: take_Suc_conv_app_nth)
      with 1 True False show ?thesis by (simp add: release_from.simps [of i])
    qed
  qed
qed

lemma release_held:
  assumes "kb_inv kb"
  shows "held (key_release c kb) = remove1 c (held kb)" and "kb_inv (key_release c kb)"
  using release_from_held [OF assms, of c 0] assms by (auto simp: key_release_def kb_inv_def)

lemma held_frame [simp]:
  "held (kb\<lparr>kb_extended := b\<rparr>) = held kb" "held (kb\<lparr>kb_wakeup := b\<rparr>) = held kb" "held (kb\<lparr>kb_pio := h\<rparr>) = held kb"
  "kb_inv (kb\<lparr>kb_extended := b\<rparr>) = kb_inv kb" "kb_inv (kb\<lparr>kb_wakeup := b\<rparr>) = kb_inv kb"
  "kb_inv (kb\<lparr>kb_pio := h\<rparr>) = kb_inv kb"
  by (simp_all add: held_def kb_inv_def)

lemma press_extended [simp]: "kb_extended (key_press c kb) = kb_extended kb"
  by (simp add: key_press_def)

lemma release_extended [simp]: "kb_extended (key_release c kb) = kb_extended kb"
proof -
  have "kb_extended (release_from i c kb) = kb_extended kb" for i
    by (induction i c kb rule: release_from.induct) (subst release_from.simps, simp)
  then show ?thesis by (simp add: key_release_def)
qed

section \<open>Scan codes\<close>

text \<open>A key going down or up, and the bytes the keyboard sends for it.\<close>

record key_event =
  ke_ext :: bool
  ke_code :: u8
  ke_release :: bool

definition event_byte :: "key_event \<Rightarrow> u8" where
  "event_byte e = (if ke_release e then ke_code e OR 0x80 else ke_code e)"

definition event_bytes :: "key_event \<Rightarrow> u8 list" where
  "event_bytes e = (if ke_ext e then [0xE0] else []) @ [event_byte e]"

text \<open>A keyboard of scan code set 1 sends no plain codes above \<open>0x58\<close>.\<close>

definition valid_event :: "key_event \<Rightarrow> bool" where
  "valid_event e \<longleftrightarrow> ke_code e AND 0x80 = 0 \<and> (\<not> ke_ext e \<longrightarrow> ke_code e \<le> 0x58) \<and> event_byte e \<notin> {0xE0, 0xE1, 0xFA}"

section \<open>The keyboard\<close>

text \<open>
  The specification knows nothing of the driver's table. A physical key is its prefix and scan code; the layout is
  given by the rows of the keyboard, the scan code of the first key of a row and the legends from left to
  right, and by the keys with a prefix. A key without a legend has code 0.
\<close>

type_synonym phys_key = "bool \<times> u8"

definition us_rows :: "keydefs \<Rightarrow> (u8 \<times> u8 list) list" where
  "us_rows k =
     [(0x01, [KEY_ESC k] @ map ch ''1234567890-='' @ [KEY_BACKSPACE k]),
      (0x0F, [KEY_TAB k] @ map ch ''qwertyuiop[]'' @ [KEY_ENTER k]),
      (0x1D, [KEY_CTRL k] @ map ch ''asdfghjkl;'' @ [39, 96]),
      (0x2A, [KEY_LSHIFT k, 92] @ map ch ''zxcvbnm,./'' @ [KEY_RSHIFT k]),
      (0x39, [KEY_SPACE k]), (0x56, [ch CHR ''<''])]"

definition us_prefixed :: "keydefs \<Rightarrow> (u8 \<times> u8) list" where
  "us_prefixed k = [(0x1C, KEY_ENTER k), (0x1D, KEY_CTRL k), (0x35, ch CHR ''/''), (0x47, KEY_HOME k), (0x48, KEY_UP k),
     (0x4B, KEY_LEFT k), (0x4D, KEY_RIGHT k), (0x4F, KEY_END k), (0x50, KEY_DOWN k)]"

fun row_legend :: "(u8 \<times> u8 list) list \<Rightarrow> u8 \<Rightarrow> u8" where
  "row_legend [] c = 0"
| "row_legend ((first, ls) # rows) c =
     (if first \<le> c \<and> unat (c - first) < length ls then ls ! unat (c - first) else row_legend rows c)"

definition legend :: "keydefs \<Rightarrow> phys_key \<Rightarrow> u8" where
  "legend k = (\<lambda>(ext, c). if ext then (case map_of (us_prefixed k) c of None \<Rightarrow> 0 | Some l \<Rightarrow> l) else row_legend (us_rows k) c)"

definition event_key :: "key_event \<Rightarrow> phys_key" where
  "event_key e = (ke_ext e, ke_code e)"

text \<open>The keys that are down after a list of events, in the order of pressing; a repeated press is no new one.\<close>

definition phys_step :: "key_event \<Rightarrow> phys_key list \<Rightarrow> phys_key list" where
  "phys_step e ps = (if ke_release e then remove1 (event_key e) ps else if event_key e \<in> set ps then ps else ps @ [event_key e])"

definition keys_down :: "key_event list \<Rightarrow> phys_key list" where
  "keys_down es = fold phys_step es []"

definition codes :: "keydefs \<Rightarrow> phys_key list \<Rightarrow> u8 list" where
  "codes k ps = filter (\<lambda>c. c \<noteq> 0) (map (legend k) ps)"

text \<open>No key is pressed or released while another one with the same code is down.\<close>

definition alone :: "keydefs \<Rightarrow> phys_key \<Rightarrow> phys_key list \<Rightarrow> bool" where
  "alone k p ps \<longleftrightarrow> list_all (\<lambda>q. q = p \<or> legend k q = 0 \<or> legend k q \<noteq> legend k p) ps"

definition no_twins :: "keydefs \<Rightarrow> key_event list \<Rightarrow> bool" where
  "no_twins k es \<longleftrightarrow> list_all (\<lambda>n. alone k (event_key (es ! n)) (keys_down (take n es))) [0..<length es]"

text \<open>The driver's table is this layout.\<close>

lemma plain_layout: "take 0x59 (keymap k) = map (\<lambda>i. legend k (False, of_nat i)) [0..<0x59]"
  by code_simp

lemma prefixed_codes: "list_all (\<lambda>(c, l). translate_scancode k c True = l) (us_prefixed k)"
  by code_simp

lemma translate_legend:
  assumes "\<not> ext \<longrightarrow> c \<le> 0x58"
  shows "translate_scancode k c ext = legend k (ext, c)"
proof (cases ext)
  case True
  have "translate_scancode k c True = 0" if "c \<notin> fst ` set (us_prefixed k)"
    using that by (auto simp: us_prefixed_def translate_scancode_def extended_index_def)
  moreover have "translate_scancode k c True = l" if "map_of (us_prefixed k) c = Some l" for l
    using prefixed_codes [of k] map_of_SomeD [OF that] by (auto simp: list_all_iff)
  ultimately show ?thesis using True by (auto simp: legend_def map_of_eq_None_iff split: option.split)
next
  case False
  then have c: "unat c < 0x59" using assms by (simp add: word_le_nat_alt)
  then have "keymap k ! unat c = legend k (False, of_nat (unat c))"
    using arg_cong [OF plain_layout [of k], of "\<lambda>ls. ls ! unat c"] by (simp del: upt_conv_Cons)
  then show ?thesis using False c by (simp add: translate_scancode_def)
qed

lemma code_bits:
  assumes "(c :: u8) AND 0x80 = 0"
  shows "c AND 0x7F = c" "(c OR 0x80) AND 0x7F = c" "(c OR 0x80) AND 0x80 \<noteq> 0"
proof -
  have e: "(0x80 :: u8) = 2 ^ 7" "(0x7F :: u8) = mask 7" by (simp_all add: mask_eq_exp_minus_1)
  have "\<not> bit c 7" using assms unfolding e and_exp_eq_0_iff_not_bit .
  moreover have "bit c n \<Longrightarrow> n < 8" for n using bit_imp_le_length [of c n] by simp
  ultimately have n: "bit c n \<Longrightarrow> n < 7" for n by (metis less_Suc_eq numeral_eq_Suc pred_numeral_simps(3) BitM.simps(1) less_SucE Suc_numeral semiring_norm(2,8) add_num_simps(2))
  show "c AND 0x7F = c" "(c OR 0x80) AND 0x7F = c"
    unfolding e
    by (rule bit_eqI; auto simp: bit_and_iff bit_or_iff bit_mask_iff bit_exp_iff simp del: power_numeral dest: n)+
  have "bit (c OR 2 ^ 7) 7" by (simp add: bit_or_iff bit_exp_iff)
  then show "(c OR 0x80) AND 0x80 \<noteq> 0" unfolding e and_exp_eq_0_iff_not_bit by simp
qed

lemma byte_effect:
  assumes "valid_event e" "kb_extended kb = ke_ext e" "kb_inv kb"
  shows "held (keybd_byte k (event_byte e) kb) =
      (if legend k (event_key e) = 0 then held kb
       else if ke_release e then remove1 (legend k (event_key e)) (held kb)
       else if legend k (event_key e) \<in> set (held kb) \<or> length (held kb) = 6 then held kb
       else held kb @ [legend k (event_key e)])"
    and "kb_inv (keybd_byte k (event_byte e) kb)" and "\<not> kb_extended (keybd_byte k (event_byte e) kb)"
proof -
  have b: "event_byte e AND 0x7F = ke_code e" "event_byte e AND 0x80 \<noteq> 0 \<longleftrightarrow> ke_release e"
    using assms(1) code_bits [of "ke_code e"] by (auto simp: valid_event_def event_byte_def)
  have r: "keybd_byte k (event_byte e) kb =
      (let kb' = kb\<lparr>kb_extended := False\<rparr>
       in if legend k (event_key e) = 0 then kb'
          else (if ke_release e then key_release (legend k (event_key e)) kb' else key_press (legend k (event_key e)) kb')\<lparr>kb_wakeup := True\<rparr>)"
    using assms(1,2) b translate_legend [of "ke_ext e" "ke_code e" k]
    by (simp add: keybd_byte_def valid_event_def event_key_def KBD_ACK_def Let_def)
  have i: "kb_inv (kb\<lparr>kb_extended := False\<rparr>)" using assms(3) by simp
  show "held (keybd_byte k (event_byte e) kb) =
      (if legend k (event_key e) = 0 then held kb
       else if ke_release e then remove1 (legend k (event_key e)) (held kb)
       else if legend k (event_key e) \<in> set (held kb) \<or> length (held kb) = 6 then held kb
       else held kb @ [legend k (event_key e)])"
    "kb_inv (keybd_byte k (event_byte e) kb)" "\<not> kb_extended (keybd_byte k (event_byte e) kb)"
    using assms(3) i by (auto simp: r Let_def press_held release_held)
qed

lemma codes_remove:
  "alone k p ps \<Longrightarrow> codes k (remove1 p ps) = (if legend k p = 0 then codes k ps else remove1 (legend k p) (codes k ps))"
  by (induction ps) (auto simp: alone_def codes_def)

lemma codes_member: "alone k p ps \<Longrightarrow> legend k p \<noteq> 0 \<Longrightarrow> legend k p \<in> set (codes k ps) \<longleftrightarrow> p \<in> set ps"
  by (auto simp: alone_def codes_def list_all_iff)

lemma event_effect:
  fixes k :: keydefs
  assumes "valid_event e" "\<not> kb_extended kb" "kb_inv kb" "held kb = codes k ps" "alone k (event_key e) ps"
    "length (codes k (phys_step e ps)) \<le> 6"
  defines "kb' \<equiv> fold (keybd_byte k) (event_bytes e) kb"
  shows "kb_inv kb'" "\<not> kb_extended kb'" "held kb' = codes k (phys_step e ps)"
proof -
  define kb1 where "kb1 = (if ke_ext e then kb\<lparr>kb_extended := True\<rparr> else kb)"
  have k1: "kb' = keybd_byte k (event_byte e) kb1" "kb_extended kb1 = ke_ext e" "kb_inv kb1" "held kb1 = held kb"
    using assms(2,3) by (auto simp: kb'_def kb1_def event_bytes_def keybd_byte_def)
  note b = byte_effect [OF assms(1) k1(2,3), where k = k, folded k1(1), unfolded k1(4)]
  show "kb_inv kb'" "\<not> kb_extended kb'" using b(2,3) by simp_all
  have "codes k (ps @ [p]) = codes k ps @ (if legend k p = 0 then [] else [legend k p])" for p
    by (simp add: codes_def)
  with b(1) assms(4,6) codes_remove [OF assms(5)] codes_member [OF assms(5)]
  show "held kb' = codes k (phys_step e ps)" by (auto simp: phys_step_def split: if_splits)
qed

text \<open>
  C16. The keyboard follows the keys: with the US layout of the keyboard, as long as at most six keys with a code are
  down at any moment and no key is pressed or released while another key with the same code is down,
  after any sequence of key events the array holds the codes of the keys that are down, in the order
  of pressing and each once, and a client read with room for six returns them.
\<close>

theorem keyboard_tracks_keys:
  fixes k :: keydefs
  assumes "kb_inv kb" "\<not> kb_extended kb" "held kb = []" "list_all valid_event es" "no_twins k es"
    "\<And>n. length (codes k (keys_down (take n es))) \<le> 6"
  defines "kb' \<equiv> fold (keybd_byte k) (concat (map event_bytes es)) kb"
  shows "held kb' = codes k (keys_down es) \<and> distinct (held kb') \<and>
    keybd_read 6 kb' = (if codes k (keys_down es) = [] then None else Some (held kb'))"
proof -
  have "kb_inv kb' \<and> \<not> kb_extended kb' \<and> held kb' = codes k (keys_down es)"
    unfolding kb'_def using assms(4-6)
  proof (induction es rule: rev_induct)
    case Nil
    with assms(1-3) show ?case by (simp add: keys_down_def codes_def)
  next
    case (snoc e es)
    let ?kb = "fold (keybd_byte k) (concat (map event_bytes es)) kb"
    have "length (codes k (keys_down (take n es))) \<le> 6" for n
      using snoc.prems(3) [of "min n (length es)"] by (simp add: min_def split: if_splits)
    moreover have "no_twins k es" "alone k (event_key e) (keys_down es)"
      using snoc.prems(2) by (auto simp: no_twins_def list_all_iff nth_append)
    ultimately have ih: "kb_inv ?kb" "\<not> kb_extended ?kb" "held ?kb = codes k (keys_down es)" "alone k (event_key e) (keys_down es)"
      using snoc by auto
    have dk: "keys_down (es @ [e]) = phys_step e (keys_down es)" by (simp add: keys_down_def)
    have "length (codes k (phys_step e (keys_down es))) \<le> 6" using snoc.prems(3) [of "length (es @ [e])"] dk by simp
    with event_effect [OF _ ih(2,1,3,4)] snoc.prems(1) dk show ?case by simp
  qed
  then show ?thesis
    by (auto simp: kb_inv_def keybd_read_def held_def Let_def min_def)
qed

definition demo_keydefs :: keydefs where
  "demo_keydefs = \<lparr>KEY_ESC = 27, KEY_BACKSPACE = 8, KEY_TAB = 9, KEY_ENTER = 13, KEY_CTRL = 17, KEY_LSHIFT = 14,
     KEY_RSHIFT = 15, KEY_SPACE = 32, KEY_HOME = 1, KEY_UP = 2, KEY_LEFT = 3, KEY_RIGHT = 4, KEY_END = 5, KEY_DOWN = 6\<rparr>"

definition demo_keybd :: keybd where
  "demo_keybd = \<lparr>key_count = 0, key_code = replicate 6 0, kb_extended = False, kb_wakeup = False,
     kb_pio = \<lparr>pio_in = [], pio_out = []\<rparr>\<rparr>"

text \<open>Press the up arrow and the letter a, release the arrow.\<close>

definition demo_events :: "key_event list" where
  "demo_events = [\<lparr>ke_ext = True, ke_code = 0x48, ke_release = False\<rparr>,
     \<lparr>ke_ext = False, ke_code = 0x1E, ke_release = False\<rparr>, \<lparr>ke_ext = True, ke_code = 0x48, ke_release = True\<rparr>]"

lemma demo_keys:
  "legend demo_keydefs (True, 0x48) = 2" "legend demo_keydefs (False, 0x1E) = 97"
  by code_simp+

lemma demo_down:
  "keys_down demo_events = [(False, 0x1E)]" "keys_down (take (Suc 0) demo_events) = [(True, 0x48)]"
  "keys_down (take (Suc (Suc 0)) demo_events) = [(True, 0x48), (False, 0x1E)]" "keys_down [] = []"
  by (auto simp: keys_down_def demo_events_def event_key_def phys_step_def)

theorem keyboard_tracks_keys_witness:
  "held (fold (keybd_byte demo_keydefs) [0xE0, 0x48, 0x1E, 0xE0, 0xC8] demo_keybd) = [97]"
proof -
  have "length (codes demo_keydefs (keys_down (take n demo_events))) \<le> 6" for n
  proof -
    have "n = 0 \<or> n = Suc 0 \<or> n = Suc (Suc 0) \<or> 3 \<le> n" by linarith
    moreover have "take n demo_events = demo_events" if "3 \<le> n" using that by (simp add: demo_events_def)
    ultimately show ?thesis by (elim disjE) (simp_all add: demo_down codes_def)
  qed
  moreover have "kb_inv demo_keybd" "\<not> kb_extended demo_keybd" "held demo_keybd = []"
    by (simp_all add: kb_inv_def held_def demo_keybd_def)
  moreover have "list_all valid_event demo_events"
    by (simp add: demo_events_def valid_event_def event_byte_def)
  moreover have "no_twins demo_keydefs demo_events" by code_simp
  ultimately have "held (fold (keybd_byte demo_keydefs) (concat (map event_bytes demo_events)) demo_keybd) =
      codes demo_keydefs (keys_down demo_events)"
    using keyboard_tracks_keys [of demo_keybd demo_events demo_keydefs] by blast
  moreover have "concat (map event_bytes demo_events) = [0xE0, 0x48, 0x1E, 0xE0, 0xC8]"
    by (simp add: demo_events_def event_bytes_def event_byte_def)
  ultimately show ?thesis by (simp add: demo_down codes_def demo_keys)
qed

text \<open>
  Both control keys have one code: when both are held and the right one is released, the array is empty although the left
  one is still down.
\<close>

theorem twin_key_lost:
  fixes k :: keydefs
  assumes "kb_inv kb" "\<not> kb_extended kb" "held kb = []" "KEY_CTRL k \<noteq> 0"
    and "es = [\<lparr>ke_ext = False, ke_code = 0x1D, ke_release = False\<rparr>, \<lparr>ke_ext = True, ke_code = 0x1D, ke_release = False\<rparr>,
      \<lparr>ke_ext = True, ke_code = 0x1D, ke_release = True\<rparr>]"
  shows "keys_down es = [(False, 0x1D)]" "held (fold (keybd_byte k) (concat (map event_bytes es)) kb) = []"
proof -
  show "keys_down es = [(False, 0x1D)]" by (simp add: assms(5) keys_down_def phys_step_def event_key_def)
  have l: "translate_scancode k 0x1D ext = KEY_CTRL k" for ext
    by (cases ext) (simp_all add: translate_legend legend_def us_prefixed_def us_rows_def)
  show "held (fold (keybd_byte k) (concat (map event_bytes es)) kb) = []"
    using assms(1,3,4)
    by (simp add: assms(5) event_bytes_def event_byte_def keybd_byte_def l KBD_ACK_def Let_def press_held release_held)
qed

section \<open>Setup\<close>

text \<open>The six port writes of a complete setup, for the configuration byte read from the controller.\<close>

definition setup_dialogue :: "u8 \<Rightarrow> (u16 \<times> u8) list" where
  "setup_dialogue cfg =
     [(0x64, 0x20), (0x64, 0x60), (0x60, (cfg OR 0x01) AND NOT 0x10), (0x64, 0xAE), (0x60, 0xF6), (0x60, 0xF4)]"

lemma keybd_write_out:
  "keybd_write v h = (ok, h') \<Longrightarrow> pio_out h' = pio_out h \<and> \<not> ok \<or> pio_out h' = pio_out h @ [(0x60, v)]"
  by (auto simp: keybd_write_def kbd_write_data_def kbd_read_data_def I8042_DATA_PORT_def
      split: prod.splits bool.splits dest!: write_data_out read_data_out)

lemma kbd_write_cfg_out:
  assumes "kbd_write_cfg v h = (ok, h')"
  shows "\<exists>n \<le> 2. pio_out h' = pio_out h @ take n [(0x64, 0x60), (0x60, v)] \<and> (ok \<longrightarrow> n = 2)"
proof -
  obtain b h1 where c: "i8042_write_cmd KBD_WAIT_LOOPS I8042_CMD_WRITE_CFG h = (b, h1)" by fastforce
  obtain d h2 where w: "i8042_write_data KBD_WAIT_LOOPS v h1 = (d, h2)" by fastforce
  have "ok = (b \<and> d)" "h' = (if b then h2 else h1)"
    using assms by (auto simp: kbd_write_cfg_def i8042_write_cfg_def c w split: bool.splits)
  then show ?thesis
    using write_cmd_out [OF c] write_data_out [OF w]
    by (cases b; cases d) (auto simp: i8042_consts intro: exI [of _ 0] exI [of _ 1] exI [of _ 2])
qed

text \<open>
  Setup follows one dialogue: whatever the controller answers and however often it is busy, the
  bytes written are an initial part of the six-step dialogue, all of it when setup reports success;
  in particular scanning is enabled only after every earlier step was accepted.
\<close>

theorem keybd_init_dialogue:
  assumes "keybd_init kb = (ok, kb')"
  shows "\<exists>cfg n. pio_out (kb_pio kb') = pio_out (kb_pio kb) @ take n (setup_dialogue cfg) \<and> (ok \<longrightarrow> n = 6)"
proof -
  define h where "h = i8042_flush 32 (kb_pio kb)"
  have h: "pio_out h = pio_out (kb_pio kb)" by (simp add: h_def)
  define v where "v = (\<lambda>cfg. (cfg OR I8042_CFG_KBD_IRQ) AND NOT I8042_CFG_KBD_CLK_DISABLE)"
  obtain r h1 where 1: "kbd_read_cfg h = (r, h1)" by fastforce
  obtain cfg where cfg: "r = Some cfg \<or> r = None" by (cases r) auto
  obtain b2 h2 where 2: "kbd_write_cfg (v cfg) h1 = (b2, h2)" by fastforce
  obtain b3 h3 where 3: "kbd_write_cmd I8042_CMD_ENABLE_KBD h2 = (b3, h3)" by fastforce
  obtain b4 h4 where 4: "keybd_write KBD_CMD_SET_DEFAULT h3 = (b4, h4)" by fastforce
  obtain b5 h5 where 5: "keybd_write KBD_CMD_ENABLE_SCAN h4 = (b5, h5)" by fastforce
  have "(ok, kb_pio kb') = kbd_setup (kb_pio kb)"
    using assms by (auto simp: keybd_init_def Let_def split: prod.splits)
  then have run: "(ok, kb_pio kb') =
      (if r = None then (False, h1) else if \<not> b2 then (False, h2) else if \<not> b3 then (False, h3)
       else if \<not> b4 then (False, h4) else if \<not> b5 then (False, h5) else (True, i8042_flush 32 h5))"
    using cfg 2 [unfolded v_def] unfolding kbd_setup_def h_def [symmetric]
    by (auto simp: 1 3 4 5 split: bool.splits)
  have o1: "pio_out h1 = pio_out h \<or> pio_out h1 = pio_out h @ [(0x64, 0x20)]"
      "r \<noteq> None \<Longrightarrow> pio_out h1 = pio_out h @ [(0x64, 0x20)]"
    using read_cfg_out [of KBD_WAIT_LOOPS h r h1] 1 by (auto simp: kbd_read_cfg_def i8042_consts)
  obtain n2 where o2: "n2 \<le> 2" "pio_out h2 = pio_out h1 @ take n2 [(0x64, 0x60), (0x60, v cfg)]" "b2 \<longrightarrow> n2 = 2"
    using kbd_write_cfg_out [OF 2] by blast
  have o3: "pio_out h3 = pio_out h2 @ (if b3 then [(0x64, 0xAE)] else [])"
    using write_cmd_out [of KBD_WAIT_LOOPS I8042_CMD_ENABLE_KBD h2 b3 h3] 3
    by (simp add: kbd_write_cmd_def I8042_CMD_PORT_def I8042_CMD_ENABLE_KBD_def)
  have o4: "pio_out h4 = pio_out h3 \<and> \<not> b4 \<or> pio_out h4 = pio_out h3 @ [(0x60, 0xF6)]"
    using keybd_write_out [OF 4] by (simp add: KBD_CMD_SET_DEFAULT_def)
  have o5: "pio_out h5 = pio_out h4 \<and> \<not> b5 \<or> pio_out h5 = pio_out h4 @ [(0x60, 0xF4)]"
    using keybd_write_out [OF 5] by (simp add: KBD_CMD_ENABLE_SCAN_def)
  have d: "setup_dialogue cfg =
      [(0x64, 0x20), (0x64, 0x60), (0x60, v cfg), (0x64, 0xAE), (0x60, 0xF6), (0x60, 0xF4)]"
    by (simp add: setup_dialogue_def v_def I8042_CFG_KBD_IRQ_def I8042_CFG_KBD_CLK_DISABLE_def)
  define G where "G n \<longleftrightarrow> pio_out (kb_pio kb') = pio_out h @ take n (setup_dialogue cfg) \<and> (ok \<longrightarrow> n = 6)" for n :: nat
  consider "r = None" | "r \<noteq> None" "\<not> b2" | "r \<noteq> None" b2 "\<not> b3" | "r \<noteq> None" b2 b3 "\<not> b4"
    | "r \<noteq> None" b2 b3 b4 by blast
  then have "\<exists>n. G n"
  proof cases
    case 1
    with run o1 have "G 0 \<or> G 1" by (auto simp: d G_def)
    then show ?thesis by blast
  next
    case 2
    moreover have "n2 = 0 \<or> n2 = 1 \<or> n2 = 2" using o2(1) by auto
    ultimately have "G 1 \<or> G 2 \<or> G 3" using run o1(2) o2(2) by (auto simp: d G_def)
    then show ?thesis by blast
  next
    case 3
    with run o1(2) o2 o3 have "G 3" by (simp add: d G_def)
    then show ?thesis by blast
  next
    case 4
    with run o1(2) o2 o3 o4 have "G 4 \<or> G 5" by (auto simp: d G_def)
    then show ?thesis by blast
  next
    case 5
    with run o1(2) o2 o3 o4 o5 have "G 5 \<or> G 6" by (auto simp: d G_def split: if_splits)
    then show ?thesis by blast
  qed
  then show ?thesis unfolding G_def h by blast
qed

theorem keybd_init_dialogue_witness:
  "\<exists>cfg n. pio_out (kb_pio (snd (keybd_init demo_keybd))) = take n (setup_dialogue cfg)"
  using keybd_init_dialogue [of demo_keybd "fst (keybd_init demo_keybd)" "snd (keybd_init demo_keybd)"]
  by (auto simp: demo_keybd_def)

end
