(* ===== verification/Spec2Isabelle.thy ===== *)
theory Spec2Isabelle
  imports Ev3_Link_Props Ev3_Motor_Props Ev3_Claims Ev3_Led Ev3_Touch Ev3_I2cd Ev3_Beep Ev3_Battery Ev3_Uartd Ev3_Adc
    Ev3_Keypad Ev3_Display Wlan_Qbuf Goodix_Props X86_Ttyd X86_Fbcon Q8b_Uartd Rpi5_Fan
    Sd_Cache_Props Ps2_Mouse_Props Ps2_Keyboard_Props
begin

text \<open>
  Verification of parts of the EwokOS machine ports (\<^verbatim>\<open>src/\<close>): user-space drivers and board libraries for
  several computers. The development models the code with its own state and protocols; a theory
  per component, the properties at the end of the theory or in a companion \<^verbatim>\<open>_Props\<close> theory.

  \<^bold>\<open>Shared theories.\<close> \<^verbatim>\<open>Prelude\<close>: C integers (words, 32-bit wrap-around, truncating division) and arrays.
  \<^verbatim>\<open>Interfaces\<close>: the contracts between components as locales: first-in first-out queues that refuse
  (\<open>bounded_fifo\<close>) or overwrite (\<open>overwrite_fifo\<close>) when full, arrays of pins, transition systems with
  an invariant, block devices; with the lemmas clients share (a burst of pushes, a series of pin
  writes, reachability, answering a list of requests like an ideal disk), and \<open>simulation\<close>: a daemon
  that follows an abstract specification step by step does so along every list of events. Each is
  interpreted on the model of the code in the theory of the component that provides it.

  \<^bold>\<open>LEGO EV3 sensor link.\<close> \<^verbatim>\<open>Ev3_Uart\<close> is the 16550 of \<^verbatim>\<open>uart.c\<close>; \<^verbatim>\<open>Ev3_Uart_Sensor\<close> and \<^verbatim>\<open>Ev3_Link\<close> are the
  protocol host of \<^verbatim>\<open>uart_sensor.c\<close>: receive ring filled by the interrupt, byte parser, handshake,
  keep-alive, watchdog, mode selection and CMD\_WRITE. \<^verbatim>\<open>Ev3_Link_Props\<close> shows the invariant of every
  reachable state, the round trip of data frames, that damaged frames are ignored, when the link
  comes up and when it drops, that mode selection gives up after ten tries, and the accounting of
  the receive interrupt.

  \<^bold>\<open>LEGO EV3 motors.\<close> \<^verbatim>\<open>Ev3_Gpio\<close> (\<^verbatim>\<open>gpio.c\<close>), \<^verbatim>\<open>Ev3_Port\<close> (\<^verbatim>\<open>port.c\<close>), \<^verbatim>\<open>Ev3_Pwm\<close> (\<^verbatim>\<open>pwm.c\<close>) and \<^verbatim>\<open>Ev3_Motor\<close>
  (\<^verbatim>\<open>motord.c\<close>, \<^verbatim>\<open>motor.h\<close>) are stacked as in the source: a motor command reaches the H-bridge pins and the
  PWM registers. Shown: the multiplexer and wiring tables are conflict free, the bridge truth table,
  the PWM on-time of a percentage, and in \<^verbatim>\<open>Ev3_Motor_Props\<close> that software and hardware agree in every
  reachable state, commands stay on their port, unplugging cuts the power, stall detection and the
  encoder count exactly, the speed PID never wraps, and where the position cascade does.

  \<^bold>\<open>LEGO EV3 sensor detection.\<close> \<^verbatim>\<open>Ev3_Detect\<close> (\<^verbatim>\<open>sensor_detect.c\<close>): naming by voltage, port search, the
  connection-type tree, peers. Classifying a port leaves everything outside it alone; two theorems
  record where the search and the detection differ from their documentation.

  \<^bold>\<open>LEGO EV3 sensor daemons.\<close> \<^verbatim>\<open>Ev3_Sensor_Dev\<close> is the request interface the daemons share
  (\<^verbatim>\<open>sensor_dev.c\<close>), \<^verbatim>\<open>Ev3_Uart_Sensord\<close> the generic UART sensor daemon (\<^verbatim>\<open>uart_sensord.c\<close>) that probes the
  ports, binds to one, runs the link above and drops it again. Clients are served between two rounds of its
  loop and in the middle of a probe; its \<^verbatim>\<open>_Props\<close> theory shows what every reachable state satisfies, and that
  the samples served during a probe show the claim. \<^verbatim>\<open>Ev3_Claims\<close> composes several probing daemons: with every interleaving of
  publishing a claim and asking the peers no port has two UART owners (a daemon pinned with \<^verbatim>\<open>-p\<close> does not ask
  and is left out), while their scans switch off the
  supply of a bound NXT sensor. \<^verbatim>\<open>Ev3_Touch\<close> (\<^verbatim>\<open>touchd.c\<close>) counts misses before it gives a sensor up; one theorem shows
  that an NXT touch sensor is never found.

  \<^bold>\<open>LEGO EV3 I2C.\<close> \<^verbatim>\<open>Ev3_I2c_Gpio\<close> is the bit-banged master of \<^verbatim>\<open>i2c_gpio.c\<close>: pin states, start, stop, bytes and
  acknowledge bits against an arbitrary device on the bus. \<^verbatim>\<open>Ev3_I2c_Props\<close> shows the sequence of wire
  events a transfer produces, from an idle bus back to an idle bus. \<^verbatim>\<open>Ev3_I2cd\<close> (\<^verbatim>\<open>i2cd.c\<close>) serves requests over it
  and \<^verbatim>\<open>Ev3_Nxt_Us\<close> is the ultrasonic daemon that never connects because it misreads a return value.

  \<^bold>\<open>LEGO EV3 outputs.\<close> \<^verbatim>\<open>Ev3_Led\<close> (\<^verbatim>\<open>led.c\<close>, \<^verbatim>\<open>ledd.c\<close>): the pins follow the requested pattern along every
  list of events. \<^verbatim>\<open>Ev3_Sound\<close> (\<^verbatim>\<open>sound.c\<close>): divider and period of a tone. \<^verbatim>\<open>Ev3_Beep\<close> (\<^verbatim>\<open>beepd.c\<close>): a beep is cut off at
  its deadline, a melody plays in order. \<^verbatim>\<open>Ev3_Battery\<close> (\<^verbatim>\<open>batteryd.c\<close>): the measured millivolts and percentage.

  \<^bold>\<open>LEGO EV3 serial line, converter, buttons and display.\<close> \<^verbatim>\<open>Ev3_Uartd\<close> (\<^verbatim>\<open>uartd.c\<close>, \<^verbatim>\<open>fifo.c\<close>): both byte streams pass
  unchanged within the capacity of the rings, given zero byte counts in the allocated memory, which the code does
  not set; interrupts are taken between client calls. Two theorems show what a reader gets after an overrun and
  what is sent from uninitialised memory. \<^verbatim>\<open>Ev3_Spi\<close> (\<^verbatim>\<open>spi.c\<close>) is the bus under \<^verbatim>\<open>Ev3_Adc\<close> (\<^verbatim>\<open>adcd/main.c\<close>),
  whose table keeps every conversion in the slot of its channel, and under \<^verbatim>\<open>Ev3_Display\<close> (\<^verbatim>\<open>st7586.c\<close>,
  \<^verbatim>\<open>fbdisplayd.c\<close>, \<^verbatim>\<open>framebuffer.c\<close>): after a flush the panel has received the shade of every pixel.
  \<^verbatim>\<open>Ev3_Keypad\<close> (\<^verbatim>\<open>gpio_keybd/keybd.c\<close>): the long press that switches the brick off.

  \<^bold>\<open>Raspberry Pi WLAN frame queue.\<close> \<^verbatim>\<open>Wlan_Qbuf\<close> (\<^verbatim>\<open>wlan/utils/qbuf.c\<close>): the ring of frame buffers with its free-running
  indices refines an ideal bounded queue.

  \<^bold>\<open>Q8B touch panel.\<close> \<^verbatim>\<open>Goodix_Protocol\<close> (\<^verbatim>\<open>goodix_protocol.c\<close>): the decoders never read outside their buffer
  (a read outside is \<open>None\<close>, sums and differences of sizes wrap at 64 bits) and the chip information round-trips. \<^verbatim>\<open>Goodix_Touch\<close> (\<^verbatim>\<open>goodixd.c\<close>): SPI transfers
  through the FIFOs, probe, event handler and queue. \<^verbatim>\<open>Goodix_Props\<close>: what a touch packet becomes, the retry
  delay, and that the error mask makes every transfer fail that reports received data. The polling loop
  of a transfer stops after 2000000 rounds, as in the source.

  \<^bold>\<open>SD storage.\<close> \<^verbatim>\<open>Sd_Card\<close> is the sector layer of \<^verbatim>\<open>sd.c\<close>, \<^verbatim>\<open>Sd_Cache\<close> the page cache \<^verbatim>\<open>bsp_sd.c\<close> above it. Both
  interpret the block-device locale; \<^verbatim>\<open>Sd_Cache_Props\<close> shows that the cached card answers every list of
  requests like an ideal disk whatever transfers and allocations fail, that fault-free cached reads
  equal driver reads, that hits cost nothing, and the limit of the cache key.

  \<^bold>\<open>PC keyboard and mouse.\<close> \<^verbatim>\<open>Ps2_Controller\<close>, \<^verbatim>\<open>Ps2_Mouse\<close> and \<^verbatim>\<open>Ps2_Keyboard\<close> model \<^verbatim>\<open>moused.c\<close> and \<^verbatim>\<open>keybd.c\<close> down
  to the controller ports. The event ring keeps the newest 63 events, every byte sequence keeps
  the state in bounds, movements round-trip, and the key array lists the codes a US layout gives the keys held
  down, in the order they were pressed, as long as no two of them share a code; one theorem shows what is
  lost when they do.

  \<^bold>\<open>PC consoles.\<close> \<^verbatim>\<open>Char_Dev\<close> holds what the console daemons share: the character buffer of an outside library as a
  record of operations, and line ends. \<^verbatim>\<open>X86_Ttyd\<close> (\<^verbatim>\<open>ttyd.c\<close>): the serial console loses no byte without counting it, and
  its input filter keeps exactly the undamaged bytes. \<^verbatim>\<open>X86_Vgacon\<close> and \<^verbatim>\<open>X86_Fbcon\<close> are the two back ends of
  \<^verbatim>\<open>vgacond.c\<close>: both show a window of the same endless canvas, as cells of text memory and as pixels of a frame
  buffer, and never write outside. Three theorems record flaws of the frame buffer back end, among them
  that a successful mapping is taken for a failure.

  \<^bold>\<open>Q8B serial console.\<close> \<^verbatim>\<open>Q8b_Geni\<close> holds the register layout and word packing the two Q8B daemons share,
  \<^verbatim>\<open>Q8b_Uartd\<close> (\<^verbatim>\<open>uartd.c\<close>) the console: which transfers of a write the controller completes, the round trip of received words, and the
  bounds of the idle delay.

  \<^bold>\<open>Raspberry Pi 5 pins and fan.\<close> \<^verbatim>\<open>Rp1_Gpio\<close> (\<^verbatim>\<open>arch_bcm2712/src/gpio.c\<close>) is the register file with its set and clear
  views; driving a pin leaves the others alone. \<^verbatim>\<open>Rpi5_Fan\<close> (\<^verbatim>\<open>fand.c\<close>): registers and setting agree in every reachable state.

  \<^bold>\<open>Environment.\<close> Hardware and other processes are arguments or event lists over which the theorems
  quantify: port input bytes, outcomes of card commands and allocations, ADC samples, settled GPIO
  inputs, the device on an I2C bus, the answers of peer daemons, the clock. Loops are total functions
  with termination proofs. A loop that polls the environment takes the list of what it will see, one
  entry per round, and returns \<open>None\<close> only when the list is too short; that long enough lists end it
  is proved with the loop.

  \<^bold>\<open>Plan.\<close> Next: the socket buffers of the WLAN driver, the firmware mailbox daemon of the Raspberry Pi 5, further boards.

  \<^bold>\<open>Not modelled.\<close> Vendored compilers (Mesa), firmware images, ported WLAN drivers, kernel boot code and
  register-level controller sequences whose meaning is hardware timing: they have no state of their
  own that a theorem could speak about without a model of the device. The component list of the
  manifest names each part.
\<close>

end
